(* ===== verification/Prelude.thy ===== *)
theory Prelude
  imports Main "HOL-Library.Char_ord" "HOL-Library.List_Lexorder" "HOL-Library.Product_Lexorder"
    "HOL-Library.Word" "HOL-Library.Sublist" "HOL-Library.Multiset"
begin

text \<open>
  The generic part of the library: the error type of \<open>crates/okc-core/src/error.rs\<close>, the
  combinators in which every fallible validator of the code is written, the ordered map that
  stands for \<open>BTreeMap\<close>, and the lemmas on strictly sorted and duplicate-free lists that the
  components share.

  A Rust \<open>String\<close> is its UTF-8 byte sequence, an Isabelle \<open>string\<close> whose characters are
  bytes. \<open>Char_ord\<close> and \<open>List_Lexorder\<close> give it the byte-wise lexicographic order that Rust's
  \<open>Ord\<close> for \<open>str\<close> and \<open>Vec<u8>\<close> has, \<open>Product_Lexorder\<close> the order of tuples.
  An error is modelled by its variant and by the paths and nested errors it carries; the
  message text, which no code inspects, is left out. \<open>Panicked\<close> stands for a failed index
  operation, which unwinds instead of returning.
\<close>

type_synonym bytes = string

named_theorems check_simps \<open>when a validator accepts\<close>
named_theorems fold_intros \<open>one step of a loop with accumulated state\<close>

section \<open>Errors\<close>

text \<open>\<open>std::io::Error\<close>: the kinds the code distinguishes, and the others.\<close>

datatype io_error = AlreadyExists | NotFound | InvalidInput | Unsupported | OtherIo nat

datatype okc_error =
    InvalidConfig
  | UnsafePath string
  | UnsupportedSource string
  | ResourceLimit
  | MalformedInput string
  | IdentityMismatch
  | PlanStale
  | ProposalInvalid
  | ApprovalStale
  | OutputExists string
  | StagingDispositionFailed string okc_error io_error
  | PublishedButDurabilityUncertain string io_error
  | VerificationFailed
  | Io string io_error
  | JsonError
  | Internal
  | Panicked

type_synonym 'a res = "okc_error + 'a"

section \<open>Validators\<close>

text \<open>
  A guard with an early return is \<open>reject\<close>; a sequence of statements each ending in \<open>?\<close> is
  \<open>seq_checks\<close>; a \<open>for\<close> loop whose body may return early is \<open>for_each\<close> when it carries no
  state and \<open>try_fold\<close> when it does; \<open>collect::<Result<Vec<_>>>\<close> is \<open>try_map\<close>.
\<close>

definition reject :: "bool \<Rightarrow> 'e \<Rightarrow> 'e + unit" where
  "reject b e = (if b then Inl e else Inr ())"

fun seq_checks :: "('e + unit) list \<Rightarrow> 'e + unit" where
  "seq_checks [] = Inr ()"
| "seq_checks (c # cs) = (case c of Inl e \<Rightarrow> Inl e | Inr _ \<Rightarrow> seq_checks cs)"

fun for_each :: "('a \<Rightarrow> 'e + unit) \<Rightarrow> 'a list \<Rightarrow> 'e + unit" where
  "for_each f [] = Inr ()"
| "for_each f (x # xs) = (case f x of Inl e \<Rightarrow> Inl e | Inr _ \<Rightarrow> for_each f xs)"

fun try_fold :: "('s \<Rightarrow> 'a \<Rightarrow> 'e + 's) \<Rightarrow> 's \<Rightarrow> 'a list \<Rightarrow> 'e + 's" where
  "try_fold f s [] = Inr s"
| "try_fold f s (x # xs) = (case f s x of Inl e \<Rightarrow> Inl e | Inr s' \<Rightarrow> try_fold f s' xs)"

fun try_map :: "('a \<Rightarrow> 'e + 'b) \<Rightarrow> 'a list \<Rightarrow> 'e + 'b list" where
  "try_map f [] = Inr []"
| "try_map f (x # xs) =
     (case f x of Inl e \<Rightarrow> Inl e
      | Inr y \<Rightarrow> (case try_map f xs of Inl e \<Rightarrow> Inl e | Inr ys \<Rightarrow> Inr (y # ys)))"

definition bind_res :: "'e + 'a \<Rightarrow> ('a \<Rightarrow> 'e + 'b) \<Rightarrow> 'e + 'b" where
  "bind_res r f = (case r of Inl e \<Rightarrow> Inl e | Inr x \<Rightarrow> f x)"

definition and_then :: "'e + unit \<Rightarrow> 'e + 'b \<Rightarrow> 'e + 'b" where
  "and_then r k = (case r of Inl e \<Rightarrow> Inl e | Inr _ \<Rightarrow> k)"

definition done_with :: "'e + 's \<Rightarrow> 'e + unit" where
  "done_with r = (case r of Inl e \<Rightarrow> Inl e | Inr _ \<Rightarrow> Inr ())"

definition require :: "'e \<Rightarrow> 'a option \<Rightarrow> 'e + 'a" where
  "require e r = (case r of None \<Rightarrow> Inl e | Some x \<Rightarrow> Inr x)"

lemma reject_simps [simp]:
  "reject b e = Inr u \<longleftrightarrow> \<not> b" "reject b e = Inl e' \<longleftrightarrow> b \<and> e' = e"
  "reject True e = Inl e" "reject False e = Inr ()"
  by (auto simp: reject_def)

lemma seq_checks_Inr [simp]: "seq_checks cs = Inr u \<longleftrightarrow> (\<forall>c \<in> set cs. c = Inr ())"
  by (induction cs) (auto split: sum.splits)

text \<open>A failing sequence fails with the first failing check.\<close>

lemma seq_checks_Inl:
  "seq_checks cs = Inl e \<longleftrightarrow>
     (\<exists>pre post. cs = pre @ Inl e # post \<and> (\<forall>c \<in> set pre. c = Inr ()))"
proof (induction cs)
  case Nil
  then show ?case by simp
next
  case (Cons c cs)
  show ?case
  proof (cases c)
    case (Inl e')
    then show ?thesis
      by (auto simp: Cons_eq_append_conv intro: exI [of _ "[]"])
  next
    case (Inr u)
    have "(\<exists>pre post. c # cs = pre @ Inl e # post \<and> (\<forall>c \<in> set pre. c = Inr ())) \<longleftrightarrow>
        (\<exists>pre post. cs = pre @ Inl e # post \<and> (\<forall>c \<in> set pre. c = Inr ()))"
      using Inr by (fastforce simp: Cons_eq_append_conv intro: exI [of _ "c # _"])
    with Inr Cons.IH show ?thesis by simp
  qed
qed

lemma for_each_Inr [simp]: "for_each f xs = Inr u \<longleftrightarrow> (\<forall>x \<in> set xs. f x = Inr ())"
  by (induction xs) (auto split: sum.splits)

lemma for_each_Inl: "for_each f xs = Inl e \<Longrightarrow> \<exists>x \<in> set xs. f x = Inl e"
  by (induction xs) (auto split: sum.splits)

text \<open>
  The recursive equations would unfold a sequence under a \<open>case\<close>; the characterisations of
  acceptance and failure do not. \<open>check_evals\<close> is for evaluation on concrete inputs.
\<close>

lemma seq_checks_Cons_Inl [simp]:
  "seq_checks (c # cs) = Inl e \<longleftrightarrow> c = Inl e \<or> (c = Inr () \<and> seq_checks cs = Inl e)"
  by (cases c) auto

lemma for_each_Cons_Inl [simp]:
  "for_each f (x # xs) = Inl e \<longleftrightarrow> f x = Inl e \<or> (f x = Inr () \<and> for_each f xs = Inl e)"
  by (cases "f x") auto

declare seq_checks.simps(2) [simp del] for_each.simps(2) [simp del]
lemmas check_evals = seq_checks.simps for_each.simps try_fold.simps

lemma bind_res_simps [simp]:
  "bind_res (Inr x) f = f x" "bind_res (Inl e) f = Inl e"
  "bind_res r f = Inr y \<longleftrightarrow> (\<exists>x. r = Inr x \<and> f x = Inr y)"
  by (auto simp: bind_res_def split: sum.splits)

lemma and_then_simps [simp]:
  "and_then (Inr u) k = k" "and_then (Inl e) k = Inl e"
  "and_then r k = Inr y \<longleftrightarrow> r = Inr () \<and> k = Inr y"
  by (auto simp: and_then_def split: sum.splits)

lemma done_with_simps [simp]:
  "done_with (Inr s) = Inr ()" "done_with (Inl e) = Inl e"
  "done_with r = Inr u \<longleftrightarrow> (\<exists>s. r = Inr s)"
  by (auto simp: done_with_def split: sum.splits)

lemma require_simps [simp]:
  "require e (Some x) = Inr x" "require e None = Inl e"
  "require e r = Inr y \<longleftrightarrow> r = Some y"
  by (auto simp: require_def split: option.splits)

lemma try_fold_append:
  "try_fold f s (xs @ ys) = bind_res (try_fold f s xs) (\<lambda>s'. try_fold f s' ys)"
  by (induction xs arbitrary: s) (auto split: sum.splits)

lemma try_fold_Cons_Inr [simp]:
  "try_fold f s (x # xs) = Inr t \<longleftrightarrow> (\<exists>s'. f s x = Inr s' \<and> try_fold f s' xs = Inr t)"
  by (auto split: sum.splits)

declare try_fold.simps(2) [simp del]
lemmas try_fold_Cons = try_fold.simps(2)

text \<open>
  The rule for loops: a predicate of the elements processed so far and the state, true at the
  start and kept by every successful iteration, holds at the end.
\<close>

lemma try_fold_invariant:
  assumes run: "try_fold f s xs = Inr t"
    and start: "P [] s"
    and step: "\<And>ys y s s'. P ys s \<Longrightarrow> y \<in> set xs \<Longrightarrow> f s y = Inr s' \<Longrightarrow> P (ys @ [y]) s'"
  shows "P xs t"
proof -
  have "try_fold f s zs = Inr t \<Longrightarrow> set zs \<subseteq> set xs \<Longrightarrow> P ys s \<Longrightarrow> P (ys @ zs) t" for zs ys s
  proof (induction zs arbitrary: ys s)
    case Nil
    then show ?case by simp
  next
    case (Cons z zs)
    then obtain s' where "f s z = Inr s'" "try_fold f s' zs = Inr t" by auto
    with Cons.prems have "P (ys @ [z]) s'" by (auto intro: step)
    from Cons.IH [OF \<open>try_fold f s' zs = Inr t\<close> _ this] Cons.prems show ?case by simp
  qed
  from this [of s xs "[]"] run start show ?thesis by simp
qed

text \<open>
  A loop that checks every element by itself and collects its key in a set, refusing a key it
  has seen.
\<close>

lemma keyed_loop:
  assumes "\<And>s x t. f s x = Inr t \<longleftrightarrow> P x \<and> k x \<notin> s \<and> t = insert (k x) s"
  shows "try_fold f A xs = Inr t \<longleftrightarrow>
    distinct (map k xs) \<and> (\<forall>x \<in> set xs. P x) \<and> k ` set xs \<inter> A = {} \<and> t = A \<union> k ` set xs"
  by (induction xs arbitrary: A) (auto simp: assms)

text \<open>Conversely, a loop whose every iteration succeeds under an invariant succeeds.\<close>

lemma try_fold_succeeds:
  assumes start: "P [] s"
    and step: "\<And>ys y zs s. xs = ys @ y # zs \<Longrightarrow> P ys s \<Longrightarrow> \<exists>s'. f s y = Inr s' \<and> P (ys @ [y]) s'"
  shows "\<exists>t. try_fold f s xs = Inr t \<and> P xs t"
proof -
  have "xs = ys @ zs \<Longrightarrow> P ys s \<Longrightarrow> \<exists>t. try_fold f s zs = Inr t \<and> P xs t" for zs ys s
  proof (induction zs arbitrary: ys s)
    case Nil
    then show ?case by simp
  next
    case (Cons z zs)
    from step [OF Cons.prems] obtain s' where s': "f s z = Inr s'" "P (ys @ [z]) s'" by blast
    from Cons.IH [OF _ s'(2)] Cons.prems obtain t where "try_fold f s' zs = Inr t" "P xs t" by auto
    with s' show ?case by auto
  qed
  from this [of "[]" xs s] start show ?thesis by simp
qed

lemma try_map_Inr: "try_map f xs = Inr ys \<longleftrightarrow> list_all2 (\<lambda>x y. f x = Inr y) xs ys"
proof (induction xs arbitrary: ys)
  case (Cons x xs)
  show ?case
    by (cases "f x"; cases "try_map f xs") (auto simp: list_all2_Cons1 Cons.IH [symmetric])
qed auto

lemma try_map_set: "try_map f xs = Inr ys \<Longrightarrow> y \<in> set ys \<Longrightarrow> \<exists>x \<in> set xs. f x = Inr y"
  by (fastforce simp: try_map_Inr list_all2_conv_all_nth in_set_conv_nth)

lemma try_map_total:
  "(\<And>x. x \<in> set xs \<Longrightarrow> f x = Inr (g x)) \<Longrightarrow> try_map f xs = Inr (map g xs)"
  by (induction xs) auto

lemma try_map_cong [fundef_cong]:
  assumes "xs = ys" and "\<And>x. x \<in> set ys \<Longrightarrow> f x = g x"
  shows "try_map f xs = try_map g ys"
  using assms(2) unfolding assms(1) by (induction ys) (simp_all split: sum.splits)

lemma for_each_cong [fundef_cong]:
  assumes "xs = ys" and "\<And>x. x \<in> set ys \<Longrightarrow> f x = g x"
  shows "for_each f xs = for_each g ys"
  using assms(2) unfolding assms(1)
  by (induction ys) (simp_all add: for_each.simps split: sum.splits)

lemma bind_fails: "bind_res r f = Inl e \<longleftrightarrow> r = Inl e \<or> (\<exists>x. r = Inr x \<and> f x = Inl e)"
  by (cases r) auto

lemma and_then_fails: "and_then r k = Inl e \<longleftrightarrow> r = Inl e \<or> (r = Inr () \<and> k = Inl e)"
  by (cases r) auto

lemma require_fails: "require x r = Inl e \<longleftrightarrow> r = None \<and> e = x"
  by (cases r) auto

lemmas failing = bind_fails and_then_fails require_fails

section \<open>Strictly increasing sequences\<close>

text \<open>
  The code checks strict order with a running \<open>previous\<close> and
  \<open>previous.is_some_and(|previous| previous >= current)\<close>.
\<close>

definition not_after :: "'a::linorder option \<Rightarrow> 'a \<Rightarrow> bool" where
  "not_after previous x \<longleftrightarrow> (case previous of None \<Rightarrow> False | Some p \<Rightarrow> x \<le> p)"

definition last_opt :: "'a list \<Rightarrow> 'a option" where
  "last_opt xs = (if xs = [] then None else Some (last xs))"

lemma last_opt_simps [simp]: "last_opt [] = None" "last_opt (xs @ [x]) = Some x"
  by (simp_all add: last_opt_def)

lemma sorted_wrt_snoc:
  fixes x :: "'a::linorder"
  shows "sorted_wrt (<) (xs @ [x]) \<longleftrightarrow> sorted_wrt (<) xs \<and> \<not> not_after (last_opt xs) x"
proof (cases xs rule: rev_cases)
  case Nil
  then show ?thesis by (simp add: not_after_def)
next
  case (snoc ys y)
  then show ?thesis
    by (auto simp: not_after_def sorted_wrt_append intro: less_trans)
qed

lemma strict_sorted_distinct: "sorted_wrt (<) (xs :: 'a::linorder list) \<Longrightarrow> distinct xs"
  by (simp add: strict_sorted_iff)

lemma strict_sorted_unique:
  "sorted_wrt (<) (xs :: 'a::linorder list) \<Longrightarrow> sorted_wrt (<) ys \<Longrightarrow> set xs = set ys \<Longrightarrow> xs = ys"
  by (metis sorted_distinct_set_unique strict_sorted_iff)

text \<open>\<open>windows(2)\<close> of a slice.\<close>

definition adjacent :: "'a list \<Rightarrow> ('a \<times> 'a) list" where
  "adjacent xs = zip xs (tl xs)"

lemma adjacent_simps [simp]:
  "adjacent [] = []" "adjacent [x] = []" "adjacent (x # y # ys) = (x, y) # adjacent (y # ys)"
  by (simp_all add: adjacent_def)

lemma adjacent_strict:
  fixes xs :: "'a::linorder list"
  shows "(\<forall>(a, b) \<in> set (adjacent xs). a < b) \<longleftrightarrow> sorted_wrt (<) xs"
proof (induction xs rule: induct_list012)
  case (3 x y zs)
  then show ?case by (auto intro: less_trans)
qed auto

lemma adjacent_neq_distinct:
  fixes xs :: "'a::linorder list"
  assumes "sorted xs"
  shows "(\<forall>(a, b) \<in> set (adjacent xs). a \<noteq> b) \<longleftrightarrow> distinct xs"
  using assms
proof (induction xs rule: induct_list012)
  case (3 x y zs)
  then show ?case by (auto simp: order.antisym)
qed auto

text \<open>
  Comparing the size of a \<open>BTreeSet\<close> with the length of the vector it was collected from is how
  the code asks for distinct elements.
\<close>

lemma card_set_distinct: "card (set xs) = length xs \<longleftrightarrow> distinct xs"
  by (rule iffI [OF card_distinct distinct_card])

lemma distinct_concat_nth_unique:
  "distinct (concat xss) \<Longrightarrow> i < length xss \<Longrightarrow> j < length xss \<Longrightarrow> x \<in> set (xss ! i) \<Longrightarrow>
     x \<in> set (xss ! j) \<Longrightarrow> i = j"
proof (induction xss arbitrary: i j)
  case (Cons xs xss)
  have "x \<notin> set xs \<or> x \<notin> set (xss ! k)" if "k < length xss" for k
    using Cons.prems(1) nth_mem [OF that] by auto
  with Cons show ?case by (cases i; cases j) auto
qed simp

lemma distinct_map_eq: "distinct (map f xs) \<Longrightarrow> x \<in> set xs \<Longrightarrow> y \<in> set xs \<Longrightarrow> f x = f y \<Longrightarrow> x = y"
  by (auto simp: distinct_map dest: inj_onD)

lemma list_all2_in_left: "list_all2 P xs ys \<Longrightarrow> x \<in> set xs \<Longrightarrow> \<exists>y \<in> set ys. P x y"
  by (induction xs ys rule: list_all2_induct) auto

lemma chosen: "\<forall>x \<in> set xs. \<exists>y. P x y \<Longrightarrow> \<exists>ys. list_all2 P xs ys"
proof (induction xs)
  case (Cons x xs)
  then obtain y ys where "P x y" "list_all2 P xs ys" by auto
  then show ?case by (intro exI [of _ "y # ys"]) simp
qed (rule exI [of _ "[]"], simp)

lemma prefix_take_mono: "a \<le> b \<Longrightarrow> prefix (take a xs) (take b xs)"
  using take_is_prefix [of a "take b xs"] by (simp add: min_absorb1)

lemma sort_key_inj_permute:
  fixes k :: "'a \<Rightarrow> 'b::linorder"
  assumes perm: "mset xs = mset ys" and inj: "inj_on k (set xs)"
  shows "sort_key k xs = sort_key k ys"
proof (rule sort_key_inj_key_eq)
  show "mset xs = mset (sort_key k ys)" using perm by simp
  show "inj_on k (set xs)" by (fact inj)
  show "sorted (map k (sort_key k ys))" by simp
qed

section \<open>Ordered maps\<close>

text \<open>
  \<open>BTreeMap<K, V>\<close> as an association list in strictly increasing key order: the order in which
  the code iterates over it.
\<close>

type_synonym ('k, 'v) btree = "('k \<times> 'v) list"

fun btree_insert :: "'k::linorder \<Rightarrow> 'v \<Rightarrow> ('k, 'v) btree \<Rightarrow> ('k, 'v) btree" where
  "btree_insert k v [] = [(k, v)]"
| "btree_insert k v ((k', v') # m) =
     (if k < k' then (k, v) # (k', v') # m
      else if k = k' then (k, v) # m
      else (k', v') # btree_insert k v m)"

definition btree_get :: "('k, 'v) btree \<Rightarrow> 'k \<Rightarrow> 'v option" where
  "btree_get m k = map_of m k"

definition btree_collect :: "('k::linorder \<times> 'v) list \<Rightarrow> ('k, 'v) btree" where
  "btree_collect xs = foldl (\<lambda>m (k, v). btree_insert k v m) [] xs"

definition btree_ok :: "('k::linorder, 'v) btree \<Rightarrow> bool" where
  "btree_ok m \<longleftrightarrow> sorted_wrt (<) (map fst m)"

locale ordered_map =
  fixes empty :: "'m"
    and insert_at :: "'k::linorder \<Rightarrow> 'v \<Rightarrow> 'm \<Rightarrow> 'm"
    and get :: "'m \<Rightarrow> 'k \<Rightarrow> 'v option"
    and entries :: "'m \<Rightarrow> ('k \<times> 'v) list"
    and inv :: "'m \<Rightarrow> bool"
  assumes get_empty: "get empty k = None"
    and get_insert: "inv m \<Longrightarrow> get (insert_at k v m) k' = (if k' = k then Some v else get m k')"
    and inv_empty: "inv empty"
    and inv_insert: "inv m \<Longrightarrow> inv (insert_at k v m)"
    and entries_sorted: "inv m \<Longrightarrow> sorted_wrt (<) (map fst (entries m))"
    and entries_get: "inv m \<Longrightarrow> (k, v) \<in> set (entries m) \<longleftrightarrow> get m k = Some v"
begin

definition collect :: "('k \<times> 'v) list \<Rightarrow> 'm" where
  "collect xs = foldl (\<lambda>m (k, v). insert_at k v m) empty xs"

lemma inv_foldl: "inv m \<Longrightarrow> inv (foldl (\<lambda>m (k, v). insert_at k v m) m xs)"
  by (induction xs arbitrary: m) (auto simp: inv_insert)

lemma inv_collect: "inv (collect xs)"
  by (simp add: collect_def inv_foldl inv_empty)

lemma get_foldl:
  "inv m \<Longrightarrow> get (foldl (\<lambda>m (k, v). insert_at k v m) m xs) k =
     (case map_of (rev xs) k of None \<Rightarrow> get m k | Some v \<Rightarrow> Some v)"
proof (induction xs arbitrary: m)
  case Nil
  then show ?case by simp
next
  case (Cons x xs)
  then show ?case
    by (cases x) (auto simp: inv_insert get_insert map_add_def split: option.splits)
qed

text \<open>The last pair of a key wins, as in \<open>collect::<BTreeMap<_, _>>\<close>.\<close>

lemma get_collect: "get (collect xs) k = map_of (rev xs) k"
  by (simp add: collect_def get_foldl inv_empty get_empty split: option.splits)

lemma get_collect_distinct:
  "distinct (map fst xs) \<Longrightarrow> get (collect xs) k = Some v \<longleftrightarrow> (k, v) \<in> set xs"
  by (simp add: get_collect rev_map [symmetric])

lemma keys_collect: "set (map fst (entries (collect xs))) = fst ` set xs"
proof -
  have "k \<in> set (map fst (entries (collect xs))) \<longleftrightarrow> (\<exists>v. get (collect xs) k = Some v)" for k
    by (force simp: entries_get [OF inv_collect, symmetric])
  then show ?thesis
    by (auto simp: get_collect) (metis image_eqI map_of_eq_None_iff not_None_eq set_rev fst_conv)+
qed

lemma values_unique:
  "inv m \<Longrightarrow> (k, v) \<in> set (entries m) \<Longrightarrow> (k, v') \<in> set (entries m) \<Longrightarrow> v = v'"
  by (simp add: entries_get)

end

lemma btree_insert_keys: "fst ` set (btree_insert k v m) = insert k (fst ` set m)"
  by (induction k v m rule: btree_insert.induct) (simp_all add: insert_commute)

lemma btree_insert_ok: "btree_ok m \<Longrightarrow> btree_ok (btree_insert k v m)"
proof (induction m)
  case Nil
  then show ?case by (simp add: btree_ok_def)
next
  case (Cons p m)
  obtain k' v' where p: "p = (k', v')" by (cases p)
  with Cons have "btree_ok (btree_insert k v m)" by (simp add: btree_ok_def)
  with Cons.prems p show ?case
    using btree_insert_keys [of k v m] by (auto simp: btree_ok_def)
qed

lemma btree_get_insert:
  "btree_ok m \<Longrightarrow> btree_get (btree_insert k v m) k' = (if k' = k then Some v else btree_get m k')"
  by (induction m) (auto simp: btree_ok_def btree_get_def)

interpretation bt: ordered_map "[]" btree_insert btree_get "\<lambda>m. m" btree_ok
proof unfold_locales
  fix m :: "('k::linorder, 'v) btree" and k v
  assume "btree_ok m"
  then have "distinct (map fst m)" by (simp add: btree_ok_def strict_sorted_distinct)
  then show "(k, v) \<in> set m \<longleftrightarrow> btree_get m k = Some v" by (simp add: btree_get_def)
qed (simp_all add: btree_get_insert btree_insert_ok, simp_all add: btree_ok_def btree_get_def)

lemma btree_collect_eq: "btree_collect = bt.collect"
  by (rule ext) (simp add: btree_collect_def bt.collect_def)

lemmas btree_collect_facts =
  bt.inv_collect [folded btree_collect_eq] bt.get_collect [folded btree_collect_eq]
  bt.get_collect_distinct [folded btree_collect_eq] bt.keys_collect [folded btree_collect_eq]

end
