(* ===== verification/Text.thy ===== *)
theory Text
  imports Prelude
begin

text \<open>
  The part of Rust's \<open>str\<close>, \<open>char\<close> and \<open>std::path::Path\<close> the code relies on, on UTF-8 bytes:
  decoding into scalar values, \<open>char::is_control\<close>, \<open>char::is_whitespace\<close> and \<open>trim\<close>,
  \<open>is_char_boundary\<close>, ASCII case mapping, \<open>split\<close> and \<open>join\<close>, and the decomposition of a
  relative slash path into parent, file name, stem and extension.
\<close>

section \<open>UTF-8\<close>

definition utf8_width :: "char \<Rightarrow> nat" where
  "utf8_width c = (let n = (of_char c :: nat) in
     if n < 0xC0 then 1 else if n < 0xE0 then 2 else if n < 0xF0 then 3 else 4)"

lemma utf8_width_pos [simp]: "0 < utf8_width c"
  by (simp add: utf8_width_def Let_def)

text \<open>The encodings of the successive scalar values of a string.\<close>

function char_slices :: "string \<Rightarrow> string list" where
  "char_slices [] = []"
| "char_slices (c # s) =
     (c # take (utf8_width c - 1) s) # char_slices (drop (utf8_width c - 1) s)"
  by pat_completeness auto
termination
  by (relation "measure length") auto

fun scalar_of :: "string \<Rightarrow> nat" where
  "scalar_of [a] = of_char a"
| "scalar_of [a, b] = (of_char a mod 32) * 64 + of_char b mod 64"
| "scalar_of [a, b, c] =
     (of_char a mod 16) * 4096 + (of_char b mod 64) * 64 + of_char c mod 64"
| "scalar_of [a, b, c, d] =
     (of_char a mod 8) * 262144 + (of_char b mod 64) * 4096 + (of_char c mod 64) * 64
       + of_char d mod 64"
| "scalar_of s = 0"

definition chars :: "string \<Rightarrow> nat list" where
  "chars s = map scalar_of (char_slices s)"

lemma concat_char_slices: "concat (char_slices s) = s"
  by (induction s rule: char_slices.induct) simp_all

text \<open>\<open>char::is_control\<close> is Unicode category Cc, \<open>char::is_whitespace\<close> is \<open>White_Space\<close>.\<close>

definition is_control :: "nat \<Rightarrow> bool" where
  "is_control c \<longleftrightarrow> c < 0x20 \<or> (0x7F \<le> c \<and> c < 0xA0)"

definition is_whitespace :: "nat \<Rightarrow> bool" where
  "is_whitespace c \<longleftrightarrow> (0x09 \<le> c \<and> c \<le> 0x0D) \<or> c = 0x20 \<or> c = 0x85 \<or> c = 0xA0 \<or> c = 0x1680
     \<or> (0x2000 \<le> c \<and> c \<le> 0x200A) \<or> c = 0x2028 \<or> c = 0x2029 \<or> c = 0x202F \<or> c = 0x205F \<or> c = 0x3000"

definition has_control :: "string \<Rightarrow> bool" where
  "has_control s \<longleftrightarrow> list_ex is_control (chars s)"

definition trim_start :: "string \<Rightarrow> string" where
  "trim_start s = concat (dropWhile (\<lambda>p. is_whitespace (scalar_of p)) (char_slices s))"

definition trim_end :: "string \<Rightarrow> string" where
  "trim_end s = concat (rev (dropWhile (\<lambda>p. is_whitespace (scalar_of p)) (rev (char_slices s))))"

definition trim :: "string \<Rightarrow> string" where
  "trim s = concat (rev (dropWhile (\<lambda>p. is_whitespace (scalar_of p))
     (rev (dropWhile (\<lambda>p. is_whitespace (scalar_of p)) (char_slices s)))))"

text \<open>\<open>str::is_char_boundary\<close>, as the standard library computes it from the byte at the index.\<close>

definition is_char_boundary :: "string \<Rightarrow> nat \<Rightarrow> bool" where
  "is_char_boundary s i \<longleftrightarrow> i = 0 \<or> i = length s \<or>
     (i < length s \<and> \<not> (0x80 \<le> (of_char (s ! i) :: nat) \<and> of_char (s ! i) < (0xC0 :: nat)))"

lemma is_char_boundary_ends [simp]: "is_char_boundary s 0" "is_char_boundary s (length s)"
  by (simp_all add: is_char_boundary_def)

section \<open>ASCII\<close>

definition ascii_lower :: "char \<Rightarrow> char" where
  "ascii_lower c = (let n = (of_char c :: nat) in if 65 \<le> n \<and> n \<le> 90 then char_of (n + 32) else c)"

definition ascii_upper :: "char \<Rightarrow> char" where
  "ascii_upper c = (let n = (of_char c :: nat) in if 97 \<le> n \<and> n \<le> 122 then char_of (n - 32) else c)"

definition to_ascii_lowercase :: "string \<Rightarrow> string" where
  "to_ascii_lowercase s = map ascii_lower s"

definition to_ascii_uppercase :: "string \<Rightarrow> string" where
  "to_ascii_uppercase s = map ascii_upper s"

definition eq_ignore_ascii_case :: "string \<Rightarrow> string \<Rightarrow> bool" where
  "eq_ignore_ascii_case a b \<longleftrightarrow> map ascii_lower a = map ascii_lower b"

definition is_ascii_digit :: "char \<Rightarrow> bool" where
  "is_ascii_digit c \<longleftrightarrow> 48 \<le> (of_char c :: nat) \<and> of_char c \<le> (57 :: nat)"

definition is_ascii_alphabetic :: "char \<Rightarrow> bool" where
  "is_ascii_alphabetic c \<longleftrightarrow> (65 \<le> (of_char c :: nat) \<and> of_char c \<le> (90 :: nat))
     \<or> (97 \<le> (of_char c :: nat) \<and> of_char c \<le> (122 :: nat))"

definition is_ascii_alphanumeric :: "char \<Rightarrow> bool" where
  "is_ascii_alphanumeric c \<longleftrightarrow> is_ascii_digit c \<or> is_ascii_alphabetic c"

section \<open>Splitting and joining\<close>

text \<open>\<open>str::split\<close> with an ASCII separator: at least one piece.\<close>

fun split_on :: "char \<Rightarrow> string \<Rightarrow> string list" where
  "split_on c [] = [[]]"
| "split_on c (x # s) =
     (if x = c then [] # split_on c s
      else (case split_on c s of [] \<Rightarrow> [[x]] | p # ps \<Rightarrow> (x # p) # ps))"

fun join_with :: "string \<Rightarrow> string list \<Rightarrow> string" where
  "join_with sep [] = []"
| "join_with sep [p] = p"
| "join_with sep (p # q # ps) = p @ sep @ join_with sep (q # ps)"

definition join_path :: "string list \<Rightarrow> string" where
  "join_path ps = join_with ''/'' ps"

definition split_path :: "string \<Rightarrow> string list" where
  "split_path s = split_on CHR ''/'' s"

lemma split_on_nonempty [simp]: "split_on c s \<noteq> []"
  by (induction s) (auto split: list.splits)

lemma split_on_pieces: "p \<in> set (split_on c s) \<Longrightarrow> c \<notin> set p"
  by (induction s arbitrary: p) (auto split: if_splits list.splits)

lemma join_with_Cons: "ps \<noteq> [] \<Longrightarrow> join_with sep (p # ps) = p @ sep @ join_with sep ps"
  by (cases ps) auto

lemma join_split_on: "join_with [c] (split_on c s) = s"
proof (induction s)
  case (Cons x s)
  show ?case
  proof (cases "split_on c s")
    case (Cons p ps)
    with Cons.IH show ?thesis by (cases ps) auto
  qed simp
qed simp

lemma split_on_no_sep: "c \<notin> set p \<Longrightarrow> split_on c p = [p]"
  by (induction p) auto

lemma split_on_append: "c \<notin> set p \<Longrightarrow> split_on c (p @ c # s) = p # split_on c s"
  by (induction p) auto

lemma split_on_join:
  "ps \<noteq> [] \<Longrightarrow> (\<forall>p \<in> set ps. c \<notin> set p) \<Longrightarrow> split_on c (join_with [c] ps) = ps"
  by (induction "[c]" ps rule: join_with.induct) (auto simp: split_on_no_sep split_on_append)

lemma join_path_split [simp]: "join_path (split_path s) = s"
  by (simp add: join_path_def split_path_def join_split_on)

lemma split_path_join:
  "ps \<noteq> [] \<Longrightarrow> (\<forall>p \<in> set ps. CHR ''/'' \<notin> set p) \<Longrightarrow> split_path (join_path ps) = ps"
  by (simp add: join_path_def split_path_def split_on_join)

lemma split_path_inj: "split_path s = split_path t \<longleftrightarrow> s = t"
  by (metis join_path_split)

lemma split_path_prefix:
  "CHR ''/'' \<notin> set d \<Longrightarrow> split_path (d @ ''/'' @ s) = d # split_path s"
  by (simp add: split_path_def split_on_append)

lemma split_path_nonempty [simp]: "split_path s \<noteq> []"
  by (simp add: split_path_def)

lemma split_path_pieces: "p \<in> set (split_path s) \<Longrightarrow> CHR ''/'' \<notin> set p"
  by (auto simp: split_path_def dest: split_on_pieces)

definition strip_suffix :: "string \<Rightarrow> string \<Rightarrow> string option" where
  "strip_suffix suf s = (if suffix suf s then Some (take (length s - length suf) s) else None)"

definition strip_prefix :: "string \<Rightarrow> string \<Rightarrow> string option" where
  "strip_prefix pre s = (if prefix pre s then Some (drop (length pre) s) else None)"

lemma strip_prefix_Some: "strip_prefix pre s = Some t \<longleftrightarrow> s = pre @ t"
  by (auto simp: strip_prefix_def prefix_def)

lemma strip_suffix_Some: "strip_suffix suf s = Some t \<longleftrightarrow> s = t @ suf"
  by (auto simp: strip_suffix_def suffix_def)

text \<open>\<open>Display\<close> of an unsigned integer.\<close>

function decimal :: "nat \<Rightarrow> string" where
  "decimal n = (if n < 10 then [char_of (48 + n)] else decimal (n div 10) @ [char_of (48 + n mod 10)])"
  by pat_completeness auto
termination
  by (relation "measure (\<lambda>n. n)") auto

declare decimal.simps [simp del]

section \<open>Paths\<close>

text \<open>
  \<open>Path::components\<close> on a Unix slash path: repeated separators, trailing separators and \<open>.\<close>
  components that are not leading disappear. \<open>file_name\<close> is the last component when it is a
  normal one; \<open>file_stem\<close> and \<open>extension\<close> split it at its last dot, unless that dot is its
  first character.
\<close>

datatype component = RootDir | CurDir | ParentDir | Normal string

definition path_components :: "string \<Rightarrow> component list" where
  "path_components s =
     (let pieces = split_path s;
          root = (if prefix ''/'' s then [RootDir] else []);
          lead = (if hd pieces = ''.'' then [CurDir] else [])
      in root @ lead @
         map (\<lambda>p. if p = ''..'' then ParentDir else Normal p)
           (filter (\<lambda>p. p \<noteq> '''' \<and> p \<noteq> ''.'') pieces))"

definition path_file_name :: "string \<Rightarrow> string option" where
  "path_file_name s = (case rev (path_components s) of Normal p # _ \<Rightarrow> Some p | _ \<Rightarrow> None)"

text \<open>Split at the last occurrence of a character: what precedes it and what follows it.\<close>

fun rsplit_once :: "char \<Rightarrow> string \<Rightarrow> (string \<times> string) option" where
  "rsplit_once c [] = None"
| "rsplit_once c (x # s) =
     (case rsplit_once c s of
        Some (a, b) \<Rightarrow> Some (x # a, b)
      | None \<Rightarrow> if x = c then Some ([], s) else None)"

lemma rsplit_once_Some: "rsplit_once c s = Some (a, b) \<Longrightarrow> s = a @ c # b \<and> c \<notin> set b"
proof (induction s arbitrary: a b)
  case (Cons x s)
  show ?case
  proof (cases "rsplit_once c s")
    case None
    then have "c \<notin> set s" by (induction s) (auto split: option.splits if_splits)
    with None Cons.prems show ?thesis by (auto split: if_splits)
  next
    case (Some p)
    with Cons show ?thesis by (cases p) auto
  qed
qed simp

lemma rsplit_once_None: "rsplit_once c s = None \<longleftrightarrow> c \<notin> set s"
  by (induction s) (auto split: option.splits)

definition name_stem :: "string \<Rightarrow> string" where
  "name_stem n = (case rsplit_once CHR ''.'' n of
     Some (a, b) \<Rightarrow> if a = [] then n else a | None \<Rightarrow> n)"

definition name_extension :: "string \<Rightarrow> string option" where
  "name_extension n = (case rsplit_once CHR ''.'' n of
     Some (a, b) \<Rightarrow> if a = [] then None else Some b | None \<Rightarrow> None)"

definition path_file_stem :: "string \<Rightarrow> string option" where
  "path_file_stem s = map_option name_stem (path_file_name s)"

definition path_extension :: "string \<Rightarrow> string option" where
  "path_extension s = (case path_file_name s of None \<Rightarrow> None | Some n \<Rightarrow> name_extension n)"

text \<open>The stem and the extension make up the name.\<close>

lemma name_stem_extension:
  "n = name_stem n @ (case name_extension n of None \<Rightarrow> [] | Some e \<Rightarrow> CHR ''.'' # e)"
  by (auto simp: name_stem_def name_extension_def dest: rsplit_once_Some split: option.splits)

lemma name_stem_nonempty: "n \<noteq> [] \<Longrightarrow> name_stem n \<noteq> []"
  by (auto simp: name_stem_def split: option.splits)

text \<open>
  A well-formed relative path: non-empty pieces, none of them a dot name. On these the model of
  \<open>Path\<close> is plain splitting.
\<close>

definition plain_path :: "string \<Rightarrow> bool" where
  "plain_path s \<longleftrightarrow> (\<forall>p \<in> set (split_path s). p \<noteq> '''' \<and> p \<noteq> ''.'' \<and> p \<noteq> ''..'')"

lemma plain_path_components:
  assumes "plain_path s"
  shows "path_components s = map Normal (split_path s)"
proof -
  have "hd (split_path s) \<in> set (split_path s)" by simp
  with assms have "hd (split_path s) \<noteq> ''''" "hd (split_path s) \<noteq> ''.''"
    by (auto simp: plain_path_def)
  moreover have "\<not> prefix ''/'' s"
  proof
    assume "prefix ''/'' s"
    then obtain t where "s = '''' @ CHR ''/'' # t" by (auto simp: prefix_def)
    then have "split_path s = '''' # split_path t" by (simp add: split_path_def)
    with \<open>hd (split_path s) \<noteq> ''''\<close> show False by simp
  qed
  moreover have "filter (\<lambda>p. p \<noteq> '''' \<and> p \<noteq> ''.'') (split_path s) = split_path s"
    using assms by (simp add: plain_path_def)
  ultimately show ?thesis
    using assms by (auto simp: path_components_def Let_def plain_path_def)
qed

lemma plain_path_file_name: "plain_path s \<Longrightarrow> path_file_name s = Some (last (split_path s))"
  by (cases "split_path s" rule: rev_cases)
    (simp_all add: path_file_name_def plain_path_components)

definition path_parent_str :: "string \<Rightarrow> string" where
  "path_parent_str s = (case rsplit_once CHR ''/'' s of Some (a, b) \<Rightarrow> a | None \<Rightarrow> [])"

end
