(* ===== verification/Json.thy ===== *)
theory Json
  imports Text
begin

text \<open>
  \<open>serde_json::Value\<close>, the strict reader of \<open>crates/okc-core/src/json.rs\<close> and the canonical
  form of \<open>crates/okc-core/src/canonical.rs\<close>.

  \<open>serde_json::Map\<close> is a \<open>BTreeMap\<close> (the workspace does not enable \<open>preserve_order\<close>), so an
  object is its list of entries in key order. The text that \<open>to_vec\<close> prints, SHA-256, the \<open>hex\<close>
  crate, the Unicode tables and the \<open>ignore\<close> crate's patterns (\<open>add_line\<close>, \<open>build\<close>,
  \<open>matched_path_or_any_parents\<close>) are third-party code: they are the fields of \<open>externs\<close>, the
  argument \<open>E\<close> of every definition that reaches them.
\<close>

section \<open>Values\<close>

text \<open>\<open>serde_json::Number\<close>: a non-negative, a negative integer, or the bits of a finite \<open>f64\<close>.\<close>

datatype number = PosInt "64 word" | NegInt "64 word" | Float "64 word"

datatype json = JNull | JBool bool | JNum number | JStr string | JArr "json list"
  | JObj "(string \<times> json) list"

definition f64_is_finite :: "64 word \<Rightarrow> bool" where
  "f64_is_finite w \<longleftrightarrow> (uint w div 2 ^ 52) mod 2048 \<noteq> 2047"

fun json_ok :: "json \<Rightarrow> bool" where
  "json_ok (JArr vs) \<longleftrightarrow> (\<forall>v \<in> set vs. json_ok v)"
| "json_ok (JObj m) \<longleftrightarrow> btree_ok m \<and> (\<forall>e \<in> set m. json_ok (snd e))"
| "json_ok _ \<longleftrightarrow> True"

record externs =
  sha256 :: "bytes \<Rightarrow> bytes"
  json_vec :: "json \<Rightarrow> bytes"
  json_vec_pretty :: "json \<Rightarrow> bytes"
  nfc :: "string \<Rightarrow> string"
  case_fold :: "string \<Rightarrow> string"
  hex_encode :: "bytes \<Rightarrow> string"
  hex_decode :: "string \<Rightarrow> bytes option"
  glob_ok :: "string \<Rightarrow> bool"
  glob_set_ok :: "string list \<Rightarrow> bool"
  glob_ignores :: "string list \<Rightarrow> string \<Rightarrow> bool \<Rightarrow> bool"

text \<open>
  What the code relies on: a digest has 32 bytes; different vals print differently, since
  \<open>from_slice\<close> reads back what \<open>to_vec\<close> printed.
\<close>

definition sha256_len :: "externs \<Rightarrow> bool" where
  "sha256_len E \<longleftrightarrow> (\<forall>b. length (sha256 E b) = 32)"

definition json_faithful :: "externs \<Rightarrow> bool" where
  "json_faithful E \<longleftrightarrow> inj (json_vec E)"

definition lower_hex :: "char \<Rightarrow> bool" where
  "lower_hex c \<longleftrightarrow> is_ascii_digit c \<or> (97 \<le> (of_char c :: nat) \<and> of_char c \<le> (102 :: nat))"

definition hex_lawful :: "externs \<Rightarrow> bool" where
  "hex_lawful E \<longleftrightarrow>
     (\<forall>b. length (hex_encode E b) = 2 * length b \<and> list_all lower_hex (hex_encode E b)
        \<and> hex_decode E (hex_encode E b) = Some b)
     \<and> (\<forall>s. even (length s) \<and> list_all lower_hex s \<longrightarrow>
          (\<exists>b. hex_decode E s = Some b \<and> hex_encode E b = s))"

text \<open>
  Two inputs witness a collision. No theorem assumes that SHA-256 has none: where equal digests
  should mean equal content, the conclusion is "equal, or these two inputs collide".
\<close>

definition collides_on :: "externs \<Rightarrow> bytes \<Rightarrow> bytes \<Rightarrow> bool" where
  "collides_on E x y \<longleftrightarrow> x \<noteq> y \<and> sha256 E x = sha256 E y"

section \<open>The strict reader\<close>

text \<open>
  What serde's deserializer presents to the visitor: an object is the sequence of its members as
  the text has them, duplicates included.
\<close>

datatype raw_json = RNull | RBool bool | RI64 "64 word" | RU64 "64 word" | RF64 "64 word"
  | RStr string | RArr "raw_json list" | RObj "(string \<times> raw_json) list"

datatype json_error = DuplicateKey | NonFinite

definition visit_i64 :: "64 word \<Rightarrow> json" where
  "visit_i64 v = JNum (if sint v < 0 then NegInt v else PosInt v)"

definition visit_f64 :: "64 word \<Rightarrow> json_error + json" where
  "visit_f64 v = (if f64_is_finite v then Inr (JNum (Float v)) else Inl NonFinite)"

text \<open>
  \<open>visit_map\<close>: read a key, refuse it when the object has it already, read the value, insert.
\<close>

function visit :: "raw_json \<Rightarrow> json_error + json"
  and visit_map :: "(string, json) btree \<Rightarrow> (string \<times> raw_json) list \<Rightarrow> json_error + json"
  and visit_seq :: "json list \<Rightarrow> raw_json list \<Rightarrow> json_error + json" where
  "visit RNull = Inr JNull"
| "visit (RBool b) = Inr (JBool b)"
| "visit (RI64 v) = Inr (visit_i64 v)"
| "visit (RU64 v) = Inr (JNum (PosInt v))"
| "visit (RF64 v) = visit_f64 v"
| "visit (RStr s) = Inr (JStr s)"
| "visit (RArr rs) = visit_seq [] rs"
| "visit (RObj ms) = visit_map [] ms"
| "visit_seq vals [] = Inr (JArr vals)"
| "visit_seq vals (r # rs) =
     (case visit r of Inl e \<Rightarrow> Inl e | Inr v \<Rightarrow> visit_seq (vals @ [v]) rs)"
| "visit_map vals [] = Inr (JObj vals)"
| "visit_map vals ((k, r) # ms) =
     (if btree_get vals k \<noteq> None then Inl DuplicateKey
      else (case visit r of Inl e \<Rightarrow> Inl e | Inr v \<Rightarrow> visit_map (btree_insert k v vals) ms))"
  by pat_completeness auto
termination
  by (relation "measure (\<lambda>x. case x of Inl r \<Rightarrow> size r
        | Inr (Inl (_, ms)) \<Rightarrow> size_list (size_prod (\<lambda>_. 0) size) ms
        | Inr (Inr (_, rs)) \<Rightarrow> size_list size rs)") (auto split: sum.splits)

text \<open>No object of the text repeats a key, at any depth, and every number is finite.\<close>

fun raw_strict :: "raw_json \<Rightarrow> bool" where
  "raw_strict (RF64 v) \<longleftrightarrow> f64_is_finite v"
| "raw_strict (RArr rs) \<longleftrightarrow> (\<forall>r \<in> set rs. raw_strict r)"
| "raw_strict (RObj ms) \<longleftrightarrow> distinct (map fst ms) \<and> (\<forall>m \<in> set ms. raw_strict (snd m))"
| "raw_strict _ \<longleftrightarrow> True"

section \<open>The canonical form\<close>

function sort_json :: "json \<Rightarrow> json" where
  "sort_json (JArr items) = JArr (map sort_json items)"
| "sort_json (JObj m) = JObj (btree_collect (map (\<lambda>(k, v). (k, sort_json v)) (sort_key fst m)))"
| "sort_json JNull = JNull"
| "sort_json (JBool b) = JBool b"
| "sort_json (JNum n) = JNum n"
| "sort_json (JStr s) = JStr s"
  by pat_completeness auto
termination
  by (relation "measure size") (auto simp: less_Suc_eq_le size_list_estimation' dest!: in_set_zipE)

definition to_canonical_json :: "externs \<Rightarrow> json \<Rightarrow> bytes" where
  "to_canonical_json E v = json_vec E (sort_json v)"

definition to_canonical_json_pretty :: "externs \<Rightarrow> json \<Rightarrow> bytes" where
  "to_canonical_json_pretty E v = json_vec_pretty E (sort_json v) @ [CHR 0x0A]"

section \<open>Facts\<close>

text \<open>
  The reader accepts exactly the texts without a repeated key and builds an ordered value. The
  three mutually recursive functions are handled together, each with its accumulator.
\<close>

lemma btree_get_dom: "btree_get m k \<noteq> None \<longleftrightarrow> k \<in> fst ` set m"
  by (simp add: btree_get_def map_of_eq_None_iff)

lemma btree_get_insert_ok [simp]:
  "btree_ok m \<Longrightarrow> btree_get (btree_insert k v m) k' = (if k' = k then Some v else btree_get m k')"
  by (rule btree_get_insert)

lemma btree_insert_entries: "set (btree_insert k v m) \<subseteq> insert (k, v) (set m)"
  by (induction k v m rule: btree_insert.induct) auto

lemma visit_accepts:
  "(\<exists>v. visit r = Inr v) \<longleftrightarrow> raw_strict r"
  "(\<exists>v. visit_map vals ms = Inr v) \<longleftrightarrow>
     distinct (map fst ms) \<and> fst ` set ms \<inter> fst ` set vals = {} \<and> (\<forall>m \<in> set ms. raw_strict (snd m))"
  "(\<exists>v. visit_seq vs rs = Inr v) \<longleftrightarrow> (\<forall>r \<in> set rs. raw_strict r)"
proof (induction r and vals ms and vs rs rule: visit_visit_map_visit_seq.induct)
  case (12 vals k r ms)
  show ?case
  proof (cases "btree_get vals k")
    case None
    then have "k \<notin> fst ` set vals" using btree_get_dom [of vals k] by simp
    with None 12 show ?thesis
      by (cases "visit r") (auto simp: btree_insert_keys)
  next
    case (Some v)
    then have "k \<in> fst ` set vals" using btree_get_dom [of vals k] by simp
    with Some show ?thesis by auto
  qed
next
  case (10 vals r rs)
  then show ?case by (cases "visit r") auto
qed (auto simp: visit_f64_def)

lemma visit_ok:
  "visit r = Inr v \<Longrightarrow> json_ok v"
  "visit_map vals ms = Inr v \<Longrightarrow> json_ok (JObj vals) \<Longrightarrow> json_ok v"
  "visit_seq vs rs = Inr v \<Longrightarrow> json_ok (JArr vs) \<Longrightarrow> json_ok v"
proof (induction r and vals ms and vs rs arbitrary: v and v and v
    rule: visit_visit_map_visit_seq.induct)
  case (12 vals k r ms)
  from "12.prems"(1) obtain w where none: "btree_get vals k = None" and w: "visit r = Inr w"
    and rest: "visit_map (btree_insert k w vals) ms = Inr v"
    by (auto split: if_splits sum.splits)
  have "json_ok w" by (rule "12.IH"(1)) (use none w in auto)
  with "12.prems"(2) have "json_ok (JObj (btree_insert k w vals))"
    using btree_insert_entries [of k w vals] by (fastforce simp: btree_insert_ok)
  then show ?case using "12.IH"(2) [OF _ w rest] none by simp
next
  case (10 vals r rs)
  then obtain w where w: "visit r = Inr w" and rest: "visit_seq (vals @ [w]) rs = Inr v"
    by (auto split: sum.splits)
  from 10 w have "json_ok w" by blast
  with 10 w rest show ?case by auto
qed (auto simp: visit_f64_def visit_i64_def btree_ok_def split: if_splits)

text \<open>Sorting.\<close>

lemma btree_eqI: "btree_ok a \<Longrightarrow> btree_ok b \<Longrightarrow> (\<And>k. btree_get a k = btree_get b k) \<Longrightarrow> a = b"
proof -
  assume ok: "btree_ok a" "btree_ok b" and get: "\<And>k. btree_get a k = btree_get b k"
  have sets: "set a = set b"
  proof -
    have "p \<in> set a \<longleftrightarrow> p \<in> set b" for p
      using bt.entries_get [OF ok(1), of "fst p" "snd p"] bt.entries_get [OF ok(2), of "fst p" "snd p"] get
      by simp
    then show ?thesis by blast
  qed
  have keys: "map fst a = map fst b"
    using ok sets by (intro strict_sorted_unique) (auto simp: btree_ok_def)
  have "distinct (map fst a)" "distinct (map fst b)"
    using ok by (auto simp: btree_ok_def intro: strict_sorted_distinct)
  then have "a = map (\<lambda>k. (k, the (map_of a k))) (map fst a)" "b = map (\<lambda>k. (k, the (map_of b k))) (map fst b)"
    by (auto simp: o_def intro!: map_idI [symmetric])
  with keys get show "a = b" by (simp add: btree_get_def)
qed

lemma btree_ok_distinct: "btree_ok m \<Longrightarrow> distinct (map fst m)"
  by (simp add: btree_ok_def strict_sorted_distinct)

lemma btree_collect_sorted: "btree_ok xs \<Longrightarrow> btree_collect xs = xs"
proof (rule btree_eqI)
  fix k assume ok: "btree_ok xs"
  show "btree_get (btree_collect xs) k = btree_get xs k"
  proof (rule option.expand)
    show "(btree_get (btree_collect xs) k = None) = (btree_get xs k = None)"
      using btree_collect_facts(4) [of xs] by (simp add: btree_get_def map_of_eq_None_iff)
    assume "btree_get (btree_collect xs) k \<noteq> None" "btree_get xs k \<noteq> None"
    then obtain v w where v: "btree_get (btree_collect xs) k = Some v" "btree_get xs k = Some w" by auto
    with ok have "(k, v) \<in> set xs" "(k, w) \<in> set xs"
      by (simp_all add: btree_collect_facts(3) btree_ok_distinct bt.entries_get)
    then have "v = w" using ok by (rule bt.values_unique [rotated])
    with v show "the (btree_get (btree_collect xs) k) = the (btree_get xs k)" by simp
  qed
qed (simp_all add: btree_collect_facts)

text \<open>Two key-value lists with the same distinct keys collect to the same map only if equal.\<close>

lemma btree_collect_inj:
  assumes keys: "map fst xs = map fst ys" and dist: "distinct (map fst xs)"
    and eq: "btree_collect xs = btree_collect ys"
  shows "xs = ys"
proof -
  have "(k, v) \<in> set xs \<longleftrightarrow> (k, v) \<in> set ys" for k v
    using btree_collect_facts(3) [of xs k v] btree_collect_facts(3) [of ys k v] keys dist eq by simp
  then have "set xs = set ys" by auto
  with dist keys have "map_of xs = map_of ys" by (intro map_of_inject_set [THEN iffD2]) simp_all
  moreover have "zs = map (\<lambda>k. (k, the (map_of zs k))) (map fst zs)" if "distinct (map fst zs)"
    for zs :: "('a \<times> 'b) list"
    using that by (auto simp: o_def intro!: map_idI [symmetric])
  ultimately show ?thesis using dist keys by metis
qed

lemma btree_collect_perm:
  assumes "mset xs = mset ys" and "distinct (map fst xs)"
  shows "btree_collect xs = btree_collect ys"
proof (rule btree_eqI)
  have dist: "distinct (map fst ys)" using assms by (metis mset_eq_imp_distinct_iff mset_map)
  have sets: "set xs = set ys" using assms(1) by (rule mset_eq_setD)
  fix k
  have "btree_get (btree_collect xs) k = Some v \<longleftrightarrow> btree_get (btree_collect ys) k = Some v" for v
    using assms(2) dist sets by (simp add: btree_collect_facts(3))
  then show "btree_get (btree_collect xs) k = btree_get (btree_collect ys) k"
    by (metis not_Some_eq)
qed (simp_all add: btree_collect_facts)

lemma btree_collect_subset: "set (btree_collect xs) \<subseteq> set xs"
proof
  fix p assume "p \<in> set (btree_collect xs)"
  then have "btree_get (btree_collect xs) (fst p) = Some (snd p)"
    using bt.entries_get [OF btree_collect_facts(1), of "fst p" "snd p" xs] by simp
  then have "map_of (rev xs) (fst p) = Some (snd p)" by (simp add: btree_collect_facts(2))
  then have "(fst p, snd p) \<in> set (rev xs)" by (rule map_of_SomeD)
  then show "p \<in> set xs" by simp
qed

lemma btree_map_values:
  "btree_collect (map (\<lambda>(k, v). (k, f v)) xs) = map (\<lambda>(k, v). (k, f v)) (btree_collect xs)"
proof -
  have insert: "btree_insert k (f v) (map (\<lambda>(k, v). (k, f v)) m) =
      map (\<lambda>(k, v). (k, f v)) (btree_insert k v m)" for k v m
    by (induction k v m rule: btree_insert.induct) auto
  have "foldl (\<lambda>m (k, v). btree_insert k v m) (map (\<lambda>(k, v). (k, f v)) m) (map (\<lambda>(k, v). (k, f v)) xs) =
      map (\<lambda>(k, v). (k, f v)) (foldl (\<lambda>m (k, v). btree_insert k v m) m xs)" for m
    by (induction xs arbitrary: m) (auto simp: insert split_beta)
  from this [of "[]"] show ?thesis by (simp add: btree_collect_def)
qed

text \<open>An ordered value is its own canonical form, and sorting makes any value ordered.\<close>

lemma sort_json_ok: "json_ok v \<Longrightarrow> sort_json v = v"
proof (induction v rule: sort_json.induct)
  case (2 m)
  then have "sorted (map fst m)" by (simp add: btree_ok_def strict_sorted_iff)
  then have sorted: "sort_key fst m = m" by (simp add: sort_key_id_if_sorted)
  have "map (\<lambda>(k, v). (k, sort_json v)) m = m"
    using 2 sorted by (intro map_idI) fastforce
  with sorted 2 show ?case by (simp add: btree_collect_sorted)
qed (auto intro: map_idI)

lemma sort_json_makes_ok: "json_ok (sort_json v)"
proof (induction v rule: sort_json.induct)
  case (2 m)
  have "json_ok w" if "(k, w) \<in> set (btree_collect (map (\<lambda>(k, v). (k, sort_json v)) (sort_key fst m)))" for k w
    using that 2 btree_collect_subset by fastforce
  then show ?case by (auto simp: btree_collect_facts)
qed auto

text \<open>A serialised struct: its fields in declaration order, collected into a map.\<close>

definition jobj :: "(string \<times> json) list \<Rightarrow> json" where
  "jobj members = JObj (btree_collect members)"

lemma jobj_ok: "(\<forall>f \<in> set members. json_ok (snd f)) \<Longrightarrow> json_ok (jobj members)"
  using btree_collect_subset [of members] by (auto simp: jobj_def btree_collect_facts)

lemma jobj_inj:
  "jobj xs = jobj ys \<Longrightarrow> map fst xs = map fst ys \<Longrightarrow> distinct (map fst xs) \<Longrightarrow> xs = ys"
  by (auto simp: jobj_def intro: btree_collect_inj)

text \<open>
  With faithful printing, two values with the same canonical text are the same value.
\<close>

lemma canonical_inj:
  "json_faithful E \<Longrightarrow> json_ok v \<Longrightarrow> json_ok w \<Longrightarrow>
     to_canonical_json E v = to_canonical_json E w \<Longrightarrow> v = w"
  by (simp add: json_faithful_def to_canonical_json_def sort_json_ok inj_eq)

end
