(* ===== verification/Identity.thy ===== *)
theory Identity
  imports Json
begin

text \<open>
  Content hashes and typed identifiers: \<open>crates/okc-core/src/identity.rs\<close>. The preimages that are
  hashed (length-prefixed parts, file and snapshot manifests) are definitions of their own, so
  that the theorems can say that they determine their inputs.
\<close>

unbundle bit_operations_syntax

section \<open>Content hashes\<close>

datatype content_hash = ContentHash (hash_bytes: bytes)

instantiation content_hash :: linorder
begin

definition less_eq_content_hash :: "content_hash \<Rightarrow> content_hash \<Rightarrow> bool" where
  "less_eq_content_hash a b \<longleftrightarrow> hash_bytes a \<le> hash_bytes b"

definition less_content_hash :: "content_hash \<Rightarrow> content_hash \<Rightarrow> bool" where
  "less_content_hash a b \<longleftrightarrow> hash_bytes a < hash_bytes b"

instance
  by standard (auto simp: less_eq_content_hash_def less_content_hash_def content_hash.expand)

end

definition hash_ok :: "content_hash \<Rightarrow> bool" where
  "hash_ok h \<longleftrightarrow> length (hash_bytes h) = 32"

definition byte_char :: "8 word \<Rightarrow> char" where
  "byte_char b = char_of (unat b)"

text \<open>\<open>write_uleb128\<close>: the bytes fed to the hasher.\<close>

function uleb128 :: "64 word \<Rightarrow> bytes" where
  "uleb128 v =
     (let byte = ucast (v AND 0x7F) :: 8 word; v' = drop_bit 7 v
      in if v' \<noteq> 0 then byte_char (byte OR 0x80) # uleb128 v' else [byte_char byte])"
  by pat_completeness auto
termination
proof (relation "measure unat", simp)
  fix byte :: "8 word" and v' v :: "64 word"
  assume v': "v' = drop_bit 7 v" and "v' \<noteq> 0"
  have "unat v' = unat v div 128" unfolding v' by (simp add: drop_bit_eq_div unat_div)
  moreover from this \<open>v' \<noteq> 0\<close> have "unat v \<noteq> 0" by (auto simp: unat_eq_zero)
  ultimately show "(v', v) \<in> measure unat" by simp
qed

declare uleb128.simps [simp del]

definition length_prefixed :: "bytes \<Rightarrow> bytes" where
  "length_prefixed b = uleb128 (of_nat (length b)) @ b"

definition from_domain_bytes :: "externs \<Rightarrow> string \<Rightarrow> bytes \<Rightarrow> content_hash" where
  "from_domain_bytes E domain b = ContentHash (sha256 E (domain @ b))"

definition from_bytes :: "externs \<Rightarrow> bytes \<Rightarrow> content_hash" where
  "from_bytes E b = from_domain_bytes E (''okc:content:v2'' @ [CHR 0x00]) b"

definition parts_preimage :: "string \<Rightarrow> bytes list \<Rightarrow> bytes" where
  "parts_preimage domain parts = domain @ concat (map length_prefixed parts)"

definition from_parts :: "externs \<Rightarrow> string \<Rightarrow> bytes list \<Rightarrow> content_hash" where
  "from_parts E domain parts = ContentHash (sha256 E (parts_preimage domain parts))"

definition hash_hex :: "externs \<Rightarrow> content_hash \<Rightarrow> string" where
  "hash_hex E h = hex_encode E (hash_bytes h)"

definition parse_hex :: "externs \<Rightarrow> string \<Rightarrow> content_hash res" where
  "parse_hex E value =
     (if length value \<noteq> 64 \<or> \<not> list_all lower_hex value then Inl (MalformedInput ''identity'')
      else (case hex_decode E value of
          None \<Rightarrow> Inl (MalformedInput ''identity'')
        | Some decoded \<Rightarrow>
            if length decoded = 32 then Inr (ContentHash decoded)
            else Inl (MalformedInput ''identity'')))"

text \<open>\<open>canonical_hash\<close> of \<open>canonical.rs\<close>, on the value that serde makes of its argument.\<close>

definition canonical_hash :: "externs \<Rightarrow> string \<Rightarrow> json \<Rightarrow> content_hash" where
  "canonical_hash E domain v = from_domain_bytes E domain (to_canonical_json E v)"

section \<open>Typed identifiers\<close>

text \<open>
  The macro \<open>typed_id!\<close> makes one newtype per kind of identifier; here the kind is a phantom type
  parameter, and the prefix of the textual form an argument.
\<close>

datatype 'k typed_id = TypedId (id_hash: content_hash)

instantiation typed_id :: (type) linorder
begin

definition less_eq_typed_id :: "'a typed_id \<Rightarrow> 'a typed_id \<Rightarrow> bool" where
  "less_eq_typed_id a b \<longleftrightarrow> id_hash a \<le> id_hash b"

definition less_typed_id :: "'a typed_id \<Rightarrow> 'a typed_id \<Rightarrow> bool" where
  "less_typed_id a b \<longleftrightarrow> id_hash a < id_hash b"

instance
  by standard (auto simp: less_eq_typed_id_def less_typed_id_def typed_id.expand)

end

typedecl document_tag
typedecl block_tag
typedecl file_tag
typedecl snapshot_tag
typedecl asset_tag
typedecl canvas_tag
typedecl base_tag
typedecl link_tag

type_synonym document_id = "document_tag typed_id"
type_synonym block_id = "block_tag typed_id"
type_synonym file_id = "file_tag typed_id"
type_synonym snapshot_id = "snapshot_tag typed_id"
type_synonym asset_id = "asset_tag typed_id"
type_synonym canvas_id = "canvas_tag typed_id"
type_synonym base_id = "base_tag typed_id"
type_synonym link_id = "link_tag typed_id"

definition id_from_parts :: "externs \<Rightarrow> string \<Rightarrow> bytes list \<Rightarrow> 'k typed_id" where
  "id_from_parts E domain parts = TypedId (from_parts E domain parts)"

definition display_id :: "externs \<Rightarrow> string \<Rightarrow> 'k typed_id \<Rightarrow> string" where
  "display_id E pre i = pre @ ''_'' @ hash_hex E (id_hash i)"

definition parse_id :: "externs \<Rightarrow> string \<Rightarrow> string \<Rightarrow> 'k typed_id res" where
  "parse_id E pre value =
     (case strip_prefix (pre @ ''_'') value of
        None \<Rightarrow> Inl (MalformedInput ''identity'')
      | Some hex \<Rightarrow> bind_res (parse_hex E hex) (\<lambda>h. Inr (TypedId h)))"

definition file_preimage :: "string \<Rightarrow> string \<Rightarrow> content_hash \<Rightarrow> bytes" where
  "file_preimage path kind h =
     ''okc:file:v2'' @ [CHR 0x00] @ length_prefixed path @ length_prefixed kind @ hash_bytes h"

definition from_file :: "externs \<Rightarrow> string \<Rightarrow> string \<Rightarrow> content_hash \<Rightarrow> file_id" where
  "from_file E path kind h = TypedId (ContentHash (sha256 E (file_preimage path kind h)))"

definition manifest_preimage :: "string \<Rightarrow> string \<Rightarrow> (string \<times> file_id) list \<Rightarrow> bytes" where
  "manifest_preimage source_id policy_id manifest =
     ''okc:snapshot:v2'' @ [CHR 0x00] @ length_prefixed source_id @ length_prefixed policy_id
       @ concat (map (\<lambda>(path, f). length_prefixed path @ hash_bytes (id_hash f)) manifest)"

definition from_manifest ::
  "externs \<Rightarrow> string \<Rightarrow> string \<Rightarrow> (string \<times> file_id) list \<Rightarrow> snapshot_id" where
  "from_manifest E source_id policy_id manifest =
     TypedId (ContentHash (sha256 E (manifest_preimage source_id policy_id manifest)))"

section \<open>Crockford base 32\<close>

definition crockford_alphabet :: string where
  "crockford_alphabet = ''0123456789ABCDEFGHJKMNPQRSTVWXYZ''"

text \<open>\<open>saturating_sub\<close> on \<open>u16\<close>.\<close>

definition saturating_sub_u16 :: "16 word \<Rightarrow> 16 word \<Rightarrow> 16 word" where
  "saturating_sub_u16 a b = (if b \<le> a then a - b else 0)"

text \<open>The inner \<open>while bits >= 5\<close> loop, emitting digits.\<close>

fun emit_digits :: "16 word \<Rightarrow> nat \<Rightarrow> string \<Rightarrow> 16 word \<times> nat \<times> string" where
  "emit_digits buffer bits encoded =
     (if 5 \<le> bits then
        (let bits = bits - 5;
             index = unat (drop_bit bits buffer AND 0x1F)
         in emit_digits (buffer AND saturating_sub_u16 (push_bit bits 1) 1) bits
              (encoded @ [crockford_alphabet ! index]))
      else (buffer, bits, encoded))"

declare emit_digits.simps [simp del]

definition crockford_step :: "16 word \<times> nat \<times> string \<Rightarrow> char \<Rightarrow> 16 word \<times> nat \<times> string" where
  "crockford_step st byte = (case st of (buffer, bits, encoded) \<Rightarrow>
     emit_digits (push_bit 8 buffer OR of_nat (of_char byte)) (bits + 8) encoded)"

definition crockford_base32 :: "bytes \<Rightarrow> string" where
  "crockford_base32 bs = (case foldl crockford_step (0, 0, []) bs of (buffer, bits, encoded) \<Rightarrow>
     if 0 < bits
     then encoded @ [crockford_alphabet ! unat (push_bit (5 - bits) buffer AND 0x1F)]
     else encoded)"

definition suffix_base32 :: "'k typed_id \<Rightarrow> nat \<Rightarrow> string" where
  "suffix_base32 i characters = take (min characters 52) (crockford_base32 (hash_bytes (id_hash i)))"

section \<open>Prefix codes\<close>

text \<open>
  A prefix code can be read back from the front of a longer string, so a concatenation of codes
  determines its parts. Length-prefixed strings and the members of a snapshot manifest are two.
\<close>

locale prefix_code =
  fixes enc :: "'a \<Rightarrow> bytes"
    and ok :: "'a \<Rightarrow> bool"
  assumes enc_cancel: "ok a \<Longrightarrow> ok b \<Longrightarrow> enc a @ r = enc b @ s \<Longrightarrow> a = b \<and> r = s"
    and enc_nonempty: "ok a \<Longrightarrow> enc a \<noteq> []"
begin

lemma concat_cancel:
  "(\<forall>x \<in> set xs. ok x) \<Longrightarrow> (\<forall>y \<in> set ys. ok y) \<Longrightarrow>
     concat (map enc xs) = concat (map enc ys) \<Longrightarrow> xs = ys"
proof (induction xs arbitrary: ys)
  case Nil
  then show ?case by (cases ys) (auto simp: enc_nonempty)
next
  case (Cons x xs)
  show ?case
  proof (cases ys)
    case Nil
    with Cons.prems show ?thesis by (auto simp: enc_nonempty)
  next
    case (Cons y ys')
    with Cons.prems have "x = y \<and> concat (map enc xs) = concat (map enc ys')"
      by (intro enc_cancel) auto
    with Cons Cons.IH [of ys'] Cons.prems show ?thesis by simp
  qed
qed

end

section \<open>Bits of machine words as arithmetic\<close>

lemma nat_shift_or:
  fixes k :: nat
  assumes "k < 2 ^ n"
  shows "push_bit n m OR k = m * 2 ^ n + k"
proof -
  have "take_bit n k = k" using assms by (rule take_bit_nat_eq_self)
  then have "\<not> bit (push_bit n m) i \<or> \<not> bit k i" for i
    by (metis bit_push_bit_iff_nat bit_take_bit_iff not_less)
  then have "push_bit n m + k = push_bit n m OR k" by (rule disjunctive_add)
  then show ?thesis by (simp add: push_bit_eq_mult)
qed

lemma unat_low_bits:
  fixes w :: "'a::len word"
  shows "unat (w AND mask n) = unat w mod 2 ^ n"
  by (simp only: take_bit_eq_mask [symmetric] unsigned_take_bit_eq) (simp add: take_bit_eq_mod)

lemma unat_high_bits:
  fixes w :: "'a::len word"
  shows "unat (drop_bit n w) = unat w div 2 ^ n"
  unfolding unat_drop_bit_eq by (rule drop_bit_eq_div)

section \<open>LEB128\<close>

text \<open>The encoding as arithmetic, and its reader.\<close>

fun uleb_nat :: "nat \<Rightarrow> nat list" where
  "uleb_nat n = (if n < 128 then [n] else (n mod 128 + 128) # uleb_nat (n div 128))"

declare uleb_nat.simps [simp del]

fun read_uleb :: "bytes \<Rightarrow> (nat \<times> bytes) option" where
  "read_uleb [] = None"
| "read_uleb (c # s) =
     (let n = of_char c in if n < 128 then Some (n, s)
      else (case read_uleb s of None \<Rightarrow> None | Some (m, r) \<Rightarrow> Some (n - 128 + 128 * m, r)))"

lemma unat_byte7: "unat (ucast (v AND 0x7F) :: 8 word) = unat (v :: 64 word) mod 128"
proof -
  have "v AND 0x7F = v AND mask 7" by (simp add: mask_eq_exp_minus_1)
  then have "unat (v AND 0x7F) = unat v mod 128" by (simp only: unat_low_bits) simp
  then show ?thesis by (simp add: unsigned_ucast_eq take_bit_eq_mod mod_mod_cancel)
qed

lemma unat_or_high:
  fixes b :: "8 word"
  assumes "unat b < 128"
  shows "unat (b OR 0x80) = unat b + 128"
proof -
  have "unat (b OR 0x80) = push_bit 7 1 OR unat b"
    by (simp add: unsigned_or_eq or.commute)
  also have "\<dots> = unat b + 128" using assms by (subst nat_shift_or) simp_all
  finally show ?thesis .
qed

lemma uleb128_arith: "uleb128 v = map char_of (uleb_nat (unat v))"
proof (induction v rule: uleb128.induct)
  case (1 v)
  have high: "unat (drop_bit 7 v) = unat v div 128" by (simp only: unat_high_bits) simp
  have low: "unat v mod 128 < 128" by simp
  show ?case
  proof (cases "drop_bit 7 v = 0")
    case True
    then have "unat v < 128" using high by (auto simp: div_eq_0_iff)
    with True show ?thesis
      by (subst uleb128.simps, subst uleb_nat.simps) (simp add: Let_def byte_char_def unat_byte7)
  next
    case False
    then have "\<not> unat v < 128" using high by (auto simp: unat_eq_zero)
    with False 1 high low show ?thesis
      by (subst uleb128.simps, subst uleb_nat.simps)
        (simp add: Let_def byte_char_def unat_or_high unat_byte7)
  qed
qed

lemma read_uleb_nat: "read_uleb (map char_of (uleb_nat n) @ r) = Some (n, r)"
proof (induction n rule: uleb_nat.induct)
  case (1 n)
  show ?case
  proof (cases "n < 128")
    case True
    then show ?thesis by (subst uleb_nat.simps) (simp add: Let_def)
  next
    case False
    have "n mod 128 < 128" by simp
    then have "(n mod 128 + 128) mod 256 = n mod 128 + 128" by (intro mod_less) linarith
    with False 1 show ?thesis
      by (subst uleb_nat.simps) (simp add: Let_def)
  qed
qed

lemma read_uleb128: "read_uleb (uleb128 v @ r) = Some (unat v, r)"
  by (simp add: uleb128_arith read_uleb_nat)

lemma uleb128_nonempty: "uleb128 v \<noteq> []"
  by (subst uleb128.simps) (simp add: Let_def)

definition fits_u64 :: "bytes \<Rightarrow> bool" where
  "fits_u64 b \<longleftrightarrow> length b < 2 ^ 64"

lemma length_prefixed_cancel:
  assumes "fits_u64 a" "fits_u64 b" "length_prefixed a @ r = length_prefixed b @ s"
  shows "a = b \<and> r = s"
proof -
  have len: "unat (of_nat (length x) :: 64 word) = length x" if "fits_u64 x" for x
    using that by (simp add: fits_u64_def unat_of_nat)
  have "read_uleb (length_prefixed a @ r) = Some (length a, a @ r)"
    "read_uleb (length_prefixed b @ s) = Some (length b, b @ s)"
    using assms(1,2) by (simp_all add: length_prefixed_def read_uleb128 len)
  with assms(3) have "length a = length b" "a @ r = b @ s" by simp_all
  then show ?thesis by simp
qed

lemma length_prefixed_nonempty: "length_prefixed a \<noteq> []"
  by (simp add: length_prefixed_def uleb128_nonempty)

interpretation lp: prefix_code length_prefixed fits_u64
proof unfold_locales
  fix a b r s
  show "fits_u64 a \<Longrightarrow> fits_u64 b \<Longrightarrow> length_prefixed a @ r = length_prefixed b @ s \<Longrightarrow> a = b \<and> r = s"
    by (rule length_prefixed_cancel)
qed (rule length_prefixed_nonempty)

definition manifest_member :: "string \<times> file_id \<Rightarrow> bytes" where
  "manifest_member = (\<lambda>(path, f). length_prefixed path @ hash_bytes (id_hash f))"

definition member_ok :: "string \<times> file_id \<Rightarrow> bool" where
  "member_ok m \<longleftrightarrow> fits_u64 (fst m) \<and> hash_ok (id_hash (snd m))"

interpretation mm: prefix_code manifest_member member_ok
proof unfold_locales
  fix a b r s
  assume ok: "member_ok a" "member_ok b" and eq: "manifest_member a @ r = manifest_member b @ s"
  from ok have "fits_u64 (fst a)" "fits_u64 (fst b)" by (simp_all add: member_ok_def)
  moreover from eq have "length_prefixed (fst a) @ hash_bytes (id_hash (snd a)) @ r =
      length_prefixed (fst b) @ hash_bytes (id_hash (snd b)) @ s"
    by (simp add: manifest_member_def split_beta)
  ultimately have *: "fst a = fst b \<and> hash_bytes (id_hash (snd a)) @ r = hash_bytes (id_hash (snd b)) @ s"
    by (rule length_prefixed_cancel)
  with ok have "hash_bytes (id_hash (snd a)) = hash_bytes (id_hash (snd b))" "r = s"
    by (auto simp: member_ok_def hash_ok_def append_eq_append_conv)
  with * show "a = b \<and> r = s" by (auto intro!: prod_eqI typed_id.expand content_hash.expand)
qed (simp add: manifest_member_def split_beta length_prefixed_nonempty)

section \<open>Crockford digits\<close>

text \<open>The number a digit string stands for, and the number of a byte string.\<close>

definition value_base :: "nat \<Rightarrow> nat list \<Rightarrow> nat" where
  "value_base b ds = foldl (\<lambda>a d. b * a + d) 0 ds"

lemma value_base_simps [simp]:
  "value_base b [] = 0" "value_base b (ds @ [d]) = b * value_base b ds + d"
  by (simp_all add: value_base_def)

definition digits_of :: "nat list \<Rightarrow> string" where
  "digits_of ds = map (\<lambda>d. crockford_alphabet ! d) ds"

text \<open>
  The loop invariant: the digits written and the \<open>bits\<close> low bits waiting in the buffer spell the
  number of the bytes read so far.
\<close>

definition crock_inv :: "bytes \<Rightarrow> 16 word \<times> nat \<times> string \<Rightarrow> bool" where
  "crock_inv bs st \<longleftrightarrow> (case st of (buffer, bits, encoded) \<Rightarrow>
     unat buffer < 2 ^ bits \<and> 5 * length encoded + bits = 8 * length bs \<and>
     (\<exists>ds. (\<forall>d \<in> set ds. d < 32) \<and> encoded = digits_of ds \<and>
        value_base 32 ds * 2 ^ bits + unat buffer = value_base 256 (map of_char bs)))"

lemma mask_u16: "n < 16 \<Longrightarrow> saturating_sub_u16 (push_bit n 1) 1 = mask n"
proof -
  assume "n < 16"
  then have "(2 :: 16 word) ^ n \<noteq> 0" by (simp add: exp_eq_zero_iff)
  then have "(1 :: 16 word) \<le> push_bit n 1"
    by (simp add: push_bit_eq_mult word_le_nat_alt Suc_le_eq unat_gt_0)
  then show ?thesis by (simp add: saturating_sub_u16_def push_bit_eq_mult mask_eq_exp_minus_1)
qed

lemma digit_index:
  fixes buffer :: "16 word"
  assumes "unat buffer < 2 ^ (n + 5)"
  shows "unat (drop_bit n buffer AND 0x1F) = unat buffer div 2 ^ n"
proof -
  have "drop_bit n buffer AND 0x1F = drop_bit n buffer AND mask 5" by (simp add: mask_eq_exp_minus_1)
  then have "unat (drop_bit n buffer AND 0x1F) = (unat buffer div 2 ^ n) mod 2 ^ 5"
    by (simp only: unat_low_bits unat_high_bits)
  moreover have "unat buffer div 2 ^ n < 2 ^ 5"
    using assms by (simp add: div_less_iff_less_mult power_add mult.commute)
  ultimately show ?thesis by simp
qed

lemma emit_digits_inv:
  assumes "crock_inv bs (buffer, bits, encoded)" and "bits \<le> 16"
  shows "crock_inv bs (emit_digits buffer bits encoded) \<and> fst (snd (emit_digits buffer bits encoded)) < 5"
  using assms
proof (induction buffer bits encoded rule: emit_digits.induct)
  case (1 buffer bits encoded)
  show ?case
  proof (cases "5 \<le> bits")
    case False
    with 1 show ?thesis by (subst (1 2) emit_digits.simps) simp
  next
    case True
    define n where "n = bits - 5"
    from True 1 have bits: "bits = n + 5" "n < 16" by (simp_all add: n_def)
    from 1 obtain ds where ds: "\<forall>d \<in> set ds. d < 32" "encoded = digits_of ds"
      "value_base 32 ds * 2 ^ bits + unat buffer = value_base 256 (map of_char bs)"
      and small: "unat buffer < 2 ^ (n + 5)" and len: "5 * length encoded + bits = 8 * length bs"
      by (auto simp: crock_inv_def bits)
    let ?d = "unat buffer div 2 ^ n" and ?b = "buffer AND saturating_sub_u16 (push_bit n 1) 1"
    have d: "unat (drop_bit n buffer AND 0x1F) = ?d" using small by (rule digit_index)
    have b: "unat ?b = unat buffer mod 2 ^ n" using bits by (simp only: mask_u16 unat_low_bits)
    have lt: "?d < 32" using small by (simp add: div_less_iff_less_mult power_add mult.commute)
    have spelled: "value_base 32 (ds @ [?d]) * 2 ^ n + unat buffer mod 2 ^ n = value_base 256 (map of_char bs)"
      using ds(3) unfolding bits(1) by (simp add: power_add algebra_simps)
    have count: "5 * length (encoded @ [crockford_alphabet ! ?d]) + n = 8 * length bs"
      using len bits by simp
    have digits: "encoded @ [crockford_alphabet ! ?d] = digits_of (ds @ [?d])"
      by (simp add: ds(2) digits_of_def)
    have range: "\<forall>d \<in> set (ds @ [?d]). d < 32" using ds(1) lt by simp
    have "crock_inv bs (?b, n, encoded @ [crockford_alphabet ! unat (drop_bit n buffer AND 0x1F)])"
      unfolding crock_inv_def prod.case b d
    proof (intro conjI exI [of _ "ds @ [?d]"])
      show "unat buffer mod 2 ^ n < 2 ^ n" by simp
    qed (fact spelled count digits range)+
    from "1.IH" [OF True n_def refl this] bits "1.prems"(2)
    have "crock_inv bs (emit_digits ?b n (encoded @ [crockford_alphabet ! unat (drop_bit n buffer AND 0x1F)]))
      \<and> fst (snd (emit_digits ?b n (encoded @ [crockford_alphabet ! unat (drop_bit n buffer AND 0x1F)]))) < 5"
      by simp
    moreover have "emit_digits buffer bits encoded =
        emit_digits ?b n (encoded @ [crockford_alphabet ! unat (drop_bit n buffer AND 0x1F)])"
      using True by (subst emit_digits.simps) (simp add: Let_def n_def)
    ultimately show ?thesis by simp
  qed
qed

lemma crockford_step_inv:
  assumes "crock_inv bs st" and "fst (snd st) < 5"
  shows "crock_inv (bs @ [c]) (crockford_step st c) \<and> fst (snd (crockford_step st c)) < 5"
proof -
  obtain buffer bits encoded where st: "st = (buffer, bits, encoded)" by (cases st) auto
  let ?b = "push_bit 8 buffer OR of_nat (of_char c) :: 16 word"
  from assms obtain ds where ds: "\<forall>d \<in> set ds. d < 32" "encoded = digits_of ds"
    "value_base 32 ds * 2 ^ bits + unat buffer = value_base 256 (map of_char bs)"
    and small: "unat buffer < 2 ^ bits" and len: "5 * length encoded + bits = 8 * length bs"
    and few: "bits < 5"
    by (auto simp: crock_inv_def st)
  have c: "(of_char c :: nat) < 2 ^ 8" using nat_of_char_less_256 [of c] by simp
  have "(2::nat) ^ bits \<le> 2 ^ 4" using few by (intro power_increasing) auto
  with small have "unat buffer < 16" by simp
  then have "unat (push_bit 8 buffer :: 16 word) = push_bit 8 (unat buffer)"
    unfolding unsigned_push_bit_eq by (simp add: take_bit_eq_mod push_bit_eq_mult)
  moreover have "unat (of_nat (of_char c) :: 16 word) = of_char c"
    using c by (simp add: unat_of_nat mod_less order.strict_trans [of _ 256])
  ultimately have b: "unat ?b = unat buffer * 2 ^ 8 + of_char c"
    by (simp only: unsigned_or_eq nat_shift_or [OF c])
  have "unat buffer * 2 ^ 8 + of_char c < 2 ^ (bits + 8)"
  proof -
    have "unat buffer * 2 ^ 8 + of_char c < (unat buffer + 1) * 2 ^ 8" using c by simp
    also have "\<dots> \<le> 2 ^ bits * 2 ^ 8" using small by (intro mult_right_mono) auto
    finally show ?thesis by (simp add: power_add)
  qed
  moreover have "value_base 32 ds * 2 ^ (bits + 8) + (unat buffer * 2 ^ 8 + of_char c) =
      value_base 256 (map of_char (bs @ [c]))"
    using ds(3) by (simp add: power_add algebra_simps)
  ultimately have "crock_inv (bs @ [c]) (?b, bits + 8, encoded)"
    using ds(1,2) len unfolding crock_inv_def prod.case b by (auto intro!: exI [of _ ds])
  from emit_digits_inv [OF this] few show ?thesis by (simp add: crockford_step_def st)
qed

lemma crockford_fold_inv:
  "crock_inv bs (foldl crockford_step (0, 0, []) bs) \<and> fst (snd (foldl crockford_step (0, 0, []) bs)) < 5"
proof (induction bs rule: rev_induct)
  case Nil
  show ?case by (auto simp: crock_inv_def digits_of_def)
next
  case (snoc c bs)
  then have "crock_inv bs (foldl crockford_step (0, 0, []) bs)"
    "fst (snd (foldl crockford_step (0, 0, []) bs)) < 5" by simp_all
  from crockford_step_inv [OF this, of c] show ?case by simp
qed

lemma crockford_value:
  "\<exists>ds. crockford_base32 bs = digits_of ds \<and> (\<forall>d \<in> set ds. d < 32) \<and>
     length ds = (8 * length bs + 4) div 5 \<and>
     value_base 32 ds = value_base 256 (map of_char bs) * 2 ^ (5 * length ds - 8 * length bs)"
proof -
  obtain buffer bits encoded where st: "foldl crockford_step (0, 0, []) bs = (buffer, bits, encoded)"
    by (cases "foldl crockford_step (0, 0, []) bs") auto
  with crockford_fold_inv [of bs] obtain ds where ds: "\<forall>d \<in> set ds. d < 32" "encoded = digits_of ds"
    "value_base 32 ds * 2 ^ bits + unat buffer = value_base 256 (map of_char bs)"
    and small: "unat buffer < 2 ^ bits" and len: "5 * length encoded + bits = 8 * length bs"
    and few: "bits < 5"
    by (auto simp: crock_inv_def)
  have dslen: "length encoded = length ds" by (simp add: ds(2) digits_of_def)
  show ?thesis
  proof (cases "bits = 0")
    case True
    with small len ds dslen st show ?thesis
      by (intro exI [of _ ds]) (auto simp: crockford_base32_def)
  next
    case False
    let ?d = "unat buffer * 2 ^ (5 - bits)"
    have "(2::nat) ^ bits * 2 ^ (5 - bits) = 32" using few by (simp flip: power_add)
    moreover have "unat buffer * 2 ^ (5 - bits) < 2 ^ bits * 2 ^ (5 - bits)" using small by simp
    ultimately have lt: "?d < 32" by simp
    then have shift: "unat (push_bit (5 - bits) buffer :: 16 word) = ?d"
      unfolding unsigned_push_bit_eq by (simp add: take_bit_eq_mod push_bit_eq_mult)
    have "push_bit (5 - bits) buffer AND 0x1F = push_bit (5 - bits) buffer AND mask 5"
      by (simp add: mask_eq_exp_minus_1)
    then have idx: "unat (push_bit (5 - bits) buffer AND 0x1F) = ?d"
      using lt by (simp only: unat_low_bits shift) simp
    have "value_base 32 (ds @ [?d]) = value_base 256 (map of_char bs) * 2 ^ (5 - bits)"
      using few ds(3) [symmetric] \<open>(2::nat) ^ bits * 2 ^ (5 - bits) = 32\<close>
      by (simp add: algebra_simps)
    moreover have "5 * Suc (length ds) - 8 * length bs = 5 - bits" using len dslen by simp
    moreover have "Suc (length ds) = (8 * length bs + 4) div 5" using len dslen False few by simp
    ultimately show ?thesis using False st idx ds lt
      by (intro exI [of _ "ds @ [?d]"]) (auto simp: crockford_base32_def digits_of_def)
  qed
qed

lemma value_base_inj:
  assumes "length ds = length es" "\<forall>d \<in> set ds. d < b" "\<forall>e \<in> set es. e < b"
    "value_base b ds = value_base b es"
  shows "ds = es"
  using assms
proof (induction ds arbitrary: es rule: rev_induct)
  case (snoc d ds)
  then obtain es' e where es: "es = es' @ [e]" by (cases es rule: rev_cases) auto
  with snoc.prems have lt: "d < b" "e < b" and eq: "b * value_base b ds + d = b * value_base b es' + e"
    by auto
  from eq have "(b * value_base b ds + d) mod b = (b * value_base b es' + e) mod b" by simp
  with lt have "d = e" by simp
  with eq lt have "value_base b ds = value_base b es'" by simp
  with snoc.prems es have "ds = es'" by (intro snoc.IH) auto
  with \<open>d = e\<close> es show ?case by simp
qed simp

lemma digits_of_inj:
  assumes "digits_of ds = digits_of es" "\<forall>d \<in> set ds. d < 32" "\<forall>e \<in> set es. e < 32"
  shows "ds = es"
proof -
  have "distinct crockford_alphabet" "length crockford_alphabet = 32"
    by (simp_all add: crockford_alphabet_def)
  then have "inj_on ((!) crockford_alphabet) {d. d < 32}"
    by (auto simp: inj_on_def nth_eq_iff_index_eq)
  with assms show ?thesis
    unfolding digits_of_def by (intro map_inj_on [of "(!) crockford_alphabet"]) (auto simp: inj_on_def)
qed

lemma crockford_inj:
  assumes "length a = length b" "crockford_base32 a = crockford_base32 b"
  shows "a = b"
proof -
  obtain ds where ds: "crockford_base32 a = digits_of ds" "\<forall>d \<in> set ds. d < 32"
    "length ds = (8 * length a + 4) div 5"
    "value_base 32 ds = value_base 256 (map of_char a) * 2 ^ (5 * length ds - 8 * length a)"
    using crockford_value by blast
  obtain es where es: "crockford_base32 b = digits_of es" "\<forall>d \<in> set es. d < 32"
    "length es = (8 * length b + 4) div 5"
    "value_base 32 es = value_base 256 (map of_char b) * 2 ^ (5 * length es - 8 * length b)"
    using crockford_value by blast
  have "ds = es" using ds es assms by (intro digits_of_inj) auto
  with ds es assms have "value_base 256 (map of_char a) = value_base 256 (map of_char b)" by simp
  then have "map of_char a = (map of_char b :: nat list)"
    using assms(1) by (intro value_base_inj) auto
  then have "map char_of (map of_char a :: nat list) = map char_of (map of_char b :: nat list)" by simp
  then show ?thesis by (simp add: o_def)
qed

section \<open>Properties\<close>

text \<open>
  The textual form of a typed identifier is canonical: \<open>FromStr\<close> accepts exactly the strings
  that \<open>Display\<close> produces for a 32-byte hash, and gives the identifier back. Uppercase digits, a
  wrong prefix and a wrong length are all refused.
\<close>

lemma parse_id_iff_display:
  assumes "hex_lawful E"
  shows "parse_id E pre s = Inr i \<longleftrightarrow> hash_ok (id_hash i) \<and> s = display_id E pre i"
proof
  assume "parse_id E pre s = Inr i"
  then obtain hex h where hex: "s = pre @ ''_'' @ hex" "parse_hex E hex = Inr h" "i = TypedId h"
    by (auto simp: parse_id_def strip_prefix_Some split: option.splits)
  then obtain b where "length hex = 64" "list_all lower_hex hex" "hex_decode E hex = Some b"
    "length b = 32" "h = ContentHash b"
    by (auto simp: parse_hex_def split: if_splits option.splits)
  moreover have "hex_encode E b = hex"
  proof -
    obtain b' where "hex_decode E hex = Some b'" "hex_encode E b' = hex"
      using assms calculation(1,2) unfolding hex_lawful_def by (metis even_numeral numeral_Bit0)
    with calculation(3) show ?thesis by simp
  qed
  ultimately show "hash_ok (id_hash i) \<and> s = display_id E pre i"
    using hex by (simp add: hash_ok_def display_id_def hash_hex_def)
next
  assume i: "hash_ok (id_hash i) \<and> s = display_id E pre i"
  then obtain b where b: "id_hash i = ContentHash b" "length b = 32"
    by (cases "id_hash i") (auto simp: hash_ok_def)
  have "strip_prefix (pre @ ''_'') s = Some (hex_encode E b)"
    using i b by (simp add: strip_prefix_Some display_id_def hash_hex_def)
  moreover have "parse_hex E (hex_encode E b) = Inr (ContentHash b)"
    using assms b by (simp add: parse_hex_def hex_lawful_def)
  ultimately show "parse_id E pre s = Inr i"
    using b by (cases i) (simp add: parse_id_def)
qed

text \<open>
  Length-prefixing makes the hashed concatenation of parts unambiguous: two part lists with
  the same identifier under one domain are the same list, unless the two preimages are a SHA-256
  collision. (The parts are shorter than \<open>2^64\<close> bytes, as every Rust slice is.)
\<close>

lemma from_parts_binding:
  assumes "\<forall>p \<in> set ps. fits_u64 p" and "\<forall>q \<in> set qs. fits_u64 q"
    and "from_parts E d ps = from_parts E d qs"
  shows "ps = qs \<or> collides_on E (parts_preimage d ps) (parts_preimage d qs)"
proof (cases "parts_preimage d ps = parts_preimage d qs")
  case True
  then have "concat (map length_prefixed ps) = concat (map length_prefixed qs)"
    by (simp add: parts_preimage_def)
  with assms(1,2) show ?thesis by (simp add: lp.concat_cancel)
next
  case False
  with assms(3) show ?thesis by (simp add: collides_on_def from_parts_def)
qed

text \<open>
  A snapshot identifier commits to the source, the policy and the whole ordered file
  manifest: no reordering, renaming, moved path boundary or exchanged file identity keeps the
  identifier, short of a SHA-256 collision of the two preimages.
\<close>

lemma snapshot_id_binding:
  assumes "fits_u64 s" "fits_u64 s'" "fits_u64 p" "fits_u64 p'"
    and "\<forall>m \<in> set ms. member_ok m" and "\<forall>m \<in> set ms'. member_ok m"
    and "from_manifest E s p ms = from_manifest E s' p' ms'"
  shows "(s = s' \<and> p = p' \<and> ms = ms') \<or>
    collides_on E (manifest_preimage s p ms) (manifest_preimage s' p' ms')"
proof (cases "manifest_preimage s p ms = manifest_preimage s' p' ms'")
  case True
  then have "length_prefixed s @ length_prefixed p @ concat (map manifest_member ms) =
      length_prefixed s' @ length_prefixed p' @ concat (map manifest_member ms')"
    by (simp add: manifest_preimage_def manifest_member_def)
  with assms(1,2) have "s = s'"
    and "length_prefixed p @ concat (map manifest_member ms) =
      length_prefixed p' @ concat (map manifest_member ms')"
    by (blast dest: lp.enc_cancel)+
  moreover from this(2) assms(3,4) have "p = p'"
    and "concat (map manifest_member ms) = concat (map manifest_member ms')"
    by (blast dest: lp.enc_cancel)+
  ultimately show ?thesis using assms(5,6) by (simp add: mm.concat_cancel)
next
  case False
  with assms(7) show ?thesis by (simp add: collides_on_def from_manifest_def)
qed

text \<open>
  The Crockford suffix of an identifier: a request for \<open>n\<close> characters gives \<open>min n 52\<close>
  characters of the alphabet, longer requests extend shorter ones, and the full 52 characters
  determine the identifier, so that a path collision is always resolved by a long enough suffix.
\<close>

lemma suffix_base32_identifies:
  assumes "hash_ok (id_hash i)" and "hash_ok (id_hash j)"
  shows "length (suffix_base32 i n) = min n 52 \<and>
    set (suffix_base32 i n) \<subseteq> set crockford_alphabet \<and>
    (n \<le> m \<longrightarrow> prefix (suffix_base32 i n) (suffix_base32 i m)) \<and>
    (suffix_base32 i 52 = suffix_base32 j 52 \<longrightarrow> i = j)"
proof -
  have len: "length (crockford_base32 b) = 52" if "length b = 32" for b
    using crockford_value [of b] that by (auto simp: digits_of_def)
  have alpha: "set (crockford_base32 b) \<subseteq> set crockford_alphabet" for b
  proof -
    have "length crockford_alphabet = 32" by (simp add: crockford_alphabet_def)
    then show ?thesis using crockford_value [of b] by (auto simp: digits_of_def)
  qed
  let ?i = "hash_bytes (id_hash i)" and ?j = "hash_bytes (id_hash j)"
  have lens: "length ?i = 32" "length ?j = 32" using assms by (simp_all add: hash_ok_def)
  have "length (suffix_base32 i n) = min n 52" using lens len by (simp add: suffix_base32_def)
  moreover have "set (suffix_base32 i n) \<subseteq> set crockford_alphabet"
    using alpha [of ?i] set_take_subset [of "min n 52" "crockford_base32 ?i"]
    unfolding suffix_base32_def by (rule order.trans [rotated])
  moreover have "n \<le> m \<longrightarrow> prefix (suffix_base32 i n) (suffix_base32 i m)"
    by (simp only: suffix_base32_def) (intro impI prefix_take_mono, simp)
  moreover have "suffix_base32 i 52 = suffix_base32 j 52 \<longrightarrow> i = j"
  proof
    assume "suffix_base32 i 52 = suffix_base32 j 52"
    then have "take 52 (crockford_base32 ?i) = take 52 (crockford_base32 ?j)"
      by (simp only: suffix_base32_def min.idem)
    then have "crockford_base32 ?i = crockford_base32 ?j"
      using len [OF lens(1)] len [OF lens(2)] by (metis order.refl take_all)
    then have "?i = ?j" by (rule crockford_inj [rotated]) (simp add: lens)
    then show "i = j" by (simp add: typed_id.expand content_hash.expand)
  qed
  ultimately show ?thesis by blast
qed

end
