(* ===== verification/Sources.thy ===== *)
theory Sources
  imports Complex_Main Identity
begin

text \<open>
  The compiler policy of \<open>crates/okc-core/src/config.rs\<close> and the source descriptors of
  \<open>crates/okc-core/src/source.rs\<close>. Limits and sizes (\<open>u64\<close>, \<open>usize\<close>) are naturals; the places
  where the code computes with them write the checked or saturating operation out.
\<close>

section \<open>Machine arithmetic on sizes\<close>

definition u64_max :: nat where
  "u64_max = 2 ^ 64 - 1"

definition checked_add_u64 :: "nat \<Rightarrow> nat \<Rightarrow> nat option" where
  "checked_add_u64 a b = (if a + b \<le> u64_max then Some (a + b) else None)"

definition saturating_add_u64 :: "nat \<Rightarrow> nat \<Rightarrow> nat" where
  "saturating_add_u64 a b = min (a + b) u64_max"

definition saturating_mul_u64 :: "nat \<Rightarrow> nat \<Rightarrow> nat" where
  "saturating_mul_u64 a b = min (a * b) u64_max"

lemma checked_add_u64_Some: "checked_add_u64 a b = Some c \<longleftrightarrow> c = a + b \<and> a + b \<le> u64_max"
  by (auto simp: checked_add_u64_def)

text \<open>The value of an \<open>f64\<close> bit pattern, when it is finite.\<close>

definition f64_value :: "64 word \<Rightarrow> rat option" where
  "f64_value w =
     (let n = unat w; sign = n div 2 ^ 63; e = (n div 2 ^ 52) mod 2048; m = n mod 2 ^ 52;
          magnitude = (if e = 0 then of_nat m / 2 ^ 1074
             else if e < 1075 then of_nat (2 ^ 52 + m) / 2 ^ (1075 - e)
             else of_nat (2 ^ 52 + m) * 2 ^ (e - 1075))
      in if e = 2047 then None else Some (if sign = 1 then - magnitude else magnitude))"

definition f64_unit_interval :: "64 word \<Rightarrow> bool" where
  "f64_unit_interval w = (case f64_value w of None \<Rightarrow> False | Some r \<Rightarrow> 0 \<le> r \<and> r \<le> 1)"

text \<open>\<open>CARGO_PKG_VERSION\<close>, the version of the workspace.\<close>

definition package_version :: string where
  "package_version = ''0.3.0''"

section \<open>Policy\<close>

record safety_limits =
  max_sources :: nat
  max_files :: nat
  max_total_bytes :: nat
  max_file_bytes :: nat
  max_structured_text_bytes :: nat
  max_archive_expansion_ratio :: nat
  max_path_bytes :: nat
  max_component_bytes :: nat

definition default_limits :: safety_limits where
  "default_limits = \<lparr>max_sources = 10, max_files = 100000,
     max_total_bytes = 20 * 1024 * 1024 * 1024, max_file_bytes = 2 * 1024 * 1024 * 1024,
     max_structured_text_bytes = 16 * 1024 * 1024, max_archive_expansion_ratio = 100,
     max_path_bytes = 1024, max_component_bytes = 240\<rparr>"

datatype nonstandard_file_policy = PreserveOpaque | Exclude

record path_policy =
  follow_symlinks :: bool
  exclude :: "string list"
  nonstandard_files :: nonstandard_file_policy
  nonstandard_extensions :: "string list"

definition default_path_policy :: path_policy where
  "default_path_policy = \<lparr>follow_symlinks = False,
     exclude = [''.obsidian/**'', ''.git/**'', ''**/.DS_Store''],
     nonstandard_files = PreserveOpaque, nonstandard_extensions = []\<rparr>"

record dedup_policy =
  near_threshold :: "64 word"
  minhash_components :: nat
  lsh_bands :: nat
  rows_per_band :: nat
  max_candidates_per_document :: nat

text \<open>\<open>0x3FEB333333333333\<close> is the double nearest to 0.85.\<close>

definition default_dedup :: dedup_policy where
  "default_dedup = \<lparr>near_threshold = 0x3FEB333333333333, minhash_components = 128,
     lsh_bands = 32, rows_per_band = 4, max_candidates_per_document = 100\<rparr>"

record output_policy =
  reject_existing_destination :: bool
  deny_warnings :: bool
  retain_failed_staging :: bool
  zstd_level :: int

definition default_output :: output_policy where
  "default_output = \<lparr>reject_existing_destination = True, deny_warnings = False,
     retain_failed_staging = False, zstd_level = 10\<rparr>"

record augmentation_policy =
  allow_remote_providers :: bool
  max_proposals :: nat
  max_generated_bytes :: nat

definition default_augmentation :: augmentation_policy where
  "default_augmentation = \<lparr>allow_remote_providers = False, max_proposals = 1000,
     max_generated_bytes = 16 * 1024 * 1024\<rparr>"

record compiler_policy =
  policy_schema_version :: nat
  limits :: safety_limits
  paths :: path_policy
  dedup :: dedup_policy
  output_rules :: output_policy
  augmentation :: augmentation_policy

definition default_policy :: compiler_policy where
  "default_policy = \<lparr>policy_schema_version = 2, limits = default_limits,
     paths = default_path_policy, dedup = default_dedup, output_rules = default_output,
     augmentation = default_augmentation\<rparr>"

definition validate_policy :: "externs \<Rightarrow> compiler_policy \<Rightarrow> unit res" where
  "validate_policy E p = (let l = limits p in seq_checks [
     reject (policy_schema_version p \<noteq> 2) InvalidConfig,
     reject (max_sources l = 0 \<or> max_files l = 0 \<or> max_total_bytes l = 0 \<or> max_file_bytes l = 0
        \<or> max_structured_text_bytes l = 0 \<or> max_archive_expansion_ratio l = 0
        \<or> max_path_bytes l = 0 \<or> max_component_bytes l = 0) InvalidConfig,
     reject (max_total_bytes l < max_file_bytes l) InvalidConfig,
     reject (max_file_bytes l < max_structured_text_bytes l) InvalidConfig,
     reject (max_component_bytes l < 80 \<or> max_path_bytes l < max_component_bytes l) InvalidConfig,
     reject (follow_symlinks (paths p)) InvalidConfig,
     reject (\<not> reject_existing_destination (output_rules p)) InvalidConfig,
     for_each (\<lambda>pattern. seq_checks [
         reject (prefix ''!'' pattern) InvalidConfig,
         reject (\<not> glob_ok E pattern) InvalidConfig]) (exclude (paths p)),
     reject (\<not> glob_set_ok E (exclude (paths p))) InvalidConfig,
     reject (list_ex (\<lambda>e. e = [] \<or> 32 < length e \<or>
         \<not> list_all (\<lambda>b. is_ascii_alphanumeric b \<or> b \<in> set ''-_'') e)
       (nonstandard_extensions (paths p))) InvalidConfig,
     reject (\<not> f64_unit_interval (near_threshold (dedup p))) InvalidConfig,
     reject (minhash_components (dedup p) \<noteq> 128 \<or> lsh_bands (dedup p) \<noteq> 32
        \<or> rows_per_band (dedup p) \<noteq> 4) InvalidConfig,
     reject (max_candidates_per_document (dedup p) = 0) InvalidConfig,
     reject (max_proposals (augmentation p) = 0 \<or> max_generated_bytes (augmentation p) = 0)
       InvalidConfig])"

section \<open>Source identifiers and descriptors\<close>

text \<open>A \<open>SourceId\<close> is a newtype over its text; \<open>SourceId::new\<close> is its only constructor.\<close>

datatype source_id = SourceId (source_str: string)

instantiation source_id :: linorder
begin

definition less_eq_source_id :: "source_id \<Rightarrow> source_id \<Rightarrow> bool" where
  "less_eq_source_id a b \<longleftrightarrow> source_str a \<le> source_str b"

definition less_source_id :: "source_id \<Rightarrow> source_id \<Rightarrow> bool" where
  "less_source_id a b \<longleftrightarrow> source_str a < source_str b"

instance
  by standard (auto simp: less_eq_source_id_def less_source_id_def source_id.expand)

end

definition new_source_id :: "string \<Rightarrow> source_id res" where
  "new_source_id v =
     (if v = [] \<or> 128 < length v \<or> v = ''.'' \<or> v = ''..'' then Inl InvalidConfig
      else if \<not> list_all (\<lambda>b. is_ascii_alphanumeric b \<or> b \<in> set ''-_.'') v then Inl InvalidConfig
      else Inr (SourceId v))"

datatype source_spec =
    DirectorySpec (spec_id: source_id) (spec_path: string) (spec_owner: "string option")
  | ZipSpec (spec_id: source_id) (spec_path: string) (spec_owner: "string option")
  | TarZstSpec (spec_id: source_id) (spec_path: string) (spec_owner: "string option")

definition directory_spec :: "string \<Rightarrow> string \<Rightarrow> source_spec res" where
  "directory_spec s path = bind_res (new_source_id s) (\<lambda>i. Inr (DirectorySpec i path None))"

definition extension_is :: "string \<Rightarrow> string option \<Rightarrow> bool" where
  "extension_is e x = (case x of None \<Rightarrow> False | Some v \<Rightarrow> eq_ignore_ascii_case v e)"

definition archive_spec :: "string \<Rightarrow> string \<Rightarrow> source_spec res" where
  "archive_spec s path =
     (let extension = path_extension path;
          is_zip = extension_is ''zip'' extension;
          is_tzst = extension_is ''tzst'' extension;
          is_tar_zst = extension_is ''zst'' extension \<and>
            (case path_file_stem path of None \<Rightarrow> False
             | Some stem \<Rightarrow> extension_is ''tar'' (path_extension stem))
      in if is_zip then bind_res (new_source_id s) (\<lambda>i. Inr (ZipSpec i path None))
         else if is_tar_zst \<or> is_tzst
         then bind_res (new_source_id s) (\<lambda>i. Inr (TarZstSpec i path None))
         else Inl (UnsupportedSource path))"

definition with_owner_display_name :: "string \<Rightarrow> source_spec \<Rightarrow> source_spec res" where
  "with_owner_display_name owner s =
     (if trim owner = [] \<or> 256 < length owner \<or> has_control owner then Inl InvalidConfig
      else Inr (case s of
          DirectorySpec i p _ \<Rightarrow> DirectorySpec i p (Some owner)
        | ZipSpec i p _ \<Rightarrow> ZipSpec i p (Some owner)
        | TarZstSpec i p _ \<Rightarrow> TarZstSpec i p (Some owner)))"

fun kind_name :: "source_spec \<Rightarrow> string" where
  "kind_name (DirectorySpec _ _ _) = ''directory''"
| "kind_name (ZipSpec _ _ _) = ''zip''"
| "kind_name (TarZstSpec _ _ _) = ''tar_zst''"

section \<open>Facts\<close>

lemma new_source_id_Inr:
  "new_source_id v = Inr i \<longleftrightarrow> i = SourceId v \<and> v \<noteq> [] \<and> length v \<le> 128 \<and> v \<noteq> ''.'' \<and> v \<noteq> ''..'' \<and>
     list_all (\<lambda>b. is_ascii_alphanumeric b \<or> b \<in> set ''-_.'') v"
  by (auto simp: new_source_id_def)

text \<open>A source identifier is a single path component of its own.\<close>

lemma new_source_id_component:
  assumes "new_source_id v = Inr i"
  shows "split_path v = [v]"
proof -
  have "CHR ''/'' \<notin> set v"
    using assms by (auto simp: new_source_id_Inr list_all_iff is_ascii_alphanumeric_def
        is_ascii_digit_def is_ascii_alphabetic_def)
  then show ?thesis by (simp add: split_path_def split_on_no_sep)
qed

lemma default_policy_valid:
  assumes "glob_ok E = (\<lambda>_. True)" "glob_set_ok E = (\<lambda>_. True)"
  shows "validate_policy E default_policy = Inr ()"
  using assms
  by (simp add: validate_policy_def default_policy_def default_limits_def default_path_policy_def
      default_dedup_def default_output_def default_augmentation_def f64_unit_interval_def
      f64_value_def Let_def)

end
