(* ===== verification/Paths.thy ===== *)
theory Paths
  imports Sources
begin

text \<open>
  Portable paths and the safety checks of source reading: \<open>crates/okc-core/src/snapshot.rs\<close>
  from \<open>decode_directory_path\<close> to \<open>read_exact_limited\<close>. Every relative path that a plan, a
  corpus or an artifact carries passes one of these validators.
\<close>

section \<open>Components\<close>

text \<open>The scalar values of NUL, the controls and \<^verbatim>\<open>< > : " / \ | ? *\<close>.\<close>

definition forbidden_scalar :: "nat \<Rightarrow> bool" where
  "forbidden_scalar c \<longleftrightarrow> c = 0 \<or> is_control c
     \<or> c \<in> {0x3C, 0x3E, 0x3A, 0x22, 0x2F, 0x5C, 0x7C, 0x3F, 0x2A}"

definition reserved_names :: "string list" where
  "reserved_names = [''CON'', ''PRN'', ''AUX'', ''NUL'',
     ''COM1'', ''COM2'', ''COM3'', ''COM4'', ''COM5'', ''COM6'', ''COM7'', ''COM8'', ''COM9'',
     ''LPT1'', ''LPT2'', ''LPT3'', ''LPT4'', ''LPT5'', ''LPT6'', ''LPT7'', ''LPT8'', ''LPT9'']"

definition validate_component :: "string \<Rightarrow> compiler_policy \<Rightarrow> unit res" where
  "validate_component component p = seq_checks [
     reject (component = '''' \<or> component = ''.'' \<or> component = ''..''
        \<or> suffix '' '' component \<or> suffix ''.'' component
        \<or> list_ex forbidden_scalar (chars component)) (UnsafePath component),
     reject (max_component_bytes (limits p) < length component) (UnsafePath component),
     reject (to_ascii_uppercase (hd (split_on CHR ''.'' component)) \<in> set reserved_names)
       (UnsafePath component)]"

record source_path_pair =
  pair_original :: string
  pair_logical :: string

definition validate_path_length :: "string \<Rightarrow> compiler_policy \<Rightarrow> unit res" where
  "validate_path_length path p = reject (max_path_bytes (limits p) < length path) (UnsafePath path)"

definition build_source_path_pair ::
  "externs \<Rightarrow> string list \<Rightarrow> string \<Rightarrow> compiler_policy \<Rightarrow> source_path_pair res" where
  "build_source_path_pair E components display_path p =
     (if components = [] then Inl (UnsafePath display_path)
      else and_then
        (for_each (\<lambda>c. seq_checks [validate_component c p, validate_component (nfc E c) p]) components)
        (let original_path = join_path components;
             logical_path = join_path (map (nfc E) components)
         in and_then (validate_path_length original_path p)
             (and_then (validate_path_length logical_path p)
               (Inr \<lparr>pair_original = original_path, pair_logical = logical_path\<rparr>))))"

text \<open>The loop over the pieces: \<open>.\<close> is skipped, an empty piece and \<open>..\<close> are errors.\<close>

fun archive_components :: "string \<Rightarrow> string list \<Rightarrow> string list res" where
  "archive_components raw_path [] = Inr []"
| "archive_components raw_path (c # cs) =
     (if c = ''.'' then archive_components raw_path cs
      else if c = '''' then Inl (UnsafePath raw_path)
      else if c = ''..'' then Inl (UnsafePath raw_path)
      else bind_res (archive_components raw_path cs) (\<lambda>rest. Inr (c # rest)))"

definition decode_archive_path ::
  "externs \<Rightarrow> string \<Rightarrow> bool \<Rightarrow> compiler_policy \<Rightarrow> source_path_pair res" where
  "decode_archive_path E raw_path is_directory p =
     (if prefix ''/'' raw_path \<or> CHR 0x5C \<in> set raw_path \<or> CHR 0x00 \<in> set raw_path
      then Inl (UnsafePath raw_path)
      else (let without_marker = (if is_directory
                then (case strip_suffix ''/'' raw_path of None \<Rightarrow> raw_path | Some s \<Rightarrow> s)
                else raw_path)
            in bind_res (archive_components raw_path (split_path without_marker))
                 (\<lambda>components. build_source_path_pair E components raw_path p)))"

definition decode_directory_path ::
  "externs \<Rightarrow> string \<Rightarrow> compiler_policy \<Rightarrow> source_path_pair res" where
  "decode_directory_path E path p =
     bind_res
       (try_fold (\<lambda>components c. case c of
            Normal v \<Rightarrow> Inr (components @ [v])
          | CurDir \<Rightarrow> Inr components
          | ParentDir \<Rightarrow> Inl (UnsafePath path)
          | RootDir \<Rightarrow> Inl (UnsafePath path)) [] (path_components path))
       (\<lambda>components. build_source_path_pair E components path p)"

datatype source_path_encoding = Utf8

definition validate_source_path_pair ::
  "externs \<Rightarrow> string \<Rightarrow> string \<Rightarrow> source_path_encoding \<Rightarrow> compiler_policy \<Rightarrow> unit res" where
  "validate_source_path_pair E original_path logical_path encoding p =
     and_then (reject (encoding \<noteq> Utf8) (UnsafePath original_path))
       (bind_res (decode_archive_path E original_path False p)
         (\<lambda>decoded. reject (pair_original decoded \<noteq> original_path \<or> pair_logical decoded \<noteq> logical_path)
            IdentityMismatch))"

definition validate_output_logical_path :: "externs \<Rightarrow> string \<Rightarrow> compiler_policy \<Rightarrow> unit res" where
  "validate_output_logical_path E path p =
     bind_res (decode_archive_path E path False p)
       (\<lambda>decoded. reject (pair_original decoded \<noteq> path \<or> pair_logical decoded \<noteq> path) (UnsafePath path))"

definition validate_portable_relative_path :: "externs \<Rightarrow> string \<Rightarrow> compiler_policy \<Rightarrow> unit res" where
  "validate_portable_relative_path E path p =
     bind_res (decode_archive_path E path False p)
       (\<lambda>decoded. reject (pair_original decoded \<noteq> path) (UnsafePath path))"

section \<open>Exclusion of sensitive and executable files\<close>

definition sensitive_names :: "string list" where
  "sensitive_names = [''id_rsa'', ''id_dsa'', ''id_ecdsa'', ''id_ed25519'', ''credentials'',
     ''credentials.json'', ''.npmrc'', ''.pypirc'', ''.netrc'']"

definition executable_extensions :: "string list" where
  "executable_extensions = [''exe'', ''com'', ''scr'', ''dll'', ''dylib'', ''so'', ''app'', ''msi'',
     ''msp'', ''bat'', ''cmd'', ''ps1'', ''sh'', ''bash'', ''zsh'', ''fish'', ''command'', ''vbs'',
     ''vbe'', ''js'', ''jse'', ''mjs'', ''cjs'', ''wsf'', ''wsh'', ''hta'', ''jar'', ''class'',
     ''wasm'', ''apk'', ''deb'', ''rpm'', ''dmg'', ''pkg'', ''key'', ''pem'', ''p12'', ''pfx'']"

definition is_excluded :: "externs \<Rightarrow> compiler_policy \<Rightarrow> string \<Rightarrow> bool \<Rightarrow> bool \<Rightarrow> bool" where
  "is_excluded E p logical_path is_symlink is_dir =
     (if is_symlink then True
      else let lower = to_ascii_lowercase logical_path;
               basename = (case path_file_name lower of None \<Rightarrow> '''' | Some n \<Rightarrow> n);
               extension = (case path_extension lower of None \<Rightarrow> '''' | Some x \<Rightarrow> x)
      in list_ex (\<lambda>c. c = ''.obsidian'' \<or> c = ''.git'') (split_path lower)
         \<or> suffix ''/.ds_store'' lower \<or> lower = ''.ds_store''
         \<or> glob_ignores E (exclude (paths p)) logical_path is_dir
         \<or> basename = ''.env'' \<or> prefix ''.env.'' basename \<or> basename \<in> set sensitive_names
         \<or> prefix ''secrets.'' basename
         \<or> extension \<in> set executable_extensions)"

section \<open>Resource limits\<close>

definition enforce_expansion_ratio :: "nat \<Rightarrow> nat \<Rightarrow> compiler_policy \<Rightarrow> unit res" where
  "enforce_expansion_ratio compressed expanded p =
     reject (saturating_mul_u64 (max compressed 1) (max_archive_expansion_ratio (limits p)) < expanded)
       ResourceLimit"

definition enforce_archive_limits :: "nat \<Rightarrow> nat \<Rightarrow> nat \<Rightarrow> compiler_policy \<Rightarrow> unit res" where
  "enforce_archive_limits compressed expanded files p = seq_checks [
     reject (max_files (limits p) < files) ResourceLimit,
     reject (max_total_bytes (limits p) < expanded) ResourceLimit,
     enforce_expansion_ratio compressed expanded p]"

definition enforce_file_limits :: "nat \<Rightarrow> nat \<Rightarrow> compiler_policy \<Rightarrow> unit res" where
  "enforce_file_limits files total_bytes p = seq_checks [
     reject (max_files (limits p) < files) ResourceLimit,
     reject (max_total_bytes (limits p) < total_bytes) ResourceLimit]"

definition reject_seen_path :: "string set \<Rightarrow> string \<Rightarrow> string set res" where
  "reject_seen_path seen logical_path =
     (if logical_path \<in> seen then Inl (UnsafePath logical_path) else Inr (insert logical_path seen))"

definition reject_duplicate_paths :: "string list \<Rightarrow> unit res" where
  "reject_duplicate_paths logical_paths = done_with (try_fold reject_seen_path {} logical_paths)"

text \<open>
  \<open>read_exact_limited\<close>: \<open>reader\<close> is what the underlying stream would deliver, or its error.
\<close>

definition read_exact_limited ::
  "(io_error + bytes) \<Rightarrow> nat \<Rightarrow> nat \<Rightarrow> string \<Rightarrow> string \<Rightarrow> bytes res" where
  "read_exact_limited reader expected limit source logical_path =
     (if limit < expected then Inl ResourceLimit
      else case reader of Inl e \<Rightarrow> Inl (Io source e)
      | Inr stream \<Rightarrow>
          let b = take (saturating_add_u64 limit 1) stream
          in if limit < length b then Inl ResourceLimit
             else if length b \<noteq> expected then Inl (MalformedInput logical_path)
             else Inr b)"

section \<open>What the validators accept\<close>

definition component_ok :: "compiler_policy \<Rightarrow> string \<Rightarrow> bool" where
  "component_ok p c \<longleftrightarrow> validate_component c p = Inr ()"

lemma component_okD:
  assumes "component_ok p c"
  shows "c \<noteq> ''''" "c \<noteq> ''.''" "c \<noteq> ''..''" "length c \<le> max_component_bytes (limits p)"
    "\<not> list_ex forbidden_scalar (chars c)"
    "\<not> suffix '' '' c" "\<not> suffix ''.'' c"
  using assms by (simp_all add: component_ok_def validate_component_def)

lemma archive_components_Inr:
  "archive_components raw cs = Inr ds \<longleftrightarrow>
     ds = filter (\<lambda>c. c \<noteq> ''.'') cs \<and> '''' \<notin> set cs \<and> ''..'' \<notin> set cs"
  by (induction cs arbitrary: ds) auto

lemma build_source_path_pair_Inr:
  "build_source_path_pair E cs d p = Inr pr \<longleftrightarrow>
     cs \<noteq> [] \<and> (\<forall>c \<in> set cs. component_ok p c \<and> component_ok p (nfc E c)) \<and>
     length (join_path cs) \<le> max_path_bytes (limits p) \<and>
     length (join_path (map (nfc E) cs)) \<le> max_path_bytes (limits p) \<and>
     pr = \<lparr>pair_original = join_path cs, pair_logical = join_path (map (nfc E) cs)\<rparr>"
  by (auto simp: build_source_path_pair_def component_ok_def validate_path_length_def Let_def)

text \<open>
  A portable path: its pieces are components, it has no dot pieces, and it respects the limits
  both as spelled and in normal form.
\<close>

definition portable_path :: "externs \<Rightarrow> compiler_policy \<Rightarrow> string \<Rightarrow> bool" where
  "portable_path E p path \<longleftrightarrow>
     \<not> prefix ''/'' path \<and> CHR 0x5C \<notin> set path \<and> CHR 0x00 \<notin> set path \<and>
     (\<forall>c \<in> set (split_path path). component_ok p c \<and> component_ok p (nfc E c)) \<and>
     length path \<le> max_path_bytes (limits p) \<and>
     length (join_path (map (nfc E) (split_path path))) \<le> max_path_bytes (limits p)"

definition logical_of :: "externs \<Rightarrow> string \<Rightarrow> string" where
  "logical_of E path = join_path (map (nfc E) (split_path path))"

lemma portable_path_plain: "portable_path E p path \<Longrightarrow> plain_path path"
  by (auto simp: portable_path_def plain_path_def dest: component_okD)

lemma decode_accepts_portable:
  assumes "portable_path E p path"
  shows "decode_archive_path E path False p =
    Inr \<lparr>pair_original = path, pair_logical = logical_of E path\<rparr>"
proof -
  have plain: "plain_path path" by (rule portable_path_plain [OF assms])
  then have "filter (\<lambda>c. c \<noteq> ''.'') (split_path path) = split_path path"
    by (intro filter_True) (auto simp: plain_path_def)
  with plain have "archive_components path (split_path path) = Inr (split_path path)"
    by (auto simp: archive_components_Inr plain_path_def)
  with assms show ?thesis
    by (simp add: decode_archive_path_def Let_def portable_path_def logical_of_def
        build_source_path_pair_Inr [THEN iffD2])
qed

lemma decode_original_portable:
  assumes "decode_archive_path E path False p = Inr pr"
  shows "portable_path E p (pair_original pr)" "pair_logical pr = logical_of E (pair_original pr)"
proof -
  let ?cs = "filter (\<lambda>c. c \<noteq> ''.'') (split_path path)"
  from assms have pr: "build_source_path_pair E ?cs path p = Inr pr"
    and clean: "CHR 0x5C \<notin> set path" "CHR 0x00 \<notin> set path"
    by (auto simp: decode_archive_path_def archive_components_Inr Let_def split: if_splits)
  then have ne: "?cs \<noteq> []" and ok: "\<forall>c \<in> set ?cs. component_ok p c \<and> component_ok p (nfc E c)"
    and orig: "pair_original pr = join_path ?cs"
    and len: "length (join_path ?cs) \<le> max_path_bytes (limits p)"
      "length (join_path (map (nfc E) ?cs)) \<le> max_path_bytes (limits p)"
    and log: "pair_logical pr = join_path (map (nfc E) ?cs)"
    by (auto simp: build_source_path_pair_Inr)
  have pieces: "\<forall>c \<in> set ?cs. CHR ''/'' \<notin> set c" by (auto dest: split_path_pieces)
  with ne have split: "split_path (join_path ?cs) = ?cs" by (rule split_path_join)
  have chars: "set (join_path cs) \<subseteq> insert CHR ''/'' (\<Union>c \<in> set cs. set c)" for cs
    unfolding join_path_def by (induction "''/''" cs rule: join_with.induct) auto
  have "set c \<subseteq> set path" if "c \<in> set (split_path path)" for c
  proof -
    have "set c \<subseteq> set (join_with ''/'' cs)" if "c \<in> set cs" for cs
      using that by (induction "''/''" cs rule: join_with.induct) auto
    from this [OF that] show ?thesis by (simp add: join_path_def [symmetric])
  qed
  then have "set (join_path ?cs) \<subseteq> insert CHR ''/'' (set path)" using chars [of ?cs] by fastforce
  with clean have "CHR 0x5C \<notin> set (join_path ?cs)" "CHR 0x00 \<notin> set (join_path ?cs)" by auto
  moreover have "\<not> prefix ''/'' (join_path ?cs)"
  proof
    assume "prefix ''/'' (join_path ?cs)"
    then obtain t where "join_path ?cs = [] @ CHR ''/'' # t" by (auto simp: prefix_def)
    then have "split_path (join_path ?cs) = [] # split_path t" by (simp add: split_path_def)
    with split have "[] \<in> set ?cs" by (metis list.set_intros(1))
    with ok show False using component_okD(1) by blast
  qed
  ultimately show "portable_path E p (pair_original pr)"
    unfolding portable_path_def orig split using ok len by blast
  show "pair_logical pr = logical_of E (pair_original pr)"
    unfolding logical_of_def orig split log ..
qed

lemma validate_portable_iff: "validate_portable_relative_path E path p = Inr () \<longleftrightarrow> portable_path E p path"
  using decode_original_portable(1) [of E path p]
  by (auto simp: validate_portable_relative_path_def decode_accepts_portable)

lemma validate_output_iff:
  "validate_output_logical_path E path p = Inr () \<longleftrightarrow> portable_path E p path \<and> logical_of E path = path"
  using decode_original_portable [of E path p]
  by (auto simp: validate_output_logical_path_def decode_accepts_portable)

lemma validate_pair_iff:
  "validate_source_path_pair E original logical enc p = Inr () \<longleftrightarrow>
     portable_path E p original \<and> logical = logical_of E original"
  using decode_original_portable [of E original p]
  by (cases enc) (auto simp: validate_source_path_pair_def decode_accepts_portable)

end
