(* ===== verification/Corpus.thy ===== *)
theory Corpus
  imports Paths
begin

text \<open>
  The sealed corpus and the taxonomy of \<open>crates/okc-core/src/integration.rs\<close>: their data, the
  JSON that serde derives for them (every sealed identity is a hash of it), the sealing
  constructors, \<open>PortableOutputPaths\<close>, \<open>validate_corpus\<close> and \<open>validate_taxonomy\<close>.

  Field names carry the initials of their struct, because record fields of HOL share one name
  space. \<open>BTreeSet\<close> is a set where the code only inserts and asks for membership or equality.
\<close>

section \<open>Data\<close>

definition integration_schema_version :: nat where
  "integration_schema_version = 3"

record source_block =
  sb_block_id :: block_id
  sb_content_hash :: content_hash
  sb_text :: string

record metadata_value =
  mv_metadata_id :: string
  mv_key :: string
  mv_value_index :: nat
  mv_content_hash :: content_hash
  mv_value :: json

record integration_document =
  doc_source_id :: source_id
  doc_document_id :: document_id
  doc_original_path :: string
  doc_document_hash :: content_hash
  doc_blocks :: "source_block list"
  doc_metadata :: "metadata_value list"

record integration_corpus =
  co_schema_version :: nat
  co_corpus_hash :: content_hash
  co_policy_hash :: content_hash
  co_documents :: "integration_document list"

record taxonomy_cluster =
  cl_cluster_id :: string
  cl_title :: string
  cl_canonical_path :: string
  cl_document_ids :: "document_id list"

record taxonomy_proposal =
  ta_schema_version :: nat
  ta_corpus_hash :: content_hash
  ta_taxonomy_hash :: content_hash
  ta_clusters :: "taxonomy_cluster list"
  ta_organizer_recording_hash :: content_hash

section \<open>Serialised form\<close>

definition domain :: "string \<Rightarrow> string" where
  "domain s = s @ [CHR 0x00]"

definition jnat :: "nat \<Rightarrow> json" where
  "jnat n = JNum (PosInt (of_nat n))"

definition jhash :: "externs \<Rightarrow> content_hash \<Rightarrow> json" where
  "jhash E h = JStr (hash_hex E h)"

definition jid :: "externs \<Rightarrow> string \<Rightarrow> 'k typed_id \<Rightarrow> json" where
  "jid E pre i = JStr (display_id E pre i)"

definition jopt :: "('a \<Rightarrow> json) \<Rightarrow> 'a option \<Rightarrow> json" where
  "jopt f x = (case x of None \<Rightarrow> JNull | Some y \<Rightarrow> f y)"

definition json_of_block :: "externs \<Rightarrow> source_block \<Rightarrow> json" where
  "json_of_block E b = jobj [(''block_id'', jid E ''block'' (sb_block_id b)),
     (''content_hash'', jhash E (sb_content_hash b)), (''text'', JStr (sb_text b))]"

definition json_of_metadata :: "externs \<Rightarrow> metadata_value \<Rightarrow> json" where
  "json_of_metadata E m = jobj [(''metadata_id'', JStr (mv_metadata_id m)), (''key'', JStr (mv_key m)),
     (''value_index'', jnat (mv_value_index m)), (''content_hash'', jhash E (mv_content_hash m)),
     (''value'', mv_value m)]"

definition json_of_document :: "externs \<Rightarrow> integration_document \<Rightarrow> json" where
  "json_of_document E d = jobj [(''source_id'', JStr (source_str (doc_source_id d))),
     (''document_id'', jid E ''doc'' (doc_document_id d)),
     (''original_path'', JStr (doc_original_path d)),
     (''document_hash'', jhash E (doc_document_hash d)),
     (''blocks'', JArr (map (json_of_block E) (doc_blocks d))),
     (''metadata'', JArr (map (json_of_metadata E) (doc_metadata d)))]"

definition json_of_cluster :: "externs \<Rightarrow> taxonomy_cluster \<Rightarrow> json" where
  "json_of_cluster E c = jobj [(''cluster_id'', JStr (cl_cluster_id c)), (''title'', JStr (cl_title c)),
     (''canonical_path'', JStr (cl_canonical_path c)),
     (''document_ids'', JArr (map (jid E ''doc'') (cl_document_ids c)))]"

text \<open>\<open>MetadataIdentityInput\<close> and \<open>TaxonomyIdentity\<close>.\<close>

definition metadata_identity :: "externs \<Rightarrow> document_id \<Rightarrow> string \<Rightarrow> nat \<Rightarrow> json \<Rightarrow> json" where
  "metadata_identity E d key i v = jobj [(''document_id'', jid E ''doc'' d), (''key'', JStr key),
     (''value_index'', jnat i), (''value'', v)]"

definition taxonomy_identity ::
  "externs \<Rightarrow> content_hash \<Rightarrow> taxonomy_cluster list \<Rightarrow> content_hash \<Rightarrow> json" where
  "taxonomy_identity E c clusters recording = jobj [(''corpus_hash'', jhash E c),
     (''clusters'', JArr (map (json_of_cluster E) clusters)),
     (''organizer_recording_hash'', jhash E recording)]"

definition corpus_hash_of :: "externs \<Rightarrow> integration_document list \<Rightarrow> content_hash" where
  "corpus_hash_of E docs =
     canonical_hash E (domain ''okc:integration-corpus:v3'') (JArr (map (json_of_document E) docs))"

definition taxonomy_hash_of ::
  "externs \<Rightarrow> content_hash \<Rightarrow> taxonomy_cluster list \<Rightarrow> content_hash \<Rightarrow> content_hash" where
  "taxonomy_hash_of E c clusters recording =
     canonical_hash E (domain ''okc:taxonomy:v3'') (taxonomy_identity E c clusters recording)"

definition block_hash_of :: "externs \<Rightarrow> string \<Rightarrow> content_hash" where
  "block_hash_of E t = from_domain_bytes E (domain ''okc:block-content:v3'') t"

section \<open>Field validators\<close>

definition validate_bounded_data :: "string \<Rightarrow> nat \<Rightarrow> nat \<Rightarrow> unit res" where
  "validate_bounded_data v minimum maximum =
     reject (length v < minimum \<or> maximum < length v \<or> has_control v) ProposalInvalid"

definition validate_optional_rationale :: "string option \<Rightarrow> bool \<Rightarrow> unit res" where
  "validate_optional_rationale rationale required = seq_checks [
     reject (required \<and> (case rationale of None \<Rightarrow> True | Some r \<Rightarrow> r = [])) ProposalInvalid,
     (case rationale of None \<Rightarrow> Inr ()
      | Some r \<Rightarrow> validate_bounded_data r (if required then 1 else 0) 4096)]"

definition validate_markdown_body :: "string \<Rightarrow> unit res" where
  "validate_markdown_body v =
     reject (trim v = [] \<or> 16 * 1024 * 1024 < length v
       \<or> list_ex (\<lambda>c. is_control c \<and> c \<noteq> 0x0A \<and> c \<noteq> 0x09) (chars v)) ProposalInvalid"

definition validate_relative_path :: "externs \<Rightarrow> string \<Rightarrow> unit res" where
  "validate_relative_path E path = validate_portable_relative_path E path default_policy"

definition new_metadata ::
  "externs \<Rightarrow> document_id \<Rightarrow> string \<Rightarrow> nat \<Rightarrow> json \<Rightarrow> metadata_value res" where
  "new_metadata E d key i v =
     and_then (validate_bounded_data key 1 1024)
       (let identity = metadata_identity E d key i v
        in Inr \<lparr>mv_metadata_id = ''metadata_'' @
                  hash_hex E (canonical_hash E (domain ''okc:metadata-id:v3'') identity),
               mv_key = key, mv_value_index = i,
               mv_content_hash = canonical_hash E (domain ''okc:metadata-value:v3'') identity,
               mv_value = v\<rparr>)"

section \<open>Output paths without portable collisions\<close>

definition full_casefold_nfc :: "externs \<Rightarrow> string \<Rightarrow> string" where
  "full_casefold_nfc E v = case_fold E (nfc E v)"

type_synonym portable_output_paths = "(string, string \<times> bool) btree"

fun insert_prefixes ::
  "externs \<Rightarrow> string \<Rightarrow> portable_output_paths \<Rightarrow> string \<Rightarrow> string list \<Rightarrow> portable_output_paths res" where
  "insert_prefixes E path m pre [] = Inr m"
| "insert_prefixes E path m pre (c # cs) =
     (let pre = (if pre = [] then c else pre @ ''/'' @ c);
          is_file = (cs = []);
          key = full_casefold_nfc E pre
      in case btree_get m key of
           Some (spelling, existing_is_file) \<Rightarrow>
             if spelling \<noteq> pre \<or> existing_is_file \<or> is_file then Inl (UnsafePath path)
             else insert_prefixes E path m pre cs
         | None \<Rightarrow> insert_prefixes E path (btree_insert key (pre, is_file) m) pre cs)"

definition insert_output_path ::
  "externs \<Rightarrow> portable_output_paths \<Rightarrow> string \<Rightarrow> portable_output_paths res" where
  "insert_output_path E m path =
     and_then (validate_relative_path E path) (insert_prefixes E path m [] (split_path path))"

section \<open>Corpus validation\<close>

definition legacy_path :: "integration_document \<Rightarrow> string" where
  "legacy_path d = ''legacy/'' @ source_str (doc_source_id d) @ ''/'' @ doc_original_path d"

definition block_step ::
  "externs \<Rightarrow> block_id option \<times> block_id set \<Rightarrow> source_block \<Rightarrow> (block_id option \<times> block_id set) res" where
  "block_step E st block = (case st of (previous_block, block_ids) \<Rightarrow>
     if not_after previous_block (sb_block_id block) \<or> sb_block_id block \<in> block_ids
     then Inl ProposalInvalid
     else if sb_content_hash block \<noteq> block_hash_of E (sb_text block) then Inl PlanStale
     else Inr (Some (sb_block_id block), insert (sb_block_id block) block_ids))"

type_synonym metadata_state = "string option \<times> string set \<times> (string \<times> nat) set"

definition metadata_step ::
  "externs \<Rightarrow> document_id \<Rightarrow> metadata_state \<Rightarrow> metadata_value \<Rightarrow> metadata_state res" where
  "metadata_step E d st m = (case st of (previous_metadata, metadata_ids, metadata_slots) \<Rightarrow>
     and_then (seq_checks [
         validate_bounded_data (mv_metadata_id m) 1 128,
         validate_bounded_data (mv_key m) 1 1024,
         reject (not_after previous_metadata (mv_metadata_id m) \<or> mv_metadata_id m \<in> metadata_ids
           \<or> (mv_key m, mv_value_index m) \<in> metadata_slots) ProposalInvalid])
       (bind_res (new_metadata E d (mv_key m) (mv_value_index m) (mv_value m))
         (\<lambda>expected. if expected \<noteq> m then Inl PlanStale
            else Inr (Some (mv_metadata_id m), insert (mv_metadata_id m) metadata_ids,
                   insert (mv_key m, mv_value_index m) metadata_slots))))"

type_synonym corpus_state =
  "document_id option \<times> document_id set \<times> (source_id \<times> string) set \<times> portable_output_paths"

definition document_step ::
  "externs \<Rightarrow> corpus_state \<Rightarrow> integration_document \<Rightarrow> corpus_state res" where
  "document_step E st d = (case st of (previous, document_ids, source_paths, output_paths) \<Rightarrow>
     and_then (seq_checks [
         reject (not_after previous (doc_document_id d)) PlanStale,
         reject (doc_document_id d \<in> document_ids) ProposalInvalid,
         validate_relative_path E (doc_original_path d),
         done_with (new_source_id (source_str (doc_source_id d)))])
       (bind_res (insert_output_path E output_paths (legacy_path d))
         (\<lambda>output_paths.
            and_then (seq_checks [
                reject ((doc_source_id d, doc_original_path d) \<in> source_paths) ProposalInvalid,
                done_with (try_fold (block_step E) (None, {}) (doc_blocks d)),
                done_with (try_fold (metadata_step E (doc_document_id d)) (None, {}, {}) (doc_metadata d))])
              (Inr (Some (doc_document_id d), insert (doc_document_id d) document_ids,
                 insert (doc_source_id d, doc_original_path d) source_paths, output_paths)))))"

definition validate_corpus :: "externs \<Rightarrow> integration_corpus \<Rightarrow> unit res" where
  "validate_corpus E c = seq_checks [
     reject (co_schema_version c \<noteq> integration_schema_version) PlanStale,
     reject (co_documents c = []) ProposalInvalid,
     reject (corpus_hash_of E (co_documents c) \<noteq> co_corpus_hash c) PlanStale,
     done_with (try_fold (document_step E) (None, {}, {}, []) (co_documents c))]"

text \<open>\<open>IntegrationCorpus::seal\<close>: the vectors are put in canonical order before they are hashed.\<close>

definition canonical_document :: "integration_document \<Rightarrow> integration_document" where
  "canonical_document d = d\<lparr>doc_blocks := sort_key sb_block_id (doc_blocks d),
     doc_metadata := sort_key mv_metadata_id (doc_metadata d)\<rparr>"

definition seal_corpus ::
  "externs \<Rightarrow> content_hash \<Rightarrow> integration_document list \<Rightarrow> integration_corpus res" where
  "seal_corpus E policy_hash documents =
     (let documents = map canonical_document (sort_key doc_document_id documents);
          corpus = \<lparr>co_schema_version = integration_schema_version,
             co_corpus_hash = corpus_hash_of E documents, co_policy_hash = policy_hash,
             co_documents = documents\<rparr>
      in and_then (validate_corpus E corpus) (Inr corpus))"

section \<open>Taxonomy validation\<close>

definition knowledge_path :: "taxonomy_cluster \<Rightarrow> string" where
  "knowledge_path c = ''knowledge/'' @ cl_canonical_path c"

definition assign_step ::
  "document_id set \<Rightarrow> document_id option \<times> document_id set \<Rightarrow> document_id \<Rightarrow>
     (document_id option \<times> document_id set) res" where
  "assign_step known st d = (case st of (prior, assigned) \<Rightarrow>
     if not_after prior d \<or> d \<notin> known \<or> d \<in> assigned then Inl ProposalInvalid
     else Inr (Some d, insert d assigned))"

type_synonym taxonomy_state =
  "string option \<times> string set \<times> portable_output_paths \<times> document_id set"

definition cluster_step ::
  "externs \<Rightarrow> document_id set \<Rightarrow> taxonomy_state \<Rightarrow> taxonomy_cluster \<Rightarrow> taxonomy_state res" where
  "cluster_step E known st c = (case st of (previous, cluster_ids, output_paths, assigned) \<Rightarrow>
     and_then (seq_checks [
         validate_bounded_data (cl_cluster_id c) 1 128,
         validate_bounded_data (cl_title c) 1 1024,
         reject (not_after previous (cl_cluster_id c) \<or> cl_cluster_id c \<in> cluster_ids) ProposalInvalid,
         validate_relative_path E (cl_canonical_path c),
         reject (\<not> suffix ''.md'' (to_ascii_lowercase (cl_canonical_path c))) ProposalInvalid])
       (bind_res (insert_output_path E output_paths (knowledge_path c))
         (\<lambda>output_paths. and_then (reject (cl_document_ids c = []) ProposalInvalid)
            (bind_res (try_fold (assign_step known) (None, assigned) (cl_document_ids c))
              (\<lambda>(prior, assigned). Inr (Some (cl_cluster_id c), insert (cl_cluster_id c) cluster_ids,
                 output_paths, assigned))))))"

definition validate_taxonomy :: "externs \<Rightarrow> integration_corpus \<Rightarrow> taxonomy_proposal \<Rightarrow> unit res" where
  "validate_taxonomy E corpus t =
     (let known_documents = set (map doc_document_id (co_documents corpus)) in
      and_then (seq_checks [
          reject (ta_schema_version t \<noteq> integration_schema_version
            \<or> ta_corpus_hash t \<noteq> co_corpus_hash corpus) PlanStale,
          reject (ta_taxonomy_hash t \<noteq> taxonomy_hash_of E (ta_corpus_hash t) (ta_clusters t)
            (ta_organizer_recording_hash t)) PlanStale])
        (bind_res (try_fold (cluster_step E known_documents) (None, {}, [], {}) (ta_clusters t))
          (\<lambda>(previous, cluster_ids, output_paths, assigned).
             reject (assigned \<noteq> known_documents) ProposalInvalid)))"

definition canonical_cluster :: "taxonomy_cluster \<Rightarrow> taxonomy_cluster" where
  "canonical_cluster c = c\<lparr>cl_document_ids := sort (cl_document_ids c)\<rparr>"

definition seal_taxonomy ::
  "externs \<Rightarrow> integration_corpus \<Rightarrow> taxonomy_cluster list \<Rightarrow> content_hash \<Rightarrow> taxonomy_proposal res" where
  "seal_taxonomy E corpus clusters recording =
     (let clusters = map canonical_cluster (sort_key cl_cluster_id clusters);
          proposal = \<lparr>ta_schema_version = integration_schema_version,
             ta_corpus_hash = co_corpus_hash corpus,
             ta_taxonomy_hash = taxonomy_hash_of E (co_corpus_hash corpus) clusters recording,
             ta_clusters = clusters, ta_organizer_recording_hash = recording\<rparr>
      in and_then (validate_taxonomy E corpus proposal) (Inr proposal))"

section \<open>Facts: portable output paths\<close>

lemma validate_relative_iff: "validate_relative_path E path = Inr () \<longleftrightarrow> portable_path E default_policy path"
  by (simp add: validate_relative_path_def validate_portable_iff)

text \<open>The first \<open>n\<close> pieces of a path: one of its directories, or the file itself.\<close>

definition path_prefix :: "string \<Rightarrow> nat \<Rightarrow> string" where
  "path_prefix path n = join_path (take n (split_path path))"

definition path_depth :: "string \<Rightarrow> nat" where
  "path_depth path = length (split_path path)"

lemma path_prefix_full [simp]: "path_prefix path (path_depth path) = path"
  by (simp add: path_prefix_def path_depth_def)

lemma path_depth_pos [simp]: "0 < path_depth path"
  by (simp add: path_depth_def)

definition extended :: "string \<Rightarrow> string list \<Rightarrow> string" where
  "extended pre cs = join_path (if pre = [] then cs else pre # cs)"

lemma extended_step:
  "c \<noteq> [] \<Longrightarrow> extended (if pre = [] then c else pre @ ''/'' @ c) cs = extended pre (c # cs)"
  by (cases cs) (simp_all add: extended_def join_path_def)

lemma insert_prefixes_facts:
  assumes "insert_prefixes E path m pre cs = Inr m'" and "btree_ok m" and "\<forall>c \<in> set cs. c \<noteq> []"
  shows "btree_ok m'
    \<and> (\<forall>k v. btree_get m k = Some v \<longrightarrow> btree_get m' k = Some v)
    \<and> (\<forall>n. 0 < n \<and> n \<le> length cs \<longrightarrow> btree_get m' (full_casefold_nfc E (extended pre (take n cs))) =
          Some (extended pre (take n cs), n = length cs))
    \<and> (cs \<noteq> [] \<longrightarrow> btree_get m (full_casefold_nfc E (extended pre cs)) = None)"
  using assms
proof (induction cs arbitrary: m pre)
  case Nil
  then show ?case by simp
next
  case (Cons c cs)
  define pre' where "pre' = (if pre = [] then c else pre @ ''/'' @ c)"
  let ?key = "full_casefold_nfc E pre'"
  from Cons.prems(3) have c: "c \<noteq> []" and cs: "\<forall>c \<in> set cs. c \<noteq> []" by auto
  have pre': "pre' = extended pre [c]" and step: "extended pre' ds = extended pre (c # ds)" for ds
    using c extended_step [of c pre ds] by (simp_all add: pre'_def extended_def join_path_def)
  have ext: "extended pre (take n (c # cs)) = extended pre' (take (n - 1) cs)" if "0 < n" for n
    using that by (cases n) (simp_all add: step)
  obtain m1 where rest: "insert_prefixes E path m1 pre' cs = Inr m'" and ok1: "btree_ok m1"
    and old: "\<forall>k v. btree_get m k = Some v \<longrightarrow> btree_get m1 k = Some v"
    and new: "btree_get m1 ?key = Some (pre', cs = [])"
    and fresh: "cs = [] \<longrightarrow> btree_get m ?key = None"
  proof (cases "btree_get m ?key")
    case None
    with Cons.prems show ?thesis
      by (intro that [of "btree_insert ?key (pre', cs = []) m"])
        (auto simp: pre'_def Let_def btree_insert_ok)
  next
    case (Some e)
    obtain spelling is_file where e: "e = (spelling, is_file)" by (cases e)
    with Some Cons.prems(1) have "spelling = pre'" "\<not> is_file" "cs \<noteq> []"
      "insert_prefixes E path m pre' cs = Inr m'"
      by (auto simp: pre'_def [symmetric] Let_def split: if_splits)
    with Some e Cons.prems show ?thesis by (intro that [of m]) auto
  qed
  from Cons.IH [OF rest ok1 cs] have ok': "btree_ok m'"
    and keep: "\<forall>k v. btree_get m1 k = Some v \<longrightarrow> btree_get m' k = Some v"
    and pieces: "\<forall>n. 0 < n \<and> n \<le> length cs \<longrightarrow>
        btree_get m' (full_casefold_nfc E (extended pre' (take n cs))) =
          Some (extended pre' (take n cs), n = length cs)"
    and none: "cs \<noteq> [] \<longrightarrow> btree_get m1 (full_casefold_nfc E (extended pre' cs)) = None"
    by blast+
  have "btree_get m' (full_casefold_nfc E (extended pre (take n (c # cs)))) =
      Some (extended pre (take n (c # cs)), n = length (c # cs))"
    if n: "0 < n" "n \<le> length (c # cs)" for n
  proof (cases "n = 1")
    case True
    with keep new show ?thesis by (auto simp: pre' [symmetric])
  next
    case False
    with n pieces [rule_format, of "n - 1"] show ?thesis by (auto simp: ext)
  qed
  moreover have "btree_get m (full_casefold_nfc E (extended pre (c # cs))) = None"
  proof (cases "cs = []")
    case True
    with fresh show ?thesis by (simp add: pre')
  next
    case False
    with none old show ?thesis by (metis not_Some_eq step)
  qed
  ultimately show ?case using ok' keep old by auto
qed

text \<open>
  What the map knows about the paths inserted so far: each of their prefixes, under its folded
  spelling, with the spelling used and whether it is a file.
\<close>

definition output_inv :: "externs \<Rightarrow> string list \<Rightarrow> portable_output_paths \<Rightarrow> bool" where
  "output_inv E ps m \<longleftrightarrow> btree_ok m \<and> distinct ps \<and>
     (\<forall>p \<in> set ps. portable_path E default_policy p \<and> (\<forall>n. 0 < n \<and> n \<le> path_depth p \<longrightarrow>
        btree_get m (full_casefold_nfc E (path_prefix p n)) = Some (path_prefix p n, n = path_depth p)))"

text \<open>
  Paths that a file system which folds case and normalises names keeps apart: whenever a prefix
  of one folds to a prefix of another, the two are spelled alike and both are files or both are
  directories; and no path is listed twice.
\<close>

definition no_portable_collision :: "externs \<Rightarrow> string list \<Rightarrow> bool" where
  "no_portable_collision E ps \<longleftrightarrow> distinct ps \<and>
     (\<forall>p \<in> set ps. \<forall>q \<in> set ps. \<forall>i \<in> {1..path_depth p}. \<forall>j \<in> {1..path_depth q}.
        full_casefold_nfc E (path_prefix p i) = full_casefold_nfc E (path_prefix q j) \<longrightarrow>
        path_prefix p i = path_prefix q j \<and> (i = path_depth p \<longleftrightarrow> j = path_depth q))"

lemma output_inv_empty: "output_inv E [] []"
  by (simp add: output_inv_def btree_ok_def)

lemma output_inv_insert:
  assumes inv: "output_inv E ps m" and ins: "insert_output_path E m path = Inr m'"
  shows "output_inv E (ps @ [path]) m'"
proof -
  from ins have path: "portable_path E default_policy path"
    and pre: "insert_prefixes E path m [] (split_path path) = Inr m'"
    by (auto simp: insert_output_path_def validate_relative_iff)
  have pieces: "\<forall>c \<in> set (split_path path). c \<noteq> []"
    using portable_path_plain [OF path] by (simp add: plain_path_def)
  have ok: "btree_ok m" using inv by (simp add: output_inv_def)
  from insert_prefixes_facts [OF pre ok pieces]
  have new: "\<forall>n. 0 < n \<and> n \<le> path_depth path \<longrightarrow>
        btree_get m' (full_casefold_nfc E (path_prefix path n)) =
          Some (path_prefix path n, n = path_depth path)"
    and keep: "\<forall>k v. btree_get m k = Some v \<longrightarrow> btree_get m' k = Some v" and "btree_ok m'"
    and fresh: "btree_get m (full_casefold_nfc E path) = None"
    by (simp_all add: path_prefix_def path_depth_def extended_def)
  have "path \<notin> set ps"
  proof
    assume "path \<in> set ps"
    with inv have "btree_get m (full_casefold_nfc E (path_prefix path (path_depth path))) \<noteq> None"
      unfolding output_inv_def using path_depth_pos by (metis order.refl option.distinct(1))
    with fresh show False by simp
  qed
  with inv path new keep \<open>btree_ok m'\<close> show ?thesis
    by (auto simp: output_inv_def)
qed

lemma output_inv_lookup:
  "output_inv E ps m \<Longrightarrow> p \<in> set ps \<Longrightarrow> i \<in> {1..path_depth p} \<Longrightarrow>
     btree_get m (full_casefold_nfc E (path_prefix p i)) = Some (path_prefix p i, i = path_depth p)"
  by (simp add: output_inv_def)

lemma output_inv_no_collision:
  assumes inv: "output_inv E ps m"
  shows "no_portable_collision E ps"
proof -
  have "path_prefix p i = path_prefix q j \<and> (i = path_depth p \<longleftrightarrow> j = path_depth q)"
    if "p \<in> set ps" "q \<in> set ps" "i \<in> {1..path_depth p}" "j \<in> {1..path_depth q}"
      and eq: "full_casefold_nfc E (path_prefix p i) = full_casefold_nfc E (path_prefix q j)" for p q i j
  proof -
    from output_inv_lookup [OF inv that(1,3)] output_inv_lookup [OF inv that(2,4)]
    have "Some (path_prefix p i, i = path_depth p) = Some (path_prefix q j, j = path_depth q)"
      by (simp only: eq)
    then show ?thesis by blast
  qed
  moreover have "distinct ps" using inv by (simp add: output_inv_def)
  ultimately show ?thesis unfolding no_portable_collision_def by blast
qed

lemma insert_prefixes_new:
  assumes "insert_prefixes E path m pre cs = Inr m'" and "btree_ok m" and "\<forall>c \<in> set cs. c \<noteq> []"
    and "btree_get m' k = Some v"
  shows "btree_get m k = Some v \<or> (\<exists>n \<in> {1..length cs}.
      k = full_casefold_nfc E (extended pre (take n cs)) \<and> v = (extended pre (take n cs), n = length cs))"
  using assms
proof (induction cs arbitrary: m pre)
  case Nil
  then show ?case by simp
next
  case (Cons c cs)
  define pre' where "pre' = (if pre = [] then c else pre @ ''/'' @ c)"
  let ?key = "full_casefold_nfc E pre'"
  from Cons.prems(3) have c: "c \<noteq> []" and cs: "\<forall>c \<in> set cs. c \<noteq> []" by auto
  have pre': "pre' = extended pre [c]" and step: "extended pre' ds = extended pre (c # ds)" for ds
    using c extended_step [of c pre ds] by (simp_all add: pre'_def extended_def join_path_def)
  obtain m1 where rest: "insert_prefixes E path m1 pre' cs = Inr m'" and ok1: "btree_ok m1"
    and new: "btree_get m1 k = Some v \<Longrightarrow> btree_get m k = Some v \<or> k = ?key \<and> v = (pre', cs = [])"
  proof (cases "btree_get m ?key")
    case None
    with Cons.prems show ?thesis
      by (intro that [of "btree_insert ?key (pre', cs = []) m"])
        (auto simp: pre'_def Let_def btree_insert_ok split: if_splits)
  next
    case (Some e)
    with Cons.prems(1) have "insert_prefixes E path m pre' cs = Inr m'"
      by (auto simp: pre'_def [symmetric] Let_def split: if_splits prod.splits)
    with Cons.prems show ?thesis by (intro that [of m]) auto
  qed
  from Cons.IH [OF rest ok1 cs Cons.prems(4)] consider "btree_get m1 k = Some v"
    | n where "n \<in> {1..length cs}" "k = full_casefold_nfc E (extended pre' (take n cs))"
      "v = (extended pre' (take n cs), n = length cs)" by blast
  then show ?case
  proof cases
    case 1
    with new show ?thesis by (force simp: pre' intro: bexI [of _ "1"])
  next
    case 2
    then show ?thesis by (intro disjI2 bexI [of _ "Suc n"]) (auto simp: step)
  qed
qed

text \<open>Inserting succeeds when every prefix met before was met as a directory in this spelling.\<close>

lemma insert_prefixes_succeeds:
  assumes "\<forall>n \<in> {1..length cs}. \<forall>v. btree_get m (full_casefold_nfc E (extended pre (take n cs))) = Some v \<longrightarrow>
      v = (extended pre (take n cs), False) \<and> n < length cs"
    and "\<forall>i \<in> {1..length cs}. \<forall>j \<in> {1..length cs}.
      full_casefold_nfc E (extended pre (take i cs)) = full_casefold_nfc E (extended pre (take j cs)) \<longrightarrow> i = j"
    and "btree_ok m" and "\<forall>c \<in> set cs. c \<noteq> []"
  shows "\<exists>m'. insert_prefixes E path m pre cs = Inr m'"
  using assms
proof (induction cs arbitrary: m pre)
  case Nil
  then show ?case by simp
next
  case (Cons c cs)
  define pre' where "pre' = (if pre = [] then c else pre @ ''/'' @ c)"
  let ?key = "full_casefold_nfc E pre'"
  from Cons.prems(4) have c: "c \<noteq> []" and cs: "\<forall>c \<in> set cs. c \<noteq> []" by auto
  have pre': "pre' = extended pre [c]" and step: "extended pre' ds = extended pre (c # ds)" for ds
    using c extended_step [of c pre ds] by (simp_all add: pre'_def extended_def join_path_def)
  have at: "extended pre (take (Suc n) (c # cs)) = extended pre' (take n cs)" for n
    by (simp add: step)
  have P1: "v = (extended pre' (take n cs), False) \<and> n < length cs"
    if "n \<le> length cs" "btree_get m (full_casefold_nfc E (extended pre' (take n cs))) = Some v" for n v
    using Cons.prems(1) [THEN bspec, of "Suc n", THEN spec, THEN mp] that by (simp add: at del: take_Suc_Cons)
  have P2: "i = j" if "i \<le> length cs" "j \<le> length cs"
      "full_casefold_nfc E (extended pre' (take i cs)) = full_casefold_nfc E (extended pre' (take j cs))" for i j
    using Cons.prems(2) [THEN bspec, of "Suc i", THEN bspec, of "Suc j", THEN mp] that
    by (simp add: at del: take_Suc_Cons)
  have zero: "extended pre' (take 0 cs) = pre'" using step [of "[]"] pre' by simp
  show ?case
  proof (cases "btree_get m ?key")
    case None
    have "\<exists>m'. insert_prefixes E path (btree_insert ?key (pre', cs = []) m) pre' cs = Inr m'"
    proof (rule Cons.IH)
      show "\<forall>n \<in> {1..length cs}. \<forall>v.
          btree_get (btree_insert ?key (pre', cs = []) m) (full_casefold_nfc E (extended pre' (take n cs))) = Some v \<longrightarrow>
          v = (extended pre' (take n cs), False) \<and> n < length cs"
      proof (intro ballI allI impI)
        fix n v assume n: "n \<in> {1..length cs}"
          and get: "btree_get (btree_insert ?key (pre', cs = []) m) (full_casefold_nfc E (extended pre' (take n cs))) = Some v"
        have "full_casefold_nfc E (extended pre' (take n cs)) \<noteq> ?key" using P2 [of n 0] n zero by auto
        with get Cons.prems(3) have "btree_get m (full_casefold_nfc E (extended pre' (take n cs))) = Some v" by simp
        with P1 n show "v = (extended pre' (take n cs), False) \<and> n < length cs" by simp
      qed
    qed (use P2 cs Cons.prems(3) in \<open>auto simp: btree_insert_ok\<close>)
    with None show ?thesis by (simp add: pre'_def Let_def)
  next
    case (Some v)
    with P1 [of 0 v] zero have v: "v = (pre', False)" "cs \<noteq> []" by auto
    have "\<exists>m'. insert_prefixes E path m pre' cs = Inr m'"
      by (rule Cons.IH) (use P1 P2 cs Cons.prems(3) in auto)
    with Some v show ?thesis by (simp add: pre'_def Let_def)
  qed
qed

lemma path_prefix_inj:
  assumes "path_prefix p i = path_prefix p j" "i \<in> {1..path_depth p}" "j \<in> {1..path_depth p}"
  shows "i = j"
proof -
  have "split_path (path_prefix p n) = take n (split_path p)" if "0 < n" for n
    using that unfolding path_prefix_def
    by (intro split_path_join) (auto dest: in_set_takeD split_path_pieces)
  from this [of i] this [of j] assms have "take i (split_path p) = take j (split_path p)" by simp
  then have "length (take i (split_path p)) = length (take j (split_path p))" by simp
  with assms(2,3) show ?thesis by (simp add: path_depth_def)
qed

definition output_entries :: "externs \<Rightarrow> string list \<Rightarrow> portable_output_paths \<Rightarrow> bool" where
  "output_entries E ps m \<longleftrightarrow> (\<forall>k v. btree_get m k = Some v \<longrightarrow>
     (\<exists>p \<in> set ps. \<exists>n \<in> {1..path_depth p}. k = full_casefold_nfc E (path_prefix p n) \<and>
        v = (path_prefix p n, n = path_depth p)))"

lemma insert_output_unfold:
  "insert_output_path E m path = Inr m' \<longleftrightarrow> portable_path E default_policy path \<and>
     insert_prefixes E path m [] (split_path path) = Inr m'"
  by (simp add: insert_output_path_def validate_relative_iff)

lemma extended_Nil: "extended [] (take n (split_path path)) = path_prefix path n"
  by (simp add: extended_def path_prefix_def)

lemma portable_pieces: "portable_path E p path \<Longrightarrow> \<forall>c \<in> set (split_path path). c \<noteq> []"
  using portable_path_plain by (fastforce simp: plain_path_def)

lemma output_entries_insert:
  assumes "output_entries E ps m" "btree_ok m" and ins: "insert_output_path E m path = Inr m'"
  shows "output_entries E (ps @ [path]) m'"
  unfolding output_entries_def
proof (intro allI impI)
  fix k v assume get: "btree_get m' k = Some v"
  from ins have path: "portable_path E default_policy path"
    and pre: "insert_prefixes E path m [] (split_path path) = Inr m'"
    by (simp_all add: insert_output_unfold)
  from insert_prefixes_new [OF pre assms(2) portable_pieces [OF path] get]
  consider "btree_get m k = Some v"
    | n where "n \<in> {1..path_depth path}" "k = full_casefold_nfc E (path_prefix path n)"
        "v = (path_prefix path n, n = path_depth path)"
    by (auto simp only: extended_Nil path_depth_def)
  then show "\<exists>p \<in> set (ps @ [path]). \<exists>n \<in> {1..path_depth p}.
      k = full_casefold_nfc E (path_prefix p n) \<and> v = (path_prefix p n, n = path_depth p)"
  proof cases
    case 1
    with assms(1) obtain p n where "p \<in> set ps" "n \<in> {1..path_depth p}"
      "k = full_casefold_nfc E (path_prefix p n)" "v = (path_prefix p n, n = path_depth p)"
      unfolding output_entries_def by blast
    then show ?thesis by (intro bexI [of _ p] bexI [of _ n]) simp_all
  next
    case 2
    then show ?thesis by (intro bexI [of _ path] bexI [of _ n]) simp_all
  qed
qed

lemma insert_output_succeeds:
  assumes entries: "output_entries E ps m" and ok: "btree_ok m"
    and path: "portable_path E default_policy path"
    and free: "no_portable_collision E (ps @ [path])"
  shows "\<exists>m'. insert_output_path E m path = Inr m'"
proof -
  note free' = free [unfolded no_portable_collision_def, THEN conjunct2, rule_format]
  have "\<exists>m'. insert_prefixes E path m [] (split_path path) = Inr m'"
  proof (rule insert_prefixes_succeeds)
    show "\<forall>n \<in> {1..length (split_path path)}. \<forall>v.
        btree_get m (full_casefold_nfc E (extended [] (take n (split_path path)))) = Some v \<longrightarrow>
        v = (extended [] (take n (split_path path)), False) \<and> n < length (split_path path)"
    proof (intro ballI allI impI)
      fix n v assume n: "n \<in> {1..length (split_path path)}"
        and "btree_get m (full_casefold_nfc E (extended [] (take n (split_path path)))) = Some v"
      then have "btree_get m (full_casefold_nfc E (path_prefix path n)) = Some v" by (simp add: extended_Nil)
      with entries obtain p k where p: "p \<in> set ps" and k: "k \<in> {1..path_depth p}"
        and eq: "full_casefold_nfc E (path_prefix path n) = full_casefold_nfc E (path_prefix p k)"
        and v: "v = (path_prefix p k, k = path_depth p)"
        unfolding output_entries_def by blast
      from n have n': "n \<in> {1..path_depth path}" by (simp add: path_depth_def)
      have same: "path_prefix path n = path_prefix p k \<and> (n = path_depth path \<longleftrightarrow> k = path_depth p)"
        using free' [of path p n k] p k n' eq by simp
      have "n \<noteq> path_depth path"
      proof
        assume "n = path_depth path"
        with same have "path = p" by (metis path_prefix_full)
        with p free show False by (simp add: no_portable_collision_def)
      qed
      with same v n show "v = (extended [] (take n (split_path path)), False) \<and> n < length (split_path path)"
        by (simp add: extended_Nil path_depth_def)
    qed
    show "\<forall>i \<in> {1..length (split_path path)}. \<forall>j \<in> {1..length (split_path path)}.
        full_casefold_nfc E (extended [] (take i (split_path path))) =
        full_casefold_nfc E (extended [] (take j (split_path path))) \<longrightarrow> i = j"
    proof (intro ballI impI)
      fix i j assume "i \<in> {1..length (split_path path)}" "j \<in> {1..length (split_path path)}"
      then have ij: "i \<in> {1..path_depth path}" "j \<in> {1..path_depth path}" by (simp_all add: path_depth_def)
      assume "full_casefold_nfc E (extended [] (take i (split_path path))) =
        full_casefold_nfc E (extended [] (take j (split_path path)))"
      then have "path_prefix path i = path_prefix path j"
        using free' [of path path i j, THEN conjunct1] ij by (simp add: extended_Nil)
      from path_prefix_inj [OF this ij] show "i = j" .
    qed
    show "\<forall>c \<in> set (split_path path). c \<noteq> []" by (rule portable_pieces [OF path])
  qed (rule ok)
  with path show ?thesis by (simp add: insert_output_unfold)
qed

lemma no_portable_collision_take: "no_portable_collision E (ps @ qs) \<Longrightarrow> no_portable_collision E ps"
  by (auto simp: no_portable_collision_def)

text \<open>The incremental check is exact.\<close>

lemma insert_all_iff:
  "(\<exists>m. try_fold (insert_output_path E) [] ps = Inr m) \<longleftrightarrow>
     (\<forall>p \<in> set ps. portable_path E default_policy p) \<and> no_portable_collision E ps"
proof
  assume "\<exists>m. try_fold (insert_output_path E) [] ps = Inr m"
  then obtain m where "try_fold (insert_output_path E) [] ps = Inr m" ..
  then have "output_inv E ps m"
    by (rule try_fold_invariant) (auto intro: output_inv_empty output_inv_insert)
  then show "(\<forall>p \<in> set ps. portable_path E default_policy p) \<and> no_portable_collision E ps"
    using output_inv_no_collision by (auto simp: output_inv_def)
next
  assume ok: "(\<forall>p \<in> set ps. portable_path E default_policy p) \<and> no_portable_collision E ps"
  have "\<exists>m. try_fold (insert_output_path E) [] ps = Inr m \<and> (output_entries E ps m \<and> btree_ok m)"
  proof (rule try_fold_succeeds)
    fix ys y zs m assume split: "ps = ys @ y # zs" and inv: "output_entries E ys m \<and> btree_ok m"
    have "no_portable_collision E (ys @ [y])"
      using ok no_portable_collision_take [of E "ys @ [y]" zs] by (simp add: split)
    with inv ok split obtain m' where m': "insert_output_path E m y = Inr m'"
      using insert_output_succeeds by fastforce
    moreover from m' inv have "output_entries E (ys @ [y]) m'" by (blast intro: output_entries_insert)
    moreover from m' have "insert_prefixes E y m [] (split_path y) = Inr m'" "portable_path E default_policy y"
      by (simp_all add: insert_output_unfold)
    then have "btree_ok m'" using inv portable_pieces insert_prefixes_facts by blast
    ultimately show "\<exists>m'. insert_output_path E m y = Inr m' \<and> (output_entries E (ys @ [y]) m' \<and> btree_ok m')"
      by blast
  qed (simp add: output_entries_def btree_get_def btree_ok_def)
  then show "\<exists>m. try_fold (insert_output_path E) [] ps = Inr m" by blast
qed

section \<open>Facts: what \<open>validate_corpus\<close> accepts\<close>

lemma sorted_snoc_fresh:
  fixes x :: "'a::linorder"
  shows "sorted_wrt (<) xs \<Longrightarrow> \<not> not_after (last_opt xs) x \<Longrightarrow> x \<notin> set xs"
  using strict_sorted_distinct [of "xs @ [x]"] by (simp add: sorted_wrt_snoc)

definition block_ok :: "externs \<Rightarrow> source_block \<Rightarrow> bool" where
  "block_ok E b \<longleftrightarrow> sb_content_hash b = block_hash_of E (sb_text b)"

lemma block_loop:
  "try_fold (block_step E) (None, {}) bs = Inr t \<longleftrightarrow>
     sorted_wrt (<) (map sb_block_id bs) \<and> (\<forall>b \<in> set bs. block_ok E b) \<and>
     t = (last_opt (map sb_block_id bs), sb_block_id ` set bs)"
proof (induction bs arbitrary: t rule: rev_induct)
  case (snoc b bs)
  have fresh: "sorted_wrt (<) (map sb_block_id bs) \<Longrightarrow> \<not> not_after (last_opt (map sb_block_id bs)) (sb_block_id b)
      \<Longrightarrow> sb_block_id b \<notin> sb_block_id ` set bs"
    using sorted_snoc_fresh [of "map sb_block_id bs"] by simp
  have step: "block_step E (p, ids) b = Inr t \<longleftrightarrow> \<not> not_after p (sb_block_id b) \<and> sb_block_id b \<notin> ids \<and>
      block_ok E b \<and> t = (Some (sb_block_id b), insert (sb_block_id b) ids)" for p ids t
    by (auto simp: block_step_def block_ok_def)
  show ?case
    using fresh by (auto simp: try_fold_append snoc.IH step sorted_wrt_snoc)
qed auto

definition metadata_ok :: "externs \<Rightarrow> document_id \<Rightarrow> metadata_value \<Rightarrow> bool" where
  "metadata_ok E d m \<longleftrightarrow> validate_bounded_data (mv_metadata_id m) 1 128 = Inr ()
     \<and> new_metadata E d (mv_key m) (mv_value_index m) (mv_value m) = Inr m"

definition slot :: "metadata_value \<Rightarrow> string \<times> nat" where
  "slot m = (mv_key m, mv_value_index m)"

lemma metadata_loop:
  "try_fold (metadata_step E d) (None, {}, {}) ms = Inr t \<longleftrightarrow>
     sorted_wrt (<) (map mv_metadata_id ms) \<and> distinct (map slot ms) \<and> (\<forall>m \<in> set ms. metadata_ok E d m) \<and>
     t = (last_opt (map mv_metadata_id ms), mv_metadata_id ` set ms, slot ` set ms)"
proof (induction ms arbitrary: t rule: rev_induct)
  case (snoc m ms)
  have fresh: "sorted_wrt (<) (map mv_metadata_id ms) \<Longrightarrow>
      \<not> not_after (last_opt (map mv_metadata_id ms)) (mv_metadata_id m) \<Longrightarrow> mv_metadata_id m \<notin> mv_metadata_id ` set ms"
    using sorted_snoc_fresh [of "map mv_metadata_id ms"] by simp
  have key: "new_metadata E d (mv_key m) (mv_value_index m) (mv_value m) = Inr m \<Longrightarrow>
      validate_bounded_data (mv_key m) 1 1024 = Inr ()"
    by (simp add: new_metadata_def)
  have step: "metadata_step E d (p, ids, slots) m = Inr t \<longleftrightarrow> \<not> not_after p (mv_metadata_id m) \<and>
      mv_metadata_id m \<notin> ids \<and> slot m \<notin> slots \<and> metadata_ok E d m \<and>
      t = (Some (mv_metadata_id m), insert (mv_metadata_id m) ids, insert (slot m) slots)" for p ids slots t
    using key by (auto simp: metadata_step_def metadata_ok_def slot_def)
  show ?case
    using fresh by (auto simp: try_fold_append snoc.IH step sorted_wrt_snoc)
qed auto

text \<open>One document by itself.\<close>

definition document_ok :: "externs \<Rightarrow> integration_document \<Rightarrow> bool" where
  "document_ok E d \<longleftrightarrow> portable_path E default_policy (doc_original_path d)
     \<and> new_source_id (source_str (doc_source_id d)) = Inr (doc_source_id d)
     \<and> sorted_wrt (<) (map sb_block_id (doc_blocks d)) \<and> (\<forall>b \<in> set (doc_blocks d). block_ok E b)
     \<and> sorted_wrt (<) (map mv_metadata_id (doc_metadata d)) \<and> distinct (map slot (doc_metadata d))
     \<and> (\<forall>m \<in> set (doc_metadata d). metadata_ok E (doc_document_id d) m)"

definition location :: "integration_document \<Rightarrow> source_id \<times> string" where
  "location d = (doc_source_id d, doc_original_path d)"

lemma new_source_id_same: "new_source_id (source_str i) = Inr j \<Longrightarrow> j = i"
  by (cases i) (simp add: new_source_id_Inr)

lemma document_loop:
  "try_fold (document_step E) (None, {}, {}, []) ds = Inr t \<longleftrightarrow>
     sorted_wrt (<) (map doc_document_id ds) \<and> distinct (map location ds) \<and> (\<forall>d \<in> set ds. document_ok E d) \<and>
     (\<exists>m. try_fold (insert_output_path E) [] (map legacy_path ds) = Inr m \<and>
       t = (last_opt (map doc_document_id ds), doc_document_id ` set ds, location ` set ds, m))"
proof (induction ds arbitrary: t rule: rev_induct)
  case (snoc d ds)
  have fresh: "sorted_wrt (<) (map doc_document_id ds) \<Longrightarrow>
      \<not> not_after (last_opt (map doc_document_id ds)) (doc_document_id d) \<Longrightarrow> doc_document_id d \<notin> doc_document_id ` set ds"
    using sorted_snoc_fresh [of "map doc_document_id ds"] by simp
  have own: "(\<exists>j. new_source_id (source_str (doc_source_id d)) = Inr j) \<longleftrightarrow>
      new_source_id (source_str (doc_source_id d)) = Inr (doc_source_id d)"
    using new_source_id_same by blast
  have step: "document_step E (last_opt (map doc_document_id ds), doc_document_id ` set ds, location ` set ds, m) d = Inr t
      \<longleftrightarrow> \<not> not_after (last_opt (map doc_document_id ds)) (doc_document_id d) \<and>
        doc_document_id d \<notin> doc_document_id ` set ds \<and> location d \<notin> location ` set ds \<and> document_ok E d \<and>
        (\<exists>m'. insert_output_path E m (legacy_path d) = Inr m' \<and>
          t = (Some (doc_document_id d), insert (doc_document_id d) (doc_document_id ` set ds),
            insert (location d) (location ` set ds), m'))" for m t
    by (auto simp: document_step_def document_ok_def block_loop metadata_loop validate_relative_iff own
        location_def [symmetric])
  show ?case
    using fresh by (auto simp: try_fold_append snoc.IH step sorted_wrt_snoc)
qed auto

definition corpus_valid :: "externs \<Rightarrow> integration_corpus \<Rightarrow> bool" where
  "corpus_valid E c \<longleftrightarrow> co_schema_version c = 3 \<and> co_documents c \<noteq> []
     \<and> co_corpus_hash c = corpus_hash_of E (co_documents c)
     \<and> sorted_wrt (<) (map doc_document_id (co_documents c))
     \<and> distinct (map location (co_documents c))
     \<and> (\<forall>d \<in> set (co_documents c). document_ok E d \<and> portable_path E default_policy (legacy_path d))
     \<and> no_portable_collision E (map legacy_path (co_documents c))"

lemma validate_corpus_valid: "validate_corpus E c = Inr () \<longleftrightarrow> corpus_valid E c"
  using insert_all_iff [of E "map legacy_path (co_documents c)"]
  by (auto simp: validate_corpus_def corpus_valid_def integration_schema_version_def document_loop)

section \<open>Facts: what \<open>validate_taxonomy\<close> accepts\<close>

lemma assign_loop:
  "try_fold (assign_step known) (None, A) ds = Inr t \<longleftrightarrow>
     sorted_wrt (<) ds \<and> set ds \<subseteq> known \<and> set ds \<inter> A = {} \<and> t = (last_opt ds, A \<union> set ds)"
proof (induction ds arbitrary: t rule: rev_induct)
  case (snoc d ds)
  have step: "assign_step known (p, B) d = Inr t \<longleftrightarrow> \<not> not_after p d \<and> d \<in> known \<and> d \<notin> B \<and> t = (Some d, insert d B)"
    for p B t by (auto simp: assign_step_def)
  show ?case
    using sorted_snoc_fresh [of ds d] by (auto simp: try_fold_append snoc.IH step sorted_wrt_snoc)
qed auto

definition cluster_ok :: "externs \<Rightarrow> document_id set \<Rightarrow> taxonomy_cluster \<Rightarrow> bool" where
  "cluster_ok E known c \<longleftrightarrow> validate_bounded_data (cl_cluster_id c) 1 128 = Inr ()
     \<and> validate_bounded_data (cl_title c) 1 1024 = Inr ()
     \<and> portable_path E default_policy (cl_canonical_path c)
     \<and> suffix ''.md'' (to_ascii_lowercase (cl_canonical_path c))
     \<and> cl_document_ids c \<noteq> [] \<and> sorted_wrt (<) (cl_document_ids c) \<and> set (cl_document_ids c) \<subseteq> known"

definition members_of :: "taxonomy_cluster list \<Rightarrow> document_id list" where
  "members_of cs = concat (map cl_document_ids cs)"

lemma members_of_snoc [simp]: "members_of (cs @ [c]) = members_of cs @ cl_document_ids c"
  by (simp add: members_of_def)

lemma cluster_loop:
  "try_fold (cluster_step E known) (None, {}, [], {}) cs = Inr t \<longleftrightarrow>
     sorted_wrt (<) (map cl_cluster_id cs) \<and> (\<forall>c \<in> set cs. cluster_ok E known c) \<and> distinct (members_of cs) \<and>
     (\<exists>m. try_fold (insert_output_path E) [] (map knowledge_path cs) = Inr m \<and>
       t = (last_opt (map cl_cluster_id cs), cl_cluster_id ` set cs, m, set (members_of cs)))"
proof (induction cs arbitrary: t rule: rev_induct)
  case Nil
  show ?case by (auto simp: members_of_def)
next
  case (snoc c cs)
  have fresh: "sorted_wrt (<) (map cl_cluster_id cs) \<Longrightarrow> \<not> not_after (last_opt (map cl_cluster_id cs)) (cl_cluster_id c)
      \<Longrightarrow> cl_cluster_id c \<notin> cl_cluster_id ` set cs"
    using sorted_snoc_fresh [of "map cl_cluster_id cs"] by simp
  have step: "cluster_step E known (p, ids, m, A) c = Inr t \<longleftrightarrow> \<not> not_after p (cl_cluster_id c) \<and>
      cl_cluster_id c \<notin> ids \<and> cluster_ok E known c \<and> set (cl_document_ids c) \<inter> A = {} \<and>
      (\<exists>m'. insert_output_path E m (knowledge_path c) = Inr m' \<and>
        t = (Some (cl_cluster_id c), insert (cl_cluster_id c) ids, m', A \<union> set (cl_document_ids c)))" for p ids m A t
    by (auto simp: cluster_step_def cluster_ok_def assign_loop validate_relative_iff)
  have "cluster_ok E known c \<Longrightarrow> distinct (cl_document_ids c)"
    by (auto simp: cluster_ok_def intro: strict_sorted_distinct)
  with fresh show ?case
    by (auto simp: try_fold_append snoc.IH step sorted_wrt_snoc)
qed

definition taxonomy_valid :: "externs \<Rightarrow> integration_corpus \<Rightarrow> taxonomy_proposal \<Rightarrow> bool" where
  "taxonomy_valid E corpus t \<longleftrightarrow> (let known = doc_document_id ` set (co_documents corpus) in
     ta_schema_version t = 3 \<and> ta_corpus_hash t = co_corpus_hash corpus
     \<and> ta_taxonomy_hash t = taxonomy_hash_of E (ta_corpus_hash t) (ta_clusters t) (ta_organizer_recording_hash t)
     \<and> sorted_wrt (<) (map cl_cluster_id (ta_clusters t))
     \<and> (\<forall>c \<in> set (ta_clusters t). cluster_ok E known c \<and> portable_path E default_policy (knowledge_path c))
     \<and> no_portable_collision E (map knowledge_path (ta_clusters t))
     \<and> distinct (members_of (ta_clusters t)) \<and> set (members_of (ta_clusters t)) = known)"

lemma validate_taxonomy_valid: "validate_taxonomy E corpus t = Inr () \<longleftrightarrow> taxonomy_valid E corpus t"
  using insert_all_iff [of E "map knowledge_path (ta_clusters t)"]
  by (auto simp: validate_taxonomy_def taxonomy_valid_def integration_schema_version_def cluster_loop Let_def)

section \<open>Facts: sealing\<close>

text \<open>The same document, its blocks and its metadata listed in another order.\<close>

definition document_perm :: "integration_document \<Rightarrow> integration_document \<Rightarrow> bool" where
  "document_perm d d' \<longleftrightarrow> mset (doc_blocks d) = mset (doc_blocks d') \<and>
     mset (doc_metadata d) = mset (doc_metadata d') \<and>
     d' = d\<lparr>doc_blocks := doc_blocks d', doc_metadata := doc_metadata d'\<rparr>"

lemma sorted_wrt_key_inj: "sorted_wrt (<) (map (k :: 'a \<Rightarrow> 'b::linorder) (sort_key k xs)) \<Longrightarrow> inj_on k (set xs)"
  by (metis distinct_map set_sort strict_sorted_distinct)

lemma canonical_document_perm:
  assumes "document_perm d d'" and "document_ok E (canonical_document d)"
  shows "canonical_document d' = canonical_document d"
proof -
  have "sort_key sb_block_id (doc_blocks d) = sort_key sb_block_id (doc_blocks d')"
    using assms by (intro sort_key_inj_permute sorted_wrt_key_inj)
      (auto simp: document_perm_def document_ok_def canonical_document_def)
  moreover have "sort_key mv_metadata_id (doc_metadata d) = sort_key mv_metadata_id (doc_metadata d')"
    using assms by (intro sort_key_inj_permute sorted_wrt_key_inj)
      (auto simp: document_perm_def document_ok_def canonical_document_def)
  ultimately show ?thesis
    using assms(1) by (cases d; cases d') (simp add: canonical_document_def document_perm_def)
qed

lemma canonical_document_id [simp]: "doc_document_id (canonical_document d) = doc_document_id d"
  by (simp add: canonical_document_def)

text \<open>A list that is strictly sorted by a key is determined by its elements.\<close>

lemma strict_key_unique:
  fixes k :: "'a \<Rightarrow> 'b::linorder"
  assumes "sorted_wrt (<) (map k xs)" and "sorted (map k ys)" and "mset xs = mset ys"
  shows "xs = ys"
proof -
  have "inj_on k (set xs)"
    using assms(1) by (metis distinct_map strict_sorted_distinct)
  moreover have "set xs = set ys" using assms(3) by (rule mset_eq_setD)
  ultimately have "sort_key k ys = xs"
    using assms by (intro sort_key_inj_key_eq) (simp_all add: strict_sorted_imp_sorted)
  moreover have "sort_key k ys = ys" using assms(2) by (rule sort_key_id_if_sorted)
  ultimately show ?thesis by simp
qed

lemma seal_corpus_Inr:
  "seal_corpus E p docs = Inr c \<longleftrightarrow> corpus_valid E c \<and>
     c = \<lparr>co_schema_version = 3,
          co_corpus_hash = corpus_hash_of E (map canonical_document (sort_key doc_document_id docs)),
          co_policy_hash = p, co_documents = map canonical_document (sort_key doc_document_id docs)\<rparr>"
  unfolding seal_corpus_def Let_def and_then_simps validate_corpus_valid integration_schema_version_def
  by (metis sum.inject(2))

lemma seal_corpus_perm:
  assumes seal: "seal_corpus E p docs = Inr c" and ds: "mset ds = mset docs"
    and perm: "list_all2 document_perm ds docs'"
  shows "seal_corpus E p docs' = Inr c"
proof -
  let ?out = "map canonical_document (sort_key doc_document_id docs)"
  let ?out' = "map canonical_document (sort_key doc_document_id docs')"
  from seal have valid: "corpus_valid E c" and docs: "co_documents c = ?out"
    by (auto simp only: seal_corpus_Inr integration_corpus.simps)
  have ok: "document_ok E (canonical_document d)" if "d \<in> set ds" for d
    using valid docs that mset_eq_setD [OF ds] by (simp add: corpus_valid_def)
  from perm ok have "map canonical_document docs' = map canonical_document ds"
    by (induction rule: list_all2_induct) (auto intro: canonical_document_perm)
  then have "image_mset canonical_document (mset docs') = image_mset canonical_document (mset docs)"
    using ds by (metis mset_map)
  then have "mset ?out = mset ?out'" by simp
  moreover have "sorted_wrt (<) (map doc_document_id ?out)"
    using valid docs by (simp add: corpus_valid_def)
  moreover have "sorted (map doc_document_id ?out')" by (simp add: o_def)
  ultimately have "?out = ?out'" by (intro strict_key_unique [where k = doc_document_id])
  then have "seal_corpus E p docs = seal_corpus E p docs'" by (simp only: seal_corpus_def)
  with seal show ?thesis by simp
qed

section \<open>Facts: the serialised form determines the value\<close>

lemma hash_hex_inj: "hex_lawful E \<Longrightarrow> hash_hex E h = hash_hex E h' \<longleftrightarrow> h = h'"
  by (metis content_hash.expand hash_hex_def hex_lawful_def option.inject)

lemma jhash_inj: "hex_lawful E \<Longrightarrow> jhash E h = jhash E h' \<longleftrightarrow> h = h'"
  by (simp add: jhash_def hash_hex_inj)

lemma jid_inj: "hex_lawful E \<Longrightarrow> jid E pre i = jid E pre j \<longleftrightarrow> i = j"
  by (cases i; cases j) (simp add: jid_def display_id_def hash_hex_inj)

lemma jnat_inj: "a < 2 ^ 64 \<Longrightarrow> b < 2 ^ 64 \<Longrightarrow> jnat a = jnat b \<longleftrightarrow> a = b"
  by (auto simp: jnat_def word_of_nat_eq_iff take_bit_nat_eq_self)

lemma jopt_inj:
  "(\<And>a b. x = Some a \<Longrightarrow> y = Some b \<Longrightarrow> f a = f b \<Longrightarrow> a = b) \<Longrightarrow> (\<And>a. f a \<noteq> JNull) \<Longrightarrow>
     jopt f x = jopt f y \<Longrightarrow> x = y"
  by (auto simp: jopt_def split: option.splits) (metis)

lemma map_eq_inj:
  "map f xs = map f ys \<Longrightarrow> (\<And>x y. x \<in> set xs \<Longrightarrow> y \<in> set ys \<Longrightarrow> f x = f y \<Longrightarrow> x = y) \<Longrightarrow> xs = ys"
proof (induction xs arbitrary: ys)
  case (Cons x xs)
  then show ?case by (cases ys) auto
qed simp

lemma json_atoms_ok [simp]:
  "json_ok (jhash E h)" "json_ok (jid E pre i)" "json_ok (jnat n)"
  "json_ok (jopt f x) \<longleftrightarrow> (\<forall>y. x = Some y \<longrightarrow> json_ok (f y))"
  by (auto simp: jhash_def jid_def jnat_def jopt_def split: option.splits)

text \<open>A domain-separated hash of a canonical value: what it commits to.\<close>

definition canonical_preimage :: "externs \<Rightarrow> string \<Rightarrow> json \<Rightarrow> bytes" where
  "canonical_preimage E d v = d @ to_canonical_json E v"

lemma canonical_hash_binding:
  assumes "json_faithful E" "json_ok v" "json_ok w" and "canonical_hash E d v = canonical_hash E d w"
  shows "v = w \<or> collides_on E (canonical_preimage E d v) (canonical_preimage E d w)"
  using assms canonical_inj [of E v w]
  by (auto simp: collides_on_def canonical_preimage_def canonical_hash_def from_domain_bytes_def)

text \<open>
  What every sealed type promises: its serde form is a proper value and, for inputs in the range
  of their Rust types, determines them. Then so do the vectors of it, and hashing commits to it.
\<close>

locale serialised =
  fixes ser :: "externs \<Rightarrow> 'a \<Rightarrow> json" and typed :: "'a \<Rightarrow> bool"
  assumes ser_ok: "typed x \<Longrightarrow> json_ok (ser E x)"
    and ser_inj: "hex_lawful E \<Longrightarrow> typed x \<Longrightarrow> typed y \<Longrightarrow> ser E x = ser E y \<Longrightarrow> x = y"
begin

lemma vec_ok: "\<forall>x \<in> set xs. typed x \<Longrightarrow> json_ok (JArr (map (ser E) xs))"
  by (auto intro: ser_ok)

lemma vec_inj:
  "hex_lawful E \<Longrightarrow> \<forall>x \<in> set xs. typed x \<Longrightarrow> \<forall>y \<in> set ys. typed y \<Longrightarrow>
     map (ser E) xs = map (ser E) ys \<Longrightarrow> xs = ys"
  by (erule map_eq_inj) (auto intro: ser_inj)

lemma hash_binding:
  assumes "json_faithful E" "hex_lawful E" "typed x" "typed y"
    and "canonical_hash E d (ser E x) = canonical_hash E d (ser E y)"
  shows "x = y \<or> collides_on E (canonical_preimage E d (ser E x)) (canonical_preimage E d (ser E y))"
  using canonical_hash_binding [OF assms(1) ser_ok [OF assms(3)] ser_ok [OF assms(4)] assms(5)]
    ser_inj [OF assms(2-4)] by blast

end

text \<open>The \<open>u32\<close> index is one, and the value is a \<open>serde_json::Value\<close>.\<close>

definition metadata_typed :: "metadata_value \<Rightarrow> bool" where
  "metadata_typed m \<longleftrightarrow> mv_value_index m < 2 ^ 32 \<and> json_ok (mv_value m)"

definition document_typed :: "integration_document \<Rightarrow> bool" where
  "document_typed d \<longleftrightarrow> (\<forall>m \<in> set (doc_metadata d). metadata_typed m)"

interpretation block_ser: serialised json_of_block "\<lambda>_. True"
proof
  show "json_ok (json_of_block E b)" for E b by (auto simp: json_of_block_def intro!: jobj_ok)
  fix E and b b' :: source_block
  assume "hex_lawful E" "json_of_block E b = json_of_block E b'"
  then show "b = b'"
    by (cases b; cases b') (auto simp: json_of_block_def jhash_inj jid_inj dest!: jobj_inj)
qed

interpretation metadata_ser: serialised json_of_metadata metadata_typed
proof
  show "metadata_typed m \<Longrightarrow> json_ok (json_of_metadata E m)" for E m
    by (auto simp: json_of_metadata_def metadata_typed_def intro!: jobj_ok)
  fix E and m m' :: metadata_value
  assume "hex_lawful E" "metadata_typed m" "metadata_typed m'" "json_of_metadata E m = json_of_metadata E m'"
  then show "m = m'"
    by (cases m; cases m') (auto simp: json_of_metadata_def jhash_inj metadata_typed_def jnat_inj dest!: jobj_inj)
qed

interpretation document_ser: serialised json_of_document document_typed
proof
  show "document_typed d \<Longrightarrow> json_ok (json_of_document E d)" for E d
    using block_ser.vec_ok [of "doc_blocks d" E] metadata_ser.vec_ok [of "doc_metadata d" E]
    by (auto simp: json_of_document_def document_typed_def intro!: jobj_ok)
  fix E and d d' :: integration_document
  assume ass: "hex_lawful E" "document_typed d" "document_typed d'" "json_of_document E d = json_of_document E d'"
  from ass(4) have eqs: "source_str (doc_source_id d) = source_str (doc_source_id d')"
    "jid E ''doc'' (doc_document_id d) = jid E ''doc'' (doc_document_id d')"
    "doc_original_path d = doc_original_path d'"
    "jhash E (doc_document_hash d) = jhash E (doc_document_hash d')"
    "map (json_of_block E) (doc_blocks d) = map (json_of_block E) (doc_blocks d')"
    "map (json_of_metadata E) (doc_metadata d) = map (json_of_metadata E) (doc_metadata d')"
    by (auto simp: json_of_document_def dest!: jobj_inj)
  have "doc_blocks d = doc_blocks d'"
    by (rule block_ser.vec_inj [OF ass(1) _ _ eqs(5)]) simp_all
  moreover have "doc_metadata d = doc_metadata d'"
    by (rule metadata_ser.vec_inj [OF ass(1) _ _ eqs(6)]) (use ass in \<open>simp_all add: document_typed_def\<close>)
  moreover have "doc_source_id d = doc_source_id d'" using eqs(1) by (rule source_id.expand)
  ultimately show "d = d'"
    using eqs ass(1) by (cases d; cases d') (simp add: jhash_inj jid_inj)
qed

interpretation documents_ser: serialised "\<lambda>E ds. JArr (map (json_of_document E) ds)"
  "\<lambda>ds. \<forall>d \<in> set ds. document_typed d"
proof
  show "\<forall>d \<in> set ds. document_typed d \<Longrightarrow> json_ok (JArr (map (json_of_document E) ds))" for E ds
    by (rule document_ser.vec_ok)
  show "hex_lawful E \<Longrightarrow> \<forall>d \<in> set ds. document_typed d \<Longrightarrow> \<forall>d \<in> set ds'. document_typed d \<Longrightarrow>
      JArr (map (json_of_document E) ds) = JArr (map (json_of_document E) ds') \<Longrightarrow> ds = ds'" for E ds ds'
    by (auto intro: document_ser.vec_inj)
qed

section \<open>Properties\<close>

text \<open>
  C37: \<open>validate_corpus\<close> accepts exactly the well-formed corpora: the hash is the one of the
  documents, documents, blocks and metadata are strictly ordered by identifier with the content
  hashes of their content, and the preserved originals can live side by side on a file system
  that folds case and normalises names. The running state of its loops (previous identifier,
  sets, prefix map) loses and adds nothing.
\<close>

theorem corpus_validation_exact: "validate_corpus E c = Inr () \<longleftrightarrow> corpus_valid E c"
  by (rule validate_corpus_valid)

text \<open>
  In an accepted taxonomy every document of the corpus belongs to exactly one cluster, no
  cluster is empty or holds a foreign document, and the notes of two clusters never share a path
  (nor does one lie below another) on a case-folding file system.
\<close>

lemma taxonomy_partitions_documents:
  assumes "validate_taxonomy E corpus t = Inr ()"
  shows "(\<forall>d \<in> doc_document_id ` set (co_documents corpus).
            \<exists>!i. i < length (ta_clusters t) \<and> d \<in> set (cl_document_ids (ta_clusters t ! i))) \<and>
    (\<forall>c \<in> set (ta_clusters t). cl_document_ids c \<noteq> [] \<and>
       set (cl_document_ids c) \<subseteq> doc_document_id ` set (co_documents corpus)) \<and>
    distinct (map cl_cluster_id (ta_clusters t)) \<and>
    no_portable_collision E (map knowledge_path (ta_clusters t))"
proof -
  let ?cs = "ta_clusters t"
  from assms have "taxonomy_valid E corpus t" by (simp add: validate_taxonomy_valid)
  then have clusters: "\<forall>c \<in> set ?cs. cluster_ok E (doc_document_id ` set (co_documents corpus)) c"
    and once: "distinct (members_of ?cs)"
    and all: "set (members_of ?cs) = doc_document_id ` set (co_documents corpus)"
    and sorted: "sorted_wrt (<) (map cl_cluster_id ?cs)"
    and free: "no_portable_collision E (map knowledge_path ?cs)"
    by (simp_all add: taxonomy_valid_def Let_def)
  have disjoint: "i = j" if "i < length ?cs" "j < length ?cs" "d \<in> set (cl_document_ids (?cs ! i))"
      "d \<in> set (cl_document_ids (?cs ! j))" for d i j
    using distinct_concat_nth_unique [OF once [unfolded members_of_def], of i j d] that
    by (simp add: members_of_def)
  have "\<exists>!i. i < length ?cs \<and> d \<in> set (cl_document_ids (?cs ! i))"
    if "d \<in> doc_document_id ` set (co_documents corpus)" for d
  proof -
    from that all have "d \<in> set (members_of ?cs)" by simp
    then obtain c where "c \<in> set ?cs" "d \<in> set (cl_document_ids c)" by (auto simp: members_of_def)
    then obtain i where "i < length ?cs" "d \<in> set (cl_document_ids (?cs ! i))"
      by (metis in_set_conv_nth)
    with disjoint show ?thesis by blast
  qed
  with clusters sorted free show ?thesis by (auto simp: cluster_ok_def intro: strict_sorted_distinct)
qed

text \<open>
  Sealing does not depend on the order in which the caller lists documents, blocks or
  metadata: every reordering of an input that seals gives the same sealed corpus.
\<close>

lemma seal_corpus_order_independent:
  assumes "seal_corpus E p docs = Inr c" and "mset ds = mset docs"
    and "list_all2 document_perm ds docs'"
  shows "seal_corpus E p docs' = Inr c"
  by (rule seal_corpus_perm [OF assms])

text \<open>
  The corpus hash commits to every field of every document: two document lists with the same
  hash are equal, or their canonical texts are a SHA-256 collision.
\<close>

lemma corpus_hash_binding:
  assumes "json_faithful E" and "hex_lawful E"
    and "\<forall>d \<in> set ds. document_typed d" and "\<forall>d \<in> set ds'. document_typed d"
    and "corpus_hash_of E ds = corpus_hash_of E ds'"
  shows "ds = ds' \<or> collides_on E
    (canonical_preimage E (domain ''okc:integration-corpus:v3'') (JArr (map (json_of_document E) ds)))
    (canonical_preimage E (domain ''okc:integration-corpus:v3'') (JArr (map (json_of_document E) ds')))"
  by (rule documents_ser.hash_binding [OF assms(1-4) assms(5) [unfolded corpus_hash_of_def]])

end
