(* ===== verification/Review.thy ===== *)
theory Review
  imports Corpus
begin

text \<open>
  Proposals, critic reports, approvals and the approved plan of
  \<open>crates/okc-core/src/integration.rs\<close>: the data, the JSON serde derives for it, the sealing
  constructors and every validator from \<open>ApprovedIntegrationPlan::validate\<close> down. A plan that
  passes is the only input of the compiler.
\<close>

section \<open>Data\<close>

record approval_binding =
  ab_target_hash :: content_hash
  ab_approved :: bool
  ab_curator_id :: string
  ab_policy_version :: string
  ab_rationale :: "string option"

datatype target_kind = BlockTarget | MetadataTarget

record disposition_target =
  dt_kind :: target_kind
  dt_document_id :: document_id
  dt_target_id :: string
  dt_content_hash :: content_hash

definition block_target :: "externs \<Rightarrow> document_id \<Rightarrow> source_block \<Rightarrow> disposition_target" where
  "block_target E d b = \<lparr>dt_kind = BlockTarget, dt_document_id = d,
     dt_target_id = display_id E ''block'' (sb_block_id b), dt_content_hash = sb_content_hash b\<rparr>"

definition metadata_target :: "document_id \<Rightarrow> metadata_value \<Rightarrow> disposition_target" where
  "metadata_target d m = \<lparr>dt_kind = MetadataTarget, dt_document_id = d,
     dt_target_id = mv_metadata_id m, dt_content_hash = mv_content_hash m\<rparr>"

datatype disposition_kind = Integrated | PreservedVerbatim | OmissionProposed

record source_disposition =
  sd_target :: disposition_target
  sd_disposition :: disposition_kind
  sd_rationale :: "string option"

text \<open>Evidence is kept in ordered sets, so it has the derived lexicographic order.\<close>

datatype section_evidence =
  Evidence (ev_document_id: document_id) (ev_block_id: block_id) (ev_content_hash: content_hash)

definition evidence_key :: "section_evidence \<Rightarrow> document_id \<times> block_id \<times> content_hash" where
  "evidence_key e = (ev_document_id e, ev_block_id e, ev_content_hash e)"

instantiation section_evidence :: linorder
begin

definition less_eq_section_evidence :: "section_evidence \<Rightarrow> section_evidence \<Rightarrow> bool" where
  "a \<le> b \<longleftrightarrow> evidence_key a \<le> evidence_key b"

definition less_section_evidence :: "section_evidence \<Rightarrow> section_evidence \<Rightarrow> bool" where
  "a < b \<longleftrightarrow> evidence_key a < evidence_key b"

instance
proof
  fix a b c :: section_evidence
  show "a < b \<longleftrightarrow> a \<le> b \<and> \<not> b \<le> a"
    by (auto simp: less_section_evidence_def less_eq_section_evidence_def)
  show "a \<le> a" by (simp add: less_eq_section_evidence_def)
  show "a \<le> b \<Longrightarrow> b \<le> c \<Longrightarrow> a \<le> c" by (auto simp: less_eq_section_evidence_def)
  show "a \<le> b \<Longrightarrow> b \<le> a \<Longrightarrow> a = b"
    by (cases a; cases b) (auto simp: less_eq_section_evidence_def evidence_key_def dest: antisym)
  show "a \<le> b \<or> b \<le> a" by (auto simp: less_eq_section_evidence_def)
qed

end

record synthesis_section =
  ss_section_id :: string
  ss_heading :: string
  ss_markdown_body :: string
  ss_evidence :: "section_evidence list"

datatype related_link_kind = Prerequisite | Related | Contrasts | Supersedes

record related_link =
  rl_kind :: related_link_kind
  rl_target_cluster_id :: string
  rl_evidence :: "section_evidence list"

record contradiction_claim =
  cc_claim_id :: string
  cc_rendered_claim :: string
  cc_observed_at :: "string option"
  cc_context :: string
  cc_evidence :: "section_evidence list"

record contradiction_set =
  cs_contradiction_id :: string
  cs_summary :: string
  cs_claims :: "contradiction_claim list"

record synthesis_proposal =
  sp_schema_version :: nat
  sp_cluster_id :: string
  sp_taxonomy_hash :: content_hash
  sp_proposal_hash :: content_hash
  sp_revision :: nat
  sp_sections :: "synthesis_section list"
  sp_related_links :: "related_link list"
  sp_dispositions :: "source_disposition list"
  sp_contradictions :: "contradiction_set list"
  sp_synthesis_recording_hash :: content_hash

datatype critic_severity = Minor | Major | Critical

datatype finding_kind = UnsupportedClaim | Omission | HiddenContradiction | Misattribution
  | LinkLoss | MetadataLoss | PromptInjectionInfluence

record critic_finding =
  cf_finding_id :: string
  cf_severity :: critic_severity
  cf_kind :: finding_kind
  cf_message :: string
  cf_evidence :: "section_evidence list"

record critic_report =
  cr_schema_version :: nat
  cr_cluster_id :: string
  cr_proposal_hash :: content_hash
  cr_critic_hash :: content_hash
  cr_findings :: "critic_finding list"
  cr_critic_recording_hash :: content_hash

record finding_waiver =
  fw_finding_id :: string
  fw_curator_id :: string
  fw_rationale :: string

record omission_approval =
  oa_target :: disposition_target
  oa_curator_id :: string
  oa_rationale :: string

record cluster_approval =
  ca_cluster_id :: string
  ca_taxonomy_hash :: content_hash
  ca_proposal_hash :: content_hash
  ca_critic_hash :: content_hash
  ca_revision_hash :: content_hash
  ca_approved :: bool
  ca_curator_id :: string
  ca_policy_version :: string
  ca_omission_approvals :: "omission_approval list"
  ca_minor_waivers :: "finding_waiver list"

record approved_revision =
  rv_proposal :: synthesis_proposal
  rv_critic :: critic_report
  rv_approval :: cluster_approval

record integration_plan =
  ip_format_family :: string
  ip_schema_version :: nat
  ip_integration_plan_id :: string
  ip_corpus :: integration_corpus
  ip_taxonomy :: taxonomy_proposal
  ip_taxonomy_approval :: approval_binding
  ip_clusters :: "approved_revision list"
  ip_provider_recording_hashes :: "content_hash list"

section \<open>Serialised form\<close>

fun json_of_target_kind :: "target_kind \<Rightarrow> json" where
  "json_of_target_kind BlockTarget = JStr ''block''"
| "json_of_target_kind MetadataTarget = JStr ''metadata''"

fun json_of_disposition_kind :: "disposition_kind \<Rightarrow> json" where
  "json_of_disposition_kind Integrated = JStr ''integrated''"
| "json_of_disposition_kind PreservedVerbatim = JStr ''preserved_verbatim''"
| "json_of_disposition_kind OmissionProposed = JStr ''omission_proposed''"

fun json_of_link_kind :: "related_link_kind \<Rightarrow> json" where
  "json_of_link_kind Prerequisite = JStr ''prerequisite''"
| "json_of_link_kind Related = JStr ''related''"
| "json_of_link_kind Contrasts = JStr ''contrasts''"
| "json_of_link_kind Supersedes = JStr ''supersedes''"

fun json_of_severity :: "critic_severity \<Rightarrow> json" where
  "json_of_severity Minor = JStr ''minor''"
| "json_of_severity Major = JStr ''major''"
| "json_of_severity Critical = JStr ''critical''"

fun json_of_finding_kind :: "finding_kind \<Rightarrow> json" where
  "json_of_finding_kind UnsupportedClaim = JStr ''unsupported_claim''"
| "json_of_finding_kind Omission = JStr ''omission''"
| "json_of_finding_kind HiddenContradiction = JStr ''hidden_contradiction''"
| "json_of_finding_kind Misattribution = JStr ''misattribution''"
| "json_of_finding_kind LinkLoss = JStr ''link_loss''"
| "json_of_finding_kind MetadataLoss = JStr ''metadata_loss''"
| "json_of_finding_kind PromptInjectionInfluence = JStr ''prompt_injection_influence''"

definition json_of_target :: "externs \<Rightarrow> disposition_target \<Rightarrow> json" where
  "json_of_target E t = jobj [(''kind'', json_of_target_kind (dt_kind t)),
     (''document_id'', jid E ''doc'' (dt_document_id t)), (''target_id'', JStr (dt_target_id t)),
     (''content_hash'', jhash E (dt_content_hash t))]"

definition json_of_disposition :: "externs \<Rightarrow> source_disposition \<Rightarrow> json" where
  "json_of_disposition E d = jobj [(''target'', json_of_target E (sd_target d)),
     (''disposition'', json_of_disposition_kind (sd_disposition d)),
     (''rationale'', jopt JStr (sd_rationale d))]"

definition json_of_evidence :: "externs \<Rightarrow> section_evidence \<Rightarrow> json" where
  "json_of_evidence E e = jobj [(''document_id'', jid E ''doc'' (ev_document_id e)),
     (''block_id'', jid E ''block'' (ev_block_id e)), (''content_hash'', jhash E (ev_content_hash e))]"

definition json_of_evidences :: "externs \<Rightarrow> section_evidence list \<Rightarrow> json" where
  "json_of_evidences E es = JArr (map (json_of_evidence E) es)"

definition json_of_section :: "externs \<Rightarrow> synthesis_section \<Rightarrow> json" where
  "json_of_section E s = jobj [(''section_id'', JStr (ss_section_id s)), (''heading'', JStr (ss_heading s)),
     (''markdown_body'', JStr (ss_markdown_body s)), (''evidence'', json_of_evidences E (ss_evidence s))]"

definition json_of_link :: "externs \<Rightarrow> related_link \<Rightarrow> json" where
  "json_of_link E l = jobj [(''kind'', json_of_link_kind (rl_kind l)),
     (''target_cluster_id'', JStr (rl_target_cluster_id l)), (''evidence'', json_of_evidences E (rl_evidence l))]"

definition json_of_claim :: "externs \<Rightarrow> contradiction_claim \<Rightarrow> json" where
  "json_of_claim E c = jobj [(''claim_id'', JStr (cc_claim_id c)),
     (''rendered_claim'', JStr (cc_rendered_claim c)), (''observed_at'', jopt JStr (cc_observed_at c)),
     (''context'', JStr (cc_context c)), (''evidence'', json_of_evidences E (cc_evidence c))]"

definition json_of_contradiction :: "externs \<Rightarrow> contradiction_set \<Rightarrow> json" where
  "json_of_contradiction E c = jobj [(''contradiction_id'', JStr (cs_contradiction_id c)),
     (''summary'', JStr (cs_summary c)), (''claims'', JArr (map (json_of_claim E) (cs_claims c)))]"

definition json_of_proposal :: "externs \<Rightarrow> synthesis_proposal \<Rightarrow> json" where
  "json_of_proposal E p = jobj [(''schema_version'', jnat (sp_schema_version p)),
     (''cluster_id'', JStr (sp_cluster_id p)), (''taxonomy_hash'', jhash E (sp_taxonomy_hash p)),
     (''proposal_hash'', jhash E (sp_proposal_hash p)), (''revision'', jnat (sp_revision p)),
     (''sections'', JArr (map (json_of_section E) (sp_sections p))),
     (''related_links'', JArr (map (json_of_link E) (sp_related_links p))),
     (''dispositions'', JArr (map (json_of_disposition E) (sp_dispositions p))),
     (''contradictions'', JArr (map (json_of_contradiction E) (sp_contradictions p))),
     (''synthesis_recording_hash'', jhash E (sp_synthesis_recording_hash p))]"

definition json_of_finding :: "externs \<Rightarrow> critic_finding \<Rightarrow> json" where
  "json_of_finding E f = jobj [(''finding_id'', JStr (cf_finding_id f)),
     (''severity'', json_of_severity (cf_severity f)), (''kind'', json_of_finding_kind (cf_kind f)),
     (''message'', JStr (cf_message f)), (''evidence'', json_of_evidences E (cf_evidence f))]"

definition json_of_critic :: "externs \<Rightarrow> critic_report \<Rightarrow> json" where
  "json_of_critic E c = jobj [(''schema_version'', jnat (cr_schema_version c)),
     (''cluster_id'', JStr (cr_cluster_id c)), (''proposal_hash'', jhash E (cr_proposal_hash c)),
     (''critic_hash'', jhash E (cr_critic_hash c)), (''findings'', JArr (map (json_of_finding E) (cr_findings c))),
     (''critic_recording_hash'', jhash E (cr_critic_recording_hash c))]"

definition json_of_waiver :: "finding_waiver \<Rightarrow> json" where
  "json_of_waiver w = jobj [(''finding_id'', JStr (fw_finding_id w)),
     (''curator_id'', JStr (fw_curator_id w)), (''rationale'', JStr (fw_rationale w))]"

definition json_of_omission :: "externs \<Rightarrow> omission_approval \<Rightarrow> json" where
  "json_of_omission E a = jobj [(''target'', json_of_target E (oa_target a)),
     (''curator_id'', JStr (oa_curator_id a)), (''rationale'', JStr (oa_rationale a))]"

definition json_of_approval :: "externs \<Rightarrow> cluster_approval \<Rightarrow> json" where
  "json_of_approval E a = jobj [(''cluster_id'', JStr (ca_cluster_id a)),
     (''taxonomy_hash'', jhash E (ca_taxonomy_hash a)), (''proposal_hash'', jhash E (ca_proposal_hash a)),
     (''critic_hash'', jhash E (ca_critic_hash a)), (''revision_hash'', jhash E (ca_revision_hash a)),
     (''approved'', JBool (ca_approved a)), (''curator_id'', JStr (ca_curator_id a)),
     (''policy_version'', JStr (ca_policy_version a)),
     (''omission_approvals'', JArr (map (json_of_omission E) (ca_omission_approvals a))),
     (''minor_waivers'', JArr (map json_of_waiver (ca_minor_waivers a)))]"

definition json_of_revision :: "externs \<Rightarrow> approved_revision \<Rightarrow> json" where
  "json_of_revision E r = jobj [(''proposal'', json_of_proposal E (rv_proposal r)),
     (''critic'', json_of_critic E (rv_critic r)), (''approval'', json_of_approval E (rv_approval r))]"

definition json_of_binding :: "externs \<Rightarrow> approval_binding \<Rightarrow> json" where
  "json_of_binding E a = jobj [(''target_hash'', jhash E (ab_target_hash a)),
     (''approved'', JBool (ab_approved a)), (''curator_id'', JStr (ab_curator_id a)),
     (''policy_version'', JStr (ab_policy_version a)), (''rationale'', jopt JStr (ab_rationale a))]"

definition json_of_corpus :: "externs \<Rightarrow> integration_corpus \<Rightarrow> json" where
  "json_of_corpus E c = jobj [(''schema_version'', jnat (co_schema_version c)),
     (''corpus_hash'', jhash E (co_corpus_hash c)), (''policy_hash'', jhash E (co_policy_hash c)),
     (''documents'', JArr (map (json_of_document E) (co_documents c)))]"

definition json_of_taxonomy :: "externs \<Rightarrow> taxonomy_proposal \<Rightarrow> json" where
  "json_of_taxonomy E t = jobj [(''schema_version'', jnat (ta_schema_version t)),
     (''corpus_hash'', jhash E (ta_corpus_hash t)), (''taxonomy_hash'', jhash E (ta_taxonomy_hash t)),
     (''clusters'', JArr (map (json_of_cluster E) (ta_clusters t))),
     (''organizer_recording_hash'', jhash E (ta_organizer_recording_hash t))]"

definition json_of_plan :: "externs \<Rightarrow> integration_plan \<Rightarrow> json" where
  "json_of_plan E p = jobj [(''format_family'', JStr (ip_format_family p)),
     (''schema_version'', jnat (ip_schema_version p)),
     (''integration_plan_id'', JStr (ip_integration_plan_id p)),
     (''corpus'', json_of_corpus E (ip_corpus p)), (''taxonomy'', json_of_taxonomy E (ip_taxonomy p)),
     (''taxonomy_approval'', json_of_binding E (ip_taxonomy_approval p)),
     (''clusters'', JArr (map (json_of_revision E) (ip_clusters p))),
     (''provider_recording_hashes'', JArr (map (jhash E) (ip_provider_recording_hashes p)))]"

section \<open>Identities and sealing constructors\<close>

text \<open>\<open>SynthesisIdentity\<close>, \<open>CriticIdentity\<close>, \<open>Revision\<close> and \<open>IntegrationPlanIdentity\<close>.\<close>

definition synthesis_identity ::
  "externs \<Rightarrow> string \<Rightarrow> content_hash \<Rightarrow> nat \<Rightarrow> synthesis_section list \<Rightarrow> related_link list \<Rightarrow>
     source_disposition list \<Rightarrow> contradiction_set list \<Rightarrow> content_hash \<Rightarrow> json" where
  "synthesis_identity E cluster th revision sections links dispositions contradictions recording = jobj
     [(''cluster_id'', JStr cluster), (''taxonomy_hash'', jhash E th), (''revision'', jnat revision),
      (''sections'', JArr (map (json_of_section E) sections)),
      (''related_links'', JArr (map (json_of_link E) links)),
      (''dispositions'', JArr (map (json_of_disposition E) dispositions)),
      (''contradictions'', JArr (map (json_of_contradiction E) contradictions)),
      (''synthesis_recording_hash'', jhash E recording)]"

definition proposal_hash_of :: "externs \<Rightarrow> synthesis_proposal \<Rightarrow> content_hash" where
  "proposal_hash_of E p = canonical_hash E (domain ''okc:synthesis-proposal:v3'')
     (synthesis_identity E (sp_cluster_id p) (sp_taxonomy_hash p) (sp_revision p) (sp_sections p)
        (sp_related_links p) (sp_dispositions p) (sp_contradictions p) (sp_synthesis_recording_hash p))"

definition seal_proposal ::
  "externs \<Rightarrow> string \<Rightarrow> content_hash \<Rightarrow> nat \<Rightarrow> synthesis_section list \<Rightarrow> related_link list \<Rightarrow>
     source_disposition list \<Rightarrow> contradiction_set list \<Rightarrow> content_hash \<Rightarrow> synthesis_proposal" where
  "seal_proposal E cluster th revision sections links dispositions contradictions recording =
     \<lparr>sp_schema_version = integration_schema_version, sp_cluster_id = cluster, sp_taxonomy_hash = th,
      sp_proposal_hash = canonical_hash E (domain ''okc:synthesis-proposal:v3'')
        (synthesis_identity E cluster th revision sections links dispositions contradictions recording),
      sp_revision = revision, sp_sections = sections, sp_related_links = links,
      sp_dispositions = dispositions, sp_contradictions = contradictions,
      sp_synthesis_recording_hash = recording\<rparr>"

definition critic_identity ::
  "externs \<Rightarrow> string \<Rightarrow> content_hash \<Rightarrow> critic_finding list \<Rightarrow> content_hash \<Rightarrow> json" where
  "critic_identity E cluster ph findings recording = jobj [(''cluster_id'', JStr cluster),
     (''proposal_hash'', jhash E ph), (''findings'', JArr (map (json_of_finding E) findings)),
     (''critic_recording_hash'', jhash E recording)]"

definition critic_hash_of :: "externs \<Rightarrow> critic_report \<Rightarrow> content_hash" where
  "critic_hash_of E c = canonical_hash E (domain ''okc:critic-report:v3'')
     (critic_identity E (cr_cluster_id c) (cr_proposal_hash c) (cr_findings c) (cr_critic_recording_hash c))"

definition seal_critic ::
  "externs \<Rightarrow> string \<Rightarrow> content_hash \<Rightarrow> critic_finding list \<Rightarrow> content_hash \<Rightarrow> critic_report" where
  "seal_critic E cluster ph findings recording =
     \<lparr>cr_schema_version = integration_schema_version, cr_cluster_id = cluster, cr_proposal_hash = ph,
      cr_critic_hash = canonical_hash E (domain ''okc:critic-report:v3'')
        (critic_identity E cluster ph findings recording),
      cr_findings = findings, cr_critic_recording_hash = recording\<rparr>"

definition revision_identity ::
  "externs \<Rightarrow> synthesis_proposal \<Rightarrow> critic_report \<Rightarrow> omission_approval list \<Rightarrow> finding_waiver list \<Rightarrow> json" where
  "revision_identity E p c omissions waivers = jobj [(''taxonomy_hash'', jhash E (sp_taxonomy_hash p)),
     (''proposal'', json_of_proposal E p), (''critic'', json_of_critic E c),
     (''omission_approvals'', JArr (map (json_of_omission E) omissions)),
     (''minor_waivers'', JArr (map json_of_waiver waivers))]"

definition cluster_revision_hash ::
  "externs \<Rightarrow> synthesis_proposal \<Rightarrow> critic_report \<Rightarrow> omission_approval list \<Rightarrow> finding_waiver list \<Rightarrow> content_hash" where
  "cluster_revision_hash E p c omissions waivers =
     canonical_hash E (domain ''okc:cluster-revision:v3'') (revision_identity E p c omissions waivers)"

definition approve ::
  "externs \<Rightarrow> synthesis_proposal \<Rightarrow> critic_report \<Rightarrow> string \<Rightarrow> string \<Rightarrow> omission_approval list \<Rightarrow>
     finding_waiver list \<Rightarrow> cluster_approval" where
  "approve E p c curator version omissions waivers =
     \<lparr>ca_cluster_id = sp_cluster_id p, ca_taxonomy_hash = sp_taxonomy_hash p,
      ca_proposal_hash = sp_proposal_hash p, ca_critic_hash = cr_critic_hash c,
      ca_revision_hash = cluster_revision_hash E p c omissions waivers, ca_approved = True,
      ca_curator_id = curator, ca_policy_version = version,
      ca_omission_approvals = omissions, ca_minor_waivers = waivers\<rparr>"

section \<open>Validators\<close>

type_synonym documents = "(document_id, integration_document) btree"

definition evidence_step ::
  "documents \<Rightarrow> section_evidence set \<Rightarrow> section_evidence \<Rightarrow> section_evidence set res" where
  "evidence_step documents seen item =
     (if item \<in> seen then Inl ProposalInvalid
      else (let valid = (case btree_get documents (ev_document_id item) of None \<Rightarrow> False
              | Some document \<Rightarrow> list_ex (\<lambda>block. sb_block_id block = ev_block_id item
                    \<and> sb_content_hash block = ev_content_hash item) (doc_blocks document))
            in if \<not> valid then Inl ProposalInvalid else Inr (insert item seen)))"

definition validate_evidence :: "documents \<Rightarrow> section_evidence list \<Rightarrow> unit res" where
  "validate_evidence documents evidence = done_with (try_fold (evidence_step documents) {} evidence)"

definition finding_step :: "documents \<Rightarrow> string set \<Rightarrow> critic_finding \<Rightarrow> string set res" where
  "finding_step documents finding_ids f =
     and_then (seq_checks [
         validate_bounded_data (cf_finding_id f) 1 128,
         validate_bounded_data (cf_message f) 1 8192,
         reject (cf_finding_id f \<in> finding_ids) ProposalInvalid,
         validate_evidence documents (cf_evidence f),
         reject (cf_severity f = Major \<or> cf_severity f = Critical) ApprovalStale])
       (Inr (insert (cf_finding_id f) finding_ids))"

definition validate_critic ::
  "externs \<Rightarrow> synthesis_proposal \<Rightarrow> critic_report \<Rightarrow> documents \<Rightarrow> cluster_approval \<Rightarrow> unit res" where
  "validate_critic E proposal critic documents approval =
     (let expected_waivers = set (map cf_finding_id (filter (\<lambda>f. cf_severity f = Minor) (cr_findings critic)));
          actual_waivers = set (map fw_finding_id (ca_minor_waivers approval))
      in seq_checks [
        reject (cr_schema_version critic \<noteq> integration_schema_version
          \<or> cr_cluster_id critic \<noteq> sp_cluster_id proposal
          \<or> cr_proposal_hash critic \<noteq> sp_proposal_hash proposal) ApprovalStale,
        reject (cr_critic_hash critic \<noteq> critic_hash_of E critic) ApprovalStale,
        done_with (try_fold (finding_step documents) {} (cr_findings critic)),
        reject (card actual_waivers \<noteq> length (ca_minor_waivers approval)
          \<or> actual_waivers \<noteq> expected_waivers) ApprovalStale,
        for_each (\<lambda>w. seq_checks [validate_bounded_data (fw_curator_id w) 1 256,
           validate_bounded_data (fw_rationale w) 1 4096]) (ca_minor_waivers approval)])"

definition validate_cluster_approval ::
  "externs \<Rightarrow> synthesis_proposal \<Rightarrow> critic_report \<Rightarrow> cluster_approval \<Rightarrow> unit res" where
  "validate_cluster_approval E proposal critic approval = seq_checks [
     reject (\<not> ca_approved approval \<or> ca_cluster_id approval \<noteq> sp_cluster_id proposal
       \<or> ca_taxonomy_hash approval \<noteq> sp_taxonomy_hash proposal
       \<or> ca_proposal_hash approval \<noteq> sp_proposal_hash proposal
       \<or> ca_critic_hash approval \<noteq> cr_critic_hash critic) ApprovalStale,
     validate_bounded_data (ca_curator_id approval) 1 256,
     validate_bounded_data (ca_policy_version approval) 1 256,
     reject (ca_revision_hash approval \<noteq> cluster_revision_hash E proposal critic
       (ca_omission_approvals approval) (ca_minor_waivers approval)) ApprovalStale]"

definition validate_approval :: "approval_binding \<Rightarrow> content_hash \<Rightarrow> unit res" where
  "validate_approval approval expected = seq_checks [
     reject (\<not> ab_approved approval \<or> ab_target_hash approval \<noteq> expected) ApprovalStale,
     validate_bounded_data (ab_curator_id approval) 1 256,
     validate_bounded_data (ab_policy_version approval) 1 256,
     validate_optional_rationale (ab_rationale approval) False]"

definition section_step :: "documents \<Rightarrow> string set \<Rightarrow> synthesis_section \<Rightarrow> string set res" where
  "section_step documents section_ids s =
     and_then (seq_checks [
         validate_bounded_data (ss_section_id s) 1 128,
         validate_bounded_data (ss_heading s) 1 1024,
         validate_markdown_body (ss_markdown_body s),
         reject (ss_section_id s \<in> section_ids \<or> ss_evidence s = []) ProposalInvalid,
         validate_evidence documents (ss_evidence s)])
       (Inr (insert (ss_section_id s) section_ids))"

definition claim_step :: "documents \<Rightarrow> string set \<Rightarrow> contradiction_claim \<Rightarrow> string set res" where
  "claim_step documents claim_ids c =
     and_then (seq_checks [
         validate_bounded_data (cc_rendered_claim c) 1 65536,
         validate_bounded_data (cc_context c) 1 4096,
         reject (cc_claim_id c \<in> claim_ids \<or> cc_evidence c = []) ProposalInvalid,
         validate_evidence documents (cc_evidence c)])
       (Inr (insert (cc_claim_id c) claim_ids))"

definition contradiction_step :: "documents \<Rightarrow> string set \<Rightarrow> contradiction_set \<Rightarrow> string set res" where
  "contradiction_step documents contradiction_ids c =
     and_then (seq_checks [
         validate_bounded_data (cs_contradiction_id c) 1 128,
         reject (cs_contradiction_id c \<in> contradiction_ids \<or> length (cs_claims c) < 2) ProposalInvalid,
         done_with (try_fold (claim_step documents) {} (cs_claims c))])
       (Inr (insert (cs_contradiction_id c) contradiction_ids))"

definition cluster_documents :: "integration_corpus \<Rightarrow> taxonomy_cluster \<Rightarrow> documents" where
  "cluster_documents corpus c = btree_collect (map (\<lambda>d. (doc_document_id d, d))
     (filter (\<lambda>d. doc_document_id d \<in> set (cl_document_ids c)) (co_documents corpus)))"

definition document_targets :: "externs \<Rightarrow> integration_document \<Rightarrow> disposition_target list" where
  "document_targets E d = map (block_target E (doc_document_id d)) (doc_blocks d)
     @ map (metadata_target (doc_document_id d)) (doc_metadata d)"

definition expected_targets :: "externs \<Rightarrow> documents \<Rightarrow> disposition_target list" where
  "expected_targets E documents = concat (map (\<lambda>(_, d). document_targets E d) documents)"

definition cited_evidence :: "synthesis_proposal \<Rightarrow> section_evidence list" where
  "cited_evidence p = concat (map ss_evidence (sp_sections p))
     @ concat (map cc_evidence (concat (map cs_claims (sp_contradictions p))))"

definition validate_cluster_revision ::
  "externs \<Rightarrow> integration_corpus \<Rightarrow> taxonomy_proposal \<Rightarrow> taxonomy_cluster \<Rightarrow> approved_revision \<Rightarrow>
     content_hash set \<Rightarrow> unit res" where
  "validate_cluster_revision E corpus taxonomy cluster revision recordings =
     (let proposal = rv_proposal revision; critic = rv_critic revision; approval = rv_approval revision;
          documents = cluster_documents corpus cluster;
          expected = set (expected_targets E documents);
          actual = set (map sd_target (sp_dispositions proposal));
          omitted = set (map sd_target
            (filter (\<lambda>i. sd_disposition i = OmissionProposed) (sp_dispositions proposal)));
          approved_omissions = set (map oa_target (ca_omission_approvals approval));
          integrated_blocks = set (map (\<lambda>i. (dt_document_id (sd_target i), dt_target_id (sd_target i)))
            (filter (\<lambda>i. dt_kind (sd_target i) = BlockTarget \<and> sd_disposition i = Integrated)
              (sp_dispositions proposal)));
          evidenced_blocks = set (map (\<lambda>e. (ev_document_id e, display_id E ''block'' (ev_block_id e)))
            (cited_evidence proposal));
          known_clusters = set (map cl_cluster_id (ta_clusters taxonomy))
      in seq_checks [
        reject (sp_schema_version proposal \<noteq> integration_schema_version
          \<or> sp_cluster_id proposal \<noteq> cl_cluster_id cluster
          \<or> sp_taxonomy_hash proposal \<noteq> ta_taxonomy_hash taxonomy) ProposalInvalid,
        reject (sp_proposal_hash proposal \<noteq> proposal_hash_of E proposal) ProposalInvalid,
        reject (sp_synthesis_recording_hash proposal \<notin> recordings
          \<or> cr_critic_recording_hash critic \<notin> recordings) ApprovalStale,
        reject (card actual \<noteq> length (sp_dispositions proposal) \<or> actual \<noteq> expected) ProposalInvalid,
        for_each (\<lambda>d. if sd_disposition d = OmissionProposed
            then validate_optional_rationale (sd_rationale d) True else Inr ()) (sp_dispositions proposal),
        reject (card approved_omissions \<noteq> length (ca_omission_approvals approval)
          \<or> approved_omissions \<noteq> omitted) ApprovalStale,
        for_each (\<lambda>a. seq_checks [validate_bounded_data (oa_curator_id a) 1 256,
          validate_bounded_data (oa_rationale a) 1 4096]) (ca_omission_approvals approval),
        done_with (try_fold (section_step documents) {} (sp_sections proposal)),
        reject (\<exists>b \<in> integrated_blocks. b \<notin> evidenced_blocks) ProposalInvalid,
        for_each (\<lambda>l. seq_checks [
          reject (rl_target_cluster_id l \<notin> known_clusters) ProposalInvalid,
          validate_evidence documents (rl_evidence l)]) (sp_related_links proposal),
        done_with (try_fold (contradiction_step documents) {} (sp_contradictions proposal)),
        validate_critic E proposal critic documents approval,
        validate_cluster_approval E proposal critic approval])"

section \<open>The approved plan\<close>

definition plan_identity ::
  "externs \<Rightarrow> integration_corpus \<Rightarrow> taxonomy_proposal \<Rightarrow> approval_binding \<Rightarrow> approved_revision list \<Rightarrow>
     content_hash list \<Rightarrow> json" where
  "plan_identity E corpus taxonomy approval clusters recordings = jobj
     [(''corpus_hash'', jhash E (co_corpus_hash corpus)), (''policy_hash'', jhash E (co_policy_hash corpus)),
      (''taxonomy_hash'', jhash E (ta_taxonomy_hash taxonomy)),
      (''taxonomy_approval'', json_of_binding E approval),
      (''clusters'', JArr (map (json_of_revision E) clusters)),
      (''provider_recording_hashes'', JArr (map (jhash E) recordings))]"

definition plan_id_of ::
  "externs \<Rightarrow> integration_corpus \<Rightarrow> taxonomy_proposal \<Rightarrow> approval_binding \<Rightarrow> approved_revision list \<Rightarrow>
     content_hash list \<Rightarrow> string" where
  "plan_id_of E corpus taxonomy approval clusters recordings = ''integration_'' @ hash_hex E
     (canonical_hash E (domain ''okc:integration-plan:v3'')
       (plan_identity E corpus taxonomy approval clusters recordings))"

definition revision_step ::
  "externs \<Rightarrow> integration_plan \<Rightarrow> (string, taxonomy_cluster) btree \<Rightarrow> content_hash set \<Rightarrow> string set \<Rightarrow>
     approved_revision \<Rightarrow> string set res" where
  "revision_step E p clusters_by_id recordings seen_clusters revision =
     (let cluster_id = sp_cluster_id (rv_proposal revision) in
      case btree_get clusters_by_id cluster_id of
        None \<Rightarrow> Inl ProposalInvalid
      | Some cluster \<Rightarrow>
          if cluster_id \<in> seen_clusters then Inl ProposalInvalid
          else and_then
            (validate_cluster_revision E (ip_corpus p) (ip_taxonomy p) cluster revision recordings)
            (Inr (insert cluster_id seen_clusters)))"

definition validate_plan :: "externs \<Rightarrow> integration_plan \<Rightarrow> unit res" where
  "validate_plan E p =
     (let recordings = set (ip_provider_recording_hashes p);
          clusters_by_id = btree_collect (map (\<lambda>c. (cl_cluster_id c, c)) (ta_clusters (ip_taxonomy p)))
      in seq_checks [
        reject (ip_format_family p \<noteq> ''okc'' \<or> ip_schema_version p \<noteq> integration_schema_version) PlanStale,
        validate_corpus E (ip_corpus p),
        validate_taxonomy E (ip_corpus p) (ip_taxonomy p),
        validate_approval (ip_taxonomy_approval p) (ta_taxonomy_hash (ip_taxonomy p)),
        reject (ip_provider_recording_hashes p = []) ApprovalStale,
        reject (card recordings \<noteq> length (ip_provider_recording_hashes p)) PlanStale,
        reject (ta_organizer_recording_hash (ip_taxonomy p) \<notin> recordings) ApprovalStale,
        reject (length (ip_clusters p) \<noteq> length clusters_by_id) ApprovalStale,
        done_with (try_fold (revision_step E p clusters_by_id recordings) {} (ip_clusters p)),
        reject (ip_integration_plan_id p \<noteq> plan_id_of E (ip_corpus p) (ip_taxonomy p)
          (ip_taxonomy_approval p) (ip_clusters p) (ip_provider_recording_hashes p)) PlanStale])"

text \<open>\<open>Vec::dedup\<close> drops an element equal to its predecessor.\<close>

definition seal_plan ::
  "externs \<Rightarrow> integration_corpus \<Rightarrow> taxonomy_proposal \<Rightarrow> approval_binding \<Rightarrow> approved_revision list \<Rightarrow>
     content_hash list \<Rightarrow> integration_plan res" where
  "seal_plan E corpus taxonomy approval clusters recordings =
     (let clusters = sort_key (\<lambda>r. sp_cluster_id (rv_proposal r)) clusters;
          recordings = remdups_adj (sort_key (hash_hex E) recordings);
          plan = \<lparr>ip_format_family = ''okc'', ip_schema_version = integration_schema_version,
            ip_integration_plan_id = plan_id_of E corpus taxonomy approval clusters recordings,
            ip_corpus = corpus, ip_taxonomy = taxonomy, ip_taxonomy_approval = approval,
            ip_clusters = clusters, ip_provider_recording_hashes = recordings\<rparr>
      in and_then (validate_plan E plan) (Inr plan))"

section \<open>Facts: what the validators accept\<close>

text \<open>Evidence that points at a block of the given documents, with the hash the block has.\<close>

definition genuine :: "documents \<Rightarrow> section_evidence \<Rightarrow> bool" where
  "genuine documents e \<longleftrightarrow> (\<exists>d b. btree_get documents (ev_document_id e) = Some d \<and> b \<in> set (doc_blocks d)
     \<and> sb_block_id b = ev_block_id e \<and> sb_content_hash b = ev_content_hash e)"

lemma validate_evidence_iff:
  "validate_evidence documents es = Inr () \<longleftrightarrow> distinct es \<and> (\<forall>e \<in> set es. genuine documents e)"
proof -
  have "try_fold (evidence_step documents) {} es = Inr t \<longleftrightarrow> distinct (map (\<lambda>e. e) es) \<and>
      (\<forall>e \<in> set es. genuine documents e) \<and> (\<lambda>e. e) ` set es \<inter> {} = {} \<and> t = {} \<union> (\<lambda>e. e) ` set es" for t
    by (rule keyed_loop)
      (auto simp: evidence_step_def genuine_def list_ex_iff Let_def split: option.splits)
  then show ?thesis by (simp add: validate_evidence_def)
qed

definition bounded :: "string \<Rightarrow> nat \<Rightarrow> nat \<Rightarrow> bool" where
  "bounded v lo hi \<longleftrightarrow> lo \<le> length v \<and> length v \<le> hi \<and> \<not> has_control v"

lemma validate_bounded_iff [simp]: "validate_bounded_data v lo hi = Inr () \<longleftrightarrow> bounded v lo hi"
  by (auto simp: validate_bounded_data_def bounded_def)

definition evidence_ok :: "documents \<Rightarrow> section_evidence list \<Rightarrow> bool" where
  "evidence_ok documents es \<longleftrightarrow> distinct es \<and> (\<forall>e \<in> set es. genuine documents e)"

definition section_ok :: "documents \<Rightarrow> synthesis_section \<Rightarrow> bool" where
  "section_ok documents s \<longleftrightarrow> bounded (ss_section_id s) 1 128 \<and> bounded (ss_heading s) 1 1024
     \<and> validate_markdown_body (ss_markdown_body s) = Inr () \<and> ss_evidence s \<noteq> []
     \<and> evidence_ok documents (ss_evidence s)"

definition claim_ok :: "documents \<Rightarrow> contradiction_claim \<Rightarrow> bool" where
  "claim_ok documents c \<longleftrightarrow> bounded (cc_rendered_claim c) 1 65536 \<and> bounded (cc_context c) 1 4096
     \<and> cc_evidence c \<noteq> [] \<and> evidence_ok documents (cc_evidence c)"

definition contradiction_ok :: "documents \<Rightarrow> contradiction_set \<Rightarrow> bool" where
  "contradiction_ok documents c \<longleftrightarrow> bounded (cs_contradiction_id c) 1 128 \<and> 2 \<le> length (cs_claims c)
     \<and> distinct (map cc_claim_id (cs_claims c)) \<and> (\<forall>x \<in> set (cs_claims c). claim_ok documents x)"

definition finding_ok :: "documents \<Rightarrow> critic_finding \<Rightarrow> bool" where
  "finding_ok documents f \<longleftrightarrow> bounded (cf_finding_id f) 1 128 \<and> bounded (cf_message f) 1 8192
     \<and> evidence_ok documents (cf_evidence f) \<and> cf_severity f = Minor"

lemma section_loop:
  "try_fold (section_step documents) A xs = Inr t \<longleftrightarrow> distinct (map ss_section_id xs) \<and>
     (\<forall>x \<in> set xs. section_ok documents x) \<and> ss_section_id ` set xs \<inter> A = {} \<and> t = A \<union> ss_section_id ` set xs"
  by (rule keyed_loop)
    (auto simp: section_step_def section_ok_def validate_evidence_iff evidence_ok_def)

lemma claim_loop:
  "try_fold (claim_step documents) A xs = Inr t \<longleftrightarrow> distinct (map cc_claim_id xs) \<and>
     (\<forall>x \<in> set xs. claim_ok documents x) \<and> cc_claim_id ` set xs \<inter> A = {} \<and> t = A \<union> cc_claim_id ` set xs"
  by (rule keyed_loop)
    (auto simp: claim_step_def claim_ok_def validate_evidence_iff evidence_ok_def)

lemma contradiction_loop:
  "try_fold (contradiction_step documents) A xs = Inr t \<longleftrightarrow> distinct (map cs_contradiction_id xs) \<and>
     (\<forall>x \<in> set xs. contradiction_ok documents x) \<and> cs_contradiction_id ` set xs \<inter> A = {} \<and>
     t = A \<union> cs_contradiction_id ` set xs"
  by (rule keyed_loop)
    (auto simp: contradiction_step_def contradiction_ok_def claim_loop)

lemma finding_loop:
  "try_fold (finding_step documents) A xs = Inr t \<longleftrightarrow> distinct (map cf_finding_id xs) \<and>
     (\<forall>x \<in> set xs. finding_ok documents x) \<and> cf_finding_id ` set xs \<inter> A = {} \<and> t = A \<union> cf_finding_id ` set xs"
proof (rule keyed_loop)
  fix s :: "string set" and f :: critic_finding and t
  have "cf_severity f \<noteq> Major \<and> cf_severity f \<noteq> Critical \<longleftrightarrow> cf_severity f = Minor"
    by (cases "cf_severity f") auto
  then show "finding_step documents s f = Inr t \<longleftrightarrow>
      finding_ok documents f \<and> cf_finding_id f \<notin> s \<and> t = insert (cf_finding_id f) s"
    by (auto simp: finding_step_def finding_ok_def validate_evidence_iff evidence_ok_def)
qed

text \<open>An accepted critic report: only minor findings, each waived exactly once, with a reason.\<close>

definition critic_ok ::
  "externs \<Rightarrow> synthesis_proposal \<Rightarrow> critic_report \<Rightarrow> documents \<Rightarrow> cluster_approval \<Rightarrow> bool" where
  "critic_ok E p c documents a \<longleftrightarrow> cr_schema_version c = 3 \<and> cr_cluster_id c = sp_cluster_id p
     \<and> cr_proposal_hash c = sp_proposal_hash p \<and> cr_critic_hash c = critic_hash_of E c
     \<and> distinct (map cf_finding_id (cr_findings c)) \<and> (\<forall>f \<in> set (cr_findings c). finding_ok documents f)
     \<and> distinct (map fw_finding_id (ca_minor_waivers a))
     \<and> fw_finding_id ` set (ca_minor_waivers a) = cf_finding_id ` set (cr_findings c)
     \<and> (\<forall>w \<in> set (ca_minor_waivers a). bounded (fw_curator_id w) 1 256 \<and> bounded (fw_rationale w) 1 4096)"

lemma card_map_distinct: "card (f ` set xs) = length xs \<longleftrightarrow> distinct (map f xs)"
  using card_set_distinct [of "map f xs"] by simp

lemma validate_critic_iff: "validate_critic E p c documents a = Inr () \<longleftrightarrow> critic_ok E p c documents a"
proof -
  have "\<forall>f \<in> set (cr_findings c). finding_ok documents f \<Longrightarrow>
      {x \<in> set (cr_findings c). cf_severity x = Minor} = set (cr_findings c)"
    by (auto simp: finding_ok_def)
  then show ?thesis
    by (auto simp: validate_critic_def critic_ok_def Let_def integration_schema_version_def finding_loop
        card_map_distinct) blast
qed

definition approval_ok :: "externs \<Rightarrow> synthesis_proposal \<Rightarrow> critic_report \<Rightarrow> cluster_approval \<Rightarrow> bool" where
  "approval_ok E p c a \<longleftrightarrow> ca_approved a \<and> ca_cluster_id a = sp_cluster_id p
     \<and> ca_taxonomy_hash a = sp_taxonomy_hash p \<and> ca_proposal_hash a = sp_proposal_hash p
     \<and> ca_critic_hash a = cr_critic_hash c \<and> bounded (ca_curator_id a) 1 256
     \<and> bounded (ca_policy_version a) 1 256
     \<and> ca_revision_hash a = cluster_revision_hash E p c (ca_omission_approvals a) (ca_minor_waivers a)"

lemma validate_cluster_approval_iff:
  "validate_cluster_approval E p c a = Inr () \<longleftrightarrow> approval_ok E p c a"
  by (auto simp: validate_cluster_approval_def approval_ok_def)

text \<open>The documents of a cluster, as a map.\<close>

lemma cluster_documents_get:
  assumes "distinct (map doc_document_id (co_documents corpus))"
  shows "btree_get (cluster_documents corpus c) i = Some d \<longleftrightarrow>
    d \<in> set (co_documents corpus) \<and> doc_document_id d = i \<and> i \<in> set (cl_document_ids c)"
proof -
  have "distinct (map doc_document_id (filter P (co_documents corpus)))" for P
    using assms by (rule distinct_map_filter)
  then show ?thesis
    by (subst cluster_documents_def, subst btree_collect_facts(3)) (auto simp: o_def)
qed

lemma cluster_documents_set:
  assumes "distinct (map doc_document_id (co_documents corpus))"
  shows "set (cluster_documents corpus c) =
    {(doc_document_id d, d) | d. d \<in> set (co_documents corpus) \<and> doc_document_id d \<in> set (cl_document_ids c)}"
proof -
  have ok: "btree_ok (cluster_documents corpus c)"
    by (simp add: cluster_documents_def btree_collect_facts)
  show ?thesis
    using bt.entries_get [OF ok] cluster_documents_get [OF assms] by auto
qed

lemma expected_targets_set:
  assumes "distinct (map doc_document_id (co_documents corpus))"
  shows "set (expected_targets E (cluster_documents corpus c)) =
    (\<Union>d \<in> {d \<in> set (co_documents corpus). doc_document_id d \<in> set (cl_document_ids c)}.
       set (document_targets E d))"
  by (auto simp: expected_targets_def cluster_documents_set [OF assms])

definition revision_key :: "approved_revision \<Rightarrow> string" where
  "revision_key r = sp_cluster_id (rv_proposal r)"

definition dispositions_ok ::
  "externs \<Rightarrow> documents \<Rightarrow> synthesis_proposal \<Rightarrow> cluster_approval \<Rightarrow> bool" where
  "dispositions_ok E documents p a \<longleftrightarrow>
     distinct (map sd_target (sp_dispositions p)) \<and>
     sd_target ` set (sp_dispositions p) = set (expected_targets E documents) \<and>
     (\<forall>d \<in> set (sp_dispositions p). sd_disposition d = OmissionProposed \<longrightarrow>
        (\<exists>r. sd_rationale d = Some r \<and> bounded r 1 4096)) \<and>
     distinct (map oa_target (ca_omission_approvals a)) \<and>
     oa_target ` set (ca_omission_approvals a) =
       sd_target ` {d \<in> set (sp_dispositions p). sd_disposition d = OmissionProposed} \<and>
     (\<forall>x \<in> set (ca_omission_approvals a). bounded (oa_curator_id x) 1 256 \<and> bounded (oa_rationale x) 1 4096) \<and>
     (\<forall>d \<in> set (sp_dispositions p). dt_kind (sd_target d) = BlockTarget \<and> sd_disposition d = Integrated \<longrightarrow>
        (\<exists>e \<in> set (cited_evidence p). ev_document_id e = dt_document_id (sd_target d) \<and>
           display_id E ''block'' (ev_block_id e) = dt_target_id (sd_target d)))"

definition revision_ok ::
  "externs \<Rightarrow> integration_corpus \<Rightarrow> taxonomy_proposal \<Rightarrow> taxonomy_cluster \<Rightarrow> approved_revision \<Rightarrow>
     content_hash set \<Rightarrow> bool" where
  "revision_ok E corpus taxonomy cluster r recordings \<longleftrightarrow>
     (let p = rv_proposal r; c = rv_critic r; a = rv_approval r;
          documents = cluster_documents corpus cluster in
     sp_schema_version p = 3 \<and> sp_cluster_id p = cl_cluster_id cluster
     \<and> sp_taxonomy_hash p = ta_taxonomy_hash taxonomy \<and> sp_proposal_hash p = proposal_hash_of E p
     \<and> sp_synthesis_recording_hash p \<in> recordings \<and> cr_critic_recording_hash c \<in> recordings
     \<and> dispositions_ok E documents p a
     \<and> distinct (map ss_section_id (sp_sections p)) \<and> (\<forall>s \<in> set (sp_sections p). section_ok documents s)
     \<and> (\<forall>l \<in> set (sp_related_links p). rl_target_cluster_id l \<in> cl_cluster_id ` set (ta_clusters taxonomy)
          \<and> evidence_ok documents (rl_evidence l))
     \<and> distinct (map cs_contradiction_id (sp_contradictions p))
     \<and> (\<forall>x \<in> set (sp_contradictions p). contradiction_ok documents x)
     \<and> critic_ok E p c documents a \<and> approval_ok E p c a)"

lemma required_rationale_iff:
  "validate_optional_rationale r True = Inr () \<longleftrightarrow> (\<exists>s. r = Some s \<and> bounded s 1 4096)"
  by (cases r) (auto simp: validate_optional_rationale_def bounded_def)

lemma validate_cluster_revision_iff:
  "validate_cluster_revision E corpus taxonomy cluster r recordings = Inr () \<longleftrightarrow>
     revision_ok E corpus taxonomy cluster r recordings"
proof -
  let ?p = "rv_proposal r"
  have omissions: "(\<forall>d \<in> set (sp_dispositions ?p).
        (if sd_disposition d = OmissionProposed then validate_optional_rationale (sd_rationale d) True
         else Inr ()) = Inr ()) \<longleftrightarrow>
      (\<forall>d \<in> set (sp_dispositions ?p). sd_disposition d = OmissionProposed \<longrightarrow>
        (\<exists>s. sd_rationale d = Some s \<and> bounded s 1 4096))"
    by (simp add: required_rationale_iff)
  have cited: "(\<exists>b \<in> set (map (\<lambda>i. (dt_document_id (sd_target i), dt_target_id (sd_target i)))
          (filter (\<lambda>i. dt_kind (sd_target i) = BlockTarget \<and> sd_disposition i = Integrated) (sp_dispositions ?p))).
        b \<notin> set (map (\<lambda>e. (ev_document_id e, display_id E ''block'' (ev_block_id e))) (cited_evidence ?p)))
      \<longleftrightarrow> \<not> (\<forall>d \<in> set (sp_dispositions ?p). dt_kind (sd_target d) = BlockTarget \<and> sd_disposition d = Integrated \<longrightarrow>
        (\<exists>e \<in> set (cited_evidence ?p). ev_document_id e = dt_document_id (sd_target d) \<and>
           display_id E ''block'' (ev_block_id e) = dt_target_id (sd_target d)))"
    by (auto simp: image_iff) metis+
  show ?thesis
    unfolding validate_cluster_revision_def revision_ok_def dispositions_ok_def Let_def cited
    by (simp only: seq_checks_Inr list.simps ball_simps reject_simps for_each_Inr omissions
        done_with_simps section_loop contradiction_loop validate_critic_iff validate_cluster_approval_iff
        card_set_distinct validate_evidence_iff evidence_ok_def validate_bounded_iff
        integration_schema_version_def)
      (auto simp: card_map_distinct)
qed

section \<open>Facts: the accepted plan\<close>

lemma btree_collect_length:
  assumes "distinct (map fst xs)" shows "length (btree_collect xs) = length xs"
proof -
  have ok: "btree_ok (btree_collect xs)" by (simp add: btree_collect_facts)
  have "length (btree_collect xs) = card (set (map fst (btree_collect xs)))"
    using btree_ok_distinct [OF ok] distinct_card by fastforce
  also have "\<dots> = card (set (map fst xs))" using btree_collect_facts(4) [of xs] by simp
  also have "\<dots> = length xs" using distinct_card [OF assms] by simp
  finally show ?thesis .
qed

definition plan_ok :: "externs \<Rightarrow> integration_plan \<Rightarrow> bool" where
  "plan_ok E p \<longleftrightarrow> ip_format_family p = ''okc'' \<and> ip_schema_version p = 3
     \<and> corpus_valid E (ip_corpus p) \<and> taxonomy_valid E (ip_corpus p) (ip_taxonomy p)
     \<and> validate_approval (ip_taxonomy_approval p) (ta_taxonomy_hash (ip_taxonomy p)) = Inr ()
     \<and> ip_provider_recording_hashes p \<noteq> [] \<and> distinct (ip_provider_recording_hashes p)
     \<and> ta_organizer_recording_hash (ip_taxonomy p) \<in> set (ip_provider_recording_hashes p)
     \<and> length (ip_clusters p) = length (ta_clusters (ip_taxonomy p))
     \<and> distinct (map revision_key (ip_clusters p))
     \<and> (\<forall>r \<in> set (ip_clusters p). \<exists>c \<in> set (ta_clusters (ip_taxonomy p)). cl_cluster_id c = revision_key r
          \<and> revision_ok E (ip_corpus p) (ip_taxonomy p) c r (set (ip_provider_recording_hashes p)))
     \<and> ip_integration_plan_id p = plan_id_of E (ip_corpus p) (ip_taxonomy p) (ip_taxonomy_approval p)
          (ip_clusters p) (ip_provider_recording_hashes p)"

lemma clusters_by_id_get:
  assumes "distinct (map cl_cluster_id cs)"
  shows "btree_get (btree_collect (map (\<lambda>c. (cl_cluster_id c, c)) cs)) k = Some c \<longleftrightarrow>
    c \<in> set cs \<and> cl_cluster_id c = k"
  using assms by (subst btree_collect_facts(3)) (auto simp: o_def)

lemma validate_plan_iff: "validate_plan E p = Inr () \<longleftrightarrow> plan_ok E p"
proof (cases "taxonomy_valid E (ip_corpus p) (ip_taxonomy p)")
  case False
  then show ?thesis by (auto simp: validate_plan_def plan_ok_def Let_def validate_taxonomy_valid)
next
  case True
  let ?cs = "ta_clusters (ip_taxonomy p)" and ?R = "set (ip_provider_recording_hashes p)"
  let ?m = "btree_collect (map (\<lambda>c. (cl_cluster_id c, c)) ?cs)"
  let ?P = "\<lambda>r. \<exists>c \<in> set ?cs. cl_cluster_id c = revision_key r \<and>
      revision_ok E (ip_corpus p) (ip_taxonomy p) c r ?R"
  from True have dist: "distinct (map cl_cluster_id ?cs)"
    by (simp add: taxonomy_valid_def Let_def strict_sorted_distinct)
  note get = clusters_by_id_get [OF dist]
  have len: "length ?m = length ?cs"
    using dist by (subst btree_collect_length) (simp_all add: o_def)
  have unique: "c = c'" if "c \<in> set ?cs" "c' \<in> set ?cs" "cl_cluster_id c = cl_cluster_id c'" for c c'
    using dist that by (auto simp: distinct_map dest: inj_onD)
  have step: "revision_step E p ?m ?R seen r = Inr t \<longleftrightarrow>
      ?P r \<and> revision_key r \<notin> seen \<and> t = insert (revision_key r) seen" for seen r t
  proof (cases "btree_get ?m (revision_key r)")
    case None
    then have "\<not> (\<exists>c \<in> set ?cs. cl_cluster_id c = revision_key r)" using get [of "revision_key r"] by force
    with None show ?thesis by (auto simp: revision_step_def Let_def revision_key_def)
  next
    case (Some c)
    then have c: "c \<in> set ?cs" "cl_cluster_id c = revision_key r" by (simp_all add: get)
    then have "?P r \<longleftrightarrow> revision_ok E (ip_corpus p) (ip_taxonomy p) c r ?R" using unique by metis
    with Some show ?thesis
      by (auto simp: revision_step_def Let_def revision_key_def validate_cluster_revision_iff)
  qed
  have loop: "(\<exists>t. try_fold (revision_step E p ?m ?R) {} (ip_clusters p) = Inr t) \<longleftrightarrow>
      distinct (map revision_key (ip_clusters p)) \<and> (\<forall>r \<in> set (ip_clusters p). ?P r)"
    using keyed_loop [where P = ?P, OF step] by simp
  show ?thesis
    unfolding validate_plan_def plan_ok_def Let_def
    by (simp only: seq_checks_Inr list.simps ball_simps reject_simps done_with_simps loop len
        validate_corpus_valid validate_taxonomy_valid integration_schema_version_def card_set_distinct)
      auto
qed

text \<open>Every cluster of the taxonomy has its one revision, and every revision a cluster.\<close>

lemma plan_revision_keys:
  assumes "plan_ok E p"
  shows "revision_key ` set (ip_clusters p) = cl_cluster_id ` set (ta_clusters (ip_taxonomy p))"
proof (rule card_subset_eq)
  have dist: "distinct (map cl_cluster_id (ta_clusters (ip_taxonomy p)))"
    using assms by (simp add: plan_ok_def taxonomy_valid_def Let_def strict_sorted_distinct)
  show "revision_key ` set (ip_clusters p) \<subseteq> cl_cluster_id ` set (ta_clusters (ip_taxonomy p))"
  proof
    fix k assume "k \<in> revision_key ` set (ip_clusters p)"
    with assms obtain c where "c \<in> set (ta_clusters (ip_taxonomy p))" "cl_cluster_id c = k"
      unfolding plan_ok_def by blast
    then show "k \<in> cl_cluster_id ` set (ta_clusters (ip_taxonomy p))" by blast
  qed
  show "card (revision_key ` set (ip_clusters p)) = card (cl_cluster_id ` set (ta_clusters (ip_taxonomy p)))"
    using assms dist by (simp add: plan_ok_def card_map_distinct [THEN iffD2])
qed simp

lemma plan_revision_of:
  assumes "plan_ok E p" and "c \<in> set (ta_clusters (ip_taxonomy p))"
  obtains r where "r \<in> set (ip_clusters p)" "revision_key r = cl_cluster_id c"
    "revision_ok E (ip_corpus p) (ip_taxonomy p) c r (set (ip_provider_recording_hashes p))"
proof -
  from assms plan_revision_keys obtain r where r: "r \<in> set (ip_clusters p)" "revision_key r = cl_cluster_id c"
    by (metis imageE imageI)
  with assms(1) obtain c' where c': "c' \<in> set (ta_clusters (ip_taxonomy p))" "cl_cluster_id c' = revision_key r"
    "revision_ok E (ip_corpus p) (ip_taxonomy p) c' r (set (ip_provider_recording_hashes p))"
    unfolding plan_ok_def by blast
  have "distinct (map cl_cluster_id (ta_clusters (ip_taxonomy p)))"
    using assms(1) by (simp add: plan_ok_def taxonomy_valid_def Let_def strict_sorted_distinct)
  then have "c' = c" using c' r(2) assms(2) by (auto simp: distinct_map dest: inj_onD)
  with c' r that show ?thesis by blast
qed

end
