(* ===== verification/Approval.thy ===== *)
theory Approval
  imports Review
begin

text \<open>
  What an accepted plan guarantees. The serialised forms of the review data determine it, so the
  hashes that approvals and plan identifiers carry commit to it; the validators together account
  for every unit of the sources, and \<open>seal\<close> produces one canonical plan.
\<close>

section \<open>Facts: the serialised forms of the review data\<close>

lemma kind_codes_inj [simp]:
  "json_of_target_kind k = json_of_target_kind k' \<longleftrightarrow> k = k'"
  "json_of_disposition_kind e = json_of_disposition_kind e' \<longleftrightarrow> e = e'"
  "json_of_link_kind l = json_of_link_kind l' \<longleftrightarrow> l = l'"
  "json_of_severity s = json_of_severity s' \<longleftrightarrow> s = s'"
  "json_of_finding_kind f = json_of_finding_kind f' \<longleftrightarrow> f = f'"
proof -
  show "json_of_target_kind k = json_of_target_kind k' \<longleftrightarrow> k = k'" by (cases k; cases k') simp_all
  show "json_of_disposition_kind e = json_of_disposition_kind e' \<longleftrightarrow> e = e'"
    by (cases e; cases e') simp_all
  show "json_of_link_kind l = json_of_link_kind l' \<longleftrightarrow> l = l'" by (cases l; cases l') simp_all
  show "json_of_severity s = json_of_severity s' \<longleftrightarrow> s = s'" by (cases s; cases s') simp_all
  show "json_of_finding_kind f = json_of_finding_kind f' \<longleftrightarrow> f = f'" by (cases f; cases f') simp_all
qed

lemma kind_codes_ok [simp]:
  "json_ok (json_of_target_kind k)" "json_ok (json_of_disposition_kind e)"
  "json_ok (json_of_link_kind l)" "json_ok (json_of_severity s)" "json_ok (json_of_finding_kind f)"
proof -
  show "json_ok (json_of_target_kind k)" by (cases k) simp_all
  show "json_ok (json_of_disposition_kind e)" by (cases e) simp_all
  show "json_ok (json_of_link_kind l)" by (cases l) simp_all
  show "json_ok (json_of_severity s)" by (cases s) simp_all
  show "json_ok (json_of_finding_kind f)" by (cases f) simp_all
qed

lemma jopt_str_inj [simp]: "jopt JStr x = jopt JStr y \<longleftrightarrow> x = y"
  by (auto simp: jopt_def split: option.splits)

interpretation target_ser: serialised json_of_target "\<lambda>_. True"
proof
  show "json_ok (json_of_target E t)" for E t by (auto simp: json_of_target_def intro!: jobj_ok)
  fix E and t t' :: disposition_target
  assume "hex_lawful E" "json_of_target E t = json_of_target E t'"
  then show "t = t'"
    by (cases t; cases t') (auto simp: json_of_target_def jhash_inj jid_inj dest!: jobj_inj)
qed

interpretation disposition_ser: serialised json_of_disposition "\<lambda>_. True"
proof
  show "json_ok (json_of_disposition E t)" for E t
    using target_ser.ser_ok by (auto simp: json_of_disposition_def intro!: jobj_ok)
  fix E and t t' :: source_disposition
  assume "hex_lawful E" "json_of_disposition E t = json_of_disposition E t'"
  then show "t = t'"
    by (cases t; cases t') (auto simp: json_of_disposition_def dest!: jobj_inj dest: target_ser.ser_inj)
qed

interpretation evidence_ser: serialised json_of_evidence "\<lambda>_. True"
proof
  show "json_ok (json_of_evidence E t)" for E t by (auto simp: json_of_evidence_def intro!: jobj_ok)
  fix E and t t' :: section_evidence
  assume "hex_lawful E" "json_of_evidence E t = json_of_evidence E t'"
  then show "t = t'"
    by (cases t; cases t') (auto simp: json_of_evidence_def jhash_inj jid_inj dest!: jobj_inj)
qed

interpretation evidences_ser: serialised json_of_evidences "\<lambda>_. True"
proof
  show "json_ok (json_of_evidences E t)" for E t
    unfolding json_of_evidences_def by (rule evidence_ser.vec_ok) simp
  show "hex_lawful E \<Longrightarrow> json_of_evidences E t = json_of_evidences E t' \<Longrightarrow> t = t'" for E t t'
    unfolding json_of_evidences_def by (auto intro: evidence_ser.vec_inj)
qed

interpretation section_ser: serialised json_of_section "\<lambda>_. True"
proof
  show "json_ok (json_of_section E t)" for E t
    using evidences_ser.ser_ok by (auto simp: json_of_section_def intro!: jobj_ok)
  fix E and t t' :: synthesis_section
  assume "hex_lawful E" "json_of_section E t = json_of_section E t'"
  then show "t = t'"
    by (cases t; cases t') (auto simp: json_of_section_def dest!: jobj_inj dest: evidences_ser.ser_inj)
qed

interpretation link_ser: serialised json_of_link "\<lambda>_. True"
proof
  show "json_ok (json_of_link E t)" for E t
    using evidences_ser.ser_ok by (auto simp: json_of_link_def intro!: jobj_ok)
  fix E and t t' :: related_link
  assume "hex_lawful E" "json_of_link E t = json_of_link E t'"
  then show "t = t'"
    by (cases t; cases t') (auto simp: json_of_link_def dest!: jobj_inj dest: evidences_ser.ser_inj)
qed

interpretation claim_ser: serialised json_of_claim "\<lambda>_. True"
proof
  show "json_ok (json_of_claim E t)" for E t
    using evidences_ser.ser_ok by (auto simp: json_of_claim_def intro!: jobj_ok)
  fix E and t t' :: contradiction_claim
  assume "hex_lawful E" "json_of_claim E t = json_of_claim E t'"
  then show "t = t'"
    by (cases t; cases t') (auto simp: json_of_claim_def dest!: jobj_inj dest: evidences_ser.ser_inj)
qed

interpretation contradiction_ser: serialised json_of_contradiction "\<lambda>_. True"
proof
  show "json_ok (json_of_contradiction E t)" for E t
    using claim_ser.vec_ok by (auto simp: json_of_contradiction_def intro!: jobj_ok claim_ser.ser_ok)
  fix E and t t' :: contradiction_set
  assume "hex_lawful E" "json_of_contradiction E t = json_of_contradiction E t'"
  then show "t = t'"
    by (cases t; cases t')
      (auto simp: json_of_contradiction_def dest!: jobj_inj dest: claim_ser.vec_inj [rotated 3])
qed

interpretation waiver_ser: serialised "\<lambda>_. json_of_waiver" "\<lambda>_. True"
proof
  show "json_ok (json_of_waiver t)" for t by (auto simp: json_of_waiver_def intro!: jobj_ok)
  fix t t' :: finding_waiver
  assume "json_of_waiver t = json_of_waiver t'"
  then show "t = t'" by (cases t; cases t') (auto simp: json_of_waiver_def dest!: jobj_inj)
qed

interpretation omission_ser: serialised json_of_omission "\<lambda>_. True"
proof
  show "json_ok (json_of_omission E t)" for E t
    using target_ser.ser_ok by (auto simp: json_of_omission_def intro!: jobj_ok)
  fix E and t t' :: omission_approval
  assume "hex_lawful E" "json_of_omission E t = json_of_omission E t'"
  then show "t = t'"
    by (cases t; cases t') (auto simp: json_of_omission_def dest!: jobj_inj dest: target_ser.ser_inj)
qed

interpretation finding_ser: serialised json_of_finding "\<lambda>_. True"
proof
  show "json_ok (json_of_finding E t)" for E t
    using evidences_ser.ser_ok by (auto simp: json_of_finding_def intro!: jobj_ok)
  fix E and t t' :: critic_finding
  assume "hex_lawful E" "json_of_finding E t = json_of_finding E t'"
  then show "t = t'"
    by (cases t; cases t') (auto simp: json_of_finding_def dest!: jobj_inj dest: evidences_ser.ser_inj)
qed

interpretation binding_ser: serialised json_of_binding "\<lambda>_. True"
proof
  show "json_ok (json_of_binding E t)" for E t by (auto simp: json_of_binding_def intro!: jobj_ok)
  fix E and t t' :: approval_binding
  assume "hex_lawful E" "json_of_binding E t = json_of_binding E t'"
  then show "t = t'"
    by (cases t; cases t') (auto simp: json_of_binding_def jhash_inj dest!: jobj_inj)
qed

text \<open>The \<open>u32\<close> fields.\<close>

definition proposal_typed :: "synthesis_proposal \<Rightarrow> bool" where
  "proposal_typed p \<longleftrightarrow> sp_schema_version p < 2 ^ 32 \<and> sp_revision p < 2 ^ 32"

definition critic_typed :: "critic_report \<Rightarrow> bool" where
  "critic_typed c \<longleftrightarrow> cr_schema_version c < 2 ^ 32"

definition revision_typed :: "approved_revision \<Rightarrow> bool" where
  "revision_typed r \<longleftrightarrow> proposal_typed (rv_proposal r) \<and> critic_typed (rv_critic r)"

lemma u32_inj: "a < 2 ^ 32 \<Longrightarrow> b < 2 ^ 32 \<Longrightarrow> jnat a = jnat b \<longleftrightarrow> a = b"
  by (rule jnat_inj) (erule order.strict_trans; simp)+

interpretation proposal_ser: serialised json_of_proposal proposal_typed
proof
  show "json_ok (json_of_proposal E t)" for E t
    by (auto simp: json_of_proposal_def intro!: jobj_ok section_ser.ser_ok link_ser.ser_ok
        disposition_ser.ser_ok contradiction_ser.ser_ok)
  fix E and p q :: synthesis_proposal
  assume ass: "hex_lawful E" "proposal_typed p" "proposal_typed q" "json_of_proposal E p = json_of_proposal E q"
  from ass(4) have eqs: "jnat (sp_schema_version p) = jnat (sp_schema_version q)"
    "sp_cluster_id p = sp_cluster_id q" "jhash E (sp_taxonomy_hash p) = jhash E (sp_taxonomy_hash q)"
    "jhash E (sp_proposal_hash p) = jhash E (sp_proposal_hash q)" "jnat (sp_revision p) = jnat (sp_revision q)"
    "map (json_of_section E) (sp_sections p) = map (json_of_section E) (sp_sections q)"
    "map (json_of_link E) (sp_related_links p) = map (json_of_link E) (sp_related_links q)"
    "map (json_of_disposition E) (sp_dispositions p) = map (json_of_disposition E) (sp_dispositions q)"
    "map (json_of_contradiction E) (sp_contradictions p) = map (json_of_contradiction E) (sp_contradictions q)"
    "jhash E (sp_synthesis_recording_hash p) = jhash E (sp_synthesis_recording_hash q)"
    unfolding json_of_proposal_def by (auto dest!: jobj_inj)
  note lists = section_ser.vec_inj [OF ass(1) _ _ eqs(6)] link_ser.vec_inj [OF ass(1) _ _ eqs(7)]
    disposition_ser.vec_inj [OF ass(1) _ _ eqs(8)] contradiction_ser.vec_inj [OF ass(1) _ _ eqs(9)]
  have "sp_schema_version p = sp_schema_version q" "sp_revision p = sp_revision q"
    using ass(2,3) eqs(1,5) by (simp_all add: proposal_typed_def u32_inj)
  with eqs lists ass(1) show "p = q" by (cases p; cases q) (simp add: jhash_inj)
qed

interpretation critic_ser: serialised json_of_critic critic_typed
proof
  show "json_ok (json_of_critic E t)" for E t
    by (auto simp: json_of_critic_def intro!: jobj_ok finding_ser.ser_ok)
  fix E and c d :: critic_report
  assume ass: "hex_lawful E" "critic_typed c" "critic_typed d" "json_of_critic E c = json_of_critic E d"
  from ass(4) have eqs: "jnat (cr_schema_version c) = jnat (cr_schema_version d)"
    "cr_cluster_id c = cr_cluster_id d" "jhash E (cr_proposal_hash c) = jhash E (cr_proposal_hash d)"
    "jhash E (cr_critic_hash c) = jhash E (cr_critic_hash d)"
    "map (json_of_finding E) (cr_findings c) = map (json_of_finding E) (cr_findings d)"
    "jhash E (cr_critic_recording_hash c) = jhash E (cr_critic_recording_hash d)"
    unfolding json_of_critic_def by (auto dest!: jobj_inj)
  have "cr_schema_version c = cr_schema_version d"
    using ass(2,3) eqs(1) by (simp add: critic_typed_def u32_inj)
  with eqs finding_ser.vec_inj [OF ass(1) _ _ eqs(5)] ass(1) show "c = d"
    by (cases c; cases d) (simp add: jhash_inj)
qed

interpretation approval_ser: serialised json_of_approval "\<lambda>_. True"
proof
  show "json_ok (json_of_approval E t)" for E t
    by (auto simp: json_of_approval_def intro!: jobj_ok omission_ser.ser_ok waiver_ser.ser_ok)
  fix E and a b :: cluster_approval
  assume ass: "hex_lawful E" "json_of_approval E a = json_of_approval E b"
  from ass(2) have eqs: "ca_cluster_id a = ca_cluster_id b"
    "jhash E (ca_taxonomy_hash a) = jhash E (ca_taxonomy_hash b)"
    "jhash E (ca_proposal_hash a) = jhash E (ca_proposal_hash b)"
    "jhash E (ca_critic_hash a) = jhash E (ca_critic_hash b)"
    "jhash E (ca_revision_hash a) = jhash E (ca_revision_hash b)"
    "ca_approved a = ca_approved b" "ca_curator_id a = ca_curator_id b"
    "ca_policy_version a = ca_policy_version b"
    "map (json_of_omission E) (ca_omission_approvals a) = map (json_of_omission E) (ca_omission_approvals b)"
    "map json_of_waiver (ca_minor_waivers a) = map json_of_waiver (ca_minor_waivers b)"
    unfolding json_of_approval_def by (auto dest!: jobj_inj)
  note lists = omission_ser.vec_inj [OF ass(1) _ _ eqs(9)] waiver_ser.vec_inj [OF ass(1) _ _ eqs(10)]
  from eqs lists ass(1) show "a = b" by (cases a; cases b) (simp add: jhash_inj)
qed

interpretation revision_ser: serialised json_of_revision revision_typed
proof
  show "json_ok (json_of_revision E t)" if "revision_typed t" for E t
    using that by (auto simp: json_of_revision_def revision_typed_def
        intro!: jobj_ok proposal_ser.ser_ok critic_ser.ser_ok approval_ser.ser_ok)
  fix E and r s :: approved_revision
  assume ass: "hex_lawful E" "revision_typed r" "revision_typed s" "json_of_revision E r = json_of_revision E s"
  from ass(4) have eqs: "json_of_proposal E (rv_proposal r) = json_of_proposal E (rv_proposal s)"
    "json_of_critic E (rv_critic r) = json_of_critic E (rv_critic s)"
    "json_of_approval E (rv_approval r) = json_of_approval E (rv_approval s)"
    unfolding json_of_revision_def by (auto dest!: jobj_inj)
  from ass(2,3) have "rv_proposal r = rv_proposal s" "rv_critic r = rv_critic s" "rv_approval r = rv_approval s"
    using proposal_ser.ser_inj [OF ass(1) _ _ eqs(1)] critic_ser.ser_inj [OF ass(1) _ _ eqs(2)]
      approval_ser.ser_inj [OF ass(1) _ _ eqs(3)]
    by (simp_all add: revision_typed_def)
  then show "r = s" by (rule approved_revision.equality) simp
qed

interpretation cluster_ser: serialised json_of_cluster "\<lambda>_. True"
proof
  show "json_ok (json_of_cluster E t)" for E t
    by (auto simp: json_of_cluster_def intro!: jobj_ok)
  fix E and c d :: taxonomy_cluster
  assume ass: "hex_lawful E" "json_of_cluster E c = json_of_cluster E d"
  from ass(2) have eqs: "cl_cluster_id c = cl_cluster_id d" "cl_title c = cl_title d"
    "cl_canonical_path c = cl_canonical_path d"
    "map (jid E ''doc'') (cl_document_ids c) = map (jid E ''doc'') (cl_document_ids d)"
    unfolding json_of_cluster_def by (auto dest!: jobj_inj)
  have "cl_document_ids c = cl_document_ids d"
    using eqs(4) by (rule map_eq_inj) (simp add: jid_inj [OF ass(1)])
  with eqs show "c = d" by (intro taxonomy_cluster.equality) simp_all
qed

text \<open>What an approval signs, and what a plan identifier identifies.\<close>

type_synonym signed_revision =
  "synthesis_proposal \<times> critic_report \<times> omission_approval list \<times> finding_waiver list"

definition json_of_signed :: "externs \<Rightarrow> signed_revision \<Rightarrow> json" where
  "json_of_signed E x = (case x of (p, c, omissions, waivers) \<Rightarrow> revision_identity E p c omissions waivers)"

interpretation signed_ser: serialised json_of_signed "\<lambda>(p, c, _, _). proposal_typed p \<and> critic_typed c"
proof
  show "json_ok (json_of_signed E x)" if "case x of (p, c, _, _) \<Rightarrow> proposal_typed p \<and> critic_typed c" for E x
    using that by (auto simp: json_of_signed_def revision_identity_def
        intro!: jobj_ok proposal_ser.ser_ok critic_ser.ser_ok omission_ser.ser_ok waiver_ser.ser_ok)
  fix E and x y :: signed_revision
  assume ass: "hex_lawful E" "case x of (p, c, _, _) \<Rightarrow> proposal_typed p \<and> critic_typed c"
    "case y of (p, c, _, _) \<Rightarrow> proposal_typed p \<and> critic_typed c" "json_of_signed E x = json_of_signed E y"
  obtain p c os ws where x: "x = (p, c, os, ws)" by (cases x)
  obtain p' c' os' ws' where y: "y = (p', c', os', ws')" by (cases y)
  from ass(4) x y have eqs: "json_of_proposal E p = json_of_proposal E p'"
    "json_of_critic E c = json_of_critic E c'" "map (json_of_omission E) os = map (json_of_omission E) os'"
    "map json_of_waiver ws = map json_of_waiver ws'"
    unfolding json_of_signed_def revision_identity_def by (auto dest!: jobj_inj)
  have "os = os'" by (rule omission_ser.vec_inj [OF ass(1) _ _ eqs(3)]) simp_all
  moreover have "ws = ws'" by (rule waiver_ser.vec_inj [OF ass(1) _ _ eqs(4)]) simp_all
  moreover have "p = p'"
    by (rule proposal_ser.ser_inj [OF ass(1) _ _ eqs(1)]) (use ass(2,3) x y in auto)
  moreover have "c = c'"
    by (rule critic_ser.ser_inj [OF ass(1) _ _ eqs(2)]) (use ass(2,3) x y in auto)
  ultimately show "x = y" using x y by simp
qed

interpretation taxonomy_ser: serialised "\<lambda>E (c, clusters, recording). taxonomy_identity E c clusters recording"
  "\<lambda>_. True"
proof
  show "json_ok (case x of (c, clusters, recording) \<Rightarrow> taxonomy_identity E c clusters recording)" for E x
    by (auto simp: taxonomy_identity_def intro!: jobj_ok cluster_ser.ser_ok split: prod.splits)
  fix E and x y :: "content_hash \<times> taxonomy_cluster list \<times> content_hash"
  assume ass: "hex_lawful E" "(case x of (c, clusters, recording) \<Rightarrow> taxonomy_identity E c clusters recording) =
    (case y of (c, clusters, recording) \<Rightarrow> taxonomy_identity E c clusters recording)"
  obtain c cs r where x: "x = (c, cs, r)" by (cases x)
  obtain c' cs' r' where y: "y = (c', cs', r')" by (cases y)
  from ass(2) x y have eqs: "jhash E c = jhash E c'" "jhash E r = jhash E r'"
    "map (json_of_cluster E) cs = map (json_of_cluster E) cs'"
    unfolding taxonomy_identity_def by (auto dest!: jobj_inj)
  have "cs = cs'" by (rule cluster_ser.vec_inj [OF ass(1) _ _ eqs(3)]) simp_all
  with eqs ass(1) x y show "x = y" by (simp add: jhash_inj)
qed

section \<open>Facts: every unit of the sources in its cluster\<close>

lemma plan_documents_distinct: "plan_ok E p \<Longrightarrow> distinct (map doc_document_id (co_documents (ip_corpus p)))"
  by (simp add: plan_ok_def corpus_valid_def strict_sorted_distinct)

lemma plan_cluster_unique:
  assumes "plan_ok E p" "c \<in> set (ta_clusters (ip_taxonomy p))" "c' \<in> set (ta_clusters (ip_taxonomy p))"
    "i \<in> set (cl_document_ids c)" "i \<in> set (cl_document_ids c')"
  shows "c = c'"
proof -
  let ?cs = "ta_clusters (ip_taxonomy p)"
  have dist: "distinct (concat (map cl_document_ids ?cs))"
    using assms(1) by (simp add: plan_ok_def taxonomy_valid_def Let_def members_of_def)
  obtain k k' where k: "k < length ?cs" "?cs ! k = c" "k' < length ?cs" "?cs ! k' = c'"
    using assms(2,3) by (metis in_set_conv_nth)
  with assms(4,5) have "k = k'" by (intro distinct_concat_nth_unique [OF dist]) auto
  with k show ?thesis by simp
qed

lemma plan_document_cluster:
  assumes "plan_ok E p" "d \<in> set (co_documents (ip_corpus p))"
  obtains c where "c \<in> set (ta_clusters (ip_taxonomy p))" "doc_document_id d \<in> set (cl_document_ids c)"
proof -
  from assms have "doc_document_id d \<in> set (members_of (ta_clusters (ip_taxonomy p)))"
    by (simp add: plan_ok_def taxonomy_valid_def Let_def)
  with that show ?thesis by (auto simp: members_of_def)
qed

text \<open>The cluster of a revision, and what the revision was checked against.\<close>

lemma plan_revision_cluster:
  assumes "plan_ok E p" "r \<in> set (ip_clusters p)"
  obtains c where "c \<in> set (ta_clusters (ip_taxonomy p))" "cl_cluster_id c = revision_key r"
    "revision_ok E (ip_corpus p) (ip_taxonomy p) c r (set (ip_provider_recording_hashes p))"
  using assms unfolding plan_ok_def by blast

lemma target_document: "t \<in> set (document_targets E d) \<Longrightarrow> dt_document_id t = doc_document_id d"
  by (auto simp: document_targets_def block_target_def metadata_target_def)

lemma revision_targets:
  assumes "plan_ok E p" and "revision_ok E (ip_corpus p) (ip_taxonomy p) c r R"
  shows "t \<in> sd_target ` set (sp_dispositions (rv_proposal r)) \<longleftrightarrow>
    (\<exists>d \<in> set (co_documents (ip_corpus p)). doc_document_id d \<in> set (cl_document_ids c) \<and>
      t \<in> set (document_targets E d))"
  using assms(2) expected_targets_set [OF plan_documents_distinct [OF assms(1)], of E c]
  by (auto simp: revision_ok_def dispositions_ok_def Let_def)

lemma genuine_in_cluster:
  assumes "plan_ok E p" and "genuine (cluster_documents (ip_corpus p) c) e"
  obtains d b where "d \<in> set (co_documents (ip_corpus p))" "doc_document_id d = ev_document_id e"
    "doc_document_id d \<in> set (cl_document_ids c)" "b \<in> set (doc_blocks d)"
    "sb_block_id b = ev_block_id e" "sb_content_hash b = ev_content_hash e"
    "ev_content_hash e = block_hash_of E (sb_text b)"
proof -
  from assms(2) obtain d b where d: "btree_get (cluster_documents (ip_corpus p) c) (ev_document_id e) = Some d"
    and b: "b \<in> set (doc_blocks d)" "sb_block_id b = ev_block_id e" "sb_content_hash b = ev_content_hash e"
    by (auto simp: genuine_def)
  from d have d': "d \<in> set (co_documents (ip_corpus p))" "doc_document_id d = ev_document_id e"
    "ev_document_id e \<in> set (cl_document_ids c)"
    by (simp_all add: cluster_documents_get [OF plan_documents_distinct [OF assms(1)]])
  with assms(1) b have "block_ok E b" by (simp add: plan_ok_def corpus_valid_def document_ok_def)
  with d' b that show ?thesis by (simp add: block_ok_def)
qed

section \<open>Properties\<close>

text \<open>
  C4: Nothing of the sources is lost or counted twice: in an accepted plan every block and every
  metadata value of every document has exactly one disposition, in exactly one cluster revision;
  and every disposition is about such a unit.
\<close>

theorem every_source_unit_has_one_disposition:
  assumes "validate_plan E p = Inr ()"
  shows "(\<forall>d \<in> set (co_documents (ip_corpus p)). \<forall>t \<in> set (document_targets E d).
      \<exists>!(r, s). r \<in> set (ip_clusters p) \<and> s \<in> set (sp_dispositions (rv_proposal r)) \<and> sd_target s = t) \<and>
    (\<forall>r \<in> set (ip_clusters p). \<forall>s \<in> set (sp_dispositions (rv_proposal r)).
      \<exists>d \<in> set (co_documents (ip_corpus p)). sd_target s \<in> set (document_targets E d))"
proof -
  from assms have ok: "plan_ok E p" by (simp add: validate_plan_iff)
  have "\<exists>!x. fst x \<in> set (ip_clusters p) \<and> snd x \<in> set (sp_dispositions (rv_proposal (fst x))) \<and> sd_target (snd x) = t"
    if d: "d \<in> set (co_documents (ip_corpus p))" and t: "t \<in> set (document_targets E d)" for d t
  proof -
    obtain c where c: "c \<in> set (ta_clusters (ip_taxonomy p))" "doc_document_id d \<in> set (cl_document_ids c)"
      using plan_document_cluster [OF ok d] .
    obtain r where r: "r \<in> set (ip_clusters p)" "revision_key r = cl_cluster_id c"
      and rok: "revision_ok E (ip_corpus p) (ip_taxonomy p) c r (set (ip_provider_recording_hashes p))"
      using plan_revision_of [OF ok c(1)] .
    have "t \<in> sd_target ` set (sp_dispositions (rv_proposal r))"
      unfolding revision_targets [OF ok rok] using d t c(2) by (intro bexI [of _ d] conjI)
    then obtain s where s: "s \<in> set (sp_dispositions (rv_proposal r))" "sd_target s = t" by auto
    have "r' = r \<and> s' = s" if r': "r' \<in> set (ip_clusters p)"
      and s': "s' \<in> set (sp_dispositions (rv_proposal r'))" "sd_target s' = t" for r' s'
    proof -
      obtain c' where c': "c' \<in> set (ta_clusters (ip_taxonomy p))" "cl_cluster_id c' = revision_key r'"
        and rok': "revision_ok E (ip_corpus p) (ip_taxonomy p) c' r' (set (ip_provider_recording_hashes p))"
        using plan_revision_cluster [OF ok r'] .
      from s' have "t \<in> sd_target ` set (sp_dispositions (rv_proposal r'))" by auto
      then obtain d' where "doc_document_id d' \<in> set (cl_document_ids c')" "t \<in> set (document_targets E d')"
        unfolding revision_targets [OF ok rok'] by auto
      then have "doc_document_id d \<in> set (cl_document_ids c')"
        using target_document [OF t] target_document [of t E d'] by simp
      with plan_cluster_unique [OF ok c'(1) c(1) _ c(2)] have "c' = c" by simp
      with c' r have "revision_key r' = revision_key r" by simp
      moreover have "distinct (map revision_key (ip_clusters p))" using ok by (simp add: plan_ok_def)
      ultimately have rr: "r' = r" using r(1) r' by (metis distinct_map_eq)
      from rok have "distinct (map sd_target (sp_dispositions (rv_proposal r)))"
        by (simp add: revision_ok_def dispositions_ok_def Let_def)
      from distinct_map_eq [OF this, of s' s] s s' rr show ?thesis by simp
    qed
    note unique = this
    show ?thesis
    proof (rule ex1I [of _ "(r, s)"])
      fix x assume "fst x \<in> set (ip_clusters p) \<and> snd x \<in> set (sp_dispositions (rv_proposal (fst x))) \<and>
        sd_target (snd x) = t"
      with unique [of "fst x" "snd x"] show "x = (r, s)" by (simp add: prod_eq_iff)
    qed (simp add: r s)
  qed
  moreover have "\<exists>d \<in> set (co_documents (ip_corpus p)). sd_target s \<in> set (document_targets E d)"
    if r: "r \<in> set (ip_clusters p)" and s: "s \<in> set (sp_dispositions (rv_proposal r))" for r s
  proof -
    obtain c where rok: "revision_ok E (ip_corpus p) (ip_taxonomy p) c r (set (ip_provider_recording_hashes p))"
      using plan_revision_cluster [OF ok r] .
    from s have "sd_target s \<in> sd_target ` set (sp_dispositions (rv_proposal r))" by simp
    then show ?thesis unfolding revision_targets [OF ok rok] by auto
  qed
  ultimately show ?thesis by (simp only: case_prod_beta') blast
qed

text \<open>
  C5: No silent omission. In an accepted plan a unit marked integrated is, when it is a block,
  cited by a section or a contradiction claim of its revision; a unit is dropped only when its
  revision proposes so with a reason and the approval carries exactly one curator decision about
  it, with a curator and a reason; and no omission is approved that was not proposed.
\<close>

theorem no_silent_omission:
  assumes "hex_lawful E" and "validate_plan E p = Inr ()"
    and "r \<in> set (ip_clusters p)" and "s \<in> set (sp_dispositions (rv_proposal r))"
  shows "case sd_disposition s of
      Integrated \<Rightarrow> \<forall>d b. sd_target s = block_target E d b \<longrightarrow>
        (\<exists>e \<in> set (cited_evidence (rv_proposal r)). ev_document_id e = d \<and> ev_block_id e = sb_block_id b)
    | PreservedVerbatim \<Rightarrow> sd_target s \<notin> oa_target ` set (ca_omission_approvals (rv_approval r))
    | OmissionProposed \<Rightarrow> sd_rationale s \<notin> {None, Some ''''} \<and>
        (\<exists>!a. a \<in> set (ca_omission_approvals (rv_approval r)) \<and> oa_target a = sd_target s \<and>
          oa_curator_id a \<noteq> '''' \<and> oa_rationale a \<noteq> '''')"
proof -
  from assms have ok: "plan_ok E p" by (simp add: validate_plan_iff)
  obtain c where "revision_ok E (ip_corpus p) (ip_taxonomy p) c r (set (ip_provider_recording_hashes p))"
    using plan_revision_cluster [OF ok assms(3)] .
  then have disp: "dispositions_ok E (cluster_documents (ip_corpus p) c) (rv_proposal r) (rv_approval r)"
    by (simp add: revision_ok_def Let_def)
  then have dist: "distinct (map sd_target (sp_dispositions (rv_proposal r)))"
    and adist: "distinct (map oa_target (ca_omission_approvals (rv_approval r)))"
    and omitted: "oa_target ` set (ca_omission_approvals (rv_approval r)) =
      sd_target ` {d \<in> set (sp_dispositions (rv_proposal r)). sd_disposition d = OmissionProposed}"
    and texts: "\<forall>x \<in> set (ca_omission_approvals (rv_approval r)).
      bounded (oa_curator_id x) 1 256 \<and> bounded (oa_rationale x) 1 4096"
    and reason: "\<forall>d \<in> set (sp_dispositions (rv_proposal r)). sd_disposition d = OmissionProposed \<longrightarrow>
      (\<exists>t. sd_rationale d = Some t \<and> bounded t 1 4096)"
    and cited: "\<forall>d \<in> set (sp_dispositions (rv_proposal r)).
      dt_kind (sd_target d) = BlockTarget \<and> sd_disposition d = Integrated \<longrightarrow>
        (\<exists>e \<in> set (cited_evidence (rv_proposal r)). ev_document_id e = dt_document_id (sd_target d) \<and>
           display_id E ''block'' (ev_block_id e) = dt_target_id (sd_target d))"
    by (simp_all add: dispositions_ok_def)
  show ?thesis
  proof (cases "sd_disposition s")
    case Integrated
    have "\<exists>e \<in> set (cited_evidence (rv_proposal r)). ev_document_id e = d \<and> ev_block_id e = sb_block_id b"
      if "sd_target s = block_target E d b" for d b
    proof -
      from that cited assms(4) Integrated obtain e where "e \<in> set (cited_evidence (rv_proposal r))"
        "ev_document_id e = d" "display_id E ''block'' (ev_block_id e) = display_id E ''block'' (sb_block_id b)"
        by (fastforce simp: block_target_def)
      moreover from this(3) have "jid E ''block'' (ev_block_id e) = jid E ''block'' (sb_block_id b)"
        by (simp add: jid_def)
      ultimately show ?thesis using assms(1) by (auto simp: jid_inj)
    qed
    with Integrated show ?thesis by simp
  next
    case PreservedVerbatim
    have "sd_target s \<notin> oa_target ` set (ca_omission_approvals (rv_approval r))"
    proof
      assume "sd_target s \<in> oa_target ` set (ca_omission_approvals (rv_approval r))"
      then obtain d where "d \<in> set (sp_dispositions (rv_proposal r))" "sd_disposition d = OmissionProposed"
        "sd_target d = sd_target s" unfolding omitted by auto
      moreover from distinct_map_eq [OF dist this(1) assms(4) this(3)] have "d = s" .
      ultimately show False using PreservedVerbatim by simp
    qed
    with PreservedVerbatim show ?thesis by simp
  next
    case OmissionProposed
    with assms(4) have "sd_target s \<in> oa_target ` set (ca_omission_approvals (rv_approval r))"
      unfolding omitted by simp
    then obtain a where a: "a \<in> set (ca_omission_approvals (rv_approval r))" "oa_target a = sd_target s" by auto
    have "oa_curator_id a \<noteq> ''''" "oa_rationale a \<noteq> ''''" using texts a(1) by (auto simp: bounded_def)
    moreover have "x = a" if "x \<in> set (ca_omission_approvals (rv_approval r))" "oa_target x = sd_target s" for x
      by (rule distinct_map_eq [OF adist that(1) a(1)]) (simp add: that a)
    ultimately have "\<exists>!a. a \<in> set (ca_omission_approvals (rv_approval r)) \<and> oa_target a = sd_target s \<and>
          oa_curator_id a \<noteq> '''' \<and> oa_rationale a \<noteq> ''''"
      using a by (intro ex1I [of _ a]) blast+
    moreover have "sd_rationale s \<notin> {None, Some ''''}"
      using reason assms(4) OmissionProposed by (auto simp: bounded_def)
    ultimately show ?thesis using OmissionProposed by simp
  qed
qed

text \<open>All the evidence a revision carries.\<close>

definition all_evidence :: "approved_revision \<Rightarrow> section_evidence list" where
  "all_evidence r = cited_evidence (rv_proposal r)
     @ concat (map rl_evidence (sp_related_links (rv_proposal r)))
     @ concat (map cf_evidence (cr_findings (rv_critic r)))"

lemma all_evidence_genuine:
  assumes "revision_ok E corpus taxonomy c r R" and "e \<in> set (all_evidence r)"
  shows "genuine (cluster_documents corpus c) e"
proof -
  let ?D = "cluster_documents corpus c"
  from assms(1) have "\<forall>s \<in> set (sp_sections (rv_proposal r)). section_ok ?D s"
    and "\<forall>l \<in> set (sp_related_links (rv_proposal r)). evidence_ok ?D (rl_evidence l)"
    and "\<forall>x \<in> set (sp_contradictions (rv_proposal r)). contradiction_ok ?D x"
    and "\<forall>f \<in> set (cr_findings (rv_critic r)). finding_ok ?D f"
    by (simp_all add: revision_ok_def critic_ok_def Let_def)
  then have "\<forall>s \<in> set (sp_sections (rv_proposal r)). \<forall>e \<in> set (ss_evidence s). genuine ?D e"
    and "\<forall>l \<in> set (sp_related_links (rv_proposal r)). \<forall>e \<in> set (rl_evidence l). genuine ?D e"
    and "\<forall>x \<in> set (sp_contradictions (rv_proposal r)). \<forall>y \<in> set (cs_claims x). \<forall>e \<in> set (cc_evidence y). genuine ?D e"
    and "\<forall>f \<in> set (cr_findings (rv_critic r)). \<forall>e \<in> set (cf_evidence f). genuine ?D e"
    by (simp_all add: section_ok_def contradiction_ok_def claim_ok_def finding_ok_def evidence_ok_def)
  with assms(2) show ?thesis by (auto simp: all_evidence_def cited_evidence_def)
qed

text \<open>
  C6: Every piece of evidence in an accepted plan, in sections, links, contradiction claims and
  critic findings alike, is genuine: it names a block that exists in a document of the very
  cluster the revision is about, with the hash of that block's present text.
\<close>

theorem evidence_is_genuine:
  assumes "validate_plan E p = Inr ()" and "r \<in> set (ip_clusters p)" and "e \<in> set (all_evidence r)"
  shows "\<exists>c \<in> set (ta_clusters (ip_taxonomy p)). \<exists>d \<in> set (co_documents (ip_corpus p)).
    \<exists>b \<in> set (doc_blocks d). cl_cluster_id c = sp_cluster_id (rv_proposal r) \<and>
      doc_document_id d = ev_document_id e \<and> ev_document_id e \<in> set (cl_document_ids c) \<and>
      sb_block_id b = ev_block_id e \<and> ev_content_hash e = block_hash_of E (sb_text b)"
proof -
  from assms have ok: "plan_ok E p" by (simp add: validate_plan_iff)
  obtain c where c: "c \<in> set (ta_clusters (ip_taxonomy p))" "cl_cluster_id c = revision_key r"
    "revision_ok E (ip_corpus p) (ip_taxonomy p) c r (set (ip_provider_recording_hashes p))"
    using plan_revision_cluster [OF ok assms(2)] .
  obtain d b where d: "d \<in> set (co_documents (ip_corpus p))" "doc_document_id d = ev_document_id e"
    "doc_document_id d \<in> set (cl_document_ids c)" "b \<in> set (doc_blocks d)"
    "sb_block_id b = ev_block_id e" "ev_content_hash e = block_hash_of E (sb_text b)"
    using genuine_in_cluster [OF ok all_evidence_genuine [OF c(3) assms(3)]] .
  show ?thesis
    by (intro bexI [OF _ c(1)] bexI [OF _ d(1)] bexI [OF _ d(4)]) (use c(2) d in \<open>simp add: revision_key_def\<close>)
qed

text \<open>
  C7: The gate on criticism: in an accepted plan no major or critical finding is left, every
  finding has exactly one waiver with a named curator and a reason, and no waiver is about
  anything else; the report and the approval are about this very proposal.
\<close>

theorem no_unresolved_criticism:
  assumes "validate_plan E p = Inr ()" and "r \<in> set (ip_clusters p)"
  shows "(\<forall>f \<in> set (cr_findings (rv_critic r)). cf_severity f = Minor \<and>
        (\<exists>!w. w \<in> set (ca_minor_waivers (rv_approval r)) \<and> fw_finding_id w = cf_finding_id f \<and>
          fw_curator_id w \<noteq> '''' \<and> fw_rationale w \<noteq> '''')) \<and>
    length (ca_minor_waivers (rv_approval r)) = length (cr_findings (rv_critic r)) \<and>
    cr_proposal_hash (rv_critic r) = proposal_hash_of E (rv_proposal r) \<and>
    ca_approved (rv_approval r) \<and> ca_critic_hash (rv_approval r) = critic_hash_of E (rv_critic r)"
proof -
  from assms have ok: "plan_ok E p" by (simp add: validate_plan_iff)
  obtain c where rok: "revision_ok E (ip_corpus p) (ip_taxonomy p) c r (set (ip_provider_recording_hashes p))"
    using plan_revision_cluster [OF ok assms(2)] .
  let ?w = "ca_minor_waivers (rv_approval r)" and ?f = "cr_findings (rv_critic r)"
  from rok have crit: "critic_ok E (rv_proposal r) (rv_critic r) (cluster_documents (ip_corpus p) c) (rv_approval r)"
    and appr: "approval_ok E (rv_proposal r) (rv_critic r) (rv_approval r)"
    and ph: "sp_proposal_hash (rv_proposal r) = proposal_hash_of E (rv_proposal r)"
    by (simp_all add: revision_ok_def Let_def)
  from crit have wd: "distinct (map fw_finding_id ?w)" and fd: "distinct (map cf_finding_id ?f)"
    and eq: "fw_finding_id ` set ?w = cf_finding_id ` set ?f"
    and texts: "\<forall>w \<in> set ?w. bounded (fw_curator_id w) 1 256 \<and> bounded (fw_rationale w) 1 4096"
    and minor: "\<forall>f \<in> set ?f. cf_severity f = Minor"
    by (simp_all add: critic_ok_def finding_ok_def)
  have "\<exists>!w. w \<in> set ?w \<and> fw_finding_id w = cf_finding_id f \<and> fw_curator_id w \<noteq> '''' \<and> fw_rationale w \<noteq> ''''"
    if "f \<in> set ?f" for f
  proof -
    from that eq have "cf_finding_id f \<in> fw_finding_id ` set ?w" by simp
    then obtain w where w: "w \<in> set ?w" "fw_finding_id w = cf_finding_id f" by auto
    have "fw_curator_id w \<noteq> ''''" "fw_rationale w \<noteq> ''''" using texts w(1) by (auto simp: bounded_def)
    moreover have "x = w" if "x \<in> set ?w" "fw_finding_id x = cf_finding_id f" for x
      by (rule distinct_map_eq [OF wd that(1) w(1)]) (simp add: that w)
    ultimately show ?thesis using w by (intro ex1I [of _ w]) blast+
  qed
  moreover have "length ?w = length ?f"
    using distinct_card [OF wd] distinct_card [OF fd] eq by simp
  ultimately show ?thesis using minor crit appr ph by (simp add: critic_ok_def approval_ok_def)
qed

text \<open>The text whose hash an approval signs.\<close>

definition signed_text :: "externs \<Rightarrow> approved_revision \<Rightarrow> bytes" where
  "signed_text E r = canonical_preimage E (domain ''okc:cluster-revision:v3'')
     (revision_identity E (rv_proposal r) (rv_critic r)
       (ca_omission_approvals (rv_approval r)) (ca_minor_waivers (rv_approval r)))"

text \<open>
  C8: An approval cannot be carried over to other content: two accepted revisions, of any plans,
  that carry the same revision hash have the same proposal, the same critic report and the same
  decisions, unless the two texts that were signed are a SHA-256 collision.
\<close>

theorem approval_binds_content:
  assumes "json_faithful E" and "hex_lawful E"
    and "validate_plan E p = Inr ()" and "r \<in> set (ip_clusters p)" and "revision_typed r"
    and "validate_plan E q = Inr ()" and "s \<in> set (ip_clusters q)" and "revision_typed s"
    and "ca_revision_hash (rv_approval r) = ca_revision_hash (rv_approval s)"
  shows "(rv_proposal r = rv_proposal s \<and> rv_critic r = rv_critic s \<and>
      ca_omission_approvals (rv_approval r) = ca_omission_approvals (rv_approval s) \<and>
      ca_minor_waivers (rv_approval r) = ca_minor_waivers (rv_approval s)) \<or>
    collides_on E (signed_text E r) (signed_text E s)"
proof -
  let ?sig = "\<lambda>r. (rv_proposal r, rv_critic r, ca_omission_approvals (rv_approval r), ca_minor_waivers (rv_approval r))"
  have hash: "ca_revision_hash (rv_approval r) =
      canonical_hash E (domain ''okc:cluster-revision:v3'') (json_of_signed E (?sig r))"
    if v: "validate_plan E p = Inr ()" and m: "r \<in> set (ip_clusters p)" for p r
  proof -
    from v have ok: "plan_ok E p" by (simp add: validate_plan_iff)
    obtain c where "revision_ok E (ip_corpus p) (ip_taxonomy p) c r (set (ip_provider_recording_hashes p))"
      using plan_revision_cluster [OF ok m] .
    then show ?thesis
      by (simp add: revision_ok_def approval_ok_def Let_def cluster_revision_hash_def json_of_signed_def)
  qed
  from assms(9) have "canonical_hash E (domain ''okc:cluster-revision:v3'') (json_of_signed E (?sig r)) =
      canonical_hash E (domain ''okc:cluster-revision:v3'') (json_of_signed E (?sig s))"
    by (simp only: hash [OF assms(3,4)] hash [OF assms(6,7)])
  from signed_ser.hash_binding [OF assms(1,2) _ _ this] assms(5,8)
  have "?sig r = ?sig s \<or> collides_on E
      (canonical_preimage E (domain ''okc:cluster-revision:v3'') (json_of_signed E (?sig r)))
      (canonical_preimage E (domain ''okc:cluster-revision:v3'') (json_of_signed E (?sig s)))"
    by (simp add: revision_typed_def)
  then show ?thesis by (elim disjE) (simp_all add: signed_text_def json_of_signed_def)
qed

text \<open>The input of a plan identifier.\<close>

type_synonym plan_payload =
  "content_hash \<times> content_hash \<times> content_hash \<times> approval_binding \<times> approved_revision list \<times> content_hash list"

definition payload_of :: "integration_plan \<Rightarrow> plan_payload" where
  "payload_of p = (co_corpus_hash (ip_corpus p), co_policy_hash (ip_corpus p),
     ta_taxonomy_hash (ip_taxonomy p), ip_taxonomy_approval p, ip_clusters p, ip_provider_recording_hashes p)"

definition json_of_payload :: "externs \<Rightarrow> plan_payload \<Rightarrow> json" where
  "json_of_payload E x = (case x of (corpus, policy, taxonomy, approval, clusters, recordings) \<Rightarrow> jobj
     [(''corpus_hash'', jhash E corpus), (''policy_hash'', jhash E policy),
      (''taxonomy_hash'', jhash E taxonomy), (''taxonomy_approval'', json_of_binding E approval),
      (''clusters'', JArr (map (json_of_revision E) clusters)),
      (''provider_recording_hashes'', JArr (map (jhash E) recordings))])"

interpretation payload_ser: serialised json_of_payload "\<lambda>(_, _, _, _, rs, _). \<forall>r \<in> set rs. revision_typed r"
proof
  show "json_ok (json_of_payload E x)" if "case x of (_, _, _, _, rs, _) \<Rightarrow> \<forall>r \<in> set rs. revision_typed r" for E x
    using that by (auto simp: json_of_payload_def
        intro!: jobj_ok binding_ser.ser_ok revision_ser.ser_ok)
  fix E and x y :: plan_payload
  assume ass: "hex_lawful E" "case x of (_, _, _, _, rs, _) \<Rightarrow> \<forall>r \<in> set rs. revision_typed r"
    "case y of (_, _, _, _, rs, _) \<Rightarrow> \<forall>r \<in> set rs. revision_typed r" "json_of_payload E x = json_of_payload E y"
  obtain a b c d rs hs where x: "x = (a, b, c, d, rs, hs)" by (cases x)
  obtain a' b' c' d' rs' hs' where y: "y = (a', b', c', d', rs', hs')" by (cases y)
  from ass(4) x y have eqs: "jhash E a = jhash E a'" "jhash E b = jhash E b'" "jhash E c = jhash E c'"
    "json_of_binding E d = json_of_binding E d'" "map (json_of_revision E) rs = map (json_of_revision E) rs'"
    "map (jhash E) hs = map (jhash E) hs'"
    unfolding json_of_payload_def by (auto dest!: jobj_inj)
  have "rs = rs'" by (rule revision_ser.vec_inj [OF ass(1) _ _ eqs(5)]) (use ass x y in auto)
  moreover have "hs = hs'" using eqs(6) by (rule map_eq_inj) (simp add: jhash_inj [OF ass(1)])
  moreover have "d = d'" by (rule binding_ser.ser_inj [OF ass(1) _ _ eqs(4)]) simp_all
  ultimately show "x = y" using eqs ass(1) x y by (simp add: jhash_inj)
qed

definition plan_typed :: "integration_plan \<Rightarrow> bool" where
  "plan_typed p \<longleftrightarrow> (\<forall>r \<in> set (ip_clusters p). revision_typed r) \<and>
     (\<forall>d \<in> set (co_documents (ip_corpus p)). document_typed d)"

type_synonym taxonomy_payload = "content_hash \<times> taxonomy_cluster list \<times> content_hash"

definition taxonomy_payload :: "taxonomy_proposal \<Rightarrow> taxonomy_payload" where
  "taxonomy_payload t = (ta_corpus_hash t, ta_clusters t, ta_organizer_recording_hash t)"

lemma plan_header:
  assumes "plan_ok E p"
  shows "ip_format_family p = ''okc''" "ip_schema_version p = 3"
    "co_schema_version (ip_corpus p) = 3" "ta_schema_version (ip_taxonomy p) = 3"
    "co_corpus_hash (ip_corpus p) = corpus_hash_of E (co_documents (ip_corpus p))"
    "ta_taxonomy_hash (ip_taxonomy p) = canonical_hash E (domain ''okc:taxonomy:v3'')
       ((\<lambda>(c, clusters, recording). taxonomy_identity E c clusters recording) (taxonomy_payload (ip_taxonomy p)))"
    "ip_integration_plan_id p = ''integration_'' @ hash_hex E
      (canonical_hash E (domain ''okc:integration-plan:v3'') (json_of_payload E (payload_of p)))"
  using assms
  by (simp_all add: plan_ok_def corpus_valid_def taxonomy_valid_def Let_def taxonomy_hash_of_def
      plan_id_of_def plan_identity_def json_of_payload_def payload_of_def taxonomy_payload_def)

text \<open>The three texts a plan's identifier rests on.\<close>

definition plan_text :: "externs \<Rightarrow> integration_plan \<Rightarrow> bytes" where
  "plan_text E p = canonical_preimage E (domain ''okc:integration-plan:v3'') (json_of_payload E (payload_of p))"

definition corpus_text :: "externs \<Rightarrow> integration_plan \<Rightarrow> bytes" where
  "corpus_text E p = canonical_preimage E (domain ''okc:integration-corpus:v3'')
     (JArr (map (json_of_document E) (co_documents (ip_corpus p))))"

definition taxonomy_text :: "externs \<Rightarrow> integration_plan \<Rightarrow> bytes" where
  "taxonomy_text E p = canonical_preimage E (domain ''okc:taxonomy:v3'')
     ((\<lambda>(c, clusters, recording). taxonomy_identity E c clusters recording) (taxonomy_payload (ip_taxonomy p)))"

text \<open>
  C9: The identifier of an accepted plan identifies it: two accepted plans with the same
  identifier are the same plan in every field (corpus, taxonomy, approvals, revisions,
  recordings), unless the texts behind the identifiers, the corpus hashes or the taxonomy hashes of the two
  plans are a SHA-256 collision.
\<close>

theorem plan_id_identifies_plan:
  assumes "json_faithful E" and "hex_lawful E" and "plan_typed p" and "plan_typed q"
    and "validate_plan E p = Inr ()" and "validate_plan E q = Inr ()"
    and "ip_integration_plan_id p = ip_integration_plan_id q"
  shows "p = q \<or> collides_on E (plan_text E p) (plan_text E q) \<or>
    collides_on E (corpus_text E p) (corpus_text E q) \<or> collides_on E (taxonomy_text E p) (taxonomy_text E q)"
proof (rule disjCI)
  assume free: "\<not> (collides_on E (plan_text E p) (plan_text E q) \<or>
    collides_on E (corpus_text E p) (corpus_text E q) \<or> collides_on E (taxonomy_text E p) (taxonomy_text E q))"
  from assms have ok: "plan_ok E p" "plan_ok E q" by (simp_all add: validate_plan_iff)
  have "hash_hex E (canonical_hash E (domain ''okc:integration-plan:v3'') (json_of_payload E (payload_of p))) =
      hash_hex E (canonical_hash E (domain ''okc:integration-plan:v3'') (json_of_payload E (payload_of q)))"
    using assms(7) unfolding plan_header(7) [OF ok(1)] plan_header(7) [OF ok(2)] by simp
  then have "canonical_hash E (domain ''okc:integration-plan:v3'') (json_of_payload E (payload_of p)) =
      canonical_hash E (domain ''okc:integration-plan:v3'') (json_of_payload E (payload_of q))"
    by (simp add: hash_hex_inj [OF assms(2)])
  from payload_ser.hash_binding [OF assms(1,2) _ _ this] free assms(3,4)
  have payload: "payload_of p = payload_of q" by (auto simp: payload_of_def plan_typed_def plan_text_def)
  then have "corpus_hash_of E (co_documents (ip_corpus p)) = corpus_hash_of E (co_documents (ip_corpus q))"
    by (simp add: payload_of_def plan_header(5) [OF ok(1), symmetric] plan_header(5) [OF ok(2), symmetric])
  then have docs: "co_documents (ip_corpus p) = co_documents (ip_corpus q)"
    using documents_ser.hash_binding [OF assms(1,2)] assms(3,4) free
    unfolding corpus_hash_of_def plan_typed_def corpus_text_def by blast
  have "canonical_hash E (domain ''okc:taxonomy:v3'')
        ((\<lambda>(c, clusters, recording). taxonomy_identity E c clusters recording) (taxonomy_payload (ip_taxonomy p))) =
      canonical_hash E (domain ''okc:taxonomy:v3'')
        ((\<lambda>(c, clusters, recording). taxonomy_identity E c clusters recording) (taxonomy_payload (ip_taxonomy q)))"
    using payload unfolding plan_header(6) [OF ok(1), symmetric] plan_header(6) [OF ok(2), symmetric]
    by (simp add: payload_of_def)
  from taxonomy_ser.hash_binding [OF assms(1,2) _ _ this] free
  have tax: "taxonomy_payload (ip_taxonomy p) = taxonomy_payload (ip_taxonomy q)"
    unfolding taxonomy_text_def by blast
  have "ip_corpus p = ip_corpus q"
    using payload docs plan_header(3) [OF ok(1)] plan_header(3) [OF ok(2)]
    by (intro integration_corpus.equality) (simp_all add: payload_of_def)
  moreover have "ip_taxonomy p = ip_taxonomy q"
    using payload tax plan_header(4) [OF ok(1)] plan_header(4) [OF ok(2)]
    by (intro taxonomy_proposal.equality) (simp_all add: payload_of_def taxonomy_payload_def)
  ultimately show "p = q"
    using payload assms(7) plan_header(1,2) [OF ok(1)] plan_header(1,2) [OF ok(2)]
    by (intro integration_plan.equality) (simp_all add: payload_of_def)
qed

lemma dedup_sorted_strict:
  fixes k :: "'a \<Rightarrow> 'b::linorder"
  assumes "inj k"
  shows "sorted (map k xs) \<Longrightarrow> sorted_wrt (<) (map k (remdups_adj xs))"
proof (induction xs rule: remdups_adj.induct)
  case (3 x y xs)
  show ?case
  proof (cases "x = y")
    case False
    with assms have "k x \<noteq> k y" by (auto dest: injD)
    with 3 False show ?thesis by fastforce
  qed (use 3 in simp)
qed auto

text \<open>
  \<open>ApprovedIntegrationPlan::seal\<close> only ever returns a plan that \<open>validate\<close> accepts, with its
  revisions in the order of the taxonomy's clusters and its recordings strictly ordered by their
  text, and the result does not depend on the order of the revisions or on the order and
  repetition of the recording hashes it is given.
\<close>

lemma seal_plan_canonical:
  assumes "hex_lawful E" and "seal_plan E corpus taxonomy approval clusters recordings = Inr p"
  shows "validate_plan E p = Inr () \<and>
    map revision_key (ip_clusters p) = map cl_cluster_id (ta_clusters taxonomy) \<and>
    sorted_wrt (<) (map (hash_hex E) (ip_provider_recording_hashes p)) \<and>
    (mset clusters' = mset clusters \<and> set recordings' = set recordings \<longrightarrow>
      seal_plan E corpus taxonomy approval clusters' recordings' = Inr p)"
proof -
  let ?sort = "sort_key (\<lambda>r. sp_cluster_id (rv_proposal r))"
  let ?dedup = "\<lambda>hs. remdups_adj (sort_key (hash_hex E) hs)"
  from assms(2) have valid: "validate_plan E p = Inr ()"
    and p: "ip_clusters p = ?sort clusters" "ip_provider_recording_hashes p = ?dedup recordings"
      "ip_taxonomy p = taxonomy"
    by (auto simp: seal_plan_def Let_def)
  then have ok: "plan_ok E p" by (simp add: validate_plan_iff)
  have hashes: "sorted_wrt (<) (map (hash_hex E) (?dedup hs))" for hs
  proof -
    have inj: "inj (hash_hex E)" by (rule injI) (simp add: hash_hex_inj [OF assms(1)])
    show ?thesis by (rule dedup_sorted_strict [OF inj]) simp
  qed
  have keys: "sorted_wrt (<) (map revision_key (ip_clusters p))"
    using ok p(1) by (simp add: strict_sorted_iff plan_ok_def revision_key_def [abs_def])
  have "map revision_key (ip_clusters p) = map cl_cluster_id (ta_clusters taxonomy)"
    using keys plan_revision_keys [OF ok] ok p(3)
    by (intro strict_sorted_unique) (simp_all add: plan_ok_def taxonomy_valid_def Let_def)
  moreover have "seal_plan E corpus taxonomy approval clusters' recordings' = Inr p"
    if perm: "mset clusters' = mset clusters" "set recordings' = set recordings"
  proof -
    have "?sort clusters = ?sort clusters'"
    proof (rule strict_key_unique [where k = revision_key])
      show "sorted_wrt (<) (map revision_key (?sort clusters))" using keys by (simp add: p)
      show "sorted (map revision_key (?sort clusters'))" by (simp add: revision_key_def [abs_def])
    qed (simp add: perm)
    moreover have "?dedup recordings = ?dedup recordings'"
    proof -
      have "map (hash_hex E) (?dedup recordings) = map (hash_hex E) (?dedup recordings')"
        by (rule strict_sorted_unique [OF hashes hashes]) (simp add: perm)
      then show ?thesis by (rule map_eq_inj) (simp add: hash_hex_inj [OF assms(1)])
    qed
    ultimately have "seal_plan E corpus taxonomy approval clusters' recordings' =
        seal_plan E corpus taxonomy approval clusters recordings" by (simp only: seal_plan_def)
    with assms(2) show ?thesis by simp
  qed
  ultimately show ?thesis using valid hashes p(2) by simp
qed

end
