(* ===== verification/Materialize.thy ===== *)
theory Materialize
  imports Approval
begin

text \<open>
  From an approved plan to bytes: \<open>materialized_files\<close>, the renderers, the provenance lines and
  the inventory of \<open>crates/okc-core/src/integration.rs\<close>. All of it is a function of the plan; the
  file system enters in \<open>Publish\<close>.
\<close>

section \<open>Rendering\<close>

definition nl :: string where
  "nl = [CHR 0x0A]"

definition yaml_scalar :: "externs \<Rightarrow> string \<Rightarrow> string" where
  "yaml_scalar E v = json_vec E (JStr v)"

fun link_kind_name :: "related_link_kind \<Rightarrow> string" where
  "link_kind_name Prerequisite = ''Prerequisite''"
| "link_kind_name Related = ''Related''"
| "link_kind_name Contrasts = ''Contrasts''"
| "link_kind_name Supersedes = ''Supersedes''"

text \<open>\<open>filter_map\<close> with \<open>find\<close> over the identifiers of the cluster.\<close>

definition note_documents :: "integration_plan \<Rightarrow> taxonomy_cluster \<Rightarrow> integration_document list" where
  "note_documents plan c = List.map_filter
     (\<lambda>i. List.find (\<lambda>d. doc_document_id d = i) (co_documents (ip_corpus plan))) (cl_document_ids c)"

definition disposition_by_target ::
  "approved_revision \<Rightarrow> (document_id \<times> string, disposition_kind) btree" where
  "disposition_by_target r = btree_collect (map
     (\<lambda>i. ((dt_document_id (sd_target i), dt_target_id (sd_target i)), sd_disposition i))
     (sp_dispositions (rv_proposal r)))"

definition retained_metadata ::
  "externs \<Rightarrow> (document_id \<times> string, disposition_kind) btree \<Rightarrow> integration_document list \<Rightarrow> json list" where
  "retained_metadata E dispositions documents = concat (map (\<lambda>d. List.map_filter (\<lambda>m.
       case btree_get dispositions (doc_document_id d, mv_metadata_id m) of
         None \<Rightarrow> None
       | Some k \<Rightarrow> if k = OmissionProposed then None
           else Some (jobj [(''document_id'', jid E ''doc'' (doc_document_id d)), (''key'', JStr (mv_key m)),
             (''value_index'', jnat (mv_value_index m)), (''value'', mv_value m),
             (''disposition'', json_of_disposition_kind k)])) (doc_metadata d)) documents)"

definition preserved_blocks ::
  "externs \<Rightarrow> (document_id \<times> string, disposition_kind) btree \<Rightarrow> integration_document list \<Rightarrow>
     (document_id \<times> source_block) list" where
  "preserved_blocks E dispositions documents = concat (map (\<lambda>d. map (Pair (doc_document_id d))
     (filter (\<lambda>b. btree_get dispositions (doc_document_id d, display_id E ''block'' (sb_block_id b))
        = Some PreservedVerbatim) (doc_blocks d))) documents)"

definition render_section :: "synthesis_section \<Rightarrow> string" where
  "render_section s = nl @ ''## '' @ ss_heading s @ '' {#'' @ ss_section_id s @ ''}'' @ nl @ nl
     @ trim_end (ss_markdown_body s) @ nl"

definition render_preserved :: "externs \<Rightarrow> document_id \<times> source_block \<Rightarrow> string" where
  "render_preserved E x = (case x of (d, b) \<Rightarrow>
     nl @ ''<!-- okc-source: '' @ display_id E ''doc'' d @ '' '' @ display_id E ''block'' (sb_block_id b)
     @ '' -->'' @ nl @ nl @ trim_end (sb_text b) @ nl)"

definition render_claim :: "contradiction_claim \<Rightarrow> string" where
  "render_claim c = nl @ ''- **'' @ cc_context c @ '':** '' @ cc_rendered_claim c
     @ (case cc_observed_at c of None \<Rightarrow> [] | Some t \<Rightarrow> '' (`'' @ t @ ''`)'') @ nl"

definition render_contradiction :: "contradiction_set \<Rightarrow> string" where
  "render_contradiction c = nl @ ''### '' @ cs_summary c @ nl @ concat (map render_claim (cs_claims c))"

definition render_link :: "(string, taxonomy_cluster) btree \<Rightarrow> related_link \<Rightarrow> string res" where
  "render_link by_id l = (case btree_get by_id (rl_target_cluster_id l) of
     None \<Rightarrow> Inl Internal
   | Some target \<Rightarrow> Inr (nl @ ''- '' @ link_kind_name (rl_kind l) @ '': [[knowledge/''
       @ cl_canonical_path target @ ''|'' @ cl_title target @ '']]'' @ nl))"

definition clusters_by_id :: "integration_plan \<Rightarrow> (string, taxonomy_cluster) btree" where
  "clusters_by_id plan = btree_collect (map (\<lambda>c. (cl_cluster_id c, c)) (ta_clusters (ip_taxonomy plan)))"

definition render_head ::
  "externs \<Rightarrow> integration_plan \<Rightarrow> taxonomy_cluster \<Rightarrow> approved_revision \<Rightarrow> string" where
  "render_head E plan cluster r =
     (let retained = retained_metadata E (disposition_by_target r) (note_documents plan cluster)
      in ''---'' @ nl @ ''okc_generated: true'' @ nl @ ''okc_schema: 3'' @ nl
         @ ''okc_cluster_id: '' @ yaml_scalar E (cl_cluster_id cluster) @ nl
         @ ''okc_integration_plan: '' @ yaml_scalar E (ip_integration_plan_id plan) @ nl
         @ (if retained = [] then []
            else ''okc_retained_metadata: '' @ json_vec E (JArr retained) @ nl)
         @ ''---'' @ nl @ nl @ ''# '' @ cl_title cluster @ nl)"

definition render_canonical_note ::
  "externs \<Rightarrow> integration_plan \<Rightarrow> taxonomy_cluster \<Rightarrow> approved_revision \<Rightarrow> bytes res" where
  "render_canonical_note E plan cluster r =
     (let p = rv_proposal r;
          preserved = preserved_blocks E (disposition_by_target r) (note_documents plan cluster);
          body = render_head E plan cluster r
            @ concat (map render_section (sp_sections p))
            @ (if preserved = [] then []
               else nl @ ''## Preserved source material'' @ nl @ concat (map (render_preserved E) preserved))
            @ (if sp_contradictions p = [] then []
               else nl @ ''## Contradictions'' @ nl @ concat (map render_contradiction (sp_contradictions p)))
      in if sp_related_links p = [] then Inr body
         else bind_res (try_map (render_link (clusters_by_id plan)) (sp_related_links p))
           (\<lambda>links. Inr (body @ nl @ ''## Related'' @ nl @ concat links)))"

definition render_legacy_stub ::
  "externs \<Rightarrow> integration_plan \<Rightarrow> integration_document \<Rightarrow> string \<Rightarrow> string" where
  "render_legacy_stub E plan d canonical =
     ''---'' @ nl @ ''okc_redirect: true'' @ nl @ ''okc_schema: 3'' @ nl
     @ ''okc_source_document: '' @ yaml_scalar E (display_id E ''doc'' (doc_document_id d)) @ nl
     @ ''okc_integration_plan: '' @ yaml_scalar E (ip_integration_plan_id plan) @ nl @ ''---'' @ nl @ nl
     @ ''This source note was integrated into [[''
     @ (case strip_suffix ''.md'' canonical of None \<Rightarrow> canonical | Some s \<Rightarrow> s) @ '']].'' @ nl"

section \<open>The files\<close>

type_synonym files = "(string \<times> bytes) list"
type_synonym note_state = "files \<times> (document_id, string) btree"

definition note_step ::
  "externs \<Rightarrow> integration_plan \<Rightarrow> note_state \<Rightarrow> approved_revision \<Rightarrow> note_state res" where
  "note_step E plan st r = (case st of (files, target_paths) \<Rightarrow>
     case btree_get (clusters_by_id plan) (sp_cluster_id (rv_proposal r)) of
       None \<Rightarrow> Inl Panicked
     | Some cluster \<Rightarrow>
         and_then (validate_relative_path E (knowledge_path cluster))
           (bind_res (render_canonical_note E plan cluster r)
             (\<lambda>body. Inr (files @ [(knowledge_path cluster, body)],
                foldl (\<lambda>m d. btree_insert d (knowledge_path cluster) m) target_paths
                  (cl_document_ids cluster)))))"

definition stub_of ::
  "externs \<Rightarrow> integration_plan \<Rightarrow> (document_id, string) btree \<Rightarrow> integration_document \<Rightarrow> (string \<times> bytes) res" where
  "stub_of E plan target_paths d =
     (case btree_get target_paths (doc_document_id d) of
        None \<Rightarrow> Inl Internal
      | Some canonical \<Rightarrow> and_then (validate_relative_path E (legacy_path d))
          (Inr (legacy_path d, render_legacy_stub E plan d canonical)))"

definition materialized_files :: "externs \<Rightarrow> integration_plan \<Rightarrow> files res" where
  "materialized_files E plan =
     bind_res (try_fold (note_step E plan) ([], []) (ip_clusters plan)) (\<lambda>(notes, target_paths).
     bind_res (try_map (stub_of E plan target_paths) (co_documents (ip_corpus plan))) (\<lambda>stubs.
       let files = sort_key fst (notes @ stubs) in
       if list_ex (\<lambda>(a, b). fst a = fst b) (adjacent files)
       then Inl (UnsafePath ''materialized output'') else Inr files))"

section \<open>Provenance\<close>

record provenance_record =
  pr_schema_version :: nat
  pr_record_id :: string
  pr_kind :: string
  pr_output_path :: string
  pr_output_hash :: content_hash
  pr_integration_plan_id :: string
  pr_cluster_id :: "string option"
  pr_proposal_hash :: "content_hash option"
  pr_critic_hash :: "content_hash option"
  pr_approval_hash :: "content_hash option"
  pr_evidence :: "section_evidence list"
  pr_source_document :: "document_id option"

definition json_of_record :: "externs \<Rightarrow> provenance_record \<Rightarrow> json" where
  "json_of_record E r = jobj [(''schema_version'', jnat (pr_schema_version r)),
     (''record_id'', JStr (pr_record_id r)), (''kind'', JStr (pr_kind r)),
     (''output_path'', JStr (pr_output_path r)), (''output_hash'', jhash E (pr_output_hash r)),
     (''integration_plan_id'', JStr (pr_integration_plan_id r)),
     (''cluster_id'', jopt JStr (pr_cluster_id r)),
     (''proposal_hash'', jopt (jhash E) (pr_proposal_hash r)),
     (''critic_hash'', jopt (jhash E) (pr_critic_hash r)),
     (''approval_hash'', jopt (jhash E) (pr_approval_hash r)),
     (''evidence'', json_of_evidences E (pr_evidence r)),
     (''source_document'', jopt (jid E ''doc'') (pr_source_document r))]"

definition provenance_identity ::
  "externs \<Rightarrow> string \<Rightarrow> content_hash \<Rightarrow> string \<Rightarrow> string \<Rightarrow> json" where
  "provenance_identity E path h plan_id kind = jobj [(''output_path'', JStr path),
     (''output_hash'', jhash E h), (''integration_plan_id'', JStr plan_id), (''kind'', JStr kind)]"

definition output_hash :: "externs \<Rightarrow> bytes \<Rightarrow> content_hash" where
  "output_hash E b = from_domain_bytes E (domain ''okc:output:v3'') b"

definition revisions_by_id :: "integration_plan \<Rightarrow> (string, approved_revision) btree" where
  "revisions_by_id plan = btree_collect (map (\<lambda>r. (sp_cluster_id (rv_proposal r), r)) (ip_clusters plan))"

definition block_evidence :: "integration_document \<Rightarrow> section_evidence list" where
  "block_evidence d = map (\<lambda>b. Evidence (doc_document_id d) (sb_block_id b) (sb_content_hash b)) (doc_blocks d)"

definition make_record ::
  "externs \<Rightarrow> integration_plan \<Rightarrow> string \<Rightarrow> bytes \<Rightarrow> string \<Rightarrow> string \<Rightarrow> approved_revision \<Rightarrow>
     section_evidence list \<Rightarrow> document_id option \<Rightarrow> provenance_record" where
  "make_record E plan path b kind cluster_id r evidence source = \<lparr>
     pr_schema_version = integration_schema_version,
     pr_record_id = ''record_'' @ hash_hex E (canonical_hash E (domain ''okc:provenance:v3'')
       (provenance_identity E path (output_hash E b) (ip_integration_plan_id plan) kind)),
     pr_kind = kind, pr_output_path = path, pr_output_hash = output_hash E b,
     pr_integration_plan_id = ip_integration_plan_id plan, pr_cluster_id = Some cluster_id,
     pr_proposal_hash = Some (sp_proposal_hash (rv_proposal r)),
     pr_critic_hash = Some (cr_critic_hash (rv_critic r)),
     pr_approval_hash = Some (ca_revision_hash (rv_approval r)),
     pr_evidence = evidence, pr_source_document = source\<rparr>"

definition provenance_of :: "externs \<Rightarrow> integration_plan \<Rightarrow> string \<times> bytes \<Rightarrow> provenance_record res" where
  "provenance_of E plan file = (case file of (path, b) \<Rightarrow>
     let clusters = ta_clusters (ip_taxonomy plan);
         cluster_by_path = btree_collect (map (\<lambda>c. (knowledge_path c, c)) clusters);
         source_by_path = btree_collect (map (\<lambda>d. (legacy_path d, d)) (co_documents (ip_corpus plan)))
     in case btree_get cluster_by_path path of
          Some cluster \<Rightarrow>
            (case btree_get (revisions_by_id plan) (cl_cluster_id cluster) of
               None \<Rightarrow> Inl Panicked
             | Some r \<Rightarrow> Inr (make_record E plan path b ''canonical_note'' (cl_cluster_id cluster) r
                 (sorted_list_of_set (set (cited_evidence (rv_proposal r)))) None))
        | None \<Rightarrow>
            (case btree_get source_by_path path of
               None \<Rightarrow> Inl Internal
             | Some d \<Rightarrow>
                 (case List.find (\<lambda>c. doc_document_id d \<in> set (cl_document_ids c)) clusters of
                    None \<Rightarrow> Inl Internal
                  | Some cluster \<Rightarrow>
                      (case btree_get (revisions_by_id plan) (cl_cluster_id cluster) of
                         None \<Rightarrow> Inl Panicked
                       | Some r \<Rightarrow> Inr (make_record E plan path b ''legacy_redirect'' (cl_cluster_id cluster) r
                           (block_evidence d) (Some (doc_document_id d)))))))"

definition provenance_line :: "externs \<Rightarrow> provenance_record \<Rightarrow> bytes" where
  "provenance_line E r = to_canonical_json E (json_of_record E r) @ nl"

definition provenance_jsonl :: "externs \<Rightarrow> integration_plan \<Rightarrow> files \<Rightarrow> bytes res" where
  "provenance_jsonl E plan files = bind_res (try_map (provenance_of E plan) files)
     (\<lambda>records. Inr (concat (map (provenance_line E) records)))"

section \<open>Manifest and inventory\<close>

record manifest_file =
  mf_path :: string
  mf_byte_len :: nat
  mf_raw_sha256 :: string
  mf_content_hash :: content_hash

record compiled_vault_manifest =
  cm_format_family :: string
  cm_schema_version :: nat
  cm_product_version :: string
  cm_integration_plan_id :: string
  cm_corpus_hash :: content_hash
  cm_taxonomy_hash :: content_hash
  cm_pack_profile :: string
  cm_files :: "manifest_file list"

definition json_of_manifest_file :: "externs \<Rightarrow> manifest_file \<Rightarrow> json" where
  "json_of_manifest_file E f = jobj [(''path'', JStr (mf_path f)), (''byte_len'', jnat (mf_byte_len f)),
     (''raw_sha256'', JStr (mf_raw_sha256 f)), (''content_hash'', jhash E (mf_content_hash f))]"

definition json_of_manifest :: "externs \<Rightarrow> compiled_vault_manifest \<Rightarrow> json" where
  "json_of_manifest E m = jobj [(''format_family'', JStr (cm_format_family m)),
     (''schema_version'', jnat (cm_schema_version m)), (''product_version'', JStr (cm_product_version m)),
     (''integration_plan_id'', JStr (cm_integration_plan_id m)),
     (''corpus_hash'', jhash E (cm_corpus_hash m)), (''taxonomy_hash'', jhash E (cm_taxonomy_hash m)),
     (''pack_profile'', JStr (cm_pack_profile m)),
     (''files'', JArr (map (json_of_manifest_file E) (cm_files m)))]"

definition product_version :: string where
  "product_version = ''0.3.0''"

definition pack_profile :: string where
  "pack_profile = ''okc-tar-zstd-deterministic-v3''"

definition manifest_file_of :: "externs \<Rightarrow> string \<times> bytes \<Rightarrow> manifest_file" where
  "manifest_file_of E file = (case file of (path, b) \<Rightarrow>
     \<lparr>mf_path = path, mf_byte_len = length b, mf_raw_sha256 = hex_encode E (sha256 E b),
      mf_content_hash = from_domain_bytes E (domain ''okc:content:v3'') b\<rparr>)"

definition inventory_from_bytes :: "externs \<Rightarrow> files \<Rightarrow> manifest_file list" where
  "inventory_from_bytes E files = sort_key mf_path (map (manifest_file_of E) files)"

definition checksum_text :: "manifest_file list \<Rightarrow> string" where
  "checksum_text files = concat (map (\<lambda>f. mf_raw_sha256 f @ ''  '' @ mf_path f @ nl) files)"

definition manifest_of :: "integration_plan \<Rightarrow> manifest_file list \<Rightarrow> compiled_vault_manifest" where
  "manifest_of plan files = \<lparr>cm_format_family = ''okc'', cm_schema_version = integration_schema_version,
     cm_product_version = product_version, cm_integration_plan_id = ip_integration_plan_id plan,
     cm_corpus_hash = co_corpus_hash (ip_corpus plan),
     cm_taxonomy_hash = ta_taxonomy_hash (ip_taxonomy plan), cm_pack_profile = pack_profile,
     cm_files = files\<rparr>"

section \<open>Facts: materialisation of an accepted plan\<close>

lemma plan_cluster_ids: "plan_ok E p \<Longrightarrow> distinct (map cl_cluster_id (ta_clusters (ip_taxonomy p)))"
  by (simp add: plan_ok_def taxonomy_valid_def Let_def strict_sorted_distinct)

lemma plan_clusters_get:
  "plan_ok E p \<Longrightarrow> btree_get (clusters_by_id p) k = Some c \<longleftrightarrow>
     c \<in> set (ta_clusters (ip_taxonomy p)) \<and> cl_cluster_id c = k"
  by (simp add: clusters_by_id_def clusters_by_id_get plan_cluster_ids)

definition cluster_of :: "integration_plan \<Rightarrow> approved_revision \<Rightarrow> taxonomy_cluster" where
  "cluster_of p r = the (btree_get (clusters_by_id p) (revision_key r))"

lemma cluster_of_get:
  assumes "plan_ok E p" and "r \<in> set (ip_clusters p)"
  shows "btree_get (clusters_by_id p) (revision_key r) = Some (cluster_of p r)"
    "cluster_of p r \<in> set (ta_clusters (ip_taxonomy p))" "cl_cluster_id (cluster_of p r) = revision_key r"
    "revision_ok E (ip_corpus p) (ip_taxonomy p) (cluster_of p r) r (set (ip_provider_recording_hashes p))"
proof -
  obtain c where c: "c \<in> set (ta_clusters (ip_taxonomy p))" "cl_cluster_id c = revision_key r"
    "revision_ok E (ip_corpus p) (ip_taxonomy p) c r (set (ip_provider_recording_hashes p))"
    using plan_revision_cluster [OF assms] .
  then have get: "btree_get (clusters_by_id p) (revision_key r) = Some c"
    by (simp add: plan_clusters_get [OF assms(1)])
  then have "cluster_of p r = c" by (simp add: cluster_of_def)
  with c get show "btree_get (clusters_by_id p) (revision_key r) = Some (cluster_of p r)"
    "cluster_of p r \<in> set (ta_clusters (ip_taxonomy p))" "cl_cluster_id (cluster_of p r) = revision_key r"
    "revision_ok E (ip_corpus p) (ip_taxonomy p) (cluster_of p r) r (set (ip_provider_recording_hashes p))"
    by simp_all
qed

text \<open>The revisions are in one-to-one correspondence with the clusters.\<close>

lemma cluster_of_permutes:
  assumes ok: "plan_ok E p"
  shows "mset (map (cluster_of p) (ip_clusters p)) = mset (ta_clusters (ip_taxonomy p))"
proof -
  let ?cs = "ta_clusters (ip_taxonomy p)"
  have keys: "map cl_cluster_id (map (cluster_of p) (ip_clusters p)) = map revision_key (ip_clusters p)"
    using cluster_of_get(3) [OF ok] by simp
  have "distinct (map revision_key (ip_clusters p))" using ok by (simp add: plan_ok_def)
  with keys have "distinct (map cl_cluster_id (map (cluster_of p) (ip_clusters p)))" by (simp only:)
  then have dist: "distinct (map (cluster_of p) (ip_clusters p))" by (rule distinct_map [THEN iffD1, THEN conjunct1])
  have "distinct ?cs" using plan_cluster_ids [OF ok] by (rule distinct_map [THEN iffD1, THEN conjunct1])
  moreover have "set (map (cluster_of p) (ip_clusters p)) = set ?cs"
  proof
    show "set (map (cluster_of p) (ip_clusters p)) \<subseteq> set ?cs" using cluster_of_get(2) [OF ok] by auto
    show "set ?cs \<subseteq> set (map (cluster_of p) (ip_clusters p))"
    proof
      fix c assume c: "c \<in> set ?cs"
      obtain r where r: "r \<in> set (ip_clusters p)" "revision_key r = cl_cluster_id c"
        using plan_revision_of [OF ok c] .
      have "cluster_of p r = c"
        by (rule distinct_map_eq [OF plan_cluster_ids [OF ok] cluster_of_get(2) [OF ok r(1)] c])
          (simp add: cluster_of_get(3) [OF ok r(1)] r(2))
      with r show "c \<in> set (map (cluster_of p) (ip_clusters p))" by force
    qed
  qed
  ultimately show ?thesis using dist by (metis set_eq_iff_mset_eq_distinct)
qed

lemma render_note_succeeds:
  assumes ok: "plan_ok E p" and r: "r \<in> set (ip_clusters p)"
  shows "\<exists>body. render_canonical_note E p c r = Inr body"
proof -
  have "\<exists>s. render_link (clusters_by_id p) l = Inr s" if l: "l \<in> set (sp_related_links (rv_proposal r))" for l
  proof -
    from cluster_of_get(4) [OF ok r] l
    have "rl_target_cluster_id l \<in> cl_cluster_id ` set (ta_clusters (ip_taxonomy p))"
      by (simp add: revision_ok_def Let_def)
    then obtain t where "btree_get (clusters_by_id p) (rl_target_cluster_id l) = Some t"
      by (auto simp: plan_clusters_get [OF ok])
    then show ?thesis by (simp add: render_link_def)
  qed
  then obtain g where "\<And>l. l \<in> set (sp_related_links (rv_proposal r)) \<Longrightarrow> render_link (clusters_by_id p) l = Inr (g l)"
    by metis
  then have "try_map (render_link (clusters_by_id p)) (sp_related_links (rv_proposal r)) =
      Inr (map g (sp_related_links (rv_proposal r)))" by (rule try_map_total)
  then show ?thesis by (simp add: render_canonical_note_def Let_def)
qed

definition note_of :: "externs \<Rightarrow> integration_plan \<Rightarrow> approved_revision \<Rightarrow> string \<times> bytes" where
  "note_of E p r = (knowledge_path (cluster_of p r),
     (case render_canonical_note E p (cluster_of p r) r of Inr body \<Rightarrow> body | Inl _ \<Rightarrow> []))"

lemma btree_get_fold_const:
  "btree_ok m \<Longrightarrow> btree_ok (foldl (\<lambda>m d. btree_insert d v m) m ds) \<and>
     btree_get (foldl (\<lambda>m d. btree_insert d v m) m ds) k = (if k \<in> set ds then Some v else btree_get m k)"
  by (induction ds arbitrary: m) (auto simp: btree_insert_ok)

lemma note_loop:
  assumes ok: "plan_ok E p"
  shows "\<exists>m. try_fold (note_step E p) ([], []) (ip_clusters p) = Inr (map (note_of E p) (ip_clusters p), m) \<and>
    (\<forall>c \<in> set (ta_clusters (ip_taxonomy p)). \<forall>d \<in> set (cl_document_ids c).
       btree_get m d = Some (knowledge_path c))"
proof -
  let ?P = "\<lambda>ys st. fst st = map (note_of E p) ys \<and> btree_ok (snd st) \<and>
      (\<forall>r \<in> set ys. \<forall>d \<in> set (cl_document_ids (cluster_of p r)).
        btree_get (snd st) d = Some (knowledge_path (cluster_of p r)))"
  have "\<exists>st. try_fold (note_step E p) ([], []) (ip_clusters p) = Inr st \<and> ?P (ip_clusters p) st"
  proof (rule try_fold_succeeds)
    show "?P [] ([], [])" by (simp add: btree_ok_def)
    fix ys r zs and st :: note_state
    assume split: "ip_clusters p = ys @ r # zs" and P: "?P ys st"
    have r: "r \<in> set (ip_clusters p)" by (simp add: split)
    let ?c = "cluster_of p r"
    obtain fs m where st: "st = (fs, m)" by (cases st)
    note get = cluster_of_get [OF ok r]
    obtain body where body: "render_canonical_note E p ?c r = Inr body"
      using render_note_succeeds [OF ok r] by blast
    have path: "validate_relative_path E (knowledge_path ?c) = Inr ()"
      using ok get(2) by (simp add: validate_relative_iff plan_ok_def taxonomy_valid_def Let_def)
    let ?m = "foldl (\<lambda>m d. btree_insert d (knowledge_path ?c) m) m (cl_document_ids ?c)"
    have step: "note_step E p st r = Inr (fs @ [note_of E p r], ?m)"
      using get(1) body path by (simp add: note_step_def st note_of_def revision_key_def)
    have okm: "btree_ok m" using P st by simp
    have old: "knowledge_path ?c = knowledge_path (cluster_of p s)"
      if "d \<in> set (cl_document_ids ?c)" "d \<in> set (cl_document_ids (cluster_of p s))" "s \<in> set ys" for d s
      using plan_cluster_unique [OF ok cluster_of_get(2) [OF ok] get(2) that(2,1)] split that(3) by simp
    have "?P (ys @ [r]) (fs @ [note_of E p r], ?m)"
      using P st btree_get_fold_const [OF okm, where v = "knowledge_path ?c" and ds = "cl_document_ids ?c"]
      by (auto intro: old)
    with step show "\<exists>st'. note_step E p st r = Inr st' \<and> ?P (ys @ [r]) st'" by blast
  qed
  then obtain fs m where run: "try_fold (note_step E p) ([], []) (ip_clusters p) = Inr (fs, m)"
    and P: "?P (ip_clusters p) (fs, m)" by auto
  have "\<forall>c \<in> set (ta_clusters (ip_taxonomy p)). \<forall>d \<in> set (cl_document_ids c). btree_get m d = Some (knowledge_path c)"
  proof
    fix c assume "c \<in> set (ta_clusters (ip_taxonomy p))"
    then have "c \<in> set (map (cluster_of p) (ip_clusters p))"
      using mset_eq_setD [OF cluster_of_permutes [OF ok]] by simp
    with P show "\<forall>d \<in> set (cl_document_ids c). btree_get m d = Some (knowledge_path c)" by auto
  qed
  with run P show ?thesis by auto
qed

text \<open>The path of the cluster a document belongs to.\<close>

definition home_cluster :: "integration_plan \<Rightarrow> integration_document \<Rightarrow> taxonomy_cluster" where
  "home_cluster p d = the (List.find (\<lambda>c. doc_document_id d \<in> set (cl_document_ids c)) (ta_clusters (ip_taxonomy p)))"

lemma home_cluster_find:
  assumes ok: "plan_ok E p" and d: "d \<in> set (co_documents (ip_corpus p))"
  shows "List.find (\<lambda>c. doc_document_id d \<in> set (cl_document_ids c)) (ta_clusters (ip_taxonomy p)) =
      Some (home_cluster p d)"
    "home_cluster p d \<in> set (ta_clusters (ip_taxonomy p))"
    "doc_document_id d \<in> set (cl_document_ids (home_cluster p d))"
proof -
  obtain c where "c \<in> set (ta_clusters (ip_taxonomy p))" "doc_document_id d \<in> set (cl_document_ids c)"
    using plan_document_cluster [OF ok d] .
  then have "List.find (\<lambda>c. doc_document_id d \<in> set (cl_document_ids c)) (ta_clusters (ip_taxonomy p)) \<noteq> None"
    by (auto simp: find_None_iff)
  then show find: "List.find (\<lambda>c. doc_document_id d \<in> set (cl_document_ids c)) (ta_clusters (ip_taxonomy p)) =
      Some (home_cluster p d)" by (auto simp: home_cluster_def)
  then show "home_cluster p d \<in> set (ta_clusters (ip_taxonomy p))"
    "doc_document_id d \<in> set (cl_document_ids (home_cluster p d))"
    by (auto simp: find_Some_iff)
qed

definition stub_file :: "externs \<Rightarrow> integration_plan \<Rightarrow> integration_document \<Rightarrow> string \<times> bytes" where
  "stub_file E p d = (legacy_path d, render_legacy_stub E p d (knowledge_path (home_cluster p d)))"

definition output_files :: "externs \<Rightarrow> integration_plan \<Rightarrow> files" where
  "output_files E p = sort_key fst (map (note_of E p) (ip_clusters p) @ map (stub_file E p) (co_documents (ip_corpus p)))"

lemma output_files_paths:
  assumes ok: "plan_ok E p"
  shows "set (map fst (output_files E p)) = knowledge_path ` set (ta_clusters (ip_taxonomy p))
      \<union> legacy_path ` set (co_documents (ip_corpus p))"
    and "sorted_wrt (<) (map fst (output_files E p))"
proof -
  let ?cs = "ta_clusters (ip_taxonomy p)" and ?ds = "co_documents (ip_corpus p)"
  let ?fs = "map (note_of E p) (ip_clusters p) @ map (stub_file E p) ?ds"
  have fst: "map fst ?fs = map knowledge_path (map (cluster_of p) (ip_clusters p)) @ map legacy_path ?ds"
    by (simp add: note_of_def stub_file_def)
  have "mset (map knowledge_path (map (cluster_of p) (ip_clusters p))) = mset (map knowledge_path ?cs)"
    using cluster_of_permutes [OF ok] by (simp only: mset_map)
  then have perm: "mset (map fst ?fs) = mset (map knowledge_path ?cs @ map legacy_path ?ds)"
    unfolding fst by simp
  have sortd: "mset (map fst (output_files E p)) = mset (map fst ?fs)"
    unfolding output_files_def mset_map mset_sort ..
  show "set (map fst (output_files E p)) = knowledge_path ` set ?cs \<union> legacy_path ` set ?ds"
    using mset_eq_setD [OF sortd] mset_eq_setD [OF perm] by simp
  have "no_portable_collision E (map knowledge_path ?cs)" "no_portable_collision E (map legacy_path ?ds)"
    using ok by (simp_all add: plan_ok_def taxonomy_valid_def corpus_valid_def Let_def)
  then have "distinct (map knowledge_path ?cs)" "distinct (map legacy_path ?ds)"
    by (simp_all only: no_portable_collision_def)
  moreover have "knowledge_path c \<noteq> legacy_path d" for c d
    by (simp add: knowledge_path_def legacy_path_def)
  ultimately have "distinct (map knowledge_path ?cs @ map legacy_path ?ds)" by auto
  then have "distinct (map fst ?fs)" using perm mset_eq_imp_distinct_iff by metis
  then have "distinct (map fst (output_files E p))" using sortd mset_eq_imp_distinct_iff by metis
  moreover have "sorted (map fst (output_files E p))" by (simp add: output_files_def)
  ultimately show "sorted_wrt (<) (map fst (output_files E p))" by (simp add: strict_sorted_iff)
qed

lemma materialized_output_files:
  assumes ok: "plan_ok E p"
  shows "materialized_files E p = Inr (output_files E p)"
proof -
  let ?ds = "co_documents (ip_corpus p)"
  obtain m where run: "try_fold (note_step E p) ([], []) (ip_clusters p) = Inr (map (note_of E p) (ip_clusters p), m)"
    and targets: "\<forall>c \<in> set (ta_clusters (ip_taxonomy p)). \<forall>d \<in> set (cl_document_ids c).
       btree_get m d = Some (knowledge_path c)"
    using note_loop [OF ok] by blast
  have "try_map (stub_of E p m) ?ds = Inr (map (stub_file E p) ?ds)"
  proof (rule try_map_total)
    fix d assume d: "d \<in> set ?ds"
    note home = home_cluster_find [OF ok d]
    have "btree_get m (doc_document_id d) = Some (knowledge_path (home_cluster p d))"
      using targets home(2,3) by simp
    moreover have "validate_relative_path E (legacy_path d) = Inr ()"
      using ok d by (simp add: validate_relative_iff plan_ok_def corpus_valid_def)
    ultimately show "stub_of E p m d = Inr (stub_file E p d)" by (simp add: stub_of_def stub_file_def)
  qed
  moreover have "\<not> list_ex (\<lambda>(a, b). fst a = fst b) (adjacent (output_files E p))"
  proof -
    have "(fst a, fst b) \<in> set (adjacent (map fst fs))" if "(a, b) \<in> set (adjacent fs)"
      for a b :: "string \<times> bytes" and fs
      using that by (induction fs rule: induct_list012) auto
    then show ?thesis
      using output_files_paths(2) [OF ok] adjacent_strict [of "map fst (output_files E p)"]
      by (fastforce simp: list_ex_iff)
  qed
  ultimately show ?thesis
    using run by (simp add: materialized_files_def output_files_def Let_def)
qed

text \<open>
  The renderer looks dispositions up by document and identifier only. That is enough: block and
  metadata identifiers start differently, and each is unique in its document.
\<close>

definition target_key :: "disposition_target \<Rightarrow> document_id \<times> string" where
  "target_key t = (dt_document_id t, dt_target_id t)"

lemma document_target_cases:
  assumes "t \<in> set (document_targets E d)"
  obtains b where "b \<in> set (doc_blocks d)" "t = block_target E (doc_document_id d) b"
  | m where "m \<in> set (doc_metadata d)" "t = metadata_target (doc_document_id d) m"
  using assms by (auto simp: document_targets_def)

lemma metadata_ok_id: "metadata_ok E d m \<Longrightarrow> \<exists>s. mv_metadata_id m = ''metadata_'' @ s"
  by (cases m) (auto simp: metadata_ok_def new_metadata_def Let_def)

lemma target_key_inj:
  assumes "hex_lawful E" and d: "document_ok E d"
    and "t \<in> set (document_targets E d)" and "t' \<in> set (document_targets E d)" and "target_key t = target_key t'"
  shows "t = t'"
proof -
  have blocks: "distinct (map sb_block_id (doc_blocks d))" and metas: "distinct (map mv_metadata_id (doc_metadata d))"
    and mok: "\<forall>m \<in> set (doc_metadata d). metadata_ok E (doc_document_id d) m"
    using d by (simp_all add: document_ok_def strict_sorted_distinct)
  have ids: "sb_block_id b = sb_block_id b'"
    if "display_id E ''block'' (sb_block_id b) = display_id E ''block'' (sb_block_id b')" for b b'
  proof -
    from that have "jid E ''block'' (sb_block_id b) = jid E ''block'' (sb_block_id b')" by (simp add: jid_def)
    then show ?thesis by (simp add: jid_inj [OF assms(1)])
  qed
  have mixed: "display_id E ''block'' i \<noteq> mv_metadata_id m" if "m \<in> set (doc_metadata d)"
    for m and i :: block_id
    using metadata_ok_id mok that by (fastforce simp: display_id_def)
  show ?thesis
    using assms(3)
  proof (cases rule: document_target_cases)
    case (1 b)
    note b = this
    show ?thesis
      using assms(4)
    proof (cases rule: document_target_cases)
      case (1 b')
      with b assms(5) have "sb_block_id b = sb_block_id b'"
        by (intro ids) (simp add: target_key_def block_target_def)
      with distinct_map_eq [OF blocks b(1) 1(1)] b 1 show ?thesis by simp
    next
      case (2 m)
      with b assms(5) mixed [OF 2(1)] show ?thesis
        by (simp add: target_key_def block_target_def metadata_target_def)
    qed
  next
    case (2 m)
    note m = this
    show ?thesis
      using assms(4)
    proof (cases rule: document_target_cases)
      case (1 b)
      with m assms(5) mixed [OF m(1), of "sb_block_id b"] show ?thesis
        by (simp add: target_key_def block_target_def metadata_target_def)
    next
      case (2 m')
      with m assms(5) have "mv_metadata_id m = mv_metadata_id m'"
        by (simp add: target_key_def metadata_target_def)
      with distinct_map_eq [OF metas m(1) 2(1)] m 2 show ?thesis by simp
    qed
  qed
qed

lemma disposition_lookup:
  assumes "hex_lawful E" and ok: "plan_ok E p" and r: "r \<in> set (ip_clusters p)"
    and s: "s \<in> set (sp_dispositions (rv_proposal r))"
  shows "btree_get (disposition_by_target r) (target_key (sd_target s)) = Some (sd_disposition s)"
proof -
  let ?ds = "sp_dispositions (rv_proposal r)"
  note rok = cluster_of_get(4) [OF ok r]
  have dist: "distinct (map sd_target ?ds)"
    using rok by (simp add: revision_ok_def dispositions_ok_def Let_def)
  have inj: "x = y" if x: "x \<in> set ?ds" and y: "y \<in> set ?ds"
    and eq: "target_key (sd_target x) = target_key (sd_target y)" for x y
  proof -
    from x have "sd_target x \<in> sd_target ` set ?ds" by simp
    then obtain d where d: "d \<in> set (co_documents (ip_corpus p))" "sd_target x \<in> set (document_targets E d)"
      unfolding revision_targets [OF ok rok] by auto
    from y have "sd_target y \<in> sd_target ` set ?ds" by simp
    then obtain d' where d': "d' \<in> set (co_documents (ip_corpus p))" "sd_target y \<in> set (document_targets E d')"
      unfolding revision_targets [OF ok rok] by auto
    have "doc_document_id d = doc_document_id d'"
      using eq target_document [OF d(2)] target_document [OF d'(2)] by (simp add: target_key_def)
    from distinct_map_eq [OF plan_documents_distinct [OF ok] d(1) d'(1) this] have "d' = d" by simp
    moreover have "document_ok E d" using ok d(1) by (simp add: plan_ok_def corpus_valid_def)
    ultimately have "sd_target x = sd_target y" using target_key_inj [OF assms(1) _ d(2)] d'(2) eq by simp
    with distinct_map_eq [OF dist x y] show "x = y" .
  qed
  have "distinct (map (\<lambda>i. target_key (sd_target i)) ?ds)"
    using inj distinct_map [THEN iffD1, OF dist] by (auto simp: distinct_map intro: inj_onI)
  then have "btree_get (disposition_by_target r) (target_key (sd_target s)) = Some (sd_disposition s) \<longleftrightarrow>
      (target_key (sd_target s), sd_disposition s) \<in>
        set (map (\<lambda>i. (target_key (sd_target i), sd_disposition i)) ?ds)"
    unfolding disposition_by_target_def target_key_def
    by (intro btree_collect_facts(3)) (simp add: o_def)
  with s show ?thesis by auto
qed

lemma note_documents_set:
  assumes ok: "plan_ok E p" and d: "d \<in> set (co_documents (ip_corpus p))" "doc_document_id d \<in> set (cl_document_ids c)"
  shows "d \<in> set (note_documents p c)"
proof -
  let ?f = "\<lambda>i. List.find (\<lambda>d. doc_document_id d = i) (co_documents (ip_corpus p))"
  have "?f (doc_document_id d) \<noteq> None" using d(1) by (auto simp: find_None_iff)
  then obtain d' where d': "?f (doc_document_id d) = Some d'" by auto
  then have "d' \<in> set (co_documents (ip_corpus p))" "doc_document_id d' = doc_document_id d"
    by (auto simp: find_Some_iff)
  from distinct_map_eq [OF plan_documents_distinct [OF ok] this(1) d(1) this(2)] d'
  have "?f (doc_document_id d) = Some d" by simp
  with d(2) show ?thesis
    unfolding note_documents_def List.map_filter_def by force
qed

lemma sublist_concat: "x \<in> set xs \<Longrightarrow> sublist x (concat xs)"
  by (metis concat.simps(2) concat_append split_list sublist_appendI)

lemma sublist_inside: "sublist x b \<Longrightarrow> sublist x (a @ b @ c)"
  by (metis sublist_appendI sublist_order.order.trans)

definition note_text :: "externs \<Rightarrow> integration_plan \<Rightarrow> approved_revision \<Rightarrow> bytes" where
  "note_text E p r = snd (note_of E p r)"

lemma note_text_parts:
  assumes ok: "plan_ok E p" and r: "r \<in> set (ip_clusters p)"
  obtains rest where "note_text E p r = render_head E p (cluster_of p r) r
    @ concat (map render_section (sp_sections (rv_proposal r)))
    @ (let preserved = preserved_blocks E (disposition_by_target r) (note_documents p (cluster_of p r)) in
        if preserved = [] then []
        else nl @ ''## Preserved source material'' @ nl @ concat (map (render_preserved E) preserved))
    @ (if sp_contradictions (rv_proposal r) = [] then []
       else nl @ ''## Contradictions'' @ nl @ concat (map render_contradiction (sp_contradictions (rv_proposal r))))
    @ rest"
proof -
  obtain body where body: "render_canonical_note E p (cluster_of p r) r = Inr body"
    using render_note_succeeds [OF ok r] by blast
  then have eq: "note_text E p r = body" by (simp add: note_text_def note_of_def)
  show ?thesis
    using body that unfolding eq render_canonical_note_def Let_def
    by (auto split: if_splits)
qed

section \<open>Facts: provenance\<close>

lemma btree_get_by_key:
  assumes "distinct (map k xs)"
  shows "btree_get (btree_collect (map (\<lambda>x. (k x, x)) xs)) i = Some x \<longleftrightarrow> x \<in> set xs \<and> k x = i"
  using assms by (subst btree_collect_facts(3)) (auto simp: o_def)

definition note_record :: "externs \<Rightarrow> integration_plan \<Rightarrow> approved_revision \<Rightarrow> provenance_record" where
  "note_record E p r = make_record E p (knowledge_path (cluster_of p r)) (note_text E p r) ''canonical_note''
     (revision_key r) r (sorted_list_of_set (set (cited_evidence (rv_proposal r)))) None"

definition stub_record ::
  "externs \<Rightarrow> integration_plan \<Rightarrow> integration_document \<Rightarrow> approved_revision \<Rightarrow> provenance_record" where
  "stub_record E p d r = make_record E p (legacy_path d) (snd (stub_file E p d)) ''legacy_redirect''
     (revision_key r) r (block_evidence d) (Some (doc_document_id d))"

lemma plan_paths_distinct:
  assumes "plan_ok E p"
  shows "distinct (map knowledge_path (ta_clusters (ip_taxonomy p)))"
    "distinct (map legacy_path (co_documents (ip_corpus p)))"
  using assms by (simp_all add: plan_ok_def taxonomy_valid_def corpus_valid_def Let_def no_portable_collision_def)

lemma revisions_by_id_get:
  "plan_ok E p \<Longrightarrow> btree_get (revisions_by_id p) k = Some r \<longleftrightarrow> r \<in> set (ip_clusters p) \<and> revision_key r = k"
  using btree_get_by_key [of revision_key "ip_clusters p"]
  by (simp add: revisions_by_id_def plan_ok_def revision_key_def [abs_def])

lemma provenance_of_note:
  assumes ok: "plan_ok E p" and r: "r \<in> set (ip_clusters p)"
  shows "provenance_of E p (note_of E p r) = Inr (note_record E p r)"
proof -
  note get = cluster_of_get [OF ok r]
  have "btree_get (btree_collect (map (\<lambda>c. (knowledge_path c, c)) (ta_clusters (ip_taxonomy p))))
      (knowledge_path (cluster_of p r)) = Some (cluster_of p r)"
    using get(2) by (simp add: btree_get_by_key [OF plan_paths_distinct(1) [OF ok]])
  moreover have "btree_get (revisions_by_id p) (cl_cluster_id (cluster_of p r)) = Some r"
    using r get(3) by (simp add: revisions_by_id_get [OF ok])
  ultimately show ?thesis
    by (simp add: provenance_of_def note_of_def note_record_def note_text_def get(3))
qed

lemma provenance_of_stub:
  assumes ok: "plan_ok E p" and d: "d \<in> set (co_documents (ip_corpus p))"
  obtains r where "r \<in> set (ip_clusters p)" "cluster_of p r = home_cluster p d"
    "provenance_of E p (stub_file E p d) = Inr (stub_record E p d r)"
proof -
  note home = home_cluster_find [OF ok d]
  obtain r where r: "r \<in> set (ip_clusters p)" "revision_key r = cl_cluster_id (home_cluster p d)"
    using plan_revision_of [OF ok home(2)] .
  have "cluster_of p r = home_cluster p d"
    by (rule distinct_map_eq [OF plan_cluster_ids [OF ok] cluster_of_get(2) [OF ok r(1)] home(2)])
      (simp add: cluster_of_get(3) [OF ok r(1)] r(2))
  moreover have "btree_get (btree_collect (map (\<lambda>c. (knowledge_path c, c)) (ta_clusters (ip_taxonomy p))))
      (legacy_path d) = None"
  proof -
    have "knowledge_path c \<noteq> legacy_path d" for c by (simp add: knowledge_path_def legacy_path_def)
    then have "btree_get (btree_collect (map (\<lambda>c. (knowledge_path c, c)) (ta_clusters (ip_taxonomy p))))
        (legacy_path d) \<noteq> Some c" for c
      by (simp add: btree_get_by_key [OF plan_paths_distinct(1) [OF ok]])
    then show ?thesis using not_None_eq by blast
  qed
  moreover have "btree_get (btree_collect (map (\<lambda>d. (legacy_path d, d)) (co_documents (ip_corpus p))))
      (legacy_path d) = Some d"
    using d by (simp add: btree_get_by_key [OF plan_paths_distinct(2) [OF ok]])
  moreover have "btree_get (revisions_by_id p) (cl_cluster_id (home_cluster p d)) = Some r"
    using r by (simp add: revisions_by_id_get [OF ok])
  ultimately show ?thesis
    using r home(1) by (intro that [of r]) (simp_all add: provenance_of_def stub_file_def stub_record_def)
qed

text \<open>What a record says about the file it is for.\<close>

definition record_about ::
  "externs \<Rightarrow> integration_plan \<Rightarrow> string \<times> bytes \<Rightarrow> provenance_record \<Rightarrow> bool" where
  "record_about E p f x \<longleftrightarrow> pr_output_path x = fst f \<and> pr_output_hash x = output_hash E (snd f) \<and>
     pr_integration_plan_id x = ip_integration_plan_id p \<and>
     (\<exists>r \<in> set (ip_clusters p). pr_cluster_id x = Some (sp_cluster_id (rv_proposal r)) \<and>
        pr_proposal_hash x = Some (proposal_hash_of E (rv_proposal r)) \<and>
        pr_approval_hash x = Some (ca_revision_hash (rv_approval r)) \<and>
        ((pr_kind x = ''canonical_note'' \<and> pr_source_document x = None \<and>
            set (pr_evidence x) = set (cited_evidence (rv_proposal r))) \<or>
         (\<exists>d \<in> set (co_documents (ip_corpus p)). pr_kind x = ''legacy_redirect'' \<and> fst f = legacy_path d \<and>
            pr_source_document x = Some (doc_document_id d) \<and> pr_evidence x = block_evidence d)))"

lemma provenance_total:
  assumes ok: "plan_ok E p" and f: "f \<in> set (output_files E p)"
  shows "\<exists>x. provenance_of E p f = Inr x \<and> record_about E p f x"
proof -
  have ph: "sp_proposal_hash (rv_proposal r) = proposal_hash_of E (rv_proposal r)" if "r \<in> set (ip_clusters p)" for r
    using cluster_of_get(4) [OF ok that] by (simp add: revision_ok_def Let_def)
  from f consider r where "r \<in> set (ip_clusters p)" "f = note_of E p r"
    | d where "d \<in> set (co_documents (ip_corpus p))" "f = stub_file E p d"
    by (auto simp: output_files_def)
  then show ?thesis
  proof cases
    case 1
    have "record_about E p f (note_record E p r)"
      unfolding record_about_def
      by (intro conjI bexI [OF _ 1(1)])
        (simp_all add: 1 note_record_def make_record_def note_text_def revision_key_def ph [OF 1(1)] note_of_def)
    with provenance_of_note [OF ok 1(1)] 1(2) show ?thesis by blast
  next
    case 2
    obtain r where r: "r \<in> set (ip_clusters p)" "provenance_of E p (stub_file E p d) = Inr (stub_record E p d r)"
      using provenance_of_stub [OF ok 2(1)] .
    have "record_about E p f (stub_record E p d r)"
      unfolding record_about_def
    proof (intro conjI bexI [OF _ r(1)] disjI2 bexI [OF _ 2(1)])
      show "fst f = legacy_path d" by (simp add: 2 stub_file_def)
    qed (simp_all add: 2 stub_record_def make_record_def revision_key_def ph [OF r(1)] stub_file_def)
    with r(2) 2(2) show ?thesis by blast
  qed
qed

section \<open>Properties\<close>

text \<open>
  C14: Materialising an accepted plan cannot fail or panic. It yields, in strictly increasing path
  order, exactly one note per taxonomy cluster and one redirect per source document, and the
  redirect of a document points to the note of the cluster that holds it.
\<close>

theorem materialization_total:
  assumes "validate_plan E p = Inr ()"
  shows "\<exists>files. materialized_files E p = Inr files \<and> sorted_wrt (<) (map fst files) \<and>
    set (map fst files) = knowledge_path ` set (ta_clusters (ip_taxonomy p))
      \<union> legacy_path ` set (co_documents (ip_corpus p)) \<and>
    length files = length (ta_clusters (ip_taxonomy p)) + length (co_documents (ip_corpus p)) \<and>
    (\<forall>d \<in> set (co_documents (ip_corpus p)). \<exists>c \<in> set (ta_clusters (ip_taxonomy p)).
       doc_document_id d \<in> set (cl_document_ids c) \<and>
       (legacy_path d, render_legacy_stub E p d (knowledge_path c)) \<in> set files)"
proof -
  from assms have ok: "plan_ok E p" by (simp add: validate_plan_iff)
  have "(legacy_path d, render_legacy_stub E p d (knowledge_path (home_cluster p d))) \<in> set (output_files E p)"
    if "d \<in> set (co_documents (ip_corpus p))" for d
    using that by (auto simp: output_files_def stub_file_def)
  then have "\<forall>d \<in> set (co_documents (ip_corpus p)). \<exists>c \<in> set (ta_clusters (ip_taxonomy p)).
       doc_document_id d \<in> set (cl_document_ids c) \<and>
       (legacy_path d, render_legacy_stub E p d (knowledge_path c)) \<in> set (output_files E p)"
    using home_cluster_find(2,3) [OF ok] by blast
  moreover have "length (output_files E p) =
      length (ta_clusters (ip_taxonomy p)) + length (co_documents (ip_corpus p))"
    using ok by (simp add: output_files_def plan_ok_def)
  ultimately show ?thesis
    using materialized_output_files [OF ok] output_files_paths [OF ok] by blast
qed

text \<open>
  Preserved text is reproduced: in the note of a revision, every block it marks as preserved
  verbatim appears under its source comment with its whole text (up to trailing white space), and
  every section appears with its heading and body.
\<close>

lemma preserved_blocks_are_rendered:
  assumes "hex_lawful E" and "validate_plan E p = Inr ()" and "materialized_files E p = Inr files"
    and "r \<in> set (ip_clusters p)"
  shows "\<exists>c \<in> set (ta_clusters (ip_taxonomy p)). \<exists>body. cl_cluster_id c = sp_cluster_id (rv_proposal r) \<and>
    (knowledge_path c, body) \<in> set files \<and>
    (\<forall>s \<in> set (sp_sections (rv_proposal r)). sublist (render_section s) body) \<and>
    (\<forall>d \<in> set (co_documents (ip_corpus p)). \<forall>b \<in> set (doc_blocks d). \<forall>x \<in> set (sp_dispositions (rv_proposal r)).
       sd_target x = block_target E (doc_document_id d) b \<and> sd_disposition x = PreservedVerbatim \<longrightarrow>
       sublist (render_preserved E (doc_document_id d, b)) body)"
proof -
  from assms have ok: "plan_ok E p" by (simp add: validate_plan_iff)
  note get = cluster_of_get [OF ok assms(4)]
  let ?c = "cluster_of p r" and ?body = "note_text E p r"
  let ?pres = "preserved_blocks E (disposition_by_target r) (note_documents p ?c)"
  obtain rest where parts: "?body = render_head E p ?c r
    @ concat (map render_section (sp_sections (rv_proposal r)))
    @ (let preserved = ?pres in if preserved = [] then []
       else nl @ ''## Preserved source material'' @ nl @ concat (map (render_preserved E) preserved))
    @ (if sp_contradictions (rv_proposal r) = [] then []
       else nl @ ''## Contradictions'' @ nl @ concat (map render_contradiction (sp_contradictions (rv_proposal r))))
    @ rest"
    using note_text_parts [OF ok assms(4)] .
  have files: "(knowledge_path ?c, ?body) \<in> set files"
    using materialized_output_files [OF ok] assms(3,4)
    by (auto simp: output_files_def note_of_def note_text_def)
  have "sublist (render_section s) ?body" if "s \<in> set (sp_sections (rv_proposal r))" for s
    unfolding parts by (rule sublist_inside, rule sublist_concat) (use that in simp)
  moreover have "sublist (render_preserved E (doc_document_id d, b)) ?body"
    if d: "d \<in> set (co_documents (ip_corpus p))" and b: "b \<in> set (doc_blocks d)"
      and x: "x \<in> set (sp_dispositions (rv_proposal r))" "sd_target x = block_target E (doc_document_id d) b"
        "sd_disposition x = PreservedVerbatim" for d b x
  proof -
    have "sd_target x \<in> sd_target ` set (sp_dispositions (rv_proposal r))" using x(1) by simp
    then obtain d' where d': "d' \<in> set (co_documents (ip_corpus p))" "doc_document_id d' \<in> set (cl_document_ids ?c)"
      "sd_target x \<in> set (document_targets E d')"
      unfolding revision_targets [OF ok get(4)] by auto
    have "doc_document_id d' = doc_document_id d"
      using target_document [OF d'(3)] x(2) by (simp add: block_target_def)
    from distinct_map_eq [OF plan_documents_distinct [OF ok] d'(1) d this] d'(2)
    have "d \<in> set (note_documents p ?c)" using note_documents_set [OF ok d] by simp
    moreover have "btree_get (disposition_by_target r) (doc_document_id d, display_id E ''block'' (sb_block_id b))
        = Some PreservedVerbatim"
      using disposition_lookup [OF assms(1) ok assms(4) x(1)] x(2,3)
      by (simp add: target_key_def block_target_def)
    ultimately have mem: "(doc_document_id d, b) \<in> set ?pres"
      using b by (auto simp: preserved_blocks_def)
    then have "sublist (render_preserved E (doc_document_id d, b)) (concat (map (render_preserved E) ?pres))"
      by (intro sublist_concat) simp
    then have "sublist (render_preserved E (doc_document_id d, b))
        ((nl @ ''## Preserved source material'' @ nl) @ concat (map (render_preserved E) ?pres) @ [])"
      by (rule sublist_inside)
    then have "sublist (render_preserved E (doc_document_id d, b))
        (let preserved = ?pres in if preserved = [] then []
         else nl @ ''## Preserved source material'' @ nl @ concat (map (render_preserved E) preserved))"
      using mem by (auto simp: Let_def)
    then show ?thesis
      unfolding parts append_assoc [symmetric]
      by (simp only: append_assoc) (metis sublist_inside append_assoc)
  qed
  ultimately show ?thesis
    using get(2,3) files by (intro bexI [OF _ get(2)] exI [of _ ?body]) (simp add: revision_key_def)
qed

text \<open>
  Provenance is complete and truthful: \<open>provenance_jsonl\<close> never fails on the files of an
  accepted plan and writes one line per file, in order, with the file's path and hash, the
  proposal and approval it comes from, and as evidence either all that the note cites or every
  block of the redirected document.
\<close>

lemma provenance_covers_every_file:
  assumes "validate_plan E p = Inr ()" and "materialized_files E p = Inr files"
  shows "\<exists>records. list_all2 (record_about E p) files records \<and>
    provenance_jsonl E p files = Inr (concat (map (provenance_line E) records))"
proof -
  from assms have ok: "plan_ok E p" by (simp add: validate_plan_iff)
  then have files: "files = output_files E p" using assms(2) materialized_output_files by simp
  with provenance_total [OF ok] obtain g where
    g: "\<And>f. f \<in> set files \<Longrightarrow> provenance_of E p f = Inr (g f) \<and> record_about E p f (g f)" by metis
  then have "try_map (provenance_of E p) files = Inr (map g files)" by (intro try_map_total) blast
  moreover have "list_all2 (record_about E p) files (map g files)"
    using g by (simp add: list_all2_map2 list_all2_same)
  ultimately show ?thesis by (auto simp: provenance_jsonl_def)
qed

end
