(* ===== verification/FileTree.thy ===== *)
theory FileTree
  imports Materialize
begin

text \<open>
  Directories as the compiler sees them: a tree of named entries, in name order. \<open>put_file\<close> is
  \<open>create_dir_all\<close> of the parent followed by \<open>create_new\<close>.
\<close>

section \<open>Trees\<close>

datatype node = FileNode bytes | DirNode "(string \<times> node) list" | SymlinkNode | SpecialNode

type_synonym entries = "(string, node) btree"

fun put_file :: "entries \<Rightarrow> string list \<Rightarrow> bytes \<Rightarrow> io_error + entries" where
  "put_file es [] b = Inl InvalidInput"
| "put_file es [n] b =
     (if btree_get es n \<noteq> None then Inl AlreadyExists else Inr (btree_insert n (FileNode b) es))"
| "put_file es (n # m # ns) b =
     (case btree_get es n of
        None \<Rightarrow> bind_res (put_file [] (m # ns) b) (\<lambda>sub. Inr (btree_insert n (DirNode sub) es))
      | Some (DirNode old) \<Rightarrow>
          bind_res (put_file old (m # ns) b) (\<lambda>sub. Inr (btree_insert n (DirNode sub) es))
      | Some _ \<Rightarrow> Inl (OtherIo 20))"

fun find_node :: "entries \<Rightarrow> string list \<Rightarrow> node option" where
  "find_node es [] = Some (DirNode es)"
| "find_node es (n # ns) = (case btree_get es n of
     Some (DirNode sub) \<Rightarrow> find_node sub ns
   | x \<Rightarrow> if ns = [] then x else None)"

text \<open>The files of a tree with their paths, in the order of a depth-first walk.\<close>

function leaves :: "node \<Rightarrow> (string list \<times> node) list" where
  "leaves (DirNode es) = concat (map (\<lambda>(n, x). map (\<lambda>(p, l). (n # p, l)) (leaves x)) es)"
| "leaves (FileNode b) = [([], FileNode b)]"
| "leaves SymlinkNode = [([], SymlinkNode)]"
| "leaves SpecialNode = [([], SpecialNode)]"
  by pat_completeness auto
termination
  by (relation "measure size") (auto simp: less_Suc_eq_le size_list_estimation' dest!: in_set_zipE)

text \<open>Names are unique and sorted, directories are not empty and hold only files below.\<close>

function tree_ok :: "node \<Rightarrow> bool" where
  "tree_ok (DirNode es) \<longleftrightarrow> btree_ok es \<and> (\<forall>e \<in> set es. tree_ok (snd e) \<and> snd e \<noteq> DirNode [])"
| "tree_ok (FileNode b) \<longleftrightarrow> True"
| "tree_ok SymlinkNode \<longleftrightarrow> False"
| "tree_ok SpecialNode \<longleftrightarrow> False"
  by pat_completeness auto
termination
  by (relation "measure size") (auto simp: less_Suc_eq_le size_list_estimation' dest!: in_set_zipE)

section \<open>Facts\<close>

lemma leaves_dir_iff:
  "(p, l) \<in> set (leaves (DirNode es)) \<longleftrightarrow> (\<exists>n x q. p = n # q \<and> (n, x) \<in> set es \<and> (q, l) \<in> set (leaves x))"
  by fastforce

lemma leaves_get:
  assumes "btree_ok es"
  shows "(p, l) \<in> set (leaves (DirNode es)) \<longleftrightarrow>
    (\<exists>n x q. p = n # q \<and> btree_get es n = Some x \<and> (q, l) \<in> set (leaves x))"
  unfolding leaves_dir_iff using bt.entries_get [OF assms] by blast

lemma leaves_Nil [simp]: "([], l) \<notin> set (leaves (DirNode es))"
  unfolding leaves_dir_iff by simp

lemma leaves_Cons:
  "btree_ok es \<Longrightarrow> (k # q, l) \<in> set (leaves (DirNode es)) \<longleftrightarrow>
     (\<exists>x. btree_get es k = Some x \<and> (q, l) \<in> set (leaves x))"
  unfolding leaves_get by simp

lemma leaves_insert_Cons:
  assumes "btree_ok es"
  shows "(k # q, l) \<in> set (leaves (DirNode (btree_insert n x es))) \<longleftrightarrow>
    (if k = n then (q, l) \<in> set (leaves x) else (k # q, l) \<in> set (leaves (DirNode es)))"
  unfolding leaves_Cons [OF assms] leaves_Cons [OF btree_insert_ok [OF assms]] btree_get_insert [OF assms]
  by auto

lemma btree_insert_nonempty [simp]: "btree_insert k v m \<noteq> []"
  using btree_insert_keys [of k v m] by (cases "btree_insert k v m") auto

lemma tree_ok_get:
  "tree_ok (DirNode es) \<longleftrightarrow> btree_ok es \<and> (\<forall>n x. btree_get es n = Some x \<longrightarrow> tree_ok x \<and> x \<noteq> DirNode [])"
proof -
  have "btree_ok es \<Longrightarrow> (\<forall>e \<in> set es. tree_ok (snd e) \<and> snd e \<noteq> DirNode []) \<longleftrightarrow>
      (\<forall>n x. btree_get es n = Some x \<longrightarrow> tree_ok x \<and> x \<noteq> DirNode [])"
    using bt.entries_get [of es] by (metis prod.collapse snd_conv)
  then show ?thesis by auto
qed

lemma tree_ok_insert:
  assumes "tree_ok (DirNode es)" "tree_ok x" "x \<noteq> DirNode []"
  shows "tree_ok (DirNode (btree_insert n x es))"
  using assms btree_insert_entries [of n x es] by (auto simp: btree_insert_ok)

lemma leaves_nonempty: "tree_ok x \<Longrightarrow> x \<noteq> DirNode [] \<Longrightarrow> leaves x \<noteq> []"
proof (induction x rule: leaves.induct)
  case (1 es)
  then obtain a b es' where es: "es = (a, b) # es'" by (cases es) auto
  with 1(2) have "tree_ok b" "b \<noteq> DirNode []" by auto
  with 1(1) [of "(a, b)" a b] es have "leaves b \<noteq> []" by simp
  with es show ?case by simp
qed auto

text \<open>
  Putting a file at a path that is neither an existing file, nor below one, nor an existing
  directory succeeds and adds exactly that file.
\<close>

definition room_for :: "node \<Rightarrow> string list \<Rightarrow> bool" where
  "room_for t p \<longleftrightarrow> (\<forall>(q, l) \<in> set (leaves t). \<not> prefix p q \<and> \<not> prefix q p)"

lemma put_file_adds:
  assumes "tree_ok (DirNode es)" and "p \<noteq> []" and "room_for (DirNode es) p"
  shows "\<exists>es'. put_file es p b = Inr es' \<and> tree_ok (DirNode es') \<and> es' \<noteq> [] \<and>
    set (leaves (DirNode es')) = insert (p, FileNode b) (set (leaves (DirNode es)))"
  using assms
proof (induction es p b rule: put_file.induct)
  case (1 es b)
  then show ?case by simp
next
  case (2 es n b)
  have ok: "btree_ok es" using 2 by simp
  have none: "btree_get es n = None"
  proof (rule ccontr)
    assume "btree_get es n \<noteq> None"
    then obtain x where x: "btree_get es n = Some x" by auto
    with 2(1) have "tree_ok x" "x \<noteq> DirNode []" unfolding tree_ok_get by blast+
    then have "leaves x \<noteq> []" by (rule leaves_nonempty)
    then obtain q l where "(q, l) \<in> set (leaves x)" by (cases "leaves x") auto
    with x have "(n # q, l) \<in> set (leaves (DirNode es))" unfolding leaves_get [OF ok] by blast
    with 2(3) show False by (auto simp: room_for_def simp del: leaves.simps)
  qed
  have "btree_ok (btree_insert n (FileNode b) es)" using ok by (rule btree_insert_ok)
  moreover have "tree_ok (DirNode (btree_insert n (FileNode b) es))"
    using 2(1) by (intro tree_ok_insert) simp_all
  moreover have "set (leaves (DirNode (btree_insert n (FileNode b) es))) =
      insert ([n], FileNode b) (set (leaves (DirNode es)))"
  proof (rule set_eqI)
    fix y :: "string list \<times> node"
    obtain q l where y: "y = (q, l)" by (cases y)
    have "(n # r, l) \<notin> set (leaves (DirNode es))" for r using none by (simp only: leaves_Cons [OF ok]) simp
    then show "y \<in> set (leaves (DirNode (btree_insert n (FileNode b) es))) \<longleftrightarrow>
        y \<in> insert ([n], FileNode b) (set (leaves (DirNode es)))"
      unfolding y insert_iff prod.inject
      by (cases q) (simp_all add: leaves_insert_Cons [OF ok] del: leaves.simps(1))
  qed
  ultimately show ?case using none by simp
next
  case (3 es n m ns b)
  have ok: "btree_ok es" using 3 by simp
  have step: ?case
    if sub: "put_file old (m # ns) b = Inr sub" "tree_ok (DirNode sub)" "sub \<noteq> []"
      "set (leaves (DirNode sub)) = insert (m # ns, FileNode b) (set (leaves (DirNode old)))"
      and put: "put_file es (n # m # ns) b = Inr (btree_insert n (DirNode sub) es)"
      and get: "btree_get es n = Some (DirNode old) \<or> btree_get es n = None \<and> old = []" for old sub
  proof -
    have "tree_ok (DirNode (btree_insert n (DirNode sub) es))"
      using 3(3) sub(2,3) by (intro tree_ok_insert) simp_all
    moreover have "set (leaves (DirNode (btree_insert n (DirNode sub) es))) =
        insert (n # m # ns, FileNode b) (set (leaves (DirNode es)))"
    proof (rule set_eqI)
      fix y :: "string list \<times> node"
      obtain q l where y: "y = (q, l)" by (cases y)
      show "y \<in> set (leaves (DirNode (btree_insert n (DirNode sub) es))) \<longleftrightarrow>
          y \<in> insert (n # m # ns, FileNode b) (set (leaves (DirNode es)))"
      proof (cases q)
        case (Cons k r)
        have "(n # r, l) \<in> set (leaves (DirNode es)) \<longleftrightarrow> (r, l) \<in> set (leaves (DirNode old))"
          using get
        proof
          assume "btree_get es n = Some (DirNode old)"
          then show ?thesis unfolding leaves_Cons [OF ok] by (simp del: leaves.simps(1))
        next
          assume "btree_get es n = None \<and> old = []"
          then show ?thesis unfolding leaves_Cons [OF ok] by simp
        qed
        with Cons sub(4) show ?thesis
          by (auto simp: y leaves_insert_Cons [OF ok] simp del: leaves.simps(1))
      qed (simp add: y del: leaves.simps(1))
    qed
    ultimately show ?thesis using put by simp
  qed
  show ?case
  proof (cases "btree_get es n")
    case None
    have "\<exists>sub. put_file [] (m # ns) b = Inr sub \<and> tree_ok (DirNode sub) \<and> sub \<noteq> [] \<and>
        set (leaves (DirNode sub)) = insert (m # ns, FileNode b) (set (leaves (DirNode [])))"
      by (rule 3(1) [OF None]) (simp_all add: btree_ok_def room_for_def)
    then obtain sub where sub: "put_file [] (m # ns) b = Inr sub" "tree_ok (DirNode sub)" "sub \<noteq> []"
      "set (leaves (DirNode sub)) = insert (m # ns, FileNode b) (set (leaves (DirNode [])))" by blast
    then show ?thesis using None by (intro step [of "[]" sub]) auto
  next
    case (Some x)
    have xok: "tree_ok x" using 3(3) Some unfolding tree_ok_get by blast
    have room: "\<not> prefix (m # ns) q \<and> \<not> prefix q (m # ns)" if "(q, l) \<in> set (leaves x)" for q l
    proof -
      from that Some have "(n # q, l) \<in> set (leaves (DirNode es))" unfolding leaves_get [OF ok] by blast
      with 3(5) show ?thesis by (auto simp: room_for_def simp del: leaves.simps)
    qed
    obtain old where old: "x = DirNode old"
      using xok room by (cases x) auto
    have "\<exists>sub. put_file old (m # ns) b = Inr sub \<and> tree_ok (DirNode sub) \<and> sub \<noteq> [] \<and>
        set (leaves (DirNode sub)) = insert (m # ns, FileNode b) (set (leaves (DirNode old)))"
      by (rule 3(2) [OF Some old]) (use xok room old in \<open>auto simp: room_for_def simp del: leaves.simps\<close>)
    then obtain sub where sub: "put_file old (m # ns) b = Inr sub" "tree_ok (DirNode sub)" "sub \<noteq> []"
      "set (leaves (DirNode sub)) = insert (m # ns, FileNode b) (set (leaves (DirNode old)))" by blast
    then show ?thesis using Some old by (intro step [of old sub]) auto
  qed
qed

end
