(* ===== verification/Publish.thy ===== *)
theory Publish
  imports FileTree
begin

text \<open>
  The file-system side of \<open>crates/okc-core/src/integration.rs\<close>: \<open>compile_with_hook\<close> (staging,
  verification, publication by a rename that never replaces, and the disposition of the staging
  directory on failure), \<open>verify\<close>, \<open>inventory_checked\<close> and \<open>explain\<close>.

  The parent directory of the destination is a set of named entries; the staging directory is one
  of them, under the name \<open>tempfile\<close> picks. Every system call and every test hook may fail: an
  oracle \<open>F\<close> gives its error. Other processes act through \<open>interfere\<close>, just before the rename.
  \<open>sync_all\<close> has no effect on what later calls observe, so it is only a call that may fail.
\<close>

section \<open>System calls\<close>

datatype checkpoint = StageCreated | Materialized | TreeSynchronized | Verified | BeforePublish
  | Published | ParentSynchronized | BeforeCleanup

datatype io_op = CreateParent | CreateStage | WriteFile string | ReadFile string | ReadDir string
  | SyncTree | Rename | SyncParent | RemoveStage | Hook checkpoint

type_synonym faults = "io_op \<Rightarrow> io_error option"

definition syscall :: "faults \<Rightarrow> io_op \<Rightarrow> string \<Rightarrow> unit res" where
  "syscall F op path = (case F op of None \<Rightarrow> Inr () | Some e \<Rightarrow> Inl (Io path e))"

text \<open>
  The derived deserialisers of serde: third-party code, arguments of the model. \<open>read_raw\<close> is the
  tokeniser under \<open>parse_json_strict\<close>.
\<close>

record readers =
  read_manifest :: "bytes \<Rightarrow> compiled_vault_manifest option"
  read_raw :: "bytes \<Rightarrow> raw_json option"
  read_plan :: "json \<Rightarrow> integration_plan option"
  read_record :: "bytes \<Rightarrow> provenance_record option"

definition max_manifest_bytes :: nat where
  "max_manifest_bytes = 1024 * 1024"

definition max_approved_plan_bytes :: nat where
  "max_approved_plan_bytes = 512 * 1024 * 1024"

section \<open>Inventory\<close>

definition read_regular_file :: "faults \<Rightarrow> string \<Rightarrow> node option \<Rightarrow> nat \<Rightarrow> bytes res" where
  "read_regular_file F path x limit = (case x of
       None \<Rightarrow> Inl (Io path NotFound)
     | Some (FileNode b) \<Rightarrow>
         if limit < length b then Inl VerificationFailed
         else and_then (syscall F (ReadFile path) path) (Inr b)
     | Some _ \<Rightarrow> Inl VerificationFailed)"

definition require_regular_directory :: "string \<Rightarrow> node option \<Rightarrow> unit res" where
  "require_regular_directory path x = (case x of
       None \<Rightarrow> Inl (Io path NotFound)
     | Some (DirNode _) \<Rightarrow> Inr ()
     | Some _ \<Rightarrow> Inl VerificationFailed)"

text \<open>
  \<open>paths.range(prefix..).next()\<close>: the first allowed path that is not before the prefix.
\<close>

definition plans_below :: "(string, nat) btree \<Rightarrow> string \<Rightarrow> bool" where
  "plans_below allowed pre = (case List.find (\<lambda>(candidate, _). pre \<le> candidate) allowed of
     None \<Rightarrow> False | Some (candidate, _) \<Rightarrow> prefix pre candidate)"

text \<open>
  One entry of a directory; \<open>below\<close> is what the walk of the entry gives when it is a directory.
\<close>

definition walk_entry ::
  "externs \<Rightarrow> faults \<Rightarrow> string list \<Rightarrow> (string, nat) btree option \<Rightarrow> string \<Rightarrow> node \<Rightarrow>
     manifest_file list res \<Rightarrow> manifest_file list res" where
  "walk_entry E F excluded allowed path x below = (case x of
       SymlinkNode \<Rightarrow> Inl VerificationFailed
     | SpecialNode \<Rightarrow> Inl VerificationFailed
     | DirNode _ \<Rightarrow> and_then (validate_relative_path E path)
         (and_then (reject (case allowed of None \<Rightarrow> False | Some ps \<Rightarrow> \<not> plans_below ps (path @ ''/''))
             VerificationFailed) below)
     | FileNode b \<Rightarrow> and_then (validate_relative_path E path)
         (and_then (reject (case allowed of None \<Rightarrow> False | Some ps \<Rightarrow> btree_get ps path = None)
             VerificationFailed)
           (if path \<in> set excluded then Inr []
            else let limit = (case allowed of None \<Rightarrow> u64_max | Some ps \<Rightarrow> the (btree_get ps path)) in
              bind_res (read_regular_file F path (Some x) limit)
                (\<lambda>b. Inr [manifest_file_of E (path, b)]))))"

function walk ::
  "externs \<Rightarrow> faults \<Rightarrow> string list \<Rightarrow> (string, nat) btree option \<Rightarrow> string list \<Rightarrow> node \<Rightarrow>
     manifest_file list res" where
  "walk E F excluded allowed pre (DirNode es) =
     and_then (syscall F (ReadDir (join_path pre)) (join_path pre))
       (bind_res (try_map (\<lambda>(name, x). walk_entry E F excluded allowed (join_path (pre @ [name])) x
            (walk E F excluded allowed (pre @ [name]) x)) es)
          (\<lambda>parts. Inr (concat parts)))"
| "walk E F excluded allowed pre (FileNode b) = Inl VerificationFailed"
| "walk E F excluded allowed pre SymlinkNode = Inl VerificationFailed"
| "walk E F excluded allowed pre SpecialNode = Inl VerificationFailed"
  by pat_completeness auto
termination
  by (relation "measure (\<lambda>(_, _, _, _, _, x). size x)")
    (auto simp: less_Suc_eq_le size_list_estimation' dest!: in_set_zipE)

definition inventory_checked ::
  "externs \<Rightarrow> faults \<Rightarrow> node \<Rightarrow> string list \<Rightarrow> (string, nat) btree option \<Rightarrow> manifest_file list res" where
  "inventory_checked E F vault excluded allowed =
     and_then (require_regular_directory '''' (Some vault))
       (bind_res (walk E F excluded allowed [] vault) (\<lambda>files. Inr (sort_key mf_path files)))"

section \<open>Verification\<close>

definition okc_file :: "node \<Rightarrow> string \<Rightarrow> node option" where
  "okc_file vault name = (case vault of DirNode es \<Rightarrow> find_node es [''.okc'', name] | _ \<Rightarrow> None)"

definition okc_path :: "string \<Rightarrow> string" where
  "okc_path name = join_path [''.okc'', name]"

definition plan_from_bytes :: "readers \<Rightarrow> bytes \<Rightarrow> integration_plan res" where
  "plan_from_bytes R b = (case read_raw R b of None \<Rightarrow> Inl JsonError
     | Some raw \<Rightarrow> (case visit raw of Inl _ \<Rightarrow> Inl JsonError
         | Inr v \<Rightarrow> require JsonError (read_plan R v)))"

definition audit_files :: "externs \<Rightarrow> integration_plan \<Rightarrow> files \<Rightarrow> bytes \<Rightarrow> files" where
  "audit_files E plan files provenance = files @
     [(okc_path ''integration-plan.json'', to_canonical_json_pretty E (json_of_plan E plan)),
      (okc_path ''provenance.jsonl'', provenance)]"

definition verify :: "externs \<Rightarrow> readers \<Rightarrow> faults \<Rightarrow> node option \<Rightarrow> compiled_vault_manifest res" where
  "verify E R F node =
     and_then (require_regular_directory '''' node)
     (let vault = the node in
      and_then (require_regular_directory ''.okc'' (case vault of DirNode es \<Rightarrow> find_node es [''.okc''] | _ \<Rightarrow> None))
     (bind_res (read_regular_file F (okc_path ''manifest.json'') (okc_file vault ''manifest.json'') max_manifest_bytes)
       (\<lambda>manifest_bytes. bind_res (require JsonError (read_manifest R manifest_bytes)) (\<lambda>manifest.
      and_then (reject (cm_format_family manifest \<noteq> ''okc''
          \<or> cm_schema_version manifest \<noteq> integration_schema_version) VerificationFailed)
     (bind_res (read_regular_file F (okc_path ''integration-plan.json'') (okc_file vault ''integration-plan.json'')
          max_approved_plan_bytes) (\<lambda>plan_bytes.
      bind_res (plan_from_bytes R plan_bytes) (\<lambda>plan.
      and_then (validate_plan E plan)
     (bind_res (materialized_files E plan) (\<lambda>files.
      bind_res (provenance_jsonl E plan files) (\<lambda>provenance.
      let files = audit_files E plan files provenance;
          inventory = inventory_from_bytes E files;
          expected_manifest = manifest_of plan inventory
      in and_then (reject (manifest \<noteq> expected_manifest
             \<or> manifest_bytes \<noteq> to_canonical_json_pretty E (json_of_manifest E expected_manifest))
             VerificationFailed)
        (let expected = sort_key mf_path
               (inventory @ [manifest_file_of E (okc_path ''manifest.json'', manifest_bytes)]);
             checksums = checksum_text expected;
             expected = sort_key mf_path
               (expected @ [manifest_file_of E (okc_path ''checksums.txt'', checksums)]);
             allowed = btree_collect (map (\<lambda>f. (mf_path f, mf_byte_len f)) expected)
         in bind_res (inventory_checked E F vault [] (Some allowed)) (\<lambda>found.
              and_then (reject (found \<noteq> expected) VerificationFailed) (Inr manifest)))))))))))))"

section \<open>Explanation\<close>

fun split_lines :: "bytes \<Rightarrow> bytes list" where
  "split_lines [] = [[]]"
| "split_lines (c # s) = (if c = CHR 0x0A then [] # split_lines s
     else (case split_lines s of [] \<Rightarrow> [[c]] | l # ls \<Rightarrow> (c # l) # ls))"

definition explain ::
  "externs \<Rightarrow> readers \<Rightarrow> faults \<Rightarrow> node option \<Rightarrow> string \<Rightarrow> provenance_record res" where
  "explain E R F node path =
     bind_res (verify E R F node) (\<lambda>_.
     and_then (validate_relative_path E path)
     (bind_res (case okc_file (the node) ''provenance.jsonl'' of
          Some (FileNode b) \<Rightarrow> and_then (syscall F (ReadFile (okc_path ''provenance.jsonl''))
            (okc_path ''provenance.jsonl'')) (Inr b)
        | _ \<Rightarrow> Inl (Io (okc_path ''provenance.jsonl'') NotFound)) (\<lambda>b.
      bind_res (try_map (\<lambda>l. require JsonError (read_record R l)) (filter (\<lambda>l. l \<noteq> []) (split_lines b)))
        (\<lambda>records. case filter (\<lambda>r. pr_output_path r = path) records of
            [] \<Rightarrow> Inl VerificationFailed
          | [record] \<Rightarrow> Inr record
          | _ \<Rightarrow> Inl VerificationFailed))))"

section \<open>Compilation\<close>

text \<open>The staging tree and the result so far: a failing step leaves what was written.\<close>

definition write_new_file ::
  "externs \<Rightarrow> faults \<Rightarrow> entries \<Rightarrow> string \<Rightarrow> bytes \<Rightarrow> entries res" where
  "write_new_file E F tree path b =
     and_then (validate_relative_path E path)
     (and_then (syscall F (WriteFile path) path)
       (case put_file tree (split_path path) b of Inl e \<Rightarrow> Inl (Io path e) | Inr tree \<Rightarrow> Inr tree))"

fun write_files :: "externs \<Rightarrow> faults \<Rightarrow> entries \<Rightarrow> files \<Rightarrow> entries \<times> unit res" where
  "write_files E F tree [] = (tree, Inr ())"
| "write_files E F tree ((path, b) # files) = (case write_new_file E F tree path b of
     Inl e \<Rightarrow> (tree, Inl e) | Inr tree \<Rightarrow> write_files E F tree files)"

definition continue :: "entries \<times> 'a res \<Rightarrow> (entries \<Rightarrow> 'a \<Rightarrow> entries \<times> 'b res) \<Rightarrow> entries \<times> 'b res" where
  "continue s k = (case s of (tree, Inl e) \<Rightarrow> (tree, Inl e) | (tree, Inr x) \<Rightarrow> k tree x)"

definition stage_contents ::
  "externs \<Rightarrow> readers \<Rightarrow> faults \<Rightarrow> string \<Rightarrow> integration_plan \<Rightarrow> entries \<times> nat res" where
  "stage_contents E R F stage plan =
     continue ([], syscall F (Hook StageCreated) stage) (\<lambda>t _.
     continue (t, materialized_files E plan) (\<lambda>t files.
     continue (write_files E F t files) (\<lambda>t _.
     continue (write_files E F t
       [(okc_path ''integration-plan.json'', to_canonical_json_pretty E (json_of_plan E plan))]) (\<lambda>t _.
     continue (t, provenance_jsonl E plan files) (\<lambda>t provenance.
     continue (write_files E F t [(okc_path ''provenance.jsonl'', provenance)]) (\<lambda>t _.
     continue (t, inventory_checked E F (DirNode t) [okc_path ''manifest.json'', okc_path ''checksums.txt''] None)
       (\<lambda>t inventory.
     continue (write_files E F t [(okc_path ''manifest.json'',
        to_canonical_json_pretty E (json_of_manifest E (manifest_of plan inventory)))]) (\<lambda>t _.
     continue (t, inventory_checked E F (DirNode t) [okc_path ''checksums.txt''] None) (\<lambda>t inventory.
     continue (write_files E F t [(okc_path ''checksums.txt'', checksum_text inventory)]) (\<lambda>t _.
     continue (t, seq_checks [syscall F (Hook Materialized) stage, syscall F SyncTree stage,
        syscall F (Hook TreeSynchronized) stage]) (\<lambda>t _.
     continue (t, verify E R F (Some (DirNode t))) (\<lambda>t _.
     continue (t, seq_checks [syscall F (Hook Verified) stage, syscall F (Hook BeforePublish) stage]) (\<lambda>t _.
       (t, Inr (length inventory + 1)))))))))))))))"

text \<open>
  \<open>publish_directory_noreplace\<close>: rename the staging entry; the kernel refuses when the
  destination exists.
\<close>

definition publish :: "faults \<Rightarrow> string \<Rightarrow> string \<Rightarrow> entries \<Rightarrow> io_error + entries" where
  "publish F stage dest es = (case F Rename of
       Some e \<Rightarrow> Inl e
     | None \<Rightarrow> (case btree_get es stage of
           None \<Rightarrow> Inl NotFound
         | Some x \<Rightarrow> if btree_get es dest \<noteq> None then Inl AlreadyExists
             else Inr (btree_insert dest x (filter (\<lambda>(n, _). n \<noteq> stage) es))))"

definition remove_entry :: "string \<Rightarrow> entries \<Rightarrow> entries" where
  "remove_entry name es = filter (\<lambda>(n, _). n \<noteq> name) es"

text \<open>The \<open>Err\<close> arm: the hook and \<open>close\<close> decide what becomes of the staging directory.\<close>

definition abandon_stage :: "faults \<Rightarrow> string \<Rightarrow> entries \<Rightarrow> okc_error \<Rightarrow> entries \<times> okc_error" where
  "abandon_stage F stage es original = (case F (Hook BeforeCleanup) of
       Some e \<Rightarrow> (es, StagingDispositionFailed stage original e)
     | None \<Rightarrow> (case F RemoveStage of
           Some e \<Rightarrow> (es, StagingDispositionFailed stage original e)
         | None \<Rightarrow> (remove_entry stage es, original)))"

record compiled_artifact =
  art_path :: string
  art_integration_plan_id :: string
  art_files :: nat

definition compile_with_hook ::
  "externs \<Rightarrow> readers \<Rightarrow> faults \<Rightarrow> (entries \<Rightarrow> entries) \<Rightarrow> string \<Rightarrow> string \<Rightarrow> integration_plan \<Rightarrow>
     entries \<Rightarrow> entries \<times> compiled_artifact res" where
  "compile_with_hook E R F interfere stage dest plan es =
     (case validate_plan E plan of Inl e \<Rightarrow> (es, Inl e) | Inr _ \<Rightarrow>
      if btree_get es dest \<noteq> None then (es, Inl (OutputExists dest))
      else case seq_checks [syscall F CreateParent dest, syscall F CreateStage dest] of
        Inl e \<Rightarrow> (es, Inl e)
      | Inr _ \<Rightarrow>
          (case stage_contents E R F stage plan of
             (tree, Inl e) \<Rightarrow>
               (let (es, e) = abandon_stage F stage (btree_insert stage (DirNode tree) es) e in (es, Inl e))
           | (tree, Inr files) \<Rightarrow>
               (let es = interfere (btree_insert stage (DirNode tree) es) in
                case publish F stage dest es of
                  Inl e \<Rightarrow>
                    (let (es, e) = abandon_stage F stage es
                       (if e = AlreadyExists \<or> btree_get es dest \<noteq> None then OutputExists dest else Io dest e)
                     in (es, Inl e))
                | Inr es \<Rightarrow>
                    (case seq_checks [syscall F (Hook Published) dest, syscall F SyncParent dest,
                        syscall F (Hook ParentSynchronized) dest] of
                       Inl (Io _ e) \<Rightarrow> (es, Inl (PublishedButDurabilityUncertain dest e))
                     | Inl e \<Rightarrow> (es, Inl e)
                     | Inr _ \<Rightarrow> (es, Inr \<lparr>art_path = dest,
                         art_integration_plan_id = ip_integration_plan_id plan, art_files = files\<rparr>)))))"

end
