(* ===== verification/PublishFacts.thy ===== *)
theory PublishFacts
  imports Publish
begin

text \<open>
  Lemmas about \<open>Publish\<close>: which errors each call can return, how a compilation can end, what the
  inventory lists, and that writing files that exclude each other builds the tree that holds them.
\<close>

section \<open>Facts: errors\<close>

text \<open>
  The two errors that speak about the state of the file system are made by \<open>compile_with_hook\<close>
  alone: everything it calls returns only plain errors.
\<close>

fun plain_error :: "okc_error \<Rightarrow> bool" where
  "plain_error (StagingDispositionFailed p c d) \<longleftrightarrow> False"
| "plain_error (PublishedButDurabilityUncertain p c) \<longleftrightarrow> False"
| "plain_error e \<longleftrightarrow> True"

definition plain :: "'a res \<Rightarrow> bool" where
  "plain r \<longleftrightarrow> (\<forall>e. r = Inl e \<longrightarrow> plain_error e)"

named_theorems plain_intros \<open>results with plain errors only\<close>

lemma plain_Inr [plain_intros]: "plain (Inr x)"
  by (simp add: plain_def)

lemma plain_Inl [plain_intros]: "plain_error e \<Longrightarrow> plain (Inl e)"
  by (simp add: plain_def)

lemma plain_reject [plain_intros]: "plain_error e \<Longrightarrow> plain (reject b e)"
  by (auto simp: plain_def)

lemma plain_seq [plain_intros]: "(\<And>c. c \<in> set cs \<Longrightarrow> plain c) \<Longrightarrow> plain (seq_checks cs)"
  unfolding plain_def seq_checks_Inl by (metis in_set_conv_decomp)

lemma plain_for_each [plain_intros]: "(\<And>x. x \<in> set xs \<Longrightarrow> plain (f x)) \<Longrightarrow> plain (for_each f xs)"
  by (auto simp: plain_def dest: for_each_Inl)

lemma plain_bind [plain_intros]: "plain r \<Longrightarrow> (\<And>x. r = Inr x \<Longrightarrow> plain (f x)) \<Longrightarrow> plain (bind_res r f)"
  by (cases r) (auto simp: plain_def)

lemma plain_and_then [plain_intros]: "plain r \<Longrightarrow> plain k \<Longrightarrow> plain (and_then r k)"
  by (cases r) (auto simp: plain_def)

lemma plain_done [plain_intros]: "plain r \<Longrightarrow> plain (done_with r)"
  by (cases r) (auto simp: plain_def)

lemma plain_require [plain_intros]: "plain_error e \<Longrightarrow> plain (require e x)"
  by (cases x) (auto simp: plain_def)

lemma plain_try_fold [plain_intros]: "(\<And>s x. x \<in> set xs \<Longrightarrow> plain (f s x)) \<Longrightarrow> plain (try_fold f s xs)"
proof (induction xs arbitrary: s)
  case (Cons x xs)
  from Cons.prems have "plain (f s x)" by simp
  with Cons show ?case by (cases "f s x") (auto simp: try_fold_Cons plain_def)
qed (simp add: plain_def)

lemma plain_try_map [plain_intros]: "(\<And>x. x \<in> set xs \<Longrightarrow> plain (f x)) \<Longrightarrow> plain (try_map f xs)"
proof (induction xs)
  case (Cons x xs)
  from Cons.prems have "plain (f x)" by simp
  moreover have "plain (try_map f xs)" by (rule Cons.IH) (simp add: Cons.prems)
  ultimately show ?case by (cases "f x"; cases "try_map f xs") (auto simp: plain_def)
qed (simp add: plain_def)

lemma plain_if [plain_intros]: "(b \<Longrightarrow> plain x) \<Longrightarrow> (\<not> b \<Longrightarrow> plain y) \<Longrightarrow> plain (if b then x else y)"
  by simp

lemma plain_option [plain_intros]:
  "plain x \<Longrightarrow> (\<And>y. v = Some y \<Longrightarrow> plain (f y)) \<Longrightarrow> plain (case v of None \<Rightarrow> x | Some y \<Rightarrow> f y)"
  by (cases v) auto

lemma plain_sum [plain_intros]:
  "(\<And>x. v = Inl x \<Longrightarrow> plain (f x)) \<Longrightarrow> (\<And>y. v = Inr y \<Longrightarrow> plain (g y)) \<Longrightarrow>
     plain (case v of Inl x \<Rightarrow> f x | Inr y \<Rightarrow> g y)"
  by (cases v) auto

lemma plain_prod [plain_intros]: "(\<And>a b. v = (a, b) \<Longrightarrow> plain (f a b)) \<Longrightarrow> plain (case v of (a, b) \<Rightarrow> f a b)"
  by (cases v) auto

lemma plain_list [plain_intros]:
  "plain x \<Longrightarrow> (\<And>y ys. v = y # ys \<Longrightarrow> plain (f y ys)) \<Longrightarrow> plain (case v of [] \<Rightarrow> x | y # ys \<Rightarrow> f y ys)"
  by (cases v) auto

lemma plain_archive_components [plain_intros]: "plain (archive_components raw cs)"
  by (induction cs) (auto intro!: plain_intros)

lemma plain_component [plain_intros]: "plain (validate_component c p)"
  unfolding validate_component_def by (auto intro!: plain_intros)

lemma plain_path_length [plain_intros]: "plain (validate_path_length c p)"
  unfolding validate_path_length_def by (auto intro!: plain_intros)

lemma plain_pair [plain_intros]: "plain (build_source_path_pair E cs d p)"
  unfolding build_source_path_pair_def Let_def by (auto intro!: plain_intros)

lemma plain_decode [plain_intros]: "plain (decode_archive_path E r b p)"
  unfolding decode_archive_path_def Let_def by (intro plain_intros) auto

lemma plain_relative [plain_intros]: "plain (validate_relative_path E path)"
  unfolding validate_relative_path_def validate_portable_relative_path_def by (auto intro!: plain_intros)

lemma plain_bounded [plain_intros]: "plain (validate_bounded_data v a b)"
  unfolding validate_bounded_data_def by (auto intro!: plain_intros)

lemma plain_rationale [plain_intros]: "plain (validate_optional_rationale r b)"
  unfolding validate_optional_rationale_def by (auto intro!: plain_intros)

lemma plain_markdown [plain_intros]: "plain (validate_markdown_body v)"
  unfolding validate_markdown_body_def by (auto intro!: plain_intros)

lemma plain_new_metadata [plain_intros]: "plain (new_metadata E d k i v)"
  unfolding new_metadata_def Let_def by (auto intro!: plain_intros)

lemma plain_new_source_id [plain_intros]: "plain (new_source_id s)"
  unfolding new_source_id_def by (auto intro!: plain_intros)

lemma plain_prefixes [plain_intros]: "plain (insert_prefixes E path m pre cs)"
  by (induction cs arbitrary: m pre) (auto simp: Let_def intro!: plain_intros)

lemma plain_insert_output [plain_intros]: "plain (insert_output_path E m path)"
  unfolding insert_output_path_def by (intro plain_intros)

lemma plain_corpus [plain_intros]: "plain (validate_corpus E c)"
  unfolding validate_corpus_def document_step_def block_step_def metadata_step_def
  by (auto intro!: plain_intros)

lemma plain_taxonomy [plain_intros]: "plain (validate_taxonomy E c t)"
  unfolding validate_taxonomy_def Let_def cluster_step_def assign_step_def
  by (auto intro!: plain_intros)

lemma plain_evidence [plain_intros]: "plain (validate_evidence d es)"
  unfolding validate_evidence_def evidence_step_def Let_def by (auto intro!: plain_intros)

lemma plain_critic [plain_intros]: "plain (validate_critic E p c d a)"
  unfolding validate_critic_def finding_step_def Let_def by (auto intro!: plain_intros)

lemma plain_cluster_approval [plain_intros]: "plain (validate_cluster_approval E p c a)"
  unfolding validate_cluster_approval_def by (auto intro!: plain_intros)

lemma plain_approval [plain_intros]: "plain (validate_approval a h)"
  unfolding validate_approval_def by (auto intro!: plain_intros)

lemma plain_revision [plain_intros]: "plain (validate_cluster_revision E c t cl r R)"
  unfolding validate_cluster_revision_def section_step_def contradiction_step_def claim_step_def Let_def
  by (auto intro!: plain_intros)

lemma plain_validate_plan [plain_intros]: "plain (validate_plan E p)"
  unfolding validate_plan_def revision_step_def Let_def by (auto intro!: plain_intros)

lemma plain_note [plain_intros]: "plain (render_canonical_note E p c r)"
  unfolding render_canonical_note_def render_link_def Let_def by (auto intro!: plain_intros)

lemma plain_files [plain_intros]: "plain (materialized_files E p)"
  unfolding materialized_files_def note_step_def stub_of_def Let_def by (auto intro!: plain_intros)

lemma plain_provenance [plain_intros]: "plain (provenance_jsonl E p fs)"
  unfolding provenance_jsonl_def provenance_of_def Let_def by (auto intro!: plain_intros)

lemma plain_syscall [plain_intros]: "plain (syscall F op path)"
  unfolding syscall_def by (auto intro!: plain_intros)

lemma plain_read [plain_intros]: "plain (read_regular_file F path x n)"
  unfolding read_regular_file_def by (cases x; cases "the x") (auto intro!: plain_intros)

lemma plain_require_dir [plain_intros]: "plain (require_regular_directory path x)"
  unfolding require_regular_directory_def by (cases x; cases "the x") (auto intro!: plain_intros)

lemma plain_walk_entry [plain_intros]: "plain below \<Longrightarrow> plain (walk_entry E F ex al path x below)"
  unfolding walk_entry_def Let_def by (cases x) (auto intro!: plain_intros)

lemma plain_walk [plain_intros]: "plain (walk E F ex al pre x)"
proof (induction E F ex al pre x rule: walk.induct)
  case (1 E F ex al pre es)
  then show ?case
    unfolding walk.simps(1) by (intro plain_intros) auto
qed (auto intro!: plain_intros)

section \<open>Facts: publication\<close>

lemma continue_Inr:
  "continue s k = (t, Inr y) \<longleftrightarrow> (\<exists>t' x. s = (t', Inr x) \<and> k t' x = (t, Inr y))"
  by (cases s; cases "snd s") (auto simp: continue_def)

lemma stage_verified:
  assumes "stage_contents E R F stage plan = (tree, Inr n)"
  shows "\<exists>m. verify E R F (Some (DirNode tree)) = Inr m"
  using assms unfolding stage_contents_def continue_Inr by auto

lemma btree_get_filter:
  "btree_ok es \<Longrightarrow> btree_get (filter (\<lambda>(n, _). n \<noteq> k) es) i = (if i = k then None else btree_get es i)"
proof (induction es)
  case (Cons e es)
  then show ?case
    by (cases e) (auto simp: btree_ok_def btree_get_def)
qed (simp add: btree_get_def)

text \<open>What other processes may do before the rename: anything but touch the staging entry.\<close>

definition leaves_stage_alone :: "(entries \<Rightarrow> entries) \<Rightarrow> string \<Rightarrow> bool" where
  "leaves_stage_alone interfere stage \<longleftrightarrow>
     (\<forall>es. btree_ok es \<longrightarrow> btree_ok (interfere es) \<and> btree_get (interfere es) stage = btree_get es stage)"

lemma publish_Inr:
  assumes "btree_ok es"
  shows "publish F stage dest es = Inr es' \<longleftrightarrow> F Rename = None \<and>
    (\<exists>x. btree_get es stage = Some x \<and> btree_get es dest = None \<and>
      es' = btree_insert dest x (remove_entry stage es))"
  by (auto simp: publish_def remove_entry_def split: option.splits)

lemma remove_entry_facts:
  assumes "btree_ok es"
  shows "btree_ok (remove_entry k es)"
    "btree_get (remove_entry k es) i = (if i = k then None else btree_get es i)"
proof -
  have "sorted_wrt (<) (map fst (filter P es))" for P
    using assms unfolding btree_ok_def by (induction es) auto
  then show "btree_ok (remove_entry k es)" by (simp add: remove_entry_def btree_ok_def)
  show "btree_get (remove_entry k es) i = (if i = k then None else btree_get es i)"
    using btree_get_filter [OF assms] by (simp add: remove_entry_def)
qed

lemma plain_inventory [plain_intros]: "plain (inventory_checked E F v ex al)"
  unfolding inventory_checked_def by (auto intro!: plain_intros)

lemma plain_plan_from_bytes [plain_intros]: "plain (plan_from_bytes R b)"
  unfolding plan_from_bytes_def by (auto intro!: plain_intros)

lemma plain_verify [plain_intros]: "plain (verify E R F x)"
  unfolding verify_def Let_def by (intro plain_intros; simp)

lemma plain_write [plain_intros]: "plain (write_new_file E F t p b)"
  unfolding write_new_file_def by (auto intro!: plain_intros)

lemma plain_write_files: "plain (snd (write_files E F t fs))"
  by (induction E F t fs rule: write_files.induct)
    (auto intro: plain_intros simp: plain_def split: sum.splits dest: plain_write [unfolded plain_def, rule_format])

lemma plain_continue:
  "plain (snd s) \<Longrightarrow> (\<And>t x. plain (snd (k t x))) \<Longrightarrow> plain (snd (continue s k))"
  by (cases s; cases "snd s") (auto simp: continue_def plain_def)

lemma plain_stage: "plain (snd (stage_contents E R F stage plan))"
  unfolding stage_contents_def
  by (intro plain_continue plain_write_files) (auto intro!: plain_intros)

lemma abandon_stage_facts:
  assumes ok: "btree_ok es" and run: "abandon_stage F stage es e = (es', e')"
  shows "i \<noteq> stage \<Longrightarrow> btree_get es' i = btree_get es i"
    "(\<exists>c d. e' = StagingDispositionFailed stage c d) \<or> (btree_get es' stage = None \<and> e' = e)"
  using run
  by (auto simp: abandon_stage_def remove_entry_facts [OF ok] split: option.splits)

text \<open>How a compilation can end.\<close>

definition published :: "externs \<Rightarrow> readers \<Rightarrow> faults \<Rightarrow> string \<Rightarrow> string \<Rightarrow> entries \<Rightarrow> bool" where
  "published E R F stage dest es \<longleftrightarrow> (\<exists>tree m. btree_get es dest = Some (DirNode tree) \<and>
     verify E R F (Some (DirNode tree)) = Inr m \<and> btree_get es stage = None)"

definition not_published :: "string \<Rightarrow> string \<Rightarrow> entries \<Rightarrow> okc_error \<Rightarrow> entries \<Rightarrow> bool" where
  "not_published stage dest before e es \<longleftrightarrow> btree_get es dest = btree_get before dest \<and>
     (\<forall>p c. e \<noteq> PublishedButDurabilityUncertain p c) \<and>
     ((\<exists>c d. e = StagingDispositionFailed stage c d) \<or> btree_get es stage = None)"

lemma abandon_not_published:
  assumes ok: "btree_ok es" and run: "abandon_stage F stage es e = (es', e')" and "plain_error e"
    and "stage \<noteq> dest" and "btree_get es dest = btree_get before dest"
  shows "not_published stage dest before e' es'"
  using abandon_stage_facts(1) [OF ok run, of dest] abandon_stage_facts(2) [OF ok run] assms(3-5)
  by (auto simp: not_published_def)

section \<open>Facts: the walk\<close>

fun leaf_bytes :: "node \<Rightarrow> bytes" where
  "leaf_bytes (FileNode b) = b"
| "leaf_bytes _ = []"

definition is_file :: "node \<Rightarrow> bool" where
  "is_file x \<longleftrightarrow> (\<exists>b. x = FileNode b)"

text \<open>The files below a node, as the inventory names them.\<close>

definition listed :: "string list \<Rightarrow> node \<Rightarrow> files" where
  "listed pre x = map (\<lambda>(p, l). (join_path (pre @ p), leaf_bytes l)) (leaves x)"

lemma listed_dir:
  "listed pre (DirNode es) = concat (map (\<lambda>(n, x). listed (pre @ [n]) x) es)"
  by (simp add: listed_def map_concat o_def split_beta')

lemma listed_file [simp]: "listed pre (FileNode b) = [(join_path pre, b)]"
  by (simp add: listed_def)

definition keep :: "string list \<Rightarrow> files \<Rightarrow> files" where
  "keep excluded = filter (\<lambda>f. fst f \<notin> set excluded)"

lemma walk_entry_Inr:
  assumes "walk_entry E F ex al path x below = Inr fs"
  shows "(\<exists>es. x = DirNode es) \<and> below = Inr fs \<or>
    (\<exists>b. x = FileNode b \<and> fs = map (manifest_file_of E) (keep ex [(path, b)]))"
  using assms
  by (cases x) (auto simp: walk_entry_def keep_def read_regular_file_def Let_def split: if_splits)

lemma walk_lists:
  assumes "walk E F ex al pre x = Inr fs"
  shows "fs = map (manifest_file_of E) (keep ex (listed pre x)) \<and> (\<forall>(p, l) \<in> set (leaves x). is_file l)"
  using assms
proof (induction E F ex al pre x arbitrary: fs rule: walk.induct)
  case (1 E F ex al pre es)
  let ?f = "\<lambda>(name, x). walk_entry E F ex al (join_path (pre @ [name])) x (walk E F ex al (pre @ [name]) x)"
  from 1(2) obtain parts where fs: "fs = concat parts" and parts: "list_all2 (\<lambda>e p. ?f e = Inr p) es parts"
    unfolding walk.simps(1) and_then_simps bind_res_simps try_map_Inr by auto
  have part: "part = map (manifest_file_of E) (keep ex (listed (pre @ [name]) x)) \<and> (\<forall>(p, l) \<in> set (leaves x). is_file l)"
    if e: "(name, x) \<in> set es" and c: "?f (name, x) = Inr part" for name x part
  proof -
    from c have "walk_entry E F ex al (join_path (pre @ [name])) x (walk E F ex al (pre @ [name]) x) = Inr part" by simp
    from walk_entry_Inr [OF this] show ?thesis
    proof (elim disjE conjE exE)
      assume "walk E F ex al (pre @ [name]) x = Inr part"
      with 1(1) [OF e refl] show ?thesis by blast
    qed (simp add: is_file_def)
  qed
  have "concat parts = map (manifest_file_of E) (keep ex (concat (map (\<lambda>(n, x). listed (pre @ [n]) x) es))) \<and>
      (\<forall>(n, x) \<in> set es. \<forall>(p, l) \<in> set (leaves x). is_file l)"
    using parts part
  proof (induction es parts rule: list_all2_induct)
    case (Cons e es part parts)
    obtain n x where e: "e = (n, x)" by (cases e)
    have "part = map (manifest_file_of E) (keep ex (listed (pre @ [n]) x)) \<and> (\<forall>(p, l) \<in> set (leaves x). is_file l)"
      by (rule Cons.prems) (use Cons.hyps e in simp_all)
    moreover have "concat parts = map (manifest_file_of E) (keep ex (concat (map (\<lambda>(n, x). listed (pre @ [n]) x) es))) \<and>
        (\<forall>(n, x) \<in> set es. \<forall>(p, l) \<in> set (leaves x). is_file l)"
      by (rule Cons.IH) (rule Cons.prems, auto)
    ultimately show ?case by (auto simp: e keep_def)
  qed (simp add: keep_def)
  then show ?case unfolding fs listed_dir by (fastforce simp: keep_def)
qed simp_all

lemma inventory_lists:
  assumes "inventory_checked E F x ex al = Inr fs"
  shows "fs = sort_key mf_path (map (manifest_file_of E) (keep ex (listed [] x))) \<and>
    (\<forall>(p, l) \<in> set (leaves x). is_file l)"
  using assms walk_lists unfolding inventory_checked_def by fastforce

text \<open>What the content hash of an inventory entry is computed on.\<close>

definition content_text :: "bytes \<Rightarrow> bytes" where
  "content_text b = domain ''okc:content:v3'' @ b"

lemma manifest_file_inj:
  assumes "manifest_file_of E f = manifest_file_of E g"
  shows "f = g \<or> fst f = fst g \<and> collides_on E (content_text (snd f)) (content_text (snd g))"
  using assms by (cases f; cases g)
    (auto simp: manifest_file_of_def from_domain_bytes_def collides_on_def content_text_def)

lemma manifest_sets_equal:
  assumes "manifest_file_of E ` A = manifest_file_of E ` B"
  shows "A = B \<or> (\<exists>path a b. (path, a) \<in> A \<and> (path, b) \<in> B \<and> collides_on E (content_text a) (content_text b))"
proof (rule disjCI)
  assume free: "\<nexists>path a b. (path, a) \<in> A \<and> (path, b) \<in> B \<and> collides_on E (content_text a) (content_text b)"
  have sub: "f \<in> Y" if "manifest_file_of E ` X = manifest_file_of E ` Y" "f \<in> X"
    and none: "\<nexists>path a b. (path, a) \<in> X \<and> (path, b) \<in> Y \<and> collides_on E (content_text a) (content_text b)"
    for X Y f
  proof -
    from that obtain g where g: "g \<in> Y" "manifest_file_of E f = manifest_file_of E g" by blast
    from manifest_file_inj [OF g(2)] none g(1) that(2) show ?thesis
      by (metis prod.collapse)
  qed
  have "\<nexists>path a b. (path, a) \<in> B \<and> (path, b) \<in> A \<and> collides_on E (content_text a) (content_text b)"
    using free unfolding collides_on_def by metis
  with free assms show "A = B" by (blast intro: sub sub [OF sym])
qed

section \<open>Facts: verification\<close>

text \<open>Every file of a compiled vault: the materialised files and the four audit files.\<close>

definition manifest_bytes_of :: "externs \<Rightarrow> integration_plan \<Rightarrow> files \<Rightarrow> bytes \<Rightarrow> bytes" where
  "manifest_bytes_of E plan files provenance = to_canonical_json_pretty E (json_of_manifest E
     (manifest_of plan (inventory_from_bytes E (audit_files E plan files provenance))))"

definition listed_files :: "externs \<Rightarrow> integration_plan \<Rightarrow> files \<Rightarrow> bytes \<Rightarrow> files" where
  "listed_files E plan files provenance = audit_files E plan files provenance @
     [(okc_path ''manifest.json'', manifest_bytes_of E plan files provenance)]"

definition vault_files :: "externs \<Rightarrow> integration_plan \<Rightarrow> files \<Rightarrow> bytes \<Rightarrow> files" where
  "vault_files E plan files provenance = listed_files E plan files provenance @
     [(okc_path ''checksums.txt'', checksum_text (inventory_from_bytes E (listed_files E plan files provenance)))]"

lemma inventory_snoc:
  "sort_key mf_path (inventory_from_bytes E fs @ [manifest_file_of E f]) = inventory_from_bytes E (fs @ [f])"
proof -
  have "sort_key k (sort_key k xs @ [y]) = sort_key k (xs @ [y])" for k :: "'a \<Rightarrow> 'b::linorder" and xs y
  proof (rule properties_for_sort_key)
    show "filter (\<lambda>x. k i = k x) (sort_key k (xs @ [y])) = filter (\<lambda>x. k i = k x) (sort_key k xs @ [y])" for i
      using sort_key_stable [of k "k i" "xs @ [y]"] sort_key_stable [of k "k i" xs]
      by (simp add: eq_commute [of "k i"])
  qed simp_all
  then show ?thesis by (simp add: inventory_from_bytes_def)
qed

lemma require_dir_Inr: "require_regular_directory path x = Inr () \<longleftrightarrow> (\<exists>es. x = Some (DirNode es))"
  by (auto simp: require_regular_directory_def split: option.splits node.splits)

section \<open>Facts: building a tree\<close>

definition no_faults :: faults where
  "no_faults = (\<lambda>_. None)"

lemma syscall_no_faults [simp]: "syscall no_faults op path = Inr ()"
  by (simp add: syscall_def no_faults_def)

definition prefix_free :: "string list \<Rightarrow> bool" where
  "prefix_free ps \<longleftrightarrow> distinct ps \<and>
     (\<forall>p \<in> set ps. \<forall>q \<in> set ps. prefix (split_path p) (split_path q) \<longrightarrow> p = q)"

lemma prefix_free_snocD: "prefix_free (ps @ qs) \<Longrightarrow> prefix_free ps"
  by (auto simp: prefix_free_def)

lemma no_collision_prefix_free:
  assumes "no_portable_collision E ps"
  shows "prefix_free ps"
proof -
  have "p = q" if p: "p \<in> set ps" and q: "q \<in> set ps" and pre: "prefix (split_path p) (split_path q)" for p q
  proof -
    have le: "path_depth p \<le> path_depth q" using pre by (simp add: path_depth_def prefix_length_le)
    from pre have "take (path_depth p) (split_path q) = split_path p"
      by (auto simp: prefix_def path_depth_def)
    then have eq: "path_prefix q (path_depth p) = p" by (simp add: path_prefix_def)
    have "path_depth p = path_depth p \<longleftrightarrow> path_depth p = path_depth q"
      using assms p q le eq unfolding no_portable_collision_def
      by (metis atLeastAtMost_iff less_eq_Suc_le One_nat_def order.refl path_depth_pos path_prefix_full)
    with eq show "p = q" by (metis path_prefix_full)
  qed
  with assms show ?thesis by (auto simp: prefix_free_def no_portable_collision_def)
qed

text \<open>A tree that holds exactly the given files.\<close>

definition holds :: "entries \<Rightarrow> files \<Rightarrow> bool" where
  "holds t fs \<longleftrightarrow> tree_ok (DirNode t) \<and>
     set (leaves (DirNode t)) = (\<lambda>(path, b). (split_path path, FileNode b)) ` set fs"

lemma holds_empty: "holds [] []"
  by (simp add: holds_def btree_ok_def)

lemma write_new_file_holds:
  assumes "holds t fs" and "prefix_free (map fst fs @ [path])" and "portable_path E default_policy path"
  shows "\<exists>t'. write_new_file E no_faults t path b = Inr t' \<and> holds t' (fs @ [(path, b)])"
proof -
  from assms(1) have ok: "tree_ok (DirNode t)"
    and leaves: "set (leaves (DirNode t)) = (\<lambda>(path, b). (split_path path, FileNode b)) ` set fs"
    by (simp_all add: holds_def del: tree_ok.simps leaves.simps)
  have room: "room_for (DirNode t) (split_path path)"
    unfolding room_for_def leaves
  proof (clarsimp, intro conjI notI)
    fix q c assume q: "(q, c) \<in> set fs"
    then have mem: "q \<in> set (map fst fs @ [path])" "path \<in> set (map fst fs @ [path])" "q \<noteq> path"
      using assms(2) by (force simp: prefix_free_def)+
    show False if "prefix (split_path path) (split_path q)"
      using assms(2) mem that unfolding prefix_free_def by blast
    show False if "prefix (split_path q) (split_path path)"
      using assms(2) mem that unfolding prefix_free_def by blast
  qed
  obtain t' where "put_file t (split_path path) b = Inr t'" "tree_ok (DirNode t')"
    "set (leaves (DirNode t')) = insert (split_path path, FileNode b) (set (leaves (DirNode t)))"
    using put_file_adds [OF ok split_path_nonempty room, of b] by blast
  with assms(3) leaves show ?thesis
    by (auto simp: write_new_file_def validate_relative_iff holds_def simp del: tree_ok.simps leaves.simps)
qed

lemma write_files_holds:
  assumes "holds t fs" and "prefix_free (map fst (fs @ gs))"
    and "\<forall>(path, b) \<in> set gs. portable_path E default_policy path"
  shows "\<exists>t'. write_files E no_faults t gs = (t', Inr ()) \<and> holds t' (fs @ gs)"
  using assms
proof (induction gs arbitrary: t fs)
  case (Cons g gs)
  obtain path b where g: "g = (path, b)" by (cases g)
  have "prefix_free ((map fst fs @ [path]) @ map fst gs)" using Cons.prems(2) g by simp
  then have "prefix_free (map fst fs @ [path])" by (rule prefix_free_snocD)
  then obtain t' where t': "write_new_file E no_faults t path b = Inr t'" "holds t' (fs @ [(path, b)])"
    using write_new_file_holds [OF Cons.prems(1)] Cons.prems(3) g by fastforce
  from Cons.IH [OF t'(2)] Cons.prems(2,3) g obtain t'' where
    "write_files E no_faults t' gs = (t'', Inr ())" "holds t'' ((fs @ [(path, b)]) @ gs)" by auto
  with t' g show ?case by simp
qed simp

section \<open>Facts: what a tree holds\<close>

lemma leaves_distinct: "tree_ok x \<Longrightarrow> distinct (map fst (leaves x))"
proof (induction x rule: leaves.induct)
  case (1 es)
  have names: "distinct (map fst es)" using 1(2) by (auto intro: btree_ok_distinct)
  have sub: "distinct (map fst (leaves x))" if "(n, x) \<in> set es" for n x
    using 1(1) [OF that refl] 1(2) that by fastforce
  show ?case
    using names sub
  proof (induction es)
    case (Cons e es)
    obtain n x where e: "e = (n, x)" by (cases e)
    have "distinct (map fst (leaves (DirNode es)))"
      by (rule Cons.IH) (use Cons.prems(1) in simp, rule Cons.prems(2), erule list.set_intros(2))
    moreover have "distinct (map (\<lambda>y. n # fst y) (leaves x))"
      using Cons.prems(2) [of n x] e by (simp add: distinct_map inj_on_def)
    moreover have "n # q \<notin> set (map fst (leaves (DirNode es)))" for q
      using Cons.prems(1) e by (force simp: image_iff)
    ultimately show ?case
      by (auto simp: e o_def split_beta')
  qed simp
qed simp_all

lemma find_leaf:
  "tree_ok (DirNode es) \<Longrightarrow> (p, l) \<in> set (leaves (DirNode es)) \<Longrightarrow> find_node es p = Some l"
proof (induction es p rule: find_node.induct)
  case (2 es n ns)
  then have ok: "btree_ok es" by simp
  from 2(3) obtain x where x: "btree_get es n = Some x" "(ns, l) \<in> set (leaves x)"
    unfolding leaves_Cons [OF ok] by blast
  with 2(2) have "tree_ok x" unfolding tree_ok_get by blast
  with x 2(1) show ?case by (cases x) (auto simp del: leaves.simps(1))
qed (auto simp del: leaves.simps(1))

lemma between_prefix:
  fixes pre :: string
  shows "pre \<le> c \<Longrightarrow> c \<le> k \<Longrightarrow> prefix pre k \<Longrightarrow> prefix pre c"
proof (induction pre arbitrary: c k)
  case (Cons a pre)
  then obtain k' where k: "k = a # k'" "prefix pre k'" by (cases k) auto
  with Cons.prems obtain c' where "c = a # c'" "pre \<le> c'" "c' \<le> k'"
    by (cases c) (auto simp: list_le_def list_less_def lexord_cons_cons split: if_splits)
  with Cons.IH k(2) show ?case by simp
qed simp

lemma prefix_le:
  fixes pre :: string
  shows "prefix pre k \<Longrightarrow> pre \<le> k"
  by (auto simp: prefix_def list_le_def list_less_def lexord_def) (metis append_Nil2 list.exhaust)

lemma find_first_sorted:
  fixes m :: "('k::linorder \<times> 'v) list"
  assumes "btree_ok m" and "(k, v) \<in> set m" and "lo \<le> k"
  shows "\<exists>c w. List.find (\<lambda>(c, _). lo \<le> c) m = Some (c, w) \<and> lo \<le> c \<and> c \<le> k"
  using assms
proof (induction m)
  case (Cons e m)
  obtain c w where e: "e = (c, w)" by (cases e)
  show ?case
  proof (cases "lo \<le> c")
    case True
    have "c \<le> k" using Cons.prems(1,2) e by (auto simp: btree_ok_def)
    with True e show ?thesis by simp
  next
    case False
    with Cons.prems e have "(k, v) \<in> set m" by auto
    with Cons e False show ?thesis by (simp add: btree_ok_def)
  qed
qed simp

lemma plans_below_intro:
  assumes "btree_ok ps" and "btree_get ps k = Some n" and "prefix pre k"
  shows "plans_below ps pre"
proof -
  have "(k, n) \<in> set ps" using assms(1,2) by (simp add: bt.entries_get)
  from find_first_sorted [OF assms(1) this prefix_le [OF assms(3)]] obtain c w where
    "List.find (\<lambda>(c, _). pre \<le> c) ps = Some (c, w)" "pre \<le> c" "c \<le> k" by blast
  with between_prefix [OF _ _ assms(3)] show ?thesis by (simp add: plans_below_def)
qed

lemma join_path_take_le: "length (join_path (take n cs)) \<le> length (join_path cs)"
  unfolding join_path_def
proof (induction "''/''" cs arbitrary: n rule: join_with.induct)
  case (3 a b cs)
  show ?case
  proof (cases n)
    case (Suc k)
    with 3 [of k] show ?thesis by (cases k) auto
  qed simp
qed (simp_all add: take_Cons')

lemma portable_prefix:
  assumes "portable_path E p path" and "0 < n"
  shows "portable_path E p (path_prefix path n)"
proof -
  have split: "split_path (path_prefix path n) = take n (split_path path)"
    using assms(2) unfolding path_prefix_def
    by (intro split_path_join) (auto dest: in_set_takeD split_path_pieces)
  have pieces: "\<forall>c \<in> set (take n (split_path path)). component_ok p c \<and> component_ok p (nfc E c)"
    using assms(1) by (auto simp: portable_path_def dest: in_set_takeD)
  have len: "length (path_prefix path n) \<le> length path"
    using join_path_take_le [of n "split_path path"] by (simp add: path_prefix_def)
  have len': "length (join_path (map (nfc E) (take n (split_path path)))) \<le>
      length (join_path (map (nfc E) (split_path path)))"
    by (simp only: take_map [symmetric] join_path_take_le)
  have pre: "prefix (path_prefix path n) path"
  proof -
    have "prefix (join_path (take n cs)) (join_path cs)" for cs
      unfolding join_path_def
    proof (induction "''/''" cs arbitrary: n rule: join_with.induct)
      case (3 a b cs)
      show ?case
      proof (cases n)
        case (Suc k)
        with 3 [of k] show ?thesis by (cases k) auto
      qed simp
    qed (simp_all add: take_Cons')
    from this [of "split_path path"] show ?thesis by (simp add: path_prefix_def)
  qed
  then have chars: "set (path_prefix path n) \<subseteq> set path" by (rule set_mono_prefix)
  have "\<not> prefix ''/'' (path_prefix path n)"
    using assms(1) pre by (auto simp: portable_path_def dest: prefix_order.trans)
  with assms(1) chars pieces len len' show ?thesis
    by (auto simp: portable_path_def split)
qed

text \<open>A leaf that the inventory accepts.\<close>

definition leaf_allowed :: "externs \<Rightarrow> (string, nat) btree option \<Rightarrow> string \<Rightarrow> bytes \<Rightarrow> bool" where
  "leaf_allowed E allowed path b \<longleftrightarrow> portable_path E default_policy path \<and>
     (case allowed of None \<Rightarrow> length b \<le> u64_max
      | Some ps \<Rightarrow> btree_ok ps \<and> (\<exists>n. btree_get ps path = Some n \<and> length b \<le> n))"

lemma walk_succeeds:
  assumes "tree_ok x" and "\<exists>es. x = DirNode es"
    and "\<forall>(p, l) \<in> set (leaves x). leaf_allowed E al (join_path (pre @ p)) (leaf_bytes l)"
    and "\<forall>(p, l) \<in> set (leaves x). \<forall>c \<in> set (pre @ p). CHR ''/'' \<notin> set c"
  shows "walk E no_faults ex al pre x = Inr (map (manifest_file_of E) (keep ex (listed pre x)))"
  using assms
proof (induction E no_faults ex al pre x rule: walk.induct)
  case (1 E ex al pre es)
  let ?g = "\<lambda>(n, x). map (manifest_file_of E) (keep ex (listed (pre @ [n]) x))"
  have entry: "walk_entry E no_faults ex al (join_path (pre @ [n])) x (walk E no_faults ex al (pre @ [n]) x) = Inr (?g (n, x))"
    if e: "(n, x) \<in> set es" for n x
  proof -
    have xok: "tree_ok x" "x \<noteq> DirNode []" using 1(2) e by auto
    have mem: "(n # p, l) \<in> set (leaves (DirNode es))" if "(p, l) \<in> set (leaves x)" for p l
      using that e unfolding leaves_dir_iff by blast
    have leafs: "leaf_allowed E al (join_path ((pre @ [n]) @ p)) (leaf_bytes l)"
      "\<forall>c \<in> set ((pre @ [n]) @ p). CHR ''/'' \<notin> set c" if "(p, l) \<in> set (leaves x)" for p l
      using 1(4,5) mem [OF that] by fastforce+
    show ?thesis
    proof (cases x)
      case (FileNode b)
      with leafs(1) [of "[]" "FileNode b"] have la: "leaf_allowed E al (join_path (pre @ [n])) b" by simp
      then show ?thesis
        by (cases al)
          (auto simp: FileNode walk_entry_def leaf_allowed_def validate_relative_iff keep_def
            read_regular_file_def Let_def)
    next
      case (DirNode sub)
      obtain q l where q: "(q, l) \<in> set (leaves x)"
        using leaves_nonempty [OF xok] by (cases "leaves x") auto
      with DirNode have qn: "q \<noteq> []" by auto
      note la = leafs [OF q]
      have split: "split_path (join_path ((pre @ [n]) @ q)) = (pre @ [n]) @ q"
        using la(2) by (intro split_path_join) auto
      have dir: "join_path (pre @ [n]) = path_prefix (join_path ((pre @ [n]) @ q)) (length (pre @ [n]))"
        unfolding path_prefix_def split by simp
      have portable: "portable_path E default_policy (join_path (pre @ [n]))"
        unfolding dir using la(1) by (intro portable_prefix) (auto simp: leaf_allowed_def)
      have below: "prefix (join_path (pre @ [n]) @ ''/'') (join_path ((pre @ [n]) @ q))"
      proof -
        have "join_path (a @ q) = join_path a @ ''/'' @ join_path q" if "a \<noteq> []" for a
          using that qn unfolding join_path_def
          by (induction "''/''" a rule: join_with.induct) (auto simp: join_with_Cons)
        from this [of "pre @ [n]"] show ?thesis by (simp only: append_assoc) simp
      qed
      have allowed: "\<not> (case al of None \<Rightarrow> False | Some ps \<Rightarrow> \<not> plans_below ps (join_path (pre @ [n]) @ ''/''))"
        using la(1) below by (auto simp: leaf_allowed_def split: option.splits intro: plans_below_intro)
      have "walk E no_faults ex al (pre @ [n]) x = Inr (map (manifest_file_of E) (keep ex (listed (pre @ [n]) x)))"
      proof (rule 1(1) [OF e refl xok(1)])
        show "\<exists>es. x = DirNode es" using DirNode by blast
      qed (use leafs in blast)+
      with portable allowed show ?thesis
        by (simp add: DirNode walk_entry_def validate_relative_iff del: walk.simps)
    qed (use xok(1) in simp_all)
  qed
  then have "try_map (\<lambda>(n, x). walk_entry E no_faults ex al (join_path (pre @ [n])) x
      (walk E no_faults ex al (pre @ [n]) x)) es = Inr (map ?g es)"
    by (intro try_map_total) auto
  moreover have "concat (map ?g es) = map (manifest_file_of E) (keep ex (listed pre (DirNode es)))"
    unfolding listed_dir by (induction es) (auto simp: keep_def)
  ultimately show ?case by (simp add: walk.simps(1) del: leaves.simps)
qed simp_all

section \<open>Facts: compilation without faults\<close>

lemma holds_listed:
  assumes "holds t fs" and "prefix_free (map fst fs)"
  shows "mset (listed [] (DirNode t)) = mset fs"
proof -
  have ok: "tree_ok (DirNode t)"
    and leaves: "set (leaves (DirNode t)) = (\<lambda>(path, b). (split_path path, FileNode b)) ` set fs"
    using assms(1) by (simp_all add: holds_def del: tree_ok.simps leaves.simps)
  have sets: "set (listed [] (DirNode t)) = set fs"
    unfolding listed_def set_map leaves image_image by (force simp: split_beta')
  have "inj_on join_path (fst ` set (leaves (DirNode t)))"
    unfolding leaves image_image by (rule inj_onI) (auto simp: split_beta')
  then have "distinct (map join_path (map fst (leaves (DirNode t))))"
    using leaves_distinct [OF ok] by (simp only: distinct_map [of join_path] set_map)
  then have "distinct (map fst (listed [] (DirNode t)))"
    by (simp add: listed_def o_def split_beta' del: leaves.simps)
  then have "distinct (listed [] (DirNode t))" by (rule distinct_map [THEN iffD1, THEN conjunct1])
  moreover have "distinct fs"
    using assms(2) by (auto simp: prefix_free_def intro: distinct_map [THEN iffD1, THEN conjunct1])
  ultimately show ?thesis using sets by (metis set_eq_iff_mset_eq_distinct)
qed

lemma inventory_perm:
  assumes "mset fs = mset gs" and "distinct (map fst gs)"
  shows "sort_key mf_path (map (manifest_file_of E) fs) = inventory_from_bytes E gs"
  unfolding inventory_from_bytes_def
proof (rule sort_key_inj_permute)
  show "mset (map (manifest_file_of E) fs) = mset (map (manifest_file_of E) gs)" using assms(1) by simp
  have "distinct (map fst fs)" using assms mset_eq_imp_distinct_iff by (metis mset_map)
  then have "distinct (map mf_path (map (manifest_file_of E) fs))"
    by (simp add: o_def manifest_file_of_def split_beta')
  then show "inj_on mf_path (set (map (manifest_file_of E) fs))" by (simp only: distinct_map)
qed

lemma inventory_of_holds:
  assumes "holds t fs" and "prefix_free (map fst fs)"
    and "\<forall>(path, b) \<in> set fs. leaf_allowed E al path b" and "\<forall>f \<in> set fs. fst f \<notin> set ex"
  shows "inventory_checked E no_faults (DirNode t) ex al = Inr (inventory_from_bytes E fs)"
proof -
  have ok: "tree_ok (DirNode t)"
    and leaves: "set (leaves (DirNode t)) = (\<lambda>(path, b). (split_path path, FileNode b)) ` set fs"
    using assms(1) by (simp_all add: holds_def del: tree_ok.simps leaves.simps)
  note perm = holds_listed [OF assms(1,2)]
  have "walk E no_faults ex al [] (DirNode t) =
      Inr (map (manifest_file_of E) (keep ex (listed [] (DirNode t))))"
  proof (rule walk_succeeds [OF ok])
    show "\<forall>(p, l) \<in> set (leaves (DirNode t)). leaf_allowed E al (join_path ([] @ p)) (leaf_bytes l)"
      unfolding leaves using assms(3) by auto
    show "\<forall>(p, l) \<in> set (leaves (DirNode t)). \<forall>c \<in> set ([] @ p). CHR ''/'' \<notin> set c"
      unfolding leaves by (auto dest: split_path_pieces)
  qed blast
  moreover have "keep ex (listed [] (DirNode t)) = listed [] (DirNode t)"
    unfolding keep_def using assms(4) mset_eq_setD [OF perm] by (intro filter_True) simp
  ultimately show ?thesis
    using inventory_perm [OF perm] assms(2)
    by (simp add: inventory_checked_def require_regular_directory_def prefix_free_def del: walk.simps)
qed

text \<open>Normalisation leaves ASCII text alone.\<close>

definition nfc_ascii :: "externs \<Rightarrow> bool" where
  "nfc_ascii E \<longleftrightarrow> (\<forall>s. (\<forall>c \<in> set s. of_char c < (128 :: nat)) \<longrightarrow> nfc E s = s)"

text \<open>The audit files.\<close>

definition okc_names :: "string list" where
  "okc_names = [''integration-plan.json'', ''provenance.jsonl'', ''manifest.json'', ''checksums.txt'']"

lemma okc_portable:
  assumes "nfc_ascii E" and mem: "name \<in> set okc_names"
  shows "portable_path E default_policy (okc_path name)" "split_path (okc_path name) = [''.okc'', name]"
proof -
  note name = mem [unfolded okc_names_def]
  have nosep: "\<forall>c \<in> set [''.okc'', name]. CHR ''/'' \<notin> set c" using name by auto
  then show split: "split_path (okc_path name) = [''.okc'', name]"
    unfolding okc_path_def by (intro split_path_join) simp_all
  have nfc: "nfc E ''.okc'' = ''.okc''" "nfc E name = name"
    using assms name unfolding nfc_ascii_def by (force, fastforce)
  have comp: "component_ok default_policy ''.okc''" "component_ok default_policy name"
    using name unfolding component_ok_def validate_component_def
    by (auto simp: default_policy_def default_limits_def chars_def forbidden_scalar_def is_control_def
        reserved_names_def to_ascii_uppercase_def ascii_upper_def Let_def suffix_def utf8_width_def)
  have len: "length (okc_path name) \<le> max_path_bytes (limits default_policy)"
    using name by (auto simp: okc_path_def join_path_def default_policy_def default_limits_def)
  have "join_path (map (nfc E) [''.okc'', name]) = okc_path name" by (simp add: nfc okc_path_def)
  with nfc comp len name show "portable_path E default_policy (okc_path name)"
    unfolding portable_path_def split by (auto simp: okc_path_def join_path_def)
qed

lemma write_one:
  "write_files E no_faults t [(path, b)] = (t', Inr ()) \<longleftrightarrow> write_new_file E no_faults t path b = Inr t'"
  by (auto split: sum.splits)

text \<open>The paths of a vault exclude each other.\<close>

lemma vault_paths:
  assumes ok: "plan_ok E p" and nfc: "nfc_ascii E"
  shows "prefix_free (map fst (vault_files E p (output_files E p) prov))"
    "\<forall>(path, b) \<in> set (vault_files E p (output_files E p) prov). portable_path E default_policy path"
    "\<forall>f \<in> set (output_files E p). fst f \<notin> range okc_path"
proof -
  let ?cs = "ta_clusters (ip_taxonomy p)" and ?ds = "co_documents (ip_corpus p)"
  let ?names = okc_names
  let ?all = "map fst (vault_files E p (output_files E p) prov)"
  have all: "?all = map fst (output_files E p) @ map okc_path ?names"
    by (simp add: vault_files_def listed_files_def audit_files_def okc_names_def)
  have free: "no_portable_collision E (map knowledge_path ?cs)" "no_portable_collision E (map legacy_path ?ds)"
    and port: "\<forall>c \<in> set ?cs. portable_path E default_policy (knowledge_path c)"
      "\<forall>d \<in> set ?ds. portable_path E default_policy (legacy_path d)"
    using ok by (simp_all add: plan_ok_def taxonomy_valid_def corpus_valid_def Let_def)
  note paths_of = output_files_paths [OF ok]
  have okc: "split_path (okc_path n) = [''.okc'', n]" "portable_path E default_policy (okc_path n)"
    if "n \<in> set ?names" for n
  using okc_portable [OF nfc that] by blast+
  have know: "split_path (knowledge_path c) = ''knowledge'' # split_path (cl_canonical_path c)" for c
    using split_path_prefix [of "''knowledge''" "cl_canonical_path c"] by (simp add: knowledge_path_def)
  have leg: "split_path (legacy_path d) =
      ''legacy'' # split_path (source_str (doc_source_id d) @ ''/'' @ doc_original_path d)" for d
    using split_path_prefix [of "''legacy''" "source_str (doc_source_id d) @ ''/'' @ doc_original_path d"]
    by (simp add: legacy_path_def)
  note heads = know leg
  have kinds: "q \<in> knowledge_path ` set ?cs \<or> q \<in> legacy_path ` set ?ds \<or> q \<in> okc_path ` set ?names"
    if "q \<in> set ?all" for q
    using that paths_of(1) unfolding all set_append Un_iff set_map [of okc_path] by blast
  have apart: "okc_path n \<noteq> knowledge_path c" "okc_path n \<noteq> legacy_path d" for n c d
    by (simp_all add: okc_path_def join_path_def knowledge_path_def legacy_path_def)
  show out: "\<forall>f \<in> set (output_files E p). fst f \<notin> range okc_path"
  proof (intro ballI notI)
    fix f assume "f \<in> set (output_files E p)" and "fst f \<in> range okc_path"
    then obtain n where "okc_path n \<in> set (map fst (output_files E p))" by (metis image_iff list.set_map)
    then show False unfolding paths_of(1) using apart by auto
  qed
  have "distinct (map okc_path ?names)" by (simp add: okc_path_def join_path_def okc_names_def)
  moreover have "distinct (map fst (output_files E p))" using paths_of(2) by (rule strict_sorted_distinct)
  moreover have "set (map fst (output_files E p)) \<inter> set (map okc_path ?names) = {}"
    unfolding paths_of(1) using apart by auto
  ultimately have dist: "distinct ?all" unfolding all distinct_append by blast
  have "q = q'" if q: "q \<in> set ?all" and q': "q' \<in> set ?all" and pre: "prefix (split_path q) (split_path q')" for q q'
  proof -
    have k: "prefix (split_path (knowledge_path c)) (split_path (knowledge_path c')) \<Longrightarrow>
        c \<in> set ?cs \<Longrightarrow> c' \<in> set ?cs \<Longrightarrow> knowledge_path c = knowledge_path c'" for c c'
      using no_collision_prefix_free [OF free(1)] by (simp add: prefix_free_def)
    have l: "prefix (split_path (legacy_path d)) (split_path (legacy_path d')) \<Longrightarrow>
        d \<in> set ?ds \<Longrightarrow> d' \<in> set ?ds \<Longrightarrow> legacy_path d = legacy_path d'" for d d'
      using no_collision_prefix_free [OF free(2)] by (simp add: prefix_free_def)
    have h: "hd (split_path q) = hd (split_path q')"
      using pre by (cases "split_path q"; cases "split_path q'") auto
    from kinds [OF q] show "q = q'"
    proof (elim disjE imageE)
      fix c assume c: "q = knowledge_path c" "c \<in> set ?cs"
      from kinds [OF q'] h c(1) have "q' \<in> knowledge_path ` set ?cs" by (auto simp: heads okc)
      with c pre k show "q = q'" by auto
    next
      fix d assume d: "q = legacy_path d" "d \<in> set ?ds"
      from kinds [OF q'] h d(1) have "q' \<in> legacy_path ` set ?ds" by (auto simp: heads okc)
      with d pre l show "q = q'" by auto
    next
      fix n assume n: "q = okc_path n" "n \<in> set ?names"
      from kinds [OF q'] h n have "q' \<in> okc_path ` set ?names" by (auto simp: heads okc)
      then obtain n' where n': "q' = okc_path n'" "n' \<in> set ?names" by blast
      from pre show "q = q'" unfolding n(1) n'(1) okc(1) [OF n(2)] okc(1) [OF n'(2)] by simp
    qed
  qed
  with dist show "prefix_free ?all" unfolding prefix_free_def by blast
  have "portable_path E default_policy q" if "q \<in> set ?all" for q
    using kinds [OF that] port okc(2) by blast
  then show "\<forall>(path, b) \<in> set (vault_files E p (output_files E p) prov). portable_path E default_policy path"
    by force
qed

text \<open>
  What the happy path needs: every file, the manifest and the plan within the sizes the reader
  accepts, and deserialisers that read back what was written.
\<close>

definition vault_readable :: "externs \<Rightarrow> readers \<Rightarrow> integration_plan \<Rightarrow> files \<Rightarrow> bytes \<Rightarrow> bool" where
  "vault_readable E R p files prov \<longleftrightarrow>
     (\<forall>(path, b) \<in> set (vault_files E p files prov). length b \<le> u64_max) \<and>
     length (manifest_bytes_of E p files prov) \<le> max_manifest_bytes \<and>
     length (to_canonical_json_pretty E (json_of_plan E p)) \<le> max_approved_plan_bytes \<and>
     plan_from_bytes R (to_canonical_json_pretty E (json_of_plan E p)) = Inr p \<and>
     read_manifest R (manifest_bytes_of E p files prov) =
       Some (manifest_of p (inventory_from_bytes E (audit_files E p files prov)))"

lemma holds_find:
  assumes "holds t fs" and "(path, b) \<in> set fs"
  shows "find_node t (split_path path) = Some (FileNode b)"
proof (rule find_leaf)
  show "tree_ok (DirNode t)" using assms(1) by (simp only: holds_def)
  have "set (leaves (DirNode t)) = (\<lambda>(path, b). (split_path path, FileNode b)) ` set fs"
    using assms(1) by (simp only: holds_def)
  with assms(2) show "(split_path path, FileNode b) \<in> set (leaves (DirNode t))" by force
qed

lemma inventory_lookup:
  assumes "distinct (map fst fs)" and "(path, b) \<in> set fs"
  shows "btree_get (btree_collect (map (\<lambda>f. (mf_path f, mf_byte_len f)) (inventory_from_bytes E fs))) path =
    Some (length b)"
proof (subst btree_collect_facts(3))
  have "mset (map fst (map (\<lambda>f. (mf_path f, mf_byte_len f)) (inventory_from_bytes E fs))) = mset (map fst fs)"
    unfolding inventory_from_bytes_def mset_map mset_sort multiset.map_comp o_def
    by (simp add: manifest_file_of_def split_beta')
  with assms(1) show "distinct (map fst (map (\<lambda>f. (mf_path f, mf_byte_len f)) (inventory_from_bytes E fs)))"
    using mset_eq_imp_distinct_iff by metis
  have "manifest_file_of E (path, b) \<in> set (inventory_from_bytes E fs)"
    using assms(2) by (simp add: inventory_from_bytes_def)
  then show "(path, length b) \<in> set (map (\<lambda>f. (mf_path f, mf_byte_len f)) (inventory_from_bytes E fs))"
    by (force simp: manifest_file_of_def)
qed

lemma verify_complete:
  assumes ok: "plan_ok E p" and nfc: "nfc_ascii E" and prov: "provenance_jsonl E p (output_files E p) = Inr prov"
    and readable: "vault_readable E R p (output_files E p) prov"
    and holds: "holds t (vault_files E p (output_files E p) prov)"
  shows "verify E R no_faults (Some (DirNode t)) =
    Inr (manifest_of p (inventory_from_bytes E (audit_files E p (output_files E p) prov)))"
proof -
  let ?fs = "output_files E p" and ?v = "vault_files E p (output_files E p) prov"
  let ?mb = "manifest_bytes_of E p ?fs prov" and ?pb = "to_canonical_json_pretty E (json_of_plan E p)"
  note free = vault_paths(1) [OF ok nfc, of prov] and port = vault_paths(2) [OF ok nfc, of prov]
  have okc: "split_path (okc_path n) = [''.okc'', n]" if "n \<in> set okc_names" for n
    using okc_portable [OF nfc that] by blast
  have mem: "(okc_path ''manifest.json'', ?mb) \<in> set ?v" "(okc_path ''integration-plan.json'', ?pb) \<in> set ?v"
    by (simp_all add: vault_files_def listed_files_def audit_files_def)
  have find: "find_node t [''.okc'', ''manifest.json''] = Some (FileNode ?mb)"
    "find_node t [''.okc'', ''integration-plan.json''] = Some (FileNode ?pb)"
    using holds_find [OF holds mem(1)] holds_find [OF holds mem(2)]
      okc [of "''manifest.json''"] okc [of "''integration-plan.json''"] by (simp_all add: okc_names_def)
  then have dir: "\<exists>es. find_node t [''.okc''] = Some (DirNode es)"
    by (auto split: option.splits node.splits)
  have "\<forall>(path, b) \<in> set ?v. leaf_allowed E (Some (btree_collect (map (\<lambda>f. (mf_path f, mf_byte_len f))
      (inventory_from_bytes E ?v)))) path b"
    using port inventory_lookup [of ?v] free
    by (auto simp: leaf_allowed_def btree_collect_facts prefix_free_def)
  then have inv: "inventory_checked E no_faults (DirNode t) [] (Some (btree_collect (map
      (\<lambda>f. (mf_path f, mf_byte_len f)) (inventory_from_bytes E ?v)))) = Inr (inventory_from_bytes E ?v)"
    by (intro inventory_of_holds [OF holds free]) simp_all
  have snoc: "sort_key mf_path (inventory_from_bytes E (audit_files E p ?fs prov) @
      [manifest_file_of E (okc_path ''manifest.json'', ?mb)]) = inventory_from_bytes E (listed_files E p ?fs prov)"
    "sort_key mf_path (inventory_from_bytes E (listed_files E p ?fs prov) @
      [manifest_file_of E (okc_path ''checksums.txt'',
        checksum_text (inventory_from_bytes E (listed_files E p ?fs prov)))]) = inventory_from_bytes E ?v"
    by (simp_all only: inventory_snoc listed_files_def vault_files_def)
  from readable have sizes: "length ?mb \<le> max_manifest_bytes" "length ?pb \<le> max_approved_plan_bytes"
    and reads: "plan_from_bytes R ?pb = Inr p" "read_manifest R ?mb =
       Some (manifest_of p (inventory_from_bytes E (audit_files E p ?fs prov)))"
    by (simp_all add: vault_readable_def)
  have head: "cm_format_family (manifest_of p i) = ''okc''"
    "cm_schema_version (manifest_of p i) = integration_schema_version" for i
    by (simp_all add: manifest_of_def)
  have mb: "to_canonical_json_pretty E (json_of_manifest E (manifest_of p
      (inventory_from_bytes E (audit_files E p ?fs prov)))) = ?mb"
    by (simp add: manifest_bytes_of_def)
  have rm: "read_regular_file no_faults (okc_path ''manifest.json'') (okc_file (DirNode t) ''manifest.json'')
      max_manifest_bytes = Inr ?mb"
    "read_regular_file no_faults (okc_path ''integration-plan.json'') (okc_file (DirNode t) ''integration-plan.json'')
      max_approved_plan_bytes = Inr ?pb"
    using find sizes by (simp_all add: okc_file_def read_regular_file_def del: find_node.simps)
  have dirs: "require_regular_directory '''' (Some (DirNode t)) = Inr ()"
    "require_regular_directory ''.okc'' (find_node t [''.okc'']) = Inr ()"
    using dir by (auto simp: require_dir_Inr simp del: find_node.simps)
  have valid: "validate_plan E p = Inr ()" using ok by (simp add: validate_plan_iff)
  show ?thesis
    unfolding verify_def Let_def option.sel node.case dirs and_then_simps(1) rm bind_res_simps(1) reads
      require_simps(1) head valid materialized_output_files [OF ok] prov mb snoc inv
    by simp
qed

text \<open>
  A run without faults writes the whole vault into its staging tree and has it verified. The lengths of
  the files are \<open>u64\<close> values.
\<close>

definition vault_sized :: "externs \<Rightarrow> integration_plan \<Rightarrow> files \<Rightarrow> bytes \<Rightarrow> bool" where
  "vault_sized E p files prov \<longleftrightarrow> list_all (\<lambda>(path, b). length b \<le> u64_max) (vault_files E p files prov)"

lemma stage_verifies:
  assumes ok: "plan_ok E p" and nfc: "nfc_ascii E" and prov: "provenance_jsonl E p (output_files E p) = Inr prov"
    and sized: "vault_sized E p (output_files E p) prov"
  shows "\<exists>t. stage_contents E R no_faults stage p =
      (t, bind_res (verify E R no_faults (Some (DirNode t))) (\<lambda>_. Inr (length (vault_files E p (output_files E p) prov)))) \<and>
    holds t (vault_files E p (output_files E p) prov)"
proof -
  let ?fs = "output_files E p" and ?v = "vault_files E p (output_files E p) prov"
  let ?mb = "manifest_bytes_of E p ?fs prov" and ?pb = "to_canonical_json_pretty E (json_of_plan E p)"
  let ?a = "audit_files E p ?fs prov" and ?l = "listed_files E p ?fs prov"
  let ?plan = "(okc_path ''integration-plan.json'', ?pb)" and ?prov = "(okc_path ''provenance.jsonl'', prov)"
    and ?man = "(okc_path ''manifest.json'', ?mb)"
    and ?sums = "(okc_path ''checksums.txt'', checksum_text (inventory_from_bytes E ?l))"
  note free = vault_paths(1) [OF ok nfc, of prov] and port = vault_paths(2) [OF ok nfc, of prov]
    and out = vault_paths(3) [OF ok nfc]
  have parts: "?a = ?fs @ [?plan] @ [?prov]" "?l = ?a @ [?man]" "?v = ?l @ [?sums]"
    by (simp_all add: audit_files_def listed_files_def vault_files_def)
  have sub: "prefix_free (map fst fs)" "\<forall>(path, b) \<in> set fs. portable_path E default_policy path"
    if "?v = fs @ gs" for fs gs
    using free port that prefix_free_snocD [of "map fst fs" "map fst gs"] by simp_all
  have steps: "\<exists>t'. write_files E no_faults t gs = (t', Inr ()) \<and> holds t' (fs @ gs)"
    if "holds t fs" "?v = (fs @ gs) @ hs" for t fs gs hs
    using write_files_holds [OF that(1)] sub [OF that(2)] by auto
  obtain t1 where t1: "write_files E no_faults [] ?fs = (t1, Inr ())" "holds t1 ?fs"
    using steps [OF holds_empty, of ?fs "[?plan] @ [?prov] @ [?man] @ [?sums]"] by (auto simp: parts)
  obtain t2 where t2: "write_files E no_faults t1 [?plan] = (t2, Inr ())" "holds t2 (?fs @ [?plan])"
    using steps [OF t1(2), of "[?plan]" "[?prov] @ [?man] @ [?sums]"] by (auto simp: parts simp del: write_files.simps)
  obtain t3 where t3: "write_files E no_faults t2 [?prov] = (t3, Inr ())" "holds t3 ?a"
    using steps [OF t2(2), of "[?prov]" "[?man] @ [?sums]"] by (auto simp: parts simp del: write_files.simps)
  obtain t4 where t4: "write_files E no_faults t3 [?man] = (t4, Inr ())" "holds t4 ?l"
    using steps [OF t3(2), of "[?man]" "[?sums]"] by (auto simp: parts simp del: write_files.simps)
  obtain t5 where t5: "write_files E no_faults t4 [?sums] = (t5, Inr ())" "holds t5 ?v"
    using steps [OF t4(2), of "[?sums]" "[]"] by (auto simp: parts simp del: write_files.simps)
  have sizes: "\<forall>(path, b) \<in> set ?v. length b \<le> u64_max" using sized by (simp add: vault_sized_def list_all_iff)
  have allowed: "\<forall>(path, b) \<in> set fs. leaf_allowed E None path b" if "?v = fs @ gs" for fs gs
    using sub(2) [OF that] sizes that by (auto simp: leaf_allowed_def)
  have noteq: "okc_path ''manifest.json'' \<noteq> okc_path ''integration-plan.json''"
    "okc_path ''manifest.json'' \<noteq> okc_path ''provenance.jsonl''"
    "okc_path ''checksums.txt'' \<noteq> okc_path ''integration-plan.json''"
    "okc_path ''checksums.txt'' \<noteq> okc_path ''provenance.jsonl''"
    "okc_path ''checksums.txt'' \<noteq> okc_path ''manifest.json''"
    by (simp_all add: okc_path_def join_path_def)
  have i1: "inventory_checked E no_faults (DirNode t3) [okc_path ''manifest.json'', okc_path ''checksums.txt''] None =
      Inr (inventory_from_bytes E ?a)"
    by (rule inventory_of_holds [OF t3(2) sub(1) [of _ "[?man] @ [?sums]"] allowed [of _ "[?man] @ [?sums]"]])
      (use out noteq in \<open>auto simp: parts\<close>)
  have i2: "inventory_checked E no_faults (DirNode t4) [okc_path ''checksums.txt''] None = Inr (inventory_from_bytes E ?l)"
    by (rule inventory_of_holds [OF t4(2) sub(1) [of _ "[?sums]"] allowed [of _ "[?sums]"]])
      (use out noteq in \<open>auto simp: parts\<close>)
  have man: "to_canonical_json_pretty E (json_of_manifest E (manifest_of p (inventory_from_bytes E ?a))) = ?mb"
    by (simp add: manifest_bytes_of_def)
  have len: "length (inventory_from_bytes E ?l) + 1 = length ?v"
    by (simp add: inventory_from_bytes_def parts(3))
  have cont: "continue (t, Inr x) k = k t x" for t x and k :: "entries \<Rightarrow> 'a \<Rightarrow> entries \<times> 'b res"
    by (simp add: continue_def)
  have checks: "seq_checks [syscall no_faults (Hook Materialized) stage, syscall no_faults SyncTree stage,
        syscall no_faults (Hook TreeSynchronized) stage] = Inr ()"
    "seq_checks [syscall no_faults (Hook Verified) stage, syscall no_faults (Hook BeforePublish) stage] = Inr ()"
    by simp_all
  have "stage_contents E R no_faults stage p = continue (t5, verify E R no_faults (Some (DirNode t5))) (\<lambda>t _. (t, Inr (length ?v)))"
    unfolding stage_contents_def syscall_no_faults [of "Hook StageCreated"] cont
      materialized_output_files [OF ok] t1(1) t2(1) prov t3(1) i1 man t4(1) i2 t5(1) checks len ..
  also have "\<dots> = (t5, bind_res (verify E R no_faults (Some (DirNode t5))) (\<lambda>_. Inr (length ?v)))"
    by (simp add: continue_def bind_res_def split: sum.split)
  finally show ?thesis using t5(2) by blast
qed

lemma stage_complete:
  assumes ok: "plan_ok E p" and nfc: "nfc_ascii E" and prov: "provenance_jsonl E p (output_files E p) = Inr prov"
    and readable: "vault_readable E R p (output_files E p) prov"
  shows "\<exists>t. stage_contents E R no_faults stage p = (t, Inr (length (vault_files E p (output_files E p) prov))) \<and>
    holds t (vault_files E p (output_files E p) prov)"
proof -
  have "vault_sized E p (output_files E p) prov" using readable by (simp add: vault_readable_def vault_sized_def list_all_iff)
  from stage_verifies [OF ok nfc prov this] obtain t where
    "stage_contents E R no_faults stage p =
       (t, bind_res (verify E R no_faults (Some (DirNode t))) (\<lambda>_. Inr (length (vault_files E p (output_files E p) prov))))"
    and "holds t (vault_files E p (output_files E p) prov)" by blast
  then show ?thesis using verify_complete [OF ok nfc prov readable] by auto
qed

text \<open>A vault whose manifest or plan is larger than the reader accepts does not verify.\<close>

lemma verify_refuses_large:
  assumes holds: "holds t (vault_files E p files prov)" and nfc: "nfc_ascii E"
    and large: "max_manifest_bytes < length (manifest_bytes_of E p files prov) \<or>
      max_approved_plan_bytes < length (to_canonical_json_pretty E (json_of_plan E p))"
  shows "\<exists>e. verify E R no_faults (Some (DirNode t)) = Inl e"
proof -
  let ?mb = "manifest_bytes_of E p files prov" and ?pb = "to_canonical_json_pretty E (json_of_plan E p)"
  have okc: "split_path (okc_path n) = [''.okc'', n]" if "n \<in> set okc_names" for n
    using okc_portable [OF nfc that] by blast
  have mem: "(okc_path ''manifest.json'', ?mb) \<in> set (vault_files E p files prov)"
    "(okc_path ''integration-plan.json'', ?pb) \<in> set (vault_files E p files prov)"
    by (simp_all add: vault_files_def listed_files_def audit_files_def)
  have "okc_file (DirNode t) ''manifest.json'' = Some (FileNode ?mb)"
    "okc_file (DirNode t) ''integration-plan.json'' = Some (FileNode ?pb)"
    using holds_find [OF holds mem(1)] holds_find [OF holds mem(2)] okc
    by (simp_all add: okc_file_def okc_names_def del: find_node.simps)
  with large show ?thesis
    by (auto simp: verify_def read_regular_file_def Let_def and_then_def bind_res_def split: sum.split)
qed

end
