(* ===== verification/Vault.thy ===== *)
theory Vault
  imports PublishFacts
begin

text \<open>
  The guarantees of \<open>compile\<close> and \<open>verify\<close>: publication is atomic, a verified tree is exactly the
  vault of a valid plan, and compiling a valid plan without faults produces such a tree, when manifest
  and plan are within the limits of the reader, and nothing when they are not.
\<close>

text \<open>
  C1: Publication is atomic and never overwrites. Whatever system call or hook fails, and
  whatever other processes do to the other entries before the rename: on success, and when only
  the durability of the rename is in doubt, the destination did not exist before the rename and
  is now a directory that \<open>verify\<close> accepts, and the staging directory is gone; on every other
  error the destination is as the other processes left it, and the staging directory is gone too,
  unless the error says that it could not be removed.
\<close>

theorem publication_is_atomic:
  assumes "btree_ok es" and "stage \<noteq> dest" and "btree_get es stage = None"
    and "leaves_stage_alone interfere stage"
    and "compile_with_hook E R F interfere stage dest plan es = (es', r)"
  shows "\<exists>before. (before = es \<or> (\<exists>x. before = interfere (btree_insert stage x es))) \<and>
    (if (\<exists>a. r = Inr a) \<or> (\<exists>c. r = Inl (PublishedButDurabilityUncertain dest c))
     then btree_get before dest = None \<and> published E R F stage dest es'
     else \<exists>e. r = Inl e \<and> not_published stage dest before e es')"
proof -
  have keep: "not_published stage dest es e es" if "plain_error e" for e
    using that assms(3) by (auto simp: not_published_def)
  have close: ?thesis
    if "before = es \<or> (\<exists>x. before = interfere (btree_insert stage x es))"
      "r = Inl e" "not_published stage dest before e es'" for before e
    using that by (intro exI [of _ before]) (simp add: not_published_def)
  show ?thesis
  proof (cases "validate_plan E plan")
    case (Inl e)
    then have "plain_error e" using plain_validate_plan [of E plan] by (simp add: plain_def)
    moreover have "es' = es" "r = Inl e" using Inl assms(5) by (simp_all add: compile_with_hook_def)
    ultimately show ?thesis using keep by (intro close [of es e]) simp_all
  next
    case (Inr u)
    note valid = this
    show ?thesis
    proof (cases "btree_get es dest")
      case (Some x)
      then have "es' = es" "r = Inl (OutputExists dest)"
        using valid assms(5) by (simp_all add: compile_with_hook_def)
      then show ?thesis using keep by (intro close [of es "OutputExists dest"]) simp_all
    next
      case None
      note absent = this
      show ?thesis
      proof (cases "seq_checks [syscall F CreateParent dest, syscall F CreateStage dest]")
        case (Inl e)
        have "plain (seq_checks [syscall F CreateParent dest, syscall F CreateStage dest])"
          by (auto intro!: plain_intros)
        with Inl have "plain_error e" unfolding plain_def by blast
        moreover have "es' = es" "r = Inl e"
          using Inl valid absent assms(5) by (simp_all add: compile_with_hook_def del: seq_checks_Cons_Inl)
        ultimately show ?thesis using keep by (intro close [of es e]) simp_all
      next
        case (Inr u')
        obtain tree s where stage: "stage_contents E R F stage plan = (tree, s)" by fastforce
        let ?es1 = "btree_insert stage (DirNode tree) es"
        have ok1: "btree_ok ?es1" using assms(1) by (rule btree_insert_ok)
        show ?thesis
        proof (cases s)
          case (Inl e)
          with stage have "plain_error e" using plain_stage [of E R F stage plan] by (simp add: plain_def)
          moreover obtain es2 e' where ab: "abandon_stage F stage ?es1 e = (es2, e')" by fastforce
          moreover have "btree_get ?es1 dest = btree_get es dest" using assms(1,2) by simp
          ultimately have "not_published stage dest es e' es2"
            using ok1 assms(2) by (intro abandon_not_published)
          moreover have "es' = es2" "r = Inl e'"
            using assms(5) valid absent Inr stage Inl ab by (auto simp: compile_with_hook_def)
          ultimately show ?thesis by (intro close [of es e']) auto
        next
          case (Inr n)
          let ?es2 = "interfere ?es1"
          have ok2: "btree_ok ?es2" and get2: "btree_get ?es2 stage = Some (DirNode tree)"
            using assms(1,4) ok1 by (auto simp: leaves_stage_alone_def)
          have before: "?es2 = es \<or> (\<exists>x. ?es2 = interfere (btree_insert stage x es))" by blast
          obtain m where verified: "verify E R F (Some (DirNode tree)) = Inr m"
            using stage_verified stage Inr by blast
          show ?thesis
          proof (cases "publish F stage dest ?es2")
            case (Inl e)
            let ?e = "if e = AlreadyExists \<or> btree_get ?es2 dest \<noteq> None then OutputExists dest else Io dest e"
            obtain es3 e' where ab: "abandon_stage F stage ?es2 ?e = (es3, e')" by fastforce
            have "not_published stage dest ?es2 e' es3"
              by (rule abandon_not_published [OF ok2 ab _ assms(2)]) simp_all
            moreover have "es' = es3" "r = Inl e'"
              using assms(5) valid absent \<open>seq_checks _ = Inr u'\<close> stage \<open>s = Inr n\<close> Inl ab
              by (auto simp: compile_with_hook_def Let_def)
            ultimately show ?thesis using before by (intro close [of ?es2 e']) auto
          next
            case (Inr es3)
            then have free: "btree_get ?es2 dest = None"
              and es3: "es3 = btree_insert dest (DirNode tree) (remove_entry stage ?es2)"
              using get2 by (auto simp: publish_Inr [OF ok2])
            have pub: "published E R F stage dest es3"
              using remove_entry_facts [OF ok2] verified assms(2) by (auto simp: published_def es3)
            let ?last = "seq_checks [syscall F (Hook Published) dest, syscall F SyncParent dest,
                syscall F (Hook ParentSynchronized) dest]"
            have "(\<exists>c. ?last = Inl (Io dest c)) \<or> ?last = Inr ()"
              by (cases "F (Hook Published)"; cases "F SyncParent"; cases "F (Hook ParentSynchronized)")
                (simp_all add: syscall_def seq_checks.simps)
            then have "es' = es3 \<and> ((\<exists>c. r = Inl (PublishedButDurabilityUncertain dest c)) \<or> (\<exists>a. r = Inr a))"
            proof (elim disjE exE)
              fix c assume "?last = Inl (Io dest c)"
              then show ?thesis
                using assms(5) valid absent \<open>seq_checks _ = Inr u'\<close> stage \<open>s = Inr n\<close> Inr
                by (auto simp: compile_with_hook_def Let_def simp del: seq_checks_Cons_Inl seq_checks_Inr)
            next
              assume "?last = Inr ()"
              then show ?thesis
                using assms(5) valid absent \<open>seq_checks _ = Inr u'\<close> stage \<open>s = Inr n\<close> Inr
                by (auto simp: compile_with_hook_def Let_def simp del: seq_checks_Cons_Inl seq_checks_Inr)
            qed
            with pub free before show ?thesis by (intro exI [of _ ?es2]) auto
          qed
        qed
      qed
    qed
  qed
qed

text \<open>
  C2: What \<open>verify\<close> accepts. A tree that verifies holds the plan it was compiled from, that plan is
  valid, the returned manifest is the one derived from it, and the tree consists of regular files
  which are exactly the materialised notes and redirects and the four audit files, byte for byte,
  unless a file of the tree and the file of the vault at the same path are a SHA-256 collision.
\<close>

theorem verify_sound:
  assumes "verify E R F x = Inr m"
  shows "\<exists>es plan files provenance. x = Some (DirNode es) \<and> validate_plan E plan = Inr () \<and>
    materialized_files E plan = Inr files \<and> provenance_jsonl E plan files = Inr provenance \<and>
    m = manifest_of plan (inventory_from_bytes E (audit_files E plan files provenance)) \<and>
    (\<forall>(p, l) \<in> set (leaves (DirNode es)). is_file l) \<and>
    (set (listed [] (DirNode es)) = set (vault_files E plan files provenance) \<or>
     (\<exists>path a b. (path, a) \<in> set (vault_files E plan files provenance) \<and> (path, b) \<in> set (listed [] (DirNode es)) \<and>
        collides_on E (content_text a) (content_text b)))"
proof -
  from assms obtain es where x: "x = Some (DirNode es)"
    by (auto simp: verify_def require_dir_Inr)
  from assms [unfolded x] obtain mb plan files provenance allowed where
    valid: "validate_plan E plan = Inr ()" and files: "materialized_files E plan = Inr files"
    and prov: "provenance_jsonl E plan files = Inr provenance"
    and m: "m = manifest_of plan (inventory_from_bytes E (audit_files E plan files provenance))"
    and mb: "mb = manifest_bytes_of E plan files provenance"
    and inv: "inventory_checked E F (DirNode es) [] (Some allowed) =
      Inr (sort_key mf_path (sort_key mf_path (inventory_from_bytes E (audit_files E plan files provenance) @
          [manifest_file_of E (okc_path ''manifest.json'', mb)]) @
        [manifest_file_of E (okc_path ''checksums.txt'', checksum_text
          (sort_key mf_path (inventory_from_bytes E (audit_files E plan files provenance) @
            [manifest_file_of E (okc_path ''manifest.json'', mb)])))]))"
    unfolding verify_def manifest_bytes_of_def Let_def by auto
  from inv have "inventory_checked E F (DirNode es) [] (Some allowed) =
      Inr (inventory_from_bytes E (vault_files E plan files provenance))"
    by (simp only: inventory_snoc mb listed_files_def [symmetric] vault_files_def [symmetric])
  from inventory_lists [OF this]
  have "inventory_from_bytes E (vault_files E plan files provenance) =
      sort_key mf_path (map (manifest_file_of E) (listed [] (DirNode es)))"
    and reg: "\<forall>(p, l) \<in> set (leaves (DirNode es)). is_file l"
    by (simp_all add: keep_def)
  then have "manifest_file_of E ` set (vault_files E plan files provenance) =
      manifest_file_of E ` set (listed [] (DirNode es))"
    unfolding inventory_from_bytes_def by (metis set_map set_sort)
  from manifest_sets_equal [OF this]
  have "set (listed [] (DirNode es)) = set (vault_files E plan files provenance) \<or>
     (\<exists>path a b. (path, a) \<in> set (vault_files E plan files provenance) \<and> (path, b) \<in> set (listed [] (DirNode es)) \<and>
        collides_on E (content_text a) (content_text b))" by metis
  with x valid files prov m reg show ?thesis by blast
qed

text \<open>Without faults the staging tree is published, or removed when it does not verify.\<close>

lemma stage_cleared:
  "btree_ok es \<Longrightarrow> btree_get es stage = None \<Longrightarrow> remove_entry stage (btree_insert stage x es) = es"
  using btree_insert_ok [of es stage x] by (intro btree_eqI) (auto simp: remove_entry_facts)

lemma compile_readable:
  assumes ok: "plan_ok E p" and nfc: "nfc_ascii E" and prov: "provenance_jsonl E p (output_files E p) = Inr prov"
    and es: "btree_ok es" "stage \<noteq> dest" "btree_get es stage = None" "btree_get es dest = None"
    and readable: "vault_readable E R p (output_files E p) prov"
  shows "\<exists>t. compile_with_hook E R no_faults id stage dest p es =
        (btree_insert dest (DirNode t) es, Inr \<lparr>art_path = dest,
          art_integration_plan_id = ip_integration_plan_id p, art_files = length (output_files E p) + 4\<rparr>) \<and>
      verify E R no_faults (Some (DirNode t)) =
        Inr (manifest_of p (inventory_from_bytes E (audit_files E p (output_files E p) prov))) \<and>
      set (listed [] (DirNode t)) = set (vault_files E p (output_files E p) prov)"
proof -
  let ?files = "output_files E p"
  obtain t where stage: "stage_contents E R no_faults stage p = (t, Inr (length (vault_files E p ?files prov)))"
    and holds: "holds t (vault_files E p ?files prov)"
    using stage_complete [OF ok nfc prov readable] by blast
  let ?es = "btree_insert stage (DirNode t) es"
  have "btree_get ?es dest = None" "btree_get ?es stage = Some (DirNode t)" using es by simp_all
  then have "publish no_faults stage dest ?es = Inr (btree_insert dest (DirNode t) es)"
    using stage_cleared [OF es(1,3)] by (simp add: publish_def no_faults_def remove_entry_def)
  moreover have "length (vault_files E p ?files prov) = length ?files + 4"
    by (simp add: vault_files_def listed_files_def audit_files_def)
  moreover have "validate_plan E p = Inr ()" using ok by (simp add: validate_plan_iff)
  ultimately have "compile_with_hook E R no_faults id stage dest p es =
      (btree_insert dest (DirNode t) es, Inr \<lparr>art_path = dest,
        art_integration_plan_id = ip_integration_plan_id p, art_files = length ?files + 4\<rparr>)"
    using es(4) stage by (simp add: compile_with_hook_def seq_checks.simps)
  moreover have "set (listed [] (DirNode t)) = set (vault_files E p ?files prov)"
    using holds_listed [OF holds] vault_paths(1) [OF ok nfc] mset_eq_setD by metis
  ultimately show ?thesis using verify_complete [OF ok nfc prov readable holds] by blast
qed

lemma compile_large:
  assumes ok: "plan_ok E p" and nfc: "nfc_ascii E" and prov: "provenance_jsonl E p (output_files E p) = Inr prov"
    and es: "btree_ok es" "btree_get es stage = None" "btree_get es dest = None"
    and sized: "vault_sized E p (output_files E p) prov"
    and large: "max_manifest_bytes < length (manifest_bytes_of E p (output_files E p) prov) \<or>
       max_approved_plan_bytes < length (to_canonical_json_pretty E (json_of_plan E p))"
  shows "\<exists>e. compile_with_hook E R no_faults id stage dest p es = (es, Inl e)"
proof -
  let ?files = "output_files E p"
  obtain t where stage: "stage_contents E R no_faults stage p =
      (t, bind_res (verify E R no_faults (Some (DirNode t))) (\<lambda>_. Inr (length (vault_files E p ?files prov))))"
    and holds: "holds t (vault_files E p ?files prov)"
    using stage_verifies [OF ok nfc prov sized] by blast
  obtain e where "verify E R no_faults (Some (DirNode t)) = Inl e"
    using verify_refuses_large [OF holds nfc large] by blast
  moreover have "abandon_stage no_faults stage (btree_insert stage (DirNode t) es) e = (es, e)" for e
    using stage_cleared [OF es(1,2)] by (simp add: abandon_stage_def no_faults_def)
  moreover have "validate_plan E p = Inr ()" using ok by (simp add: validate_plan_iff)
  ultimately show ?thesis using es(3) stage by (simp add: compile_with_hook_def seq_checks.simps)
qed

text \<open>
  C3: What compiling an accepted plan gives, with no failing call and a free destination, on a platform whose
  normal form leaves ASCII alone. The notes, redirects and the provenance of the plan always exist. When the
  manifest is at most 1 MiB and the plan at most 512 MiB and the deserialisers read back what was printed, the
  destination becomes a directory with exactly the files of the vault, nothing else in the parent changes, the
  reported count is the number of files, and \<open>verify\<close> returns the plan's manifest. When the manifest or the
  plan is larger than that, which nothing checks before, the call fails and leaves the parent as it was.
\<close>

theorem compile_then_verify:
  assumes "validate_plan E p = Inr ()" and "nfc_ascii E"
    and "btree_ok es" and "stage \<noteq> dest" and "btree_get es stage = None" and "btree_get es dest = None"
  shows "\<exists>files prov. materialized_files E p = Inr files \<and> provenance_jsonl E p files = Inr prov \<and>
    (vault_readable E R p files prov \<longrightarrow>
     (\<exists>t. compile_with_hook E R no_faults id stage dest p es =
        (btree_insert dest (DirNode t) es, Inr \<lparr>art_path = dest,
          art_integration_plan_id = ip_integration_plan_id p, art_files = length files + 4\<rparr>) \<and>
      verify E R no_faults (Some (DirNode t)) =
        Inr (manifest_of p (inventory_from_bytes E (audit_files E p files prov))) \<and>
      set (listed [] (DirNode t)) = set (vault_files E p files prov))) \<and>
    (vault_sized E p files prov \<and> (max_manifest_bytes < length (manifest_bytes_of E p files prov) \<or>
       max_approved_plan_bytes < length (to_canonical_json_pretty E (json_of_plan E p))) \<longrightarrow>
     (\<exists>e. compile_with_hook E R no_faults id stage dest p es = (es, Inl e)))"
proof -
  from assms(1) have ok: "plan_ok E p" by (simp add: validate_plan_iff)
  have files: "materialized_files E p = Inr (output_files E p)" by (rule materialized_output_files [OF ok])
  obtain prov where prov: "provenance_jsonl E p (output_files E p) = Inr prov"
    using provenance_covers_every_file [OF assms(1) files] by blast
  show ?thesis
    using files prov compile_readable [OF ok assms(2) prov assms(3-6)] compile_large [OF ok assms(2) prov assms(3,5,6)] by blast
qed

end
