(* ===== verification/Instances.thy ===== *)
theory Instances
  imports Identity
begin

text \<open>
  One concrete value of \<open>externs\<close> for the witnesses: standard hexadecimal, an injective tagged
  printing of JSON values, the identity for the Unicode normalisation (correct on ASCII, all the
  witnesses use), ASCII lower case for case folding, and a digest of 32 bytes that is a plain
  checksum. It shows that the named hypotheses on third-party code can hold together.
\<close>

definition hex_digit :: "nat \<Rightarrow> char" where
  "hex_digit n = char_of (if n < 10 then n + 48 else n + 87)"

definition hex_value :: "char \<Rightarrow> nat" where
  "hex_value c = (if is_ascii_digit c then of_char c - 48 else of_char c - 87)"

definition demo_hex :: "bytes \<Rightarrow> string" where
  "demo_hex b = concat (map (\<lambda>c. [hex_digit (of_char c div 16), hex_digit (of_char c mod 16)]) b)"

fun demo_unhex :: "string \<Rightarrow> bytes option" where
  "demo_unhex [] = Some []"
| "demo_unhex [c] = None"
| "demo_unhex (a # b # s) =
     map_option (Cons (char_of (16 * hex_value a + hex_value b))) (demo_unhex s)"

definition word_code :: "64 word \<Rightarrow> string" where
  "word_code w = map (\<lambda>n. if bit w n then CHR ''1'' else CHR ''0'') [0..<64]"

definition string_code :: "string \<Rightarrow> string" where
  "string_code s = concat (map (\<lambda>c. [CHR ''c'', c]) s) @ ''.''"

fun number_code :: "number \<Rightarrow> string" where
  "number_code (PosInt w) = CHR ''p'' # word_code w"
| "number_code (NegInt w) = CHR ''m'' # word_code w"
| "number_code (Float w) = CHR ''d'' # word_code w"

fun demo_json :: "json \<Rightarrow> string" where
  "demo_json JNull = ''n''"
| "demo_json (JBool b) = (if b then ''t'' else ''f'')"
| "demo_json (JNum n) = CHR ''#'' # number_code n"
| "demo_json (JStr s) = CHR ''s'' # string_code s"
| "demo_json (JArr vs) = CHR ''a'' # concat (map (\<lambda>v. CHR ''v'' # demo_json v) vs) @ ''.''"
| "demo_json (JObj m) =
     CHR ''o'' # concat (map (\<lambda>(k, v). CHR ''v'' # string_code k @ demo_json v) m) @ ''.''"

definition demo_digest :: "bytes \<Rightarrow> bytes" where
  "demo_digest b = char_of (sum_list (map of_char b) mod 256 :: nat) # replicate 31 (CHR 0x00)"

definition demo_externs :: externs where
  "demo_externs = \<lparr>sha256 = demo_digest, json_vec = demo_json, json_vec_pretty = demo_json,
     nfc = id, case_fold = to_ascii_lowercase, hex_encode = demo_hex, hex_decode = demo_unhex,
     glob_ok = (\<lambda>_. True), glob_set_ok = (\<lambda>_. True), glob_ignores = (\<lambda>_ _ _. False)\<rparr>"

lemma hex_digit_props:
  assumes "n < 16"
  shows "lower_hex (hex_digit n)" "hex_value (hex_digit n) = n"
  using assms
  by (auto simp: lower_hex_def hex_digit_def hex_value_def is_ascii_digit_def)

lemma hex_value_props:
  assumes "lower_hex c"
  shows "hex_value c < 16" "hex_digit (hex_value c) = c"
  using assms
  by (auto simp: lower_hex_def hex_digit_def hex_value_def is_ascii_digit_def)

lemma demo_hex_laws:
  "length (demo_hex b) = 2 * length b" "list_all lower_hex (demo_hex b)" "demo_unhex (demo_hex b) = Some b"
proof -
  have "(of_char c :: nat) div 16 < 16" for c
    using nat_of_char_less_256 [of c] by (simp add: div_less_iff_less_mult)
  then show "length (demo_hex b) = 2 * length b" "list_all lower_hex (demo_hex b)"
    "demo_unhex (demo_hex b) = Some b"
    by (induction b) (simp_all add: demo_hex_def hex_digit_props)
qed

lemma demo_unhex_laws:
  "even (length s) \<Longrightarrow> list_all lower_hex s \<Longrightarrow> \<exists>b. demo_unhex s = Some b \<and> demo_hex b = s"
proof (induction s rule: demo_unhex.induct)
  case (3 a b s)
  then obtain bs where bs: "demo_unhex s = Some bs" "demo_hex bs = s" by auto
  let ?n = "16 * hex_value a + hex_value b"
  from 3 have lt: "hex_value a < 16" "hex_value b < 16" by (simp_all add: hex_value_props)
  then have "?n < 256" by simp
  with lt have "(of_char (char_of ?n) :: nat) div 16 = hex_value a"
    "(of_char (char_of ?n) :: nat) mod 16 = hex_value b"
    by simp_all
  with bs 3 show ?case by (simp add: demo_hex_def hex_value_props)
qed (auto simp: demo_hex_def)

lemma word_code_inj: "word_code v = word_code w \<Longrightarrow> v = w"
proof (rule bit_word_eqI)
  fix n assume eq: "word_code v = word_code w" and "n < LENGTH(64)"
  then have "word_code v ! n = word_code w ! n" "n < 64" by simp_all
  then show "bit v n = bit w n" by (simp add: word_code_def split: if_splits)
qed

lemma string_code_cancel: "string_code a @ r = string_code b @ s \<Longrightarrow> a = b \<and> r = s"
proof (induction a arbitrary: b)
  case Nil
  then show ?case by (cases b) (auto simp: string_code_def)
next
  case (Cons x a)
  then show ?case by (cases b) (auto simp: string_code_def)
qed

lemma number_code_cancel: "number_code a @ r = number_code b @ s \<Longrightarrow> a = b \<and> r = s"
proof -
  have len: "length (word_code w) = 64" for w by (simp add: word_code_def)
  have "word_code v @ r = word_code w @ s \<Longrightarrow> v = w \<and> r = s" for v w
    by (simp add: len append_eq_append_conv word_code_inj)
  then show "number_code a @ r = number_code b @ s \<Longrightarrow> a = b \<and> r = s"
    by (cases a; cases b) auto
qed

lemma demo_json_cancel: "demo_json v @ r = demo_json w @ s \<Longrightarrow> v = w \<and> r = s"
proof (induction v arbitrary: w r s)
  case (JNum n)
  then show ?case by (cases w) (simp_all split: if_splits, blast dest: number_code_cancel)
next
  case (JStr t)
  then show ?case by (cases w) (simp_all split: if_splits, blast dest: string_code_cancel)
next
  case (JArr vs)
  have "concat (map (\<lambda>v. CHR ''v'' # demo_json v) vs) @ ''.'' @ r =
      concat (map (\<lambda>v. CHR ''v'' # demo_json v) ws) @ ''.'' @ s \<Longrightarrow> vs = ws \<and> r = s" for ws
    using JArr.IH
  proof (induction vs arbitrary: ws)
    case Nil
    then show ?case by (cases ws) auto
  next
    case (Cons v vs)
    show ?case
    proof (cases ws)
      case Nil
      with Cons.prems show ?thesis by simp
    next
      case (Cons w ws')
      with Cons.prems(1) have "demo_json v @ (concat (map (\<lambda>v. CHR ''v'' # demo_json v) vs) @ ''.'' @ r) =
          demo_json w @ (concat (map (\<lambda>v. CHR ''v'' # demo_json v) ws') @ ''.'' @ s)" by simp
      then have vw: "v = w \<and> concat (map (\<lambda>v. CHR ''v'' # demo_json v) vs) @ ''.'' @ r =
          concat (map (\<lambda>v. CHR ''v'' # demo_json v) ws') @ ''.'' @ s"
        by (intro Cons.prems(2)) simp
      have "vs = ws' \<and> r = s"
        by (rule Cons.IH [OF vw [THEN conjunct2]]) (rule Cons.prems(2), simp_all)
      with Cons vw show ?thesis by simp
    qed
  qed
  with JArr.prems show ?case by (cases w) (auto split: if_splits)
next
  case (JObj m)
  have "concat (map (\<lambda>(k, v). CHR ''v'' # string_code k @ demo_json v) m) @ ''.'' @ r =
      concat (map (\<lambda>(k, v). CHR ''v'' # string_code k @ demo_json v) m') @ ''.'' @ s \<Longrightarrow>
      m = m' \<and> r = s" for m'
    using JObj.IH
  proof (induction m arbitrary: m')
    case Nil
    then show ?case by (cases m') auto
  next
    case (Cons e m)
    obtain k v where e: "e = (k, v)" by (cases e)
    show ?case
    proof (cases m')
      case Nil
      with Cons.prems e show ?thesis by simp
    next
      case (Cons e' ms)
      obtain k' v' where e': "e' = (k', v')" by (cases e')
      let ?c = "\<lambda>m. concat (map (\<lambda>(k, v). CHR ''v'' # string_code k @ demo_json v) m)"
      from Cons Cons.prems(1) e e' have "string_code k @ (demo_json v @ ?c m @ ''.'' @ r) =
          string_code k' @ (demo_json v' @ ?c ms @ ''.'' @ s)" by simp
      then have k: "k = k'" and "demo_json v @ (?c m @ ''.'' @ r) = demo_json v' @ (?c ms @ ''.'' @ s)"
        using string_code_cancel by blast+
      then have vv: "v = v' \<and> ?c m @ ''.'' @ r = ?c ms @ ''.'' @ s"
        using e by (intro Cons.prems(2) [of e]) auto
      have "m = ms \<and> r = s"
        by (rule Cons.IH [OF vv [THEN conjunct2]]) (rule Cons.prems(2), simp_all)
      with Cons vv e e' k show ?thesis by simp
    qed
  qed
  with JObj.prems show ?case by (cases w) (auto split: if_splits)
next
  case JNull
  then show ?case by (cases w) (auto split: if_splits)
next
  case (JBool b)
  then show ?case by (cases w) (auto split: if_splits)
qed

lemma demo_lawful:
  "sha256_len demo_externs" "json_faithful demo_externs" "hex_lawful demo_externs"
proof -
  show "sha256_len demo_externs"
    by (simp add: sha256_len_def demo_externs_def demo_digest_def)
  show "json_faithful demo_externs"
    unfolding json_faithful_def inj_def demo_externs_def
    using demo_json_cancel [where r = "[]" and s = "[]"] by simp
  show "hex_lawful demo_externs"
    by (simp add: hex_lawful_def demo_externs_def demo_hex_laws demo_unhex_laws)
qed

end
