(* ===== verification/Demo.thy ===== *)
theory Demo
  imports Vault Instances
begin

text \<open>
  A small vault that passes every gate: one source document with two blocks, one of them
  integrated and cited, the other preserved verbatim, and one minor criticism that is waived.
  The hashes are the ones the sealing functions compute.
\<close>

definition demo_hash :: "char \<Rightarrow> content_hash" where
  "demo_hash c = ContentHash (replicate 32 c)"

definition demo_block :: "char \<Rightarrow> string \<Rightarrow> source_block" where
  "demo_block c t = \<lparr>sb_block_id = TypedId (demo_hash c), sb_content_hash = block_hash_of demo_externs t, sb_text = t\<rparr>"

definition demo_meta :: metadata_value where
  "demo_meta = (case new_metadata demo_externs (TypedId (demo_hash CHR ''D'')) ''tag'' 0 (JStr ''x'') of
     Inr m \<Rightarrow> m | Inl _ \<Rightarrow> undefined)"

definition demo_document :: integration_document where
  "demo_document = \<lparr>doc_source_id = SourceId ''alpha'', doc_document_id = TypedId (demo_hash CHR ''D''),
     doc_original_path = ''note.md'', doc_document_hash = demo_hash CHR ''H'',
     doc_blocks = [demo_block CHR ''a'' ''First fact.'', demo_block CHR ''b'' ''Second fact.''],
     doc_metadata = []\<rparr>"

definition demo_corpus :: integration_corpus where
  "demo_corpus = \<lparr>co_schema_version = 3, co_corpus_hash = corpus_hash_of demo_externs [demo_document],
     co_policy_hash = demo_hash CHR ''P'', co_documents = [demo_document]\<rparr>"

definition demo_cluster :: taxonomy_cluster where
  "demo_cluster = \<lparr>cl_cluster_id = ''facts'', cl_title = ''Facts'', cl_canonical_path = ''Facts.md'',
     cl_document_ids = [TypedId (demo_hash CHR ''D'')]\<rparr>"

definition demo_taxonomy :: taxonomy_proposal where
  "demo_taxonomy = \<lparr>ta_schema_version = 3, ta_corpus_hash = co_corpus_hash demo_corpus,
     ta_taxonomy_hash = taxonomy_hash_of demo_externs (co_corpus_hash demo_corpus) [demo_cluster] (demo_hash CHR ''R''),
     ta_clusters = [demo_cluster], ta_organizer_recording_hash = demo_hash CHR ''R''\<rparr>"

definition demo_evidence :: section_evidence where
  "demo_evidence = Evidence (TypedId (demo_hash CHR ''D'')) (TypedId (demo_hash CHR ''a''))
     (block_hash_of demo_externs ''First fact.'')"

definition demo_dispositions :: "source_disposition list" where
  "demo_dispositions =
     [\<lparr>sd_target = block_target demo_externs (TypedId (demo_hash CHR ''D'')) (demo_block CHR ''a'' ''First fact.''),
       sd_disposition = Integrated, sd_rationale = None\<rparr>,
      \<lparr>sd_target = block_target demo_externs (TypedId (demo_hash CHR ''D'')) (demo_block CHR ''b'' ''Second fact.''),
       sd_disposition = PreservedVerbatim, sd_rationale = None\<rparr>]"

definition demo_proposal :: synthesis_proposal where
  "demo_proposal = seal_proposal demo_externs ''facts'' (ta_taxonomy_hash demo_taxonomy) 1
     [\<lparr>ss_section_id = ''s1'', ss_heading = ''One'', ss_markdown_body = ''A fact.'', ss_evidence = [demo_evidence]\<rparr>]
     [] demo_dispositions [] (demo_hash CHR ''R'')"

definition demo_finding :: critic_finding where
  "demo_finding = \<lparr>cf_finding_id = ''f1'', cf_severity = Minor, cf_kind = LinkLoss, cf_message = ''a link'',
     cf_evidence = []\<rparr>"

definition demo_critic :: critic_report where
  "demo_critic = seal_critic demo_externs ''facts'' (sp_proposal_hash demo_proposal) [demo_finding] (demo_hash CHR ''R'')"

definition demo_revision :: approved_revision where
  "demo_revision = \<lparr>rv_proposal = demo_proposal, rv_critic = demo_critic,
     rv_approval = approve demo_externs demo_proposal demo_critic ''curator'' ''v1'' []
       [\<lparr>fw_finding_id = ''f1'', fw_curator_id = ''curator'', fw_rationale = ''harmless''\<rparr>]\<rparr>"

definition demo_binding :: approval_binding where
  "demo_binding = \<lparr>ab_target_hash = ta_taxonomy_hash demo_taxonomy, ab_approved = True,
     ab_curator_id = ''curator'', ab_policy_version = ''v1'', ab_rationale = None\<rparr>"

definition demo_plan :: integration_plan where
  "demo_plan = \<lparr>ip_format_family = ''okc'', ip_schema_version = 3,
     ip_integration_plan_id = plan_id_of demo_externs demo_corpus demo_taxonomy demo_binding [demo_revision]
       [demo_hash CHR ''R''],
     ip_corpus = demo_corpus, ip_taxonomy = demo_taxonomy, ip_taxonomy_approval = demo_binding,
     ip_clusters = [demo_revision], ip_provider_recording_hashes = [demo_hash CHR ''R'']\<rparr>"

lemma demo_nfc [simp]: "nfc demo_externs x = x"
  by (simp add: demo_externs_def)

lemma demo_component:
  "component_ok default_policy ''note.md''" "component_ok default_policy ''Facts.md''"
  "component_ok default_policy ''legacy''" "component_ok default_policy ''knowledge''"
  "component_ok default_policy ''alpha''"
  by (simp_all add: component_ok_def validate_component_def chars_def utf8_width_def forbidden_scalar_def
      is_control_def default_policy_def default_limits_def suffix_to_prefix to_ascii_uppercase_def ascii_upper_def
      reserved_names_def char_of_def)

lemma demo_bounded: "bounded ''facts'' 1 128" "bounded ''Facts'' 1 1024" "bounded ''curator'' 1 256"
  "bounded ''v1'' 1 256" "bounded ''s1'' 1 128" "bounded ''One'' 1 1024" "bounded ''f1'' 1 128"
  "bounded ''a link'' 1 8192" "bounded ''harmless'' 1 4096" 
  by (simp_all add: bounded_def has_control_def chars_def utf8_width_def is_control_def)

lemma demo_body: "validate_markdown_body ''A fact.'' = Inr ()"
  by (simp add: validate_markdown_body_def chars_def utf8_width_def is_control_def is_whitespace_def trim_def trim_start_def trim_end_def)

lemma demo_source: "new_source_id ''alpha'' = Inr (SourceId ''alpha'')"
  by (simp add: new_source_id_def is_ascii_alphanumeric_def is_ascii_alphabetic_def is_ascii_digit_def)

lemma demo_portable: "portable_path demo_externs default_policy ''note.md''"
  "portable_path demo_externs default_policy ''legacy/alpha/note.md''"
  "portable_path demo_externs default_policy ''Facts.md''"
  "portable_path demo_externs default_policy ''knowledge/Facts.md''"
  using demo_component
  by (simp_all add: portable_path_def split_path_def join_path_def default_policy_def default_limits_def)


lemma demo_hash_less: "a < b \<Longrightarrow> demo_hash a < demo_hash b"
proof -
  assume "a < b"
  then have "replicate (Suc 31) a < replicate (Suc 31) b" unfolding replicate_Suc by simp
  moreover have "Suc 31 = (32 :: nat)" by simp
  ultimately show ?thesis by (simp only: demo_hash_def less_content_hash_def content_hash.sel)
qed

lemma demo_document_ok: "document_ok demo_externs demo_document"
  using demo_portable demo_source
  by (simp add: document_ok_def demo_document_def demo_block_def block_ok_def less_typed_id_def demo_hash_less less_char_def)

lemma demo_no_collision:
  "no_portable_collision demo_externs [''legacy/alpha/note.md'']"
  "no_portable_collision demo_externs [''knowledge/Facts.md'']"
proof -
  have "{1..path_depth ''legacy/alpha/note.md''} = {1, 2, 3}" "{1..path_depth ''knowledge/Facts.md''} = {1, 2}"
    by (auto simp: path_depth_def split_path_def)
  moreover have "map (path_prefix ''legacy/alpha/note.md'') [1, 2, 3] = [''legacy'', ''legacy/alpha'', ''legacy/alpha/note.md'']"
    "map (path_prefix ''knowledge/Facts.md'') [1, 2] = [''knowledge'', ''knowledge/Facts.md'']"
    by (simp_all add: path_prefix_def split_path_def join_path_def)
  ultimately show "no_portable_collision demo_externs [''legacy/alpha/note.md'']"
    "no_portable_collision demo_externs [''knowledge/Facts.md'']"
    by (simp_all add: no_portable_collision_def full_casefold_nfc_def demo_externs_def to_ascii_lowercase_def
        path_depth_def split_path_def)
qed

lemma demo_corpus_valid: "corpus_valid demo_externs demo_corpus"
  using demo_document_ok demo_portable demo_no_collision
  by (simp add: corpus_valid_def demo_corpus_def legacy_path_def location_def)
    (simp add: demo_document_def)

lemma demo_taxonomy_valid: "taxonomy_valid demo_externs demo_corpus demo_taxonomy"
  using demo_portable demo_bounded demo_no_collision
  by (simp add: taxonomy_valid_def demo_taxonomy_def demo_corpus_def demo_document_def cluster_ok_def demo_cluster_def
      members_of_def knowledge_path_def suffix_to_prefix to_ascii_lowercase_def ascii_lower_def char_of_def)

lemma demo_documents: "cluster_documents demo_corpus demo_cluster = [(TypedId (demo_hash CHR ''D''), demo_document)]"
  by (simp add: cluster_documents_def demo_corpus_def demo_cluster_def btree_collect_def demo_document_def)

lemma demo_revision_ok: "revision_ok demo_externs demo_corpus demo_taxonomy demo_cluster demo_revision {demo_hash CHR ''R''}"
proof -
  let ?docs = "[(TypedId (demo_hash CHR ''D''), demo_document)]"
  have genuine: "genuine ?docs demo_evidence"
    by (simp add: genuine_def btree_get_def demo_evidence_def demo_document_def demo_block_def exI [of _ "demo_block CHR ''a'' ''First fact.''"] ex_disj_distrib conj_disj_distribR)
  have ne: "demo_hash CHR ''a'' \<noteq> demo_hash CHR ''b''"
    using demo_hash_less [of "CHR ''a''" "CHR ''b''"] by (simp add: less_char_def)
  have hex: "hash_hex demo_externs (demo_hash CHR ''a'') \<noteq> hash_hex demo_externs (demo_hash CHR ''b'')"
    using ne by (simp add: hash_hex_inj [OF demo_lawful(3)])
  have "dispositions_ok demo_externs ?docs demo_proposal (rv_approval demo_revision)"
    by (auto simp: dispositions_ok_def demo_proposal_def seal_proposal_def demo_revision_def approve_def
        demo_dispositions_def expected_targets_def document_targets_def demo_document_def block_target_def
        display_id_def hex cited_evidence_def demo_evidence_def demo_block_def)
  moreover have "critic_ok demo_externs demo_proposal demo_critic ?docs (rv_approval demo_revision)"
    using demo_bounded
    by (simp add: critic_ok_def demo_critic_def seal_critic_def demo_revision_def approve_def demo_finding_def
        demo_proposal_def seal_proposal_def critic_hash_of_def integration_schema_version_def finding_ok_def evidence_ok_def)
  moreover have "approval_ok demo_externs demo_proposal demo_critic (rv_approval demo_revision)"
    using demo_bounded by (simp add: approval_ok_def demo_revision_def approve_def)
  ultimately show ?thesis
    using demo_bounded demo_body genuine
    by (simp add: revision_ok_def demo_documents demo_revision_def Let_def)
      (simp add: demo_proposal_def seal_proposal_def demo_critic_def seal_critic_def proposal_hash_of_def
        integration_schema_version_def demo_cluster_def section_ok_def evidence_ok_def)
qed

lemma demo_plan_valid: "validate_plan demo_externs demo_plan = Inr ()"
proof -
  have "validate_approval demo_binding (ta_taxonomy_hash demo_taxonomy) = Inr ()"
    using demo_bounded
    by (simp add: validate_approval_def demo_binding_def validate_optional_rationale_def)
  moreover have "revision_key demo_revision = cl_cluster_id demo_cluster"
    by (simp add: revision_key_def demo_revision_def demo_proposal_def seal_proposal_def demo_cluster_def)
  ultimately show ?thesis
    using demo_corpus_valid demo_taxonomy_valid demo_revision_ok
    by (simp add: validate_plan_iff plan_ok_def demo_plan_def) (simp add: demo_taxonomy_def)
qed

lemma demo_typed: "plan_typed demo_plan"
  by (simp add: plan_typed_def demo_plan_def revision_typed_def demo_revision_def demo_corpus_def
    demo_document_def document_typed_def proposal_typed_def critic_typed_def demo_proposal_def seal_proposal_def
    demo_critic_def seal_critic_def integration_schema_version_def)


section \<open>Identifiers\<close>

definition demo_id :: "char \<Rightarrow> document_id" where
  "demo_id c = TypedId (demo_hash c)"

lemma demo_hash_ok: "hash_ok (demo_hash c)"
  by (simp add: hash_ok_def demo_hash_def)

theorem parse_id_iff_display_witness:
  "hex_lawful demo_externs \<and> parse_id demo_externs ''doc'' (display_id demo_externs ''doc'' (demo_id CHR ''x'')) =
     Inr (demo_id CHR ''x'')"
proof -
  have "hash_ok (id_hash (demo_id CHR ''x''))" by (simp add: demo_id_def demo_hash_ok)
  then show ?thesis
    using parse_id_iff_display [OF demo_lawful(3), of "''doc''" "display_id demo_externs ''doc'' (demo_id CHR ''x'')"
      "demo_id CHR ''x''"] demo_lawful(3) by blast
qed

lemma fits_short: "length b < 1000 \<Longrightarrow> fits_u64 b"
  by (simp add: fits_u64_def)

text \<open>The demonstration digest sums bytes, so swapping two parts of equal length is a collision.\<close>

theorem from_parts_binding_witness:
  "from_parts demo_externs ''d'' [''a'', ''b''] = from_parts demo_externs ''d'' [''b'', ''a''] \<and>
   collides_on demo_externs (parts_preimage ''d'' [''a'', ''b'']) (parts_preimage ''d'' [''b'', ''a''])"
proof -
  have eq: "from_parts demo_externs ''d'' [''a'', ''b''] = from_parts demo_externs ''d'' [''b'', ''a'']"
    by (simp add: from_parts_def parts_preimage_def demo_externs_def demo_digest_def length_prefixed_def ac_simps)
  from from_parts_binding [OF _ _ eq] eq show ?thesis by (simp add: fits_short)
qed

theorem snapshot_id_binding_witness:
  "from_manifest demo_externs ''s'' ''p'' [(''a'', TypedId (demo_hash CHR ''x'')), (''b'', TypedId (demo_hash CHR ''y''))] =
   from_manifest demo_externs ''s'' ''p'' [(''b'', TypedId (demo_hash CHR ''y'')), (''a'', TypedId (demo_hash CHR ''x''))] \<and>
   collides_on demo_externs
     (manifest_preimage ''s'' ''p'' [(''a'', TypedId (demo_hash CHR ''x'')), (''b'', TypedId (demo_hash CHR ''y''))])
     (manifest_preimage ''s'' ''p'' [(''b'', TypedId (demo_hash CHR ''y'')), (''a'', TypedId (demo_hash CHR ''x''))])"
  (is "?l = ?r \<and> _")
proof -
  have eq: "?l = ?r"
    by (simp add: from_manifest_def manifest_preimage_def demo_externs_def demo_digest_def ac_simps)
  from snapshot_id_binding [OF _ _ _ _ _ _ eq] eq show ?thesis
    by (simp add: fits_short member_ok_def demo_hash_ok)
qed

theorem suffix_base32_identifies_witness:
  "length (suffix_base32 (demo_id CHR ''x'') 8) = 8 \<and> set (suffix_base32 (demo_id CHR ''x'') 8) \<subseteq> set crockford_alphabet \<and>
   suffix_base32 (demo_id CHR ''x'') 52 \<noteq> suffix_base32 (demo_id CHR ''y'') 52"
proof -
  have "demo_id CHR ''x'' \<noteq> demo_id CHR ''y''"
    using demo_hash_less [of "CHR ''x''" "CHR ''y''"] by (auto simp: demo_id_def less_char_def)
  then show ?thesis
    using suffix_base32_identifies [of "demo_id CHR ''x''" "demo_id CHR ''y''" 8 8] demo_hash_ok
    by (simp add: demo_id_def)
qed

section \<open>The corpus, the taxonomy and the plan\<close>

theorem taxonomy_partitions_documents_witness:
  "validate_taxonomy demo_externs demo_corpus demo_taxonomy = Inr () \<and>
   (\<exists>!i. i < length (ta_clusters demo_taxonomy) \<and> TypedId (demo_hash CHR ''D'') \<in> set (cl_document_ids (ta_clusters demo_taxonomy ! i)))"
proof -
  have ok: "validate_taxonomy demo_externs demo_corpus demo_taxonomy = Inr ()"
    using demo_taxonomy_valid by (simp add: validate_taxonomy_valid)
  have "TypedId (demo_hash CHR ''D'') \<in> doc_document_id ` set (co_documents demo_corpus)"
    by (simp add: demo_corpus_def demo_document_def)
  with ok taxonomy_partitions_documents [OF ok] show ?thesis by blast
qed

text \<open>The same document with its blocks listed the other way round.\<close>

definition demo_shuffled :: integration_document where
  "demo_shuffled = demo_document\<lparr>doc_blocks := rev (doc_blocks demo_document)\<rparr>"

theorem seal_corpus_order_independent_witness:
  "seal_corpus demo_externs (demo_hash CHR ''P'') [demo_shuffled] = Inr demo_corpus \<and>
   demo_shuffled \<noteq> demo_document"
proof -
  have "canonical_document demo_document = demo_document"
    using less_imp_le [OF demo_hash_less [of "CHR ''a''" "CHR ''b''"]]
    by (simp add: canonical_document_def demo_document_def demo_block_def less_eq_typed_id_def less_char_def)
  then have "seal_corpus demo_externs (demo_hash CHR ''P'') [demo_document] = Inr demo_corpus"
    using demo_corpus_valid
    by (simp add: seal_corpus_def Let_def validate_corpus_valid demo_corpus_def integration_schema_version_def)
  moreover have "document_perm demo_document demo_shuffled"
    by (simp add: document_perm_def demo_shuffled_def)
  ultimately have "seal_corpus demo_externs (demo_hash CHR ''P'') [demo_shuffled] = Inr demo_corpus"
    using seal_corpus_order_independent [of demo_externs "demo_hash CHR ''P''" "[demo_document]" demo_corpus
      "[demo_document]" "[demo_shuffled]"] by simp
  moreover have "demo_shuffled \<noteq> demo_document"
    using demo_hash_less [of "CHR ''a''" "CHR ''b''"]
    by (auto simp: demo_shuffled_def demo_document_def demo_block_def less_char_def)
  ultimately show ?thesis ..
qed

theorem corpus_hash_binding_witness:
  "json_faithful demo_externs \<and> hex_lawful demo_externs \<and> document_typed demo_document \<and>
   ([demo_document] = [demo_document] \<or> collides_on demo_externs
     (canonical_preimage demo_externs (domain ''okc:integration-corpus:v3'')
        (JArr (map (json_of_document demo_externs) [demo_document])))
     (canonical_preimage demo_externs (domain ''okc:integration-corpus:v3'')
        (JArr (map (json_of_document demo_externs) [demo_document]))))"
proof -
  have "document_typed demo_document" by (simp add: document_typed_def demo_document_def)
  then show ?thesis
    using corpus_hash_binding [OF demo_lawful(2,3), of "[demo_document]" "[demo_document]"] demo_lawful by simp
qed

lemma demo_in_plan [simp]:
  "demo_revision \<in> set (ip_clusters demo_plan)" "ip_corpus demo_plan = demo_corpus"
  "ip_taxonomy demo_plan = demo_taxonomy" "co_documents demo_corpus = [demo_document]"
  "ip_clusters demo_plan = [demo_revision]" "ta_clusters demo_taxonomy = [demo_cluster]"
  "sp_dispositions (rv_proposal demo_revision) = demo_dispositions"
  by (simp_all add: demo_plan_def demo_corpus_def demo_taxonomy_def demo_revision_def demo_proposal_def seal_proposal_def)

theorem every_source_unit_has_one_disposition_witness:
  "\<exists>!(r, s). r \<in> set (ip_clusters demo_plan) \<and> s \<in> set (sp_dispositions (rv_proposal r)) \<and>
     sd_target s = block_target demo_externs (doc_document_id demo_document) (demo_block CHR ''b'' ''Second fact.'')"
proof -
  have "block_target demo_externs (doc_document_id demo_document) (demo_block CHR ''b'' ''Second fact.'')
      \<in> set (document_targets demo_externs demo_document)"
    by (simp add: document_targets_def demo_document_def)
  with every_source_unit_has_one_disposition [OF demo_plan_valid] show ?thesis by simp
qed

theorem no_silent_omission_witness:
  "hex_lawful demo_externs \<and> sd_disposition (hd demo_dispositions) = Integrated \<and>
   (\<exists>e \<in> set (cited_evidence (rv_proposal demo_revision)). ev_block_id e = TypedId (demo_hash CHR ''a''))"
proof -
  have mem: "hd demo_dispositions \<in> set (sp_dispositions (rv_proposal demo_revision))"
    by (simp add: demo_dispositions_def)
  have kind: "sd_disposition (hd demo_dispositions) = Integrated"
    and target: "sd_target (hd demo_dispositions) =
      block_target demo_externs (TypedId (demo_hash CHR ''D'')) (demo_block CHR ''a'' ''First fact.'')"
    by (simp_all add: demo_dispositions_def)
  from no_silent_omission [OF demo_lawful(3) demo_plan_valid demo_in_plan(1) mem] kind target demo_lawful(3)
  show ?thesis by (force simp: demo_block_def)
qed

theorem evidence_is_genuine_witness:
  "demo_evidence \<in> set (all_evidence demo_revision) \<and>
   (\<exists>b \<in> set (doc_blocks demo_document). ev_content_hash demo_evidence = block_hash_of demo_externs (sb_text b))"
proof -
  have mem: "demo_evidence \<in> set (all_evidence demo_revision)"
    by (simp add: all_evidence_def cited_evidence_def demo_revision_def demo_proposal_def seal_proposal_def)
  from evidence_is_genuine [OF demo_plan_valid demo_in_plan(1) mem] mem show ?thesis by auto
qed

theorem no_unresolved_criticism_witness:
  "cf_severity demo_finding = Minor \<and>
   length (ca_minor_waivers (rv_approval demo_revision)) = 1 \<and> cr_findings (rv_critic demo_revision) = [demo_finding]"
proof -
  have "cr_findings (rv_critic demo_revision) = [demo_finding]"
    by (simp add: demo_revision_def demo_critic_def seal_critic_def)
  with no_unresolved_criticism [OF demo_plan_valid demo_in_plan(1)] show ?thesis by simp
qed

theorem approval_binds_content_witness:
  "revision_typed demo_revision \<and>
   (rv_critic demo_revision = rv_critic demo_revision \<or>
    collides_on demo_externs (signed_text demo_externs demo_revision) (signed_text demo_externs demo_revision))"
proof -
  have typed: "revision_typed demo_revision" using demo_typed by (simp add: plan_typed_def)
  from approval_binds_content [OF demo_lawful(2,3) demo_plan_valid demo_in_plan(1) typed demo_plan_valid
      demo_in_plan(1) typed refl] typed show ?thesis by blast
qed

theorem plan_id_identifies_plan_witness:
  "plan_typed demo_plan \<and> (demo_plan = demo_plan \<or>
    collides_on demo_externs (plan_text demo_externs demo_plan) (plan_text demo_externs demo_plan) \<or>
    collides_on demo_externs (corpus_text demo_externs demo_plan) (corpus_text demo_externs demo_plan) \<or>
    collides_on demo_externs (taxonomy_text demo_externs demo_plan) (taxonomy_text demo_externs demo_plan))"
  using plan_id_identifies_plan [OF demo_lawful(2,3) demo_typed demo_typed demo_plan_valid demo_plan_valid refl] demo_typed
  by blast

theorem seal_plan_canonical_witness:
  "seal_plan demo_externs demo_corpus demo_taxonomy demo_binding [demo_revision]
     [demo_hash CHR ''R'', demo_hash CHR ''R''] = Inr demo_plan"
proof -
  have "seal_plan demo_externs demo_corpus demo_taxonomy demo_binding [demo_revision] [demo_hash CHR ''R''] = Inr demo_plan"
    using demo_plan_valid by (simp add: seal_plan_def Let_def demo_plan_def integration_schema_version_def)
  from seal_plan_canonical [OF demo_lawful(3) this] show ?thesis by auto
qed


section \<open>Materialisation\<close>

lemma demo_files: "materialized_files demo_externs demo_plan = Inr (output_files demo_externs demo_plan)"
  using demo_plan_valid by (simp add: validate_plan_iff materialized_output_files)

theorem materialization_total_witness:
  "\<exists>files. materialized_files demo_externs demo_plan = Inr files \<and> sorted_wrt (<) (map fst files) \<and>
     set (map fst files) = {''knowledge/Facts.md'', ''legacy/alpha/note.md''} \<and> length files = 2"
proof -
  have "knowledge_path ` set (ta_clusters (ip_taxonomy demo_plan)) \<union> legacy_path ` set (co_documents (ip_corpus demo_plan))
      = {''knowledge/Facts.md'', ''legacy/alpha/note.md''}"
    "length (ta_clusters (ip_taxonomy demo_plan)) + length (co_documents (ip_corpus demo_plan)) = 2"
    by (simp_all add: knowledge_path_def demo_cluster_def legacy_path_def demo_document_def insert_commute)
  with materialization_total [OF demo_plan_valid] show ?thesis by metis
qed

theorem preserved_blocks_are_rendered_witness:
  "\<exists>files body. materialized_files demo_externs demo_plan = Inr files \<and> (knowledge_path demo_cluster, body) \<in> set files \<and>
     sublist (render_preserved demo_externs (doc_document_id demo_document, demo_block CHR ''b'' ''Second fact.'')) body"
proof -
  let ?b = "demo_block CHR ''b'' ''Second fact.''" and ?x = "demo_dispositions ! 1"
  from preserved_blocks_are_rendered [OF demo_lawful(3) demo_plan_valid demo_files demo_in_plan(1)]
  obtain c body where c: "c \<in> set (ta_clusters (ip_taxonomy demo_plan))"
    and body: "(knowledge_path c, body) \<in> set (output_files demo_externs demo_plan)"
    and shown: "\<forall>d \<in> set (co_documents (ip_corpus demo_plan)). \<forall>b \<in> set (doc_blocks d).
      \<forall>x \<in> set (sp_dispositions (rv_proposal demo_revision)).
        sd_target x = block_target demo_externs (doc_document_id d) b \<and> sd_disposition x = PreservedVerbatim \<longrightarrow>
        sublist (render_preserved demo_externs (doc_document_id d, b)) body"
    by (elim bexE exE conjE) (rule that)
  have x: "?x \<in> set (sp_dispositions (rv_proposal demo_revision))"
    "sd_target ?x = block_target demo_externs (doc_document_id demo_document) ?b \<and> sd_disposition ?x = PreservedVerbatim"
    and b: "?b \<in> set (doc_blocks demo_document)"
    and d: "demo_document \<in> set (co_documents (ip_corpus demo_plan))"
    by (simp_all add: demo_dispositions_def demo_document_def demo_corpus_def)
  have "sublist (render_preserved demo_externs (doc_document_id demo_document, ?b)) body"
    using shown [rule_format, OF d b x(1,2)] .
  moreover from c have "c = demo_cluster" by simp
  ultimately show ?thesis using demo_files body by blast
qed

theorem provenance_covers_every_file_witness:
  "\<exists>records. list_all2 (record_about demo_externs demo_plan) (output_files demo_externs demo_plan) records \<and>
     provenance_jsonl demo_externs demo_plan (output_files demo_externs demo_plan) =
       Inr (concat (map (provenance_line demo_externs) records))"
  by (rule provenance_covers_every_file [OF demo_plan_valid demo_files])


end
