(* ===== verification/DemoVault.thy ===== *)
theory DemoVault
  imports Demo
begin

text \<open>
  The demonstration vault on disk: its sizes, deserialisers for it, and the closed instances of the
  theorems about compilation and verification.
\<close>
section \<open>Sizes\<close>

lemma demo_ops:
  "json_vec demo_externs = demo_json" "json_vec_pretty demo_externs = demo_json"
  "sha256 demo_externs = demo_digest" "hex_encode demo_externs = demo_hex"
  by (simp_all add: demo_externs_def)

lemma length_string_code [simp]: "length (string_code s) = 2 * length s + 1"
  by (induction s) (simp_all add: string_code_def)

lemma length_number_code [simp]: "length (number_code n) = 65"
  by (cases n) (simp_all add: word_code_def)

fun json_size :: "json \<Rightarrow> nat" where
  "json_size JNull = 1"
| "json_size (JBool b) = 1"
| "json_size (JNum n) = 66"
| "json_size (JStr s) = 2 * length s + 2"
| "json_size (JArr vs) = 2 + sum_list (map (\<lambda>v. 1 + json_size v) vs)"
| "json_size (JObj m) = 2 + sum_list (map (\<lambda>(k, v). 2 + 2 * length k + json_size v) m)"

lemma length_demo_json: "length (demo_json v) = json_size v"
proof (induction v)
  case (JArr vs)
  have "length (concat (map (\<lambda>v. CHR ''v'' # demo_json v) vs)) = sum_list (map (\<lambda>v. 1 + json_size v) vs)"
    using JArr by (induction vs) auto
  then show ?case by simp
next
  case (JObj m)
  have "length (concat (map (\<lambda>(k, v). CHR ''v'' # string_code k @ demo_json v) m)) =
      sum_list (map (\<lambda>(k, v). 2 + 2 * length k + json_size v) m)"
    using JObj by (induction m) fastforce+
  then show ?case by simp
qed simp_all

definition members_size :: "(string \<times> json) list \<Rightarrow> nat" where
  "members_size m = sum_list (map (\<lambda>(k, v). 2 + 2 * length k + json_size v) m)"

lemma members_size_insert: "members_size (btree_insert k v m) \<le> 2 + 2 * length k + json_size v + members_size m"
  by (induction k v m rule: btree_insert.induct) (auto simp: members_size_def)

lemma members_size_collect: "members_size (btree_collect xs) \<le> members_size xs"
proof -
  have "members_size (foldl (\<lambda>m (k, v). btree_insert k v m) m xs) \<le> members_size m + members_size xs" for m
  proof (induction xs arbitrary: m)
    case (Cons x xs)
    obtain k v where x: "x = (k, v)" by (cases x)
    show ?case
      using Cons.IH [of "btree_insert k v m"] members_size_insert [of k v m] by (simp add: x members_size_def)
  qed (simp add: members_size_def)
  from this [of "[]"] show ?thesis by (simp add: btree_collect_def members_size_def)
qed

lemma json_size_sort: "json_size (sort_json v) \<le> json_size v"
proof (induction v)
  case (JArr vs)
  have "sum_list (map (\<lambda>v. 1 + json_size (sort_json v)) vs) \<le> sum_list (map (\<lambda>v. 1 + json_size v) vs)"
    using JArr by (intro sum_list_mono) auto
  then show ?case by (simp add: o_def)
next
  case (JObj m)
  have "members_size (map (\<lambda>(k, v). (k, sort_json v)) (sort_key fst m)) \<le> members_size (sort_key fst m)"
    unfolding members_size_def map_map
  proof (intro sum_list_mono)
    fix f assume "f \<in> set (sort_key fst m)"
    then have "json_size (sort_json (snd f)) \<le> json_size (snd f)" by (intro JObj [of f]) (cases f, auto simp: snds.simps)
    then show "((\<lambda>(k, v). 2 + 2 * length k + json_size v) \<circ> (\<lambda>(k, v). (k, sort_json v))) f
        \<le> (case f of (k, v) \<Rightarrow> 2 + 2 * length k + json_size v)" by (cases f) simp
  qed
  also have "\<dots> = members_size m"
    unfolding members_size_def sum_mset_sum_list [symmetric] mset_map mset_sort ..
  finally show ?case
    using members_size_collect [of "map (\<lambda>(k, v). (k, sort_json v)) (sort_key fst m)"]
    by (simp add: members_size_def)
qed simp_all

lemma json_size_jobj:
  assumes "distinct (map fst ms)"
  shows "json_size (jobj ms) = 2 + members_size ms"
proof -
  have ok: "btree_ok (btree_collect ms)" by (simp add: btree_collect_facts)
  have distinct_mapD: "distinct (map fst xs) \<Longrightarrow> distinct xs" for xs :: "(string \<times> json) list"
    by (simp add: distinct_map)
  have "set (btree_collect ms) = set ms"
    using bt.entries_get [OF ok] btree_collect_facts(3) [OF assms] by auto
  moreover have "distinct ms" "distinct (btree_collect ms)"
    using assms btree_ok_distinct [OF ok] by (auto dest: distinct_mapD)
  ultimately have "mset (btree_collect ms) = mset ms" by (simp add: set_eq_iff_mset_eq_distinct)
  then have "members_size (btree_collect ms) = members_size ms"
    unfolding members_size_def sum_mset_sum_list [symmetric] mset_map by simp
  then show ?thesis by (simp add: jobj_def members_size_def)
qed

lemma length_canonical:
  "length (to_canonical_json demo_externs v) \<le> json_size v"
  "length (to_canonical_json_pretty demo_externs v) \<le> json_size v + 1"
  using json_size_sort [of v]
  by (simp_all add: to_canonical_json_def to_canonical_json_pretty_def demo_ops length_demo_json)

lemma length_demo_hash [simp]:
  "length (hash_hex demo_externs h) = 2 * length (hash_bytes h)"
  by (simp add: hash_hex_def demo_ops demo_hex_laws)

lemma json_size_atoms [simp]:
  "json_size (jnat n) = 66" "json_size (jopt g None) = 1" "json_size (jopt g (Some x)) = json_size (g x)"
  "json_size (jhash demo_externs h) = 4 * length (hash_bytes h) + 2"
  "json_size (jid demo_externs pre i) = 2 * length pre + 4 * length (hash_bytes (id_hash i)) + 4"
  by (simp_all add: jnat_def jopt_def jhash_def jid_def display_id_def)


lemma length_demo_digest [simp]:
  "length (hash_bytes (canonical_hash demo_externs d v)) = 32"
  "length (hash_bytes (from_domain_bytes demo_externs d b)) = 32"
  "length (hash_bytes (demo_hash c)) = 32"
  by (simp_all add: canonical_hash_def from_domain_bytes_def demo_ops demo_digest_def demo_hash_def)

lemma length_demo_plan_id: "length (ip_integration_plan_id demo_plan) = 76"
  by (simp add: demo_plan_def plan_id_of_def)

lemma demo_revision_size: "json_size (json_of_revision demo_externs demo_revision) \<le> 20000"
  by (simp add: json_of_revision_def json_size_jobj members_size_def demo_revision_def json_of_proposal_def
      demo_proposal_def seal_proposal_def json_of_section_def json_of_evidences_def json_of_evidence_def
      demo_evidence_def block_hash_of_def demo_dispositions_def json_of_disposition_def json_of_target_def block_target_def
      demo_block_def display_id_def demo_critic_def seal_critic_def json_of_critic_def json_of_finding_def demo_finding_def
      approve_def json_of_approval_def cluster_revision_hash_def json_of_waiver_def
      demo_taxonomy_def taxonomy_hash_of_def)


lemma demo_plan_size: "json_size (json_of_plan demo_externs demo_plan) \<le> 100000"
  using demo_revision_size length_demo_plan_id
  by (simp add: json_of_plan_def json_size_jobj members_size_def json_of_corpus_def json_of_taxonomy_def json_of_cluster_def
      json_of_document_def json_of_block_def json_of_binding_def demo_corpus_def demo_document_def demo_block_def
      demo_taxonomy_def demo_cluster_def demo_binding_def corpus_hash_of_def taxonomy_hash_of_def block_hash_of_def
      demo_plan_def)

lemma demo_cluster_of: "cluster_of demo_plan demo_revision = demo_cluster" "revision_key demo_revision = ''facts''"
  "home_cluster demo_plan demo_document = demo_cluster"
  by (simp_all add: cluster_of_def clusters_by_id_def btree_collect_def btree_get_def home_cluster_def revision_key_def
      demo_revision_def demo_proposal_def seal_proposal_def demo_cluster_def demo_document_def)

lemma demo_fields [simp]:
  "cl_cluster_id demo_cluster = ''facts''" "cl_title demo_cluster = ''Facts''"
  "cl_canonical_path demo_cluster = ''Facts.md''" "cl_document_ids demo_cluster = [TypedId (demo_hash CHR ''D'')]"
  "doc_document_id demo_document = TypedId (demo_hash CHR ''D'')" "doc_metadata demo_document = []"
  "legacy_path demo_document = ''legacy/alpha/note.md''" "knowledge_path demo_cluster = ''knowledge/Facts.md''"
  by (simp_all add: demo_cluster_def demo_document_def legacy_path_def knowledge_path_def)

lemma demo_trim: "trim_end ''First fact.'' = ''First fact.''" "trim_end ''Second fact.'' = ''Second fact.''"
  "trim_end ''A fact.'' = ''A fact.''"
  by (simp_all add: trim_end_def utf8_width_def is_whitespace_def)

lemma demo_documents_of: "note_documents demo_plan demo_cluster = [demo_document]"
  by (simp add: note_documents_def map_filter_def demo_cluster_def demo_document_def)

lemma demo_note_size: "length (note_text demo_externs demo_plan demo_revision) \<le> 10000"
proof -
  have preserved: "length (concat (map (render_preserved demo_externs)
      (preserved_blocks demo_externs (disposition_by_target demo_revision) [demo_document]))) \<le> 1000"
    by (simp add: preserved_blocks_def demo_document_def demo_block_def render_preserved_def display_id_def nl_def demo_trim)
  have parts: "sp_related_links demo_proposal = []" "sp_contradictions demo_proposal = []"
    "sp_sections demo_proposal = [\<lparr>ss_section_id = ''s1'', ss_heading = ''One'', ss_markdown_body = ''A fact.'',
       ss_evidence = [demo_evidence]\<rparr>]" "rv_proposal demo_revision = demo_proposal"
    by (simp_all add: demo_proposal_def seal_proposal_def demo_revision_def)
  have retained: "retained_metadata demo_externs (disposition_by_target demo_revision) [demo_document] = []"
    by (simp add: retained_metadata_def map_filter_def demo_document_def)
  have head: "length (render_head demo_externs demo_plan demo_cluster demo_revision) \<le> 1000"
    using length_demo_plan_id
    by (simp add: render_head_def demo_documents_of retained yaml_scalar_def demo_ops nl_def)
  show ?thesis
    using preserved head
    by (simp add: note_text_def note_of_def demo_cluster_of render_canonical_note_def Let_def parts demo_documents_of
        render_section_def nl_def demo_trim)
qed

lemma demo_stub_size: "length (snd (stub_file demo_externs demo_plan demo_document)) \<le> 10000"
  using length_demo_plan_id
  by (simp add: stub_file_def demo_cluster_of render_legacy_stub_def yaml_scalar_def demo_ops nl_def display_id_def
      strip_suffix_def suffix_to_prefix)

lemma demo_output: "set (output_files demo_externs demo_plan) =
    {(''knowledge/Facts.md'', note_text demo_externs demo_plan demo_revision),
     (''legacy/alpha/note.md'', snd (stub_file demo_externs demo_plan demo_document))}"
  "length (output_files demo_externs demo_plan) = 2"
  by (auto simp: output_files_def note_text_def note_of_def demo_cluster_of stub_file_def)


lemma demo_hash_sizes [simp]:
  "length (hash_bytes (sp_proposal_hash demo_proposal)) = 32" "length (hash_bytes (cr_critic_hash demo_critic)) = 32"
  "rv_proposal demo_revision = demo_proposal" "rv_critic demo_revision = demo_critic"
  "length (hash_bytes (ca_revision_hash (rv_approval demo_revision))) = 32"
  "length (hash_bytes (output_hash demo_externs b)) = 32"
  "cited_evidence demo_proposal = [demo_evidence]"
  "length (hash_bytes (block_hash_of demo_externs t)) = 32"
  by (simp_all add: demo_proposal_def seal_proposal_def demo_critic_def seal_critic_def demo_revision_def approve_def
      cluster_revision_hash_def output_hash_def cited_evidence_def block_hash_of_def)

lemma demo_record_sizes:
  "json_size (json_of_record demo_externs (note_record demo_externs demo_plan demo_revision)) \<le> 10000"
  "json_size (json_of_record demo_externs (stub_record demo_externs demo_plan demo_document demo_revision)) \<le> 10000"
  using length_demo_plan_id
  by (simp_all add: json_of_record_def json_size_jobj members_size_def note_record_def stub_record_def make_record_def
      json_of_evidences_def json_of_evidence_def demo_evidence_def demo_cluster_of block_evidence_def)
    (simp add: demo_document_def demo_block_def json_of_evidence_def json_size_jobj members_size_def)

lemma demo_provenance:
  obtains prov where "provenance_jsonl demo_externs demo_plan (output_files demo_externs demo_plan) = Inr prov"
    "length prov \<le> 100000"
proof -
  have ok: "plan_ok demo_externs demo_plan" using demo_plan_valid by (simp add: validate_plan_iff)
  let ?f = "note_of demo_externs demo_plan demo_revision" and ?g = "stub_file demo_externs demo_plan demo_document"
  have f: "provenance_of demo_externs demo_plan ?f = Inr (note_record demo_externs demo_plan demo_revision)"
    by (rule provenance_of_note [OF ok demo_in_plan(1)])
  have "demo_document \<in> set (co_documents (ip_corpus demo_plan))" by simp
  from provenance_of_stub [OF ok this]
  have g: "provenance_of demo_externs demo_plan ?g = Inr (stub_record demo_externs demo_plan demo_document demo_revision)"
    by auto
  have "output_files demo_externs demo_plan = [?f, ?g]"
    by (simp add: output_files_def note_of_def stub_file_def demo_cluster_of less_char_def)
  then have "provenance_jsonl demo_externs demo_plan (output_files demo_externs demo_plan) =
      Inr (provenance_line demo_externs (note_record demo_externs demo_plan demo_revision) @
        provenance_line demo_externs (stub_record demo_externs demo_plan demo_document demo_revision))"
    using f g by (simp add: provenance_jsonl_def)
  then show ?thesis
    by (rule that) (use order_trans [OF length_canonical(1) demo_record_sizes(1)]
      order_trans [OF length_canonical(1) demo_record_sizes(2)] in \<open>simp add: provenance_line_def nl_def\<close>)
qed

text \<open>Deserialisers that read back exactly the demonstration vault.\<close>

definition demo_readers :: "bytes \<Rightarrow> readers" where
  "demo_readers prov = \<lparr>
     read_manifest = (\<lambda>_. Some (manifest_of demo_plan (inventory_from_bytes demo_externs
       (audit_files demo_externs demo_plan (output_files demo_externs demo_plan) prov)))),
     read_raw = (\<lambda>_. Some RNull), read_plan = (\<lambda>_. Some demo_plan), read_record = (\<lambda>_. None)\<rparr>"

lemma length_checksums: "length (checksum_text (inventory_from_bytes demo_externs fs)) =
    sum_list (map (\<lambda>f. 67 + length (fst f)) fs)"
proof -
  let ?g = "\<lambda>m. length (mf_raw_sha256 m) + 3 + length (mf_path m)"
  have "length (checksum_text ms) = sum_list (map ?g ms)" for ms
    by (induction ms) (simp_all add: checksum_text_def nl_def)
  moreover have "sum_list (map ?g (sort_key mf_path ms)) = sum_list (map ?g ms)" for ms :: "manifest_file list"
    unfolding sum_mset_sum_list [symmetric] mset_map mset_sort ..
  moreover have "?g (manifest_file_of demo_externs f) = 67 + length (fst f)" for f
    by (cases f) (simp add: manifest_file_of_def demo_ops demo_hex_laws demo_digest_def)
  ultimately show ?thesis by (simp only: inventory_from_bytes_def map_map o_def)
qed

lemma inventory_json_size:
  "sum_list (map (\<lambda>m. Suc (json_size (json_of_manifest_file demo_externs m))) (inventory_from_bytes demo_externs fs)) =
    sum_list (map (\<lambda>f. 407 + 2 * length (fst f)) fs)"
proof -
  let ?g = "\<lambda>m. Suc (json_size (json_of_manifest_file demo_externs m))"
  have "sum_list (map ?g (sort_key mf_path ms)) = sum_list (map ?g ms)" for ms :: "manifest_file list"
    unfolding sum_mset_sum_list [symmetric] mset_map mset_sort ..
  moreover have "?g (manifest_file_of demo_externs f) = 407 + 2 * length (fst f)" for f
    by (cases f) (simp add: manifest_file_of_def demo_ops demo_hex_laws demo_digest_def json_of_manifest_file_def
        json_size_jobj members_size_def)
  ultimately show ?thesis by (simp only: inventory_from_bytes_def map_map o_def)
qed

lemma demo_readable:
  assumes "length prov \<le> 100000"
  shows "vault_readable demo_externs (demo_readers prov) demo_plan (output_files demo_externs demo_plan) prov"
proof -
  let ?files = "output_files demo_externs demo_plan"
  have files: "?files = [note_of demo_externs demo_plan demo_revision, stub_file demo_externs demo_plan demo_document]"
    by (simp add: output_files_def note_of_def stub_file_def demo_cluster_of less_char_def)
  have paths: "fst (note_of demo_externs demo_plan demo_revision) = ''knowledge/Facts.md''"
    "fst (stub_file demo_externs demo_plan demo_document) = ''legacy/alpha/note.md''"
    by (simp_all add: note_of_def stub_file_def demo_cluster_of)
  have plan: "length (to_canonical_json_pretty demo_externs (json_of_plan demo_externs demo_plan)) \<le> 100001"
    using length_canonical(2) [of "json_of_plan demo_externs demo_plan"] demo_plan_size by simp
  have names: "okc_path ''manifest.json'' = ''.okc/manifest.json''" "okc_path ''checksums.txt'' = ''.okc/checksums.txt''"
    "okc_path ''integration-plan.json'' = ''.okc/integration-plan.json''" "okc_path ''provenance.jsonl'' = ''.okc/provenance.jsonl''"
    by (simp_all add: okc_path_def join_path_def)
  have manifest: "length (manifest_bytes_of demo_externs demo_plan ?files prov) \<le> 100000"
  proof -
    have "json_size (json_of_manifest demo_externs (manifest_of demo_plan
        (inventory_from_bytes demo_externs (audit_files demo_externs demo_plan ?files prov)))) \<le> 10000"
      using length_demo_plan_id
      by (simp add: json_of_manifest_def json_size_jobj members_size_def manifest_of_def o_def inventory_json_size
          audit_files_def files paths names product_version_def pack_profile_def demo_corpus_def demo_taxonomy_def
          corpus_hash_of_def taxonomy_hash_of_def del: map_append)
    then show ?thesis
      using length_canonical(2) [of "json_of_manifest demo_externs (manifest_of demo_plan
        (inventory_from_bytes demo_externs (audit_files demo_externs demo_plan ?files prov)))"]
      by (simp add: manifest_bytes_of_def)
  qed
  have pair: "(path, b) = x \<longleftrightarrow> fst x = path \<and> snd x = b" for path b and x :: "string \<times> bytes" by auto
  have "length b \<le> 100001" if "(path, b) \<in> set (vault_files demo_externs demo_plan ?files prov)" for path b
    using that assms plan manifest demo_note_size demo_stub_size
    by (auto simp: vault_files_def listed_files_def audit_files_def files length_checksums paths names note_text_def pair)
  then show ?thesis
    using plan manifest
    by (fastforce simp: vault_readable_def plan_from_bytes_def demo_readers_def u64_max_def max_manifest_bytes_def
        max_approved_plan_bytes_def require_def)
qed


section \<open>Publication\<close>

definition demo_prov :: bytes where
  "demo_prov = (case provenance_jsonl demo_externs demo_plan (output_files demo_externs demo_plan) of
     Inr b \<Rightarrow> b | Inl _ \<Rightarrow> [])"

lemma demo_prov:
  "provenance_jsonl demo_externs demo_plan (output_files demo_externs demo_plan) = Inr demo_prov"
  "vault_readable demo_externs (demo_readers demo_prov) demo_plan (output_files demo_externs demo_plan) demo_prov"
proof -
  obtain prov where "provenance_jsonl demo_externs demo_plan (output_files demo_externs demo_plan) = Inr prov"
    "length prov \<le> 100000" by (rule demo_provenance)
  then show "provenance_jsonl demo_externs demo_plan (output_files demo_externs demo_plan) = Inr demo_prov"
    "vault_readable demo_externs (demo_readers demo_prov) demo_plan (output_files demo_externs demo_plan) demo_prov"
    using demo_readable [of prov] by (simp_all add: demo_prov_def)
qed

lemma demo_nfc_ascii: "nfc_ascii demo_externs"
  by (simp add: nfc_ascii_def)

theorem compile_then_verify_witness:
  "\<exists>t. compile_with_hook demo_externs (demo_readers demo_prov) no_faults id ''stage'' ''vault'' demo_plan [] =
      ([(''vault'', DirNode t)], Inr \<lparr>art_path = ''vault'',
        art_integration_plan_id = ip_integration_plan_id demo_plan, art_files = 6\<rparr>)"
proof -
  have "btree_ok []" "''stage'' \<noteq> ''vault''" "btree_get [] ''stage'' = None" "btree_get [] ''vault'' = None"
    by (simp_all add: btree_ok_def btree_get_def)
  from compile_then_verify [OF demo_plan_valid demo_nfc_ascii this, of "demo_readers demo_prov"]
  obtain files prov t where "materialized_files demo_externs demo_plan = Inr files"
    "provenance_jsonl demo_externs demo_plan files = Inr prov"
    "vault_readable demo_externs (demo_readers demo_prov) demo_plan files prov \<longrightarrow>
      compile_with_hook demo_externs (demo_readers demo_prov) no_faults id ''stage'' ''vault'' demo_plan [] =
      (btree_insert ''vault'' (DirNode t) [], Inr \<lparr>art_path = ''vault'',
        art_integration_plan_id = ip_integration_plan_id demo_plan, art_files = length files + 4\<rparr>)" by blast
  then show ?thesis using demo_files demo_prov demo_output(2) by auto
qed

text \<open>The tree written by hand: what \<open>verify\<close> accepts is the vault of the plan.\<close>

theorem verify_sound_witness:
  "\<exists>es m. verify demo_externs (demo_readers demo_prov) no_faults (Some (DirNode es)) = Inr m \<and>
     (\<exists>plan files provenance. validate_plan demo_externs plan = Inr () \<and>
        materialized_files demo_externs plan = Inr files \<and> provenance_jsonl demo_externs plan files = Inr provenance \<and>
        m = manifest_of plan (inventory_from_bytes demo_externs (audit_files demo_externs plan files provenance)))"
proof -
  have ok: "plan_ok demo_externs demo_plan" using demo_plan_valid by (simp add: validate_plan_iff)
  obtain t where "holds t (vault_files demo_externs demo_plan (output_files demo_externs demo_plan) demo_prov)"
    using stage_complete [OF ok demo_nfc_ascii demo_prov] by blast
  from verify_complete [OF ok demo_nfc_ascii demo_prov this]
  obtain m where "verify demo_externs (demo_readers demo_prov) no_faults (Some (DirNode t)) = Inr m" by blast
  from verify_sound [OF this] this show ?thesis by blast
qed

text \<open>A run in which the rename finds the destination taken.\<close>

definition rival :: "entries \<Rightarrow> entries" where
  "rival es = btree_insert ''vault'' (FileNode ''rival'') es"

lemma rival_leaves_stage: "leaves_stage_alone rival ''stage''"
  by (simp add: leaves_stage_alone_def rival_def btree_insert_ok)

theorem publication_is_atomic_witness:
  "\<exists>es' r before. compile_with_hook demo_externs (demo_readers demo_prov) no_faults rival ''stage'' ''vault'' demo_plan [] = (es', r) \<and>
    (before = [] \<or> (\<exists>x. before = rival (btree_insert ''stage'' x []))) \<and>
    (if (\<exists>a. r = Inr a) \<or> (\<exists>c. r = Inl (PublishedButDurabilityUncertain ''vault'' c))
     then btree_get before ''vault'' = None \<and> published demo_externs (demo_readers demo_prov) no_faults ''stage'' ''vault'' es'
     else \<exists>e. r = Inl e \<and> not_published ''stage'' ''vault'' before e es')"
proof -
  obtain es' r where run:
    "compile_with_hook demo_externs (demo_readers demo_prov) no_faults rival ''stage'' ''vault'' demo_plan [] = (es', r)"
    by fastforce
  show ?thesis
    using publication_is_atomic [OF _ _ _ rival_leaves_stage run] run by (simp add: btree_ok_def btree_get_def)
qed

end
