(* ===== verification/Interop.thy ===== *)
theory Interop
  imports Corpus
begin

text \<open>
  The error model of the language bindings: \<open>okc-interop/src/lib.rs\<close>, \<open>ErrorCode\<close>,
  \<open>ErrorCategory\<close>, \<open>OkcError\<close> and the functions that map application, provider, core and system
  errors to it. The model's core errors carry no message texts; where the code forwards one, or
  a \<open>Debug\<close> rendering, it is looked up in \<open>error_texts\<close>.
\<close>

section \<open>Data\<close>

datatype error_category = CatArgument | CatPath | CatProject | CatProvider | CatConsent | CatApproval
  | CatOutput | CatVerification | CatCancellation | CatInternal

datatype error_code = CodeInvalidArgument | CodePathNotAbsolute | CodePathNotFound | CodePathUnsafe
  | CodePathUnsupported | CodeResourceLimit | CodeProjectInvalid | CodeProjectBusy | CodeProviderInvalid
  | CodeProviderAuthentication | CodeProviderAuthorization | CodeProviderEnvSecretMissing
  | CodeProviderRateLimited | CodeProviderTimeout | CodeProviderResponseInvalid | CodeProviderUnsupported
  | CodeProviderTransport | CodeRemoteConsentRequired | CodeSensitiveRemoteForbidden | CodeApprovalRequired
  | CodeApprovalStale | CodeOutputExists | CodeOutputOverlap | CodeOutputDurabilityUncertain
  | CodeArtifactSchemaUnsupported | CodeVerificationFailed | CodeCancelled | CodeInternal

text \<open>\<open>rename_all = "SCREAMING_SNAKE_CASE"\<close>.\<close>

fun code_name :: "error_code \<Rightarrow> string" where
  "code_name CodeInvalidArgument = ''INVALID_ARGUMENT''"
| "code_name CodePathNotAbsolute = ''PATH_NOT_ABSOLUTE''"
| "code_name CodePathNotFound = ''PATH_NOT_FOUND''"
| "code_name CodePathUnsafe = ''PATH_UNSAFE''"
| "code_name CodePathUnsupported = ''PATH_UNSUPPORTED''"
| "code_name CodeResourceLimit = ''RESOURCE_LIMIT''"
| "code_name CodeProjectInvalid = ''PROJECT_INVALID''"
| "code_name CodeProjectBusy = ''PROJECT_BUSY''"
| "code_name CodeProviderInvalid = ''PROVIDER_INVALID''"
| "code_name CodeProviderAuthentication = ''PROVIDER_AUTHENTICATION''"
| "code_name CodeProviderAuthorization = ''PROVIDER_AUTHORIZATION''"
| "code_name CodeProviderEnvSecretMissing = ''PROVIDER_ENV_SECRET_MISSING''"
| "code_name CodeProviderRateLimited = ''PROVIDER_RATE_LIMITED''"
| "code_name CodeProviderTimeout = ''PROVIDER_TIMEOUT''"
| "code_name CodeProviderResponseInvalid = ''PROVIDER_RESPONSE_INVALID''"
| "code_name CodeProviderUnsupported = ''PROVIDER_UNSUPPORTED''"
| "code_name CodeProviderTransport = ''PROVIDER_TRANSPORT''"
| "code_name CodeRemoteConsentRequired = ''REMOTE_CONSENT_REQUIRED''"
| "code_name CodeSensitiveRemoteForbidden = ''SENSITIVE_REMOTE_FORBIDDEN''"
| "code_name CodeApprovalRequired = ''APPROVAL_REQUIRED''"
| "code_name CodeApprovalStale = ''APPROVAL_STALE''"
| "code_name CodeOutputExists = ''OUTPUT_EXISTS''"
| "code_name CodeOutputOverlap = ''OUTPUT_OVERLAP''"
| "code_name CodeOutputDurabilityUncertain = ''OUTPUT_DURABILITY_UNCERTAIN''"
| "code_name CodeArtifactSchemaUnsupported = ''ARTIFACT_SCHEMA_UNSUPPORTED''"
| "code_name CodeVerificationFailed = ''VERIFICATION_FAILED''"
| "code_name CodeCancelled = ''CANCELLED''"
| "code_name CodeInternal = ''INTERNAL''"

record interop_error =
  ie_code :: error_code
  ie_category :: error_category
  ie_message :: string
  ie_retryable :: bool
  ie_details :: "(string, json) btree"

section \<open>Construction\<close>

text \<open>The bidirectional controls U+202A to U+202E and U+2066 to U+2069 are blanked like \<open>Cc\<close>.\<close>

definition unprintable :: "nat \<Rightarrow> bool" where
  "unprintable c \<longleftrightarrow> is_control c \<or> (0x202A \<le> c \<and> c \<le> 0x202E) \<or> c = 0x2066 \<or> c = 0x2067 \<or> c = 0x2068 \<or> c = 0x2069"

definition blank :: "string \<Rightarrow> string" where
  "blank piece = (if unprintable (scalar_of piece) then '' '' else piece)"

definition sanitize_message :: "string \<Rightarrow> string" where
  "sanitize_message m = concat (take 4096 (map blank (char_slices m)))"

definition new_error :: "error_code \<Rightarrow> error_category \<Rightarrow> string \<Rightarrow> interop_error" where
  "new_error code category m = \<lparr>ie_code = code, ie_category = category, ie_message = sanitize_message m,
     ie_retryable = False, ie_details = []\<rparr>"

definition detail :: "string \<Rightarrow> json \<Rightarrow> interop_error \<Rightarrow> interop_error" where
  "detail key v e = e\<lparr>ie_details := btree_insert key v (ie_details e)\<rparr>"

definition retry :: "interop_error \<Rightarrow> interop_error" where
  "retry e = e\<lparr>ie_retryable := True\<rparr>"

definition cancelled_error :: interop_error where
  "cancelled_error = new_error CodeCancelled CatCancellation ''operation was cancelled before publication''"

section \<open>Mapping\<close>

datatype provider_error_kind = Authentication | Authorization | RateLimited | Timeout | ContextLimit | Refusal
  | InvalidRequest | InvalidResponse | ResponseTooLarge | Transport | ProviderCancelled | UnsupportedCapability
  | RemotePolicy

record provider_error =
  pe_kind :: provider_error_kind
  pe_message :: string
  pe_retryable :: bool
  pe_retry_after_ms :: "nat option"

datatype app_error = AppIo io_error | AppJson | AppSqlite | AppCore okc_error | AppProvider provider_error
  | AppCredential string | InvalidProject string | Locked string | Update string | Artifact string
  | ArtifactSchemaUnsupported nat nat string

record error_texts =
  message_of :: "okc_error \<Rightarrow> string"
  reason_of :: "okc_error \<Rightarrow> string"
  io_kind :: "io_error \<Rightarrow> string"
  json_class :: string
  sqlite_code :: string

definition map_io_error :: "error_texts \<Rightarrow> io_error \<Rightarrow> interop_error" where
  "map_io_error T e = (if e = NotFound then new_error CodePathNotFound CatPath ''required path was not found''
     else detail ''io_kind'' (JStr (io_kind T e)) (new_error CodePathUnsafe CatPath ''filesystem operation failed''))"

definition serialization_error :: "error_texts \<Rightarrow> interop_error" where
  "serialization_error T = detail ''json_error_class'' (JStr (json_class T))
     (new_error CodeInternal CatInternal ''could not encode or decode an interop result'')"

fun map_core_error :: "error_texts \<Rightarrow> okc_error \<Rightarrow> interop_error" where
  "map_core_error T InvalidConfig = new_error CodeInvalidArgument CatArgument (message_of T InvalidConfig)"
| "map_core_error T (UnsafePath path) = detail ''reason'' (JStr (reason_of T (UnsafePath path)))
     (detail ''path'' (JStr path) (new_error CodePathUnsafe CatPath ''path failed the portable safety policy''))"
| "map_core_error T (UnsupportedSource path) = detail ''path'' (JStr path)
     (new_error CodePathUnsupported CatPath ''source or artifact type is unsupported'')"
| "map_core_error T ResourceLimit = new_error CodeResourceLimit CatPath (message_of T ResourceLimit)"
| "map_core_error T (MalformedInput path) = detail ''reason'' (JStr (reason_of T (MalformedInput path)))
     (detail ''path'' (JStr path) (new_error CodePathUnsafe CatPath ''input is malformed''))"
| "map_core_error T IdentityMismatch = new_error CodeApprovalStale CatApproval (message_of T IdentityMismatch)"
| "map_core_error T PlanStale = new_error CodeApprovalStale CatApproval (message_of T PlanStale)"
| "map_core_error T ApprovalStale = new_error CodeApprovalStale CatApproval (message_of T ApprovalStale)"
| "map_core_error T ProposalInvalid = new_error CodeProviderResponseInvalid CatProvider (message_of T ProposalInvalid)"
| "map_core_error T (OutputExists path) = detail ''path'' (JStr path)
     (new_error CodeOutputExists CatOutput ''output destination already exists'')"
| "map_core_error T (StagingDispositionFailed path original source) =
     detail ''io_kind'' (JStr (io_kind T source))
     (detail ''original_code'' (JStr (code_name (ie_code (map_core_error T original))))
     (detail ''staging_path'' (JStr path)
       (new_error CodePathUnsafe CatOutput ''compilation failed and its staging directory could not be removed'')))"
| "map_core_error T (PublishedButDurabilityUncertain path source) =
     detail ''io_kind'' (JStr (io_kind T source)) (detail ''path'' (JStr path)
       (new_error CodeOutputDurabilityUncertain CatOutput
         ''output was published but parent-directory durability is uncertain''))"
| "map_core_error T VerificationFailed =
     new_error CodeVerificationFailed CatVerification (message_of T VerificationFailed)"
| "map_core_error T (Io path source) = detail ''path'' (JStr path) (map_io_error T source)"
| "map_core_error T JsonError = serialization_error T"
| "map_core_error T Internal = new_error CodeInternal CatInternal (message_of T Internal)"
| "map_core_error T Panicked = new_error CodeInternal CatInternal ''unrecognized compiler failure''"

definition contains :: "string \<Rightarrow> string \<Rightarrow> bool" where
  "contains pat s \<longleftrightarrow> sublist pat s"

definition map_project_message :: "string \<Rightarrow> interop_error" where
  "map_project_message m = (let lower = to_ascii_lowercase m in
     if contains ''remote disclosure requires'' lower then new_error CodeRemoteConsentRequired CatConsent m
     else if contains ''sensitive content requires a local provider'' lower
       then new_error CodeSensitiveRemoteForbidden CatConsent m
     else if contains ''cancel'' lower then cancelled_error
     else if contains ''provider profile'' lower then new_error CodeProviderInvalid CatProvider m
     else if contains ''stale'' lower then new_error CodeApprovalStale CatApproval m
     else if contains ''outside every source'' lower \<or> contains ''overlap'' lower
       then new_error CodeOutputOverlap CatOutput m
     else if contains ''approval'' lower \<or> contains ''approved'' lower then new_error CodeApprovalRequired CatApproval m
     else new_error CodeProjectInvalid CatProject m)"

definition provider_code :: "provider_error \<Rightarrow> error_code" where
  "provider_code e = (case pe_kind e of
       Authentication \<Rightarrow> if contains ''configured API-key environment variable'' (pe_message e)
         then CodeProviderEnvSecretMissing else CodeProviderAuthentication
     | Authorization \<Rightarrow> CodeProviderAuthorization
     | RateLimited \<Rightarrow> CodeProviderRateLimited
     | Timeout \<Rightarrow> CodeProviderTimeout
     | InvalidResponse \<Rightarrow> CodeProviderResponseInvalid
     | ResponseTooLarge \<Rightarrow> CodeProviderResponseInvalid
     | Refusal \<Rightarrow> CodeProviderResponseInvalid
     | ContextLimit \<Rightarrow> CodeProviderResponseInvalid
     | UnsupportedCapability \<Rightarrow> CodeProviderUnsupported
     | RemotePolicy \<Rightarrow> CodeRemoteConsentRequired
     | ProviderCancelled \<Rightarrow> CodeCancelled
     | Transport \<Rightarrow> CodeProviderTransport
     | InvalidRequest \<Rightarrow> CodeProviderInvalid)"

definition map_provider_error :: "provider_error \<Rightarrow> interop_error" where
  "map_provider_error e =
     (let code = provider_code e;
          category = (if code = CodeCancelled then CatCancellation
            else if code = CodeRemoteConsentRequired then CatConsent else CatProvider);
          mapped = (new_error code category (pe_message e))\<lparr>ie_retryable := pe_retryable e\<rparr>
      in case pe_retry_after_ms e of None \<Rightarrow> mapped | Some ms \<Rightarrow> detail ''retry_after_ms'' (jnat ms) mapped)"

fun map_app_error :: "error_texts \<Rightarrow> app_error \<Rightarrow> interop_error" where
  "map_app_error T (AppIo e) = map_io_error T e"
| "map_app_error T AppJson = serialization_error T"
| "map_app_error T AppSqlite = detail ''sqlite_code'' (JStr (sqlite_code T))
     (new_error CodeProjectInvalid CatProject ''project state database operation failed'')"
| "map_app_error T (AppCore e) = map_core_error T e"
| "map_app_error T (AppProvider e) = map_provider_error e"
| "map_app_error T (AppCredential m) = new_error CodeProviderAuthentication CatProvider m"
| "map_app_error T (InvalidProject m) = map_project_message m"
| "map_app_error T (Locked path) = retry (detail ''lock_path'' (JStr path)
     (new_error CodeProjectBusy CatProject ''project is already locked by another writer''))"
| "map_app_error T (Update m) = new_error CodeInternal CatInternal
     ''updater functionality is not available through language bindings''"
| "map_app_error T (Artifact m) = new_error CodeVerificationFailed CatVerification m"
| "map_app_error T (ArtifactSchemaUnsupported supported detected family) =
     detail ''detected_format_family'' (JStr family) (detail ''detected_schema'' (jnat detected)
     (detail ''supported_schema'' (jnat supported)
       (new_error CodeArtifactSchemaUnsupported CatVerification
         ''artifact schema is recognized but unsupported by this build'')))"

section \<open>Facts\<close>

lemma detail_simps [simp]:
  "ie_code (detail k v e) = ie_code e" "ie_category (detail k v e) = ie_category e"
  "ie_message (detail k v e) = ie_message e" "ie_retryable (detail k v e) = ie_retryable e"
  "ie_code (retry e) = ie_code e" "ie_category (retry e) = ie_category e" "ie_message (retry e) = ie_message e"
  "ie_retryable (retry e)"
  by (simp_all add: detail_def retry_def)

lemma new_error_simps [simp]:
  "ie_code (new_error c g m) = c" "ie_category (new_error c g m) = g"
  "ie_message (new_error c g m) = sanitize_message m" "\<not> ie_retryable (new_error c g m)"
  by (simp_all add: new_error_def)

lemma cancelled_error_simps [simp]:
  "ie_code cancelled_error = CodeCancelled" "ie_category cancelled_error = CatCancellation" "\<not> ie_retryable cancelled_error"
  by (simp_all add: cancelled_error_def)

text \<open>Slices that splitting would produce: whole scalars, only the last may be cut short.\<close>

fun sliced :: "string list \<Rightarrow> bool" where
  "sliced [] = True"
| "sliced (p # ps) \<longleftrightarrow> p \<noteq> [] \<and> length p \<le> utf8_width (hd p) \<and> (ps \<noteq> [] \<longrightarrow> length p = utf8_width (hd p)) \<and> sliced ps"

lemma sliced_char_slices: "sliced (char_slices s)"
proof (induction s rule: char_slices.induct)
  case (2 c s)
  obtain k where k: "utf8_width c = Suc k" using utf8_width_pos [of c] by (cases "utf8_width c") auto
  with 2 show ?case by (auto simp: min_def not_le)
qed simp

lemma char_slices_concat: "sliced ps \<Longrightarrow> char_slices (concat ps) = ps"
proof (induction ps)
  case (Cons p ps)
  then obtain c q where p: "p = c # q" by (cases p) auto
  with Cons.prems have "length q \<le> utf8_width c - 1" "ps \<noteq> [] \<Longrightarrow> length q = utf8_width c - 1"
    by auto
  then have "take (utf8_width c - 1) (q @ concat ps) = q" "drop (utf8_width c - 1) (q @ concat ps) = concat ps"
    by (cases "ps = []"; simp)+
  with Cons p show ?case by simp
qed simp

lemma sliced_blank: "sliced ps \<Longrightarrow> sliced (map blank ps)"
  by (induction ps) (auto simp: blank_def utf8_width_def)

lemma sliced_take: "sliced ps \<Longrightarrow> sliced (take n ps)"
proof (induction ps arbitrary: n)
  case (Cons p ps)
  then show ?case by (cases n) auto
qed simp

lemma slices_sanitized: "char_slices (sanitize_message m) = take 4096 (map blank (char_slices m))"
  unfolding sanitize_message_def
  by (intro char_slices_concat sliced_take sliced_blank sliced_char_slices)

lemma blank_printable [simp]: "\<not> unprintable (scalar_of (blank p))"
  by (simp add: blank_def unprintable_def is_control_def)

lemma blank_blank [simp]: "blank (blank p) = blank p"
  using blank_printable [of p] by (simp add: blank_def)

text \<open>
  Messages that cross the language boundary are safe to print: \<open>sanitize_message\<close> leaves at
  most 4096 characters, none of them a control or a bidirectional override; sanitising again
  changes nothing, and a message that was clean and short is left alone.
\<close>

lemma sanitized_messages_are_printable:
  "length (chars (sanitize_message m)) \<le> 4096 \<and> (\<forall>c \<in> set (chars (sanitize_message m)). \<not> unprintable c) \<and>
   sanitize_message (sanitize_message m) = sanitize_message m \<and>
   (length (chars m) \<le> 4096 \<and> (\<forall>c \<in> set (chars m). \<not> unprintable c) \<longrightarrow> sanitize_message m = m)"
proof (intro conjI impI)
  show "length (chars (sanitize_message m)) \<le> 4096" by (simp add: chars_def slices_sanitized)
  show "\<forall>c \<in> set (chars (sanitize_message m)). \<not> unprintable c"
    by (auto simp: chars_def slices_sanitized dest!: in_set_takeD)
  have "map blank (take 4096 (map blank (char_slices m))) = take 4096 (map blank (char_slices m))"
    by (simp add: take_map o_def)
  then show "sanitize_message (sanitize_message m) = sanitize_message m"
    by (simp add: sanitize_message_def [of "sanitize_message m"] slices_sanitized) (simp add: sanitize_message_def)
  assume clean: "length (chars m) \<le> 4096 \<and> (\<forall>c \<in> set (chars m). \<not> unprintable c)"
  then have "map blank (char_slices m) = char_slices m"
    by (intro map_idI) (simp add: chars_def blank_def)
  with clean show "sanitize_message m = m"
    by (simp add: sanitize_message_def chars_def concat_char_slices)
qed

lemma core_error_codes:
  "ie_code (map_core_error T e) \<noteq> CodeCancelled" "ie_category (map_core_error T e) \<noteq> CatCancellation"
  "\<not> ie_retryable (map_core_error T e)"
  by (cases e; simp add: map_io_error_def serialization_error_def)+

lemma project_message_codes:
  "ie_code (map_project_message m) = CodeCancelled \<longleftrightarrow> ie_category (map_project_message m) = CatCancellation"
  "\<not> ie_retryable (map_project_message m)"
  by (simp_all add: map_project_message_def Let_def)

lemma provider_error_codes:
  "ie_code (map_provider_error e) = CodeCancelled \<longleftrightarrow> ie_category (map_provider_error e) = CatCancellation"
  "ie_retryable (map_provider_error e) = pe_retryable e"
  by (simp_all add: map_provider_error_def Let_def split: option.splits)

theorem sanitized_messages_are_printable_witness:
  "sanitize_message ''ok'' = ''ok''"
proof -
  have "chars ''ok'' = [111, 107]" by (simp add: chars_def utf8_width_def)
  with sanitized_messages_are_printable [of "''ok''"] show ?thesis by (simp add: unprintable_def is_control_def)
qed

text \<open>
  The mapping of application errors keeps apart what clients branch on: an error is reported
  as a cancellation by its code exactly when it is by its category; only a locked project or a
  provider that says so is retryable; the wire names of the codes are distinct; and a failure to
  remove the staging directory keeps the code of the original failure in its details.
\<close>

lemma error_mapping_is_stable:
  "(ie_code (map_app_error T e) = CodeCancelled \<longleftrightarrow> ie_category (map_app_error T e) = CatCancellation) \<and>
   (ie_retryable (map_app_error T e) \<longleftrightarrow> (\<exists>p. e = Locked p) \<or> (\<exists>x. e = AppProvider x \<and> pe_retryable x)) \<and>
   inj code_name \<and>
   btree_get (ie_details (map_core_error T (StagingDispositionFailed p x io))) ''original_code'' =
     Some (JStr (code_name (ie_code (map_core_error T x))))"
proof (intro conjI)
  show "ie_code (map_app_error T e) = CodeCancelled \<longleftrightarrow> ie_category (map_app_error T e) = CatCancellation"
    using core_error_codes project_message_codes provider_error_codes
    by (cases e) (simp_all add: map_io_error_def serialization_error_def)
  show "ie_retryable (map_app_error T e) \<longleftrightarrow> (\<exists>p. e = Locked p) \<or> (\<exists>x. e = AppProvider x \<and> pe_retryable x)"
    using core_error_codes project_message_codes provider_error_codes
    by (cases e) (simp_all add: map_io_error_def serialization_error_def)
  show "inj code_name"
  proof (rule injI)
    fix a b :: error_code
    show "code_name a = code_name b \<Longrightarrow> a = b" by (cases a; cases b) simp_all
  qed
  show "btree_get (ie_details (map_core_error T (StagingDispositionFailed p x io))) ''original_code'' =
      Some (JStr (code_name (ie_code (map_core_error T x))))"
    by (simp add: detail_def new_error_def btree_get_def less_char_def)
qed

end
