(* ===== verification/Jobs.thy ===== *)
theory Jobs
  imports Interop
begin

text \<open>
  The job runtime of the language bindings: \<open>SharedJob\<close>, \<open>push_bounded\<close>, \<open>Scheduler::submit\<close> and
  \<open>worker_loop\<close> of \<open>okc-interop/src/lib.rs\<close>. A job record is changed only under its mutex, so each
  of its operations is one atomic function. The system is a set of jobs, a bounded channel, a set
  of project reservations and a number of worker threads; an action is what one thread does
  between two lock acquisitions, so interleavings are sequences of actions.
\<close>

section \<open>One job\<close>

datatype job_state = Queued | Running | Cancelling | Publishing | Completed | Failed | Cancelled

definition terminal :: "job_state \<Rightarrow> bool" where
  "terminal s \<longleftrightarrow> s \<in> {Completed, Failed, Cancelled}"

datatype cancel_outcome = Requested | TooLate | AlreadyFinished

record progress_event =
  pg_interop_schema_version :: nat
  pg_sequence :: nat
  pg_operation :: string
  pg_state :: job_state
  pg_phase :: string
  pg_completed :: nat
  pg_total :: "nat option"
  pg_current_item :: "string option"

type_synonym raw_result = "interop_error + json"

record job =
  jb_operation :: string
  jb_state :: job_state
  jb_barrier :: bool
  jb_events :: "progress_event list"
  jb_result :: "raw_result option"
  jb_cancelled :: bool
  jb_sequence :: nat

definition interop_schema_version :: nat where
  "interop_schema_version = 2"

definition max_event_queue :: nat where
  "max_event_queue = 64"

definition push_bounded :: "progress_event list \<Rightarrow> progress_event \<Rightarrow> bool \<Rightarrow> progress_event list" where
  "push_bounded queue e is_terminal =
     (if length queue = max_event_queue
      then if is_terminal then tl queue @ [e]
        else if queue \<noteq> [] then butlast queue @ [e] else queue @ [e]
      else queue @ [e])"

text \<open>\<open>AtomicU64::fetch_add\<close> wraps. Every event takes the next number and is pushed.\<close>

definition emit :: "job_state \<Rightarrow> string \<Rightarrow> nat \<Rightarrow> nat option \<Rightarrow> string option \<Rightarrow> bool \<Rightarrow> job \<Rightarrow> job" where
  "emit st phase completed amount item is_terminal j = j\<lparr>
     jb_sequence := (jb_sequence j + 1) mod 2 ^ 64,
     jb_events := push_bounded (jb_events j) \<lparr>pg_interop_schema_version = interop_schema_version,
       pg_sequence = jb_sequence j, pg_operation = jb_operation j,
       pg_state = st, pg_phase = phase, pg_completed = completed, pg_total = amount, pg_current_item = item\<rparr>
       is_terminal\<rparr>"

definition push_state_event :: "job_state \<Rightarrow> string \<Rightarrow> job \<Rightarrow> job" where
  "push_state_event st phase j = emit st phase 0 None None False j"

definition new_job :: "string \<Rightarrow> job" where
  "new_job operation = push_state_event Queued ''queued''
     \<lparr>jb_operation = operation, jb_state = Queued, jb_barrier = False, jb_events = [], jb_result = None,
      jb_cancelled = False, jb_sequence = 0\<rparr>"

definition begin_job :: "job \<Rightarrow> bool \<times> job" where
  "begin_job j = (if jb_cancelled j then (False, j)
     else (True, push_state_event Running ''running'' (j\<lparr>jb_state := Running\<rparr>)))"

definition result_state :: "raw_result \<Rightarrow> job_state \<times> string" where
  "result_state r = (case r of Inr _ \<Rightarrow> (Completed, ''completed'')
     | Inl e \<Rightarrow> if ie_code e = CodeCancelled then (Cancelled, ''cancelled'') else (Failed, ''failed''))"

definition finish :: "raw_result \<Rightarrow> job \<Rightarrow> job" where
  "finish r j = (if jb_result j \<noteq> None then j
     else (let (st, phase) = result_state r
       in emit st phase (if st = Completed then 1 else 0) (Some 1) None True (j\<lparr>jb_state := st, jb_result := Some r\<rparr>)))"

definition job_failed :: "string \<Rightarrow> interop_error \<Rightarrow> job" where
  "job_failed operation e = finish (Inl e) (new_job operation)"

text \<open>Progress reported by the work (\<open>okc-app\<close>), with the wire names of its phases.\<close>

datatype operation_phase = PhaseQueued | PhaseReading | PhaseProcessing | PhaseStaging | PhasePublishing
  | PhaseVerifying | PhaseComplete

fun phase_name :: "operation_phase \<Rightarrow> string" where
  "phase_name PhaseQueued = ''queued''"
| "phase_name PhaseReading = ''reading''"
| "phase_name PhaseProcessing = ''processing''"
| "phase_name PhaseStaging = ''staging''"
| "phase_name PhasePublishing = ''publishing''"
| "phase_name PhaseVerifying = ''verifying''"
| "phase_name PhaseComplete = ''complete''"

record app_progress =
  ap_phase :: operation_phase
  ap_completed :: nat
  ap_total :: "nat option"
  ap_current_item :: "string option"

definition observe :: "app_progress \<Rightarrow> job \<Rightarrow> job" where
  "observe e j = (if terminal (jb_state j) then j
     else (let (st, j) =
         (if ap_phase e = PhasePublishing then (Publishing, j\<lparr>jb_barrier := True, jb_state := Publishing\<rparr>)
          else if jb_barrier j then (Publishing, j)
          else if jb_state j = Cancelling then (Cancelling, j)
          else (Running, j\<lparr>jb_state := Running\<rparr>))
       in emit st (phase_name (ap_phase e)) (ap_completed e) (ap_total e) (ap_current_item e) False j))"

definition cancel :: "job \<Rightarrow> cancel_outcome \<times> job" where
  "cancel j = (if terminal (jb_state j) then (AlreadyFinished, j)
     else if jb_barrier j \<or> jb_state j = Publishing then (TooLate, j)
     else (Requested, push_state_event Cancelling ''cancelling'' (j\<lparr>jb_cancelled := True, jb_state := Cancelling\<rparr>)))"

definition take_events :: "job \<Rightarrow> progress_event list \<times> job" where
  "take_events j = (jb_events j, j\<lparr>jb_events := []\<rparr>)"

section \<open>The scheduler\<close>

record work_item =
  wi_job :: nat
  wi_project :: "string option"

text \<open>
  Where a worker thread is: waiting, having received an item, inside the work, with the result
  before and after the reservation is released, or gone because the work panicked.
\<close>

datatype worker = Idle | Received work_item | Working work_item | Returned work_item raw_result
  | Released work_item raw_result | Dead work_item

text \<open>A submission in progress: before \<open>try_send\<close>, or refused with its error still to be stored.\<close>

datatype submission = Sending work_item | Refused work_item interop_error

record runtime =
  rt_jobs :: "job list"
  rt_queue :: "work_item list"
  rt_reservations :: "string set"
  rt_workers :: "worker list"
  rt_submissions :: "submission list"

definition max_queued_jobs :: nat where
  "max_queued_jobs = 64"

definition new_runtime :: "nat \<Rightarrow> runtime" where
  "new_runtime workers = \<lparr>rt_jobs = [], rt_queue = [], rt_reservations = {},
     rt_workers = replicate workers Idle, rt_submissions = []\<rparr>"

definition on_job :: "nat \<Rightarrow> (job \<Rightarrow> job) \<Rightarrow> runtime \<Rightarrow> runtime" where
  "on_job i f rt = rt\<lparr>rt_jobs := (rt_jobs rt)[i := f (rt_jobs rt ! i)]\<rparr>"

definition set_worker :: "nat \<Rightarrow> worker \<Rightarrow> runtime \<Rightarrow> runtime" where
  "set_worker w x rt = rt\<lparr>rt_workers := (rt_workers rt)[w := x]\<rparr>"

definition release :: "string option \<Rightarrow> runtime \<Rightarrow> runtime" where
  "release project rt = (case project of None \<Rightarrow> rt
     | Some p \<Rightarrow> rt\<lparr>rt_reservations := rt_reservations rt - {p}\<rparr>)"

definition busy_error :: "string \<Rightarrow> interop_error" where
  "busy_error project = detail ''project_path'' (JStr project)
     (new_error CodeProjectBusy CatProject ''another mutating job already owns this project'')"

definition queue_full_error :: interop_error where
  "queue_full_error = detail ''max_queued_jobs'' (jnat max_queued_jobs) (retry
     (new_error CodeResourceLimit CatArgument
       ''job queue is full; wait for an existing job before submitting more work''))"

definition disconnected_error :: interop_error where
  "disconnected_error = new_error CodeInternal CatInternal ''job scheduler is unavailable''"

text \<open>
  The first half of \<open>submit\<close>: the reservation, under its lock, and the new job. \<open>project\<close> is the
  path \<open>reservation_path\<close> returns. The second half offers the item to the channel, which is gone
  once every worker that shares its receiver is.
\<close>

definition submit :: "string \<Rightarrow> string option \<Rightarrow> bool \<Rightarrow> runtime \<Rightarrow> runtime" where
  "submit operation project mutating rt =
     (let i = length (rt_jobs rt); reservation = (if mutating then project else None)
      in case reservation of
           Some p \<Rightarrow>
             if p \<in> rt_reservations rt then rt\<lparr>rt_jobs := rt_jobs rt @ [job_failed operation (busy_error p)]\<rparr>
             else rt\<lparr>rt_reservations := insert p (rt_reservations rt), rt_jobs := rt_jobs rt @ [new_job operation],
               rt_submissions := rt_submissions rt @ [Sending \<lparr>wi_job = i, wi_project = Some p\<rparr>]\<rparr>
         | None \<Rightarrow> rt\<lparr>rt_jobs := rt_jobs rt @ [new_job operation],
               rt_submissions := rt_submissions rt @ [Sending \<lparr>wi_job = i, wi_project = None\<rparr>]\<rparr>)"

fun is_dead :: "worker \<Rightarrow> bool" where
  "is_dead (Dead it) = True"
| "is_dead x = False"

definition remove_nth :: "nat \<Rightarrow> 'a list \<Rightarrow> 'a list" where
  "remove_nth k xs = take k xs @ drop (Suc k) xs"

definition try_send :: "nat \<Rightarrow> work_item \<Rightarrow> runtime \<Rightarrow> runtime" where
  "try_send k it rt =
     (if list_all is_dead (rt_workers rt)
      then release (wi_project it) (rt\<lparr>rt_submissions := (rt_submissions rt)[k := Refused it disconnected_error]\<rparr>)
      else if length (rt_queue rt) = max_queued_jobs
      then release (wi_project it) (rt\<lparr>rt_submissions := (rt_submissions rt)[k := Refused it queue_full_error]\<rparr>)
      else rt\<lparr>rt_submissions := remove_nth k (rt_submissions rt), rt_queue := rt_queue rt @ [it]\<rparr>)"

text \<open>The end of the work: a result obtained after a cancellation counts only past the barrier.\<close>

definition settled :: "job \<Rightarrow> raw_result \<Rightarrow> raw_result" where
  "settled j r = (if jb_cancelled j \<and> \<not> jb_barrier j then Inl cancelled_error else r)"

datatype action =
    Submit string "string option" bool | Send nat | Refuse nat
  | Cancel nat | TakeEvents nat
  | Receive nat | Begin nat | Observe nat app_progress | Return nat raw_result | Panic nat
  | Release nat | Finish nat

fun submission_job :: "submission \<Rightarrow> nat" where
  "submission_job (Sending it) = wi_job it"
| "submission_job (Refused it e) = wi_job it"

text \<open>The caller has no handle on a job before \<open>submit\<close> returns.\<close>

definition has_handle :: "runtime \<Rightarrow> nat \<Rightarrow> bool" where
  "has_handle rt i \<longleftrightarrow> i < length (rt_jobs rt) \<and> i \<notin> set (map submission_job (rt_submissions rt))"

definition worker_at :: "runtime \<Rightarrow> nat \<Rightarrow> worker option" where
  "worker_at rt w = (if w < length (rt_workers rt) then Some (rt_workers rt ! w) else None)"

definition submission_at :: "runtime \<Rightarrow> nat \<Rightarrow> submission option" where
  "submission_at rt k = (if k < length (rt_submissions rt) then Some (rt_submissions rt ! k) else None)"

fun exec :: "action \<Rightarrow> runtime \<Rightarrow> runtime option" where
  "exec (Submit operation project mutating) rt = Some (submit operation project mutating rt)"
| "exec (Send k) rt = (case submission_at rt k of Some (Sending it) \<Rightarrow> Some (try_send k it rt) | _ \<Rightarrow> None)"
| "exec (Refuse k) rt = (case submission_at rt k of
     Some (Refused it e) \<Rightarrow> Some (on_job (wi_job it) (finish (Inl e))
       (rt\<lparr>rt_submissions := remove_nth k (rt_submissions rt)\<rparr>))
   | _ \<Rightarrow> None)"
| "exec (Cancel i) rt = (if has_handle rt i then Some (on_job i (\<lambda>j. snd (cancel j)) rt) else None)"
| "exec (TakeEvents i) rt = (if has_handle rt i then Some (on_job i (\<lambda>j. snd (take_events j)) rt) else None)"
| "exec (Receive w) rt = (case (worker_at rt w, rt_queue rt) of
     (Some Idle, it # rest) \<Rightarrow> Some (set_worker w (Received it) (rt\<lparr>rt_queue := rest\<rparr>))
   | _ \<Rightarrow> None)"
| "exec (Begin w) rt = (case worker_at rt w of
     Some (Received it) \<Rightarrow>
       (let (started, j) = begin_job (rt_jobs rt ! wi_job it)
        in Some (set_worker w (if started then Working it else Returned it (Inl cancelled_error))
             (on_job (wi_job it) (\<lambda>_. j) rt)))
   | _ \<Rightarrow> None)"
| "exec (Observe w e) rt = (case worker_at rt w of
     Some (Working it) \<Rightarrow> Some (on_job (wi_job it) (observe e) rt) | _ \<Rightarrow> None)"
| "exec (Return w r) rt = (case worker_at rt w of
     Some (Working it) \<Rightarrow> Some (set_worker w (Returned it (settled (rt_jobs rt ! wi_job it) r)) rt) | _ \<Rightarrow> None)"
| "exec (Panic w) rt = (case worker_at rt w of
     Some (Working it) \<Rightarrow> Some (set_worker w (Dead it) rt) | _ \<Rightarrow> None)"
| "exec (Release w) rt = (case worker_at rt w of
     Some (Returned it r) \<Rightarrow> Some (set_worker w (Released it r) (release (wi_project it) rt)) | _ \<Rightarrow> None)"
| "exec (Finish w) rt = (case worker_at rt w of
     Some (Released it r) \<Rightarrow> Some (set_worker w Idle (on_job (wi_job it) (finish r) rt)) | _ \<Rightarrow> None)"

fun exec_all :: "action list \<Rightarrow> runtime \<Rightarrow> runtime option" where
  "exec_all [] rt = Some rt"
| "exec_all (a # as) rt = (case exec a rt of None \<Rightarrow> None | Some rt' \<Rightarrow> exec_all as rt')"

inductive step :: "runtime \<Rightarrow> runtime \<Rightarrow> bool" where
  "exec a rt = Some rt' \<Longrightarrow> step rt rt'"

inductive reachable :: "nat \<Rightarrow> runtime \<Rightarrow> bool" for n where
  start: "reachable n (new_runtime n)"
| move: "reachable n rt \<Longrightarrow> step rt rt' \<Longrightarrow> reachable n rt'"

end
