(* ===== verification/JobProps.thy ===== *)
theory JobProps
  imports JobFacts
begin

text \<open>
  The promises of the job runtime to its callers, read off the invariant of \<open>JobFacts\<close>: one live
  mutation per project, results that stay, progress that is bounded and in order, what a
  cancellation means, and that everything accepted can be finished.
\<close>

section \<open>Runs\<close>

lemma exec_all_append: "exec_all (as @ bs) rt = (case exec_all as rt of None \<Rightarrow> None | Some rt' \<Rightarrow> exec_all bs rt')"
  by (induction as arbitrary: rt) (auto split: option.splits)

lemma run_induct [consumes 2, case_names start step]:
  assumes "exec_all as rt = Some rt'" "P rt"
    and "\<And>a x y. P x \<Longrightarrow> exec a x = Some y \<Longrightarrow> P y"
  shows "P rt'"
  using assms(1,2) by (induction as arbitrary: rt) (auto split: option.splits dest: assms(3))

lemma reachable_exec: "reachable n rt \<Longrightarrow> exec a rt = Some rt' \<Longrightarrow> reachable n rt'"
  by (blast intro: reachable.move step.intros)

lemma reachable_run: "exec_all as rt = Some rt' \<Longrightarrow> reachable n rt \<Longrightarrow> reachable n rt'"
  by (erule run_induct) (auto intro: reachable_exec)

lemma reachable_trace: "reachable n rt \<longleftrightarrow> (\<exists>as. exec_all as (new_runtime n) = Some rt)"
proof
  assume "reachable n rt"
  then show "\<exists>as. exec_all as (new_runtime n) = Some rt"
  proof (induction rule: reachable.induct)
    case start
    show ?case by (intro exI [of _ "[]"]) simp
  next
    case (move rt rt')
    then obtain as a where "exec_all as (new_runtime n) = Some rt" "exec a rt = Some rt'" by (auto elim: step.cases)
    then have "exec_all (as @ [a]) (new_runtime n) = Some rt'" by (simp add: exec_all_append)
    then show ?case by blast
  qed
qed (auto intro: reachable_run reachable.start)

section \<open>Exclusive projects\<close>

lemma two_workers:
  assumes "worker_at rt v = Some x" "worker_at rt w = Some y" "v \<noteq> w"
  obtains R where "sum_list (map f (rt_workers rt)) = f x + f y + (R :: 'b multiset)"
proof -
  have v: "v < length (rt_workers rt)" "rt_workers rt ! v = x" and w: "w < length (rt_workers rt)" "rt_workers rt ! w = y"
    using assms(1,2) by (auto simp: worker_at_def split: if_splits)
  obtain R where R: "sum_list (map f (rt_workers rt)) = f x + R" "sum_list (map f ((rt_workers rt)[v := undefined])) = f undefined + R"
    using focus [OF v(1), of f] v(2) by metis
  obtain S where S: "sum_list (map f (rt_workers rt)) = f y + S"
    using focus [OF w(1), of f] w(2) by metis
  show ?thesis
  proof (cases "v < w")
    case True
    have "rt_workers rt = take v (rt_workers rt) @ x # drop (Suc v) (rt_workers rt)"
      using id_take_nth_drop [OF v(1)] v(2) by simp
    moreover have "y \<in> set (drop (Suc v) (rt_workers rt))"
      using True w by (auto simp: in_set_conv_nth intro!: exI [of _ "w - Suc v"])
    ultimately obtain as bs cs where "rt_workers rt = as @ x # bs @ y # cs" by (metis split_list)
    then show ?thesis by (intro that) (simp add: ac_simps)
  next
    case False
    then have True: "w < v" using assms(3) by simp
    have "rt_workers rt = take w (rt_workers rt) @ y # drop (Suc w) (rt_workers rt)"
      using id_take_nth_drop [OF w(1)] w(2) by simp
    moreover have "x \<in> set (drop (Suc w) (rt_workers rt))"
      using True v by (auto simp: in_set_conv_nth intro!: exI [of _ "v - Suc w"])
    ultimately obtain as bs cs where "rt_workers rt = as @ y # bs @ x # cs" by (metis split_list)
    then show ?thesis by (intro that) (simp add: ac_simps)
  qed
qed

text \<open>The project that a worker's item keeps reserved.\<close>

fun mutates :: "worker \<Rightarrow> string option" where
  "mutates (Received it) = wi_project it"
| "mutates (Working it) = wi_project it"
| "mutates (Returned it r) = wi_project it"
| "mutates (Dead it) = wi_project it"
| "mutates x = None"

text \<open>Some job that mutates the project has been submitted, is queued, or is with a worker.\<close>

definition owned :: "string \<Rightarrow> runtime \<Rightarrow> bool" where
  "owned p rt \<longleftrightarrow> (\<exists>it. Sending it \<in> set (rt_submissions rt) \<and> wi_project it = Some p)
     \<or> (\<exists>it. it \<in> set (rt_queue rt) \<and> wi_project it = Some p) \<or> (\<exists>x. x \<in> set (rt_workers rt) \<and> mutates x = Some p)"

lemma in_sum_rows: "x \<in># sum_list (map f xs) \<longleftrightarrow> (\<exists>y \<in> set xs. x \<in># f y)"
  by (induction xs) auto

lemma owned_iff_held: "p \<in># holds rt \<longleftrightarrow> owned p rt"
proof -
  have opt: "q \<in># optional x \<longleftrightarrow> x = Some q" for q x by (cases x) auto
  have sub: "q \<in># submission_holds s \<longleftrightarrow> (\<exists>it. s = Sending it \<and> wi_project it = Some q)" for q s
    by (cases s) (auto simp: opt)
  have work: "q \<in># worker_holds x \<longleftrightarrow> mutates x = Some q" for q x
    by (cases x) (auto simp: opt)
  show ?thesis unfolding multiset_rows owned_def by (auto simp: in_sum_rows opt sub work)
qed

lemma worker_holds_mutates: "worker_holds x = optional (mutates x)"
  by (cases x) simp_all

text \<open>
  C30: Mutating jobs have their project to themselves. In every reachable state no two workers hold jobs that
  mutate one project, and while any such job is submitted, queued or with a worker, even a dead one, one more
  mutating submission for its project adds a job that has failed with the code for a busy project and
  changes nothing else at all. When there is none, the submission is accepted and reserves the project.
\<close>

theorem projects_exclusive:
  assumes "reachable n rt"
  shows "(worker_at rt v = Some x \<and> worker_at rt w = Some y \<and> v \<noteq> w \<and> mutates x = Some p \<longrightarrow> mutates y \<noteq> Some p) \<and>
    (owned p rt \<longrightarrow> submit operation (Some p) True rt = rt\<lparr>rt_jobs := rt_jobs rt @ [job_failed operation (busy_error p)]\<rparr>) \<and>
    (\<not> owned p rt \<longrightarrow> submit operation (Some p) True rt = rt\<lparr>rt_reservations := insert p (rt_reservations rt),
       rt_jobs := rt_jobs rt @ [new_job operation],
       rt_submissions := rt_submissions rt @ [Sending \<lparr>wi_job = length (rt_jobs rt), wi_project = Some p\<rparr>]\<rparr>) \<and>
    jb_result (job_failed operation (busy_error p)) = Some (Inl (busy_error p)) \<and> ie_code (busy_error p) = CodeProjectBusy"
proof -
  have inv: "simple (holds rt)" "set_mset (holds rt) = rt_reservations rt"
    using inv_reachable [OF assms] by (simp_all add: runtime_inv_def)
  have reserved: "owned p rt \<longleftrightarrow> p \<in> rt_reservations rt" using inv(2) owned_iff_held by blast
  have apart: "mutates y \<noteq> Some p" if w: "worker_at rt v = Some x" "worker_at rt w = Some y" "v \<noteq> w" "mutates x = Some p"
  proof -
    obtain R where "sum_list (map worker_holds (rt_workers rt)) = worker_holds x + worker_holds y + R"
      by (rule two_workers [OF w(1-3), of worker_holds])
    with inv(1) w(4) show ?thesis by (auto simp: multiset_rows worker_holds_mutates)
  qed
  have "jb_result (job_failed operation (busy_error p)) = Some (Inl (busy_error p))" "ie_code (busy_error p) = CodeProjectBusy"
    by (simp_all add: job_failed_def finish_def new_job_def push_state_event_def busy_error_def detail_def new_error_def
      split: prod.split)
  with apart reserved show ?thesis by (auto simp: submit_def)
qed

text \<open>
  C31: A project is reserved only by a job that has no result yet: before a result can be seen the
  reservation has been given up.
\<close>

theorem reservation_has_live_owner:
  assumes "reachable n rt" "p \<in> rt_reservations rt"
  shows "\<exists>it. it \<in># live_items rt \<and> wi_project it = Some p \<and> wi_job it < length (rt_jobs rt) \<and>
    jb_result (rt_jobs rt ! wi_job it) = None"
proof -
  have inv: "runtime_inv rt" by (rule inv_reachable [OF assms(1)])
  have opt: "q \<in># optional x \<longleftrightarrow> x = Some q" for q x by (cases x) auto
  have sub: "q \<in># submission_holds s \<Longrightarrow> \<exists>it. it \<in># submission_items s \<and> wi_project it = Some q" for q s
    by (cases s) (auto simp: opt)
  have work: "q \<in># worker_holds s \<Longrightarrow> \<exists>it. it \<in># worker_items s \<and> wi_project it = Some q" for q s
    by (cases s) (auto simp: opt)
  have sum: "x \<in># sum_list (map f xs) \<longleftrightarrow> (\<exists>y \<in> set xs. x \<in># f y)" for x and f :: "'c \<Rightarrow> 'd multiset" and xs
    by (induction xs) auto
  have "p \<in># holds rt" using inv assms(2) by (simp add: runtime_inv_def)
  then obtain it where it: "it \<in># live_items rt" "wi_project it = Some p"
    unfolding multiset_rows by (auto simp: sum opt dest!: sub work)
  then have "wi_job it \<in># live_jobs rt" by (simp add: live_jobs_def)
  with inv it show ?thesis by (auto simp: runtime_inv_def)
qed

section \<open>Results stay\<close>

lemma job_at: "runtime_inv rt \<Longrightarrow> i < length (rt_jobs rt) \<Longrightarrow> job_inv (rt_jobs rt ! i)"
  by (simp add: runtime_inv_def)

lemma finished_state: "job_inv j \<Longrightarrow> jb_result j = Some r \<Longrightarrow> jb_state j = fst (result_state r)"
  by (simp add: job_inv_def state_ok_def)

lemma finished_frozen:
  assumes inv: "runtime_inv rt" and e: "exec a rt = Some rt'"
    and i: "i < length (rt_jobs rt)" "jb_result (rt_jobs rt ! i) = Some r"
  shows "i < length (rt_jobs rt') \<and> jb_result (rt_jobs rt' ! i) = Some r \<and>
    jb_state (rt_jobs rt' ! i) = jb_state (rt_jobs rt ! i) \<and>
    (jb_events (rt_jobs rt' ! i) = jb_events (rt_jobs rt ! i) \<or> jb_events (rt_jobs rt' ! i) = [])"
proof -
  have over: "terminal (jb_state (rt_jobs rt ! i))" using finished_state [OF job_at [OF inv i(1)] i(2)] by simp
  have item: "wi_job it \<noteq> i" if "worker_at rt w = Some (Received it)" for w it
    using worker_item(3) [OF inv that] i by auto
  have keep: "jb_result (snd (cancel j)) = jb_result j \<and> jb_state (snd (cancel j)) = jb_state j \<and> jb_events (snd (cancel j)) = jb_events j"
    "observe x j = j" "jb_result j = Some r \<Longrightarrow> finish y j = j" if "terminal (jb_state j)" for j x y
    using that by (simp_all add: cancel_def observe_def finish_def)
  show ?thesis
    using e
  proof (cases rule: exec_cases)
    case (Submit op p m)
    then show ?thesis using i by (auto simp: submit_def Let_def nth_append split: option.splits)
  next
    case (Send k it)
    then show ?thesis using i by (simp add: try_send_def)
  next
    case (Refuse k it e)
    then show ?thesis using i over keep by (cases "wi_job it = i") simp_all
  next
    case (Cancel k)
    then show ?thesis using i over keep by (cases "k = i") simp_all
  next
    case (TakeEvents k)
    then show ?thesis using i over by (cases "k = i") (simp_all add: take_events_def)
  next
    case (Begin w it)
    then show ?thesis using i item [OF Begin(2)] by simp
  next
    case (Observe w it x)
    then show ?thesis using i over keep by (cases "wi_job it = i") simp_all
  next
    case (Finish w it r)
    then show ?thesis using i over keep by (cases "wi_job it = i") simp_all
  qed (use i in simp_all)
qed

text \<open>
  C34: Once a job has a result, nothing that happens later changes the result or the state, and the
  only change to its events is that they are taken: no event follows the terminal one.
\<close>

theorem results_are_final:
  assumes "reachable n rt" "i < length (rt_jobs rt)" "jb_result (rt_jobs rt ! i) = Some r" "exec_all as rt = Some rt'"
  shows "jb_result (rt_jobs rt' ! i) = Some r \<and> jb_state (rt_jobs rt' ! i) = fst (result_state r) \<and>
    (jb_events (rt_jobs rt' ! i) = jb_events (rt_jobs rt ! i) \<or> jb_events (rt_jobs rt' ! i) = [])"
proof -
  let ?P = "\<lambda>x. runtime_inv x \<and> i < length (rt_jobs x) \<and> jb_result (rt_jobs x ! i) = Some r \<and>
    jb_state (rt_jobs x ! i) = jb_state (rt_jobs rt ! i) \<and>
    (jb_events (rt_jobs x ! i) = jb_events (rt_jobs rt ! i) \<or> jb_events (rt_jobs x ! i) = [])"
  have inv: "runtime_inv rt" by (rule inv_reachable [OF assms(1)])
  have "?P rt'"
  proof (rule run_induct [OF assms(4)])
    fix a x y assume "?P x" "exec a x = Some y"
    then show "?P y" using finished_frozen [of x a y i r] inv_exec [of x a y] by fastforce
  qed (use inv assms in simp)
  moreover have "jb_state (rt_jobs rt ! i) = fst (result_state r)"
    by (rule finished_state [OF job_at [OF inv assms(2)] assms(3)])
  ultimately show ?thesis by simp
qed

section \<open>Progress\<close>

text \<open>How far the counter of a job can be after a number of actions.\<close>

definition counted :: "nat \<Rightarrow> runtime \<Rightarrow> bool" where
  "counted n rt \<longleftrightarrow> (\<forall>j \<in> set (rt_jobs rt). events_ordered j \<and> jb_sequence j \<le> Suc n)"

lemma ordered_emit:
  assumes "events_ordered j'" "jb_events j = jb_events j'" "jb_sequence j = jb_sequence j'" "Suc (jb_sequence j) < 2 ^ 64"
  shows "events_ordered (emit st ph c a it t j)" "jb_sequence (emit st ph c a it t j) = Suc (jb_sequence j')"
proof -
  show seq: "jb_sequence (emit st ph c a it t j) = Suc (jb_sequence j')" using assms(3,4) by simp
  let ?e = "\<lparr>pg_interop_schema_version = interop_schema_version, pg_sequence = jb_sequence j, pg_operation = jb_operation j, pg_state = st, pg_phase = ph,
    pg_completed = c, pg_total = a, pg_current_item = it\<rparr>"
  have "\<forall>x \<in> set (jb_events j). pg_sequence x < pg_sequence ?e" using assms(1-3) by (simp add: events_ordered_def)
  moreover have "sorted_wrt (<) (map pg_sequence (jb_events j))" using assms(1,2) by (simp add: events_ordered_def)
  ultimately show "events_ordered (emit st ph c a it t j)"
    unfolding events_ordered_def seq
    using push_bounded_sorted [of pg_sequence "jb_events j" ?e t] push_bounded_set [of "jb_events j" ?e t] assms(3)
    by fastforce
qed

lemma ordered_ops:
  assumes "events_ordered j" "Suc (Suc n) < 2 ^ 64" "jb_sequence j \<le> n"
  shows "events_ordered (snd (begin_job j)) \<and> jb_sequence (snd (begin_job j)) \<le> Suc n"
    "events_ordered (finish r j) \<and> jb_sequence (finish r j) \<le> Suc n"
    "events_ordered (observe x j) \<and> jb_sequence (observe x j) \<le> Suc n"
    "events_ordered (snd (cancel j)) \<and> jb_sequence (snd (cancel j)) \<le> Suc n"
    "events_ordered (snd (take_events j)) \<and> jb_sequence (snd (take_events j)) \<le> Suc n"
proof -
  note e = ordered_emit [OF assms(1)]
  show "events_ordered (snd (begin_job j)) \<and> jb_sequence (snd (begin_job j)) \<le> Suc n"
    using assms by (simp add: begin_job_def push_state_event_def e)
  show "events_ordered (finish r j) \<and> jb_sequence (finish r j) \<le> Suc n"
    using assms by (simp add: finish_def e split: prod.split)
  show "events_ordered (observe x j) \<and> jb_sequence (observe x j) \<le> Suc n"
    using assms by (simp add: observe_def e Let_def)
  show "events_ordered (snd (cancel j)) \<and> jb_sequence (snd (cancel j)) \<le> Suc n"
    using assms by (simp add: cancel_def push_state_event_def e)
  show "events_ordered (snd (take_events j)) \<and> jb_sequence (snd (take_events j)) \<le> Suc n"
    using assms by (simp add: take_events_def events_ordered_def)
qed

lemma new_job_counted:
  "events_ordered (new_job op) \<and> jb_sequence (new_job op) = 1"
  "events_ordered (job_failed op e) \<and> jb_sequence (job_failed op e) = 2"
proof -
  show new: "events_ordered (new_job op) \<and> jb_sequence (new_job op) = 1"
    by (simp add: events_ordered_def new_job_def push_state_event_def push_bounded_def max_event_queue_def)
  have "jb_result (new_job op) = None" by (simp add: new_job_def push_state_event_def)
  then show "events_ordered (job_failed op e) \<and> jb_sequence (job_failed op e) = 2"
    using new ordered_emit [of "new_job op"] by (simp add: job_failed_def finish_def split: prod.split)
qed

lemma counted_mono: "counted m rt \<Longrightarrow> m \<le> n \<Longrightarrow> counted n rt"
  by (auto simp: counted_def)

lemma counted_update:
  assumes "counted n rt" "rt_jobs rt' = (rt_jobs rt)[i := f (rt_jobs rt ! i)]"
    and "i < length (rt_jobs rt) \<Longrightarrow> events_ordered (f (rt_jobs rt ! i)) \<and> jb_sequence (f (rt_jobs rt ! i)) \<le> Suc (Suc n)"
  shows "counted (Suc n) rt'"
proof (cases "i < length (rt_jobs rt)")
  case True
  have "events_ordered (rt_jobs rt' ! k) \<and> jb_sequence (rt_jobs rt' ! k) \<le> Suc (Suc n)" if "k < length (rt_jobs rt)" for k
    using assms(1,3) True that by (cases "k = i") (simp_all add: assms(2) counted_def le_SucI)
  then show ?thesis by (auto simp: counted_def in_set_conv_nth assms(2))
qed (use assms in \<open>auto simp: counted_def list_update_beyond le_SucI\<close>)

lemma counted_exec:
  assumes c: "counted n rt" and e: "exec a rt = Some rt'" and n: "n + 3 < 2 ^ 64"
  shows "counted (Suc n) rt'"
proof -
  have now: "events_ordered (rt_jobs rt ! i)" "jb_sequence (rt_jobs rt ! i) \<le> Suc n" if "i < length (rt_jobs rt)" for i
    using that c by (simp_all add: counted_def)
  have "Suc (Suc (Suc n)) < 2 ^ 64" using n by simp
  note ops = ordered_ops [OF now(1) this now(2)]
  show ?thesis
    using e
  proof (cases rule: exec_cases)
    case (Submit op p m)
    then show ?thesis using c new_job_counted by (auto simp: submit_def Let_def counted_def split: option.splits)
  next
    case (Send k it)
    then show ?thesis using c by (auto simp: try_send_def counted_def)
  next
    case (Refuse k it e)
    show ?thesis by (rule counted_update [OF c, of _ "wi_job it" "finish (Inl e)"]) (use Refuse ops in simp_all)
  next
    case (Cancel i)
    show ?thesis by (rule counted_update [OF c, of _ i "\<lambda>j. snd (cancel j)"]) (use Cancel ops in simp_all)
  next
    case (TakeEvents i)
    show ?thesis by (rule counted_update [OF c, of _ i "\<lambda>j. snd (take_events j)"]) (use TakeEvents ops in simp_all)
  next
    case (Begin w it)
    show ?thesis by (rule counted_update [OF c, of _ "wi_job it" "\<lambda>j. snd (begin_job j)"]) (use Begin ops in simp_all)
  next
    case (Observe w it x)
    show ?thesis by (rule counted_update [OF c, of _ "wi_job it" "observe x"]) (use Observe ops in simp_all)
  next
    case (Finish w it r)
    show ?thesis by (rule counted_update [OF c, of _ "wi_job it" "finish r"]) (use Finish ops in simp_all)
  qed (use counted_mono [OF c, of "Suc n"] in \<open>simp_all add: counted_def\<close>)
qed

lemma counted_run:
  "exec_all as rt = Some rt' \<Longrightarrow> counted n rt \<Longrightarrow> n + length as + 2 < 2 ^ 64 \<Longrightarrow> counted (n + length as) rt'"
proof (induction as arbitrary: rt n)
  case (Cons a as)
  then obtain x where x: "exec a rt = Some x" "exec_all as x = Some rt'" by (auto split: option.splits)
  then have "counted (Suc n) x" using Cons.prems counted_exec [of n rt a x] by simp
  with Cons.IH [OF x(2), of "Suc n"] Cons.prems show ?case by simp
qed simp

text \<open>
  A job keeps at most 64 events. Only the last can be terminal; it is there as soon as there is
  a result, with the job's state, until the events are taken. In a run of fewer than 2^64 - 2
  actions the sequence numbers grow strictly.
\<close>

lemma progress_bounded_and_ordered:
  assumes "exec_all as (new_runtime n) = Some rt" "i < length (rt_jobs rt)"
  shows "length (jb_events (rt_jobs rt ! i)) \<le> 64 \<and>
    (\<forall>e. e \<in> set (butlast (jb_events (rt_jobs rt ! i))) \<longrightarrow> \<not> terminal (pg_state e)) \<and>
    (jb_events (rt_jobs rt ! i) \<noteq> [] \<longrightarrow>
      (terminal (pg_state (last (jb_events (rt_jobs rt ! i)))) \<longleftrightarrow> jb_result (rt_jobs rt ! i) \<noteq> None)) \<and>
    (length as + 2 < 2 ^ 64 \<longrightarrow> sorted_wrt (<) (map pg_sequence (jb_events (rt_jobs rt ! i))))"
proof -
  have "runtime_inv rt" by (rule inv_reachable [of n]) (use assms(1) reachable_trace in blast)
  then have ok: "state_ok (rt_jobs rt ! i)" "feed_ok (rt_jobs rt ! i)"
    using assms(2) by (simp_all add: runtime_inv_def job_inv_def)
  have "events_ordered (rt_jobs rt ! i)" if "length as + 2 < 2 ^ 64"
  proof -
    have "counted 0 (new_runtime n)" by (simp add: counted_def new_runtime_def)
    with counted_run [OF assms(1)] that have "counted (length as) rt" by fastforce
    then show ?thesis using assms(2) by (simp add: counted_def)
  qed
  moreover have "terminal (jb_state (rt_jobs rt ! i)) \<longleftrightarrow> jb_result (rt_jobs rt ! i) \<noteq> None"
    using ok(1) by (cases "jb_result (rt_jobs rt ! i)") (simp_all add: state_ok_def)
  ultimately show ?thesis
    using ok(2) by (auto simp: feed_ok_def events_ordered_def max_event_queue_def split: if_splits)
qed

section \<open>Cancellation\<close>

text \<open>
  The answer to a cancellation is the truth about the job: already finished exactly when there
  is a result, too late exactly when the publication barrier was passed without one, requested
  otherwise. Only a requested cancellation changes the job.
\<close>

lemma cancel_answers_truthfully:
  assumes "reachable n rt" "i < length (rt_jobs rt)" "cancel (rt_jobs rt ! i) = (answer, j')"
  shows "answer = (if jb_result (rt_jobs rt ! i) \<noteq> None then AlreadyFinished
      else if jb_barrier (rt_jobs rt ! i) then TooLate else Requested) \<and>
    (answer = Requested \<longrightarrow> jb_cancelled j' \<and> jb_state j' = Cancelling \<and> jb_result j' = None) \<and>
    (answer \<noteq> Requested \<longrightarrow> j' = rt_jobs rt ! i)"
proof -
  have "state_ok (rt_jobs rt ! i)"
    using job_at [OF inv_reachable [OF assms(1)] assms(2)] by (simp add: job_inv_def)
  with assms(3) show ?thesis
    by (cases "jb_result (rt_jobs rt ! i)")
      (auto simp: state_ok_def cancel_def push_state_event_def split: if_splits)
qed

text \<open>The work of a job is over when its result has been fixed but is not stored yet.\<close>

fun decided :: "nat \<Rightarrow> worker \<Rightarrow> bool" where
  "decided i (Returned it r) \<longleftrightarrow> wi_job it = i"
| "decided i (Released it r) \<longleftrightarrow> wi_job it = i"
| "decided i x \<longleftrightarrow> False"

definition work_over :: "nat \<Rightarrow> runtime \<Rightarrow> bool" where
  "work_over i rt \<longleftrightarrow> list_ex (decided i) (rt_workers rt)"

fun outcome :: "worker \<Rightarrow> raw_result option" where
  "outcome (Returned it r) = Some r"
| "outcome (Released it r) = Some r"
| "outcome x = None"

definition cancels :: "nat \<Rightarrow> runtime \<Rightarrow> bool" where
  "cancels i rt \<longleftrightarrow> has_handle rt i \<and> jb_cancelled (rt_jobs rt ! i) \<and>
     (jb_barrier (rt_jobs rt ! i) \<or>
      (\<forall>x \<in> set (rt_workers rt). decided i x \<longrightarrow> outcome x = Some (Inl cancelled_error)) \<and>
      (jb_result (rt_jobs rt ! i) \<in> {None, Some (Inl cancelled_error)}))"

lemma keeps_cancelled [simp]:
  "jb_cancelled (snd (begin_job j)) = jb_cancelled j" "jb_cancelled (finish r j) = jb_cancelled j"
  "jb_cancelled (observe e j) = jb_cancelled j" "jb_cancelled (snd (take_events j)) = jb_cancelled j"
  "jb_cancelled j \<Longrightarrow> jb_cancelled (snd (cancel j))" "jb_barrier (finish r j) = jb_barrier j"
  "jb_barrier j \<Longrightarrow> jb_barrier (observe e j)" "jb_result (snd (take_events j)) = jb_result j"
  "jb_result (observe e j) = jb_result j" "jb_result (snd (cancel j)) = jb_result j"
  "jb_result (snd (begin_job j)) = jb_result j"
  by (auto simp: begin_job_def finish_def observe_def take_events_def cancel_def push_state_event_def Let_def split: prod.splits)

lemma finish_gives: "jb_result (finish r j) = (if jb_result j = None then Some r else jb_result j)"
  by (auto simp: finish_def split: prod.splits)

lemma begun: "jb_cancelled j \<Longrightarrow> \<not> fst (begin_job j)"
  by (simp add: begin_job_def)

lemma remove_nth_subset: "set (remove_nth k xs) \<subseteq> set xs"
  by (auto simp: remove_nth_def dest: in_set_takeD in_set_dropD)

lemma submission_job_in: "submission_at rt k = Some s \<Longrightarrow> submission_job s \<in> set (map submission_job (rt_submissions rt))"
  by (auto simp: submission_at_def split: if_splits)

lemma handle_kept:
  assumes "has_handle rt i" "exec a rt = Some rt'"
  shows "has_handle rt' i"
proof -
  have upd: "i \<notin> submission_job ` set ((rt_submissions rt)[k := Refused it x])"
    if "submission_at rt k = Some (Sending it)" for k it x
    using assms(1) submission_job_in [OF that] set_update_subset_insert [of "rt_submissions rt" k "Refused it x"]
    by (auto simp: has_handle_def)
  have rem: "i \<notin> submission_job ` set (remove_nth k (rt_submissions rt))" for k
    using assms(1) remove_nth_subset [of k "rt_submissions rt"] by (auto simp: has_handle_def)
  show ?thesis
    using assms(2)
  proof (cases rule: exec_cases)
    case (Submit op p m)
    then show ?thesis using assms(1) by (auto simp: submit_def Let_def has_handle_def split: option.splits)
  next
    case (Send k it)
    then show ?thesis using assms(1) upd [OF Send(2)] rem by (simp add: try_send_def has_handle_def)
  qed (use assms(1) rem in \<open>simp_all add: has_handle_def\<close>)
qed

lemma cancels_worker:
  assumes c: "cancels i rt" and rt': "rt_workers rt' = (rt_workers rt)[w := y]" and h: "has_handle rt' i"
    and y: "decided i y \<Longrightarrow> \<not> jb_barrier (rt_jobs rt ! i) \<Longrightarrow> outcome y = Some (Inl cancelled_error)"
    and job: "jb_cancelled (rt_jobs rt' ! i)" "jb_barrier (rt_jobs rt ! i) \<Longrightarrow> jb_barrier (rt_jobs rt' ! i)"
      "\<not> jb_barrier (rt_jobs rt ! i) \<Longrightarrow> jb_result (rt_jobs rt' ! i) \<in> {None, Some (Inl cancelled_error)}"
  shows "cancels i rt'"
proof (cases "jb_barrier (rt_jobs rt ! i)")
  case False
  have "decided i x \<longrightarrow> outcome x = Some (Inl cancelled_error)" if "x \<in> set (rt_workers rt')" for x
    using that c y False set_update_subset_insert [of "rt_workers rt" w y] by (auto simp: rt' cancels_def)
  with h job(1) job(3) [OF False] show ?thesis by (simp add: cancels_def)
qed (use h job in \<open>simp add: cancels_def\<close>)

lemma worker_in: "worker_at rt w = Some x \<Longrightarrow> x \<in> set (rt_workers rt)"
  by (auto simp: worker_at_def split: if_splits)

lemma cancels_exec:
  assumes c: "cancels i rt" and e: "exec a rt = Some rt'"
  shows "cancels i rt'"
proof -
  note h = handle_kept [OF _ e]
  have i: "has_handle rt i" "i < length (rt_jobs rt)" "jb_cancelled (rt_jobs rt ! i)"
    and res: "\<not> jb_barrier (rt_jobs rt ! i) \<Longrightarrow> jb_result (rt_jobs rt ! i) \<in> {None, Some (Inl cancelled_error)}"
    using c by (auto simp: cancels_def has_handle_def)
  have same: "cancels i rt'" if "rt_workers rt' = rt_workers rt" "jb_cancelled (rt_jobs rt' ! i)"
    "jb_barrier (rt_jobs rt ! i) \<Longrightarrow> jb_barrier (rt_jobs rt' ! i)" "jb_result (rt_jobs rt' ! i) = jb_result (rt_jobs rt ! i)"
    by (rule cancels_worker [OF c, where w = "length (rt_workers rt)" and y = Idle])
      (use that h i res in \<open>simp_all add: list_update_beyond\<close>)
  show ?thesis
    using e
  proof (cases rule: exec_cases)
    case (Submit op p m)
    then show ?thesis using i by (intro same) (auto simp: submit_def Let_def nth_append split: option.splits)
  next
    case (Send k it)
    then show ?thesis using i by (intro same) (auto simp: try_send_def)
  next
    case (Refuse k it e)
    then have "wi_job it \<noteq> i" using i(1) submission_job_in [OF Refuse(2)] by (auto simp: has_handle_def)
    with Refuse show ?thesis using i by (intro same) simp_all
  next
    case (Cancel k)
    then show ?thesis using i by (intro same; cases "k = i"; simp)
  next
    case (TakeEvents k)
    then show ?thesis using i by (intro same; cases "k = i"; simp add: take_events_def)
  next
    case (Receive w it rest)
    then show ?thesis using h i res by (intro cancels_worker [OF c, where w = w and y = "Received it"]) simp_all
  next
    case (Begin w it)
    let ?y = "if fst (begin_job (rt_jobs rt ! wi_job it)) then Working it else Returned it (Inl cancelled_error)"
    show ?thesis
      by (rule cancels_worker [OF c, where w = w and y = ?y])
        (use Begin h i res begun in \<open>(cases "wi_job it = i"; simp split: if_splits)+\<close>)
  next
    case (Observe w it x)
    then show ?thesis using i by (intro same; cases "wi_job it = i"; simp)
  next
    case (Return w it r)
    show ?thesis
      by (rule cancels_worker [OF c, where w = w and y = "Returned it (settled (rt_jobs rt ! wi_job it) r)"])
        (use Return h i res in \<open>auto simp: settled_def\<close>)
  next
    case (Panic w it)
    then show ?thesis using h i res by (intro cancels_worker [OF c, where w = w and y = "Dead it"]) simp_all
  next
    case (Release w it r)
    have "outcome (Returned it r) = Some (Inl cancelled_error)" if "wi_job it = i" "\<not> jb_barrier (rt_jobs rt ! i)"
      using c worker_in [OF Release(2)] that unfolding cancels_def by (metis decided.simps(1))
    then show ?thesis
      using Release h i res by (intro cancels_worker [OF c, where w = w and y = "Released it r"]) simp_all
  next
    case (Finish w it r)
    have "outcome (Released it r) = Some (Inl cancelled_error)" if "wi_job it = i" "\<not> jb_barrier (rt_jobs rt ! i)"
      using c worker_in [OF Finish(2)] that unfolding cancels_def by (metis decided.simps(2))
    then show ?thesis
      using Finish h i res by (intro cancels_worker [OF c, where w = w and y = Idle]; cases "wi_job it = i"; auto simp: finish_gives)
  qed
qed

text \<open>
  C32: A cancellation requested while the work is not over is honoured: whatever happens afterwards,
  and whatever the work returns, a result seen while the publication barrier has not been passed is
  the cancellation error, and the state is \<open>Cancelled\<close>.
\<close>

theorem cancel_is_honoured:
  assumes "reachable n rt" "exec (Cancel i) rt = Some rt'" "fst (cancel (rt_jobs rt ! i)) = Requested" "\<not> work_over i rt"
    and "exec_all as rt' = Some rt''" "jb_result (rt_jobs rt'' ! i) = Some r" "\<not> jb_barrier (rt_jobs rt'' ! i)"
  shows "r = Inl cancelled_error \<and> jb_state (rt_jobs rt'' ! i) = Cancelled"
proof -
  have h: "has_handle rt i" and rt': "rt' = on_job i (\<lambda>j. snd (cancel j)) rt"
    using assms(2) by (auto split: if_splits)
  have i: "i < length (rt_jobs rt)" using h by (simp add: has_handle_def)
  have ok: "state_ok (rt_jobs rt ! i)" using job_at [OF inv_reachable [OF assms(1)] i] by (simp add: job_inv_def)
  have req: "\<not> terminal (jb_state (rt_jobs rt ! i))" "jb_cancelled (snd (cancel (rt_jobs rt ! i)))"
    using assms(3) by (auto simp: cancel_def push_state_event_def split: if_splits)
  have none: "jb_result (rt_jobs rt ! i) = None" using ok req(1) by (cases "jb_result (rt_jobs rt ! i)") (simp_all add: state_ok_def)
  have "cancels i rt'"
    using h i req none assms(4) handle_kept [OF h assms(2)]
    by (auto simp: cancels_def rt' work_over_def list_ex_iff)
  with assms(5) have "cancels i rt''" by (rule run_induct) (rule cancels_exec)
  then have r: "r = Inl cancelled_error" and len: "i < length (rt_jobs rt'')"
    using assms(6,7) by (auto simp: cancels_def has_handle_def)
  have "reachable n rt''" using assms(1,2,5) by (blast intro: reachable_exec reachable_run)
  from finished_state [OF job_at [OF inv_reachable [OF this] len] assms(6)]
  show ?thesis by (simp add: r result_state_def cancelled_error_def new_error_def)
qed

text \<open>The result of a job is fixed: stored, or on its way in the only worker that has the job.\<close>

definition fated :: "nat \<Rightarrow> raw_result \<Rightarrow> runtime \<Rightarrow> bool" where
  "fated i r rt \<longleftrightarrow> runtime_inv rt \<and> has_handle rt i \<and> \<not> jb_barrier (rt_jobs rt ! i) \<and>
     (jb_result (rt_jobs rt ! i) = Some r \<or> jb_result (rt_jobs rt ! i) = None \<and>
      (\<exists>w x. worker_at rt w = Some x \<and> decided i x \<and> outcome x = Some r))"

lemma decided_items: "decided i x \<Longrightarrow> \<exists>it. worker_items x = {#it#} \<and> wi_job it = i"
  by (cases x) auto

lemma one_worker_per_job:
  assumes "runtime_inv rt" "worker_at rt v = Some x" "worker_items x = {#a#}" "worker_at rt w = Some y" "worker_items y = {#b#}"
    and "wi_job a = wi_job b"
  shows "v = w"
proof (rule ccontr)
  assume "v \<noteq> w"
  then obtain R where "sum_list (map worker_items (rt_workers rt)) = {#a#} + {#b#} + R"
    using two_workers [OF assms(2,4), of worker_items] assms(3,5) by metis
  then have "live_jobs rt = {#wi_job a, wi_job b#} + image_mset wi_job (sum_list (map submission_items (rt_submissions rt)) + mset (rt_queue rt) + R)"
    by (simp add: live_jobs_def multiset_rows)
  moreover have "simple (live_jobs rt)" using assms(1) by (simp add: runtime_inv_def)
  ultimately show False using assms(6) by simp
qed

lemma fated_update:
  assumes f: "fated i r rt" and inv: "runtime_inv rt'" and h: "has_handle rt' i"
    and w: "rt_workers rt' = (rt_workers rt)[w := y]" "worker_at rt w = Some x"
    and job: "jb_barrier (rt_jobs rt' ! i) = jb_barrier (rt_jobs rt ! i)" "jb_result (rt_jobs rt' ! i) = jb_result (rt_jobs rt ! i)"
    and keep: "decided i x \<Longrightarrow> outcome x = Some r \<Longrightarrow> decided i y \<and> outcome y = Some r"
  shows "fated i r rt'"
proof -
  have "\<exists>w x. worker_at rt' w = Some x \<and> decided i x \<and> outcome x = Some r"
    if "worker_at rt v = Some z" "decided i z" "outcome z = Some r" for v z
  proof (cases "v = w")
    case True
    then have "worker_at rt' w = Some y" using w by (auto simp: worker_at_def split: if_splits)
    with True that w(2) keep show ?thesis by auto
  next
    case False
    then have "worker_at rt' v = Some z" using that(1) w(1) by (auto simp: worker_at_def split: if_splits)
    with that show ?thesis by blast
  qed
  with f inv h job show ?thesis by (auto simp: fated_def)
qed

lemma fated_exec:
  assumes f: "fated i r rt" and e: "exec a rt = Some rt'"
  shows "fated i r rt'"
proof -
  have inv: "runtime_inv rt" and h: "has_handle rt i" and i: "i < length (rt_jobs rt)" using f by (auto simp: fated_def has_handle_def)
  have inv': "runtime_inv rt'" by (rule inv_exec [OF inv e])
  have h': "has_handle rt' i" by (rule handle_kept [OF h e])
  have same: "fated i r rt'" if "rt_workers rt' = rt_workers rt" "jb_barrier (rt_jobs rt' ! i) = jb_barrier (rt_jobs rt ! i)"
    "jb_result (rt_jobs rt' ! i) = jb_result (rt_jobs rt ! i)"
  proof -
    have "worker_at rt' = worker_at rt" using that(1) by (simp add: worker_at_def fun_eq_iff)
    with f inv' h' that(2,3) show ?thesis by (simp add: fated_def)
  qed
  have other: "wi_job it \<noteq> i" if "worker_at rt w = Some x" "worker_items x = {#it#}" "outcome x = None" for w x it
  proof
    assume it: "wi_job it = i"
    have "jb_result (rt_jobs rt ! i) = None" using worker_item(3) [OF inv that(1,2)] it by simp
    then obtain v z where z: "worker_at rt v = Some z" "decided i z" "outcome z = Some r" using f by (auto simp: fated_def)
    obtain b where b: "worker_items z = {#b#}" "wi_job b = i" using decided_items [OF z(2)] by blast
    have "w = v" using one_worker_per_job [OF inv that(1,2) z(1) b(1)] it b(2) by simp
    with that z show False by simp
  qed
  show ?thesis
    using e
  proof (cases rule: exec_cases)
    case (Submit op p m)
    then show ?thesis using i by (intro same) (auto simp: submit_def Let_def nth_append split: option.splits)
  next
    case (Send k it)
    then show ?thesis by (intro same) (auto simp: try_send_def)
  next
    case (Refuse k it e)
    then have "wi_job it \<noteq> i" using h submission_job_in [OF Refuse(2)] by (auto simp: has_handle_def)
    with Refuse show ?thesis using i by (intro same) simp_all
  next
    case (Cancel k)
    then show ?thesis using i by (intro same; cases "k = i"; simp add: cancel_def push_state_event_def)
  next
    case (TakeEvents k)
    then show ?thesis using i by (intro same; cases "k = i"; simp add: take_events_def)
  next
    case (Receive w it rest)
    show ?thesis by (rule fated_update [OF f inv' h' _ Receive(2), of "Received it"]) (use Receive in simp_all)
  next
    case (Begin w it)
    note it = other [OF Begin(2)]
    show ?thesis
      by (rule fated_update [OF f inv' h' _ Begin(2), of "if fst (begin_job (rt_jobs rt ! wi_job it)) then Working it
          else Returned it (Inl cancelled_error)"]) (use Begin it i in simp_all)
  next
    case (Observe w it x)
    then show ?thesis using i other [OF Observe(2)] by (intro same) simp_all
  next
    case (Return w it s)
    show ?thesis by (rule fated_update [OF f inv' h' _ Return(2), of "Returned it (settled (rt_jobs rt ! wi_job it) s)"]) (use Return in simp_all)
  next
    case (Panic w it)
    show ?thesis by (rule fated_update [OF f inv' h' _ Panic(2), of "Dead it"]) (use Panic in simp_all)
  next
    case (Release w it s)
    show ?thesis by (rule fated_update [OF f inv' h' _ Release(2), of "Released it s"]) (use Release in simp_all)
  next
    case (Finish w it s)
    show ?thesis
    proof (cases "wi_job it = i")
      case True
      have "jb_result (rt_jobs rt ! i) = None" using worker_item(3) [OF inv Finish(2)] True by simp
      then obtain v z where z: "worker_at rt v = Some z" "decided i z" "outcome z = Some r" using f by (auto simp: fated_def)
      obtain b where b: "worker_items z = {#b#}" "wi_job b = i" using decided_items [OF z(2)] by blast
      have "w = v" using one_worker_per_job [OF inv Finish(2) _ z(1) b(1)] True b(2) by simp
      with Finish(2) z have "s = r" by simp
      with Finish True i \<open>jb_result (rt_jobs rt ! i) = None\<close> f inv' h' show ?thesis by (simp add: fated_def finish_gives)
    next
      case False
      show ?thesis by (rule fated_update [OF f inv' h' _ Finish(2), of Idle]) (use Finish False in simp_all)
    qed
  qed
qed

text \<open>
  C36: A cancellation can come too late without being told so. Whenever a worker has returned from the work of a
  job but has not stored the result yet, and the publication barrier was not passed, a cancellation of the
  job is answered with \<open>Requested\<close>; but in every continuation the job never gets another result than the
  one the work gave, with the state that goes with it, and two more actions of the worker store it. So a
  job whose work succeeded completes although its cancellation was accepted.
\<close>

theorem late_cancellations_are_lost:
  assumes "reachable n rt" "worker_at rt w = Some (Returned it r)" "has_handle rt (wi_job it)" "\<not> jb_barrier (rt_jobs rt ! wi_job it)"
  shows "fst (cancel (rt_jobs rt ! wi_job it)) = Requested \<and>
    (\<exists>rt1. exec (Cancel (wi_job it)) rt = Some rt1 \<and>
      (\<forall>as rt2 s. exec_all as rt1 = Some rt2 \<and> jb_result (rt_jobs rt2 ! wi_job it) = Some s \<longrightarrow>
         s = r \<and> jb_state (rt_jobs rt2 ! wi_job it) = fst (result_state r) \<and> \<not> jb_barrier (rt_jobs rt2 ! wi_job it)) \<and>
      (\<exists>rt2. exec_all [Release w, Finish w] rt1 = Some rt2 \<and> jb_result (rt_jobs rt2 ! wi_job it) = Some r))"
proof -
  let ?i = "wi_job it"
  let ?rt1 = "on_job ?i (\<lambda>j. snd (cancel j)) rt"
  have inv: "runtime_inv rt" by (rule inv_reachable [OF assms(1)])
  have i: "?i < length (rt_jobs rt)" "jb_result (rt_jobs rt ! ?i) = None"
    using worker_item(2,3) [OF inv assms(2)] by simp_all
  have requested: "fst (cancel (rt_jobs rt ! ?i)) = Requested"
    using cancel_answers_truthfully [OF assms(1) i(1) surjective_pairing] i(2) assms(4) by simp
  have cancel: "exec (Cancel ?i) rt = Some ?rt1" using assms(3) by simp
  have "fated ?i r rt"
    unfolding fated_def using inv assms(2-4) i by (intro conjI disjI2 exI [of _ w] exI [of _ "Returned it r"]) simp_all
  then have start: "fated ?i r ?rt1" using fated_exec cancel by blast
  have "s = r \<and> jb_state (rt_jobs rt2 ! ?i) = fst (result_state r) \<and> \<not> jb_barrier (rt_jobs rt2 ! ?i)"
    if "exec_all as ?rt1 = Some rt2" "jb_result (rt_jobs rt2 ! ?i) = Some s" for as rt2 s
  proof -
    have fated: "fated ?i r rt2" by (rule run_induct [where P = "fated ?i r", OF that(1) start]) (rule fated_exec)
    then have "s = r" using that(2) by (auto simp: fated_def)
    moreover have "jb_state (rt_jobs rt2 ! ?i) = fst (result_state s)"
      using fated that(2) by (intro finished_state [OF job_at]) (auto simp: fated_def has_handle_def)
    ultimately show ?thesis using fated by (simp add: fated_def)
  qed
  moreover have "\<exists>rt2. exec_all [Release w, Finish w] ?rt1 = Some rt2 \<and> jb_result (rt_jobs rt2 ! ?i) = Some r"
    using assms(2) i by (auto simp: worker_at_def on_job_def set_worker_def release_def finish_gives split: if_splits option.split)
  ultimately show ?thesis using requested cancel by blast
qed

section \<open>Everything accepted can be finished\<close>

text \<open>How much is left to do; every item a dead worker holds is lost and counts nothing.\<close>

fun submission_weight :: "submission \<Rightarrow> nat" where
  "submission_weight (Sending it) = 7"
| "submission_weight (Refused it e) = 1"

fun worker_weight :: "worker \<Rightarrow> nat" where
  "worker_weight Idle = 0"
| "worker_weight (Received it) = 5"
| "worker_weight (Working it) = 4"
| "worker_weight (Returned it r) = 3"
| "worker_weight (Released it r) = 2"
| "worker_weight (Dead it) = 0"

definition weight :: "runtime \<Rightarrow> nat" where
  "weight rt = sum_list (map submission_weight (rt_submissions rt)) + 6 * length (rt_queue rt)
     + sum_list (map worker_weight (rt_workers rt))"

lemma weight_at:
  assumes "k < length xs"
  obtains R where "sum_list (map f xs) = f (xs ! k) + (R :: nat)" "\<And>x. sum_list (map f (xs[k := x])) = f x + R"
    "sum_list (map f (remove_nth k xs)) = R"
proof
  let ?R = "sum_list (map f (take k xs)) + sum_list (map f (drop (Suc k) xs))"
  show "sum_list (map f xs) = f (xs ! k) + ?R"
    by (subst id_take_nth_drop [OF assms]) simp
  show "sum_list (map f (xs[k := x])) = f x + ?R" for x
    by (simp add: upd_conv_take_nth_drop [OF assms])
  show "sum_list (map f (remove_nth k xs)) = ?R" by (simp add: remove_nth_def)
qed

lemma worker_step:
  assumes "worker_at rt w = Some x" "rt_workers rt' = (rt_workers rt)[w := y]" "rt_queue rt' = rt_queue rt"
    "rt_submissions rt' = rt_submissions rt" "worker_weight y < worker_weight x"
  shows "weight rt' < weight rt"
proof -
  have w: "w < length (rt_workers rt)" "rt_workers rt ! w = x" using assms(1) by (auto simp: worker_at_def split: if_splits)
  obtain R where "sum_list (map worker_weight (rt_workers rt)) = worker_weight x + R"
    "sum_list (map worker_weight ((rt_workers rt)[w := y])) = worker_weight y + R"
    using weight_at [OF w(1), of worker_weight] w(2) by metis
  then show ?thesis using assms by (simp add: weight_def)
qed

definition drained :: "runtime \<Rightarrow> bool" where
  "drained rt \<longleftrightarrow> rt_submissions rt = [] \<and> rt_queue rt = [] \<and> list_all (\<lambda>x. x = Idle \<or> is_dead x) (rt_workers rt)"

lemma worker_progress:
  assumes x: "x \<in> set (rt_workers rt)" "x \<noteq> Idle" "\<not> is_dead x"
  shows "\<exists>a rt'. exec a rt = Some rt' \<and> weight rt' < weight rt \<and> length (rt_workers rt') = length (rt_workers rt) \<and>
    (list_all is_dead (rt_workers rt') \<longrightarrow> list_all is_dead (rt_workers rt))"
proof -
  obtain w where w: "w < length (rt_workers rt)" "worker_at rt w = Some x"
    using x(1) by (auto simp: in_set_conv_nth worker_at_def)
  have go: ?thesis if "exec a rt = Some rt'" "rt_workers rt' = (rt_workers rt)[w := y]" "rt_queue rt' = rt_queue rt"
    "rt_submissions rt' = rt_submissions rt" "worker_weight y < worker_weight x" "\<not> is_dead y" for a rt' y
  proof -
    have "y \<in> set (rt_workers rt')" using that(2) w(1) by (simp add: set_update_memI)
    then have "\<not> list_all is_dead (rt_workers rt')" using that(6) by (auto simp: list_all_iff)
    with worker_step [OF w(2) that(2-5)] that(1,2) show ?thesis by (intro exI [of _ a] exI [of _ rt']) simp
  qed
  show ?thesis
  proof (cases x)
    case (Received it)
    obtain b j where j: "begin_job (rt_jobs rt ! wi_job it) = (b, j)" by fastforce
    let ?y = "if b then Working it else Returned it (Inl cancelled_error)"
    show ?thesis
      by (rule go [of "Begin w" "set_worker w ?y (on_job (wi_job it) (\<lambda>_. j) rt)" ?y]) (use w Received j in simp_all)
  next
    case (Working it)
    let ?y = "Returned it (settled (rt_jobs rt ! wi_job it) (Inr JNull))"
    show ?thesis by (rule go [of "Return w (Inr JNull)" "set_worker w ?y rt" ?y])
      (use w Working in simp_all)
  next
    case (Returned it r)
    show ?thesis by (rule go [of "Release w" "set_worker w (Released it r) (release (wi_project it) rt)" "Released it r"]) (use w Returned in simp_all)
  next
    case (Released it r)
    show ?thesis by (rule go [of "Finish w" "set_worker w Idle (on_job (wi_job it) (finish r) rt)" Idle]) (use w Released in simp_all)
  qed (use x in simp_all)
qed

lemma progress:
  assumes "\<not> drained rt" "\<not> list_all is_dead (rt_workers rt)"
  shows "\<exists>a rt'. exec a rt = Some rt' \<and> weight rt' < weight rt \<and> \<not> list_all is_dead (rt_workers rt')"
proof (cases "\<exists>x \<in> set (rt_workers rt). x \<noteq> Idle \<and> \<not> is_dead x")
  case True
  with worker_progress assms(2) show ?thesis by blast
next
  case rest: False
  from assms(2) obtain x where "x \<in> set (rt_workers rt)" "\<not> is_dead x" by (auto simp: list_all_iff)
  with rest have "Idle \<in> set (rt_workers rt)" by metis
  then obtain w where w: "w < length (rt_workers rt)" "worker_at rt w = Some Idle"
    by (auto simp: in_set_conv_nth worker_at_def)
  show ?thesis
  proof (cases "rt_submissions rt")
    case (Cons s ss)
    show ?thesis
    proof (cases s)
      case (Sending it)
      have "exec (Send 0) rt = Some (try_send 0 it rt)" using Cons Sending by (simp add: submission_at_def)
      moreover have "weight (try_send 0 it rt) < weight rt"
        using Cons Sending by (simp add: try_send_def weight_def remove_nth_def)
      moreover have "rt_workers (try_send 0 it rt) = rt_workers rt" by (simp add: try_send_def)
      ultimately show ?thesis using assms(2) by metis
    next
      case (Refused it e)
      then show ?thesis using Cons assms(2)
        by (intro exI [of _ "Refuse 0"]) (simp add: submission_at_def weight_def remove_nth_def)
    qed
  next
    case Nil
    then obtain it q where q: "rt_queue rt = it # q"
      using assms(1) rest by (cases "rt_queue rt") (auto simp: drained_def list_all_iff)
    let ?rt = "set_worker w (Received it) (rt\<lparr>rt_queue := q\<rparr>)"
    obtain R where "sum_list (map worker_weight (rt_workers rt)) = worker_weight (rt_workers rt ! w) + R"
      "sum_list (map worker_weight ((rt_workers rt)[w := Received it])) = worker_weight (Received it) + R"
      using weight_at [OF w(1), of worker_weight] by metis
    then have "weight ?rt < weight rt" using w q by (simp add: weight_def worker_at_def)
    moreover have "Received it \<in> set (rt_workers ?rt)" using w(1) by (simp add: set_update_memI)
    then have "\<not> list_all is_dead (rt_workers ?rt)" unfolding list_all_iff by (metis is_dead.simps)
    moreover have "exec (Receive w) rt = Some ?rt" using w q by simp
    ultimately show ?thesis by blast
  qed
qed

text \<open>
  C33: As long as one worker is left, the system can be drained: in at most \<open>weight rt\<close> actions every
  submission is answered, the queue is empty, every worker is idle or gone, and each job has a
  result unless it is the one a dead worker was running.
\<close>

theorem accepted_jobs_can_finish:
  assumes "reachable n rt" "\<not> list_all is_dead (rt_workers rt)"
  shows "\<exists>as rt'. exec_all as rt = Some rt' \<and> length as \<le> weight rt \<and> drained rt' \<and>
    (\<forall>i. i < length (rt_jobs rt') \<longrightarrow> jb_result (rt_jobs rt' ! i) = None \<longrightarrow>
      (\<exists>it. Dead it \<in> set (rt_workers rt') \<and> wi_job it = i))"
  using assms
proof (induction "weight rt" arbitrary: rt rule: less_induct)
  case less
  show ?case
  proof (cases "drained rt")
    case True
    have inv: "runtime_inv rt" by (rule inv_reachable [OF less.prems(1)])
    have sum: "x \<in># sum_list (map f xs) \<longleftrightarrow> (\<exists>y \<in> set xs. x \<in># f y)" for x and f :: "'c \<Rightarrow> 'd multiset" and xs
      by (induction xs) auto
    have "\<exists>it. Dead it \<in> set (rt_workers rt) \<and> wi_job it = i"
      if "i < length (rt_jobs rt)" "jb_result (rt_jobs rt ! i) = None" for i
    proof -
      have "i \<in># live_jobs rt" using inv that by (simp add: runtime_inv_def)
      then obtain it x where it: "wi_job it = i" "x \<in> set (rt_workers rt)" "it \<in># worker_items x"
        using True by (auto simp: live_jobs_def multiset_rows drained_def sum)
      then have "is_dead x" using True by (auto simp: drained_def list_all_iff)
      with it show ?thesis by (cases x) auto
    qed
    with True show ?thesis by (intro exI [of _ "[]"]) simp
  next
    case False
    obtain a x where x: "exec a rt = Some x" "weight x < weight rt" "\<not> list_all is_dead (rt_workers x)"
      using progress [OF False less.prems(2)] by blast
    obtain as rt' where "exec_all as x = Some rt'" "length as \<le> weight x" "drained rt'"
      "\<forall>i. i < length (rt_jobs rt') \<longrightarrow> jb_result (rt_jobs rt' ! i) = None \<longrightarrow>
        (\<exists>it. Dead it \<in> set (rt_workers rt') \<and> wi_job it = i)"
      using less.hyps [OF x(2) reachable_exec [OF less.prems(1) x(1)] x(3)] by blast
    with x(1,2) show ?thesis by (intro exI [of _ "a # as"] exI [of _ rt']) simp
  qed
qed

section \<open>Work that panics\<close>

text \<open>
  C35: When the work of a job panics, its worker is gone for good: the job never gets a result and
  its project stays reserved, whatever happens afterwards.
\<close>

theorem panic_keeps_the_project_reserved:
  assumes "reachable n rt" "worker_at rt w = Some (Working it)" "exec_all (Panic w # as) rt = Some rt'"
  shows "jb_result (rt_jobs rt' ! wi_job it) = None \<and> (\<forall>p. wi_project it = Some p \<longrightarrow> p \<in> rt_reservations rt')"
proof -
  let ?P = "\<lambda>x. runtime_inv x \<and> worker_at x w = Some (Dead it)"
  have w: "w < length (rt_workers rt)" using assms(2) by (simp add: worker_at_def split: if_splits)
  have run: "exec_all as (set_worker w (Dead it) rt) = Some rt'" and first: "exec (Panic w) rt = Some (set_worker w (Dead it) rt)"
    using assms(2,3) by simp_all
  have "?P (set_worker w (Dead it) rt)"
    using inv_exec [OF inv_reachable [OF assms(1)] first] w by (simp add: worker_at_def)
  with run have P: "?P rt'"
  proof (rule run_induct)
    fix a x y assume P: "?P x" and e: "exec a x = Some y"
    from e have "worker_at y w = Some (Dead it)"
      by (cases rule: exec_cases)
        (use P in \<open>auto simp: worker_at_def nth_list_update submit_def try_send_def Let_def split: option.splits if_splits\<close>)
    with inv_exec [OF _ e] P show "?P y" by blast
  qed
  then have "it \<in># live_items rt'" "jb_result (rt_jobs rt' ! wi_job it) = None"
    using worker_item [of rt' w "Dead it" it] by simp_all
  moreover have "p \<in> rt_reservations rt'" if "wi_project it = Some p" for p
  proof -
    have "optional (wi_project it) \<subseteq># holds rt'"
      using worker_focus [of rt' w "Dead it"] P unfolding multiset_rows
      by (metis mset_subset_eq_add_right subset_mset.order_trans mset_subset_eq_add_left worker_holds.simps(6))
    then have "p \<in># holds rt'" using that mset_subset_eqD [of "optional (wi_project it)" _ p] by simp
    then show ?thesis using P by (simp add: runtime_inv_def)
  qed
  ultimately show ?thesis by blast
qed

section \<open>A run\<close>

lemmas run_defs = new_runtime_def submit_def submission_at_def try_send_def worker_at_def has_handle_def on_job_def
  set_worker_def begin_job_def settled_def cancel_def finish_def new_job_def push_state_event_def emit_def
  take_events_def result_state_def release_def remove_nth_def max_queued_jobs_def max_event_queue_def
  push_bounded_def Let_def

text \<open>Two workers, each running a job of its own project.\<close>

definition demo_actions :: "action list" where
  "demo_actions = [Submit ''compile'' (Some ''p'') True, Send 0, Receive 0, Begin 0,
     Submit ''compile'' (Some ''q'') True, Send 0, Receive 1, Begin 1]"

definition demo_system :: runtime where
  "demo_system = the (exec_all demo_actions (new_runtime 2))"

lemma demo_run: "exec_all demo_actions (new_runtime 2) = Some demo_system"
  by (simp add: demo_system_def demo_actions_def run_defs numeral_2_eq_2)

lemma demo_reachable: "reachable 2 demo_system"
  using demo_run reachable_trace by blast

lemma demo_workers:
  "worker_at demo_system 0 = Some (Working \<lparr>wi_job = 0, wi_project = Some ''p''\<rparr>)"
  "worker_at demo_system 1 = Some (Working \<lparr>wi_job = 1, wi_project = Some ''q''\<rparr>)"
  "rt_reservations demo_system = {''p'', ''q''}" "length (rt_jobs demo_system) = 2"
  "has_handle demo_system 0" "fst (cancel (rt_jobs demo_system ! 0)) = Requested"
  "\<not> work_over 0 demo_system" "\<not> list_all is_dead (rt_workers demo_system)"
  by (auto simp: demo_system_def demo_actions_def run_defs numeral_2_eq_2 work_over_def)

theorem projects_exclusive_witness:
  "submit ''integrate'' (Some ''p'') True demo_system =
     demo_system\<lparr>rt_jobs := rt_jobs demo_system @ [job_failed ''integrate'' (busy_error ''p'')]\<rparr> \<and>
   rt_reservations (submit ''integrate'' (Some ''r'') True demo_system) = {''p'', ''q'', ''r''} \<and> ''q'' \<noteq> ''p''"
proof -
  note workers = demo_workers(1,2) [THEN worker_in]
  have "owned ''p'' demo_system" using workers by (force simp: owned_def)
  moreover have "\<not> owned ''r'' demo_system"
    using owned_iff_held [of "''r''" demo_system] inv_reachable [OF demo_reachable] demo_workers(3) by (simp add: runtime_inv_def)
  ultimately show ?thesis
    using projects_exclusive [OF demo_reachable, where operation = "''integrate''" and p = "''p''"]
      projects_exclusive [OF demo_reachable, where operation = "''integrate''" and p = "''r''"] demo_workers(3) by auto
qed

theorem reservation_has_live_owner_witness:
  "\<exists>it. it \<in># live_items demo_system \<and> wi_project it = Some ''q'' \<and> jb_result (rt_jobs demo_system ! wi_job it) = None"
  using reservation_has_live_owner [OF demo_reachable, of "''q''"] demo_workers(3) by auto

definition demo_finished :: runtime where
  "demo_finished = the (exec_all [Return 0 (Inr JNull), Release 0, Finish 0] demo_system)"

lemma demo_finish_run: "exec_all [Return 0 (Inr JNull), Release 0, Finish 0] demo_system = Some demo_finished"
  "jb_result (rt_jobs demo_finished ! 0) = Some (Inr JNull)" "0 < length (rt_jobs demo_finished)"
  "exec_all [TakeEvents 0] demo_finished = Some (on_job 0 (\<lambda>j. snd (take_events j)) demo_finished)"
  by (simp_all add: demo_finished_def demo_system_def demo_actions_def run_defs numeral_2_eq_2)

theorem results_are_final_witness:
  "jb_state (rt_jobs (on_job 0 (\<lambda>j. snd (take_events j)) demo_finished) ! 0) = Completed"
proof -
  have "reachable 2 demo_finished" by (rule reachable_run [OF demo_finish_run(1) demo_reachable])
  from results_are_final [OF this demo_finish_run(3,2,4)] show ?thesis by (simp add: result_state_def)
qed

theorem progress_bounded_and_ordered_witness:
  "length (jb_events (rt_jobs demo_system ! 0)) \<le> 64 \<and> sorted_wrt (<) (map pg_sequence (jb_events (rt_jobs demo_system ! 0)))"
  using progress_bounded_and_ordered [OF demo_run, of 0] demo_workers(4) by (simp add: demo_actions_def)

theorem cancel_answers_truthfully_witness:
  "jb_state (snd (cancel (rt_jobs demo_system ! 0))) = Cancelling"
  using cancel_answers_truthfully [OF demo_reachable _ surjective_pairing, of 0] demo_workers(4,6) by simp

definition demo_cancelled :: runtime where
  "demo_cancelled = the (exec_all [Return 0 (Inr JNull), Release 0, Finish 0] (on_job 0 (\<lambda>j. snd (cancel j)) demo_system))"

theorem cancel_is_honoured_witness:
  "jb_state (rt_jobs demo_cancelled ! 0) = Cancelled"
proof -
  let ?rt = "on_job 0 (\<lambda>j. snd (cancel j)) demo_system"
  have run: "exec_all [Return 0 (Inr JNull), Release 0, Finish 0] ?rt = Some demo_cancelled"
    "jb_result (rt_jobs demo_cancelled ! 0) = Some (Inl cancelled_error)" "\<not> jb_barrier (rt_jobs demo_cancelled ! 0)"
    by (simp_all add: demo_cancelled_def demo_system_def demo_actions_def run_defs numeral_2_eq_2 cancelled_error_def new_error_def)
  have "exec (Cancel 0) demo_system = Some ?rt" using demo_workers(5) by simp
  from cancel_is_honoured [OF demo_reachable this demo_workers(6,7) run] show ?thesis by simp
qed

text \<open>The work of the first job has succeeded, and its worker has not stored the result yet.\<close>

definition demo_late :: runtime where
  "demo_late = the (exec_all [Return 0 (Inr JNull)] demo_system)"

lemma demo_late:
  "exec_all [Return 0 (Inr JNull)] demo_system = Some demo_late"
  "worker_at demo_late 0 = Some (Returned \<lparr>wi_job = 0, wi_project = Some ''p''\<rparr> (Inr JNull))"
  "has_handle demo_late 0" "\<not> jb_barrier (rt_jobs demo_late ! 0)"
  by (simp_all add: demo_late_def demo_system_def demo_actions_def run_defs numeral_2_eq_2)

theorem late_cancellations_are_lost_witness:
  "\<exists>rt rt'. exec (Cancel 0) demo_late = Some rt \<and> fst (cancel (rt_jobs demo_late ! 0)) = Requested \<and>
     exec_all [Release 0, Finish 0] rt = Some rt' \<and> jb_state (rt_jobs rt' ! 0) = Completed"
proof -
  have "reachable 2 demo_late" by (rule reachable_run [OF demo_late(1) demo_reachable])
  then have "fst (cancel (rt_jobs demo_late ! 0)) = Requested \<and> (\<exists>rt1. exec (Cancel 0) demo_late = Some rt1 \<and>
      (\<forall>as rt2 s. exec_all as rt1 = Some rt2 \<and> jb_result (rt_jobs rt2 ! 0) = Some s \<longrightarrow> jb_state (rt_jobs rt2 ! 0) = Completed) \<and>
      (\<exists>rt2. exec_all [Release 0, Finish 0] rt1 = Some rt2 \<and> jb_result (rt_jobs rt2 ! 0) = Some (Inr JNull)))"
    using late_cancellations_are_lost [OF _ demo_late(2)] demo_late(3,4)
    by (simp del: exec.simps exec_all.simps add: result_state_def) blast
  then show ?thesis by blast
qed

theorem accepted_jobs_can_finish_witness:
  "\<exists>as rt. exec_all as demo_system = Some rt \<and> drained rt"
  using accepted_jobs_can_finish [OF demo_reachable demo_workers(8)] by blast

theorem panic_keeps_the_project_reserved_witness:
  "''p'' \<in> rt_reservations (set_worker 0 (Dead \<lparr>wi_job = 0, wi_project = Some ''p''\<rparr>) demo_system)"
proof -
  have "exec_all [Panic 0] demo_system = Some (set_worker 0 (Dead \<lparr>wi_job = 0, wi_project = Some ''p''\<rparr>) demo_system)"
    using demo_workers(1) by simp
  from panic_keeps_the_project_reserved [OF demo_reachable demo_workers(1) this] show ?thesis by simp
qed

end
