(* ===== verification/Ir.thy ===== *)
theory Ir
  imports Corpus
begin

text \<open>
  The canonical workspace, \<open>crates/okc-core/src/ir.rs\<close> and \<open>diagnostic.rs\<close>, with the sealed
  snapshot of \<open>snapshot.rs\<close>: what the parser produces and the planner consumes. The serialised
  form is derived by the compiler and not written out.
\<close>

typedecl section_tag
typedecl operation_tag

type_synonym section_id = "section_tag typed_id"
type_synonym operation_id = "operation_tag typed_id"

section \<open>Files\<close>

datatype file_kind = Markdown | CanvasFile | BaseFile | AssetFile

definition classify :: "string \<Rightarrow> file_kind" where
  "classify path = (let extension = path_extension path in
     if extension_is ''md'' extension then Markdown
     else if extension_is ''canvas'' extension then CanvasFile
     else if extension_is ''base'' extension then BaseFile
     else AssetFile)"

fun media_family :: "file_kind \<Rightarrow> string" where
  "media_family Markdown = ''text/markdown''"
| "media_family CanvasFile = ''application/vnd.obsidian.canvas+json''"
| "media_family BaseFile = ''application/vnd.obsidian.base''"
| "media_family AssetFile = ''application/octet-stream''"

record source_file =
  sf_source_id :: source_id
  sf_snapshot_id :: snapshot_id
  sf_file_id :: file_id
  sf_original_path :: string
  sf_logical_path :: string
  sf_path_encoding :: source_path_encoding
  sf_kind :: file_kind
  sf_byte_len :: nat
  sf_raw_sha256 :: string
  sf_content_hash :: content_hash

record vault_snapshot =
  vs_snapshot_id :: snapshot_id
  vs_vault_content_id :: content_hash
  vs_source_id :: source_id
  vs_source :: source_spec
  vs_policy_id :: string
  vs_files :: "source_file list"

section \<open>Diagnostics\<close>

datatype severity = Info | Warning | Error

datatype diagnostic_code = ExcludedPath | DiagUnsafePath | DiagResourceLimit | InvalidUtf8 | MalformedFrontmatter
  | MalformedMarkdown | MalformedCanvas | OpaqueBaseUnvalidated | ExactDuplicate | NearDuplicateCandidate
  | DiagPathExact | DiagPathCasefold | DiagUnicodeNormalization | PathSanitized | DiagTitleAmbiguity
  | DiagAliasAmbiguity | DiagFrontmatterValue | LinkUnresolved | DiagLinkAmbiguity | DiagProposalRejected
  | DiagApprovalRequired | SourceChanged | DiagVerificationFailed

record source_span =
  byte_start :: nat
  byte_end :: nat

record diagnostic =
  dg_code :: diagnostic_code
  dg_severity :: severity
  dg_message :: string
  dg_logical_path :: "string option"
  dg_source_file_id :: "file_id option"
  dg_document_id :: "document_id option"
  dg_span :: "source_span option"
  dg_remediation :: "string option"

definition warning :: "diagnostic_code \<Rightarrow> string \<Rightarrow> diagnostic" where
  "warning code message = \<lparr>dg_code = code, dg_severity = Warning, dg_message = message,
     dg_logical_path = None, dg_source_file_id = None, dg_document_id = None, dg_span = None,
     dg_remediation = None\<rparr>"

definition for_path :: "string \<Rightarrow> diagnostic \<Rightarrow> diagnostic" where
  "for_path path d = d\<lparr>dg_logical_path := Some path\<rparr>"

section \<open>Documents\<close>

record doc_section =
  se_section_id :: section_id
  se_heading_level :: nat
  se_heading :: string
  se_heading_path :: "string list"
  se_blocks :: "block_id list"
  se_span :: source_span

datatype block_kind = Heading | Paragraph | Code | Quote | ListBlock | Callout | Math | OtherBlock

record doc_block =
  bk_block_id :: block_id
  bk_kind :: block_kind
  bk_span :: source_span
  bk_content_hash :: content_hash
  bk_comparison_text :: string
  bk_explicit_id :: "string option"

datatype link_syntax = WikiLink | MarkdownLink

datatype link_resolution = Pending | Resolved document_id | Unresolved | Ambiguous "document_id list"
  | ResolvedAsset asset_id

record doc_link =
  lk_link_id :: link_id
  lk_syntax :: link_syntax
  lk_span :: source_span
  lk_raw_target :: string
  lk_path :: "string option"
  lk_heading :: "string option"
  lk_block_id :: "string option"
  lk_display :: "string option"
  lk_embed :: bool
  lk_resolution :: link_resolution

record ir_document =
  ir_schema_version :: nat
  ir_document_id :: document_id
  ir_source_file :: source_file
  ir_title :: "string option"
  ir_aliases :: "string list"
  ir_tags :: "string list"
  ir_frontmatter :: "json option"
  ir_frontmatter_hash :: content_hash
  ir_body_hash :: content_hash
  ir_comparison_text :: string
  ir_sections :: "doc_section list"
  ir_blocks :: "doc_block list"
  ir_links :: "doc_link list"

section \<open>Canvases, assets and bases\<close>

record canvas_node =
  cn_id :: string
  cn_type :: string
  cn_file :: "string option"
  cn_x :: "int option"
  cn_y :: "int option"
  cn_width :: "int option"
  cn_height :: "int option"
  cn_unknown :: "(string, json) btree"

record canvas_edge =
  ce_id :: string
  ce_from_node :: string
  ce_to_node :: string
  ce_from_side :: "string option"
  ce_to_side :: "string option"
  ce_label :: "string option"
  ce_unknown :: "(string, json) btree"

datatype canvas_target = ToDocument document_id | ToAsset asset_id | ToCanvas canvas_id | ToBase base_id

datatype canvas_resolution = CanvasPending | CanvasResolved canvas_target | CanvasUnresolved
  | CanvasAmbiguous "canvas_target list"

record canvas_reference =
  cr_node_id :: string
  cr_raw_path :: string
  cr_resolution :: canvas_resolution

record canvas =
  cv_canvas_id :: canvas_id
  cv_source_file :: source_file
  cv_value :: json
  cv_nodes :: "canvas_node list"
  cv_edges :: "canvas_edge list"
  cv_references :: "canvas_reference list"

record asset =
  as_asset_id :: asset_id
  as_media_type :: string
  as_byte_len :: nat
  as_sources :: "source_file list"
  as_basename :: string

record base_artifact =
  ba_base_id :: base_id
  ba_source_file :: source_file

record workspace =
  ws_schema_version :: nat
  ws_documents :: "(document_id, ir_document) btree"
  ws_canvases :: "(canvas_id, canvas) btree"
  ws_assets :: "(asset_id, asset) btree"
  ws_bases :: "base_artifact list"

definition empty_workspace :: workspace where
  "empty_workspace = \<lparr>ws_schema_version = 2, ws_documents = [], ws_canvases = [], ws_assets = [], ws_bases = []\<rparr>"

text \<open>The derived order on targets: by variant, then by identifier.\<close>

fun target_rank :: "canvas_target \<Rightarrow> nat \<times> content_hash" where
  "target_rank (ToDocument i) = (0, id_hash i)"
| "target_rank (ToAsset i) = (1, id_hash i)"
| "target_rank (ToCanvas i) = (2, id_hash i)"
| "target_rank (ToBase i) = (3, id_hash i)"

lemma target_rank_inject: "target_rank a = target_rank b \<Longrightarrow> a = b"
  by (cases a; cases b) (simp_all add: typed_id.expand)

instantiation canvas_target :: linorder
begin

definition less_eq_canvas_target :: "canvas_target \<Rightarrow> canvas_target \<Rightarrow> bool" where
  "less_eq_canvas_target a b \<longleftrightarrow> target_rank a \<le> target_rank b"

definition less_canvas_target :: "canvas_target \<Rightarrow> canvas_target \<Rightarrow> bool" where
  "less_canvas_target a b \<longleftrightarrow> target_rank a < target_rank b"

instance
  by standard (auto simp: less_eq_canvas_target_def less_canvas_target_def less_le_not_le
      intro: target_rank_inject antisym)

end

definition asset_media_type :: "string \<Rightarrow> string" where
  "asset_media_type path = (let extension = (case path_extension path of None \<Rightarrow> [] | Some x \<Rightarrow> x) in
     if eq_ignore_ascii_case extension ''png'' then ''image/png''
     else if to_ascii_lowercase extension \<in> {''jpg'', ''jpeg''} then ''image/jpeg''
     else if eq_ignore_ascii_case extension ''gif'' then ''image/gif''
     else if eq_ignore_ascii_case extension ''svg'' then ''image/svg+xml''
     else if eq_ignore_ascii_case extension ''pdf'' then ''application/pdf''
     else if eq_ignore_ascii_case extension ''mp3'' then ''audio/mpeg''
     else if eq_ignore_ascii_case extension ''mp4'' then ''video/mp4''
     else ''application/octet-stream'')"

definition source_basename :: "source_file \<Rightarrow> string" where
  "source_basename f = (case path_file_name (sf_logical_path f) of None \<Rightarrow> ''asset'' | Some n \<Rightarrow> n)"

definition asset_from_source :: "asset_id \<Rightarrow> source_file \<Rightarrow> asset" where
  "asset_from_source i f = \<lparr>as_asset_id = i, as_media_type = asset_media_type (sf_logical_path f),
     as_byte_len = sf_byte_len f, as_sources = [f], as_basename = source_basename f\<rparr>"

definition source_order :: "source_file \<Rightarrow> source_id \<times> string \<times> file_id" where
  "source_order f = (sf_source_id f, sf_logical_path f, sf_file_id f)"

text \<open>\<open>dedup_by\<close>: an element is dropped when it agrees with the last one kept.\<close>

fun dedup_by :: "('a \<Rightarrow> 'a \<Rightarrow> bool) \<Rightarrow> 'a list \<Rightarrow> 'a list" where
  "dedup_by same (x # y # xs) = (if same y x then dedup_by same (x # xs) else x # dedup_by same (y # xs))"
| "dedup_by same xs = xs"

definition merge_sources :: "source_file list \<Rightarrow> asset \<Rightarrow> asset" where
  "merge_sources fs a =
     (let merged = dedup_by (\<lambda>l r. sf_snapshot_id l = sf_snapshot_id r \<and> sf_file_id l = sf_file_id r)
            (sort_key source_order (as_sources a @ fs))
      in a\<lparr>as_sources := merged,
           as_basename := (case merged of [] \<Rightarrow> as_basename a | f # _ \<Rightarrow> source_basename f)\<rparr>)"

definition canonical_source :: "asset \<Rightarrow> source_file option" where
  "canonical_source a = (case as_sources a of [] \<Rightarrow> None | f # _ \<Rightarrow> Some f)"

end
