(* ===== verification/Parse.thy ===== *)
theory Parse
  imports Ir
begin

text \<open>
  The parser, \<open>crates/okc-core/src/parse.rs\<close>: front matter, block and section boundaries, wiki and
  Markdown links, canvases, and the identity of every piece. The scanners work on the UTF-8 bytes
  with explicit offsets, as the code does; slices at ASCII delimiters are character boundaries.

  The YAML reader, the HTML renderer whose output feeds the body hash and the JSON tokeniser are
  third-party code: the record \<open>parsers\<close>.
\<close>

section \<open>Parameters\<close>

datatype yaml_outcome = YamlError string | YamlUnrepresentable string | YamlJson json

record parsers =
  markdown_to_html :: "string \<Rightarrow> string"
  yaml_read :: "string \<Rightarrow> yaml_outcome"
  json_tokens :: "bytes \<Rightarrow> raw_json option"

section \<open>Text\<close>

text \<open>\<open>str::from_utf8\<close>: the ranges of the continuation bytes after a lead byte.\<close>

definition utf8_follow :: "nat \<Rightarrow> (nat \<times> nat) list option" where
  "utf8_follow n =
     (if n < 0x80 then Some []
      else if 0xC2 \<le> n \<and> n \<le> 0xDF then Some [(0x80, 0xBF)]
      else if n = 0xE0 then Some [(0xA0, 0xBF), (0x80, 0xBF)]
      else if n = 0xED then Some [(0x80, 0x9F), (0x80, 0xBF)]
      else if 0xE1 \<le> n \<and> n \<le> 0xEF then Some [(0x80, 0xBF), (0x80, 0xBF)]
      else if n = 0xF0 then Some [(0x90, 0xBF), (0x80, 0xBF), (0x80, 0xBF)]
      else if 0xF1 \<le> n \<and> n \<le> 0xF3 then Some [(0x80, 0xBF), (0x80, 0xBF), (0x80, 0xBF)]
      else if n = 0xF4 then Some [(0x80, 0x8F), (0x80, 0xBF), (0x80, 0xBF)]
      else None)"

function valid_utf8 :: "bytes \<Rightarrow> bool" where
  "valid_utf8 [] = True"
| "valid_utf8 (c # s) = (case utf8_follow (of_char c) of None \<Rightarrow> False
     | Some ranges \<Rightarrow> length ranges \<le> length s \<and>
         list_all2 (\<lambda>(lo, hi) b. lo \<le> of_char b \<and> of_char b \<le> hi) ranges (take (length ranges) s) \<and>
         valid_utf8 (drop (length ranges) s))"
  by pat_completeness auto
termination
  by (relation "measure length") auto

definition bom :: string where
  "bom = [CHR 0xEF, CHR 0xBB, CHR 0xBF]"

abbreviation CR :: char where "CR \<equiv> CHR 0x0D"
abbreviation LF :: char where "LF \<equiv> CHR 0x0A"

definition slice_bytes :: "string \<Rightarrow> nat \<Rightarrow> nat \<Rightarrow> string" where
  "slice_bytes s a b = take (b - a) (drop a s)"

definition run_length :: "char \<Rightarrow> string \<Rightarrow> nat" where
  "run_length m s = length (takeWhile (\<lambda>b. b = m) s)"

definition is_ascii_whitespace :: "char \<Rightarrow> bool" where
  "is_ascii_whitespace c \<longleftrightarrow> c \<in> {CHR '' '', CHR 0x09, LF, CHR 0x0C, CR}"

fun split_once :: "char \<Rightarrow> string \<Rightarrow> (string \<times> string) option" where
  "split_once c [] = None"
| "split_once c (x # s) = (if x = c then Some ([], s) else map_option (\<lambda>(a, b). (x # a, b)) (split_once c s))"

fun find_sub :: "string \<Rightarrow> string \<Rightarrow> nat option" where
  "find_sub pat [] = (if pat = [] then Some 0 else None)"
| "find_sub pat (c # s) = (if prefix pat (c # s) then Some 0 else map_option Suc (find_sub pat s))"

fun replace_line_ends :: "string \<Rightarrow> string" where
  "replace_line_ends [] = []"
| "replace_line_ends (c # s) =
     (if c = CR then LF # (case s of d # r \<Rightarrow> if d = LF then replace_line_ends r else replace_line_ends s | [] \<Rightarrow> [])
      else c # replace_line_ends s)"

definition normalize_text :: "externs \<Rightarrow> string \<Rightarrow> string" where
  "normalize_text E v = nfc E (replace_line_ends v)"

definition normalize_lookup_key :: "externs \<Rightarrow> string \<Rightarrow> string" where
  "normalize_lookup_key E v = full_casefold_nfc E (trim v)"

text \<open>Big-endian integers of a given width.\<close>

definition be_bytes :: "nat \<Rightarrow> nat \<Rightarrow> bytes" where
  "be_bytes width n = map (\<lambda>k. char_of (n div 256 ^ (width - 1 - k) mod 256)) [0..<width]"

section \<open>Lines\<close>

text \<open>\<open>RawLines\<close>: lines with their endings, \<open>\\r\\n\<close>, \<open>\\n\<close> or \<open>\\r\<close>.\<close>

definition ending_length :: "string \<Rightarrow> nat" where
  "ending_length s = (case s of [] \<Rightarrow> 0 | c # r \<Rightarrow> if c = CR \<and> r \<noteq> [] \<and> hd r = LF then 2 else 1)"

definition line_length :: "string \<Rightarrow> nat" where
  "line_length s = (let n = length (takeWhile (\<lambda>b. b \<noteq> CR \<and> b \<noteq> LF) s) in n + ending_length (drop n s))"

lemma line_length_pos: "s \<noteq> [] \<Longrightarrow> 0 < line_length s"
  by (cases s) (auto simp: line_length_def Let_def ending_length_def)

function raw_lines :: "string \<Rightarrow> string list" where
  "raw_lines s = (if s = [] then [] else take (line_length s) s # raw_lines (drop (line_length s) s))"
  by pat_completeness auto
termination
  by (relation "measure length") (use line_length_pos in auto)

declare raw_lines.simps [simp del]

definition trim_raw_line_ending :: "string \<Rightarrow> string" where
  "trim_raw_line_ending line = (case strip_suffix [CR, LF] line of Some s \<Rightarrow> s
     | None \<Rightarrow> (case strip_suffix [CR] line of Some s \<Rightarrow> s
       | None \<Rightarrow> (case strip_suffix [LF] line of Some s \<Rightarrow> s | None \<Rightarrow> line)))"

text \<open>\<open>trim_end_matches(['\\r', '\\n'])\<close>.\<close>

definition trim_line_ends :: "string \<Rightarrow> string" where
  "trim_line_ends line = rev (dropWhile (\<lambda>b. b = CR \<or> b = LF) (rev line))"

section \<open>Front matter\<close>

fun find_frontmatter_end :: "nat \<Rightarrow> string list \<Rightarrow> (nat \<times> nat) option" where
  "find_frontmatter_end offset [] = None"
| "find_frontmatter_end offset (line # rest) =
     (if trim_raw_line_ending line \<in> {''---'', ''...''} then Some (offset, offset + length line)
      else find_frontmatter_end (offset + length line) rest)"

definition split_frontmatter :: "string \<Rightarrow> string option \<times> string \<times> nat" where
  "split_frontmatter s =
     (let (prefix_len, candidate) = (case strip_prefix bom s of Some c \<Rightarrow> (3, c) | None \<Rightarrow> (0, s))
      in case raw_lines candidate of
           [] \<Rightarrow> (None, s, 0)
         | first_line # _ \<Rightarrow>
             let content = trim_raw_line_ending first_line in
             if content \<noteq> ''---'' \<or> length content = length first_line then (None, s, 0)
             else (let start = prefix_len + length first_line
                   in case find_frontmatter_end start (raw_lines (drop start s)) of
                        Some (offset, body_offset) \<Rightarrow> (Some (slice_bytes s start offset), drop body_offset s, body_offset)
                      | None \<Rightarrow> (None, s, 0)))"

definition json_field :: "json \<Rightarrow> string \<Rightarrow> json option" where
  "json_field v key = (case v of JObj m \<Rightarrow> btree_get m key | _ \<Rightarrow> None)"

fun json_as_str :: "json \<Rightarrow> string option" where
  "json_as_str (JStr s) = Some s"
| "json_as_str v = None"

definition string_list_field :: "json \<Rightarrow> string \<Rightarrow> string list" where
  "string_list_field v key = remdups_adj (sort (case json_field v key of
     Some (JStr s) \<Rightarrow> [s] | Some (JArr items) \<Rightarrow> List.map_filter json_as_str items | _ \<Rightarrow> []))"

record frontmatter =
  fm_value :: "json option"
  fm_aliases :: "string list"
  fm_tags :: "string list"
  fm_title :: "string option"
  fm_hash :: content_hash

definition opaque_frontmatter :: "externs \<Rightarrow> string \<Rightarrow> string \<Rightarrow> string \<Rightarrow> frontmatter \<times> diagnostic list" where
  "opaque_frontmatter E raw path reason =
     (\<lparr>fm_value = None, fm_aliases = [], fm_tags = [], fm_title = None,
       fm_hash = from_domain_bytes E (domain ''okc:frontmatter-opaque:v2'') raw\<rparr>,
      [for_path path (warning MalformedFrontmatter (''frontmatter kept opaque: '' @ reason))])"

definition parse_frontmatter ::
  "externs \<Rightarrow> parsers \<Rightarrow> string option \<Rightarrow> string \<Rightarrow> (frontmatter \<times> diagnostic list) res" where
  "parse_frontmatter E Y raw path = (case raw of
       None \<Rightarrow> Inr (\<lparr>fm_value = None, fm_aliases = [], fm_tags = [], fm_title = None,
           fm_hash = from_domain_bytes E (domain ''okc:frontmatter:v2'') ''null''\<rparr>, [])
     | Some raw \<Rightarrow> (case yaml_read Y raw of
         YamlJson (JObj m) \<Rightarrow>
           Inr (\<lparr>fm_value = Some (JObj m), fm_aliases = string_list_field (JObj m) ''aliases'',
             fm_tags = string_list_field (JObj m) ''tags'',
             fm_title = Option.bind (json_field (JObj m) ''title'') json_as_str,
             fm_hash = from_domain_bytes E (domain ''okc:frontmatter:v2'') (to_canonical_json E (JObj m))\<rparr>, [])
       | YamlJson v \<Rightarrow> Inr (opaque_frontmatter E raw path ''frontmatter root must be a YAML mapping'')
       | YamlUnrepresentable e \<Rightarrow>
           Inr (opaque_frontmatter E raw path (''frontmatter cannot be represented canonically: '' @ e))
       | YamlError e \<Rightarrow>
           if find_sub ''duplicate entry'' e \<noteq> None then Inl (MalformedInput path)
           else Inr (opaque_frontmatter E raw path e)))"

section \<open>Blocks and sections\<close>

definition opening_fence :: "string \<Rightarrow> (char \<times> nat) option" where
  "opening_fence line =
     (let indent = run_length CHR '' '' line; rest = drop indent line
      in if 3 < indent then None
         else (case rest of [] \<Rightarrow> None
           | marker # _ \<Rightarrow> if marker \<notin> {CHR 0x60, CHR ''~''} then None
               else let n = run_length marker rest in if 3 \<le> n then Some (marker, n) else None))"

definition is_closing_fence :: "string \<Rightarrow> char \<Rightarrow> nat \<Rightarrow> bool" where
  "is_closing_fence line marker minimum =
     (let indent = run_length CHR '' '' line; rest = drop indent line
      in if 3 < indent \<or> rest = [] \<or> hd rest \<noteq> marker then False
         else let n = run_length marker rest in minimum \<le> n \<and> list_all is_ascii_whitespace (drop n rest))"

definition is_numbered_list_item :: "string \<Rightarrow> bool" where
  "is_numbered_list_item v =
     (case (case split_once CHR ''.'' v of None \<Rightarrow> split_once CHR '')'' v | some \<Rightarrow> some) of
        None \<Rightarrow> False
      | Some (pre, rest) \<Rightarrow> pre \<noteq> [] \<and> list_all is_ascii_digit pre \<and> rest \<noteq> [] \<and> is_ascii_whitespace (hd rest))"

definition classify_block_kind :: "block_kind \<Rightarrow> string \<Rightarrow> block_kind" where
  "classify_block_kind given s =
     (if given \<noteq> Paragraph then given
      else let trimmed = trim_start s in
        if prefix ''> [!'' trimmed then Callout
        else if prefix ''>'' trimmed then Quote
        else if prefix ''$$'' trimmed \<or> prefix [CHR 0x5C, CHR ''[''] trimmed then Math
        else if prefix ''- '' trimmed \<or> prefix ''* '' trimmed \<or> prefix ''+ '' trimmed
          \<or> is_numbered_list_item trimmed then ListBlock
        else Paragraph)"

text \<open>\<open>str::lines\<close>, \<open>split_whitespace\<close>.\<close>

definition str_lines :: "string \<Rightarrow> string list" where
  "str_lines s = (let ls = split_on LF s; ls = (if last ls = [] then butlast ls else ls)
     in map (\<lambda>l. case strip_suffix [CR] l of Some t \<Rightarrow> t | None \<Rightarrow> l) ls)"

fun whitespace_words :: "string list \<Rightarrow> string list" where
  "whitespace_words [] = [[]]"
| "whitespace_words (p # ps) =
     (if is_whitespace (scalar_of p) then [] # whitespace_words ps
      else (case whitespace_words ps of [] \<Rightarrow> [p] | w # ws \<Rightarrow> (p @ w) # ws))"

definition split_whitespace :: "string \<Rightarrow> string list" where
  "split_whitespace s = filter (\<lambda>w. w \<noteq> []) (whitespace_words (char_slices s))"

definition explicit_block_id :: "externs \<Rightarrow> string \<Rightarrow> string option" where
  "explicit_block_id E block =
     (case find (\<lambda>l. trim l \<noteq> []) (rev (str_lines (normalize_text E block))) of
        None \<Rightarrow> None
      | Some line \<Rightarrow> (case last_opt (split_whitespace line) of
          None \<Rightarrow> None
        | Some word \<Rightarrow> (case strip_prefix ''^'' word of
            None \<Rightarrow> None
          | Some candidate \<Rightarrow>
              if candidate \<noteq> [] \<and> list_all (\<lambda>b. is_ascii_alphanumeric b \<or> b \<in> {CHR ''-'', CHR ''_''}) candidate
              then Some candidate else None)))"

definition push_block ::
  "externs \<Rightarrow> document_id \<Rightarrow> block_kind \<Rightarrow> string \<Rightarrow> nat \<Rightarrow> nat \<Rightarrow> nat \<Rightarrow> doc_block list \<Rightarrow> doc_block list" where
  "push_block E d kind body base start stop blocks =
     (let s = slice_bytes body start stop;
          h = from_domain_bytes E (domain ''okc:block-content:v2'') s
      in blocks @ [\<lparr>bk_block_id = id_from_parts E (domain ''okc:block:v2'')
             [hash_bytes (id_hash d), be_bytes 8 (length blocks), hash_bytes h],
           bk_kind = classify_block_kind kind s,
           bk_span = \<lparr>byte_start = base + start, byte_end = base + stop\<rparr>,
           bk_content_hash = h, bk_comparison_text = normalize_text E s, bk_explicit_id = explicit_block_id E s\<rparr>])"

record block_scan =
  bs_offset :: nat
  bs_paragraph :: "nat option"
  bs_fence :: "(char \<times> nat \<times> nat) option"
  bs_headings :: "string list"
  bs_sections :: "doc_section list"
  bs_blocks :: "doc_block list"

definition flush_paragraph :: "externs \<Rightarrow> document_id \<Rightarrow> string \<Rightarrow> nat \<Rightarrow> nat \<Rightarrow> block_scan \<Rightarrow> block_scan" where
  "flush_paragraph E d body base stop st = (case bs_paragraph st of
       None \<Rightarrow> st
     | Some start \<Rightarrow> st\<lparr>bs_paragraph := None,
         bs_blocks := (if start < stop then push_block E d Paragraph body base start stop (bs_blocks st)
           else bs_blocks st)\<rparr>)"

definition heading_level :: "string \<Rightarrow> nat option" where
  "heading_level trimmed = (let n = run_length CHR ''#'' trimmed in
     if 1 \<le> n \<and> n \<le> 6 \<and> n < length trimmed \<and> is_ascii_whitespace (trimmed ! n) then Some n else None)"

definition push_section ::
  "externs \<Rightarrow> document_id \<Rightarrow> nat \<Rightarrow> nat \<Rightarrow> nat \<Rightarrow> string \<Rightarrow> block_scan \<Rightarrow> block_scan" where
  "push_section E d start stop level heading st =
     (let headings = take (level - 1) (bs_headings st) @ [heading]
      in st\<lparr>bs_headings := headings,
           bs_sections := bs_sections st @ [\<lparr>se_section_id = id_from_parts E (domain ''okc:section:v2'')
               [hash_bytes (id_hash d), be_bytes 8 (length (bs_sections st)), heading],
             se_heading_level = level, se_heading = heading, se_heading_path = headings, se_blocks = [],
             se_span = \<lparr>byte_start = start, byte_end = stop\<rparr>\<rparr>]\<rparr>)"

text \<open>One line of \<open>scan_blocks\<close>.\<close>

definition scan_line :: "externs \<Rightarrow> document_id \<Rightarrow> string \<Rightarrow> nat \<Rightarrow> block_scan \<Rightarrow> string \<Rightarrow> block_scan" where
  "scan_line E d body base st line =
     (let line_start = bs_offset st; line_end = line_start + length line; trimmed = trim_line_ends line;
          flushed = flush_paragraph E d body base line_start st
      in (case bs_fence st of
           Some (marker, minimum, fence_start) \<Rightarrow>
             if is_closing_fence trimmed marker minimum
             then st\<lparr>bs_blocks := push_block E d Code body base fence_start line_end (bs_blocks st), bs_fence := None\<rparr>
             else st
         | None \<Rightarrow> (case opening_fence trimmed of
             Some (marker, minimum) \<Rightarrow> flushed\<lparr>bs_fence := Some (marker, minimum, line_start)\<rparr>
           | None \<Rightarrow> (case heading_level trimmed of
               Some level \<Rightarrow>
                 let st = push_section E d (base + line_start) (base + line_end) level (trim (drop level trimmed)) flushed
                 in st\<lparr>bs_blocks := push_block E d Heading body base line_start line_end (bs_blocks st)\<rparr>
             | None \<Rightarrow>
                 if trim trimmed = [] then flushed
                 else if bs_paragraph st = None then st\<lparr>bs_paragraph := Some line_start\<rparr>
                 else st)))\<lparr>bs_offset := line_end\<rparr>)"

definition scan_end :: "externs \<Rightarrow> document_id \<Rightarrow> string \<Rightarrow> nat \<Rightarrow> block_scan \<Rightarrow> block_scan" where
  "scan_end E d body base st =
     flush_paragraph E d body base (length body)
       (case bs_fence st of None \<Rightarrow> st
        | Some (_, _, fence_start) \<Rightarrow>
            st\<lparr>bs_blocks := push_block E d Code body base fence_start (length body) (bs_blocks st)\<rparr>)"

text \<open>The blocks of a section reach to the next section that is not below it.\<close>

fun assign_section_blocks :: "doc_block list \<Rightarrow> doc_section list \<Rightarrow> doc_section list" where
  "assign_section_blocks blocks [] = []"
| "assign_section_blocks blocks (s # rest) =
     (let start = byte_start (se_span s);
          stop = (case find (\<lambda>x. se_heading_level x \<le> se_heading_level s) rest of
            None \<Rightarrow> 2 ^ 64 - 1 | Some x \<Rightarrow> byte_start (se_span x))
      in s\<lparr>se_blocks := map bk_block_id
           (filter (\<lambda>b. start \<le> byte_start (bk_span b) \<and> byte_start (bk_span b) < stop) blocks)\<rparr>
         # assign_section_blocks blocks rest)"

definition scan_start :: block_scan where
  "scan_start = \<lparr>bs_offset = 0, bs_paragraph = None, bs_fence = None, bs_headings = [], bs_sections = [], bs_blocks = []\<rparr>"

definition scan_blocks :: "externs \<Rightarrow> document_id \<Rightarrow> string \<Rightarrow> nat \<Rightarrow> doc_section list \<times> doc_block list" where
  "scan_blocks E d body base =
     (let st = scan_end E d body base (foldl (scan_line E d body base) scan_start (raw_lines body))
      in (assign_section_blocks (bs_blocks st) (bs_sections st), bs_blocks st))"

section \<open>Link targets\<close>

definition hex_nibble :: "char \<Rightarrow> nat option" where
  "hex_nibble c = (let n = of_char c in
     if 48 \<le> n \<and> n \<le> 57 then Some (n - 48)
     else if 97 \<le> n \<and> n \<le> 102 then Some (n - 97 + 10)
     else if 65 \<le> n \<and> n \<le> 70 then Some (n - 65 + 10)
     else None)"

fun percent_decode :: "string \<Rightarrow> bytes option" where
  "percent_decode [] = Some []"
| "percent_decode (c # s) =
     (if c = CHR ''%''
      then (case s of h # l # r \<Rightarrow> (case (hex_nibble h, hex_nibble l) of
             (Some a, Some b) \<Rightarrow> map_option ((#) (char_of (16 * a + b))) (percent_decode r)
           | _ \<Rightarrow> None) | _ \<Rightarrow> None)
      else map_option ((#) c) (percent_decode s))"

definition percent_decode_path :: "string \<Rightarrow> string option" where
  "percent_decode_path v = (case percent_decode v of None \<Rightarrow> None
     | Some decoded \<Rightarrow> if valid_utf8 decoded then Some decoded else None)"

definition is_external_target :: "string \<Rightarrow> bool" where
  "is_external_target target = (let lower = to_ascii_lowercase target in
     list_ex (\<lambda>p. prefix p lower) [''http://'', ''https://'', ''mailto:'', ''data:'', ''obsidian:'', ''//''])"

type_synonym link_target = "string option \<times> string option \<times> string option"

definition split_markdown_target :: "string \<Rightarrow> link_target" where
  "split_markdown_target raw =
     (if is_external_target raw then (None, None, None)
      else let (path, heading) = (case split_once CHR ''#'' raw of None \<Rightarrow> (raw, None) | Some (p, h) \<Rightarrow> (p, Some h));
               (heading, block) = (case heading of
                   Some fragment \<Rightarrow> if prefix ''^'' fragment
                     then (None, Some (dropWhile (\<lambda>c. c = CHR ''^'') fragment)) else (heading, None)
                 | None \<Rightarrow> (None, None))
           in (if path = [] then None else Some (case percent_decode_path path of None \<Rightarrow> path | Some p \<Rightarrow> p),
               heading, block))"

definition split_wiki_target :: "string \<Rightarrow> link_target \<times> string option" where
  "split_wiki_target raw =
     (let (target, display) = (case split_once CHR ''|'' raw of None \<Rightarrow> (raw, None) | Some (t, d) \<Rightarrow> (t, Some d));
          (before, block) = (case split_once CHR ''^'' target of None \<Rightarrow> (target, None) | Some (p, b) \<Rightarrow> (p, Some b));
          (path, heading) = (case split_once CHR ''#'' before of None \<Rightarrow> (before, None) | Some (p, h) \<Rightarrow> (p, Some h))
      in ((if path = [] then None else Some path, heading, block), display))"

definition make_link ::
  "externs \<Rightarrow> document_id \<Rightarrow> nat \<Rightarrow> link_syntax \<Rightarrow> string \<Rightarrow> nat \<Rightarrow> nat \<Rightarrow> link_target \<Rightarrow> string option \<Rightarrow> bool \<Rightarrow> doc_link" where
  "make_link E d ordinal syntax raw start stop target display embedded =
     (case target of (path, heading, block) \<Rightarrow>
       \<lparr>lk_link_id = id_from_parts E (domain ''okc:link:v2'') [hash_bytes (id_hash d), be_bytes 8 ordinal, raw],
        lk_syntax = syntax, lk_span = \<lparr>byte_start = start, byte_end = stop\<rparr>, lk_raw_target = raw,
        lk_path = path, lk_heading = heading, lk_block_id = block, lk_display = display, lk_embed = embedded,
        lk_resolution = Pending\<rparr>)"

definition parse_wiki_link ::
  "externs \<Rightarrow> document_id \<Rightarrow> nat \<Rightarrow> string \<Rightarrow> nat \<Rightarrow> nat \<Rightarrow> bool \<Rightarrow> doc_link" where
  "parse_wiki_link E d ordinal raw start stop embedded =
     (case split_wiki_target raw of (target, display) \<Rightarrow>
       make_link E d ordinal WikiLink raw start stop target display embedded)"

section \<open>Inline links\<close>

function find_backtick_close :: "string \<Rightarrow> nat \<Rightarrow> nat \<Rightarrow> nat option" where
  "find_backtick_close bs index expected =
     (if length bs \<le> index then None
      else if bs ! index \<noteq> CHR 0x60 then find_backtick_close bs (index + 1) expected
      else let run = run_length CHR 0x60 (drop index bs) in
        if run = expected then Some index else find_backtick_close bs (index + max 1 run) expected)"
  by pat_completeness auto
termination
  by (relation "measure (\<lambda>(bs, index, _). length bs - index)") (simp_all add: diff_less_mono2)

text \<open>The run at a backtick is not empty, so the step is the run.\<close>

function find_balanced_delimiter :: "string \<Rightarrow> nat \<Rightarrow> nat \<Rightarrow> char \<Rightarrow> char \<Rightarrow> nat option" where
  "find_balanced_delimiter bs index nested opener closer =
     (if length bs \<le> index then None
      else let c = bs ! index in
        if c = CHR 0x5C then find_balanced_delimiter bs (min (index + 2) (length bs)) nested opener closer
        else if c = opener then find_balanced_delimiter bs (index + 1) (nested + 1) opener closer
        else if c = closer \<and> 0 < nested then find_balanced_delimiter bs (index + 1) (nested - 1) opener closer
        else if c = closer then Some index
        else find_balanced_delimiter bs (index + 1) nested opener closer)"
  by pat_completeness auto
termination
  by (relation "measure (\<lambda>(bs, index, _). length bs - index)") auto

function find_markdown_close :: "string \<Rightarrow> nat \<Rightarrow> char option \<Rightarrow> nat option" where
  "find_markdown_close bs index quote =
     (if length bs \<le> index then None
      else let c = bs ! index in
        if c = CHR 0x5C then find_markdown_close bs (min (index + 2) (length bs)) quote
        else if c = CHR 0x27 \<or> c = CHR 0x22
        then find_markdown_close bs (index + 1) (if quote = Some c then None else if quote = None then Some c else quote)
        else if c = CHR '')'' \<and> quote = None then Some index
        else find_markdown_close bs (index + 1) quote)"
  by pat_completeness auto
termination
  by (relation "measure (\<lambda>(bs, index, _). length bs - index)") auto

function skip_whitespace :: "string \<Rightarrow> nat \<Rightarrow> nat" where
  "skip_whitespace bs cursor =
     (if cursor < length bs \<and> is_ascii_whitespace (bs ! cursor) then skip_whitespace bs (cursor + 1) else cursor)"
  by pat_completeness auto
termination
  by (relation "measure (\<lambda>(bs, cursor). length bs - cursor)") auto

text \<open>The end of a target: before \<open>>\<close> when it is wrapped in angle brackets, or at its delimiter.\<close>

function angle_target_end :: "string \<Rightarrow> nat \<Rightarrow> nat" where
  "angle_target_end bs cursor =
     (if length bs \<le> cursor \<or> bs ! cursor = CHR ''>'' then cursor
      else if bs ! cursor = CHR 0x5C then angle_target_end bs (min (cursor + 2) (length bs))
      else angle_target_end bs (cursor + 1))"
  by pat_completeness auto
termination
  by (relation "measure (\<lambda>(bs, cursor). length bs - cursor)") auto

function plain_target_end :: "string \<Rightarrow> nat \<Rightarrow> nat \<Rightarrow> nat" where
  "plain_target_end bs cursor nested =
     (if length bs \<le> cursor then cursor
      else let c = bs ! cursor in
        if c = CHR 0x5C then plain_target_end bs (min (cursor + 2) (length bs)) nested
        else if c = CHR ''('' then plain_target_end bs (cursor + 1) (nested + 1)
        else if c = CHR '')'' \<and> 0 < nested then plain_target_end bs (cursor + 1) (nested - 1)
        else if c = CHR '')'' \<or> c = CHR '' '' \<or> c = CHR 0x09 then cursor
        else plain_target_end bs (cursor + 1) nested)"
  by pat_completeness auto
termination
  by (relation "measure (\<lambda>(bs, cursor, _). length bs - cursor)") auto

declare find_backtick_close.simps [simp del] find_balanced_delimiter.simps [simp del]
  find_markdown_close.simps [simp del] skip_whitespace.simps [simp del] angle_target_end.simps [simp del]
  plain_target_end.simps [simp del]

definition byte_at :: "string \<Rightarrow> nat \<Rightarrow> char option" where
  "byte_at bs i = (if i < length bs then Some (bs ! i) else None)"

definition parse_inline_markdown_link ::
  "externs \<Rightarrow> document_id \<Rightarrow> nat \<Rightarrow> string \<Rightarrow> nat \<Rightarrow> nat \<Rightarrow> bool \<Rightarrow> (nat \<times> doc_link) option" where
  "parse_inline_markdown_link E d ordinal line line_offset label_start embedded =
     (case find_balanced_delimiter line label_start 0 CHR ''['' CHR '']'' of None \<Rightarrow> None
      | Some label_end \<Rightarrow>
         if byte_at line (label_end + 1) \<noteq> Some CHR ''('' then None
         else let cursor = skip_whitespace line (label_end + 2);
                  angle = byte_at line cursor = Some CHR ''<'';
                  target_start = (if angle then cursor + 1 else cursor);
                  target_end = (if angle then angle_target_end line target_start else plain_target_end line target_start 0)
           in if angle \<and> byte_at line target_end \<noteq> Some CHR ''>'' then None
              else if target_end = target_start then None
              else (case find_markdown_close line (if angle then target_end + 1 else target_end) None of None \<Rightarrow> None
                 | Some stop \<Rightarrow>
                     let raw = slice_bytes line target_start target_end
                     in Some (stop + 1, make_link E d ordinal MarkdownLink raw
                          (line_offset + target_start) (line_offset + target_end) (split_markdown_target raw)
                          (Some (slice_bytes line label_start label_end)) embedded)))"

lemma find_balanced_bounds: "find_balanced_delimiter bs i n a b = Some j \<Longrightarrow> i \<le> j \<and> j < length bs"
proof (induction bs i n a b rule: find_balanced_delimiter.induct)
  case (1 bs i n a b)
  from 1(5) have "i < length bs" by (simp add: find_balanced_delimiter.simps [of bs i n a b] split: if_splits)
  with 1 show ?case
    by (simp add: find_balanced_delimiter.simps [of bs i n a b] Let_def min_def split: if_splits)
qed

lemma find_markdown_bounds: "find_markdown_close bs i q = Some j \<Longrightarrow> i \<le> j \<and> j < length bs"
proof (induction bs i q rule: find_markdown_close.induct)
  case (1 bs i q)
  from 1(4) have "i < length bs" by (simp add: find_markdown_close.simps [of bs i q] split: if_splits)
  with 1 show ?case
    by (simp add: find_markdown_close.simps [of bs i q] Let_def min_def split: if_splits)
qed

lemma find_backtick_bounds: "find_backtick_close bs i n = Some j \<Longrightarrow> i \<le> j \<and> j < length bs"
proof (induction bs i n rule: find_backtick_close.induct)
  case (1 bs i n)
  from 1(3) have "i < length bs" by (simp add: find_backtick_close.simps [of bs i n] split: if_splits)
  with 1 show ?case
    by (simp add: find_backtick_close.simps [of bs i n] Let_def split: if_splits)
qed

lemma skip_whitespace_ge: "i \<le> skip_whitespace bs i"
  by (induction bs i rule: skip_whitespace.induct) (subst skip_whitespace.simps, auto)

lemma angle_end_ge: "i \<le> angle_target_end bs i"
  by (induction bs i rule: angle_target_end.induct) (subst angle_target_end.simps, auto)

lemma plain_end_ge: "i \<le> plain_target_end bs i n"
  by (induction bs i n rule: plain_target_end.induct) (subst plain_target_end.simps, auto simp: Let_def)

lemma markdown_link_advances:
  assumes "parse_inline_markdown_link E d n line off start e = Some (next, l)"
  shows "start < next \<and> next \<le> length line"
proof -
  from assms obtain label_end where *: "find_balanced_delimiter line start 0 CHR ''['' CHR '']'' = Some label_end"
    "byte_at line (label_end + 1) = Some CHR ''(''"
    by (auto simp: parse_inline_markdown_link_def split: option.splits if_splits)
  define cursor where "cursor = skip_whitespace line (label_end + 2)"
  define first where "first = (if byte_at line cursor = Some CHR ''<'' then cursor + 1 else cursor)"
  define stop where "stop = (if byte_at line cursor = Some CHR ''<'' then angle_target_end line first else plain_target_end line first 0)"
  obtain k where k: "find_markdown_close line (if byte_at line cursor = Some CHR ''<'' then stop + 1 else stop) None = Some k" "next = k + 1"
    using assms * unfolding parse_inline_markdown_link_def
    by (auto simp: Let_def cursor_def first_def stop_def split: option.splits if_splits)
  have "start \<le> label_end" using find_balanced_bounds [OF *(1)] by simp
  moreover have "label_end + 2 \<le> cursor" by (simp add: cursor_def skip_whitespace_ge)
  moreover have "cursor \<le> first" "first \<le> stop" by (simp_all add: first_def stop_def angle_end_ge plain_end_ge)
  moreover have "stop \<le> k" "k < length line" using find_markdown_bounds [OF k(1)] by (auto split: if_splits)
  ultimately show ?thesis using k(2) by simp
qed

text \<open>What starts at an index: nothing, a wiki link or a Markdown link, with where it opens.\<close>

definition wiki_open :: "string \<Rightarrow> nat \<Rightarrow> (bool \<times> nat) option" where
  "wiki_open line index =
     (if prefix ''![['' (drop index line) then Some (True, index + 3)
      else if prefix ''[['' (drop index line) then Some (False, index + 2)
      else None)"

definition label_open :: "string \<Rightarrow> nat \<Rightarrow> (bool \<times> nat) option" where
  "label_open line index =
     (if prefix ''!['' (drop index line) then Some (True, index + 2)
      else if line ! index = CHR ''['' \<and> \<not> prefix ''[['' (drop index line) then Some (False, index + 1)
      else None)"

definition next_wiki ::
  "externs \<Rightarrow> document_id \<Rightarrow> nat \<Rightarrow> string \<Rightarrow> nat \<Rightarrow> nat \<Rightarrow> (nat \<times> doc_link) option" where
  "next_wiki E d ordinal line line_offset index = (case wiki_open line index of None \<Rightarrow> None
     | Some (embedded, start) \<Rightarrow> (case find_sub '']]'' (drop start line) of None \<Rightarrow> None
       | Some n \<Rightarrow> Some (start + n + 2, parse_wiki_link E d ordinal (slice_bytes line start (start + n))
           (line_offset + start) (line_offset + start + n) embedded)))"

definition next_markdown ::
  "externs \<Rightarrow> document_id \<Rightarrow> nat \<Rightarrow> string \<Rightarrow> nat \<Rightarrow> nat \<Rightarrow> (nat \<times> doc_link) option" where
  "next_markdown E d ordinal line line_offset index = (case label_open line index of None \<Rightarrow> None
     | Some (embedded, start) \<Rightarrow> parse_inline_markdown_link E d ordinal line line_offset start embedded)"

lemma find_sub_bound: "find_sub pat s = Some n \<Longrightarrow> n + length pat \<le> length s \<and> take (length pat) (drop n s) = pat"
proof (induction s arbitrary: n)
  case (Cons c s)
  show ?case
  proof (cases "prefix pat (c # s)")
    case True
    with Cons.prems prefix_length_le [OF True] show ?thesis by (auto simp: prefix_def)
  next
    case False
    with Cons.prems obtain m where "find_sub pat s = Some m" "n = Suc m" by auto
    with Cons.IH [of m] show ?thesis by simp
  qed
qed (auto split: if_splits)

lemma next_wiki_advances: "next_wiki E d n line off i = Some (next, l) \<Longrightarrow> i < next \<and> next \<le> length line"
  using find_sub_bound by (fastforce simp: next_wiki_def wiki_open_def split: option.splits if_splits)

lemma next_markdown_advances: "next_markdown E d n line off i = Some (next, l) \<Longrightarrow> i < next \<and> next \<le> length line"
  by (auto simp: next_markdown_def label_open_def split: option.splits if_splits dest!: markdown_link_advances)

text \<open>The loop of \<open>scan_inline_links\<close>: an escape, a code span, a link, or one byte further.\<close>

function scan_inline_links ::
  "externs \<Rightarrow> document_id \<Rightarrow> string \<Rightarrow> nat \<Rightarrow> nat \<Rightarrow> doc_link list \<Rightarrow> doc_link list" where
  "scan_inline_links E d line line_offset index links =
     (if length line \<le> index then links
      else if line ! index = CHR 0x5C then scan_inline_links E d line line_offset (min (index + 2) (length line)) links
      else if line ! index = CHR 0x60
      then let run = run_length CHR 0x60 (drop index line)
           in (case find_backtick_close line (index + run) run of
                 Some stop \<Rightarrow> scan_inline_links E d line line_offset (stop + max 1 run) links
               | None \<Rightarrow> scan_inline_links E d line line_offset (index + max 1 run) links)
      else (case next_wiki E d (length links) line line_offset index of
          Some (next, l) \<Rightarrow> scan_inline_links E d line line_offset next (links @ [l])
        | None \<Rightarrow> (case next_markdown E d (length links) line line_offset index of
            Some (next, l) \<Rightarrow> scan_inline_links E d line line_offset next (links @ [l])
          | None \<Rightarrow> scan_inline_links E d line line_offset (index + 1) links)))"
  by pat_completeness auto
termination
  by (relation "measure (\<lambda>(E, d, line, off, index, links). length line - index)")
    (auto dest!: next_wiki_advances next_markdown_advances find_backtick_bounds simp: diff_less_mono2)

declare scan_inline_links.simps [simp del]

record link_scan =
  ls_offset :: nat
  ls_fence :: "(char \<times> nat) option"
  ls_links :: "doc_link list"

text \<open>One line of \<open>scan_links\<close>: nothing is scanned inside fences and indented lines.\<close>

definition scan_link_line :: "externs \<Rightarrow> document_id \<Rightarrow> link_scan \<Rightarrow> string \<Rightarrow> link_scan" where
  "scan_link_line E d st raw_line =
     (let line = trim_raw_line_ending raw_line
      in (case ls_fence st of
            Some (marker, minimum) \<Rightarrow> if is_closing_fence line marker minimum then st\<lparr>ls_fence := None\<rparr> else st
          | None \<Rightarrow> (case opening_fence line of
              Some f \<Rightarrow> st\<lparr>ls_fence := Some f\<rparr>
            | None \<Rightarrow> if prefix ''    '' line \<or> prefix [CHR 0x09] line then st
                else st\<lparr>ls_links := scan_inline_links E d line (ls_offset st) 0 (ls_links st)\<rparr>))
         \<lparr>ls_offset := ls_offset st + length raw_line\<rparr>)"

definition scan_links :: "externs \<Rightarrow> document_id \<Rightarrow> string \<Rightarrow> nat \<Rightarrow> doc_link list" where
  "scan_links E d s base =
     ls_links (foldl (scan_link_line E d) \<lparr>ls_offset = base, ls_fence = None, ls_links = []\<rparr> (raw_lines s))"

section \<open>Documents\<close>

definition source_pair_id :: "externs \<Rightarrow> string \<Rightarrow> source_file \<Rightarrow> 'k typed_id" where
  "source_pair_id E name f =
     id_from_parts E (domain name) [hash_bytes (id_hash (sf_snapshot_id f)), hash_bytes (id_hash (sf_file_id f))]"

definition parse_markdown ::
  "externs \<Rightarrow> parsers \<Rightarrow> source_file \<Rightarrow> bytes \<Rightarrow> compiler_policy \<Rightarrow> (ir_document \<times> diagnostic list) res" where
  "parse_markdown E Y f b p =
     and_then (validate_source_path_pair E (sf_original_path f) (sf_logical_path f) (sf_path_encoding f) p)
     (if \<not> valid_utf8 b then Inl (MalformedInput (sf_logical_path f))
      else (case split_frontmatter b of (raw, body, body_offset) \<Rightarrow>
        bind_res (parse_frontmatter E Y raw (sf_logical_path f)) (\<lambda>(fm, diagnostics).
          let (body, body_offset) = (if body_offset = 0
                then (case strip_prefix bom body of Some c \<Rightarrow> (c, body_offset + 3) | None \<Rightarrow> (body, body_offset))
                else (body, body_offset));
              normalized = normalize_text E body;
              html = markdown_to_html Y normalized;
              projection = (if prefix bom normalized then bom @ html else html);
              d = source_pair_id E ''okc:document:v2'' f;
              (sections, blocks) = scan_blocks E d body body_offset;
              links = scan_links E d body body_offset;
              heading_title = (case sections of [] \<Rightarrow> None | s # _ \<Rightarrow> Some (se_heading s))
          in Inr (\<lparr>ir_schema_version = 2, ir_document_id = d, ir_source_file = f,
               ir_title = (case fm_title fm of Some t \<Rightarrow> Some t
                 | None \<Rightarrow> (case heading_title of Some t \<Rightarrow> Some t | None \<Rightarrow> path_file_stem (sf_logical_path f))),
               ir_aliases = fm_aliases fm, ir_tags = fm_tags fm, ir_frontmatter = fm_value fm,
               ir_frontmatter_hash = fm_hash fm,
               ir_body_hash = from_domain_bytes E (domain ''okc:body:v2'') projection,
               ir_comparison_text = normalized, ir_sections = sections, ir_blocks = blocks, ir_links = links\<rparr>,
             diagnostics))))"

definition lookup_keys :: "externs \<Rightarrow> ir_document \<Rightarrow> string list" where
  "lookup_keys E d = map fst (btree_collect (map (\<lambda>v. (normalize_lookup_key E v, ()))
     ((case ir_title d of None \<Rightarrow> [] | Some t \<Rightarrow> [t]) @ ir_aliases d
        @ (case path_file_stem (sf_logical_path (ir_source_file d)) of None \<Rightarrow> [] | Some t \<Rightarrow> [t]))))"

section \<open>Canvases\<close>

fun json_as_array :: "json \<Rightarrow> json list option" where
  "json_as_array (JArr vs) = Some vs"
| "json_as_array v = None"

fun json_as_object :: "json \<Rightarrow> (string, json) btree option" where
  "json_as_object (JObj m) = Some m"
| "json_as_object v = None"

fun json_as_i64 :: "json \<Rightarrow> int option" where
  "json_as_i64 (JNum (PosInt w)) = (if uint w < 2 ^ 63 then Some (uint w) else None)"
| "json_as_i64 (JNum (NegInt w)) = Some (sint w)"
| "json_as_i64 v = None"

text \<open>A field that may be absent but must have its type when present.\<close>

definition typed_field :: "string \<Rightarrow> (json \<Rightarrow> 'a option) \<Rightarrow> (string, json) btree \<Rightarrow> string \<Rightarrow> 'a option res" where
  "typed_field path as m key = (case btree_get m key of None \<Rightarrow> Inr None
     | Some v \<Rightarrow> (case as v of None \<Rightarrow> Inl (MalformedInput path) | Some x \<Rightarrow> Inr (Some x)))"

definition required_field :: "string \<Rightarrow> (string, json) btree \<Rightarrow> string \<Rightarrow> string res" where
  "required_field path m key = require (MalformedInput path) (Option.bind (btree_get m key) json_as_str)"

definition canvas_node_of :: "string \<Rightarrow> json \<Rightarrow> canvas_node res" where
  "canvas_node_of path v =
     bind_res (require (MalformedInput path) (json_as_object v)) (\<lambda>m.
     bind_res (bind_res (typed_field path json_as_str m ''id'') (require (MalformedInput path))) (\<lambda>i.
     bind_res (bind_res (typed_field path json_as_str m ''type'') (require (MalformedInput path))) (\<lambda>t.
     bind_res (typed_field path json_as_str m ''file'') (\<lambda>file.
     bind_res (typed_field path json_as_i64 m ''x'') (\<lambda>x.
     bind_res (typed_field path json_as_i64 m ''y'') (\<lambda>y.
     bind_res (typed_field path json_as_i64 m ''width'') (\<lambda>w.
     bind_res (typed_field path json_as_i64 m ''height'') (\<lambda>h.
       Inr \<lparr>cn_id = i, cn_type = t, cn_file = file, cn_x = x, cn_y = y, cn_width = w, cn_height = h,
         cn_unknown = filter (\<lambda>(k, _). k \<notin> {''id'', ''type'', ''file'', ''x'', ''y'', ''width'', ''height''}) m\<rparr>))))))))"

definition canvas_edge_of :: "string \<Rightarrow> json \<Rightarrow> canvas_edge res" where
  "canvas_edge_of path v =
     bind_res (require (MalformedInput path) (json_as_object v)) (\<lambda>m.
     bind_res (required_field path m ''id'') (\<lambda>i.
     bind_res (required_field path m ''fromNode'') (\<lambda>f.
     bind_res (required_field path m ''toNode'') (\<lambda>t.
     bind_res (typed_field path json_as_str m ''fromSide'') (\<lambda>fs.
     bind_res (typed_field path json_as_str m ''toSide'') (\<lambda>ts.
     bind_res (typed_field path json_as_str m ''label'') (\<lambda>l.
       Inr \<lparr>ce_id = i, ce_from_node = f, ce_to_node = t, ce_from_side = fs, ce_to_side = ts, ce_label = l,
         ce_unknown = filter (\<lambda>(k, _). k \<notin> {''id'', ''fromNode'', ''toNode'', ''fromSide'', ''toSide'', ''label''}) m\<rparr>)))))))"

definition members_of_array :: "(string, json) btree \<Rightarrow> string \<Rightarrow> json list" where
  "members_of_array m key = (case Option.bind (btree_get m key) json_as_array of None \<Rightarrow> [] | Some vs \<Rightarrow> vs)"

definition typed_canvas_members :: "json \<Rightarrow> string \<Rightarrow> (canvas_node list \<times> canvas_edge list) res" where
  "typed_canvas_members v path =
     bind_res (require (MalformedInput path) (json_as_object v)) (\<lambda>root.
     bind_res (try_map (canvas_node_of path) (members_of_array root ''nodes'')) (\<lambda>nodes.
     bind_res (try_map (canvas_edge_of path) (members_of_array root ''edges'')) (\<lambda>edges.
       Inr (nodes, edges))))"

definition reference_step ::
  "string \<Rightarrow> string set \<times> canvas_reference list \<Rightarrow> json \<Rightarrow> (string set \<times> canvas_reference list) res" where
  "reference_step path st v = (case st of (node_ids, references) \<Rightarrow>
     bind_res (require (MalformedInput path) (json_as_object v)) (\<lambda>m.
     bind_res (required_field path m ''id'') (\<lambda>i.
     and_then (reject (i = [] \<or> i \<in> node_ids) (MalformedInput path))
       (if Option.bind (btree_get m ''type'') json_as_str = Some ''file''
        then bind_res (required_field path m ''file'') (\<lambda>raw.
          Inr (insert i node_ids, references @ [\<lparr>cr_node_id = i, cr_raw_path = raw, cr_resolution = CanvasPending\<rparr>]))
        else Inr (insert i node_ids, references)))))"

definition canvas_file_references :: "json \<Rightarrow> string \<Rightarrow> canvas_reference list res" where
  "canvas_file_references v path =
     bind_res (require (MalformedInput path) (json_as_object v)) (\<lambda>m.
     bind_res (bind_res (typed_field path json_as_array m ''nodes'')
         (\<lambda>nodes. Inr (case nodes of None \<Rightarrow> [] | Some vs \<Rightarrow> vs))) (\<lambda>nodes.
     bind_res (typed_field path json_as_array m ''edges'') (\<lambda>_.
     bind_res (try_fold (reference_step path) ({}, []) nodes) (\<lambda>(_, references).
       Inr (sort_key cr_node_id references)))))"

definition parse_json_strict :: "parsers \<Rightarrow> bytes \<Rightarrow> json option" where
  "parse_json_strict Y b = (case json_tokens Y b of None \<Rightarrow> None
     | Some r \<Rightarrow> (case visit r of Inl e \<Rightarrow> None | Inr v \<Rightarrow> Some v))"

definition parse_canvas_json :: "parsers \<Rightarrow> string \<Rightarrow> bytes \<Rightarrow> (json \<times> canvas_reference list) res" where
  "parse_canvas_json Y path b =
     (if \<not> valid_utf8 b then Inl (MalformedInput path)
      else bind_res (require (MalformedInput path) (parse_json_strict Y b)) (\<lambda>v.
        bind_res (canvas_file_references v path) (\<lambda>refs. Inr (v, refs))))"

definition parse_canvas :: "externs \<Rightarrow> parsers \<Rightarrow> source_file \<Rightarrow> bytes \<Rightarrow> canvas res" where
  "parse_canvas E Y f b =
     bind_res (parse_canvas_json Y (sf_logical_path f) b) (\<lambda>(v, refs).
     bind_res (typed_canvas_members v (sf_logical_path f)) (\<lambda>(nodes, edges).
       Inr \<lparr>cv_canvas_id = source_pair_id E ''okc:canvas:v2'' f, cv_source_file = f, cv_value = v,
         cv_nodes = nodes, cv_edges = edges, cv_references = refs\<rparr>))"

definition parse_file ::
  "externs \<Rightarrow> parsers \<Rightarrow> compiler_policy \<Rightarrow> workspace \<times> diagnostic list \<Rightarrow> source_file \<times> bytes
     \<Rightarrow> (workspace \<times> diagnostic list) res" where
  "parse_file E Y p st entry = (case st of (ws, diagnostics) \<Rightarrow> (case entry of (f, b) \<Rightarrow>
     and_then (validate_source_path_pair E (sf_original_path f) (sf_logical_path f) (sf_path_encoding f) p)
     (case sf_kind f of
        Markdown \<Rightarrow> bind_res (parse_markdown E Y f b p) (\<lambda>(d, ds).
          Inr (ws\<lparr>ws_documents := btree_insert (ir_document_id d) d (ws_documents ws)\<rparr>, diagnostics @ ds))
      | CanvasFile \<Rightarrow> bind_res (parse_canvas E Y f b) (\<lambda>c.
          Inr (ws\<lparr>ws_canvases := btree_insert (cv_canvas_id c) c (ws_canvases ws)\<rparr>, diagnostics))
      | BaseFile \<Rightarrow>
          Inr (ws\<lparr>ws_bases := ws_bases ws @ [\<lparr>ba_base_id = source_pair_id E ''okc:base:v2'' f, ba_source_file = f\<rparr>]\<rparr>,
            diagnostics @ [for_path (sf_logical_path f) (warning OpaqueBaseUnvalidated
              ''Obsidian Base is preserved opaquely; internal references are not validated'')])
      | AssetFile \<Rightarrow>
          let i = id_from_parts E (domain ''okc:asset:v2'') [hash_bytes (sf_content_hash f)]
          in Inr (ws\<lparr>ws_assets := btree_insert i
               (case btree_get (ws_assets ws) i of None \<Rightarrow> asset_from_source i f | Some a \<Rightarrow> merge_sources [f] a)
               (ws_assets ws)\<rparr>, diagnostics))))"

end
