(* ===== verification/Links.thy ===== *)
theory Links
  imports Parse
begin

text \<open>
  Paths of the compiled vault, the string functions of \<open>crates/okc-core/src/plan.rs\<close>: the key under
  which paths collide, suffixes and truncation, relative targets and how they are followed, and the
  text of a rewritten link. Paths are validated before they come here; on those \<open>Path::parent\<close> is
  what precedes the last slash.
\<close>

section \<open>Collisions\<close>

datatype conflict_kind = PathExact | PathCasefold | UnicodeNormalization | TitleAmbiguity | AliasAmbiguity
  | FrontmatterValue | LinkAmbiguity | ContentNearDuplicate

definition portable_key :: "externs \<Rightarrow> string \<Rightarrow> string" where
  "portable_key E path = full_casefold_nfc E path"

definition classify_path_collision :: "externs \<Rightarrow> string \<Rightarrow> string \<Rightarrow> conflict_kind" where
  "classify_path_collision E existing requested =
     (if existing = requested then PathExact
      else if nfc E existing = nfc E requested then UnicodeNormalization
      else PathCasefold)"

section \<open>Suffixes and truncation\<close>

fun boundary_below :: "string \<Rightarrow> nat \<Rightarrow> nat" where
  "boundary_below s 0 = 0"
| "boundary_below s (Suc n) = (if is_char_boundary s (Suc n) then Suc n else boundary_below s n)"

definition truncate_utf8 :: "string \<Rightarrow> nat \<Rightarrow> string" where
  "truncate_utf8 s maximum = take (boundary_below s (min (length s) maximum)) s"

definition dotted :: "string option \<Rightarrow> string" where
  "dotted extension = (case extension of None \<Rightarrow> [] | Some e \<Rightarrow> CHR ''.'' # e)"

definition insert_suffix :: "string \<Rightarrow> string \<Rightarrow> nat \<Rightarrow> string" where
  "insert_suffix path mark max_component =
     (let parent = path_parent_str path;
          stem = (case path_file_stem path of None \<Rightarrow> ''file'' | Some s \<Rightarrow> s);
          extension = dotted (path_extension path);
          stem = truncate_utf8 stem (max_component - (length mark + length extension));
          name = stem @ mark @ extension
      in if parent = [] then name else parent @ ''/'' @ name)"

definition truncate_filename :: "string \<Rightarrow> nat \<Rightarrow> string" where
  "truncate_filename filename maximum =
     (if length filename \<le> maximum then filename
      else let stem = (case path_file_stem filename of None \<Rightarrow> ''asset'' | Some s \<Rightarrow> s);
               extension = dotted (path_extension filename);
               extension = (if length extension < maximum then extension else []);
               budget = maximum - length extension;
               stem = truncate_utf8 stem budget;
               stem = (if stem = [] then truncate_utf8 ''asset'' budget else stem)
           in stem @ extension)"

section \<open>Relative paths\<close>

fun strip_dot_slash :: "string \<Rightarrow> string" where
  "strip_dot_slash (a # b # s) = (if [a, b] = ''./'' then strip_dot_slash s else a # b # s)"
| "strip_dot_slash s = s"

definition forward_slashes :: "string \<Rightarrow> string" where
  "forward_slashes s = map (\<lambda>c. if c = CHR 0x5C then CHR ''/'' else c) s"

definition normalize_link_path :: "externs \<Rightarrow> string \<Rightarrow> string" where
  "normalize_link_path E path = full_casefold_nfc E (forward_slashes (strip_dot_slash path))"

definition nonempty_parts :: "string \<Rightarrow> string list" where
  "nonempty_parts s = filter (\<lambda>p. p \<noteq> []) (split_path s)"

definition parent_parts :: "string \<Rightarrow> string list" where
  "parent_parts path = nonempty_parts (path_parent_str path)"

fun follow_source :: "string list \<Rightarrow> string list \<Rightarrow> string list option" where
  "follow_source parts [] = Some parts"
| "follow_source parts (c # cs) =
     (if c = [] \<or> c = ''.'' then follow_source parts cs
      else if c = ''..'' then (if parts = [] then None else follow_source (butlast parts) cs)
      else follow_source (parts @ [c]) cs)"

definition resolve_relative_source_path :: "string \<Rightarrow> string \<Rightarrow> string option" where
  "resolve_relative_source_path current target =
     map_option join_path (follow_source (if prefix ''/'' target then [] else parent_parts current)
       (split_path (forward_slashes (dropWhile (\<lambda>c. c = CHR ''/'') target))))"

fun follow_contained :: "string list \<Rightarrow> string list \<Rightarrow> string list option" where
  "follow_contained parts [] = Some parts"
| "follow_contained parts (c # cs) =
     (if c = ''.'' then follow_contained parts cs
      else if c = [] then None
      else if c = ''..'' then (if parts = [] then None else follow_contained (butlast parts) cs)
      else follow_contained (parts @ [c]) cs)"

definition drive_prefix :: "string \<Rightarrow> bool" where
  "drive_prefix target = (case target of a # b # _ \<Rightarrow> is_ascii_alphabetic a \<and> b = CHR '':'' | _ \<Rightarrow> False)"

definition resolve_contained_relative_path :: "string \<Rightarrow> string \<Rightarrow> string option" where
  "resolve_contained_relative_path current target =
     (if target = [] \<or> prefix ''/'' target \<or> CHR 0x5C \<in> set target \<or> has_control target \<or> drive_prefix target
      then None
      else (case follow_contained (parent_parts current) (split_path target) of
          None \<Rightarrow> None
        | Some parts \<Rightarrow> if parts = [] then None else Some (join_path parts)))"

fun common_length :: "'a list \<Rightarrow> 'a list \<Rightarrow> nat" where
  "common_length (x # xs) (y # ys) = (if x = y then Suc (common_length xs ys) else 0)"
| "common_length xs ys = 0"

definition relative_output_target :: "string \<Rightarrow> string \<Rightarrow> string" where
  "relative_output_target from_path to_path =
     (let from_parent = parent_parts from_path; to_parts = nonempty_parts to_path;
          common = common_length from_parent to_parts;
          parts = replicate (length from_parent - common) ''..'' @ drop common to_parts
      in if parts = [] then (case path_file_name to_path of None \<Rightarrow> to_path | Some n \<Rightarrow> n)
         else join_path parts)"

section \<open>Link text\<close>

definition encode_byte :: "char \<Rightarrow> string" where
  "encode_byte c =
     (if c = CHR '' '' then ''%20'' else if c = CHR ''%'' then ''%25'' else if c = CHR ''#'' then ''%23''
      else if c = CHR ''('' then ''%28'' else if c = CHR '')'' then ''%29'' else if c = CHR ''<'' then ''%3C''
      else if c = CHR ''>'' then ''%3E'' else if c = CHR 0x5C then ''%5C'' else [c])"

definition encode_markdown_destination_component :: "string \<Rightarrow> string" where
  "encode_markdown_destination_component v = concat (map encode_byte v)"

definition render_link_target :: "doc_link \<Rightarrow> string \<Rightarrow> string" where
  "render_link_target l path =
     (let encode = (if lk_syntax l = MarkdownLink then encode_markdown_destination_component else (\<lambda>s. s))
      in encode path
         @ (case lk_heading l of None \<Rightarrow> [] | Some h \<Rightarrow> CHR ''#'' # encode h)
         @ (case lk_block_id l of None \<Rightarrow> [] | Some b \<Rightarrow> CHR ''^'' # encode b)
         @ (case (lk_syntax l, lk_display l) of (WikiLink, Some d) \<Rightarrow> CHR ''|'' # d | _ \<Rightarrow> []))"

end
