(* ===== verification/Dedup.thy ===== *)
theory Dedup
  imports Ir
begin

text \<open>
  Duplicate detection, \<open>crates/okc-core/src/dedup.rs\<close>: groups of documents with equal body and
  front matter, and near-duplicate candidates by MinHash signatures in LSH buckets. Grapheme
  segmentation is third-party code, the argument \<open>G\<close>. Sizes are naturals; \<open>f64\<close> values are their bits.
\<close>

section \<open>Maps of lists\<close>

text \<open>\<open>entry(k).or_default().push(v)\<close>.\<close>

definition multi_push :: "'k::linorder \<Rightarrow> 'v \<Rightarrow> ('k, 'v list) btree \<Rightarrow> ('k, 'v list) btree" where
  "multi_push k v m = btree_insert k ((case btree_get m k of None \<Rightarrow> [] | Some vs \<Rightarrow> vs) @ [v]) m"

definition multi_collect :: "('k::linorder \<times> 'v) list \<Rightarrow> ('k, 'v list) btree" where
  "multi_collect kvs = foldl (\<lambda>m (k, v). multi_push k v m) [] kvs"

section \<open>Report\<close>

record exact_group =
  eg_canonical :: document_id
  eg_members :: "document_id list"
  eg_body_hash :: content_hash
  eg_frontmatter_hash :: content_hash

record near_candidate =
  nc_left :: document_id
  nc_right :: document_id
  nc_similarity :: "64 word"

record dedup_report =
  dr_exact_groups :: "exact_group list"
  dr_near_candidates :: "near_candidate list"
  dr_truncated :: "document_id list"

section \<open>Exact duplicates\<close>

definition canonical_tuple :: "ir_document \<Rightarrow> string \<times> string \<times> snapshot_id \<times> document_id" where
  "canonical_tuple d = (sf_logical_path (ir_source_file d), source_str (sf_source_id (ir_source_file d)),
     sf_snapshot_id (ir_source_file d), ir_document_id d)"

definition exact_map :: "ir_document list \<Rightarrow> (content_hash \<times> content_hash, ir_document list) btree" where
  "exact_map docs = multi_collect (map (\<lambda>d. ((ir_body_hash d, ir_frontmatter_hash d), d)) docs)"

definition sorted_members :: "ir_document list \<Rightarrow> ir_document list" where
  "sorted_members members = sort_key canonical_tuple members"

definition exact_group_of :: "(content_hash \<times> content_hash) \<times> ir_document list \<Rightarrow> exact_group" where
  "exact_group_of entry = (case entry of ((body, frontmatter), members) \<Rightarrow>
     (let members = sorted_members members
      in \<lparr>eg_canonical = ir_document_id (hd members), eg_members = map ir_document_id members,
          eg_body_hash = body, eg_frontmatter_hash = frontmatter\<rparr>))"

definition exact_groups :: "ir_document list \<Rightarrow> exact_group list" where
  "exact_groups docs = sort_key eg_canonical
     (map exact_group_of (filter (\<lambda>(_, members). 1 < length members) (exact_map docs)))"

definition representative_of :: "ir_document list \<Rightarrow> (document_id, document_id) btree" where
  "representative_of docs = btree_collect (concat (map (\<lambda>(_, members).
     (let members = sorted_members members
      in map (\<lambda>d. (ir_document_id d, ir_document_id (hd members))) members)) (exact_map docs)))"

section \<open>Signatures\<close>

fun windows :: "nat \<Rightarrow> 'a list \<Rightarrow> 'a list list" where
  "windows n [] = []"
| "windows n (x # xs) = (if length (x # xs) < n then [] else take n (x # xs) # windows n xs)"

definition be_value :: "bytes \<Rightarrow> nat" where
  "be_value bs = foldl (\<lambda>a b. 256 * a + of_char b) 0 bs"

definition u32_bytes :: "nat \<Rightarrow> bytes" where
  "u32_bytes n = map (\<lambda>k. char_of (n div 256 ^ k mod 256)) [3, 2, 1, 0]"

definition minhash_signature :: "externs \<Rightarrow> string list \<Rightarrow> nat \<Rightarrow> nat list" where
  "minhash_signature E graphemes components =
     (let shingles = remdups (map concat (windows 5 graphemes))
      in map (\<lambda>component. foldl min (2 ^ 64 - 1)
           (map (\<lambda>shingle. be_value (take 8 (hash_bytes
              (from_parts E (domain ''okc:minhash:v2'') [u32_bytes (min component (2 ^ 32 - 1)), shingle])))) shingles))
         [0..<components])"

section \<open>Candidate pairs\<close>

definition ordered_pair :: "document_id \<Rightarrow> document_id \<Rightarrow> document_id \<times> document_id" where
  "ordered_pair left right = (if left \<le> right then (left, right) else (right, left))"

record pair_state =
  ps_pairs :: "(document_id \<times> document_id) set"
  ps_counts :: "(document_id, nat) btree"
  ps_truncated :: "document_id set"

definition count_of :: "(document_id, nat) btree \<Rightarrow> document_id \<Rightarrow> nat" where
  "count_of m d = (case btree_get m d of None \<Rightarrow> 0 | Some n \<Rightarrow> n)"

definition bump :: "document_id \<Rightarrow> (document_id, nat) btree \<Rightarrow> (document_id, nat) btree" where
  "bump d m = btree_insert d (count_of m d + 1) m"

text \<open>The inner loop of \<open>add_bounded_pairs\<close>: it stops when the left document is full and skips full right ones.\<close>

fun pair_with :: "nat \<Rightarrow> document_id \<Rightarrow> document_id list \<Rightarrow> pair_state \<Rightarrow> pair_state" where
  "pair_with limit left [] st = st"
| "pair_with limit left (right # rest) st =
     (if limit \<le> count_of (ps_counts st) left then st\<lparr>ps_truncated := insert left (ps_truncated st)\<rparr>
      else if limit \<le> count_of (ps_counts st) right
      then pair_with limit left rest (st\<lparr>ps_truncated := insert right (ps_truncated st)\<rparr>)
      else if ordered_pair left right \<in> ps_pairs st then pair_with limit left rest st
      else pair_with limit left rest (st\<lparr>ps_pairs := insert (ordered_pair left right) (ps_pairs st),
        ps_counts := bump right (bump left (ps_counts st))\<rparr>))"

fun add_bounded_pairs :: "nat \<Rightarrow> document_id list \<Rightarrow> pair_state \<Rightarrow> pair_state" where
  "add_bounded_pairs limit [] st = st"
| "add_bounded_pairs limit (left # rest) st = add_bounded_pairs limit rest (pair_with limit left rest st)"

text \<open>
  \<open>matches as f64 / components as f64\<close>: the double nearest to a quotient of at most one, ties to
  even. The shift makes the significand have 53 bits.
\<close>

fun normal_shift :: "nat \<Rightarrow> nat \<Rightarrow> nat \<Rightarrow> nat" where
  "normal_shift 0 m n = 0"
| "normal_shift (Suc fuel) m n = (if n \<le> m then 0 else Suc (normal_shift fuel (2 * m) n))"

definition f64_quotient :: "nat \<Rightarrow> nat \<Rightarrow> 64 word" where
  "f64_quotient m n = (if m = 0 then 0
     else let s = normal_shift 64 m n; scaled = m * 2 ^ (s + 52); q = scaled div n; r = scaled mod n;
              q = (if n < 2 * r \<or> (2 * r = n \<and> odd q) then q + 1 else q)
          in of_nat ((1023 - s) * 2 ^ 52 + (q - 2 ^ 52)))"

definition f64_at_least :: "64 word \<Rightarrow> 64 word \<Rightarrow> bool" where
  "f64_at_least a b \<longleftrightarrow> (case (f64_value a, f64_value b) of (Some x, Some y) \<Rightarrow> y \<le> x | _ \<Rightarrow> False)"

definition similarity :: "(document_id, nat list) btree \<Rightarrow> nat \<Rightarrow> document_id \<times> document_id \<Rightarrow> 64 word" where
  "similarity signatures components pair =
     (case (btree_get signatures (fst pair), btree_get signatures (snd pair)) of
        (Some l, Some r) \<Rightarrow> f64_quotient (length (filter (\<lambda>(x, y). x = y) (zip l r))) components
      | _ \<Rightarrow> 0x3FF0000000000000)"

text \<open>Accept the best candidates first, a bounded number per document.\<close>

definition accept_step ::
  "nat \<Rightarrow> (document_id, nat) btree \<times> near_candidate list \<times> document_id set \<Rightarrow> near_candidate
     \<Rightarrow> (document_id, nat) btree \<times> near_candidate list \<times> document_id set" where
  "accept_step limit st c = (case st of (accepted, candidates, truncated) \<Rightarrow>
     if limit \<le> count_of accepted (nc_left c) \<or> limit \<le> count_of accepted (nc_right c)
     then (accepted, candidates, insert (nc_left c) (insert (nc_right c) truncated))
     else (bump (nc_right c) (bump (nc_left c) accepted), candidates @ [c], truncated))"

definition candidate_order :: "near_candidate \<Rightarrow> int \<times> document_id \<times> document_id" where
  "candidate_order c = (- uint (nc_similarity c), nc_left c, nc_right c)"

definition signatures_of :: "externs \<Rightarrow> (string \<Rightarrow> string list) \<Rightarrow> nat \<Rightarrow> ir_document list \<Rightarrow> (document_id, nat list) btree" where
  "signatures_of E G components docs = btree_collect (List.map_filter
     (\<lambda>d. let g = G (ir_comparison_text d) in if length g < 5 then None
          else Some (ir_document_id d, minhash_signature E g components)) docs)"

definition short_texts_of :: "(string \<Rightarrow> string list) \<Rightarrow> ir_document list \<Rightarrow> (string, document_id list) btree" where
  "short_texts_of G docs = multi_collect (map (\<lambda>d. (ir_comparison_text d, ir_document_id d))
     (filter (\<lambda>d. length (G (ir_comparison_text d)) < 5) docs))"

definition buckets_of :: "(document_id, nat list) btree \<Rightarrow> nat \<Rightarrow> nat \<Rightarrow> (nat \<times> nat list, document_id list) btree" where
  "buckets_of signatures bands rows = multi_collect (concat (map (\<lambda>(d, s).
     map (\<lambda>band. ((band, take rows (drop (band * rows) s)), d)) [0..<bands]) signatures))"

definition near_candidates ::
  "externs \<Rightarrow> (string \<Rightarrow> string list) \<Rightarrow> ir_document list \<Rightarrow> dedup_policy \<Rightarrow> near_candidate list \<times> document_id list" where
  "near_candidates E G docs p =
     (let signatures = signatures_of E G (minhash_components p) docs;
          limit = max (saturating_mul_u64 (max_candidates_per_document p) 4) 1;
          members = sort (remdups (map snd (buckets_of signatures (lsh_bands p) (rows_per_band p))))
            @ map snd (short_texts_of G docs);
          st = foldl (\<lambda>st ms. add_bounded_pairs limit ms st) \<lparr>ps_pairs = {}, ps_counts = [], ps_truncated = {}\<rparr> members;
          scored = filter (\<lambda>c. f64_at_least (nc_similarity c) (near_threshold p))
            (map (\<lambda>pair. \<lparr>nc_left = fst pair, nc_right = snd pair,
                nc_similarity = similarity signatures (minhash_components p) pair\<rparr>)
              (sorted_list_of_set (ps_pairs st)));
          (_, candidates, truncated) = foldl (accept_step (max_candidates_per_document p)) ([], [], ps_truncated st)
            (sort_key candidate_order scored)
      in (candidates, sorted_list_of_set truncated))"

section \<open>Analysis\<close>

definition dedup_policy_ok :: "dedup_policy \<Rightarrow> bool" where
  "dedup_policy_ok p \<longleftrightarrow> minhash_components p \<noteq> 0 \<and> lsh_bands p \<noteq> 0 \<and> rows_per_band p \<noteq> 0 \<and>
     lsh_bands p * rows_per_band p < 2 ^ 64 \<and> lsh_bands p * rows_per_band p = minhash_components p \<and>
     minhash_components p < 2 ^ 32 \<and> f64_unit_interval (near_threshold p)"

definition analyze :: "externs \<Rightarrow> (string \<Rightarrow> string list) \<Rightarrow> ir_document list \<Rightarrow> dedup_policy \<Rightarrow> dedup_report res" where
  "analyze E G docs p =
     (if \<not> dedup_policy_ok p then Inl InvalidConfig
      else let representatives = filter (\<lambda>d. btree_get (representative_of docs) (ir_document_id d) = Some (ir_document_id d)) docs;
               (candidates, truncated) = near_candidates E G representatives p
           in Inr \<lparr>dr_exact_groups = exact_groups docs, dr_near_candidates = candidates, dr_truncated = truncated\<rparr>)"

end
