(* ===== verification/Alloc.thy ===== *)
theory Alloc
  imports Links Dedup
begin

text \<open>
  Conflicts and output paths, \<open>crates/okc-core/src/plan.rs\<close>: the sealed conflict record, the choice of
  one portable path for every representative document, asset, canvas and base, and the conflicts of
  titles, aliases and front matter. Indexing a map at a missing key panics in the code and is the error
  \<open>Internal\<close> here.
\<close>

section \<open>Conflicts\<close>

datatype conflict_resolution = ConflictUnresolved | AutoResolvedByNormativeRule | UserResolved
  | ProviderSuggested | WaivedByPolicy

datatype conflict_subject = MarkdownSubject document_id link_id string | CanvasSubject canvas_id string string

record conflict =
  cx_conflict_id :: string
  cx_content_hash :: content_hash
  cx_kind :: conflict_kind
  cx_required :: bool
  cx_subject :: "conflict_subject option"
  cx_resolution :: conflict_resolution
  cx_documents :: "document_id list"
  cx_message :: string
  cx_score :: "64 word option"

fun conflict_kind_name :: "conflict_kind \<Rightarrow> string" where
  "conflict_kind_name PathExact = ''PATH_EXACT''"
| "conflict_kind_name PathCasefold = ''PATH_CASEFOLD''"
| "conflict_kind_name UnicodeNormalization = ''UNICODE_NORMALIZATION''"
| "conflict_kind_name TitleAmbiguity = ''TITLE_AMBIGUITY''"
| "conflict_kind_name AliasAmbiguity = ''ALIAS_AMBIGUITY''"
| "conflict_kind_name FrontmatterValue = ''FRONTMATTER_VALUE''"
| "conflict_kind_name LinkAmbiguity = ''LINK_AMBIGUITY''"
| "conflict_kind_name ContentNearDuplicate = ''CONTENT_NEAR_DUPLICATE''"

fun json_of_subject :: "externs \<Rightarrow> conflict_subject \<Rightarrow> json" where
  "json_of_subject E (MarkdownSubject d l raw) = jobj [(''type'', JStr ''markdown_link''),
     (''document_id'', jid E ''doc'' d), (''link_id'', jid E ''link'' l), (''raw_target'', JStr raw)]"
| "json_of_subject E (CanvasSubject c n raw) = jobj [(''type'', JStr ''canvas_reference''),
     (''canvas_id'', jid E ''canvas'' c), (''node_id'', JStr n), (''raw_path'', JStr raw)]"

definition conflict_identity ::
  "externs \<Rightarrow> conflict_kind \<Rightarrow> bool \<Rightarrow> conflict_subject option \<Rightarrow> document_id list \<Rightarrow> string \<Rightarrow> 64 word option \<Rightarrow> json" where
  "conflict_identity E kind required subject documents message score =
     jobj [(''kind'', JStr (conflict_kind_name kind)), (''required'', JBool required),
       (''subject'', jopt (json_of_subject E) subject), (''documents'', JArr (map (jid E ''doc'') documents)),
       (''message'', JStr message), (''score'', jopt (\<lambda>s. JNum (Float s)) score)]"

definition calculate_conflict_content_hash ::
  "externs \<Rightarrow> conflict_kind \<Rightarrow> bool \<Rightarrow> conflict_subject option \<Rightarrow> document_id list \<Rightarrow> string \<Rightarrow> 64 word option
     \<Rightarrow> content_hash res" where
  "calculate_conflict_content_hash E kind required subject documents message score =
     and_then (reject (case score of None \<Rightarrow> False | Some s \<Rightarrow> \<not> f64_is_finite s) PlanStale)
       (Inr (canonical_hash E (domain ''okc:conflict:v2'')
         (conflict_identity E kind required subject documents message score)))"

definition conflict_id_of :: "externs \<Rightarrow> content_hash \<Rightarrow> string" where
  "conflict_id_of E h = ''conflict_'' @ hash_hex E h"

definition conflict_with_subject ::
  "externs \<Rightarrow> conflict_kind \<Rightarrow> bool \<Rightarrow> conflict_subject option \<Rightarrow> document_id list \<Rightarrow> string \<Rightarrow> 64 word option
     \<Rightarrow> conflict_resolution \<Rightarrow> conflict res" where
  "conflict_with_subject E kind required subject documents message score resolution =
     (let documents = remdups_adj (sort documents)
      in bind_res (calculate_conflict_content_hash E kind required subject documents message score) (\<lambda>h.
        Inr \<lparr>cx_conflict_id = conflict_id_of E h, cx_content_hash = h, cx_kind = kind, cx_required = required,
          cx_subject = subject, cx_resolution = resolution, cx_documents = documents, cx_message = message,
          cx_score = score\<rparr>))"

definition make_conflict ::
  "externs \<Rightarrow> conflict_kind \<Rightarrow> bool \<Rightarrow> document_id list \<Rightarrow> string \<Rightarrow> 64 word option \<Rightarrow> conflict_resolution \<Rightarrow> conflict res" where
  "make_conflict E kind required documents message score resolution =
     conflict_with_subject E kind required None documents message score resolution"

text \<open>\<open>Conflict::validate_integrity\<close>.\<close>

definition subject_ok :: "conflict_subject \<Rightarrow> bool" where
  "subject_ok s = (case s of
     MarkdownSubject _ _ raw \<Rightarrow> CHR 0x00 \<notin> set raw
   | CanvasSubject _ n raw \<Rightarrow> n \<noteq> [] \<and> CHR 0x00 \<notin> set n \<and> CHR 0x00 \<notin> set raw)"

definition validate_conflict :: "externs \<Rightarrow> conflict \<Rightarrow> unit res" where
  "validate_conflict E c =
     and_then (seq_checks [
       reject (list_ex (\<lambda>(a, b). b \<le> a) (adjacent (cx_documents c))) PlanStale,
       reject (CHR 0x00 \<in> set (cx_message c)) PlanStale,
       reject (case cx_subject c of None \<Rightarrow> False | Some s \<Rightarrow> \<not> subject_ok s) PlanStale])
     (bind_res (calculate_conflict_content_hash E (cx_kind c) (cx_required c) (cx_subject c) (cx_documents c)
         (cx_message c) (cx_score c)) (\<lambda>expected.
       reject (cx_content_hash c \<noteq> expected \<or> cx_conflict_id c \<noteq> conflict_id_of E expected) PlanStale))"

definition ticked :: "string \<Rightarrow> string" where
  "ticked s = [CHR 0x60] @ s @ [CHR 0x60]"

section \<open>Representatives\<close>

definition at_index :: "('k, 'v) btree \<Rightarrow> 'k \<Rightarrow> 'v res" where
  "at_index m k = require Internal (btree_get m k)"

definition representative_map :: "workspace \<Rightarrow> exact_group list \<Rightarrow> (document_id, document_id) btree" where
  "representative_map ws groups =
     foldl (\<lambda>m g. foldl (\<lambda>m d. btree_insert d (eg_canonical g) m) m (eg_members g))
       (btree_collect (map (\<lambda>d. (d, d)) (map fst (ws_documents ws)))) groups"

definition representatives :: "(document_id, document_id) btree \<Rightarrow> document_id list" where
  "representatives reps = sort (remdups (map snd reps))"

section \<open>Document paths\<close>

definition allocation_tuple :: "externs \<Rightarrow> ir_document \<Rightarrow> string \<times> string \<times> snapshot_id \<times> document_id" where
  "allocation_tuple E d = (nfc E (sf_logical_path (ir_source_file d)), source_str (sf_source_id (ir_source_file d)),
     sf_snapshot_id (ir_source_file d), ir_document_id d)"

record document_allocation =
  da_allocated :: "(string, document_id \<times> string) btree"
  da_output :: "(document_id, string) btree"
  da_conflicts :: "conflict list"

text \<open>The suffix grows from 8 to 52 characters until the path is free.\<close>

definition document_candidate :: "compiler_policy \<Rightarrow> string \<Rightarrow> document_id \<Rightarrow> nat \<Rightarrow> string" where
  "document_candidate p preferred d n = insert_suffix preferred (''~'' @ suffix_base32 d n) (max_component_bytes (limits p))"

definition free_length :: "(nat \<Rightarrow> string) \<Rightarrow> externs \<Rightarrow> (string, 'v) btree \<Rightarrow> nat list \<Rightarrow> nat option" where
  "free_length candidate E allocated lengths =
     find (\<lambda>n. btree_get allocated (portable_key E (candidate n)) = None) lengths"

definition record_document ::
  "externs \<Rightarrow> string \<Rightarrow> string \<Rightarrow> string \<Rightarrow> document_id \<Rightarrow> document_allocation \<Rightarrow> document_allocation" where
  "record_document E preferred original_request destination d st =
     st\<lparr>da_allocated := btree_insert (portable_key E destination)
          (d, if destination = preferred then original_request else destination) (da_allocated st),
        da_output := btree_insert d destination (da_output st)\<rparr>"

definition allocate_document ::
  "externs \<Rightarrow> compiler_policy \<Rightarrow> document_allocation \<Rightarrow> ir_document \<Rightarrow> document_allocation res" where
  "allocate_document E p st d =
     (let preferred = ''knowledge/'' @ sf_logical_path (ir_source_file d);
          original_request = ''knowledge/'' @ sf_original_path (ir_source_file d);
          i = ir_document_id d
      in and_then (validate_output_logical_path E preferred p)
        (case btree_get (da_allocated st) (portable_key E preferred) of
           None \<Rightarrow> Inr (record_document E preferred original_request preferred i st)
         | Some (existing, existing_original) \<Rightarrow>
             bind_res (require Internal (free_length (document_candidate p preferred i) E (da_allocated st) [8..<53])) (\<lambda>n.
             let candidate = document_candidate p preferred i n in
             bind_res (make_conflict E (classify_path_collision E existing_original original_request) False [existing, i]
               (''portable path collision at '' @ ticked preferred @ ''; allocated '' @ ticked candidate) None
               AutoResolvedByNormativeRule) (\<lambda>c.
             Inr (record_document E preferred original_request candidate i (st\<lparr>da_conflicts := da_conflicts st @ [c]\<rparr>))))))"

definition allocate_document_paths ::
  "externs \<Rightarrow> workspace \<Rightarrow> (document_id, document_id) btree \<Rightarrow> compiler_policy
     \<Rightarrow> ((document_id, string) btree \<times> conflict list) res" where
  "allocate_document_paths E ws reps p =
     bind_res (try_fold (allocate_document E p) \<lparr>da_allocated = [], da_output = [], da_conflicts = []\<rparr>
       (sort_key (allocation_tuple E) (List.map_filter (btree_get (ws_documents ws)) (representatives reps))))
       (\<lambda>st. Inr (da_output st, da_conflicts st))"

section \<open>Asset paths\<close>

definition basename_budget :: "compiler_policy \<Rightarrow> nat \<Rightarrow> nat res" where
  "basename_budget p hash_length =
     (if hash_length + 1 < max_component_bytes (limits p)
      then Inr (max_component_bytes (limits p) - (hash_length + 1)) else Inl InvalidConfig)"

definition allocate_asset ::
  "externs \<Rightarrow> compiler_policy \<Rightarrow> (asset_id, string) btree \<times> diagnostic list \<Rightarrow> asset_id \<times> asset
     \<Rightarrow> ((asset_id, string) btree \<times> diagnostic list) res" where
  "allocate_asset E p st entry = (case st of (outs, diagnostics) \<Rightarrow> (case entry of (i, a) \<Rightarrow>
     bind_res (require Internal (canonical_source a)) (\<lambda>source.
     let h = hash_hex E (sf_content_hash source) in
     bind_res (basename_budget p (length h)) (\<lambda>budget.
     let basename = truncate_filename (as_basename a) budget;
         destination = ''attachments/'' @ take 2 h @ ''/'' @ h @ ''-'' @ basename
     in and_then (validate_output_logical_path E destination p)
       (Inr (btree_insert i destination outs,
         diagnostics @ (if basename \<noteq> as_basename a
           then [for_path (sf_logical_path source) (warning PathSanitized
             (''attachment basename truncated to '' @ ticked basename @ '' for portability''))] else [])))))))"

definition allocate_asset_paths ::
  "externs \<Rightarrow> workspace \<Rightarrow> compiler_policy \<Rightarrow> ((asset_id, string) btree \<times> diagnostic list) res" where
  "allocate_asset_paths E ws p = try_fold (allocate_asset E p) ([], []) (ws_assets ws)"

section \<open>Canvas and base paths\<close>

record allocated_path =
  al_destination :: string
  al_original_request :: string

type_synonym allocated_paths = "(string, allocated_path) btree"

definition auxiliary_candidate :: "compiler_policy \<Rightarrow> string \<Rightarrow> string \<Rightarrow> nat \<Rightarrow> string" where
  "auxiliary_candidate p preferred identity_suffix n =
     insert_suffix preferred (''~'' @ take n identity_suffix) (max_component_bytes (limits p))"

text \<open>Lengths 8, 9, ... up to the whole suffix; at least one attempt is made.\<close>

definition auxiliary_lengths :: "string \<Rightarrow> nat list" where
  "auxiliary_lengths identity_suffix = [8..<max 9 (Suc (length identity_suffix))]"

definition allocate_auxiliary_path ::
  "externs \<Rightarrow> string \<Rightarrow> string \<Rightarrow> string \<Rightarrow> allocated_paths \<Rightarrow> compiler_policy
     \<Rightarrow> (string \<times> (conflict_kind \<times> string) option \<times> allocated_paths) res" where
  "allocate_auxiliary_path E preferred original_request identity_suffix allocated p =
     and_then (validate_output_logical_path E preferred p)
     (case btree_get allocated (portable_key E preferred) of
        None \<Rightarrow> Inr (preferred, None, btree_insert (portable_key E preferred)
          \<lparr>al_destination = preferred, al_original_request = original_request\<rparr> allocated)
      | Some existing \<Rightarrow>
          bind_res (require Internal (free_length (auxiliary_candidate p preferred identity_suffix) E allocated
            (auxiliary_lengths identity_suffix))) (\<lambda>n.
          let candidate = auxiliary_candidate p preferred identity_suffix n in
          and_then (validate_output_logical_path E candidate p)
            (Inr (candidate,
              Some (classify_path_collision E (al_original_request existing) original_request, al_destination existing),
              btree_insert (portable_key E candidate)
                \<lparr>al_destination = candidate, al_original_request = candidate\<rparr> allocated))))"

record 'k auxiliary_state =
  ax_allocated :: allocated_paths
  ax_output :: "('k typed_id, string) btree"
  ax_conflicts :: "conflict list"

definition allocate_artifact ::
  "externs \<Rightarrow> compiler_policy \<Rightarrow> string \<Rightarrow> string \<Rightarrow> 'k auxiliary_state \<Rightarrow> 'k typed_id \<times> string \<times> source_file
     \<Rightarrow> 'k auxiliary_state res" where
  "allocate_artifact E p directory label st entry = (case entry of (i, identity_suffix, f) \<Rightarrow>
     let preferred = directory @ sf_logical_path f; original_request = directory @ sf_original_path f in
     bind_res (allocate_auxiliary_path E preferred original_request identity_suffix (ax_allocated st) p)
       (\<lambda>(destination, collision, allocated).
     bind_res (case collision of
         None \<Rightarrow> Inr (ax_conflicts st)
       | Some (kind, existing) \<Rightarrow>
           bind_res (make_conflict E kind False []
             (''portable '' @ label @ '' path collision between '' @ ticked existing @ '' and '' @ ticked preferred
               @ ''; allocated '' @ ticked destination) None AutoResolvedByNormativeRule)
             (\<lambda>c. Inr (ax_conflicts st @ [c])))
       (\<lambda>conflicts.
     Inr \<lparr>ax_allocated = allocated, ax_output = btree_insert i destination (ax_output st), ax_conflicts = conflicts\<rparr>)))"

definition base_order :: "base_artifact \<Rightarrow> source_id \<times> string \<times> base_id" where
  "base_order b = (sf_source_id (ba_source_file b), sf_logical_path (ba_source_file b), ba_base_id b)"

definition allocated_before :: "externs \<Rightarrow> string list \<Rightarrow> allocated_paths" where
  "allocated_before E outs = btree_collect (map (\<lambda>path. (portable_key E path,
     \<lparr>al_destination = path, al_original_request = path\<rparr>)) outs)"

definition allocate_canvas_and_base_paths ::
  "externs \<Rightarrow> workspace \<Rightarrow> (document_id, string) btree \<Rightarrow> (asset_id, string) btree \<Rightarrow> compiler_policy
     \<Rightarrow> ((canvas_id, string) btree \<times> (base_id, string) btree \<times> conflict list) res" where
  "allocate_canvas_and_base_paths E ws output_paths asset_paths p =
     bind_res (try_fold (allocate_artifact E p ''canvases/'' ''Canvas'')
       \<lparr>ax_allocated = allocated_before E (map snd output_paths @ map snd asset_paths), ax_output = [], ax_conflicts = []\<rparr>
       (map (\<lambda>(i, c). (i, suffix_base32 (cv_canvas_id c) 52, cv_source_file c)) (ws_canvases ws))) (\<lambda>cs.
     bind_res (try_fold (allocate_artifact E p ''views/'' ''Base'')
       \<lparr>ax_allocated = ax_allocated cs, ax_output = [], ax_conflicts = ax_conflicts cs\<rparr>
       (map (\<lambda>b. (ba_base_id b, suffix_base32 (ba_base_id b) 52, ba_source_file b)) (sort_key base_order (ws_bases ws)))) (\<lambda>bs.
     Inr (ax_output cs, ax_output bs, ax_conflicts bs)))"

section \<open>Lookup and front matter conflicts\<close>

definition title_entries :: "externs \<Rightarrow> document_id \<Rightarrow> ir_document \<Rightarrow> (string \<times> document_id) list" where
  "title_entries E r d =
     (case ir_title d of None \<Rightarrow> [] | Some t \<Rightarrow> [(normalize_lookup_key E t, r)])
     @ (case path_file_stem (sf_logical_path (ir_source_file d)) of None \<Rightarrow> [] | Some s \<Rightarrow> [(normalize_lookup_key E s, r)])"

definition alias_entries :: "externs \<Rightarrow> document_id \<Rightarrow> ir_document \<Rightarrow> (string \<times> document_id) list" where
  "alias_entries E r d = map (\<lambda>a. (normalize_lookup_key E a, r)) (ir_aliases d)"

definition add_ambiguity_conflicts ::
  "externs \<Rightarrow> (string, document_id list) btree \<Rightarrow> conflict_kind \<Rightarrow> string \<Rightarrow> conflict list \<Rightarrow> conflict list res" where
  "add_ambiguity_conflicts E index kind label conflicts =
     try_fold (\<lambda>cs (key, documents). let documents = remdups_adj (sort documents) in
       if 1 < length documents
       then bind_res (make_conflict E kind False documents (label @ '' '' @ ticked key @ '' has multiple candidates'')
           None ConflictUnresolved) (\<lambda>c. Inr (cs @ [c]))
       else Inr cs) conflicts index"

definition add_lookup_conflicts ::
  "externs \<Rightarrow> workspace \<Rightarrow> (document_id, document_id) btree \<Rightarrow> conflict list \<Rightarrow> conflict list res" where
  "add_lookup_conflicts E ws reps conflicts =
     bind_res (try_map (\<lambda>d. bind_res (at_index reps (ir_document_id d)) (\<lambda>r. Inr (r, d))) (map snd (ws_documents ws))) (\<lambda>rds.
     bind_res (add_ambiguity_conflicts E (multi_collect (concat (map (\<lambda>(r, d). title_entries E r d) rds)))
       TitleAmbiguity ''title lookup key'' conflicts) (\<lambda>conflicts.
     add_ambiguity_conflicts E (multi_collect (concat (map (\<lambda>(r, d). alias_entries E r d) rds)))
       AliasAmbiguity ''alias lookup key'' conflicts))"

definition add_frontmatter_conflicts :: "externs \<Rightarrow> workspace \<Rightarrow> conflict list \<Rightarrow> conflict list res" where
  "add_frontmatter_conflicts E ws conflicts =
     try_fold (\<lambda>cs (_, documents).
       if 1 < length documents \<and> 1 < card (set (map ir_frontmatter_hash documents))
       then bind_res (make_conflict E FrontmatterValue False (map ir_document_id documents)
           ''equivalent bodies have differing normalized frontmatter; retaining each source-specific note''
           None AutoResolvedByNormativeRule) (\<lambda>c. Inr (cs @ [c]))
       else Inr cs)
     conflicts (multi_collect (map (\<lambda>(_, d). (ir_body_hash d, d)) (ws_documents ws)))"

text \<open>\<open>{:.6}\<close> on a finite non-negative \<open>f64\<close>: the exact value, rounded to even at the last digit.\<close>

definition round_half_even :: "rat \<Rightarrow> int" where
  "round_half_even x = (let f = \<lfloor>x\<rfloor>; r = x - of_int f in if 1 < 2 * r \<or> (2 * r = 1 \<and> odd f) then f + 1 else f)"

definition six_digits :: "nat \<Rightarrow> string" where
  "six_digits n = map (\<lambda>k. char_of (48 + n div 10 ^ k mod 10)) [5, 4, 3, 2, 1, 0]"

definition format_six :: "64 word \<Rightarrow> string" where
  "format_six w = (case f64_value w of None \<Rightarrow> ''NaN''
     | Some x \<Rightarrow> let n = nat (round_half_even (x * 1000000)) in decimal (n div 1000000) @ ''.'' @ six_digits (n mod 1000000))"

definition near_duplicate_conflict :: "externs \<Rightarrow> near_candidate \<Rightarrow> conflict res" where
  "near_duplicate_conflict E c = make_conflict E ContentNearDuplicate False [nc_left c, nc_right c]
     (''near-duplicate review candidate at '' @ format_six (nc_similarity c)) (Some (nc_similarity c)) ConflictUnresolved"

end
