(* ===== verification/Resolve.thy ===== *)
theory Resolve
  imports Alloc
begin

text \<open>
  Link resolution, \<open>resolve_links\<close> of \<open>crates/okc-core/src/plan.rs\<close>: the indices of paths and lookup
  keys, the candidates of a Markdown link or a canvas file reference, and the terminal state, conflict
  and diagnostic each of them gets.
\<close>

section \<open>Indices\<close>

record link_indices =
  li_paths :: "(source_id \<times> string, document_id list) btree"
  li_keys :: "(string, document_id list) btree"
  li_assets :: "(source_id \<times> string, asset_id) btree"
  li_targets :: "(source_id \<times> string, canvas_target list) btree"

record output_path_maps =
  op_documents :: "(document_id, string) btree"
  op_assets :: "(asset_id, string) btree"
  op_canvases :: "(canvas_id, string) btree"
  op_bases :: "(base_id, string) btree"

definition path_entry :: "externs \<Rightarrow> source_file \<Rightarrow> source_id \<times> string" where
  "path_entry E f = (sf_source_id f, normalize_link_path E (sf_logical_path f))"

definition document_representatives ::
  "workspace \<Rightarrow> (document_id, document_id) btree \<Rightarrow> (document_id \<times> ir_document) list res" where
  "document_representatives ws reps =
     try_map (\<lambda>d. bind_res (at_index reps (ir_document_id d)) (\<lambda>r. Inr (r, d))) (map snd (ws_documents ws))"

definition asset_entries :: "externs \<Rightarrow> workspace \<Rightarrow> ((source_id \<times> string) \<times> asset_id) list" where
  "asset_entries E ws = concat (map (\<lambda>(i, a). map (\<lambda>f. (path_entry E f, i)) (as_sources a)) (ws_assets ws))"

definition target_entries ::
  "externs \<Rightarrow> workspace \<Rightarrow> (source_id \<times> string, document_id list) btree \<Rightarrow> ((source_id \<times> string) \<times> canvas_target) list" where
  "target_entries E ws path_index =
     concat (map (\<lambda>(k, ds). map (\<lambda>d. (k, ToDocument d)) ds) path_index)
     @ map (\<lambda>(k, i). (k, ToAsset i)) (asset_entries E ws)
     @ map (\<lambda>(i, c). (path_entry E (cv_source_file c), ToCanvas i)) (ws_canvases ws)
     @ map (\<lambda>b. (path_entry E (ba_source_file b), ToBase (ba_base_id b))) (ws_bases ws)"

definition build_indices :: "externs \<Rightarrow> workspace \<Rightarrow> (document_id, document_id) btree \<Rightarrow> link_indices res" where
  "build_indices E ws reps =
     bind_res (document_representatives ws reps) (\<lambda>rds.
     let path_index = multi_collect (map (\<lambda>(r, d). (path_entry E (ir_source_file d), r)) rds)
     in Inr \<lparr>li_paths = path_index,
       li_keys = multi_collect (concat (map (\<lambda>(r, d). map (\<lambda>k. (k, r)) (lookup_keys E d)) rds)),
       li_assets = btree_collect (asset_entries E ws),
       li_targets = map (\<lambda>(k, ts). (k, remdups_adj (sort ts))) (multi_collect (target_entries E ws path_index))\<rparr>)"

section \<open>Candidates\<close>

definition entries_at :: "('k, 'v list) btree \<Rightarrow> 'k \<Rightarrow> 'v list" where
  "entries_at m k = (case btree_get m k of None \<Rightarrow> [] | Some vs \<Rightarrow> vs)"

text \<open>By path, by path with \<open>.md\<close> appended, by lookup key of the stem: the first that finds anything.\<close>

definition path_candidates :: "externs \<Rightarrow> (source_id \<times> string, 'v list) btree \<Rightarrow> source_id \<Rightarrow> string \<Rightarrow> 'v list" where
  "path_candidates E index source path =
     (let found = entries_at index (source, normalize_link_path E path)
      in if found = [] \<and> \<not> suffix ''.md'' (to_ascii_lowercase path)
         then entries_at index (source, normalize_link_path E (path @ ''.md'')) else found)"

definition key_candidates :: "externs \<Rightarrow> (string, document_id list) btree \<Rightarrow> string \<Rightarrow> document_id list" where
  "key_candidates E index target =
     entries_at index (normalize_lookup_key E (case path_file_stem target of None \<Rightarrow> target | Some s \<Rightarrow> s))"

definition resolve_document_candidates ::
  "externs \<Rightarrow> link_indices \<Rightarrow> source_id \<Rightarrow> string \<Rightarrow> string option \<Rightarrow> document_id list" where
  "resolve_document_candidates E ix source logical_path target = (case target of None \<Rightarrow> []
     | Some target \<Rightarrow> (case resolve_relative_source_path logical_path target of None \<Rightarrow> []
       | Some relative \<Rightarrow>
           let found = path_candidates E (li_paths ix) source relative;
               found = (if found = [] then key_candidates E (li_keys ix) target else found)
           in remdups_adj (sort found)))"

definition resolve_canvas_reference_candidates ::
  "externs \<Rightarrow> link_indices \<Rightarrow> source_id \<Rightarrow> string \<Rightarrow> string \<Rightarrow> canvas_target list" where
  "resolve_canvas_reference_candidates E ix source resolved_source_path raw_path =
     (let found = path_candidates E (li_targets ix) source resolved_source_path;
          found = (if found = [] then map ToDocument (key_candidates E (li_keys ix) raw_path) else found)
      in remdups_adj (sort found))"

definition fragment_matches :: "externs \<Rightarrow> ir_document \<Rightarrow> string option \<Rightarrow> string option \<Rightarrow> bool" where
  "fragment_matches E d heading block \<longleftrightarrow>
     (case heading of None \<Rightarrow> True | Some h \<Rightarrow> h = [] \<or>
        list_ex (\<lambda>s. normalize_lookup_key E (se_heading s) = normalize_lookup_key E h) (ir_sections d)) \<and>
     (case block of None \<Rightarrow> True | Some b \<Rightarrow> list_ex (\<lambda>x. bk_explicit_id x = Some b) (ir_blocks d))"

section \<open>Containment\<close>

definition ensure_preserved_markdown_target_is_contained :: "string \<Rightarrow> string \<Rightarrow> string \<Rightarrow> unit res" where
  "ensure_preserved_markdown_target_is_contained source_path destination path =
     reject (resolve_contained_relative_path source_path path = None
         \<or> resolve_contained_relative_path destination path = None) (UnsafePath source_path)"

definition ensure_preserved_canvas_target_is_contained :: "string \<Rightarrow> string \<Rightarrow> string \<Rightarrow> string \<Rightarrow> unit res" where
  "ensure_preserved_canvas_target_is_contained destination raw_path source_path node =
     reject (resolve_contained_relative_path source_path raw_path = None
         \<or> resolve_contained_relative_path destination raw_path = None) (UnsafePath (source_path @ ''#'' @ node))"

section \<open>Markdown links\<close>

definition link_warning :: "ir_document \<Rightarrow> document_id \<Rightarrow> string \<Rightarrow> source_span option \<Rightarrow> diagnostic" where
  "link_warning d representative message place = \<lparr>dg_code = LinkUnresolved, dg_severity = Warning, dg_message = message,
     dg_logical_path = Some (sf_logical_path (ir_source_file d)), dg_source_file_id = Some (sf_file_id (ir_source_file d)),
     dg_document_id = Some representative, dg_span = place, dg_remediation = None\<rparr>"

definition markdown_ambiguity_message :: "string \<Rightarrow> string" where
  "markdown_ambiguity_message raw = ''link '' @ ticked raw @ '' resolves to multiple documents''"

definition matching_candidates ::
  "externs \<Rightarrow> link_indices \<Rightarrow> (document_id, ir_document) btree \<Rightarrow> ir_document \<Rightarrow> doc_link \<Rightarrow> document_id list" where
  "matching_candidates E ix documents d l =
     filter (\<lambda>c. case btree_get documents c of None \<Rightarrow> False
         | Some x \<Rightarrow> fragment_matches E x (lk_heading l) (lk_block_id l))
       (resolve_document_candidates E ix (sf_source_id (ir_source_file d)) (sf_logical_path (ir_source_file d)) (lk_path l))"

definition asset_target :: "externs \<Rightarrow> link_indices \<Rightarrow> ir_document \<Rightarrow> string \<Rightarrow> asset_id option" where
  "asset_target E ix d path =
     Option.bind (resolve_relative_source_path (sf_logical_path (ir_source_file d)) path)
       (\<lambda>resolved. btree_get (li_assets ix) (sf_source_id (ir_source_file d), normalize_link_path E resolved))"

text \<open>The kept path must stay inside the source and the compiled vault.\<close>

definition preserved_path_ok :: "output_path_maps \<Rightarrow> ir_document \<Rightarrow> document_id \<Rightarrow> string \<Rightarrow> unit res" where
  "preserved_path_ok outs d representative path =
     bind_res (require PlanStale (btree_get (op_documents outs) representative)) (\<lambda>destination.
       ensure_preserved_markdown_target_is_contained (sf_logical_path (ir_source_file d)) destination path)"

definition resolve_link ::
  "externs \<Rightarrow> link_indices \<Rightarrow> (document_id, ir_document) btree \<Rightarrow> output_path_maps \<Rightarrow> document_id \<Rightarrow> ir_document
     \<Rightarrow> doc_link \<Rightarrow> (link_resolution \<times> conflict list \<times> diagnostic list) res" where
  "resolve_link E ix documents outs representative d l =
     (let candidates = matching_candidates E ix documents d l in
      if length candidates = 1 then Inr (Resolved (hd candidates), [], [])
      else if 1 < length candidates then
        and_then (case lk_path l of None \<Rightarrow> Inr () | Some path \<Rightarrow> preserved_path_ok outs d representative path)
        (bind_res (conflict_with_subject E LinkAmbiguity True
           (Some (MarkdownSubject (ir_document_id d) (lk_link_id l) (lk_raw_target l)))
           (remdups_adj (sort (representative # candidates))) (markdown_ambiguity_message (lk_raw_target l)) None
           ConflictUnresolved) (\<lambda>c. Inr (Ambiguous candidates, [c], [])))
      else (case lk_path l of
          Some path \<Rightarrow> (case asset_target E ix d path of
              Some asset \<Rightarrow> Inr (if btree_get (op_assets outs) asset \<noteq> None then ResolvedAsset asset else lk_resolution l, [], [])
            | None \<Rightarrow> and_then (preserved_path_ok outs d representative path)
                (Inr (Unresolved, [], [link_warning d representative (''unresolved link '' @ ticked (lk_raw_target l)) (Some (lk_span l))])))
        | None \<Rightarrow>
            if lk_heading l = None \<and> lk_block_id l = None then Inr (Unresolved, [], [])
            else if (case btree_get documents representative of None \<Rightarrow> False
                | Some x \<Rightarrow> fragment_matches E x (lk_heading l) (lk_block_id l))
            then Inr (Resolved representative, [], [])
            else Inr (Unresolved, [], [link_warning d representative
              (''unresolved heading/block link '' @ ticked (lk_raw_target l)) (Some (lk_span l))])))"

type_synonym notices = "conflict list \<times> diagnostic list"

definition resolve_link_step ::
  "externs \<Rightarrow> link_indices \<Rightarrow> (document_id, ir_document) btree \<Rightarrow> output_path_maps \<Rightarrow> document_id \<Rightarrow> ir_document
     \<Rightarrow> doc_link list \<times> notices \<Rightarrow> doc_link \<Rightarrow> (doc_link list \<times> notices) res" where
  "resolve_link_step E ix documents outs representative d st l = (case st of (links, conflicts, diagnostics) \<Rightarrow>
     bind_res (resolve_link E ix documents outs representative d l) (\<lambda>(resolution, cs, ds).
       Inr (links @ [l\<lparr>lk_resolution := resolution\<rparr>], conflicts @ cs, diagnostics @ ds)))"

definition resolve_document_step ::
  "externs \<Rightarrow> link_indices \<Rightarrow> (document_id, document_id) btree \<Rightarrow> (document_id, ir_document) btree \<Rightarrow> output_path_maps
     \<Rightarrow> (document_id, ir_document) btree \<times> notices \<Rightarrow> document_id \<times> ir_document
     \<Rightarrow> ((document_id, ir_document) btree \<times> notices) res" where
  "resolve_document_step E ix reps documents outs st entry = (case st of (resolved, notices) \<Rightarrow> (case entry of (k, d) \<Rightarrow>
     bind_res (at_index reps (ir_document_id d)) (\<lambda>representative.
     bind_res (try_fold (resolve_link_step E ix documents outs representative d) ([], notices) (ir_links d)) (\<lambda>(links, notices).
       Inr (resolved @ [(k, d\<lparr>ir_links := links\<rparr>)], notices)))))"

section \<open>Canvas references\<close>

definition canvas_reference_output_path :: "output_path_maps \<Rightarrow> canvas_target \<Rightarrow> string option" where
  "canvas_reference_output_path outs target = (case target of
       ToDocument i \<Rightarrow> btree_get (op_documents outs) i
     | ToAsset i \<Rightarrow> btree_get (op_assets outs) i
     | ToCanvas i \<Rightarrow> btree_get (op_canvases outs) i
     | ToBase i \<Rightarrow> btree_get (op_bases outs) i)"

definition canvas_reference_target_label :: "externs \<Rightarrow> canvas_target \<Rightarrow> string" where
  "canvas_reference_target_label E target = (case target of
       ToDocument i \<Rightarrow> display_id E ''doc'' i
     | ToAsset i \<Rightarrow> display_id E ''asset'' i
     | ToCanvas i \<Rightarrow> display_id E ''canvas'' i
     | ToBase i \<Rightarrow> display_id E ''base'' i)"

definition canvas_ambiguity_message :: "externs \<Rightarrow> canvas_id \<Rightarrow> canvas_reference \<Rightarrow> canvas_target list \<Rightarrow> string" where
  "canvas_ambiguity_message E i r candidates =
     ''Canvas '' @ display_id E ''canvas'' i @ '' file reference '' @ ticked (cr_raw_path r) @ '' at node ''
       @ ticked (cr_node_id r) @ '' resolves to multiple targets: ''
       @ join_with '', '' (map (canvas_reference_target_label E) candidates)"

definition document_targets_of :: "canvas_target list \<Rightarrow> document_id list" where
  "document_targets_of ts = List.map_filter (\<lambda>t. case t of ToDocument i \<Rightarrow> Some i | _ \<Rightarrow> None) ts"

definition canvas_warning :: "canvas \<Rightarrow> diagnostic_code \<Rightarrow> string \<Rightarrow> diagnostic" where
  "canvas_warning c code message = \<lparr>dg_code = code, dg_severity = Warning, dg_message = message,
     dg_logical_path = Some (sf_logical_path (cv_source_file c)), dg_source_file_id = Some (sf_file_id (cv_source_file c)),
     dg_document_id = None, dg_span = None, dg_remediation = None\<rparr>"

definition resolve_reference ::
  "externs \<Rightarrow> link_indices \<Rightarrow> output_path_maps \<Rightarrow> string \<Rightarrow> canvas \<Rightarrow> canvas_reference
     \<Rightarrow> (canvas_resolution \<times> conflict list \<times> diagnostic list) res" where
  "resolve_reference E ix outs destination c r =
     (let f = cv_source_file c; node_path = sf_logical_path f @ ''#'' @ cr_node_id r in
      bind_res (require (UnsafePath node_path) (resolve_relative_source_path (sf_logical_path f) (cr_raw_path r))) (\<lambda>resolved.
      let candidates = resolve_canvas_reference_candidates E ix (sf_source_id f) resolved (cr_raw_path r);
          contained = ensure_preserved_canvas_target_is_contained destination (cr_raw_path r) (sf_logical_path f) (cr_node_id r)
      in case candidates of
          [] \<Rightarrow> and_then contained (Inr (CanvasUnresolved, [], [canvas_warning c LinkUnresolved
                (''unresolved Canvas file reference '' @ ticked (cr_raw_path r))]))
        | [target] \<Rightarrow> bind_res (require Internal (canvas_reference_output_path outs target))
              (\<lambda>_. Inr (CanvasResolved target, [], []))
        | _ \<Rightarrow> and_then contained
              (let message = canvas_ambiguity_message E (cv_canvas_id c) r candidates in
               bind_res (conflict_with_subject E LinkAmbiguity True
                 (Some (CanvasSubject (cv_canvas_id c) (cr_node_id r) (cr_raw_path r))) (document_targets_of candidates)
                 message None ConflictUnresolved) (\<lambda>x.
               Inr (CanvasAmbiguous candidates, [x], [canvas_warning c DiagLinkAmbiguity message])))))"

definition resolve_reference_step ::
  "externs \<Rightarrow> link_indices \<Rightarrow> output_path_maps \<Rightarrow> string \<Rightarrow> canvas
     \<Rightarrow> canvas_reference list \<times> notices \<Rightarrow> canvas_reference \<Rightarrow> (canvas_reference list \<times> notices) res" where
  "resolve_reference_step E ix outs destination c st r = (case st of (references, conflicts, diagnostics) \<Rightarrow>
     bind_res (resolve_reference E ix outs destination c r) (\<lambda>(resolution, cs, ds).
       Inr (references @ [r\<lparr>cr_resolution := resolution\<rparr>], conflicts @ cs, diagnostics @ ds)))"

definition resolve_canvas_step ::
  "externs \<Rightarrow> link_indices \<Rightarrow> output_path_maps \<Rightarrow> (canvas_id, canvas) btree \<times> notices \<Rightarrow> canvas_id \<times> canvas
     \<Rightarrow> ((canvas_id, canvas) btree \<times> notices) res" where
  "resolve_canvas_step E ix outs st entry = (case st of (resolved, notices) \<Rightarrow> (case entry of (k, c) \<Rightarrow>
     bind_res (require Internal (btree_get (op_canvases outs) (cv_canvas_id c))) (\<lambda>destination.
     bind_res (try_fold (resolve_reference_step E ix outs destination c) ([], notices) (cv_references c)) (\<lambda>(references, notices).
       Inr (resolved @ [(k, c\<lparr>cv_references := references\<rparr>)], notices)))))"

definition resolve_links ::
  "externs \<Rightarrow> workspace \<Rightarrow> (document_id, document_id) btree \<Rightarrow> output_path_maps \<Rightarrow> notices \<Rightarrow> (workspace \<times> notices) res" where
  "resolve_links E ws reps outs notices =
     bind_res (build_indices E ws reps) (\<lambda>ix.
     bind_res (try_fold (resolve_document_step E ix reps (ws_documents ws) outs) ([], notices) (ws_documents ws)) (\<lambda>(documents, notices).
     bind_res (try_fold (resolve_canvas_step E ix outs) ([], notices) (ws_canvases ws)) (\<lambda>(canvases, notices).
       Inr (ws\<lparr>ws_documents := documents, ws_canvases := canvases\<rparr>, notices))))"

end
