(* ===== verification/Rewrite.thy ===== *)
theory Rewrite
  imports Resolve
begin

text \<open>
  Rewriting, the second half of \<open>crates/okc-core/src/plan.rs\<close>: the replacements a resolved document or
  canvas needs at its output path, rendering them into the source bytes, the reparse that checks the
  result, and the operations of the plan. The entries of a source, read again from disk, are the
  argument \<open>reread\<close>.
\<close>

section \<open>Operations\<close>

record rewrite_replacement =
  rr_span :: source_span
  rr_replacement :: string

record canvas_rewrite =
  cw_node_id :: string
  cw_original_path :: string
  cw_replacement_path :: string
  cw_target :: canvas_target

record op_source =
  os_operation_id :: operation_id
  os_source_id :: source_id
  os_snapshot_id :: snapshot_id
  os_source_path :: string
  os_destination :: string
  os_expected_hash :: content_hash

datatype output_operation = Copy op_source file_kind
  | RewriteMarkdown op_source content_hash "rewrite_replacement list"
  | RewriteCanvas op_source content_hash "canvas_rewrite list"

fun op_source_of :: "output_operation \<Rightarrow> op_source" where
  "op_source_of (Copy s _) = s"
| "op_source_of (RewriteMarkdown s _ _) = s"
| "op_source_of (RewriteCanvas s _ _) = s"

definition operation_id_of :: "output_operation \<Rightarrow> operation_id" where
  "operation_id_of x = os_operation_id (op_source_of x)"

definition destination_of :: "output_operation \<Rightarrow> string" where
  "destination_of x = os_destination (op_source_of x)"

definition hash_operation :: "externs \<Rightarrow> json list \<Rightarrow> operation_id" where
  "hash_operation E vs = TypedId (canonical_hash E (domain ''okc:operation:v2'') (JArr vs))"

definition json_of_replacement :: "rewrite_replacement \<Rightarrow> json" where
  "json_of_replacement r = jobj [(''span'', jobj [(''byte_start'', jnat (byte_start (rr_span r))),
       (''byte_end'', jnat (byte_end (rr_span r)))]), (''replacement'', JStr (rr_replacement r))]"

fun json_of_target :: "externs \<Rightarrow> canvas_target \<Rightarrow> json" where
  "json_of_target E (ToDocument i) = jobj [(''kind'', JStr ''document''), (''id'', jid E ''doc'' i)]"
| "json_of_target E (ToAsset i) = jobj [(''kind'', JStr ''asset''), (''id'', jid E ''asset'' i)]"
| "json_of_target E (ToCanvas i) = jobj [(''kind'', JStr ''canvas''), (''id'', jid E ''canvas'' i)]"
| "json_of_target E (ToBase i) = jobj [(''kind'', JStr ''base''), (''id'', jid E ''base'' i)]"

definition json_of_canvas_rewrite :: "externs \<Rightarrow> canvas_rewrite \<Rightarrow> json" where
  "json_of_canvas_rewrite E r = jobj [(''node_id'', JStr (cw_node_id r)), (''original_path'', JStr (cw_original_path r)),
     (''replacement_path'', JStr (cw_replacement_path r)), (''target'', json_of_target E (cw_target r))]"

definition copy_operation_id :: "externs \<Rightarrow> source_id \<Rightarrow> string \<Rightarrow> string \<Rightarrow> content_hash \<Rightarrow> operation_id" where
  "copy_operation_id E source path destination h = hash_operation E
     [JStr ''copy'', JStr (source_str source), JStr path, JStr destination, jhash E h]"

definition source_of_file :: "source_file \<Rightarrow> operation_id \<Rightarrow> string \<Rightarrow> op_source" where
  "source_of_file f i destination = \<lparr>os_operation_id = i, os_source_id = sf_source_id f, os_snapshot_id = sf_snapshot_id f,
     os_source_path = sf_logical_path f, os_destination = destination, os_expected_hash = sf_content_hash f\<rparr>"

definition copy_operation :: "externs \<Rightarrow> source_file \<Rightarrow> string \<Rightarrow> file_kind \<Rightarrow> output_operation" where
  "copy_operation E f destination kind = Copy (source_of_file f
     (copy_operation_id E (sf_source_id f) (sf_logical_path f) destination (sf_content_hash f)) destination) kind"

definition rewrite_operation_id ::
  "externs \<Rightarrow> string \<Rightarrow> source_file \<Rightarrow> string \<Rightarrow> content_hash \<Rightarrow> json list \<Rightarrow> operation_id" where
  "rewrite_operation_id E name f destination output_hash rewrites = hash_operation E
     [JStr name, JStr (source_str (sf_source_id f)), jid E ''snap'' (sf_snapshot_id f), JStr (sf_logical_path f),
      JStr destination, jhash E (sf_content_hash f), jhash E output_hash, JArr rewrites]"

definition markdown_rewrite_operation_id ::
  "externs \<Rightarrow> source_file \<Rightarrow> string \<Rightarrow> content_hash \<Rightarrow> rewrite_replacement list \<Rightarrow> operation_id" where
  "markdown_rewrite_operation_id E f destination output_hash rs =
     rewrite_operation_id E ''rewrite_markdown'' f destination output_hash (map json_of_replacement rs)"

definition canvas_rewrite_operation_id ::
  "externs \<Rightarrow> source_file \<Rightarrow> string \<Rightarrow> content_hash \<Rightarrow> canvas_rewrite list \<Rightarrow> operation_id" where
  "canvas_rewrite_operation_id E f destination output_hash rs =
     rewrite_operation_id E ''rewrite_canvas'' f destination output_hash (map (json_of_canvas_rewrite E) rs)"

section \<open>Markdown\<close>

text \<open>The output path a link must be rewritten to, if any.\<close>

definition link_output ::
  "output_path_maps \<Rightarrow> ir_document \<Rightarrow> string \<Rightarrow> doc_link \<Rightarrow> string option res" where
  "link_output outs d destination l = (case lk_resolution l of
       Pending \<Rightarrow> Inl PlanStale
     | Resolved target \<Rightarrow> if lk_path l = None \<and> target = ir_document_id d then Inr None
         else bind_res (require PlanStale (btree_get (op_documents outs) target)) (\<lambda>x. Inr (Some x))
     | ResolvedAsset target \<Rightarrow> bind_res (require PlanStale (btree_get (op_assets outs) target)) (\<lambda>x. Inr (Some x))
     | _ \<Rightarrow> and_then (case lk_path l of None \<Rightarrow> Inr ()
           | Some path \<Rightarrow> ensure_preserved_markdown_target_is_contained (sf_logical_path (ir_source_file d)) destination path)
         (Inr None))"

definition link_replacement ::
  "output_path_maps \<Rightarrow> ir_document \<Rightarrow> string \<Rightarrow> doc_link \<Rightarrow> rewrite_replacement list res" where
  "link_replacement outs d destination l =
     bind_res (link_output outs d destination l) (\<lambda>target. Inr (case target of None \<Rightarrow> []
       | Some target_output \<Rightarrow>
           let replacement = render_link_target l (relative_output_target destination target_output)
           in if replacement \<noteq> lk_raw_target l
              then [\<lparr>rr_span = lk_span l, rr_replacement = replacement\<rparr>] else []))"

definition span_step :: "nat \<Rightarrow> nat \<Rightarrow> rewrite_replacement \<Rightarrow> nat res" where
  "span_step source_len previous_end r =
     (if byte_start (rr_span r) < previous_end \<or> byte_end (rr_span r) \<le> byte_start (rr_span r)
        \<or> source_len < byte_end (rr_span r)
      then Inl PlanStale else Inr (byte_end (rr_span r)))"

definition validate_markdown_replacement_structure :: "nat \<Rightarrow> rewrite_replacement list \<Rightarrow> unit res" where
  "validate_markdown_replacement_structure source_len rs = done_with (try_fold (span_step source_len) 0 rs)"

definition planned_markdown_replacements :: "output_path_maps \<Rightarrow> ir_document \<Rightarrow> rewrite_replacement list res" where
  "planned_markdown_replacements outs d =
     bind_res (require PlanStale (btree_get (op_documents outs) (ir_document_id d))) (\<lambda>destination.
     bind_res (try_map (link_replacement outs d destination) (ir_links d)) (\<lambda>rss.
     let rs = sort_key (\<lambda>r. byte_start (rr_span r)) (concat rss)
     in and_then (validate_markdown_replacement_structure (sf_byte_len (ir_source_file d)) rs) (Inr rs)))"

text \<open>The loop that copies the source and substitutes the spans.\<close>

definition splice_step ::
  "ir_document \<Rightarrow> bytes \<Rightarrow> bytes \<times> nat \<Rightarrow> rewrite_replacement \<Rightarrow> (bytes \<times> nat) res" where
  "splice_step d source st r = (case st of (output, cursor) \<Rightarrow>
     bind_res (require PlanStale (find (\<lambda>l. lk_span l = rr_span r) (ir_links d))) (\<lambda>l.
     and_then (reject (rr_replacement r = lk_raw_target l) PlanStale)
       (Inr (output @ slice_bytes source cursor (byte_start (rr_span r)) @ rr_replacement r, byte_end (rr_span r)))))"

definition expected_target :: "rewrite_replacement list \<Rightarrow> doc_link \<Rightarrow> string" where
  "expected_target rs l = (case find (\<lambda>r. rr_span r = lk_span l) rs of None \<Rightarrow> lk_raw_target l | Some r \<Rightarrow> rr_replacement r)"

definition link_unchanged :: "rewrite_replacement list \<Rightarrow> doc_link \<times> doc_link \<Rightarrow> bool" where
  "link_unchanged rs pair = (case pair of (original, reparsed) \<Rightarrow>
     lk_raw_target reparsed = expected_target rs original \<and> lk_syntax reparsed = lk_syntax original \<and>
     lk_heading reparsed = lk_heading original \<and> lk_block_id reparsed = lk_block_id original \<and>
     lk_display reparsed = lk_display original \<and> lk_embed reparsed = lk_embed original)"

text \<open>Errors of the reparse become \<open>PlanStale\<close>.\<close>

definition as_stale :: "'a res \<Rightarrow> 'a res" where
  "as_stale r = (case r of Inl _ \<Rightarrow> Inl PlanStale | Inr x \<Rightarrow> Inr x)"

definition output_file :: "externs \<Rightarrow> source_file \<Rightarrow> string \<Rightarrow> bytes \<Rightarrow> source_file" where
  "output_file E f destination out =
     f\<lparr>sf_original_path := destination, sf_logical_path := destination, sf_byte_len := length out,
       sf_content_hash := from_bytes E out,
       sf_file_id := from_file E destination (media_family Markdown) (from_bytes E out)\<rparr>"

definition validate_rewritten_markdown_links ::
  "externs \<Rightarrow> parsers \<Rightarrow> compiler_policy \<Rightarrow> ir_document \<Rightarrow> string \<Rightarrow> bytes \<Rightarrow> rewrite_replacement list \<Rightarrow> unit res" where
  "validate_rewritten_markdown_links E Y p d destination out rs =
     bind_res (as_stale (parse_markdown E Y (output_file E (ir_source_file d) destination out) out p)) (\<lambda>(reparsed, _).
     and_then (reject (length (ir_links reparsed) \<noteq> length (ir_links d)) PlanStale)
       (for_each (\<lambda>pair. reject (\<not> link_unchanged rs pair) PlanStale) (zip (ir_links d) (ir_links reparsed))))"

definition render_rewritten_markdown ::
  "externs \<Rightarrow> parsers \<Rightarrow> compiler_policy \<Rightarrow> ir_document \<Rightarrow> string \<Rightarrow> bytes \<Rightarrow> rewrite_replacement list \<Rightarrow> bytes res" where
  "render_rewritten_markdown E Y p d destination source rs =
     and_then (seq_checks [
       reject (length source \<noteq> sf_byte_len (ir_source_file d) \<or> from_bytes E source \<noteq> sf_content_hash (ir_source_file d))
         IdentityMismatch,
       reject (\<not> valid_utf8 source) (MalformedInput (sf_logical_path (ir_source_file d))),
       validate_markdown_replacement_structure (sf_byte_len (ir_source_file d)) rs,
       for_each (\<lambda>l. reject (byte_end (lk_span l) < byte_start (lk_span l) \<or> length source < byte_end (lk_span l)
           \<or> slice_bytes source (byte_start (lk_span l)) (byte_end (lk_span l)) \<noteq> lk_raw_target l) PlanStale) (ir_links d)])
     (bind_res (try_fold (splice_step d source) ([], 0) rs) (\<lambda>(output, cursor).
      let out = output @ drop cursor source
      in and_then (seq_checks [reject (\<not> valid_utf8 out) PlanStale,
           validate_rewritten_markdown_links E Y p d destination out rs]) (Inr out)))"

end
