(* ===== verification/ParseFacts.thy ===== *)
theory ParseFacts
  imports Parse
begin

text \<open>
  What the parser guarantees about positions: blocks are disjoint, in order, and together contain
  every line that is not blank; links are disjoint, in order, and each is the slice of the file its
  span names.
\<close>

section \<open>Lines\<close>

lemma line_length_le: "line_length s \<le> length s"
proof -
  let ?n = "length (takeWhile (\<lambda>b. b \<noteq> CR \<and> b \<noteq> LF) s)"
  have "ending_length t \<le> length t" for t
    by (cases t; cases "tl t") (auto simp: ending_length_def)
  from this [of "drop ?n s"] show ?thesis
    using length_takeWhile_le [of "\<lambda>b. b \<noteq> CR \<and> b \<noteq> LF" s] by (simp add: line_length_def Let_def)
qed

lemma raw_lines_concat: "concat (raw_lines s) = s"
proof (induction s rule: raw_lines.induct)
  case (1 s)
  then show ?case by (simp add: raw_lines.simps [of s])
qed

lemma raw_lines_Nil [simp]: "raw_lines [] = []"
  by (simp add: raw_lines.simps)

lemma raw_lines_nonempty: "l \<in> set (raw_lines s) \<Longrightarrow> l \<noteq> []"
proof (induction s rule: raw_lines.induct)
  case (1 s)
  then show ?case using line_length_pos [of s] by (cases "s = []") (auto simp: raw_lines.simps [of s])
qed

text \<open>The lines with the offsets at which they start.\<close>

fun placed :: "nat \<Rightarrow> string list \<Rightarrow> (nat \<times> string) list" where
  "placed n [] = []"
| "placed n (l # ls) = (n, l) # placed (n + length l) ls"

lemma placed_append: "placed n (ls @ ms) = placed n ls @ placed (n + length (concat ls)) ms"
  by (induction ls arbitrary: n) (simp_all add: add.assoc)

lemma placed_bounds: "(o', l) \<in> set (placed n ls) \<Longrightarrow> n \<le> o' \<and> o' + length l \<le> n + length (concat ls) \<and> l \<in> set ls"
  by (induction ls arbitrary: n) fastforce+

section \<open>Blocks\<close>

definition nonblank :: "string \<Rightarrow> bool" where
  "nonblank line \<longleftrightarrow> trim (trim_line_ends line) \<noteq> []"

definition block_text :: "string \<Rightarrow> nat \<Rightarrow> doc_block \<Rightarrow> string" where
  "block_text body base b = slice_bytes body (byte_start (bk_span b) - base) (byte_end (bk_span b) - base)"

definition block_faithful :: "externs \<Rightarrow> string \<Rightarrow> nat \<Rightarrow> doc_block \<Rightarrow> bool" where
  "block_faithful E body base b \<longleftrightarrow> base \<le> byte_start (bk_span b) \<and> byte_start (bk_span b) < byte_end (bk_span b) \<and>
     bk_content_hash b = from_domain_bytes E (domain ''okc:block-content:v2'') (block_text body base b) \<and>
     bk_comparison_text b = normalize_text E (block_text body base b)"

definition covers :: "nat \<Rightarrow> doc_block \<Rightarrow> nat \<times> string \<Rightarrow> bool" where
  "covers base b ol \<longleftrightarrow> byte_start (bk_span b) \<le> base + fst ol \<and> base + fst ol + length (snd ol) \<le> byte_end (bk_span b)"

definition before :: "doc_block \<Rightarrow> doc_block \<Rightarrow> bool" where
  "before a b \<longleftrightarrow> byte_end (bk_span a) \<le> byte_start (bk_span b)"

text \<open>Where the text not yet in a block begins.\<close>

definition frontier :: "block_scan \<Rightarrow> nat" where
  "frontier st = (case bs_fence st of Some (_, _, s) \<Rightarrow> s
     | None \<Rightarrow> (case bs_paragraph st of Some s \<Rightarrow> s | None \<Rightarrow> bs_offset st))"

definition blocks_inv :: "externs \<Rightarrow> string \<Rightarrow> nat \<Rightarrow> nat \<Rightarrow> doc_block list \<Rightarrow> bool" where
  "blocks_inv E body base n bs \<longleftrightarrow> sorted_wrt before bs \<and>
     (\<forall>b \<in> set bs. block_faithful E body base b \<and> byte_end (bk_span b) \<le> base + n)"

definition scan_inv :: "externs \<Rightarrow> string \<Rightarrow> nat \<Rightarrow> (nat \<times> string) list \<Rightarrow> block_scan \<Rightarrow> bool" where
  "scan_inv E body base ps st \<longleftrightarrow>
     (bs_fence st \<noteq> None \<longrightarrow> bs_paragraph st = None) \<and>
     (bs_fence st \<noteq> None \<or> bs_paragraph st \<noteq> None \<longrightarrow> frontier st < bs_offset st) \<and>
     blocks_inv E body base (frontier st) (bs_blocks st) \<and>
     (\<forall>ol \<in> set ps. fst ol + length (snd ol) \<le> bs_offset st \<and>
        (nonblank (snd ol) \<longrightarrow> (\<exists>b \<in> set (bs_blocks st). covers base b ol) \<or> frontier st \<le> fst ol))"

lemma blocks_inv_push:
  assumes "blocks_inv E body base n bs" "n \<le> start" "start < stop"
  shows "blocks_inv E body base stop (push_block E d kind body base start stop bs)"
    "set (push_block E d kind body base start stop bs) \<supseteq> set bs"
    "\<exists>b \<in> set (push_block E d kind body base start stop bs). bk_span b = \<lparr>byte_start = base + start, byte_end = base + stop\<rparr>"
  using assms by (auto simp: blocks_inv_def push_block_def Let_def sorted_wrt_append before_def
      block_faithful_def block_text_def intro: order_trans)

lemma blocks_inv_mono: "blocks_inv E body base n bs \<Longrightarrow> n \<le> m \<Longrightarrow> blocks_inv E body base m bs"
  by (auto simp: blocks_inv_def)

text \<open>A block from the frontier up to the end of the lines read so far closes what was open.\<close>

lemma push_pending:
  assumes inv: "scan_inv E body base ps st" and "frontier st < stop" "bs_offset st \<le> stop"
    and st': "bs_blocks st' = push_block E d kind body base (frontier st) stop (bs_blocks st)"
    "bs_fence st' = None" "bs_paragraph st' = None" "bs_offset st' = stop"
    and ps': "\<And>ol. ol \<in> set ps' \<Longrightarrow> ol \<in> set ps \<or> frontier st \<le> fst ol \<and> fst ol + length (snd ol) \<le> stop"
  shows "scan_inv E body base ps' st'"
proof -
  note push = blocks_inv_push [of E body base "frontier st" "bs_blocks st" "frontier st" stop d kind]
  have "blocks_inv E body base (frontier st) (bs_blocks st)" using inv by (simp add: scan_inv_def)
  note p = push [OF this order_refl assms(2)]
  have new: "frontier st' = stop" using st' by (simp add: frontier_def)
  have "fst ol + length (snd ol) \<le> stop \<and> (nonblank (snd ol) \<longrightarrow> (\<exists>b \<in> set (bs_blocks st'). covers base b ol))"
    if ol: "ol \<in> set ps'" for ol
  proof (cases "frontier st \<le> fst ol \<and> fst ol + length (snd ol) \<le> stop")
    case True
    obtain b where "b \<in> set (bs_blocks st')" "bk_span b = \<lparr>byte_start = base + frontier st, byte_end = base + stop\<rparr>"
      using p(3) unfolding st'(1) by blast
    with True show ?thesis by (auto simp: covers_def intro!: bexI [of _ b])
  next
    case False
    then have "ol \<in> set ps" using ps' ol by blast
    then have "fst ol + length (snd ol) \<le> bs_offset st"
      "nonblank (snd ol) \<Longrightarrow> (\<exists>b \<in> set (bs_blocks st). covers base b ol) \<or> frontier st \<le> fst ol"
      using inv by (auto simp: scan_inv_def)
    then show ?thesis using False p(2) assms(3) unfolding st'(1) by (auto 4 3)
  qed
  then show ?thesis using p(1) by (auto simp: scan_inv_def st' new)
qed

lemma flush_inv:
  assumes inv: "scan_inv E body base ps st" and "bs_fence st = None"
  shows "scan_inv E body base ps (flush_paragraph E d body base (bs_offset st) st)"
proof (cases "bs_paragraph st")
  case (Some s)
  then have f: "frontier st = s" "s < bs_offset st" using inv assms(2) by (auto simp: frontier_def scan_inv_def)
  show ?thesis
    by (rule push_pending [OF inv, where stop = "bs_offset st" and d = d and kind = Paragraph])
      (use f Some assms(2) inv in \<open>auto simp: flush_paragraph_def scan_inv_def\<close>)
qed (use inv in \<open>simp add: flush_paragraph_def\<close>)

lemma flush_simps [simp]:
  "bs_offset (flush_paragraph E d body base n st) = bs_offset st" "bs_fence (flush_paragraph E d body base n st) = bs_fence st"
  "bs_paragraph (flush_paragraph E d body base n st) = None"
  by (auto simp: flush_paragraph_def split: option.splits)

lemma push_section_simps [simp]:
  "bs_offset (push_section E d a b l h st) = bs_offset st" "bs_fence (push_section E d a b l h st) = bs_fence st"
  "bs_paragraph (push_section E d a b l h st) = bs_paragraph st" "bs_blocks (push_section E d a b l h st) = bs_blocks st"
  by (simp_all add: push_section_def Let_def)

lemma frontier_simps [simp]:
  "bs_fence st = Some (m, k, s) \<Longrightarrow> frontier st = s"
  "bs_fence st = None \<Longrightarrow> bs_paragraph st = Some s \<Longrightarrow> frontier st = s"
  "bs_fence st = None \<Longrightarrow> bs_paragraph st = None \<Longrightarrow> frontier st = bs_offset st"
  by (simp_all add: frontier_def)

lemma section_inv: "scan_inv E body base ps (push_section E d a b l h st) = scan_inv E body base ps st"
proof -
  have "frontier (push_section E d a b l h st) = frontier st"
    by (cases "bs_fence st"; cases "bs_paragraph st") (auto simp: frontier_def)
  then show ?thesis by (simp add: scan_inv_def)
qed

text \<open>A line that leaves the open text open, or opens one at itself.\<close>

lemma scan_extend:
  assumes inv: "scan_inv E body base ps st" and "bs_blocks st' = bs_blocks st" "frontier st' = frontier st"
    "bs_offset st' = bs_offset st + length line" "frontier st \<le> bs_offset st" "line \<noteq> []"
    "bs_fence st' \<noteq> None \<longrightarrow> bs_paragraph st' = None"
  shows "scan_inv E body base (ps @ [(bs_offset st, line)]) st'"
  unfolding scan_inv_def
proof (intro conjI ballI)
  fix ol assume "ol \<in> set (ps @ [(bs_offset st, line)])"
  then consider "ol \<in> set ps" | "ol = (bs_offset st, line)" by auto
  then have "fst ol + length (snd ol) \<le> bs_offset st' \<and>
      (nonblank (snd ol) \<longrightarrow> (\<exists>b \<in> set (bs_blocks st). covers base b ol) \<or> frontier st \<le> fst ol)"
    using inv assms(4,5) unfolding scan_inv_def by cases (fastforce dest: trans_le_add1)+
  then show "fst ol + length (snd ol) \<le> bs_offset st'"
    "nonblank (snd ol) \<longrightarrow> (\<exists>b \<in> set (bs_blocks st'). covers base b ol) \<or> frontier st' \<le> fst ol"
    using assms(2,3) by simp_all
next
  show "bs_fence st' \<noteq> None \<or> bs_paragraph st' \<noteq> None \<longrightarrow> frontier st' < bs_offset st'"
    using assms(3-6) by (simp add: le_imp_less_Suc order.strict_trans1 [OF assms(5)])
qed (use inv assms in \<open>simp_all add: scan_inv_def\<close>)

lemma nonblank_Nil [simp]: "\<not> nonblank []"
  by (simp add: nonblank_def trim_line_ends_def trim_def)

text \<open>A blank line when nothing is open.\<close>

lemma scan_skip:
  assumes inv: "scan_inv E body base ps st" and "bs_fence st = None" "bs_paragraph st = None" "\<not> nonblank line"
  shows "scan_inv E body base (ps @ [(bs_offset st, line)]) (st\<lparr>bs_offset := bs_offset st + length line\<rparr>)" (is "scan_inv _ _ _ ?ps ?st")
  unfolding scan_inv_def
proof (intro conjI ballI)
  have f: "frontier st = bs_offset st" "frontier ?st = bs_offset st + length line" using assms(2,3) by simp_all
  show "blocks_inv E body base (frontier ?st) (bs_blocks ?st)"
    using inv f by (auto simp: scan_inv_def intro: blocks_inv_mono)
  fix ol assume "ol \<in> set ?ps"
  then consider "ol \<in> set ps" | "ol = (bs_offset st, line)" by auto
  then have "fst ol + length (snd ol) \<le> bs_offset st + length line \<and>
      (nonblank (snd ol) \<longrightarrow> (\<exists>b \<in> set (bs_blocks st). covers base b ol))"
  proof cases
    case 1
    then have o: "fst ol + length (snd ol) \<le> bs_offset st"
      "nonblank (snd ol) \<longrightarrow> (\<exists>b \<in> set (bs_blocks st). covers base b ol) \<or> bs_offset st \<le> fst ol"
      using inv f by (auto simp: scan_inv_def)
    moreover have "snd ol = []" if "bs_offset st \<le> fst ol"
      using o(1) that by (metis add_leD2 add_le_same_cancel1 le_zero_eq length_0_conv order_trans add_le_cancel_left nat_le_iff_add add.commute le_add1 add_leE le_antisym)
    ultimately show ?thesis by (metis nonblank_Nil trans_le_add1)
  qed (use assms(4) in simp)
  then show "fst ol + length (snd ol) \<le> bs_offset ?st"
    "nonblank (snd ol) \<longrightarrow> (\<exists>b \<in> set (bs_blocks ?st). covers base b ol) \<or> frontier ?st \<le> fst ol" by simp_all
qed (use assms in simp_all)

lemma frontier_le: "scan_inv E body base ps st \<Longrightarrow> frontier st \<le> bs_offset st"
  by (cases "bs_fence st"; cases "bs_paragraph st") (auto simp: scan_inv_def)

lemma scan_line_inv:
  assumes inv: "scan_inv E body base ps st" and line: "line \<noteq> []"
  shows "scan_inv E body base (ps @ [(bs_offset st, line)]) (scan_line E d body base st line)"
proof -
  let ?t = "trim_line_ends line"
  let ?n = "bs_offset st" and ?m = "bs_offset st + length line"
  let ?f = "flush_paragraph E d body base ?n st"
  show ?thesis
  proof (cases "bs_fence st")
    case (Some x)
    then obtain marker minimum s where x: "bs_fence st = Some (marker, minimum, s)" by (cases x) auto
    then have f: "frontier st = s" "s < ?n" "bs_paragraph st = None" using inv by (auto simp: scan_inv_def)
    show ?thesis
    proof (cases "is_closing_fence ?t marker minimum")
      case True
      then show ?thesis using f x
        by (intro push_pending [OF inv, where stop = ?m and d = d and kind = Code]) (auto simp: scan_line_def Let_def)
    next
      case False
      then show ?thesis using f x line by (intro scan_extend [OF inv]) (simp_all add: scan_line_def Let_def)
    qed
  next
    case None
    have flushed: "scan_inv E body base ps ?f" by (rule flush_inv [OF inv None])
    have ff: "frontier ?f = ?n" "bs_offset ?f = ?n" "bs_fence ?f = None" "bs_paragraph ?f = None" using None by simp_all
    show ?thesis
    proof (cases "opening_fence ?t")
      case (Some o')
      obtain marker minimum where "o' = (marker, minimum)" by fastforce
      then show ?thesis using Some None ff line
        by (intro scan_extend [OF flushed, unfolded ff(2)]) (simp_all add: scan_line_def Let_def)
    next
      case no_fence: None
      show ?thesis
      proof (cases "heading_level ?t")
        case (Some level)
        then show ?thesis using None no_fence ff line
          by (intro push_pending [OF flushed, where stop = ?m and d = d and kind = Heading])
            (auto simp: scan_line_def Let_def)
      next
        case no_heading: None
        note step = scan_line_def Let_def None no_fence no_heading
        consider "trim ?t = []" | "trim ?t \<noteq> []" "bs_paragraph st = None" | s where "trim ?t \<noteq> []" "bs_paragraph st = Some s"
          by fastforce
        then show ?thesis
        proof cases
          case 1
          then have "scan_line E d body base st line = ?f\<lparr>bs_offset := ?m\<rparr>" by (simp add: step)
          then show ?thesis using scan_skip [OF flushed ff(3,4), of line] 1 by (simp add: nonblank_def)
        next
          case 2
          then show ?thesis using None line by (intro scan_extend [OF inv]) (simp_all add: step)
        next
          case 3
          then show ?thesis using None line frontier_le [OF inv] by (intro scan_extend [OF inv]) (simp_all add: step)
        qed
      qed
    qed
  qed
qed

lemma scan_line_offset [simp]: "bs_offset (scan_line E d body base st line) = bs_offset st + length line"
  by (simp add: scan_line_def Let_def)

lemma scan_lines_inv:
  "scan_inv E body base ps st \<Longrightarrow> (\<forall>l \<in> set ls. l \<noteq> []) \<Longrightarrow>
     scan_inv E body base (ps @ placed (bs_offset st) ls) (foldl (scan_line E d body base) st ls) \<and>
     bs_offset (foldl (scan_line E d body base) st ls) = bs_offset st + length (concat ls)"
proof (induction ls arbitrary: ps st)
  case (Cons l ls)
  have "scan_inv E body base (ps @ [(bs_offset st, l)]) (scan_line E d body base st l)"
    using Cons.prems scan_line_inv by simp
  from Cons.IH [OF this] Cons.prems(2) show ?case by (simp add: add.assoc)
qed simp

lemma scan_start_inv: "scan_inv E body base [] scan_start"
  by (simp add: scan_inv_def scan_start_def blocks_inv_def)

lemma scan_end_inv:
  assumes inv: "scan_inv E body base ps st" and stop: "bs_offset st = length body"
  shows "\<exists>st'. bs_blocks st' = bs_blocks (scan_end E d body base st) \<and> scan_inv E body base ps st' \<and>
    bs_fence st' = None \<and> bs_paragraph st' = None \<and> bs_offset st' = length body"
proof (cases "bs_fence st")
  case (Some x)
  then obtain marker minimum s where x: "bs_fence st = Some (marker, minimum, s)" by (cases x) auto
  then have f: "frontier st = s" "s < length body" "bs_paragraph st = None" using inv stop by (auto simp: scan_inv_def)
  let ?st = "st\<lparr>bs_blocks := push_block E d Code body base s (length body) (bs_blocks st), bs_fence := None\<rparr>"
  have "scan_inv E body base ps ?st"
    using f stop inv by (intro push_pending [OF inv, where stop = "length body" and d = d and kind = Code])
      (auto simp: scan_inv_def)
  moreover have "bs_blocks ?st = bs_blocks (scan_end E d body base st)"
    using x f by (simp add: scan_end_def flush_paragraph_def)
  ultimately show ?thesis using f stop by (intro exI [of _ ?st]) simp
next
  case None
  then show ?thesis using flush_inv [OF inv None, of d] stop
    by (intro exI [of _ "flush_paragraph E d body base (length body) st"]) (simp add: scan_end_def)
qed

lemma scan_blocks_inv:
  "sorted_wrt before (snd (scan_blocks E d body base)) \<and>
   (\<forall>b \<in> set (snd (scan_blocks E d body base)). block_faithful E body base b \<and> byte_end (bk_span b) \<le> base + length body) \<and>
   (\<forall>ol \<in> set (placed 0 (raw_lines body)). nonblank (snd ol) \<longrightarrow>
      (\<exists>b \<in> set (snd (scan_blocks E d body base)). covers base b ol))"
proof -
  let ?st = "foldl (scan_line E d body base) scan_start (raw_lines body)"
  have start: "bs_offset scan_start = 0" by (simp add: scan_start_def)
  have "scan_inv E body base (placed 0 (raw_lines body)) ?st \<and> bs_offset ?st = length body"
    using scan_lines_inv [OF scan_start_inv, of "raw_lines body" E body base d] raw_lines_nonempty
    unfolding start by (auto simp: raw_lines_concat)
  then obtain st where st: "bs_blocks st = bs_blocks (scan_end E d body base ?st)"
    "scan_inv E body base (placed 0 (raw_lines body)) st"
    "bs_fence st = None" "bs_paragraph st = None" "bs_offset st = length body"
    using scan_end_inv by blast
  then have blocks: "snd (scan_blocks E d body base) = bs_blocks st" by (simp add: scan_blocks_def Let_def)
  have f: "frontier st = length body" using st by simp
  have "\<exists>b \<in> set (bs_blocks st). covers base b ol" if ol: "ol \<in> set (placed 0 (raw_lines body))" "nonblank (snd ol)" for ol
  proof -
    have "fst ol + length (snd ol) \<le> length body" "snd ol \<noteq> []"
      using ol placed_bounds [of "fst ol" "snd ol" 0 "raw_lines body"] raw_lines_nonempty by (auto simp: raw_lines_concat)
    then have "\<not> length body \<le> fst ol" by (cases "snd ol") auto
    then show ?thesis using st(2) ol f by (auto simp: scan_inv_def)
  qed
  then show ?thesis using st(2) f unfolding blocks by (auto simp: scan_inv_def blocks_inv_def)
qed

lemma before_exclusive:
  assumes "sorted_wrt before bs" "a \<in> set bs" "b \<in> set bs" "a \<noteq> b"
  shows "before a b \<or> before b a"
  using assms by (induction bs) auto

text \<open>
  C39: Block scanning loses and duplicates nothing: the blocks of a body are in order, disjoint and
  non-empty, each carries the hash and the normal form of exactly the bytes of its span, and every
  line that is not blank lies in exactly one block.
\<close>

theorem blocks_partition_the_text:
  assumes "scan_blocks E d body base = (sections, blocks)"
  shows "sorted_wrt before blocks \<and>
    (\<forall>b \<in> set blocks. block_faithful E body base b \<and> byte_end (bk_span b) \<le> base + length body) \<and>
    (\<forall>ol \<in> set (placed 0 (raw_lines body)). nonblank (snd ol) \<longrightarrow> (\<exists>!b. b \<in> set blocks \<and> covers base b ol))"
proof -
  have inv: "sorted_wrt before blocks"
    "\<forall>b \<in> set blocks. block_faithful E body base b \<and> byte_end (bk_span b) \<le> base + length body"
    "\<forall>ol \<in> set (placed 0 (raw_lines body)). nonblank (snd ol) \<longrightarrow> (\<exists>b \<in> set blocks. covers base b ol)"
    using scan_blocks_inv [of E d body base] assms by simp_all
  have "a = b" if "ol \<in> set (placed 0 (raw_lines body))" "a \<in> set blocks" "b \<in> set blocks" "covers base a ol" "covers base b ol" for ol a b
  proof (rule ccontr)
    assume "a \<noteq> b"
    then have "before a b \<or> before b a" using before_exclusive inv(1) that(2,3) by blast
    moreover have "snd ol \<in> set (raw_lines body)"
      using that(1) placed_bounds [of "fst ol" "snd ol" 0 "raw_lines body"] by simp
    then have "0 < length (snd ol)" using raw_lines_nonempty by blast
    ultimately show False using that(4,5) unfolding before_def covers_def by (elim disjE) linarith+
  qed
  then have "\<exists>!b. b \<in> set blocks \<and> covers base b ol" if "ol \<in> set (placed 0 (raw_lines body))" "nonblank (snd ol)" for ol
    using that inv(3) by (intro ex_ex1I) (simp add: Bex_def, blast)
  then show ?thesis using inv(1,2) by simp
qed

section \<open>Links\<close>

definition link_before :: "doc_link \<Rightarrow> doc_link \<Rightarrow> bool" where
  "link_before a b \<longleftrightarrow> byte_end (lk_span a) \<le> byte_start (lk_span b)"

text \<open>A link whose target is the slice of the text that its span names.\<close>

definition link_in :: "string \<Rightarrow> nat \<Rightarrow> nat \<Rightarrow> nat \<Rightarrow> doc_link \<Rightarrow> bool" where
  "link_in s off a b l \<longleftrightarrow> off + a \<le> byte_start (lk_span l) \<and> byte_start (lk_span l) \<le> byte_end (lk_span l) \<and>
     byte_end (lk_span l) \<le> off + b \<and> lk_resolution l = Pending \<and>
     lk_raw_target l = slice_bytes s (byte_start (lk_span l) - off) (byte_end (lk_span l) - off)"

lemma make_link_in:
  "a \<le> start \<Longrightarrow> start \<le> stop \<Longrightarrow> stop \<le> b \<Longrightarrow>
   link_in s off a b (make_link E d n sy (slice_bytes s start stop) (off + start) (off + stop) t di e)"
  by (cases t) (simp add: link_in_def make_link_def)

lemma next_wiki_in:
  assumes "next_wiki E d n line off i = Some (next, l)"
  shows "link_in line off i next l"
proof -
  obtain e start k where k: "wiki_open line i = Some (e, start)" "next = start + k + 2"
    "l = parse_wiki_link E d n (slice_bytes line start (start + k)) (off + start) (off + start + k) e"
    using assms by (auto simp: next_wiki_def split: option.splits)
  moreover have "i \<le> start" using k(1) by (auto simp: wiki_open_def split: if_splits)
  ultimately show ?thesis
    using make_link_in [of i start "start + k" "next" line off]
    by (simp add: parse_wiki_link_def add.assoc split: prod.split)
qed

lemma markdown_link_in:
  assumes "parse_inline_markdown_link E d n line off start e = Some (next, l)"
  shows "link_in line off start next l"
proof -
  from assms obtain label_end where *: "find_balanced_delimiter line start 0 CHR ''['' CHR '']'' = Some label_end"
    "byte_at line (label_end + 1) = Some CHR ''(''"
    by (auto simp: parse_inline_markdown_link_def split: option.splits if_splits)
  define cursor where "cursor = skip_whitespace line (label_end + 2)"
  define first where "first = (if byte_at line cursor = Some CHR ''<'' then cursor + 1 else cursor)"
  define stop where "stop = (if byte_at line cursor = Some CHR ''<'' then angle_target_end line first else plain_target_end line first 0)"
  obtain k where k: "find_markdown_close line (if byte_at line cursor = Some CHR ''<'' then stop + 1 else stop) None = Some k" "next = k + 1"
    "l = make_link E d n MarkdownLink (slice_bytes line first stop) (off + first) (off + stop)
       (split_markdown_target (slice_bytes line first stop)) (Some (slice_bytes line start label_end)) e"
    using assms * unfolding parse_inline_markdown_link_def
    by (auto simp: Let_def cursor_def first_def stop_def split: option.splits if_splits)
  have "start \<le> label_end" using find_balanced_bounds [OF *(1)] by simp
  moreover have "label_end + 2 \<le> cursor" by (simp add: cursor_def skip_whitespace_ge)
  moreover have "cursor \<le> first" "first \<le> stop"
    by (simp_all add: first_def stop_def angle_end_ge plain_end_ge)
  moreover have "stop \<le> k" using find_markdown_bounds [OF k(1)] by (auto split: if_splits)
  ultimately show ?thesis unfolding k(2,3) by (intro make_link_in) simp_all
qed

lemma next_markdown_in: "next_markdown E d n line off i = Some (next, l) \<Longrightarrow> link_in line off i next l"
  by (auto simp: next_markdown_def label_open_def link_in_def split: option.splits if_splits dest!: markdown_link_in)

lemma link_in_mono: "link_in s off a b l \<Longrightarrow> a' \<le> a \<Longrightarrow> b \<le> b' \<Longrightarrow> link_in s off a' b' l"
  by (auto simp: link_in_def)

text \<open>What scanning one line adds.\<close>

definition adds :: "string \<Rightarrow> nat \<Rightarrow> nat \<Rightarrow> nat \<Rightarrow> doc_link list \<Rightarrow> doc_link list \<Rightarrow> bool" where
  "adds s off a b links links' \<longleftrightarrow>
     (\<exists>new. links' = links @ new \<and> sorted_wrt link_before new \<and> (\<forall>l \<in> set new. link_in s off a b l))"

lemma adds_none: "adds s off a b links links"
  by (simp add: adds_def)

lemma adds_mono: "adds s off a b links links' \<Longrightarrow> a' \<le> a \<Longrightarrow> b \<le> b' \<Longrightarrow> adds s off a' b' links links'"
  by (auto simp: adds_def dest: link_in_mono)

lemma adds_link:
  assumes "adds s off next b (links @ [l]) links'" "link_in s off a next l" "a \<le> next" "next \<le> b"
  shows "adds s off a b links links'"
proof -
  obtain new where new: "links' = links @ l # new" "sorted_wrt link_before new" "\<forall>x \<in> set new. link_in s off next b x"
    using assms(1) by (auto simp: adds_def)
  then have "sorted_wrt link_before (l # new)" using assms(2) by (fastforce simp: link_before_def link_in_def)
  moreover have "\<forall>x \<in> set (l # new). link_in s off a b x" using new(3) assms(2-4) by (auto dest: link_in_mono)
  ultimately show ?thesis using new(1) by (auto simp: adds_def)
qed

lemma scan_inline_adds: "adds line off i (length line) links (scan_inline_links E d line off i links)"
proof (induction E d line off i links rule: scan_inline_links.induct)
  case (1 E d line off i links)
  note eq = scan_inline_links.simps [of E d line off i links]
  consider (stop) "length line \<le> i"
    | (escape) "i < length line" "line ! i = CHR 0x5C"
    | (code) "i < length line" "line ! i = CHR 0x60"
    | (other) "i < length line" "line ! i \<noteq> CHR 0x5C" "line ! i \<noteq> CHR 0x60" by fastforce
  then show ?case
  proof cases
    case stop
    then show ?thesis by (simp add: eq adds_none)
  next
    case escape
    then show ?thesis using 1(1) by (auto simp: eq elim: adds_mono)
  next
    case code
    then show ?thesis
    proof (cases "find_backtick_close line (i + run_length CHR 0x60 (drop i line)) (run_length CHR 0x60 (drop i line))")
      case None
      then have "adds line off (i + max 1 (run_length CHR 0x60 (drop i line))) (length line) links (scan_inline_links E d line off i links)"
        using 1(2,3) code None by (simp add: eq Let_def)
      then show ?thesis by (rule adds_mono) simp_all
    next
      case (Some k)
      then have "adds line off (k + max 1 (run_length CHR 0x60 (drop i line))) (length line) links (scan_inline_links E d line off i links)"
        using 1(2,3) code Some by (simp add: eq Let_def)
      then show ?thesis by (rule adds_mono) (use find_backtick_bounds [OF Some] in simp_all)
    qed
  next
    case other
    show ?thesis
    proof (cases "next_wiki E d (length links) line off i")
      case (Some r)
      then obtain nx l where r: "next_wiki E d (length links) line off i = Some (nx, l)" by (cases r) auto
      then have "adds line off nx (length line) (links @ [l]) (scan_inline_links E d line off nx (links @ [l]))"
        using 1(4,5,6) other r by simp
      then show ?thesis using other r next_wiki_in [OF r] next_wiki_advances [OF r] by (auto simp: eq intro: adds_link)
    next
      case no_wiki: None
      show ?thesis
      proof (cases "next_markdown E d (length links) line off i")
        case (Some r)
        then obtain nx l where r: "next_markdown E d (length links) line off i = Some (nx, l)" by (cases r) auto
        then have "adds line off nx (length line) (links @ [l]) (scan_inline_links E d line off nx (links @ [l]))"
          using 1(5) other no_wiki by simp
        then show ?thesis using other no_wiki r next_markdown_in [OF r] next_markdown_advances [OF r]
          by (auto simp: eq intro: adds_link)
      next
        case None
        then have "adds line off (i + 1) (length line) links (scan_inline_links E d line off i links)"
          using 1(4,5,6) other no_wiki None by (simp add: eq)
        then show ?thesis by (rule adds_mono) simp_all
      qed
    qed
  qed
qed

lemma adds_trans:
  assumes "adds s off a b L K" "adds s off b c K M" "a \<le> b" "b \<le> c"
  shows "adds s off a c L M"
proof -
  obtain m n where n: "K = L @ m" "sorted_wrt link_before m" "\<forall>l \<in> set m. link_in s off a b l"
    "M = K @ n" "sorted_wrt link_before n" "\<forall>l \<in> set n. link_in s off b c l"
    using assms(1,2) unfolding adds_def by (elim exE conjE) (rule that)
  have "link_before x y" if "x \<in> set m" "y \<in> set n" for x y
  proof -
    have "link_in s off a b x" "link_in s off b c y" using n(3,6) that by blast+
    then show ?thesis by (simp add: link_before_def link_in_def)
  qed
  then have "sorted_wrt link_before (m @ n)" using n(2,5) by (simp add: sorted_wrt_append)
  moreover have "\<forall>l \<in> set (m @ n). link_in s off a c l" using n(3,6) assms(3,4) by (auto intro: link_in_mono)
  ultimately show ?thesis unfolding adds_def n(1,4) by (intro exI [of _ "m @ n"]) simp
qed

lemma slice_context: "b \<le> length line \<Longrightarrow> slice_bytes (pre @ line @ post) (length pre + a) (length pre + b) = slice_bytes line a b"
  by (cases "a \<le> b") (simp_all add: slice_bytes_def)

lemma adds_context:
  assumes "adds line (base + length pre) 0 (length line) L L'"
  shows "adds (pre @ line @ post) base (length pre) (length pre + length line) L L'"
proof -
  have "link_in (pre @ line @ post) base (length pre) (length pre + length line) l"
    if l: "link_in line (base + length pre) 0 (length line) l" for l
  proof -
    let ?a = "byte_start (lk_span l) - (base + length pre)" and ?b = "byte_end (lk_span l) - (base + length pre)"
    have ab: "byte_start (lk_span l) - base = length pre + ?a" "byte_end (lk_span l) - base = length pre + ?b"
      "?b \<le> length line" "?a \<le> ?b" using l by (auto simp: link_in_def)
    have "slice_bytes (pre @ line @ post) (byte_start (lk_span l) - base) (byte_end (lk_span l) - base) = slice_bytes line ?a ?b"
      unfolding ab(1,2) by (rule slice_context [OF ab(3)])
    with l show ?thesis by (simp add: link_in_def)
  qed
  with assms show ?thesis by (auto simp: adds_def)
qed

lemma trim_raw_line: "\<exists>e. l = trim_raw_line_ending l @ e"
  by (auto simp: trim_raw_line_ending_def strip_suffix_Some split: option.splits)

lemma scan_links_adds:
  assumes "ls_offset st = base + length pre"
  shows "adds (pre @ concat ls @ post) base (length pre) (length pre + length (concat ls)) (ls_links st)
    (ls_links (foldl (scan_link_line E d) st ls))"
  using assms
proof (induction ls arbitrary: st pre)
  case Nil
  then show ?case by (simp add: adds_none)
next
  case (Cons l ls)
  let ?st = "scan_link_line E d st l" and ?s = "pre @ concat (l # ls) @ post"
  obtain e where e: "l = trim_raw_line_ending l @ e" using trim_raw_line by blast
  have off: "ls_offset ?st = base + length (pre @ l)" using Cons.prems by (simp add: scan_link_line_def Let_def)
  have "adds (pre @ trim_raw_line_ending l @ e @ concat ls @ post) base (length pre)
      (length pre + length (trim_raw_line_ending l)) (ls_links st) (ls_links ?st)"
    using Cons.prems adds_context [where line = "trim_raw_line_ending l" and base = base and pre = pre, OF scan_inline_adds]
    by (auto simp: scan_link_line_def Let_def adds_none split: option.splits)
  moreover have "pre @ trim_raw_line_ending l @ e @ concat ls @ post = ?s" by (subst e) simp
  moreover have "length (trim_raw_line_ending l) \<le> length l" by (subst (2) e) simp
  ultimately have here: "adds ?s base (length pre) (length pre + length l) (ls_links st) (ls_links ?st)"
    by (metis adds_mono le_refl add_le_cancel_left)
  have "adds ?s base (length pre + length l) (length pre + length (concat (l # ls))) (ls_links ?st)
      (ls_links (foldl (scan_link_line E d) st (l # ls)))"
    using Cons.IH [OF off] by (simp add: add.assoc)
  from adds_trans [OF here this] show ?case by simp
qed

lemma scan_links_in:
  "sorted_wrt link_before (scan_links E d body base) \<and> (\<forall>l \<in> set (scan_links E d body base). link_in body base 0 (length body) l)"
  using scan_links_adds [of "\<lparr>ls_offset = base, ls_fence = None, ls_links = []\<rparr>" base "[]" "raw_lines body" "[]" E d]
  by (simp add: scan_links_def raw_lines_concat adds_def)

section \<open>Documents\<close>

lemma find_frontmatter_bounds: "find_frontmatter_end n ls = Some (a, b) \<Longrightarrow> n \<le> a \<and> a \<le> b \<and> b \<le> n + length (concat ls)"
  by (induction n ls rule: find_frontmatter_end.induct) (auto split: if_splits)

lemma first_line_le: "raw_lines s = l # ls \<Longrightarrow> length l \<le> length s"
  using raw_lines_concat [of s] by (metis concat.simps(2) length_append le_add1)

lemma strip_bom: "strip_prefix bom s = Some c \<Longrightarrow> c = drop 3 s \<and> 3 \<le> length s"
  by (auto simp: strip_prefix_Some bom_def)

lemma split_frontmatter_body:
  assumes "split_frontmatter s = (raw, body, off)"
  shows "off \<le> length s \<and> body = drop off s"
proof -
  obtain pre candidate where c: "(case strip_prefix bom s of Some c \<Rightarrow> (3, c) | None \<Rightarrow> (0, s)) = (pre, candidate)"
    "pre + length candidate = length s"
    by (cases "strip_prefix bom s") (auto dest: strip_bom)
  show ?thesis
  proof (cases "raw_lines candidate")
    case Nil
    then show ?thesis using assms c by (simp add: split_frontmatter_def)
  next
    case (Cons l ls)
    then have l: "pre + length l \<le> length s" using first_line_le [OF Cons] c(2) by simp
    show ?thesis
    proof (cases "find_frontmatter_end (pre + length l) (raw_lines (drop (pre + length l) s))")
      case None
      then show ?thesis using assms c Cons by (auto simp: split_frontmatter_def Let_def split: if_splits)
    next
      case (Some ab)
      then obtain a b where ab: "find_frontmatter_end (pre + length l) (raw_lines (drop (pre + length l) s)) = Some (a, b)"
        by (cases ab) auto
      then have "b \<le> length s" using find_frontmatter_bounds [OF ab] l by (simp add: raw_lines_concat)
      then show ?thesis using assms c Cons ab by (auto simp: split_frontmatter_def Let_def split: if_splits)
    qed
  qed
qed

lemma slice_drop: "slice_bytes (drop n s) (a - n) (b - n) = slice_bytes s a b" if "n \<le> a" "n \<le> b" for n a b s
  using that by (simp add: slice_bytes_def)

lemma parse_markdown_body:
  assumes "parse_markdown E Y f b p = Inr (doc, ds)"
  obtains off where "off \<le> length b" "scan_blocks E (ir_document_id doc) (drop off b) off = (ir_sections doc, ir_blocks doc)"
    "ir_links doc = scan_links E (ir_document_id doc) (drop off b) off" "valid_utf8 b"
    "ir_source_file doc = f" "ir_comparison_text doc = normalize_text E (drop off b)"
proof -
  obtain raw body off where split: "split_frontmatter b = (raw, body, off)" by (cases "split_frontmatter b") auto
  note body = split_frontmatter_body [OF split]
  obtain fm es where fm: "parse_frontmatter E Y raw (sf_logical_path f) = Inr (fm, es)" and utf8: "valid_utf8 b"
    using assms split
    by (auto simp: parse_markdown_def and_then_def bind_res_def split: sum.splits if_splits)
  define off' where "off' = (if off = 0 \<and> strip_prefix bom body \<noteq> None then 3 else off)"
  have off': "(if off = 0 then (case strip_prefix bom body of Some c \<Rightarrow> (c, off + 3) | None \<Rightarrow> (body, off)) else (body, off)) = (drop off' b, off')"
    "off' \<le> length b"
    using body by (cases "strip_prefix bom body"; auto simp: off'_def dest: strip_bom)+
  have "scan_blocks E (ir_document_id doc) (drop off' b) off' = (ir_sections doc, ir_blocks doc) \<and>
    ir_links doc = scan_links E (ir_document_id doc) (drop off' b) off' \<and> ir_source_file doc = f \<and>
    ir_comparison_text doc = normalize_text E (drop off' b)"
    using assms split fm utf8 off'(1)
    by (auto simp: parse_markdown_def and_then_def bind_res_def Let_def split: sum.splits prod.splits)
  with that off'(2) utf8 show ?thesis by blast
qed

text \<open>
  C38: Positions in a parsed document are positions in its file: every block has the hash of exactly
  the bytes its span selects, every link's target is exactly the text of its span and is not yet
  resolved, and links, like blocks, are disjoint and in order.
\<close>

theorem spans_select_their_text:
  assumes "parse_markdown E Y f b p = Inr (doc, ds)"
  shows "(\<forall>x \<in> set (ir_blocks doc). byte_start (bk_span x) < byte_end (bk_span x) \<and> byte_end (bk_span x) \<le> length b \<and>
      bk_content_hash x = from_domain_bytes E (domain ''okc:block-content:v2'')
        (slice_bytes b (byte_start (bk_span x)) (byte_end (bk_span x)))) \<and>
    (\<forall>l \<in> set (ir_links doc). byte_start (lk_span l) \<le> byte_end (lk_span l) \<and> byte_end (lk_span l) \<le> length b \<and>
      lk_raw_target l = slice_bytes b (byte_start (lk_span l)) (byte_end (lk_span l)) \<and> lk_resolution l = Pending) \<and>
    sorted_wrt before (ir_blocks doc) \<and> sorted_wrt link_before (ir_links doc)"
proof -
  obtain off where off: "off \<le> length b" "scan_blocks E (ir_document_id doc) (drop off b) off = (ir_sections doc, ir_blocks doc)"
    "ir_links doc = scan_links E (ir_document_id doc) (drop off b) off"
    using parse_markdown_body [OF assms] by blast
  have blocks: "sorted_wrt before (ir_blocks doc)"
    "\<forall>x \<in> set (ir_blocks doc). block_faithful E (drop off b) off x \<and> byte_end (bk_span x) \<le> off + length (drop off b)"
    using scan_blocks_inv [of E "ir_document_id doc" "drop off b" off] off(2) by simp_all
  have links: "sorted_wrt link_before (ir_links doc)" "\<forall>l \<in> set (ir_links doc). link_in (drop off b) off 0 (length (drop off b)) l"
    using scan_links_in [of E "ir_document_id doc" "drop off b" off] unfolding off(3) by simp_all
  have "byte_start (bk_span x) < byte_end (bk_span x) \<and> byte_end (bk_span x) \<le> length b \<and>
      bk_content_hash x = from_domain_bytes E (domain ''okc:block-content:v2'')
        (slice_bytes b (byte_start (bk_span x)) (byte_end (bk_span x)))" if "x \<in> set (ir_blocks doc)" for x
  proof -
    have x: "block_faithful E (drop off b) off x" "byte_end (bk_span x) \<le> length b" using blocks(2) that off(1) by simp_all
    then show ?thesis using slice_drop [of off "byte_start (bk_span x)" "byte_end (bk_span x)" b]
      by (simp add: block_faithful_def block_text_def)
  qed
  moreover have "byte_start (lk_span l) \<le> byte_end (lk_span l) \<and> byte_end (lk_span l) \<le> length b \<and>
      lk_raw_target l = slice_bytes b (byte_start (lk_span l)) (byte_end (lk_span l)) \<and> lk_resolution l = Pending"
    if "l \<in> set (ir_links doc)" for l
  proof -
    have "link_in (drop off b) off 0 (length (drop off b)) l" using links(2) that by blast
    then show ?thesis using off(1) slice_drop [of off "byte_start (lk_span l)" "byte_end (lk_span l)" b]
      by (simp add: link_in_def)
  qed
  ultimately show ?thesis using blocks(1) links(1) by blast
qed

end
