(* ===== verification/LinkFacts.thy ===== *)
theory LinkFacts
  imports Links ParseFacts
begin

text \<open>
  Relative targets lead back to their path, and the text of a rewritten Markdown link is read back as
  the link it was made from exactly when the link has no block reference and an unencoded heading.
\<close>

section \<open>UTF-8 and concatenation\<close>

lemma utf8_follow_width: "utf8_follow (of_char c) = Some ranges \<Longrightarrow> utf8_width c = Suc (length ranges)"
  by (auto simp: utf8_follow_def utf8_width_def Let_def split: if_splits)

lemma utf8_follow_high:
  "utf8_follow n = Some ranges \<Longrightarrow> (lo, hi) \<in> set ranges \<Longrightarrow> 0x80 \<le> lo"
  by (auto simp: utf8_follow_def split: if_splits)

lemma char_slices_append: "valid_utf8 a \<Longrightarrow> char_slices (a @ b) = char_slices a @ char_slices b"
proof (induction a rule: valid_utf8.induct)
  case (2 c s)
  obtain ranges where r: "utf8_follow (of_char c) = Some ranges" "length ranges \<le> length s" "valid_utf8 (drop (length ranges) s)"
    using 2(2) by (auto split: option.splits)
  have w: "utf8_width c = Suc (length ranges)" by (rule utf8_follow_width [OF r(1)])
  from 2(1) [OF r(1) r(3)] r(2) show ?case by (simp add: w)
qed simp

lemma has_control_append: "valid_utf8 a \<Longrightarrow> has_control (a @ b) \<longleftrightarrow> has_control a \<or> has_control b"
  by (simp add: has_control_def chars_def char_slices_append)

lemma has_control_ascii: "of_char c < (0x80 :: nat) \<Longrightarrow> has_control (c # s) \<longleftrightarrow> is_control (of_char c) \<or> has_control s"
  by (simp add: has_control_def chars_def utf8_width_def)

text \<open>A valid string may be cut before and after an ASCII byte.\<close>

lemma valid_utf8_cut:
  "valid_utf8 (a @ c # b) \<Longrightarrow> of_char c < (0x80 :: nat) \<Longrightarrow> valid_utf8 a \<and> valid_utf8 b"
proof (induction a rule: valid_utf8.induct)
  case 1
  then show ?case by (simp add: utf8_follow_def)
next
  case (2 d s)
  obtain ranges where r: "utf8_follow (of_char d) = Some ranges" "length ranges \<le> length (s @ c # b)"
    "list_all2 (\<lambda>(lo, hi) b. lo \<le> of_char b \<and> of_char b \<le> hi) ranges (take (length ranges) (s @ c # b))"
    "valid_utf8 (drop (length ranges) (s @ c # b))"
    using 2(2) by (auto split: option.splits)
  have len: "length ranges \<le> length s"
  proof (rule ccontr)
    assume "\<not> length ranges \<le> length s"
    then have i: "length s < length ranges" by simp
    obtain lo hi where lh: "ranges ! length s = (lo, hi)" by fastforce
    have "lo \<le> of_char c"
      using list_all2_nthD [OF r(3) i] i lh by (simp add: nth_append)
    moreover have "0x80 \<le> lo" using utf8_follow_high [OF r(1), of lo hi] nth_mem [OF i] lh by simp
    ultimately show False using 2(3) lh by simp
  qed
  then have "valid_utf8 (drop (length ranges) s @ c # b)" using r(4) by simp
  with 2(1) [OF r(1)] 2(3) have "valid_utf8 (drop (length ranges) s) \<and> valid_utf8 b" by blast
  with r(1,3) len show ?case by simp
qed

lemma valid_utf8_append: "valid_utf8 a \<Longrightarrow> valid_utf8 b \<Longrightarrow> valid_utf8 (a @ b)"
proof (induction a rule: valid_utf8.induct)
  case (2 c s)
  obtain ranges where r: "utf8_follow (of_char c) = Some ranges" "length ranges \<le> length s"
    "list_all2 (\<lambda>(lo, hi) b. lo \<le> of_char b \<and> of_char b \<le> hi) ranges (take (length ranges) s)"
    "valid_utf8 (drop (length ranges) s)"
    using 2(2) by (auto split: option.splits)
  from 2(1) [OF r(1) r(4) 2(3)] r show ?case by simp
qed simp

lemma valid_utf8_pieces:
  "valid_utf8 s \<Longrightarrow> of_char c < (0x80 :: nat) \<Longrightarrow> p \<in> set (split_on c s) \<Longrightarrow> valid_utf8 p"
proof (induction "length s" arbitrary: s rule: less_induct)
  case less
  show ?case
  proof (cases "c \<in> set s")
    case False
    then show ?thesis using less.prems by (simp add: split_on_no_sep)
  next
    case True
    then obtain a b where ab: "s = a @ c # b" "c \<notin> set a" by (meson split_list_first)
    then have "valid_utf8 a" "valid_utf8 b" using valid_utf8_cut [of a c b] less.prems by blast+
    then show ?thesis using less.hyps [of b] less.prems ab by (auto simp: split_on_append)
  qed
qed

section \<open>Targets lead back\<close>

lemma common_length_take: "take (common_length xs ys) xs = take (common_length xs ys) ys \<and> common_length xs ys \<le> length xs \<and>
    common_length xs ys \<le> length ys"
  by (induction xs ys rule: common_length.induct) auto

lemma common_length_full: "common_length xs ys = length xs \<Longrightarrow> take (length xs) ys = xs"
  by (induction xs ys rule: common_length.induct) (auto split: if_splits)

lemma follow_up: "follow_contained parts (replicate n ''..'' @ cs) =
    (if n \<le> length parts then follow_contained (take (length parts - n) parts) cs else None)"
proof (induction n arbitrary: parts)
  case (Suc n)
  then show ?case by (cases parts rule: rev_cases) (auto simp: take_butlast butlast_take)
qed simp

definition plain_part :: "string \<Rightarrow> bool" where
  "plain_part p \<longleftrightarrow> p \<noteq> [] \<and> p \<noteq> ''.'' \<and> p \<noteq> ''..''"

lemma follow_down: "\<forall>c \<in> set cs. plain_part c \<Longrightarrow> follow_contained parts cs = Some (parts @ cs)"
  by (induction cs arbitrary: parts) (auto simp: plain_part_def)

text \<open>What validation gives: plain pieces without controls, back slashes and drive letters.\<close>

lemma forbidden_ascii:
  assumes "valid_utf8 p" "c \<in> set p" "of_char c < (0x80 :: nat)"
  shows "of_char c \<in> set (chars p)"
proof -
  obtain a b where "p = a @ c # b" using assms(2) by (meson split_list)
  moreover have "valid_utf8 a" using assms calculation valid_utf8_cut by blast
  ultimately have "char_slices p = char_slices a @ [c] # char_slices b"
    using assms(3) by (simp add: char_slices_append utf8_width_def)
  then show ?thesis by (simp add: chars_def)
qed

lemma portable_parts:
  assumes "portable_path E p path" "valid_utf8 path" "c \<in> set (split_path path)"
  shows "plain_part c" "\<not> has_control c" "CHR '':'' \<notin> set c" "CHR 0x5C \<notin> set c" "valid_utf8 c" "CHR ''/'' \<notin> set c" "CHR ''|'' \<notin> set c"
proof -
  have ok: "component_ok p c" using assms(1,3) by (simp add: portable_path_def)
  have v: "valid_utf8 c" using valid_utf8_pieces [OF assms(2), of "CHR ''/''" c] assms(3) by (simp add: split_path_def)
  have bad: "\<not> forbidden_scalar n" if "n \<in> set (chars c)" for n
    using component_okD(5) [OF ok] that by (auto simp: list_ex_iff)
  show "plain_part c" using component_okD(1-3) [OF ok] by (simp add: plain_part_def)
  show "\<not> has_control c" using bad by (auto simp: has_control_def list_ex_iff forbidden_scalar_def)
  have no: "d \<notin> set c" if "of_char d < (0x80 :: nat)" "forbidden_scalar (of_char d)" for d
    using forbidden_ascii [OF v _ that(1)] bad that(2) by blast
  show "CHR '':'' \<notin> set c" "CHR 0x5C \<notin> set c" "CHR ''|'' \<notin> set c"
    by (rule no; simp add: forbidden_scalar_def)+
  show "valid_utf8 c" by (rule v)
  show "CHR ''/'' \<notin> set c" by (rule split_path_pieces [OF assms(3)])
qed

lemma nonempty_parts_plain: "plain_path s \<Longrightarrow> nonempty_parts s = split_path s"
  by (auto simp: nonempty_parts_def plain_path_def intro: filter_True)

lemma rsplit_once_at: "c \<notin> set b \<Longrightarrow> rsplit_once c (a @ c # b) = Some (a, b)"
  by (induction a) (simp_all add: rsplit_once_None [THEN iffD2])

lemma join_with_snoc: "as \<noteq> [] \<Longrightarrow> join_with sep (as @ [b]) = join_with sep as @ sep @ b"
  by (induction sep as rule: join_with.induct) (auto simp: join_with_Cons)

lemma path_parent_split:
  assumes "split_path s = as @ [b]" "as \<noteq> []"
  shows "path_parent_str s = join_path as"
proof -
  have "s = join_path as @ CHR ''/'' # b"
    using join_path_split [of s] assms by (simp add: join_path_def join_with_snoc)
  moreover have "CHR ''/'' \<notin> set b" using split_path_pieces [of b s] assms(1) by simp
  ultimately show ?thesis by (simp add: path_parent_str_def rsplit_once_at)
qed

lemma plain_path_join:
  "ps \<noteq> [] \<Longrightarrow> \<forall>p \<in> set ps. plain_part p \<and> CHR ''/'' \<notin> set p \<Longrightarrow> plain_path (join_path ps)"
  by (auto simp: plain_path_def split_path_join plain_part_def)

lemma parent_parts_plain: "plain_path s \<Longrightarrow> parent_parts s = butlast (split_path s)"
proof (cases "split_path s" rule: rev_cases)
  case (snoc as b)
  assume s: "plain_path s"
  show ?thesis
  proof (cases "as = []")
    case True
    with snoc join_path_split [of s] have "s = b" by (simp add: join_path_def)
    moreover have "CHR ''/'' \<notin> set b" using split_path_pieces [of b s] snoc by simp
    ultimately have "path_parent_str s = []" by (simp add: path_parent_str_def rsplit_once_None [THEN iffD2])
    then show ?thesis using True snoc by (simp add: parent_parts_def nonempty_parts_def split_path_def)
  next
    case False
    have parts: "\<forall>p \<in> set as. plain_part p \<and> CHR ''/'' \<notin> set p"
      using s snoc split_path_pieces [of _ s] by (auto simp: plain_path_def plain_part_def)
    then have "nonempty_parts (join_path as) = as"
      using False plain_path_join [OF False parts] by (simp add: nonempty_parts_plain split_path_join)
    then show ?thesis by (simp add: parent_parts_def path_parent_split [OF snoc False] snoc)
  qed
qed simp

section \<open>The round trip of a relative target\<close>

definition target_parts :: "string list \<Rightarrow> string list \<Rightarrow> string list" where
  "target_parts from_parent to_parts =
     (let n = common_length from_parent to_parts in replicate (length from_parent - n) ''..'' @ drop n to_parts)"

lemma target_parts_follow:
  assumes "\<forall>c \<in> set to_parts. plain_part c"
  shows "follow_contained from_parent (target_parts from_parent to_parts) = Some to_parts"
proof -
  let ?n = "common_length from_parent to_parts"
  have n: "take ?n from_parent = take ?n to_parts" "?n \<le> length from_parent" using common_length_take by blast+
  have "\<forall>c \<in> set (drop ?n to_parts). plain_part c" using assms by (meson in_set_dropD)
  then show ?thesis using n by (simp add: target_parts_def Let_def follow_up follow_down)
qed

lemma target_parts_empty: "target_parts from_parent to_parts = [] \<Longrightarrow> from_parent = to_parts"
proof -
  let ?n = "common_length from_parent to_parts"
  assume "target_parts from_parent to_parts = []"
  then have "length from_parent \<le> ?n" "length to_parts \<le> ?n" by (simp_all add: target_parts_def Let_def)
  then show ?thesis using common_length_take [of from_parent to_parts] by simp
qed

lemma relative_output_target_parts:
  assumes "plain_path from_path" "plain_path to_path" "butlast (split_path from_path) \<noteq> split_path to_path"
  shows "relative_output_target from_path to_path = join_path (target_parts (butlast (split_path from_path)) (split_path to_path))"
    "target_parts (butlast (split_path from_path)) (split_path to_path) \<noteq> []"
  using target_parts_empty assms by (auto simp: relative_output_target_def parent_parts_plain nonempty_parts_plain target_parts_def Let_def)

lemma has_control_join:
  "\<forall>p \<in> set ps. valid_utf8 p \<and> \<not> has_control p \<Longrightarrow> \<not> has_control (join_path ps) \<and> valid_utf8 (join_path ps)"
proof (induction ps)
  case (Cons p ps)
  show ?case
  proof (cases "ps = []")
    case False
    then have join: "join_path (p # ps) = p @ CHR ''/'' # join_path ps" by (simp add: join_path_def join_with_Cons)
    have "valid_utf8 (CHR ''/'' # join_path ps)" using Cons by (simp add: utf8_follow_def)
    moreover have "\<not> has_control (CHR ''/'' # join_path ps)" using Cons by (simp add: has_control_ascii is_control_def)
    ultimately show ?thesis using Cons.prems by (simp add: join has_control_append valid_utf8_append)
  qed (use Cons in \<open>simp add: join_path_def\<close>)
qed (simp add: join_path_def has_control_def chars_def)

lemma set_join: "c \<in> set (join_path ps) \<Longrightarrow> c = CHR ''/'' \<or> (\<exists>p \<in> set ps. c \<in> set p)"
  unfolding join_path_def by (induction "''/''" ps rule: join_with.induct) auto

definition clean_part :: "string \<Rightarrow> bool" where
  "clean_part c \<longleftrightarrow> valid_utf8 c \<and> \<not> has_control c \<and> CHR '':'' \<notin> set c \<and> CHR 0x5C \<notin> set c \<and> CHR ''/'' \<notin> set c
     \<and> CHR ''|'' \<notin> set c \<and> c \<noteq> []"

lemma target_parts_clean:
  assumes "\<forall>c \<in> set to_parts. clean_part c" "c \<in> set (target_parts from_parent to_parts)"
  shows "clean_part c"
proof -
  have "clean_part ''..''"
    by (simp add: clean_part_def utf8_follow_def has_control_def chars_def utf8_width_def is_control_def)
  then show ?thesis using assms by (auto simp: target_parts_def Let_def dest: in_set_dropD)
qed

text \<open>What is joined from clean parts passes the guards of \<open>resolve_contained_relative_path\<close>.\<close>

lemma clean_join:
  assumes "ps \<noteq> []" "\<forall>p \<in> set ps. clean_part p"
  shows "join_path ps \<noteq> []" "\<not> prefix ''/'' (join_path ps)" "CHR 0x5C \<notin> set (join_path ps)"
    "\<not> has_control (join_path ps)" "valid_utf8 (join_path ps)" "\<not> drive_prefix (join_path ps)"
    "split_path (join_path ps) = ps" "CHR '':'' \<notin> set (join_path ps)" "CHR ''|'' \<notin> set (join_path ps)"
proof -
  have no: "c \<notin> set (join_path ps)" if "c \<noteq> CHR ''/''" "\<forall>p \<in> set ps. c \<notin> set p" for c
    using that set_join by blast
  show colon: "CHR '':'' \<notin> set (join_path ps)" and "CHR 0x5C \<notin> set (join_path ps)" "CHR ''|'' \<notin> set (join_path ps)"
    using no assms(2) by (simp_all add: clean_part_def)
  then show "\<not> drive_prefix (join_path ps)" by (auto simp: drive_prefix_def split: list.splits)
  show "\<not> has_control (join_path ps)" "valid_utf8 (join_path ps)"
    using has_control_join [of ps] assms(2) by (simp_all add: clean_part_def)
  show "split_path (join_path ps) = ps" using assms by (simp add: split_path_join clean_part_def)
  obtain p qs where ps: "ps = p # qs" using assms(1) by (cases ps) auto
  then obtain c p' where "p = c # p'" "c \<noteq> CHR ''/''" using assms(2) by (cases p) (auto simp: clean_part_def)
  then have "\<exists>t. join_path ps = c # t" by (cases qs) (simp_all add: ps join_path_def)
  then show "join_path ps \<noteq> []" "\<not> prefix ''/'' (join_path ps)" using \<open>c \<noteq> _\<close> by auto
qed

lemma portable_clean:
  "portable_path E p path \<Longrightarrow> valid_utf8 path \<Longrightarrow> \<forall>c \<in> set (split_path path). clean_part c \<and> plain_part c"
  using portable_parts [of E p path] by (auto simp: clean_part_def plain_part_def)

lemma relative_target_guards:
  assumes "portable_path E p from_path" "portable_path E p to_path" "valid_utf8 to_path"
    "butlast (split_path from_path) \<noteq> split_path to_path"
  obtains ps where "relative_output_target from_path to_path = join_path ps" "ps \<noteq> []" "\<forall>c \<in> set ps. clean_part c"
    "follow_contained (butlast (split_path from_path)) ps = Some (split_path to_path)"
proof -
  have plain: "plain_path from_path" "plain_path to_path" using assms portable_path_plain by blast+
  have to: "\<forall>c \<in> set (split_path to_path). clean_part c \<and> plain_part c" by (rule portable_clean [OF assms(2,3)])
  show thesis
  proof (rule that)
    show "relative_output_target from_path to_path = join_path (target_parts (butlast (split_path from_path)) (split_path to_path))"
      "target_parts (butlast (split_path from_path)) (split_path to_path) \<noteq> []"
      by (rule relative_output_target_parts [OF plain assms(4)])+
    show "\<forall>c \<in> set (target_parts (butlast (split_path from_path)) (split_path to_path)). clean_part c"
      using target_parts_clean to by blast
    show "follow_contained (butlast (split_path from_path)) (target_parts (butlast (split_path from_path)) (split_path to_path))
        = Some (split_path to_path)"
      using to by (simp add: target_parts_follow)
  qed
qed

text \<open>
  A relative target leads back: following the target computed from one validated output path to
  another arrives at that path and never leaves the vault.
\<close>

lemma relative_target_leads_back:
  assumes "portable_path E p from_path" "portable_path E p to_path" "valid_utf8 to_path"
    "butlast (split_path from_path) \<noteq> split_path to_path"
  shows "resolve_contained_relative_path from_path (relative_output_target from_path to_path) = Some to_path"
proof -
  obtain ps where ps: "relative_output_target from_path to_path = join_path ps" "ps \<noteq> []" "\<forall>c \<in> set ps. clean_part c"
    "follow_contained (butlast (split_path from_path)) ps = Some (split_path to_path)"
    by (rule relative_target_guards [OF assms])
  have "plain_path from_path" by (rule portable_path_plain [OF assms(1)])
  then show ?thesis
    using clean_join [OF ps(2,3)] ps(4)
    by (simp add: resolve_contained_relative_path_def ps(1) parent_parts_plain)
qed

section \<open>The text of a link\<close>

lemma encode_byte_facts:
  "encode_byte c \<noteq> []" "CHR ''#'' \<notin> set (encode_byte c)" "CHR '' '' \<notin> set (encode_byte c)"
  by (simp_all add: encode_byte_def)

lemma percent_decode_escape:
  "percent_decode (CHR ''%'' # h # l # r) = (case (hex_nibble h, hex_nibble l) of
     (Some a, Some b) \<Rightarrow> map_option ((#) (char_of (16 * a + b))) (percent_decode r) | _ \<Rightarrow> None)"
  by simp

lemma percent_decode_encode_byte: "percent_decode (encode_byte c @ r) = map_option ((#) c) (percent_decode r)"
proof -
  consider "c = CHR '' ''" | "c = CHR ''%''" | "c = CHR ''#''" | "c = CHR ''(''" | "c = CHR '')''" | "c = CHR ''<''" | "c = CHR ''>''"
    | "c = CHR 0x5C" | "encode_byte c = [c]" "c \<noteq> CHR ''%''"
    by (metis encode_byte_def)
  then show ?thesis
    by cases (simp_all add: encode_byte_def hex_nibble_def percent_decode_escape del: percent_decode.simps(2), simp_all add: char_of_def bit_0)
qed

lemma percent_decode_encode:
  "percent_decode (encode_markdown_destination_component v @ r) = map_option ((@) v) (percent_decode r)"
proof (induction v)
  case (Cons c v)
  then show ?case
    by (simp add: encode_markdown_destination_component_def percent_decode_encode_byte option.map_comp comp_def)
qed (simp add: encode_markdown_destination_component_def option.map_ident)

lemma percent_decode_path_encode:
  "valid_utf8 v \<Longrightarrow> percent_decode_path (encode_markdown_destination_component v) = Some v"
  using percent_decode_encode [of v "[]"] by (simp add: percent_decode_path_def)

lemma encode_set: "c \<in> set (encode_markdown_destination_component v) \<Longrightarrow> c \<noteq> CHR ''#'' \<and> (c = CHR '':'' \<longrightarrow> c \<in> set v)"
  by (auto simp: encode_markdown_destination_component_def encode_byte_def split: if_splits)

lemma encode_head:
  "\<not> prefix ''/'' v \<Longrightarrow> v \<noteq> [] \<Longrightarrow> \<not> prefix ''/'' (encode_markdown_destination_component v @ r)"
  by (cases v) (auto simp: encode_markdown_destination_component_def encode_byte_def)

lemma encode_caret: "prefix ''^'' (encode_markdown_destination_component v) \<longleftrightarrow> prefix ''^'' v"
  by (cases v) (auto simp: encode_markdown_destination_component_def encode_byte_def)

lemma split_once_at: "c \<notin> set a \<Longrightarrow> split_once c (a @ c # b) = Some (a, b)"
  by (induction a) auto

lemma split_once_none: "c \<notin> set a \<Longrightarrow> split_once c a = None"
  by (induction a) auto

text \<open>The scheme of an external target ends in a colon before any fragment.\<close>

definition target_head :: "string \<Rightarrow> string" where
  "target_head s = takeWhile (\<lambda>c. c \<noteq> CHR ''#'' \<and> c \<noteq> CHR ''^'') s"

lemma ascii_lower_letter:
  "65 \<le> (of_char c :: nat) \<Longrightarrow> of_char c \<le> (90 :: nat) \<Longrightarrow> of_char (ascii_lower c) = (of_char c + 32 :: nat)"
  by (simp add: ascii_lower_def Let_def)

lemma ascii_lower_fixed:
  assumes "ascii_lower c = d" "d \<in> {CHR '':'', CHR ''#'', CHR ''^''}"
  shows "c = d"
proof (cases "65 \<le> (of_char c :: nat) \<and> of_char c \<le> (90 :: nat)")
  case True
  then have "97 \<le> (of_char d :: nat)" using ascii_lower_letter [of c] assms(1) by simp
  with assms(2) show ?thesis by auto
qed (use assms(1) in \<open>auto simp: ascii_lower_def Let_def\<close>)

lemma scheme_in_head:
  "prefix (w @ CHR '':'' # z) (map ascii_lower s) \<Longrightarrow> CHR ''#'' \<notin> set w \<Longrightarrow> CHR ''^'' \<notin> set w \<Longrightarrow> CHR '':'' \<in> set (target_head s)"
proof (induction w arbitrary: s)
  case Nil
  then obtain c t where s: "s = c # t" "ascii_lower c = CHR '':''" by (cases s) auto
  then have "c = CHR '':''" by (auto dest: ascii_lower_fixed)
  then show ?case by (simp add: s(1) target_head_def)
next
  case (Cons x w)
  then obtain c t where s: "s = c # t" "ascii_lower c = x" "prefix (w @ CHR '':'' # z) (map ascii_lower t)" by (cases s) auto
  have "c \<noteq> CHR ''#''" "c \<noteq> CHR ''^''" using s(2) Cons.prems(2,3) by (auto simp: ascii_lower_def)
  with Cons.IH [OF s(3)] Cons.prems show ?case by (simp add: s(1) target_head_def)
qed

lemma external_target_head: "is_external_target s \<Longrightarrow> CHR '':'' \<in> set (target_head s) \<or> prefix ''/'' s"
proof -
  assume "is_external_target s"
  then consider p where "p \<in> {''http://'', ''https://'', ''mailto:'', ''data:'', ''obsidian:''}" "prefix p (map ascii_lower s)"
    | "prefix ''//'' (map ascii_lower s)"
    by (auto simp: is_external_target_def to_ascii_lowercase_def Let_def)
  then show ?thesis
  proof cases
    case 1
    have "\<exists>w z. p = w @ CHR '':'' # z \<and> CHR ''#'' \<notin> set w \<and> CHR ''^'' \<notin> set w"
      using 1(1) by (auto intro: exI [of _ "''http''"] exI [of _ "''https''"] exI [of _ "''mailto''"] exI [of _ "''data''"] exI [of _ "''obsidian''"])
    then show ?thesis using scheme_in_head 1(2) by blast
  next
    case 2
    then obtain c t where s: "s = c # t" "ascii_lower c = CHR ''/''" by (cases s) auto
    have "c = CHR ''/''"
    proof (rule ccontr)
      assume "c \<noteq> CHR ''/''"
      then have "65 \<le> (of_char c :: nat) \<and> of_char c \<le> (90 :: nat)" using s(2) by (auto simp: ascii_lower_def Let_def split: if_splits)
      with ascii_lower_letter [of c] s(2) show False by simp
    qed
    then show ?thesis by (simp add: s)
  qed
qed

lemma head_of_rendered:
  "CHR '':'' \<notin> set t \<Longrightarrow> r = [] \<or> hd r = CHR ''#'' \<or> hd r = CHR ''^'' \<Longrightarrow> CHR '':'' \<notin> set (target_head (t @ r))"
  by (induction t) (cases r; auto simp: target_head_def)+

section \<open>Reading a rewritten link\<close>

text \<open>When the text of a rewritten link keeps its heading and its block reference.\<close>

definition fragment_survives :: "doc_link \<Rightarrow> string \<Rightarrow> bool" where
  "fragment_survives l target \<longleftrightarrow> (case lk_syntax l of
     MarkdownLink \<Rightarrow> lk_block_id l = None \<and> (case lk_heading l of None \<Rightarrow> True
       | Some h \<Rightarrow> encode_markdown_destination_component h = h \<and> \<not> prefix ''^'' h)
   | WikiLink \<Rightarrow> CHR ''#'' \<notin> set target \<and> CHR ''^'' \<notin> set target)"

lemma rendered_not_external:
  assumes "target = join_path ps" "ps \<noteq> []" "\<forall>c \<in> set ps. clean_part c" "r = [] \<or> hd r = CHR ''#'' \<or> hd r = CHR ''^''"
  shows "\<not> is_external_target (encode_markdown_destination_component target @ r)"
proof -
  note clean = clean_join [OF assms(2,3), folded assms(1)]
  have "CHR '':'' \<notin> set (encode_markdown_destination_component target)" using clean(8) encode_set by blast
  from head_of_rendered [OF this assms(4)] encode_head [OF clean(2,1)] show ?thesis using external_target_head by blast
qed

lemma markdown_reads_back:
  assumes "lk_syntax l = MarkdownLink" "target = join_path ps" "ps \<noteq> []" "\<forall>c \<in> set ps. clean_part c"
  shows "(snd (split_markdown_target (render_link_target l target)) = (lk_heading l, lk_block_id l) \<longleftrightarrow> fragment_survives l target) \<and>
    (fragment_survives l target \<longrightarrow> fst (split_markdown_target (render_link_target l target)) = Some target)"
proof -
  note clean = clean_join [OF assms(3,4), folded assms(2)]
  let ?t = "encode_markdown_destination_component target"
  define r where "r = (case lk_heading l of None \<Rightarrow> [] | Some h \<Rightarrow> CHR ''#'' # encode_markdown_destination_component h)
    @ (case lk_block_id l of None \<Rightarrow> [] | Some b \<Rightarrow> CHR ''^'' # encode_markdown_destination_component b)"
  have render: "render_link_target l target = ?t @ r"
    by (simp add: render_link_target_def assms(1) r_def)
  have "r = [] \<or> hd r = CHR ''#'' \<or> hd r = CHR ''^''" by (simp add: r_def split: option.splits)
  from rendered_not_external [OF assms(2-4) this] have ext: "\<not> is_external_target (?t @ r)" .
  have t1: "CHR ''#'' \<notin> set ?t" using encode_set by blast
  have t2: "percent_decode_path ?t = Some target" by (rule percent_decode_path_encode [OF clean(5)])
  have t3: "?t \<noteq> []" using clean(1) encode_byte_facts(1) by (cases target) (simp_all add: encode_markdown_destination_component_def)
  note t = t1 t2 t3
  show ?thesis
  proof (cases "lk_heading l")
    case None
    show ?thesis
    proof (cases "lk_block_id l")
      case (Some b)
      have "CHR ''#'' \<notin> set (?t @ r)" using t(1) encode_set by (auto simp: r_def None Some)
      then show ?thesis
        by (simp add: render split_markdown_target_def ext split_once_none None Some fragment_survives_def assms(1))
    qed (use ext in \<open>simp add: render split_markdown_target_def split_once_none t None fragment_survives_def assms(1) r_def\<close>)
  next
    case (Some h)
    define f where "f = encode_markdown_destination_component h
      @ (case lk_block_id l of None \<Rightarrow> [] | Some b \<Rightarrow> CHR ''^'' # encode_markdown_destination_component b)"
    have r: "r = CHR ''#'' # f" by (simp add: r_def Some f_def)
    have "split_markdown_target (?t @ r) = (Some target, if prefix ''^'' f then None else Some f,
        if prefix ''^'' f then Some (dropWhile (\<lambda>c. c = CHR ''^'') f) else None)"
      using ext by (simp add: split_markdown_target_def r split_once_at t)
    then show ?thesis
      by (cases "lk_block_id l") (auto simp: render Some fragment_survives_def assms(1) f_def encode_caret)
  qed
qed

lemma split_once_Some: "split_once c s = Some (a, b) \<Longrightarrow> s = a @ c # b \<and> c \<notin> set a"
  by (induction s arbitrary: a) (auto split: if_splits)

lemma split_once_None_iff: "split_once c s = None \<longleftrightarrow> c \<notin> set s"
  by (induction s) auto

lemma split_once_in: "c \<in> set s \<Longrightarrow> \<exists>a b. split_once c (s @ r) = Some (a, b) \<and> length r \<le> length b"
  by (induction s) auto

text \<open>The fields of a wiki link as the parser makes them.\<close>

definition wiki_fields :: "doc_link \<Rightarrow> bool" where
  "wiki_fields l \<longleftrightarrow> (case lk_heading l of None \<Rightarrow> True | Some h \<Rightarrow> CHR ''^'' \<notin> set h \<and> CHR ''|'' \<notin> set h) \<and>
     (case lk_block_id l of None \<Rightarrow> True | Some b \<Rightarrow> CHR ''|'' \<notin> set b)"

lemma wiki_reads_back:
  assumes "lk_syntax l = WikiLink" "target \<noteq> []" "CHR ''|'' \<notin> set target" "wiki_fields l"
  shows "(snd (fst (split_wiki_target (render_link_target l target))) = (lk_heading l, lk_block_id l) \<longleftrightarrow> fragment_survives l target) \<and>
    (fragment_survives l target \<longrightarrow> fst (fst (split_wiki_target (render_link_target l target))) = Some target)"
proof -
  define h where "h = (case lk_heading l of None \<Rightarrow> [] | Some h \<Rightarrow> CHR ''#'' # h)"
  define b where "b = (case lk_block_id l of None \<Rightarrow> [] | Some b \<Rightarrow> CHR ''^'' # b)"
  have bar: "CHR ''|'' \<notin> set (target @ h @ b)"
    using assms(3,4) by (auto simp: h_def b_def wiki_fields_def split: option.splits)
  have render: "render_link_target l target = (target @ h @ b) @ (case lk_display l of None \<Rightarrow> [] | Some d \<Rightarrow> CHR ''|'' # d)"
    by (simp add: render_link_target_def assms(1) h_def b_def split: option.split)
  have outer: "(case split_once CHR ''|'' (render_link_target l target) of None \<Rightarrow> (render_link_target l target, None)
      | Some (t, d) \<Rightarrow> (t, Some d)) = (target @ h @ b, lk_display l)"
    using split_once_none [OF bar] split_once_at [OF bar] by (cases "lk_display l") (simp_all add: render)
  have h: "CHR ''^'' \<notin> set h" using assms(4) by (auto simp: h_def wiki_fields_def split: option.splits)
  show ?thesis
  proof (cases "CHR ''^'' \<in> set target")
    case True
    then obtain x y where x: "split_once CHR ''^'' (target @ h @ b) = Some (x, y)" "length (h @ b) \<le> length y" using split_once_in by blast
    obtain v w where v: "(case split_once CHR ''#'' x of None \<Rightarrow> (x, None) | Some (p, h) \<Rightarrow> (p, Some h)) = (v, w)" by fastforce
    have "lk_block_id l \<noteq> Some y" using x(2) by (auto simp: b_def)
    then show ?thesis using True by (auto simp: split_wiki_target_def outer x(1) v fragment_survives_def assms(1))
  next
    case False
    have caret: "CHR ''^'' \<notin> set (target @ h)" using False h by simp
    have middle: "(case split_once CHR ''^'' (target @ h @ b) of None \<Rightarrow> (target @ h @ b, None) | Some (p, b) \<Rightarrow> (p, Some b))
        = (target @ h, lk_block_id l)"
      using split_once_none [OF caret] split_once_at [OF caret] by (cases "lk_block_id l") (simp_all add: b_def)
    show ?thesis
    proof (cases "CHR ''#'' \<in> set target")
      case True
      then obtain x y where x: "split_once CHR ''#'' (target @ h) = Some (x, y)" "length h \<le> length y" using split_once_in by blast
      have "lk_heading l \<noteq> Some y" using x(2) by (auto simp: h_def)
      then show ?thesis using True by (auto simp: split_wiki_target_def outer middle x(1) fragment_survives_def assms(1))
    next
      case sharp: False
      have "(case split_once CHR ''#'' (target @ h) of None \<Rightarrow> (target @ h, None) | Some (p, h) \<Rightarrow> (p, Some h)) = (target, lk_heading l)"
        using split_once_none [OF sharp] split_once_at [OF sharp] by (cases "lk_heading l") (simp_all add: h_def)
      then show ?thesis
        using False sharp assms(1,2) by (simp add: split_wiki_target_def outer middle fragment_survives_def)
    qed
  qed
qed

section \<open>Parsed links\<close>

text \<open>The fields of every link the scanner finds are read from its raw target.\<close>

definition well_read :: "doc_link \<Rightarrow> bool" where
  "well_read l \<longleftrightarrow> (case lk_syntax l of
     MarkdownLink \<Rightarrow> (lk_path l, lk_heading l, lk_block_id l) = split_markdown_target (lk_raw_target l)
   | WikiLink \<Rightarrow> ((lk_path l, lk_heading l, lk_block_id l), lk_display l) = split_wiki_target (lk_raw_target l))"

lemma well_read_wiki_fields: "well_read l \<Longrightarrow> lk_syntax l = WikiLink \<Longrightarrow> wiki_fields l"
  by (auto simp: well_read_def wiki_fields_def split_wiki_target_def Let_def split_once_None_iff dest!: split_once_Some
      split: option.splits prod.splits if_splits)

lemma next_wiki_read: "next_wiki E d n line off i = Some (j, l) \<Longrightarrow> well_read l"
  by (auto simp: next_wiki_def parse_wiki_link_def make_link_def well_read_def split: option.splits prod.splits)

lemma next_markdown_read: "next_markdown E d n line off i = Some (j, l) \<Longrightarrow> well_read l"
  by (auto simp: next_markdown_def parse_inline_markdown_link_def make_link_def well_read_def Let_def
      split: option.splits prod.splits if_splits)

lemma scan_inline_read:
  "\<forall>l \<in> set links. well_read l \<Longrightarrow> \<forall>l \<in> set (scan_inline_links E d line off i links). well_read l"
proof (induction E d line off i links rule: scan_inline_links.induct)
  case (1 E d line off i links)
  note eq = scan_inline_links.simps [of E d line off i links]
  consider (stop) "length line \<le> i"
    | (escape) "i < length line" "line ! i = CHR 0x5C"
    | (code) "i < length line" "line ! i = CHR 0x60"
    | (other) "i < length line" "line ! i \<noteq> CHR 0x5C" "line ! i \<noteq> CHR 0x60" by fastforce
  then show ?case
  proof cases
    case stop
    then show ?thesis using 1(7) by (simp add: eq)
  next
    case escape
    then show ?thesis using 1(1,7) by (simp add: eq)
  next
    case code
    then show ?thesis using 1(2,3,7) by (auto simp: eq Let_def split: option.split)
  next
    case other
    show ?thesis
    proof (cases "next_wiki E d (length links) line off i")
      case (Some r)
      then obtain j l where r: "next_wiki E d (length links) line off i = Some (j, l)" by (cases r) auto
      then have "\<forall>l \<in> set (scan_inline_links E d line off j (links @ [l])). well_read l"
        using 1(6,7) other next_wiki_read [OF r] by simp
      then show ?thesis using other r by (simp add: eq)
    next
      case no_wiki: None
      show ?thesis
      proof (cases "next_markdown E d (length links) line off i")
        case (Some r)
        then obtain j l where r: "next_markdown E d (length links) line off i = Some (j, l)" by (cases r) auto
        then have "\<forall>l \<in> set (scan_inline_links E d line off j (links @ [l])). well_read l"
          using 1(5,7) other no_wiki next_markdown_read [OF r] by simp
        then show ?thesis using other no_wiki r by (simp add: eq)
      next
        case None
        then show ?thesis using 1(4,7) other no_wiki by (simp add: eq)
      qed
    qed
  qed
qed

lemma scan_links_read: "\<forall>l \<in> set (scan_links E d s base). well_read l"
proof -
  have step: "\<forall>l \<in> set (ls_links st). well_read l \<Longrightarrow> \<forall>l \<in> set (ls_links (scan_link_line E d st line)). well_read l" for st line
  proof -
    assume "\<forall>l \<in> set (ls_links st). well_read l"
    then have "\<forall>l \<in> set (scan_inline_links E d (trim_raw_line_ending line) (ls_offset st) 0 (ls_links st)). well_read l"
      by (rule scan_inline_read)
    with \<open>\<forall>l \<in> set (ls_links st). well_read l\<close> show ?thesis by (simp add: scan_link_line_def Let_def split: option.split)
  qed
  have "\<forall>l \<in> set (ls_links st). well_read l \<Longrightarrow> \<forall>l \<in> set (ls_links (foldl (scan_link_line E d) st ls)). well_read l" for st ls
  proof (induction ls arbitrary: st)
    case (Cons x ls)
    then show ?case using Cons.IH [OF step [OF Cons.prems]] by simp
  qed simp
  from this [of "\<lparr>ls_offset = base, ls_fence = None, ls_links = []\<rparr>" "raw_lines s"] show ?thesis by (simp add: scan_links_def)
qed

lemma parsed_links_read:
  assumes "parse_markdown E Y f b p = Inr (doc, ds)" "l \<in> set (ir_links doc)"
  shows "well_read l"
proof -
  obtain off where "ir_links doc = scan_links E (ir_document_id doc) (drop off b) off"
    using parse_markdown_body [OF assms(1)] by blast
  then show ?thesis using scan_links_read assms(2) by metis
qed

text \<open>The link half of the positions of a parsed document.\<close>

lemma parsed_link_spans:
  assumes "parse_markdown E Y f b p = Inr (doc, ds)"
  shows "sorted_wrt link_before (ir_links doc)" "\<forall>l \<in> set (ir_links doc). byte_start (lk_span l) \<le> byte_end (lk_span l)"
proof -
  obtain off where off: "ir_links doc = scan_links E (ir_document_id doc) (drop off b) off"
    using parse_markdown_body [OF assms] by blast
  have links: "sorted_wrt link_before (ir_links doc)" "\<forall>l \<in> set (ir_links doc). link_in (drop off b) off 0 (length (drop off b)) l"
    using scan_links_in [of E "ir_document_id doc" "drop off b" off] unfolding off by simp_all
  show "sorted_wrt link_before (ir_links doc)" by (rule links(1))
  show "\<forall>l \<in> set (ir_links doc). byte_start (lk_span l) \<le> byte_end (lk_span l)" using links(2) by (auto simp: link_in_def)
qed

end
