(* ===== verification/RewriteFacts.thy ===== *)
theory RewriteFacts
  imports Rewrite LinkFacts
begin

text \<open>
  Rewritten documents: which replacement a link gets, what the reparse of the output guarantees, and
  that a rewritten link reaches the output path its resolution names.
\<close>

section \<open>Spans\<close>

text \<open>The links of a document are those of a parsed document with their resolutions filled in.\<close>

definition pending_links :: "ir_document \<Rightarrow> doc_link list" where
  "pending_links d = map (\<lambda>l. l\<lparr>lk_resolution := Pending\<rparr>) (ir_links d)"

definition parsed_as :: "externs \<Rightarrow> parsers \<Rightarrow> compiler_policy \<Rightarrow> ir_document \<Rightarrow> bool" where
  "parsed_as E Y p d \<longleftrightarrow> (\<exists>f b d0 ds. parse_markdown E Y f b p = Inr (d0, ds) \<and> pending_links d = ir_links d0)"

lemma parsed_as_links:
  assumes "parsed_as E Y p d"
  shows "sorted_wrt link_before (ir_links d)" "\<forall>l \<in> set (ir_links d). byte_start (lk_span l) \<le> byte_end (lk_span l) \<and> well_read l"
proof -
  obtain f b d0 ds where d0: "parse_markdown E Y f b p = Inr (d0, ds)" "map (\<lambda>l. l\<lparr>lk_resolution := Pending\<rparr>) (ir_links d) = ir_links d0"
    using assms by (auto simp: parsed_as_def pending_links_def)
  have spans: "\<forall>l \<in> set (ir_links d0). byte_start (lk_span l) \<le> byte_end (lk_span l)" "sorted_wrt link_before (ir_links d0)"
    using parsed_link_spans [OF d0(1)] by blast+
  have "sorted_wrt link_before (map (\<lambda>l. l\<lparr>lk_resolution := Pending\<rparr>) (ir_links d))" unfolding d0(2) by (rule spans(2))
  moreover have "(\<lambda>x y. link_before (x\<lparr>lk_resolution := Pending\<rparr>) (y\<lparr>lk_resolution := Pending\<rparr>)) = link_before"
    by (intro ext) (simp add: link_before_def)
  ultimately show "sorted_wrt link_before (ir_links d)" by (simp add: sorted_wrt_map)
  show "\<forall>l \<in> set (ir_links d). byte_start (lk_span l) \<le> byte_end (lk_span l) \<and> well_read l"
  proof
    fix l assume "l \<in> set (ir_links d)"
    then have l: "l\<lparr>lk_resolution := Pending\<rparr> \<in> set (ir_links d0)" unfolding d0(2) [symmetric] by simp
    have "well_read (l\<lparr>lk_resolution := Pending\<rparr>)" by (rule parsed_links_read [OF d0(1) l])
    then show "byte_start (lk_span l) \<le> byte_end (lk_span l) \<and> well_read l" using bspec [OF spans(1) l] by (simp add: well_read_def split: link_syntax.splits)
  qed
qed

lemma same_span_same_link:
  assumes "sorted_wrt link_before ls" "l \<in> set ls" "l' \<in> set ls" "lk_span l = lk_span l'" "byte_start (lk_span l) < byte_end (lk_span l)"
  shows "l = l'"
  using assms by (induction ls) (auto simp: link_before_def)

section \<open>Replacements\<close>

lemma spans_nonempty:
  "try_fold (span_step n) k rs = Inr m \<Longrightarrow> \<forall>r \<in> set rs. byte_start (rr_span r) < byte_end (rr_span r)"
  by (induction rs arbitrary: k) (auto simp: span_step_def simp del: try_fold.simps(2) split: if_splits)

lemma replacement_of:
  assumes "link_replacement outs d dest l = Inr xs" "r \<in> set xs"
  shows "rr_span r = lk_span l \<and> (\<exists>t. link_output outs d dest l = Inr (Some t) \<and>
    rr_replacement r = render_link_target l (relative_output_target dest t))"
  using assms by (auto simp: link_replacement_def Let_def split: option.splits if_splits)

text \<open>What the reparse expects of a link is what its resolution asks for.\<close>

lemma expected_target_of:
  assumes plan: "planned_markdown_replacements outs d = Inr rs" and dest: "btree_get (op_documents outs) (ir_document_id d) = Some dest"
    and parsed: "parsed_as E Y p d" and l: "l \<in> set (ir_links d)"
  shows "\<exists>x. link_output outs d dest l = Inr x \<and> expected_target rs l = (case x of None \<Rightarrow> lk_raw_target l
    | Some t \<Rightarrow> render_link_target l (relative_output_target dest t))"
proof -
  obtain rss where rss: "try_map (link_replacement outs d dest) (ir_links d) = Inr rss" "rs = sort_key (\<lambda>r. byte_start (rr_span r)) (concat rss)"
    and fold: "done_with (try_fold (span_step (sf_byte_len (ir_source_file d))) 0 rs) = Inr ()"
    using plan dest by (auto simp: planned_markdown_replacements_def validate_markdown_replacement_structure_def Let_def)
  have nonempty: "byte_start (rr_span r) < byte_end (rr_span r)" if "r \<in> set rs" for r
    using fold spans_nonempty that by (auto simp: done_with_def split: sum.splits)
  have pairs: "list_all2 (\<lambda>x y. link_replacement outs d dest x = Inr y) (ir_links d) rss" using rss(1) by (simp add: try_map_Inr)
  obtain xs where xs: "link_replacement outs d dest l = Inr xs" "xs \<in> set rss"
    using list_all2_in_left [OF pairs l] that by blast
  obtain x where x: "link_output outs d dest l = Inr x" using xs(1) by (auto simp: link_replacement_def)
  have mine: "\<exists>t. x = Some t \<and> rr_replacement r = render_link_target l (relative_output_target dest t)"
    if r: "r \<in> set rs" "rr_span r = lk_span l" for r
  proof -
    obtain ys where ys: "r \<in> set ys" "ys \<in> set rss" using r(1) rss(2) by auto
    obtain l' where l': "l' \<in> set (ir_links d)" "link_replacement outs d dest l' = Inr ys" using try_map_set [OF rss(1) ys(2)] by blast
    have r': "rr_span r = lk_span l'" using replacement_of [OF l'(2) ys(1)] by blast
    have "l = l'" using same_span_same_link [OF parsed_as_links(1) [OF parsed] l l'(1)] r(2) r' nonempty [OF r(1)] by simp
    then show ?thesis using replacement_of [OF l'(2) ys(1)] x by auto
  qed
  show ?thesis
  proof (cases "find (\<lambda>r. rr_span r = lk_span l) rs")
    case (Some r)
    then have "r \<in> set rs" "rr_span r = lk_span l" by (auto simp: find_Some_iff)
    from mine [OF this] x Some show ?thesis by (auto simp: expected_target_def)
  next
    case None
    have "render_link_target l (relative_output_target dest t) = lk_raw_target l" if "x = Some t" for t
    proof (rule ccontr)
      assume ne: "render_link_target l (relative_output_target dest t) \<noteq> lk_raw_target l"
      then have "xs = [\<lparr>rr_span = lk_span l, rr_replacement = render_link_target l (relative_output_target dest t)\<rparr>]"
        using xs(1) x that by (simp add: link_replacement_def Let_def)
      then have "\<lparr>rr_span = lk_span l, rr_replacement = render_link_target l (relative_output_target dest t)\<rparr> \<in> set rs"
        using xs(2) rss(2) by (auto intro!: bexI [of _ xs])
      then show False using None by (auto simp: find_None_iff)
    qed
    then show ?thesis using x None by (cases x) (simp_all add: expected_target_def)
  qed
qed

section \<open>Reaching the target\<close>

definition vault_path :: "externs \<Rightarrow> compiler_policy \<Rightarrow> string \<Rightarrow> bool" where
  "vault_path E p path \<longleftrightarrow> portable_path E p path \<and> valid_utf8 path"

text \<open>
  A reparsed link against its original: everything but its path is the same, and its path leads to the
  output of its target, or is untouched.
\<close>

definition leads_to :: "string \<Rightarrow> doc_link \<Rightarrow> string \<Rightarrow> bool" where
  "leads_to dest l t \<longleftrightarrow> (\<exists>path. lk_path l = Some path \<and> resolve_contained_relative_path dest path = Some t)"

definition link_kept :: "output_path_maps \<Rightarrow> ir_document \<Rightarrow> string \<Rightarrow> doc_link \<Rightarrow> doc_link \<Rightarrow> bool" where
  "link_kept outs d dest l l' \<longleftrightarrow> lk_syntax l' = lk_syntax l \<and> lk_heading l' = lk_heading l \<and> lk_block_id l' = lk_block_id l \<and>
     lk_display l' = lk_display l \<and> lk_embed l' = lk_embed l \<and>
     (case link_output outs d dest l of
        Inr (Some t) \<Rightarrow> leads_to dest l' t
      | Inr None \<Rightarrow> lk_raw_target l' = lk_raw_target l \<and> lk_path l' = lk_path l
      | Inl _ \<Rightarrow> False)"

lemma well_read_path:
  assumes "well_read l"
  shows "lk_path l = (case lk_syntax l of MarkdownLink \<Rightarrow> fst (split_markdown_target (lk_raw_target l))
    | WikiLink \<Rightarrow> fst (fst (split_wiki_target (lk_raw_target l))))"
proof (cases "lk_syntax l")
  case MarkdownLink
  then have "split_markdown_target (lk_raw_target l) = (lk_path l, lk_heading l, lk_block_id l)" using assms by (simp add: well_read_def)
  then show ?thesis using MarkdownLink by simp
next
  case WikiLink
  then have "split_wiki_target (lk_raw_target l) = ((lk_path l, lk_heading l, lk_block_id l), lk_display l)" using assms by (simp add: well_read_def)
  then show ?thesis using WikiLink by simp
qed

lemma reads_back:
  assumes "vault_path E p dest" "vault_path E p t" "butlast (split_path dest) \<noteq> split_path t" "well_read l'" "well_read l"
    "lk_raw_target l' = render_link_target l (relative_output_target dest t)"
    "lk_syntax l' = lk_syntax l" "lk_heading l' = lk_heading l" "lk_block_id l' = lk_block_id l"
  shows "fragment_survives l (relative_output_target dest t) \<and> leads_to dest l' t"
proof -
  have paths: "portable_path E p dest" "portable_path E p t" "valid_utf8 t" using assms(1,2) by (simp_all add: vault_path_def)
  obtain ps where ps: "relative_output_target dest t = join_path ps" "ps \<noteq> []" "\<forall>c \<in> set ps. clean_part c"
    by (rule relative_target_guards [OF paths assms(3)])
  have followed: "resolve_contained_relative_path dest (relative_output_target dest t) = Some t"
    by (rule relative_target_leads_back [OF paths assms(3)])
  have "fragment_survives l (relative_output_target dest t) \<and> lk_path l' = Some (relative_output_target dest t)"
  proof (cases "lk_syntax l")
    case MarkdownLink
    have "(lk_path l', lk_heading l, lk_block_id l) = split_markdown_target (render_link_target l (relative_output_target dest t))"
      using assms(4,6-9) MarkdownLink by (simp add: well_read_def)
    from this [symmetric] show ?thesis using markdown_reads_back [OF MarkdownLink ps] by (simp only: fst_conv snd_conv) blast
  next
    case WikiLink
    note clean = clean_join [OF ps(2,3), folded ps(1)]
    have "((lk_path l', lk_heading l, lk_block_id l), lk_display l') = split_wiki_target (render_link_target l (relative_output_target dest t))"
      using assms(4,6-9) WikiLink by (simp add: well_read_def)
    from this [symmetric] show ?thesis
      using wiki_reads_back [OF WikiLink, of "relative_output_target dest t"] clean well_read_wiki_fields [OF assms(5) WikiLink]
      by (simp only: fst_conv snd_conv) blast
  qed
  then show ?thesis using followed by (auto simp: leads_to_def)
qed

text \<open>No output path is the directory of the rewritten document.\<close>

definition targets_ok :: "externs \<Rightarrow> compiler_policy \<Rightarrow> output_path_maps \<Rightarrow> string \<Rightarrow> bool" where
  "targets_ok E p outs dest \<longleftrightarrow> vault_path E p dest \<and>
     (\<forall>t \<in> set (map snd (op_documents outs) @ map snd (op_assets outs)). vault_path E p t \<and> butlast (split_path dest) \<noteq> split_path t)"

lemma link_output_ok:
  assumes "targets_ok E p outs dest" "link_output outs d dest l = Inr (Some t)"
  shows "vault_path E p t \<and> butlast (split_path dest) \<noteq> split_path t"
proof -
  have "t \<in> set (map snd (op_documents outs) @ map snd (op_assets outs))"
    using assms(2) by (force simp: link_output_def btree_get_def dest: map_of_SomeD split: link_resolution.splits if_splits option.splits)
  then show ?thesis using assms(1) by (auto simp: targets_ok_def)
qed

lemma reparsed_link_kept:
  assumes "planned_markdown_replacements outs d = Inr rs" "btree_get (op_documents outs) (ir_document_id d) = Some dest"
    "parsed_as E Y p d" "targets_ok E p outs dest" "l \<in> set (ir_links d)" "link_unchanged rs (l, l')" "well_read l'"
  shows "link_kept outs d dest l l' \<and> (\<forall>t. link_output outs d dest l = Inr (Some t) \<longrightarrow> fragment_survives l (relative_output_target dest t))"
proof -
  have same: "lk_raw_target l' = expected_target rs l" "lk_syntax l' = lk_syntax l" "lk_heading l' = lk_heading l"
    "lk_block_id l' = lk_block_id l" "lk_display l' = lk_display l" "lk_embed l' = lk_embed l"
    using assms(6) by (simp_all add: link_unchanged_def)
  have l: "well_read l" using parsed_as_links(2) [OF assms(3)] assms(5) by blast
  obtain x where x: "link_output outs d dest l = Inr x" "expected_target rs l = (case x of None \<Rightarrow> lk_raw_target l
      | Some t \<Rightarrow> render_link_target l (relative_output_target dest t))"
    using expected_target_of [OF assms(1,2,3,5)] by blast
  show ?thesis
  proof (cases x)
    case None
    then have "lk_raw_target l' = lk_raw_target l" using x(2) same(1) by simp
    moreover from this have "lk_path l' = lk_path l"
      using well_read_path [OF l] well_read_path [OF assms(7)] same(2) by (simp split: link_syntax.splits)
    ultimately show ?thesis using same x(1) None by (simp add: link_kept_def)
  next
    case (Some t)
    have t: "vault_path E p t" "butlast (split_path dest) \<noteq> split_path t" "vault_path E p dest"
      using link_output_ok [OF assms(4), of d l t] x(1) Some assms(4) by (auto simp: targets_ok_def)
    have "lk_raw_target l' = render_link_target l (relative_output_target dest t)" using x(2) same(1) Some by simp
    from reads_back [OF t(3,1,2) assms(7) l this same(2-4)] show ?thesis using same x(1) Some by (simp add: link_kept_def)
  qed
qed

lemma rendered_links_kept:
  assumes "planned_markdown_replacements outs d = Inr rs" "btree_get (op_documents outs) (ir_document_id d) = Some dest"
    "parsed_as E Y p d" "targets_ok E p outs dest" "render_rewritten_markdown E Y p d dest source rs = Inr out"
  shows "(\<exists>doc ds. parse_markdown E Y (output_file E (ir_source_file d) dest out) out p = Inr (doc, ds) \<and>
      list_all2 (link_kept outs d dest) (ir_links d) (ir_links doc)) \<and>
    (\<forall>l \<in> set (ir_links d). \<forall>t. link_output outs d dest l = Inr (Some t) \<longrightarrow> fragment_survives l (relative_output_target dest t))"
proof -
  have "validate_rewritten_markdown_links E Y p d dest out rs = Inr ()"
    using assms(5) by (auto simp: render_rewritten_markdown_def Let_def split: prod.splits)
  then obtain doc ds where doc: "parse_markdown E Y (output_file E (ir_source_file d) dest out) out p = Inr (doc, ds)"
    "length (ir_links doc) = length (ir_links d)" "\<forall>pair \<in> set (zip (ir_links d) (ir_links doc)). link_unchanged rs pair"
    by (auto simp: validate_rewritten_markdown_links_def as_stale_def split: sum.splits prod.splits)
  have kept: "link_kept outs d dest (ir_links d ! i) (ir_links doc ! i) \<and>
      (\<forall>t. link_output outs d dest (ir_links d ! i) = Inr (Some t) \<longrightarrow> fragment_survives (ir_links d ! i) (relative_output_target dest t))"
    if i: "i < length (ir_links d)" for i
  proof (rule reparsed_link_kept [OF assms(1-4)])
    show "ir_links d ! i \<in> set (ir_links d)" using i by simp
    show "link_unchanged rs (ir_links d ! i, ir_links doc ! i)" using doc(2,3) i by (auto simp: set_zip)
    show "well_read (ir_links doc ! i)" using parsed_links_read [OF doc(1)] doc(2) i by simp
  qed
  have "list_all2 (link_kept outs d dest) (ir_links d) (ir_links doc)" using kept doc(2) by (simp add: list_all2_conv_all_nth)
  moreover have "\<forall>l \<in> set (ir_links d). \<forall>t. link_output outs d dest l = Inr (Some t) \<longrightarrow> fragment_survives l (relative_output_target dest t)"
    using kept by (auto simp: in_set_conv_nth)
  ultimately show ?thesis using doc(1) by blast
qed

lemma copied_links_kept:
  assumes "planned_markdown_replacements outs d = Inr []" "btree_get (op_documents outs) (ir_document_id d) = Some dest"
    "parsed_as E Y p d" "targets_ok E p outs dest" "l \<in> set (ir_links d)"
  shows "link_kept outs d dest l l"
  using reparsed_link_kept [OF assms(1-5), of l] parsed_as_links(2) [OF assms(3)] assms(5)
  by (simp add: link_unchanged_def expected_target_def)

end
