(* ===== verification/Operations.thy ===== *)
theory Operations
  imports Rewrite
begin

text \<open>
  Canvas rewriting and \<open>build_operations\<close> of \<open>crates/okc-core/src/plan.rs\<close>: every representative
  document, asset, canvas and base gets one operation, and the destinations are distinct under the
  portable key.
\<close>

section \<open>Canvases\<close>

definition reference_rewrite ::
  "output_path_maps \<Rightarrow> canvas \<Rightarrow> string \<Rightarrow> canvas_reference \<Rightarrow> canvas_rewrite list res" where
  "reference_rewrite outs c destination r = (case cr_resolution r of
       CanvasResolved target \<Rightarrow>
         bind_res (require PlanStale (canvas_reference_output_path outs target)) (\<lambda>target_output.
         let replacement = relative_output_target destination target_output
         in Inr (if replacement \<noteq> cr_raw_path r
           then [\<lparr>cw_node_id = cr_node_id r, cw_original_path = cr_raw_path r, cw_replacement_path = replacement,
                  cw_target = target\<rparr>] else []))
     | CanvasPending \<Rightarrow> Inl PlanStale
     | _ \<Rightarrow> and_then (ensure_preserved_canvas_target_is_contained destination (cr_raw_path r)
           (sf_logical_path (cv_source_file c)) (cr_node_id r)) (Inr []))"

definition planned_canvas_rewrites :: "output_path_maps \<Rightarrow> canvas \<Rightarrow> string \<Rightarrow> canvas_rewrite list res" where
  "planned_canvas_rewrites outs c destination =
     bind_res (try_map (reference_rewrite outs c destination) (cv_references c))
       (\<lambda>rss. Inr (sort_key cw_node_id (concat rss)))"

definition target_is_sealed :: "canvas_resolution \<Rightarrow> canvas_target \<Rightarrow> bool" where
  "target_is_sealed resolution target = (case resolution of
       CanvasResolved t \<Rightarrow> t = target
     | CanvasAmbiguous ts \<Rightarrow> target \<in> set ts
     | _ \<Rightarrow> False)"

definition string_field :: "json \<Rightarrow> string \<Rightarrow> string option" where
  "string_field v key = Option.bind (json_field v key) json_as_str"

text \<open>A node with the identifier of the rewrite: its new value, and whether it was the one.\<close>

definition rewrite_node :: "canvas_rewrite \<Rightarrow> json \<Rightarrow> (json \<times> bool) res" where
  "rewrite_node r node =
     (if string_field node ''id'' \<noteq> Some (cw_node_id r) then Inr (node, False)
      else if string_field node ''type'' \<noteq> Some ''file'' \<or> string_field node ''file'' \<noteq> Some (cw_original_path r)
      then Inl PlanStale
      else (case node of
          JObj m \<Rightarrow> Inr (JObj (btree_insert ''file'' (JStr (cw_replacement_path r)) m), True)
        | _ \<Rightarrow> Inl PlanStale))"

definition canvas_rewrite_step :: "canvas \<Rightarrow> json list \<Rightarrow> canvas_rewrite \<Rightarrow> json list res" where
  "canvas_rewrite_step c nodes r =
     and_then (reject (cw_original_path r = cw_replacement_path r) PlanStale)
     (bind_res (require PlanStale (find (\<lambda>x. cr_node_id x = cw_node_id r) (cv_references c))) (\<lambda>reference.
     and_then (reject (cr_raw_path reference \<noteq> cw_original_path r
         \<or> \<not> target_is_sealed (cr_resolution reference) (cw_target r)) PlanStale)
     (bind_res (try_map (rewrite_node r) nodes) (\<lambda>rewritten.
     and_then (reject (length (filter snd rewritten) \<noteq> 1) PlanStale) (Inr (map fst rewritten))))))"

definition same_reference :: "canvas_reference \<times> canvas_reference \<Rightarrow> bool" where
  "same_reference pair \<longleftrightarrow> (case pair of (a, b) \<Rightarrow> cr_node_id a = cr_node_id b \<and> cr_raw_path a = cr_raw_path b)"

definition expected_path :: "canvas_rewrite list \<Rightarrow> canvas_reference \<Rightarrow> string" where
  "expected_path rs r = (case find (\<lambda>x. cw_node_id x = cr_node_id r) rs of None \<Rightarrow> cr_raw_path r
     | Some x \<Rightarrow> cw_replacement_path x)"

definition render_rewritten_canvas ::
  "externs \<Rightarrow> parsers \<Rightarrow> canvas \<Rightarrow> canvas_rewrite list \<Rightarrow> bytes res" where
  "render_rewritten_canvas E Y c rs =
     and_then (reject (rs = [] \<or> list_ex (\<lambda>(a, b). cw_node_id b \<le> cw_node_id a) (adjacent rs)) PlanStale)
     (bind_res (as_stale (canvas_file_references (cv_value c) (sf_logical_path (cv_source_file c)))) (\<lambda>indexed.
     and_then (reject (length indexed \<noteq> length (cv_references c)
         \<or> \<not> list_all same_reference (zip indexed (cv_references c))) PlanStale)
     (bind_res (require PlanStale (Option.bind (json_field (cv_value c) ''nodes'') json_as_array)) (\<lambda>nodes.
     bind_res (try_fold (canvas_rewrite_step c) nodes rs) (\<lambda>nodes.
     bind_res (require PlanStale (json_as_object (cv_value c))) (\<lambda>m.
     let rewritten = JObj (btree_insert ''nodes'' (JArr nodes) m);
         encoded = to_canonical_json_pretty E rewritten
     in bind_res (as_stale (parse_canvas_json Y (sf_logical_path (cv_source_file c)) encoded)) (\<lambda>(reparsed, references).
       and_then (reject (reparsed \<noteq> rewritten \<or> length references \<noteq> length indexed) PlanStale)
       (and_then (for_each (\<lambda>(original, reparsed). reject (cr_node_id reparsed \<noteq> cr_node_id original
           \<or> cr_raw_path reparsed \<noteq> expected_path rs original) PlanStale) (zip indexed references))
         (Inr encoded)))))))))"

section \<open>Markdown operations\<close>

record raw_entry =
  re_original_path :: string
  re_logical_path :: string
  re_path_encoding :: source_path_encoding
  re_kind :: file_kind
  re_bytes :: bytes

type_synonym reread = "source_spec \<Rightarrow> compiler_policy \<Rightarrow> raw_entry list res"

record pending_rewrite =
  pr_document_id :: document_id
  pr_destination :: string
  pr_replacements :: "rewrite_replacement list"

definition btree_remove :: "'k \<Rightarrow> ('k, 'v) btree \<Rightarrow> ('k, 'v) btree" where
  "btree_remove k m = filter (\<lambda>e. fst e \<noteq> k) m"

definition keep_needed ::
  "string set \<Rightarrow> (string, raw_entry) btree \<Rightarrow> raw_entry \<Rightarrow> (string, raw_entry) btree res" where
  "keep_needed needed m e =
     (if re_logical_path e \<notin> needed then Inr m
      else if re_kind e \<noteq> Markdown \<or> btree_get m (re_logical_path e) \<noteq> None then Inl PlanStale
      else Inr (btree_insert (re_logical_path e) e m))"

definition materialize_rewrite ::
  "externs \<Rightarrow> parsers \<Rightarrow> compiler_policy \<Rightarrow> workspace \<Rightarrow> vault_snapshot \<Rightarrow>
     (string, raw_entry) btree \<times> output_operation list \<Rightarrow> pending_rewrite
     \<Rightarrow> ((string, raw_entry) btree \<times> output_operation list) res" where
  "materialize_rewrite E Y p ws snapshot st r = (case st of (entries, operations) \<Rightarrow>
     bind_res (at_index (ws_documents ws) (pr_document_id r)) (\<lambda>d.
     let f = ir_source_file d in
     and_then (reject (sf_snapshot_id f \<noteq> vs_snapshot_id snapshot) PlanStale)
     (bind_res (require IdentityMismatch (btree_get entries (sf_logical_path f))) (\<lambda>e.
     and_then (reject (re_original_path e \<noteq> sf_original_path f \<or> re_path_encoding e \<noteq> sf_path_encoding f) IdentityMismatch)
     (bind_res (render_rewritten_markdown E Y p d (pr_destination r) (re_bytes e) (pr_replacements r)) (\<lambda>out.
     let h = from_bytes E out;
         i = markdown_rewrite_operation_id E f (pr_destination r) h (pr_replacements r)
     in Inr (btree_remove (sf_logical_path f) entries,
       operations @ [RewriteMarkdown (source_of_file f i (pr_destination r)) h (pr_replacements r)])))))))"

definition materialize_source ::
  "externs \<Rightarrow> parsers \<Rightarrow> reread \<Rightarrow> compiler_policy \<Rightarrow> workspace \<Rightarrow> vault_snapshot list \<Rightarrow> output_operation list
     \<Rightarrow> source_id \<times> pending_rewrite list \<Rightarrow> output_operation list res" where
  "materialize_source E Y reread p ws snapshots operations entry = (case entry of (source, rewrites) \<Rightarrow>
     bind_res (require PlanStale (find (\<lambda>s. vs_source_id s = source) snapshots)) (\<lambda>snapshot.
     bind_res (try_map (\<lambda>r. bind_res (at_index (ws_documents ws) (pr_document_id r))
         (\<lambda>d. Inr (sf_logical_path (ir_source_file d)))) rewrites) (\<lambda>needed.
     bind_res (reread (vs_source snapshot) p) (\<lambda>raw.
     bind_res (try_fold (keep_needed (set needed)) [] raw) (\<lambda>entries.
     bind_res (try_fold (materialize_rewrite E Y p ws snapshot) (entries, operations) rewrites)
       (\<lambda>(_, operations). Inr operations))))))"

definition materialize_markdown_rewrites ::
  "externs \<Rightarrow> parsers \<Rightarrow> reread \<Rightarrow> compiler_policy \<Rightarrow> workspace \<Rightarrow> vault_snapshot list \<Rightarrow> pending_rewrite list
     \<Rightarrow> output_operation list res" where
  "materialize_markdown_rewrites E Y reread p ws snapshots pending =
     bind_res (try_map (\<lambda>r. bind_res (require PlanStale (btree_get (ws_documents ws) (pr_document_id r)))
         (\<lambda>d. Inr (sf_source_id (ir_source_file d), r))) pending) (\<lambda>keyed.
     try_fold (materialize_source E Y reread p ws snapshots) [] (multi_collect keyed))"

section \<open>All operations\<close>

definition document_operation ::
  "externs \<Rightarrow> workspace \<Rightarrow> output_path_maps \<Rightarrow> output_operation list \<times> pending_rewrite list \<Rightarrow> document_id
     \<Rightarrow> (output_operation list \<times> pending_rewrite list) res" where
  "document_operation E ws outs st i = (case st of (operations, pending) \<Rightarrow>
     bind_res (at_index (ws_documents ws) i) (\<lambda>d.
     bind_res (at_index (op_documents outs) i) (\<lambda>destination.
     bind_res (planned_markdown_replacements outs d) (\<lambda>rs.
     Inr (if rs = [] then (operations @ [copy_operation E (ir_source_file d) destination Markdown], pending)
       else (operations, pending @ [\<lparr>pr_document_id = i, pr_destination = destination, pr_replacements = rs\<rparr>]))))))"

definition asset_operation ::
  "externs \<Rightarrow> output_path_maps \<Rightarrow> output_operation list \<Rightarrow> asset_id \<times> asset \<Rightarrow> output_operation list res" where
  "asset_operation E outs operations entry = (case entry of (i, a) \<Rightarrow>
     bind_res (require Internal (canonical_source a)) (\<lambda>f.
     bind_res (at_index (op_assets outs) i) (\<lambda>destination.
       Inr (operations @ [copy_operation E f destination AssetFile]))))"

definition canvas_operation ::
  "externs \<Rightarrow> parsers \<Rightarrow> output_path_maps \<Rightarrow> output_operation list \<Rightarrow> canvas_id \<times> canvas \<Rightarrow> output_operation list res" where
  "canvas_operation E Y outs operations entry = (case entry of (i, c) \<Rightarrow>
     bind_res (at_index (op_canvases outs) i) (\<lambda>destination.
     bind_res (planned_canvas_rewrites outs c destination) (\<lambda>rs.
     if rs = [] then Inr (operations @ [copy_operation E (cv_source_file c) destination CanvasFile])
     else bind_res (render_rewritten_canvas E Y c rs) (\<lambda>out.
       let h = from_bytes E out; x = canvas_rewrite_operation_id E (cv_source_file c) destination h rs
       in Inr (operations @ [RewriteCanvas (source_of_file (cv_source_file c) x destination) h rs])))))"

definition base_operation ::
  "externs \<Rightarrow> output_path_maps \<Rightarrow> output_operation list \<Rightarrow> base_artifact \<Rightarrow> output_operation list res" where
  "base_operation E outs operations b =
     bind_res (at_index (op_bases outs) (ba_base_id b)) (\<lambda>destination.
       Inr (operations @ [copy_operation E (ba_source_file b) destination BaseFile]))"

definition distinct_destination :: "externs \<Rightarrow> string set \<Rightarrow> output_operation \<Rightarrow> string set res" where
  "distinct_destination E seen x =
     (let k = portable_key E (destination_of x) in if k \<in> seen then Inl Internal else Inr (insert k seen))"

definition build_operations ::
  "externs \<Rightarrow> parsers \<Rightarrow> reread \<Rightarrow> workspace \<Rightarrow> (document_id, document_id) btree \<Rightarrow> output_path_maps
     \<Rightarrow> vault_snapshot list \<Rightarrow> compiler_policy \<Rightarrow> output_operation list res" where
  "build_operations E Y reread ws reps outs snapshots p =
     bind_res (try_fold (document_operation E ws outs) ([], []) (representatives reps)) (\<lambda>(operations, pending).
     bind_res (materialize_markdown_rewrites E Y reread p ws snapshots pending) (\<lambda>rewrites.
     bind_res (try_fold (asset_operation E outs) (operations @ rewrites) (ws_assets ws)) (\<lambda>operations.
     bind_res (try_fold (canvas_operation E Y outs) operations (ws_canvases ws)) (\<lambda>operations.
     bind_res (try_fold (base_operation E outs) operations (sort_key base_order (ws_bases ws))) (\<lambda>operations.
     let operations = sort_key (\<lambda>x. (destination_of x, operation_id_of x)) operations
     in bind_res (try_fold (distinct_destination E) {} operations) (\<lambda>_. Inr operations))))))"

end
