(* ===== verification/DraftPlan.thy ===== *)
theory DraftPlan
  imports Operations
begin

text \<open>
  \<open>build_plan\<close> and \<open>DraftPlan::validate_integrity\<close> of \<open>crates/okc-core/src/plan.rs\<close>: the composition of
  deduplication, allocation, resolution and operations, sealed by hashes, and the validators a stored
  plan passes before it is used. The derived serialisation of policies, workspaces and plan identities
  is the argument \<open>writers\<close>.
\<close>

section \<open>Data\<close>

typedecl draft_plan_tag

type_synonym draft_plan_id = "draft_plan_tag typed_id"

record resource_estimate =
  est_source_files :: nat
  est_source_bytes :: nat
  est_note_count :: nat
  est_output_bytes :: nat
  est_peak_bytes :: nat

record inspection =
  in_schema_version :: nat
  in_compiler_version :: string
  in_policy_hash :: content_hash
  in_inspection_hash :: content_hash
  in_snapshots :: "vault_snapshot list"
  in_workspace :: workspace
  in_diagnostics :: "diagnostic list"

record draft_plan =
  dp_schema_version :: nat
  dp_compiler_version :: string
  dp_plan_id :: draft_plan_id
  dp_projection_hash :: content_hash
  dp_policy :: compiler_policy
  dp_inspection_hash :: content_hash
  dp_snapshots :: "vault_snapshot list"
  dp_workspace :: workspace
  dp_paths :: output_path_maps
  dp_operations :: "output_operation list"
  dp_estimate :: resource_estimate
  dp_exact_groups :: "exact_group list"
  dp_near_candidates :: "near_candidate list"
  dp_conflicts :: "conflict list"
  dp_diagnostics :: "diagnostic list"

text \<open>\<open>write_plan\<close> serialises \<open>PlanIdentity\<close>: every field of the plan but its identifier, with the hash of the policy.\<close>

record writers =
  write_policy :: "compiler_policy \<Rightarrow> json"
  write_workspace :: "workspace \<Rightarrow> json"
  write_plan :: "content_hash \<Rightarrow> draft_plan \<Rightarrow> json"

definition plan_schema :: nat where
  "plan_schema = 2"

definition source_policy_id :: string where
  "source_policy_id = ''okc-source-v2''"

definition semantic_hash :: "externs \<Rightarrow> writers \<Rightarrow> compiler_policy \<Rightarrow> content_hash" where
  "semantic_hash E W p = canonical_hash E (domain ''okc:policy:v2'') (write_policy W p)"

definition calculate_inspection_hash :: "externs \<Rightarrow> nat \<Rightarrow> string \<Rightarrow> content_hash \<Rightarrow> vault_snapshot list \<Rightarrow> content_hash" where
  "calculate_inspection_hash E schema version policy_hash snapshots =
     canonical_hash E (domain ''okc:inspection:v2'') (jobj [(''schema_version'', jnat schema),
       (''compiler_version'', JStr version), (''policy_hash'', jhash E policy_hash),
       (''snapshots'', JArr (map (\<lambda>s. jid E ''snap'' (vs_snapshot_id s)) snapshots))])"

definition new_inspection ::
  "externs \<Rightarrow> content_hash \<Rightarrow> vault_snapshot list \<Rightarrow> workspace \<Rightarrow> diagnostic list \<Rightarrow> inspection" where
  "new_inspection E policy_hash snapshots ws diagnostics =
     \<lparr>in_schema_version = 2, in_compiler_version = package_version, in_policy_hash = policy_hash,
      in_inspection_hash = calculate_inspection_hash E 2 package_version policy_hash snapshots,
      in_snapshots = snapshots, in_workspace = ws, in_diagnostics = diagnostics\<rparr>"

definition projection_hash :: "externs \<Rightarrow> writers \<Rightarrow> workspace \<Rightarrow> content_hash" where
  "projection_hash E W ws = canonical_hash E (domain ''okc:projection:v2'') (write_workspace W ws)"

definition calculate_plan_id :: "externs \<Rightarrow> writers \<Rightarrow> content_hash \<Rightarrow> draft_plan \<Rightarrow> draft_plan_id" where
  "calculate_plan_id E W policy_hash pl = TypedId (canonical_hash E (domain ''okc:plan:v2'') (write_plan W policy_hash pl))"

section \<open>Resource estimate\<close>

definition snapshot_files :: "vault_snapshot list \<Rightarrow> source_file list" where
  "snapshot_files snapshots = concat (map vs_files snapshots)"

definition checked_sum :: "nat list \<Rightarrow> nat res" where
  "checked_sum ns = try_fold (\<lambda>acc n. require ResourceLimit (checked_add_u64 acc n)) 0 ns"

definition operation_length :: "vault_snapshot list \<Rightarrow> output_operation \<Rightarrow> nat res" where
  "operation_length snapshots x =
     require PlanStale (Option.bind (find (\<lambda>s. vs_snapshot_id s = os_snapshot_id (op_source_of x)) snapshots)
       (\<lambda>s. map_option sf_byte_len (find (\<lambda>f. sf_logical_path f = os_source_path (op_source_of x)) (vs_files s))))"

definition estimate_step :: "vault_snapshot list \<Rightarrow> nat \<times> nat \<Rightarrow> output_operation \<Rightarrow> (nat \<times> nat) res" where
  "estimate_step snapshots st x = (case st of (bytes, largest) \<Rightarrow>
     bind_res (operation_length snapshots x) (\<lambda>n.
     bind_res (require ResourceLimit (checked_add_u64 bytes n)) (\<lambda>bytes. Inr (bytes, max largest n))))"

definition calculate_resource_estimate ::
  "vault_snapshot list \<Rightarrow> workspace \<Rightarrow> output_operation list \<Rightarrow> resource_estimate res" where
  "calculate_resource_estimate snapshots ws operations =
     bind_res (checked_sum (map (\<lambda>s. length (vs_files s)) snapshots)) (\<lambda>files.
     bind_res (checked_sum (map sf_byte_len (snapshot_files snapshots))) (\<lambda>bytes.
     bind_res (try_fold (estimate_step snapshots) (0, 0) operations) (\<lambda>(output_bytes, largest).
     Inr \<lparr>est_source_files = files, est_source_bytes = bytes, est_note_count = length (ws_documents ws),
       est_output_bytes = output_bytes,
       est_peak_bytes = saturating_add_u64 (saturating_mul_u64 largest 2) (16 * 1024 * 1024)\<rparr>)))"

section \<open>Snapshots\<close>

definition vault_content_id_of :: "externs \<Rightarrow> source_file list \<Rightarrow> content_hash" where
  "vault_content_id_of E fs = canonical_hash E (domain ''okc:vault-content:v2'')
     (JArr (map (\<lambda>f. JArr [JStr (sf_logical_path f), jid E ''file'' (sf_file_id f)]) fs))"

definition snapshot_file_step ::
  "externs \<Rightarrow> compiler_policy \<Rightarrow> vault_snapshot \<Rightarrow> string option \<times> nat \<times> nat \<Rightarrow> source_file
     \<Rightarrow> (string option \<times> nat \<times> nat) res" where
  "snapshot_file_step E p s st f = (case st of (previous, files, bytes) \<Rightarrow>
     and_then (seq_checks [
       reject (case previous of None \<Rightarrow> False | Some q \<Rightarrow> sf_logical_path f \<le> q) PlanStale,
       validate_source_path_pair E (sf_original_path f) (sf_logical_path f) (sf_path_encoding f) p,
       validate_output_logical_path E (sf_logical_path f) p,
       reject (sf_source_id f \<noteq> vs_source_id s \<or> sf_snapshot_id f \<noteq> vs_snapshot_id s) PlanStale,
       reject (classify (sf_logical_path f) \<noteq> sf_kind f) PlanStale,
       reject (max_file_bytes (limits p) < sf_byte_len f) ResourceLimit,
       reject (sf_kind f \<noteq> AssetFile \<and> max_structured_text_bytes (limits p) < sf_byte_len f) ResourceLimit,
       reject (sf_file_id f \<noteq> from_file E (sf_logical_path f) (media_family (sf_kind f)) (sf_content_hash f)) PlanStale])
     (bind_res (require ResourceLimit (checked_add_u64 files 1)) (\<lambda>files.
      bind_res (require ResourceLimit (checked_add_u64 bytes (sf_byte_len f))) (\<lambda>bytes.
        Inr (Some (sf_logical_path f), files, bytes)))))"

definition snapshot_step ::
  "externs \<Rightarrow> compiler_policy \<Rightarrow> source_id option \<times> content_hash set \<times> nat \<times> nat \<Rightarrow> vault_snapshot
     \<Rightarrow> (source_id option \<times> content_hash set \<times> nat \<times> nat) res" where
  "snapshot_step E p st s = (case st of (previous, contents, files, bytes) \<Rightarrow>
     bind_res (new_source_id (source_str (vs_source_id s))) (\<lambda>_.
     and_then (seq_checks [
       reject (case previous of None \<Rightarrow> False | Some q \<Rightarrow> vs_source_id s \<le> q) PlanStale,
       reject (spec_id (vs_source s) \<noteq> vs_source_id s) PlanStale,
       reject (vs_policy_id s \<noteq> source_policy_id) PlanStale,
       reject (vs_vault_content_id s \<noteq> vault_content_id_of E (vs_files s) \<or> vs_vault_content_id s \<in> contents) PlanStale])
     (bind_res (try_fold (snapshot_file_step E p s) (None, files, bytes) (vs_files s)) (\<lambda>(_, files, bytes).
      and_then (reject (vs_snapshot_id s \<noteq> from_manifest E (source_str (vs_source_id s)) (vs_policy_id s)
          (map (\<lambda>f. (sf_logical_path f, sf_file_id f)) (vs_files s))) PlanStale)
        (Inr (Some (vs_source_id s), insert (vs_vault_content_id s) contents, files, bytes))))))"

definition validate_snapshot_set :: "externs \<Rightarrow> vault_snapshot list \<Rightarrow> compiler_policy \<Rightarrow> unit res" where
  "validate_snapshot_set E snapshots p =
     and_then (seq_checks [reject (snapshots = []) PlanStale,
       reject (max_sources (limits p) < length snapshots) ResourceLimit])
     (bind_res (try_fold (snapshot_step E p) (None, {}, 0, 0) snapshots) (\<lambda>(_, _, files, bytes).
      seq_checks [reject (max_files (limits p) < files) ResourceLimit,
        reject (max_total_bytes (limits p) < bytes) ResourceLimit]))"

section \<open>Workspaces\<close>

definition sealed_files :: "vault_snapshot list \<Rightarrow> (source_id \<times> snapshot_id \<times> string, source_file) btree" where
  "sealed_files snapshots = btree_collect (map (\<lambda>f. ((sf_source_id f, sf_snapshot_id f, sf_logical_path f), f))
     (snapshot_files snapshots))"

definition validate_file ::
  "(source_id \<times> snapshot_id \<times> string, source_file) btree \<Rightarrow> source_file \<Rightarrow> unit res" where
  "validate_file files f =
     reject (btree_get files (sf_source_id f, sf_snapshot_id f, sf_logical_path f) \<noteq> Some f) PlanStale"

definition span_in :: "nat \<Rightarrow> source_span \<Rightarrow> bool" where
  "span_in n s \<longleftrightarrow> byte_start s \<le> byte_end s \<and> byte_end s \<le> n"

definition validate_document_source ::
  "externs \<Rightarrow> (source_id \<times> snapshot_id \<times> string, source_file) btree \<Rightarrow> document_id \<times> ir_document \<Rightarrow> unit res" where
  "validate_document_source E files entry = (case entry of (k, d) \<Rightarrow> seq_checks [
     validate_file files (ir_source_file d),
     reject (k \<noteq> ir_document_id d \<or> ir_document_id d \<noteq> source_pair_id E ''okc:document:v2'' (ir_source_file d)) PlanStale,
     for_each (\<lambda>s. reject (\<not> span_in (sf_byte_len (ir_source_file d)) s) PlanStale)
       (map se_span (ir_sections d) @ map bk_span (ir_blocks d) @ map lk_span (ir_links d))])"

definition validate_canvas_target :: "workspace \<Rightarrow> canvas_target \<Rightarrow> unit res" where
  "validate_canvas_target ws t = reject (\<not> (case t of
       ToDocument i \<Rightarrow> btree_get (ws_documents ws) i \<noteq> None
     | ToAsset i \<Rightarrow> btree_get (ws_assets ws) i \<noteq> None
     | ToCanvas i \<Rightarrow> btree_get (ws_canvases ws) i \<noteq> None
     | ToBase i \<Rightarrow> list_ex (\<lambda>b. ba_base_id b = i) (ws_bases ws))) PlanStale"

definition validate_reference_source :: "workspace \<Rightarrow> canvas_reference \<times> canvas_reference \<Rightarrow> unit res" where
  "validate_reference_source ws pair = (case pair of (parsed, sealed) \<Rightarrow>
     and_then (reject (\<not> same_reference (parsed, sealed)) PlanStale)
     (case cr_resolution sealed of
        CanvasPending \<Rightarrow> Inl PlanStale
      | CanvasResolved t \<Rightarrow> validate_canvas_target ws t
      | CanvasUnresolved \<Rightarrow> Inr ()
      | CanvasAmbiguous ts \<Rightarrow>
          and_then (reject (length ts < 2 \<or> list_ex (\<lambda>(a, b). b \<le> a) (adjacent ts)) PlanStale)
            (for_each (validate_canvas_target ws) ts)))"

definition validate_canvas_source ::
  "externs \<Rightarrow> workspace \<Rightarrow> (source_id \<times> snapshot_id \<times> string, source_file) btree \<Rightarrow> canvas_id \<times> canvas \<Rightarrow> unit res" where
  "validate_canvas_source E ws files entry = (case entry of (k, c) \<Rightarrow>
     and_then (seq_checks [
       validate_file files (cv_source_file c),
       reject (sf_kind (cv_source_file c) \<noteq> CanvasFile) PlanStale,
       reject (k \<noteq> cv_canvas_id c \<or> cv_canvas_id c \<noteq> source_pair_id E ''okc:canvas:v2'' (cv_source_file c)) PlanStale])
     (bind_res (as_stale (canvas_file_references (cv_value c) (sf_logical_path (cv_source_file c)))) (\<lambda>parsed.
      and_then (reject (length parsed \<noteq> length (cv_references c)) PlanStale)
        (for_each (validate_reference_source ws) (zip parsed (cv_references c))))))"

definition asset_source_step ::
  "externs \<Rightarrow> (source_id \<times> snapshot_id \<times> string, source_file) btree \<Rightarrow> asset \<Rightarrow> source_file option \<Rightarrow> source_file
     \<Rightarrow> source_file option res" where
  "asset_source_step E files a previous f = and_then (seq_checks [
     validate_file files f,
     reject (sf_kind f \<noteq> AssetFile) PlanStale,
     reject (id_from_parts E (domain ''okc:asset:v2'') [hash_bytes (sf_content_hash f)] \<noteq> as_asset_id a) PlanStale,
     reject (case previous of None \<Rightarrow> False | Some q \<Rightarrow> source_order f \<le> source_order q) PlanStale]) (Inr (Some f))"

definition validate_asset_source ::
  "externs \<Rightarrow> (source_id \<times> snapshot_id \<times> string, source_file) btree \<Rightarrow> asset_id \<times> asset \<Rightarrow> unit res" where
  "validate_asset_source E files entry = (case entry of (k, a) \<Rightarrow> seq_checks [
     reject (k \<noteq> as_asset_id a \<or> as_sources a = []) PlanStale,
     done_with (try_fold (asset_source_step E files a) None (as_sources a)),
     reject (as_basename a \<noteq> (case as_sources a of [] \<Rightarrow> ''asset'' | f # _ \<Rightarrow> source_basename f)) PlanStale])"

definition base_source_step ::
  "externs \<Rightarrow> (source_id \<times> snapshot_id \<times> string, source_file) btree \<Rightarrow> base_id set \<Rightarrow> base_artifact \<Rightarrow> base_id set res" where
  "base_source_step E files seen b = and_then (seq_checks [
     validate_file files (ba_source_file b),
     reject (sf_kind (ba_source_file b) \<noteq> BaseFile) PlanStale,
     reject (ba_base_id b \<noteq> source_pair_id E ''okc:base:v2'' (ba_source_file b) \<or> ba_base_id b \<in> seen) PlanStale])
     (Inr (insert (ba_base_id b) seen))"

definition validate_workspace_sources :: "externs \<Rightarrow> workspace \<Rightarrow> vault_snapshot list \<Rightarrow> unit res" where
  "validate_workspace_sources E ws snapshots = (let files = sealed_files snapshots in seq_checks [
     reject (ws_schema_version ws \<noteq> 2) PlanStale,
     for_each (validate_document_source E files) (ws_documents ws),
     for_each (validate_canvas_source E ws files) (ws_canvases ws),
     for_each (validate_asset_source E files) (ws_assets ws),
     done_with (try_fold (base_source_step E files) {} (ws_bases ws))])"

end
