(* ===== verification/Seal.thy ===== *)
theory Seal
  imports DraftPlan "HOL-Library.Option_ord"
begin

text \<open>
  The sealed draft plan of \<open>crates/okc-core/src/plan.rs\<close>: coverage of the ambiguities by conflicts,
  agreement of the operations with the paths, links and sources of the plan, and \<open>build_plan\<close>, which
  validates what it builds.
\<close>

section \<open>Coverage of ambiguities\<close>

type_synonym canvas_ambiguity = "canvas_id \<times> string \<times> string \<times> canvas_target list"

definition expected_canvas_ambiguities :: "workspace \<Rightarrow> canvas_ambiguity set" where
  "expected_canvas_ambiguities ws = set (concat (map (\<lambda>(_, c). List.map_filter (\<lambda>r. case cr_resolution r of
       CanvasAmbiguous ts \<Rightarrow> Some (cv_canvas_id c, cr_node_id r, cr_raw_path r, ts) | _ \<Rightarrow> None)
     (cv_references c)) (ws_canvases ws)))"

definition canvas_conflict_step ::
  "externs \<Rightarrow> workspace \<Rightarrow> canvas_ambiguity set \<Rightarrow> conflict \<Rightarrow> canvas_ambiguity set res" where
  "canvas_conflict_step E ws actual x = (case cx_subject x of
       Some (CanvasSubject i node raw) \<Rightarrow>
         bind_res (require PlanStale (btree_get (ws_canvases ws) i)) (\<lambda>c.
         bind_res (require PlanStale (find (\<lambda>r. cr_node_id r = node \<and> cr_raw_path r = raw) (cv_references c))) (\<lambda>r.
         (case cr_resolution r of
            CanvasAmbiguous ts \<Rightarrow>
              if cx_kind x \<noteq> LinkAmbiguity \<or> \<not> cx_required x \<or> cx_resolution x \<noteq> ConflictUnresolved
                \<or> cx_documents x \<noteq> remdups_adj (sort (document_targets_of ts))
                \<or> cx_message x \<noteq> canvas_ambiguity_message E i r ts \<or> cx_score x \<noteq> None
                \<or> (i, node, raw, ts) \<in> actual
              then Inl PlanStale else Inr (insert (i, node, raw, ts) actual)
          | _ \<Rightarrow> Inl PlanStale)))
     | _ \<Rightarrow> Inr actual)"

definition validate_canvas_conflict_coverage :: "externs \<Rightarrow> workspace \<Rightarrow> conflict list \<Rightarrow> unit res" where
  "validate_canvas_conflict_coverage E ws conflicts =
     bind_res (try_fold (canvas_conflict_step E ws) {} conflicts)
       (\<lambda>actual. reject (actual \<noteq> expected_canvas_ambiguities ws) PlanStale)"

type_synonym markdown_ambiguity = "document_id \<times> link_id \<times> string \<times> document_id list \<times> document_id list"

definition ambiguity_documents :: "document_id \<Rightarrow> document_id list \<Rightarrow> document_id list" where
  "ambiguity_documents representative candidates = remdups_adj (sort (representative # candidates))"

text \<open>The ambiguous links of a document; an index that is missing panics.\<close>

definition document_ambiguities ::
  "(document_id, document_id) btree \<Rightarrow> ir_document \<Rightarrow> markdown_ambiguity list res" where
  "document_ambiguities reps d =
     (let ambiguous = List.map_filter (\<lambda>l. case lk_resolution l of Ambiguous cs \<Rightarrow> Some (l, cs) | _ \<Rightarrow> None) (ir_links d)
      in try_map (\<lambda>(l, cs). bind_res (at_index reps (ir_document_id d)) (\<lambda>r.
           Inr (ir_document_id d, lk_link_id l, lk_raw_target l, cs, ambiguity_documents r cs))) ambiguous)"

definition markdown_conflict_step ::
  "workspace \<Rightarrow> (document_id, document_id) btree \<Rightarrow> markdown_ambiguity set \<Rightarrow> conflict \<Rightarrow> markdown_ambiguity set res" where
  "markdown_conflict_step ws reps actual x = (case cx_subject x of
       Some (MarkdownSubject i link raw) \<Rightarrow>
         bind_res (require PlanStale (btree_get (ws_documents ws) i)) (\<lambda>d.
         bind_res (require PlanStale (find (\<lambda>l. lk_link_id l = link \<and> lk_raw_target l = raw) (ir_links d))) (\<lambda>l.
         (case lk_resolution l of
            Ambiguous cs \<Rightarrow> bind_res (at_index reps i) (\<lambda>r.
              let documents = ambiguity_documents r cs in
              if cx_kind x \<noteq> LinkAmbiguity \<or> \<not> cx_required x \<or> cx_resolution x \<noteq> ConflictUnresolved
                \<or> cx_documents x \<noteq> documents \<or> cx_message x \<noteq> markdown_ambiguity_message raw \<or> cx_score x \<noteq> None
                \<or> (i, link, raw, cs, documents) \<in> actual
              then Inl PlanStale else Inr (insert (i, link, raw, cs, documents) actual))
          | _ \<Rightarrow> Inl PlanStale)))
     | _ \<Rightarrow> Inr actual)"

definition validate_markdown_conflict_coverage :: "workspace \<Rightarrow> exact_group list \<Rightarrow> conflict list \<Rightarrow> unit res" where
  "validate_markdown_conflict_coverage ws groups conflicts =
     (let reps = representative_map ws groups in
      bind_res (try_map (document_ambiguities reps) (map snd (ws_documents ws))) (\<lambda>expected.
      bind_res (try_fold (markdown_conflict_step ws reps) {} conflicts)
        (\<lambda>actual. reject (actual \<noteq> set (concat expected)) PlanStale)))"

section \<open>Operations against the plan\<close>

record covered =
  cd_destinations :: "string set"
  cd_previous :: "(string \<times> operation_id) option"
  cd_documents :: "string set"
  cd_assets :: "string set"
  cd_canvases :: "canvas_id set"
  cd_bases :: "base_id set"

definition nothing_covered :: covered where
  "nothing_covered = \<lparr>cd_destinations = {}, cd_previous = None, cd_documents = {}, cd_assets = {}, cd_canvases = {},
     cd_bases = {}\<rparr>"

definition cover_document ::
  "draft_plan \<Rightarrow> source_file \<Rightarrow> string \<Rightarrow> (rewrite_replacement list \<Rightarrow> bool) \<Rightarrow> covered \<Rightarrow> covered res" where
  "cover_document pl f destination planned_ok st =
     bind_res (require PlanStale (find (\<lambda>d. ir_source_file d = f) (map snd (ws_documents (dp_workspace pl))))) (\<lambda>d.
     bind_res (planned_markdown_replacements (dp_paths pl) d) (\<lambda>planned.
     and_then (reject (btree_get (op_documents (dp_paths pl)) (ir_document_id d) \<noteq> Some destination
         \<or> destination \<in> cd_documents st \<or> \<not> planned_ok planned) PlanStale)
       (Inr (st\<lparr>cd_documents := insert destination (cd_documents st)\<rparr>))))"

definition cover_asset :: "draft_plan \<Rightarrow> source_file \<Rightarrow> string \<Rightarrow> covered \<Rightarrow> covered res" where
  "cover_asset pl f destination st =
     bind_res (require PlanStale (find (\<lambda>(_, a). canonical_source a = Some f) (ws_assets (dp_workspace pl)))) (\<lambda>(i, _).
     and_then (reject (btree_get (op_assets (dp_paths pl)) i \<noteq> Some destination \<or> destination \<in> cd_assets st) PlanStale)
       (Inr (st\<lparr>cd_assets := insert destination (cd_assets st)\<rparr>)))"

definition find_canvas :: "draft_plan \<Rightarrow> source_file \<Rightarrow> canvas res" where
  "find_canvas pl f = require PlanStale (find (\<lambda>c. cv_source_file c = f) (map snd (ws_canvases (dp_workspace pl))))"

definition cover_canvas ::
  "draft_plan \<Rightarrow> canvas \<Rightarrow> string \<Rightarrow> bool \<Rightarrow> covered \<Rightarrow> covered res" where
  "cover_canvas pl c destination planned_ok st =
     and_then (reject (btree_get (op_canvases (dp_paths pl)) (cv_canvas_id c) \<noteq> Some destination
         \<or> cv_canvas_id c \<in> cd_canvases st \<or> \<not> planned_ok) PlanStale)
       (Inr (st\<lparr>cd_canvases := insert (cv_canvas_id c) (cd_canvases st)\<rparr>))"

text \<open>
  In a canvas copy the planned rewrites are computed only when the path and the coverage already agree,
  so the error of that computation comes second.
\<close>

definition cover_canvas_copy :: "draft_plan \<Rightarrow> source_file \<Rightarrow> string \<Rightarrow> covered \<Rightarrow> covered res" where
  "cover_canvas_copy pl f destination st =
     bind_res (find_canvas pl f) (\<lambda>c.
     bind_res (cover_canvas pl c destination True st) (\<lambda>st'.
     bind_res (planned_canvas_rewrites (dp_paths pl) c destination) (\<lambda>planned.
     and_then (reject (planned \<noteq> []) PlanStale) (Inr st'))))"

definition cover_base :: "draft_plan \<Rightarrow> source_file \<Rightarrow> string \<Rightarrow> covered \<Rightarrow> covered res" where
  "cover_base pl f destination st =
     bind_res (require PlanStale (find (\<lambda>b. ba_source_file b = f) (ws_bases (dp_workspace pl)))) (\<lambda>b.
     and_then (reject (btree_get (op_bases (dp_paths pl)) (ba_base_id b) \<noteq> Some destination
         \<or> ba_base_id b \<in> cd_bases st) PlanStale)
       (Inr (st\<lparr>cd_bases := insert (ba_base_id b) (cd_bases st)\<rparr>)))"

definition cover_copy :: "draft_plan \<Rightarrow> source_file \<Rightarrow> string \<Rightarrow> file_kind \<Rightarrow> covered \<Rightarrow> covered res" where
  "cover_copy pl f destination kind st = and_then (reject (sf_kind f \<noteq> kind) PlanStale)
     (case kind of
        Markdown \<Rightarrow> cover_document pl f destination (\<lambda>planned. planned = []) st
      | AssetFile \<Rightarrow> cover_asset pl f destination st
      | CanvasFile \<Rightarrow> cover_canvas_copy pl f destination st
      | BaseFile \<Rightarrow> cover_base pl f destination st)"

text \<open>What an operation covers, and the identifier it must have.\<close>

definition cover_operation ::
  "externs \<Rightarrow> parsers \<Rightarrow> draft_plan \<Rightarrow> source_file \<Rightarrow> output_operation \<Rightarrow> covered \<Rightarrow> (covered \<times> operation_id) res" where
  "cover_operation E Y pl f x st = (case x of
       Copy s kind \<Rightarrow>
         bind_res (cover_copy pl f (os_destination s) kind st) (\<lambda>st.
           Inr (st, copy_operation_id E (os_source_id s) (os_source_path s) (os_destination s) (os_expected_hash s)))
     | RewriteMarkdown s output_hash rs \<Rightarrow>
         and_then (reject (sf_kind f \<noteq> Markdown) PlanStale)
         (bind_res (cover_document pl f (os_destination s) (\<lambda>planned. planned \<noteq> [] \<and> planned = rs) st) (\<lambda>st.
           Inr (st, markdown_rewrite_operation_id E f (os_destination s) output_hash rs)))
     | RewriteCanvas s output_hash rs \<Rightarrow>
         and_then (reject (sf_kind f \<noteq> CanvasFile) PlanStale)
         (bind_res (find_canvas pl f) (\<lambda>c.
          bind_res (planned_canvas_rewrites (dp_paths pl) c (os_destination s)) (\<lambda>planned.
          bind_res (render_rewritten_canvas E Y c rs) (\<lambda>rendered.
          bind_res (cover_canvas pl c (os_destination s) (planned = rs \<and> from_bytes E rendered = output_hash) st) (\<lambda>st.
           Inr (st, canvas_rewrite_operation_id E f (os_destination s) output_hash rs)))))))"

definition operation_step ::
  "externs \<Rightarrow> parsers \<Rightarrow> draft_plan \<Rightarrow> covered \<Rightarrow> output_operation \<Rightarrow> covered res" where
  "operation_step E Y pl st x =
     (let s = op_source_of x; k = portable_key E (destination_of x); current = (destination_of x, operation_id_of x) in
      and_then (seq_checks [
        validate_output_logical_path E (destination_of x) (dp_policy pl),
        reject (k \<in> cd_destinations st) PlanStale,
        reject (case cd_previous st of None \<Rightarrow> False | Some q \<Rightarrow> current \<le> q) PlanStale])
      (bind_res (require PlanStale (btree_get (sealed_files (dp_snapshots pl))
          (os_source_id s, os_snapshot_id s, os_source_path s))) (\<lambda>f.
       and_then (reject (sf_content_hash f \<noteq> os_expected_hash s) PlanStale)
       (bind_res (cover_operation E Y pl f x
           (st\<lparr>cd_destinations := insert k (cd_destinations st), cd_previous := Some current\<rparr>)) (\<lambda>(st, expected).
        and_then (reject (operation_id_of x \<noteq> expected) PlanStale) (Inr st))))))"

definition key_set :: "('k, 'v) btree \<Rightarrow> 'k set" where
  "key_set m = set (map fst m)"

definition value_set :: "('k, 'v) btree \<Rightarrow> 'v set" where
  "value_set m = set (map snd m)"

definition base_ids :: "workspace \<Rightarrow> base_id set" where
  "base_ids ws = set (map ba_base_id (ws_bases ws))"

definition output_paths_of :: "output_path_maps \<Rightarrow> string list" where
  "output_paths_of m = map snd (op_documents m) @ map snd (op_assets m) @ map snd (op_canvases m) @ map snd (op_bases m)"

definition validate_plan_paths_and_operations :: "externs \<Rightarrow> parsers \<Rightarrow> draft_plan \<Rightarrow> unit res" where
  "validate_plan_paths_and_operations E Y pl = (let ws = dp_workspace pl; m = dp_paths pl in
     and_then (seq_checks [
       reject (key_set (op_documents m) \<noteq> key_set (ws_documents ws)) PlanStale,
       reject (key_set (op_assets m) \<noteq> key_set (ws_assets ws)) PlanStale,
       reject (key_set (op_canvases m) \<noteq> key_set (ws_canvases ws)) PlanStale,
       reject (key_set (op_bases m) \<noteq> base_ids ws) PlanStale,
       for_each (\<lambda>path. validate_output_logical_path E path (dp_policy pl)) (output_paths_of m)])
     (bind_res (try_fold (operation_step E Y pl) nothing_covered (dp_operations pl)) (\<lambda>st.
      reject (cd_documents st \<noteq> value_set (op_documents m) \<or> cd_assets st \<noteq> value_set (op_assets m)
        \<or> cd_canvases st \<noteq> key_set (ws_canvases ws) \<or> cd_bases st \<noteq> base_ids ws) PlanStale)))"

section \<open>Integrity\<close>

definition conflict_order_step :: "externs \<Rightarrow> string option \<Rightarrow> conflict \<Rightarrow> string option res" where
  "conflict_order_step E previous x = and_then (validate_conflict E x)
     (and_then (reject (case previous of None \<Rightarrow> False | Some q \<Rightarrow> cx_conflict_id x \<le> q) PlanStale)
       (Inr (Some (cx_conflict_id x))))"

definition validate_draft_plan :: "externs \<Rightarrow> parsers \<Rightarrow> writers \<Rightarrow> draft_plan \<Rightarrow> unit res" where
  "validate_draft_plan E Y W pl =
     and_then (seq_checks [
       reject (dp_schema_version pl \<noteq> plan_schema) PlanStale,
       reject (dp_compiler_version pl \<noteq> package_version) PlanStale,
       validate_policy E (dp_policy pl),
       validate_snapshot_set E (dp_snapshots pl) (dp_policy pl)])
     (let policy_hash = semantic_hash E W (dp_policy pl) in
      and_then (seq_checks [
        reject (dp_inspection_hash pl \<noteq>
          calculate_inspection_hash E 2 (dp_compiler_version pl) policy_hash (dp_snapshots pl)) PlanStale,
        reject (dp_projection_hash pl \<noteq> projection_hash E W (dp_workspace pl)) PlanStale,
        validate_workspace_sources E (dp_workspace pl) (dp_snapshots pl),
        validate_plan_paths_and_operations E Y pl])
      (bind_res (calculate_resource_estimate (dp_snapshots pl) (dp_workspace pl) (dp_operations pl)) (\<lambda>estimate.
       seq_checks [
         reject (dp_estimate pl \<noteq> estimate) PlanStale,
         done_with (try_fold (conflict_order_step E) None (dp_conflicts pl)),
         validate_markdown_conflict_coverage (dp_workspace pl) (dp_exact_groups pl) (dp_conflicts pl),
         validate_canvas_conflict_coverage E (dp_workspace pl) (dp_conflicts pl),
         reject (dp_plan_id pl \<noteq> calculate_plan_id E W policy_hash pl) PlanStale])))"

section \<open>Building\<close>

definition member_paths ::
  "(document_id, document_id) btree \<Rightarrow> (document_id, string) btree \<Rightarrow> (document_id, string) btree" where
  "member_paths reps out = foldl (\<lambda>m (member, representative). case btree_get m representative of
       None \<Rightarrow> m | Some path \<Rightarrow> btree_insert member path m) out reps"

definition truncation_warning :: "workspace \<Rightarrow> document_id \<Rightarrow> diagnostic" where
  "truncation_warning ws i = (let d = btree_get (ws_documents ws) i in
     \<lparr>dg_code = NearDuplicateCandidate, dg_severity = Warning,
      dg_message = ''near-duplicate candidate pool was truncated by the configured resource bound'',
      dg_logical_path = map_option (\<lambda>x. sf_logical_path (ir_source_file x)) d,
      dg_source_file_id = map_option (\<lambda>x. sf_file_id (ir_source_file x)) d,
      dg_document_id = Some i, dg_span = None,
      dg_remediation = Some ''review common templates or raise max_candidates_per_document explicitly''\<rparr>)"

fun code_rank :: "diagnostic_code \<Rightarrow> nat" where
  "code_rank ExcludedPath = 0"
| "code_rank DiagUnsafePath = 1"
| "code_rank DiagResourceLimit = 2"
| "code_rank InvalidUtf8 = 3"
| "code_rank MalformedFrontmatter = 4"
| "code_rank MalformedMarkdown = 5"
| "code_rank MalformedCanvas = 6"
| "code_rank OpaqueBaseUnvalidated = 7"
| "code_rank ExactDuplicate = 8"
| "code_rank NearDuplicateCandidate = 9"
| "code_rank DiagPathExact = 10"
| "code_rank DiagPathCasefold = 11"
| "code_rank DiagUnicodeNormalization = 12"
| "code_rank PathSanitized = 13"
| "code_rank DiagTitleAmbiguity = 14"
| "code_rank DiagAliasAmbiguity = 15"
| "code_rank DiagFrontmatterValue = 16"
| "code_rank LinkUnresolved = 17"
| "code_rank DiagLinkAmbiguity = 18"
| "code_rank DiagProposalRejected = 19"
| "code_rank DiagApprovalRequired = 20"
| "code_rank SourceChanged = 21"
| "code_rank DiagVerificationFailed = 22"

definition diagnostic_order :: "diagnostic \<Rightarrow> string option \<times> nat \<times> string" where
  "diagnostic_order d = (dg_logical_path d, code_rank (dg_code d), dg_message d)"

definition build_plan ::
  "externs \<Rightarrow> parsers \<Rightarrow> writers \<Rightarrow> (string \<Rightarrow> string list) \<Rightarrow> reread \<Rightarrow> inspection \<Rightarrow> compiler_policy \<Rightarrow> draft_plan res" where
  "build_plan E Y W G reread ins p =
     and_then (seq_checks [validate_policy E p, reject (in_policy_hash ins \<noteq> semantic_hash E W p) PlanStale])
     (let ws = in_workspace ins in
      bind_res (analyze E G (map snd (ws_documents ws)) (dedup p)) (\<lambda>report.
      let reps = representative_map ws (dr_exact_groups report) in
      bind_res (allocate_document_paths E ws reps p) (\<lambda>(representative_paths, document_conflicts).
      let documents = member_paths reps representative_paths in
      bind_res (allocate_asset_paths E ws p) (\<lambda>(assets, asset_diagnostics).
      bind_res (allocate_canvas_and_base_paths E ws documents assets p) (\<lambda>(canvases, bases, auxiliary_conflicts).
      bind_res (add_lookup_conflicts E ws reps (document_conflicts @ auxiliary_conflicts)) (\<lambda>conflicts.
      bind_res (add_frontmatter_conflicts E ws conflicts) (\<lambda>conflicts.
      bind_res (try_map (near_duplicate_conflict E) (dr_near_candidates report)) (\<lambda>near_conflicts.
      let m = \<lparr>op_documents = documents, op_assets = assets, op_canvases = canvases, op_bases = bases\<rparr>;
          diagnostics = in_diagnostics ins @ asset_diagnostics @ map (truncation_warning ws) (dr_truncated report) in
      bind_res (resolve_links E ws reps m (conflicts @ near_conflicts, diagnostics)) (\<lambda>(ws, conflicts, diagnostics).
      bind_res (build_operations E Y reread ws reps m (in_snapshots ins) p) (\<lambda>operations.
      bind_res (calculate_resource_estimate (in_snapshots ins) ws operations) (\<lambda>estimate.
      let pl = \<lparr>dp_schema_version = plan_schema, dp_compiler_version = package_version,
            dp_plan_id = TypedId (ContentHash []), dp_projection_hash = projection_hash E W ws, dp_policy = p,
            dp_inspection_hash = in_inspection_hash ins, dp_snapshots = in_snapshots ins, dp_workspace = ws,
            dp_paths = m, dp_operations = operations, dp_estimate = estimate,
            dp_exact_groups = dr_exact_groups report, dp_near_candidates = dr_near_candidates report,
            dp_conflicts = sort_key cx_conflict_id conflicts, dp_diagnostics = sort_key diagnostic_order diagnostics\<rparr>;
          pl = pl\<lparr>dp_plan_id := calculate_plan_id E W (semantic_hash E W p) pl\<rparr>
      in and_then (validate_draft_plan E Y W pl) (Inr pl))))))))))))"

end
