(* ===== verification/DedupFacts.thy ===== *)
theory DedupFacts
  imports Dedup
begin

text \<open>
  Exact groups are the classes of equal content and do not depend on the order of the documents;
  near candidates are ordered pairs of representatives, above the threshold, a bounded number per
  document.
\<close>

section \<open>Maps of lists\<close>

lemma multi_push_facts:
  "btree_ok m \<Longrightarrow> btree_ok (multi_push k v m)"
  "btree_ok m \<Longrightarrow> btree_get (multi_push k v m) k' =
     (if k' = k then Some ((case btree_get m k of None \<Rightarrow> [] | Some vs \<Rightarrow> vs) @ [v]) else btree_get m k')"
  by (simp_all add: multi_push_def bt.inv_insert bt.get_insert)

lemma multi_fold:
  "btree_ok m \<Longrightarrow> btree_ok (foldl (\<lambda>m (k, v). multi_push k v m) m kvs) \<and>
     btree_get (foldl (\<lambda>m (k, v). multi_push k v m) m kvs) k =
       (let vs = map snd (filter (\<lambda>kv. fst kv = k) kvs)
        in if vs = [] then btree_get m k else Some ((case btree_get m k of None \<Rightarrow> [] | Some vs \<Rightarrow> vs) @ vs))"
proof (induction kvs arbitrary: m)
  case (Cons kv kvs)
  obtain k' v where kv: "kv = (k', v)" by fastforce
  have ok: "btree_ok (multi_push k' v m)" by (rule multi_push_facts(1) [OF Cons.prems])
  show ?case
    using Cons.IH [OF ok] by (auto simp: kv multi_push_facts(2) [OF Cons.prems] Let_def split: option.splits)
qed (simp add: Let_def)

lemma multi_ok: "btree_ok (multi_collect kvs)"
  using multi_fold [OF bt.inv_empty, of kvs] by (simp add: multi_collect_def)

lemma multi_get:
  "btree_get (multi_collect kvs) k = (let vs = map snd (filter (\<lambda>kv. fst kv = k) kvs) in if vs = [] then None else Some vs)"
  using multi_fold [OF bt.inv_empty, of kvs k] by (simp add: multi_collect_def bt.get_empty Let_def)

lemma multi_entries:
  "(k, vs) \<in> set (multi_collect kvs) \<longleftrightarrow> vs = map snd (filter (\<lambda>kv. fst kv = k) kvs) \<and> vs \<noteq> []"
  by (simp add: bt.entries_get [OF multi_ok] multi_get Let_def) (auto split: if_splits)

section \<open>Exact groups\<close>

definition content_key :: "ir_document \<Rightarrow> content_hash \<times> content_hash" where
  "content_key d = (ir_body_hash d, ir_frontmatter_hash d)"

lemma exact_map_entries:
  "(k, ms) \<in> set (exact_map docs) \<longleftrightarrow> ms = filter (\<lambda>d. content_key d = k) docs \<and> ms \<noteq> []"
proof -
  have "map snd (filter (\<lambda>kv. fst kv = k) (map (\<lambda>d. ((ir_body_hash d, ir_frontmatter_hash d), d)) docs)) =
      filter (\<lambda>d. content_key d = k) docs"
    by (induction docs) (auto simp: content_key_def)
  then show ?thesis unfolding exact_map_def multi_entries by simp
qed

lemma sorted_members_facts:
  "set (sorted_members ms) = set ms" "mset (sorted_members ms) = mset ms" "length (sorted_members ms) = length ms"
  "sorted_members ms = [] \<longleftrightarrow> ms = []"
proof -
  show "length (sorted_members ms) = length ms" by (simp add: sorted_members_def)
  then show "sorted_members ms = [] \<longleftrightarrow> ms = []" by (metis length_0_conv)
qed (simp_all add: sorted_members_def)

lemma exact_groups_set:
  "g \<in> set (exact_groups docs) \<longleftrightarrow>
     (\<exists>k. g = exact_group_of (k, filter (\<lambda>d. content_key d = k) docs) \<and> 1 < length (filter (\<lambda>d. content_key d = k) docs))"
  (is "_ = (\<exists>k. ?P k)")
proof
  assume "g \<in> set (exact_groups docs)"
  then obtain k ms where "(k, ms) \<in> set (exact_map docs)" "1 < length ms" "g = exact_group_of (k, ms)"
    by (auto simp: exact_groups_def)
  then show "\<exists>k. ?P k" unfolding exact_map_entries by blast
next
  assume "\<exists>k. ?P k"
  then obtain k where k: "?P k" ..
  then have "(k, filter (\<lambda>d. content_key d = k) docs) \<in> set (exact_map docs)"
    unfolding exact_map_entries by auto
  with k show "g \<in> set (exact_groups docs)" by (force simp: exact_groups_def)
qed

text \<open>
  C40: The exact groups are exactly the classes of documents with equal body and front matter that
  have more than one member: members share both hashes, no other document does, the canonical
  document comes first in the order of paths, and two groups never share a member.
\<close>

theorem exact_groups_are_content_classes:
  assumes "distinct (map ir_document_id docs)"
  shows "(\<forall>g \<in> set (exact_groups docs). 2 \<le> length (eg_members g) \<and> distinct (eg_members g) \<and>
      eg_canonical g = hd (eg_members g) \<and>
      set (eg_members g) = ir_document_id ` {d \<in> set docs. ir_body_hash d = eg_body_hash g \<and> ir_frontmatter_hash d = eg_frontmatter_hash g}) \<and>
    (\<forall>a \<in> set docs. \<forall>b \<in> set docs. a \<noteq> b \<and> ir_body_hash a = ir_body_hash b \<and> ir_frontmatter_hash a = ir_frontmatter_hash b \<longrightarrow>
      (\<exists>!g. g \<in> set (exact_groups docs) \<and> ir_document_id a \<in> set (eg_members g) \<and> ir_document_id b \<in> set (eg_members g)))"
proof -
  let ?cls = "\<lambda>k. filter (\<lambda>d. content_key d = k) docs"
  have fields: "eg_members (exact_group_of (k, ms)) = map ir_document_id (sorted_members ms)"
    "eg_canonical (exact_group_of (k, ms)) = ir_document_id (hd (sorted_members ms))"
    "(eg_body_hash (exact_group_of (k, ms)), eg_frontmatter_hash (exact_group_of (k, ms))) = k" for k ms
    by (cases k, simp add: exact_group_of_def Let_def)+
  have members: "set (eg_members (exact_group_of (k, ?cls k))) = ir_document_id ` {d \<in> set docs. content_key d = k}" for k
    by (simp add: fields(1) sorted_members_facts)
  have inj: "a = b" if "a \<in> set docs" "b \<in> set docs" "ir_document_id a = ir_document_id b" for a b
    using assms that by (auto simp: distinct_map dest: inj_onD)
  have "2 \<le> length (eg_members g) \<and> distinct (eg_members g) \<and> eg_canonical g = hd (eg_members g) \<and>
      set (eg_members g) = ir_document_id ` {d \<in> set docs. ir_body_hash d = eg_body_hash g \<and> ir_frontmatter_hash d = eg_frontmatter_hash g}"
    if "g \<in> set (exact_groups docs)" for g
  proof -
    obtain k where k: "g = exact_group_of (k, ?cls k)" "1 < length (?cls k)" using \<open>g \<in> _\<close> unfolding exact_groups_set by blast
    have "distinct (map ir_document_id (?cls k))" using assms by (simp add: distinct_map_filter)
    then have "distinct (eg_members g)"
      using mset_eq_imp_distinct_iff [of "map ir_document_id (sorted_members (?cls k))" "map ir_document_id (?cls k)"]
      by (simp add: k(1) fields(1) sorted_members_facts)
    moreover have "sorted_members (?cls k) \<noteq> []" using k(2) sorted_members_facts(4) by fastforce
    then have "eg_canonical g = hd (eg_members g)" by (simp add: k(1) fields hd_map)
    moreover have "{d \<in> set docs. content_key d = k} = {d \<in> set docs. ir_body_hash d = eg_body_hash g \<and> ir_frontmatter_hash d = eg_frontmatter_hash g}"
      using fields(3) [of k "?cls k"] k(1) by (auto simp: content_key_def)
    ultimately show ?thesis using k members [of k] by (simp add: fields(1) sorted_members_facts)
  qed
  moreover have "\<exists>!g. g \<in> set (exact_groups docs) \<and> ir_document_id a \<in> set (eg_members g) \<and> ir_document_id b \<in> set (eg_members g)"
    if ab: "a \<in> set docs" "b \<in> set docs" "a \<noteq> b" "content_key a = content_key b" for a b
  proof (rule ex1I)
    let ?g = "exact_group_of (content_key a, ?cls (content_key a))"
    have "{a, b} \<subseteq> set (?cls (content_key a))" using ab by auto
    then have "card {a, b} \<le> length (?cls (content_key a))" by (metis card_mono card_length finite_set order_trans)
    then have "1 < length (?cls (content_key a))" using ab(3) by simp
    then have "?g \<in> set (exact_groups docs)" unfolding exact_groups_set by blast
    then show "?g \<in> set (exact_groups docs) \<and> ir_document_id a \<in> set (eg_members ?g) \<and> ir_document_id b \<in> set (eg_members ?g)"
      using ab members [of "content_key a"] by auto
    fix g assume g: "g \<in> set (exact_groups docs) \<and> ir_document_id a \<in> set (eg_members g) \<and> ir_document_id b \<in> set (eg_members g)"
    then obtain k where k: "g = exact_group_of (k, ?cls k)" unfolding exact_groups_set by blast
    then obtain d where "d \<in> set docs" "content_key d = k" "ir_document_id d = ir_document_id a" using g members [of k] by force
    with inj ab(1) have "k = content_key a" by blast
    with k show "g = ?g" by simp
  qed
  ultimately show ?thesis by (simp add: content_key_def)
qed


lemma sorted_members_perm:
  assumes "mset xs = mset ys" "distinct (map ir_document_id xs)"
  shows "sorted_members xs = sorted_members ys"
  unfolding sorted_members_def
proof (rule sort_key_inj_permute [OF assms(1)])
  show "inj_on canonical_tuple (set xs)"
    using assms(2) by (auto simp: canonical_tuple_def distinct_map intro!: inj_onI dest: inj_onD)
qed

lemma content_class_perm:
  assumes "mset docs = mset docs'" "distinct (map ir_document_id docs)"
  shows "exact_group_of (k, filter P docs) = exact_group_of (k, filter P docs')"
proof -
  have "mset (filter P docs) = mset (filter P docs')" using assms(1) by simp
  moreover have "distinct (map ir_document_id (filter P docs))" using assms(2) by (simp add: distinct_map_filter)
  ultimately have "sorted_members (filter P docs) = sorted_members (filter P docs')" by (rule sorted_members_perm)
  then show ?thesis by (simp add: exact_group_of_def split: prod.split)
qed

lemma exact_groups_distinct:
  assumes "distinct (map ir_document_id docs)"
  shows "distinct (map eg_canonical (exact_groups docs))"
proof -
  have keyed: "\<exists>d \<in> set docs. content_key d = fst e \<and> eg_canonical (exact_group_of e) = ir_document_id d"
    if "e \<in> set (exact_map docs)" for e
  proof -
    obtain k ms where e: "e = (k, ms)" by fastforce
    with that have ms: "ms = filter (\<lambda>d. content_key d = k) docs" "ms \<noteq> []" using exact_map_entries by blast+
    then have "hd (sorted_members ms) \<in> set ms" using sorted_members_facts(1,4) hd_in_set by metis
    with ms e show ?thesis by (cases k) (auto simp: exact_group_of_def Let_def)
  qed
  have ok: "btree_ok (exact_map docs)" by (simp add: exact_map_def multi_ok)
  have "inj_on (\<lambda>e. eg_canonical (exact_group_of e)) (set (exact_map docs))"
  proof (rule inj_onI)
    fix e e' assume e: "e \<in> set (exact_map docs)" "e' \<in> set (exact_map docs)"
      "eg_canonical (exact_group_of e) = eg_canonical (exact_group_of e')"
    then have "fst e = fst e'" using keyed [OF e(1)] keyed [OF e(2)] distinct_map_eq [OF assms] by metis
    with e ok show "e = e'" by (metis bt.entries_get option.inject prod.collapse)
  qed
  moreover have "distinct (exact_map docs)" using ok unfolding btree_ok_def by (metis distinct_map strict_sorted_distinct)
  ultimately have "distinct (map (\<lambda>e. eg_canonical (exact_group_of e)) (exact_map docs))" by (simp add: distinct_map)
  then have "distinct (map eg_canonical (map exact_group_of (filter (\<lambda>(_, ms). 1 < length ms) (exact_map docs))))"
    by (simp add: distinct_map_filter comp_def)
  moreover have "distinct (map f (sort_key f xs)) \<longleftrightarrow> distinct (map f xs)" for f :: "exact_group \<Rightarrow> document_id" and xs
    by (rule mset_eq_imp_distinct_iff) simp
  ultimately show ?thesis unfolding exact_groups_def by simp
qed

text \<open>
  The exact groups do not depend on the order in which the documents are given: the sources may
  be scanned in any order.
\<close>

lemma exact_groups_ignore_order:
  assumes "mset docs = mset docs'" "distinct (map ir_document_id docs)"
  shows "exact_groups docs = exact_groups docs'"
proof -
  have len: "length (filter P docs) = length (filter P docs')" for P
    using assms(1) by (metis mset_filter size_mset)
  have groups: "set (exact_groups docs) = set (exact_groups docs')"
    by (auto simp: exact_groups_set content_class_perm [OF assms] len)
  have sorted: "sort_key eg_canonical (exact_groups ds) = exact_groups ds" for ds
    by (simp add: exact_groups_def sort_key_id_if_sorted)
  have "distinct (map ir_document_id docs')" using assms by (metis mset_eq_imp_distinct_iff mset_map)
  then have d: "distinct (exact_groups docs)" "distinct (exact_groups docs')" "inj_on eg_canonical (set (exact_groups docs))"
    using exact_groups_distinct [OF assms(2)] exact_groups_distinct [of docs'] by (simp_all add: distinct_map)
  then have "mset (exact_groups docs) = mset (exact_groups docs')"
    using groups by (simp add: set_eq_iff_mset_eq_distinct)
  then show ?thesis using sort_key_inj_permute [OF _ d(3), of "exact_groups docs'"] by (simp add: sorted)
qed

section \<open>Near candidates\<close>

definition ordered_within :: "document_id set \<Rightarrow> (document_id \<times> document_id) set \<Rightarrow> bool" where
  "ordered_within M ps \<longleftrightarrow> finite ps \<and> (\<forall>(a, b) \<in> ps. a < b \<and> a \<in> M \<and> b \<in> M)"

lemma pair_with_within:
  "left \<in> M \<Longrightarrow> set ms \<subseteq> M \<Longrightarrow> left \<notin> set ms \<Longrightarrow> ordered_within M (ps_pairs st) \<Longrightarrow>
     ordered_within M (ps_pairs (pair_with limit left ms st))"
proof (induction limit left ms st rule: pair_with.induct)
  case (2 limit left right rest st)
  have "ordered_within M (insert (ordered_pair left right) (ps_pairs st))"
    using 2(4,5,6,7) by (auto simp: ordered_within_def ordered_pair_def)
  with 2 show ?case by simp
qed simp

lemma add_bounded_pairs_within:
  "set ms \<subseteq> M \<Longrightarrow> distinct ms \<Longrightarrow> ordered_within M (ps_pairs st) \<Longrightarrow>
     ordered_within M (ps_pairs (add_bounded_pairs limit ms st))"
  by (induction limit ms st rule: add_bounded_pairs.induct) (simp_all add: pair_with_within)

lemma all_pairs_within:
  "(\<And>ms. ms \<in> set mss \<Longrightarrow> set ms \<subseteq> M \<and> distinct ms) \<Longrightarrow> ordered_within M (ps_pairs st) \<Longrightarrow>
     ordered_within M (ps_pairs (foldl (\<lambda>st ms. add_bounded_pairs limit ms st) st mss))"
  by (induction mss arbitrary: st) (simp_all add: add_bounded_pairs_within)

lemma multi_members:
  assumes "distinct kvs" "ms \<in> set (map snd (multi_collect kvs))"
  shows "distinct ms \<and> set ms \<subseteq> snd ` set kvs"
proof -
  obtain k where "ms = map snd (filter (\<lambda>kv. fst kv = k) kvs)" using assms(2) multi_entries by fastforce
  moreover have "inj_on snd (set (filter (\<lambda>kv. fst kv = k) kvs))" by (auto intro!: inj_onI prod_eqI)
  ultimately show ?thesis using assms(1) by (auto simp: distinct_map)
qed

lemma band_entries:
  assumes "distinct (map fst sigs)" "distinct bands"
  shows "distinct (concat (map (\<lambda>(d, s). map (\<lambda>band. ((band, f band s), d)) bands) sigs))"
  using assms(1)
proof (induction sigs)
  case (Cons e sigs)
  obtain d s where e: "e = (d, s)" by fastforce
  have "distinct (map (\<lambda>band. ((band, f band s), d)) bands)" using assms(2) by (auto simp: distinct_map intro: inj_onI)
  with Cons show ?case by (force simp: e)
qed simp

lemma bucket_members:
  assumes "btree_ok sigs" "ms \<in> set (map snd (buckets_of sigs bands rows))"
  shows "distinct ms \<and> set ms \<subseteq> fst ` set sigs"
proof -
  have "distinct (map fst sigs)" using assms(1) unfolding btree_ok_def by (rule strict_sorted_distinct)
  from multi_members [OF band_entries [OF this distinct_upt] assms(2) [unfolded buckets_of_def]]
  show ?thesis by force
qed

lemma short_members:
  assumes "distinct (map ir_document_id docs)" "ms \<in> set (map snd (short_texts_of G docs))"
  shows "distinct ms \<and> set ms \<subseteq> ir_document_id ` set docs"
proof -
  have "distinct (map (\<lambda>d. (ir_comparison_text d, ir_document_id d)) (filter (\<lambda>d. length (G (ir_comparison_text d)) < 5) docs))"
    using assms(1) by (auto simp: distinct_map distinct_filter inj_on_def)
  from multi_members [OF this assms(2) [unfolded short_texts_of_def]] show ?thesis by force
qed

lemma signature_ids:
  "btree_ok (signatures_of E G n docs)" "fst ` set (signatures_of E G n docs) \<subseteq> ir_document_id ` set docs"
proof -
  show "btree_ok (signatures_of E G n docs)" by (simp add: signatures_of_def btree_collect_facts)
  have "fst ` set (signatures_of E G n docs) = fst ` set (List.map_filter
     (\<lambda>d. let g = G (ir_comparison_text d) in if length g < 5 then None else Some (ir_document_id d, minhash_signature E g n)) docs)"
    unfolding signatures_of_def set_map [symmetric] by (rule btree_collect_facts(4) [unfolded set_map [symmetric]])
  then show "fst ` set (signatures_of E G n docs) \<subseteq> ir_document_id ` set docs"
    by (auto simp: List.map_filter_def Let_def split: if_splits)
qed

definition mentions :: "document_id \<Rightarrow> near_candidate \<Rightarrow> bool" where
  "mentions d c \<longleftrightarrow> nc_left c = d \<or> nc_right c = d"

definition accepted_ok :: "nat \<Rightarrow> near_candidate set \<Rightarrow>
    (document_id, nat) btree \<times> near_candidate list \<times> document_id set \<Rightarrow> bool" where
  "accepted_ok limit C st \<longleftrightarrow> (case st of (accepted, candidates, _) \<Rightarrow> btree_ok accepted \<and> set candidates \<subseteq> C \<and>
     (\<forall>d. count_of accepted d = length (filter (mentions d) candidates)) \<and>
     (\<forall>d. length (filter (mentions d) candidates) \<le> limit))"

lemma bump_facts:
  assumes "btree_ok m"
  shows "btree_ok (bump d m)" "count_of (bump d m) d' = (if d' = d then count_of m d + 1 else count_of m d')"
  using bt.inv_insert [OF assms] by (simp_all add: bump_def count_of_def bt.get_insert [OF assms])

lemma accept_step_ok:
  assumes "accepted_ok limit C st" "c \<in> C" "nc_left c \<noteq> nc_right c"
  shows "accepted_ok limit C (accept_step limit st c)"
proof -
  obtain accepted cs ts where st: "st = (accepted, cs, ts)" by (cases st)
  have ok: "btree_ok accepted" "btree_ok (bump (nc_left c) accepted)" using assms(1) by (simp_all add: accepted_ok_def st bump_facts)
  have inv: "set cs \<subseteq> C" "count_of accepted d = length (filter (mentions d) cs)" "length (filter (mentions d) cs) \<le> limit" for d
    using assms(1) unfolding accepted_ok_def st prod.case by blast+
  show ?thesis
  proof (cases "limit \<le> count_of accepted (nc_left c) \<or> limit \<le> count_of accepted (nc_right c)")
    case True
    then have "accept_step limit st c = (accepted, cs, insert (nc_left c) (insert (nc_right c) ts))"
      by (simp only: accept_step_def st prod.case if_True)
    moreover have "accepted_ok limit C (accepted, cs, us) = accepted_ok limit C st" for us
      by (simp add: accepted_ok_def st)
    ultimately show ?thesis using assms(1) by simp
  next
    case False
    let ?accepted = "bump (nc_right c) (bump (nc_left c) accepted)"
    have count: "count_of ?accepted d = count_of accepted d + (if mentions d c then 1 else 0)" for d
      using assms(3) by (auto simp: bump_facts [OF ok(1)] bump_facts [OF ok(2)] mentions_def)
    have "count_of ?accepted d = length (filter (mentions d) (cs @ [c]))" "length (filter (mentions d) (cs @ [c])) \<le> limit" for d
      using inv(2,3) [of d] False unfolding count by (auto simp: mentions_def)
    moreover have "accept_step limit st c = (?accepted, cs @ [c], ts)" using False by (simp only: accept_step_def st prod.case if_False)
    ultimately show ?thesis using assms(2) inv(1) bump_facts(1) [OF ok(2)] by (simp add: accepted_ok_def del: filter_append)
  qed
qed

lemma accept_all_ok:
  "accepted_ok limit C st \<Longrightarrow> set cs \<subseteq> C \<Longrightarrow> (\<And>c. c \<in> C \<Longrightarrow> nc_left c \<noteq> nc_right c) \<Longrightarrow>
     accepted_ok limit C (foldl (accept_step limit) st cs)"
  by (induction cs arbitrary: st) (simp_all add: accept_step_ok)

lemma near_candidates_ok:
  assumes "distinct (map ir_document_id docs)" "near_candidates E G docs p = (cs, ts)"
  shows "(\<forall>c \<in> set cs. nc_left c < nc_right c \<and> nc_left c \<in> ir_document_id ` set docs \<and> nc_right c \<in> ir_document_id ` set docs \<and>
      f64_at_least (nc_similarity c) (near_threshold p)) \<and>
    (\<forall>d. length (filter (mentions d) cs) \<le> max_candidates_per_document p)"
proof -
  let ?M = "ir_document_id ` set docs"
  define sigs where "sigs = signatures_of E G (minhash_components p) docs"
  define limit where "limit = max (saturating_mul_u64 (max_candidates_per_document p) 4) 1"
  define mss where "mss = sort (remdups (map snd (buckets_of sigs (lsh_bands p) (rows_per_band p)))) @ map snd (short_texts_of G docs)"
  define st where "st = foldl (\<lambda>st ms. add_bounded_pairs limit ms st) \<lparr>ps_pairs = {}, ps_counts = [], ps_truncated = {}\<rparr> mss"
  define scored where "scored = filter (\<lambda>c. f64_at_least (nc_similarity c) (near_threshold p))
    (map (\<lambda>pair. \<lparr>nc_left = fst pair, nc_right = snd pair, nc_similarity = similarity sigs (minhash_components p) pair\<rparr>)
      (sorted_list_of_set (ps_pairs st)))"
  define res where "res = foldl (accept_step (max_candidates_per_document p)) ([], [], ps_truncated st) (sort_key candidate_order scored)"
  have "fst (snd res) = cs"
    using assms(2) unfolding near_candidates_def Let_def by (simp add: sigs_def limit_def mss_def st_def scored_def res_def split: prod.splits)
  moreover have "set ms \<subseteq> ?M \<and> distinct ms" if ms: "ms \<in> set mss" for ms
  proof -
    consider "ms \<in> set (map snd (buckets_of sigs (lsh_bands p) (rows_per_band p)))" | "ms \<in> set (map snd (short_texts_of G docs))"
      using ms by (auto simp: mss_def)
    then show ?thesis
    proof cases
      case 1
      have "btree_ok sigs" "fst ` set sigs \<subseteq> ?M" unfolding sigs_def by (rule signature_ids)+
      with bucket_members [OF this(1) 1] show ?thesis by blast
    qed (use short_members [OF assms(1)] in blast)
  qed
  then have within: "ordered_within ?M (ps_pairs st)"
    unfolding st_def by (rule all_pairs_within) (simp_all add: ordered_within_def)
  then have scored: "nc_left c < nc_right c \<and> nc_left c \<in> ?M \<and> nc_right c \<in> ?M \<and> f64_at_least (nc_similarity c) (near_threshold p)"
    if "c \<in> set scored" for c
    using that by (auto simp: scored_def ordered_within_def)
  have "accepted_ok (max_candidates_per_document p) (set scored) res"
    unfolding res_def
  proof (rule accept_all_ok)
    show "nc_left c \<noteq> nc_right c" if "c \<in> set scored" for c using scored [OF that] by auto
  qed (simp_all add: accepted_ok_def count_of_def btree_get_def btree_ok_def)
  ultimately show ?thesis using scored by (auto simp: accepted_ok_def split: prod.splits)
qed

text \<open>
  Every near-duplicate candidate is an ordered pair of two different documents, each the
  representative of its exact group, with a similarity of at least the threshold of the policy; and no
  document occurs in more candidates than the policy allows.
\<close>

lemma near_candidates_are_bounded:
  assumes "distinct (map ir_document_id docs)" "analyze E G docs p = Inr r"
  shows "(\<forall>c \<in> set (dr_near_candidates r). nc_left c < nc_right c \<and>
      f64_at_least (nc_similarity c) (near_threshold p) \<and>
      btree_get (representative_of docs) (nc_left c) = Some (nc_left c) \<and>
      btree_get (representative_of docs) (nc_right c) = Some (nc_right c)) \<and>
    (\<forall>d. length (filter (\<lambda>c. nc_left c = d \<or> nc_right c = d) (dr_near_candidates r)) \<le> max_candidates_per_document p)"
proof -
  let ?reps = "filter (\<lambda>d. btree_get (representative_of docs) (ir_document_id d) = Some (ir_document_id d)) docs"
  obtain cs ts where near: "near_candidates E G ?reps p = (cs, ts)" by fastforce
  then have r: "dr_near_candidates r = cs" using assms(2) by (auto simp: analyze_def Let_def split: if_splits)
  have "distinct (map ir_document_id ?reps)" using assms(1) by (simp add: distinct_map_filter)
  from near_candidates_ok [OF this near] show ?thesis by (auto simp: r mentions_def [abs_def])
qed

end
