(* ===== verification/PlanFacts.thy ===== *)
theory PlanFacts
  imports RewriteFacts Seal DedupFacts
begin

text \<open>
  The composed plan: what resolution leaves of a document, that every representative document gets
  one operation that keeps its links, and what a plan that passes its validation covers.
\<close>

section \<open>Loops that append\<close>

lemma try_fold_appends:
  assumes "try_fold f s xs = Inr t" "\<And>s x t. f s x = Inr t \<Longrightarrow> set (g s) \<subseteq> set (g t)"
  shows "set (g s) \<subseteq> set (g t)"
  using try_fold_invariant [OF assms(1), of "\<lambda>_ u. set (g s) \<subseteq> set (g u)"] assms(2) by blast

text \<open>Each element leaves something behind, and nothing is removed.\<close>

lemma try_fold_leaves:
  assumes run: "try_fold f s xs = Inr t"
    and leaves: "\<And>s x t. x \<in> set xs \<Longrightarrow> f s x = Inr t \<Longrightarrow> Q x t"
    and keeps: "\<And>s y t x. f s y = Inr t \<Longrightarrow> Q x s \<Longrightarrow> Q x t"
  shows "\<forall>x \<in> set xs. Q x t"
proof (rule try_fold_invariant [OF run, of "\<lambda>ys u. \<forall>x \<in> set ys. Q x u"])
  fix ys y s s' assume "\<forall>x \<in> set ys. Q x s" "y \<in> set xs" "f s y = Inr s'"
  then show "\<forall>x \<in> set (ys @ [y]). Q x s'" using leaves keeps by auto
qed simp

section \<open>What resolution keeps\<close>

definition same_but_resolved :: "document_id \<times> ir_document \<Rightarrow> document_id \<times> ir_document \<Rightarrow> bool" where
  "same_but_resolved a b \<longleftrightarrow> fst b = fst a \<and> ir_document_id (snd b) = ir_document_id (snd a) \<and>
     ir_source_file (snd b) = ir_source_file (snd a) \<and> pending_links (snd b) = pending_links (snd a)"

lemma resolve_links_of_document:
  assumes "try_fold (resolve_link_step E ix documents outs r d) ([], n) ls = Inr (links, n')"
  shows "map (\<lambda>l. l\<lparr>lk_resolution := Pending\<rparr>) links = map (\<lambda>l. l\<lparr>lk_resolution := Pending\<rparr>) ls"
proof -
  have "map (\<lambda>l. l\<lparr>lk_resolution := Pending\<rparr>) (fst (links, n')) = map (\<lambda>l. l\<lparr>lk_resolution := Pending\<rparr>) ls"
    by (rule try_fold_invariant [OF assms, of "\<lambda>ys st. map (\<lambda>l. l\<lparr>lk_resolution := Pending\<rparr>) (fst st) = map (\<lambda>l. l\<lparr>lk_resolution := Pending\<rparr>) ys"])
      (auto simp: resolve_link_step_def split: prod.splits)
  then show ?thesis by simp
qed

lemma resolve_documents:
  assumes "try_fold (resolve_document_step E ix reps documents outs) ([], n) entries = Inr (resolved, n')"
  shows "list_all2 same_but_resolved entries resolved"
proof -
  have "list_all2 same_but_resolved entries (fst (resolved, n'))"
  proof (rule try_fold_invariant [OF assms, of "\<lambda>ys st. list_all2 same_but_resolved ys (fst st)"])
    fix ys y s s' assume IH: "list_all2 same_but_resolved ys (fst s)" and step: "resolve_document_step E ix reps documents outs s y = Inr s'"
    obtain done0 n0 k d where s: "s = (done0, n0)" "y = (k, d)" by (metis prod.exhaust)
    from step obtain r links n1 where l: "try_fold (resolve_link_step E ix documents outs r d) ([], n0) (ir_links d) = Inr (links, n1)"
      "s' = (done0 @ [(k, d\<lparr>ir_links := links\<rparr>)], n1)"
      by (auto simp: resolve_document_step_def s split: prod.splits)
    show "list_all2 same_but_resolved (ys @ [y]) (fst s')"
      using IH resolve_links_of_document [OF l(1)] by (simp add: s l(2) same_but_resolved_def pending_links_def list_all2_appendI)
  qed simp
  then show ?thesis by simp
qed

lemma resolved_documents:
  assumes "resolve_links E ws reps outs n = Inr (ws', n')"
  shows "list_all2 same_but_resolved (ws_documents ws) (ws_documents ws')"
  using assms by (auto simp: resolve_links_def split: prod.splits dest!: resolve_documents)

lemma resolved_document:
  assumes "resolve_links E ws reps outs n = Inr (ws', n')" "btree_get (ws_documents ws') i = Some d'"
  shows "\<exists>d. (i, d) \<in> set (ws_documents ws) \<and> ir_document_id d' = ir_document_id d \<and> pending_links d' = pending_links d"
proof -
  have "(i, d') \<in> set (ws_documents ws')" using assms(2) by (simp add: btree_get_def map_of_SomeD)
  then obtain k where k: "k < length (ws_documents ws')" "ws_documents ws' ! k = (i, d')" by (auto simp: in_set_conv_nth)
  have len: "k < length (ws_documents ws)" using list_all2_lengthD [OF resolved_documents [OF assms(1)]] k(1) by simp
  have "same_but_resolved (ws_documents ws ! k) (i, d')"
    using list_all2_nthD [OF resolved_documents [OF assms(1)] len] k(2) by simp
  moreover obtain i0 d0 where "ws_documents ws ! k = (i0, d0)" by fastforce
  ultimately show ?thesis using nth_mem [OF len] by (auto simp: same_but_resolved_def intro!: exI [of _ d0])
qed

section \<open>Every representative has its operation\<close>

definition document_op :: "output_operation \<Rightarrow> source_file \<Rightarrow> string \<Rightarrow> bool" where
  "document_op x f dest \<longleftrightarrow> os_source_id (op_source_of x) = sf_source_id f \<and> os_snapshot_id (op_source_of x) = sf_snapshot_id f \<and>
     os_source_path (op_source_of x) = sf_logical_path f \<and> os_expected_hash (op_source_of x) = sf_content_hash f \<and>
     destination_of x = dest"

lemma source_of_file_op [simp]:
  "document_op (Copy (source_of_file f i dest) kind) f dest"
  "document_op (RewriteMarkdown (source_of_file f i dest) h rs) f dest"
  "document_op (RewriteCanvas (source_of_file f i dest) h cs) f dest"
  by (simp_all add: document_op_def source_of_file_def destination_of_def)

text \<open>The document, its output path and its replacements.\<close>

definition plans :: "workspace \<Rightarrow> output_path_maps \<Rightarrow> document_id \<Rightarrow> ir_document \<Rightarrow> string \<Rightarrow> rewrite_replacement list \<Rightarrow> bool" where
  "plans ws outs i d dest rs \<longleftrightarrow> btree_get (ws_documents ws) i = Some d \<and> btree_get (op_documents outs) i = Some dest \<and>
     planned_markdown_replacements outs d = Inr rs"

definition first_operation ::
  "externs \<Rightarrow> document_id \<Rightarrow> ir_document \<Rightarrow> string \<Rightarrow> rewrite_replacement list \<Rightarrow> output_operation list \<times> pending_rewrite list \<Rightarrow> bool" where
  "first_operation E i d dest rs st \<longleftrightarrow> (if rs = [] then copy_operation E (ir_source_file d) dest Markdown \<in> set (fst st)
     else \<lparr>pr_document_id = i, pr_destination = dest, pr_replacements = rs\<rparr> \<in> set (snd st))"

lemma document_operation_parts:
  assumes "document_operation E ws outs st i = Inr st'"
  obtains d dest rs where "plans ws outs i d dest rs"
    "st' = (if rs = [] then (fst st @ [copy_operation E (ir_source_file d) dest Markdown], snd st)
      else (fst st, snd st @ [\<lparr>pr_document_id = i, pr_destination = dest, pr_replacements = rs\<rparr>]))"
proof -
  obtain operations pending where st: "st = (operations, pending)" by fastforce
  obtain d where d: "btree_get (ws_documents ws) i = Some d"
    using assms by (auto simp: document_operation_def st at_index_def)
  obtain dest where dest: "btree_get (op_documents outs) i = Some dest"
    using assms by (auto simp: document_operation_def st at_index_def)
  obtain rs where rs: "planned_markdown_replacements outs d = Inr rs"
    using assms by (auto simp: document_operation_def st at_index_def d)
  show thesis
    by (rule that [of d dest rs]) (use assms in \<open>auto simp: document_operation_def st at_index_def d dest rs plans_def\<close>)
qed

lemma document_operation_step:
  assumes "document_operation E ws outs st i = Inr st'"
  shows "(\<exists>d dest rs. plans ws outs i d dest rs \<and> first_operation E i d dest rs st') \<and>
    set (fst st) \<subseteq> set (fst st') \<and> set (snd st) \<subseteq> set (snd st')"
proof -
  obtain d dest rs where plan: "plans ws outs i d dest rs"
    and st': "st' = (if rs = [] then (fst st @ [copy_operation E (ir_source_file d) dest Markdown], snd st)
      else (fst st, snd st @ [\<lparr>pr_document_id = i, pr_destination = dest, pr_replacements = rs\<rparr>]))"
    by (rule document_operation_parts [OF assms])
  have "first_operation E i d dest rs st'" by (simp add: st' first_operation_def)
  moreover have "set (fst st) \<subseteq> set (fst st')" "set (snd st) \<subseteq> set (snd st')" by (auto simp: st')
  ultimately show ?thesis using plan by blast
qed

lemma document_operations:
  assumes "try_fold (document_operation E ws outs) ([], []) is = Inr (operations, pending)"
  shows "\<forall>i \<in> set is. \<exists>d dest rs. plans ws outs i d dest rs \<and> first_operation E i d dest rs (operations, pending)"
proof (rule try_fold_leaves [OF assms, of "\<lambda>i st. \<exists>d dest rs. plans ws outs i d dest rs \<and> first_operation E i d dest rs st"])
  fix s x t assume "document_operation E ws outs s x = Inr t"
  from document_operation_step [OF this]
  show "\<exists>d dest rs. plans ws outs x d dest rs \<and> first_operation E x d dest rs t" by blast
next
  fix s y t x assume "document_operation E ws outs s y = Inr t"
    "\<exists>d dest rs. plans ws outs x d dest rs \<and> first_operation E x d dest rs s"
  with document_operation_step [OF this(1)]
  show "\<exists>d dest rs. plans ws outs x d dest rs \<and> first_operation E x d dest rs t"
    unfolding first_operation_def by (meson subsetD)
qed

definition rewrites_for ::
  "externs \<Rightarrow> parsers \<Rightarrow> compiler_policy \<Rightarrow> workspace \<Rightarrow> pending_rewrite \<Rightarrow> output_operation \<Rightarrow> bool" where
  "rewrites_for E Y p ws r x \<longleftrightarrow> (\<exists>d source out i. btree_get (ws_documents ws) (pr_document_id r) = Some d \<and>
     render_rewritten_markdown E Y p d (pr_destination r) source (pr_replacements r) = Inr out \<and>
     x = RewriteMarkdown (source_of_file (ir_source_file d) i (pr_destination r)) (from_bytes E out) (pr_replacements r))"

lemma materialize_rewrite_op:
  assumes "materialize_rewrite E Y p ws snapshot st r = Inr st'"
  shows "(\<exists>x \<in> set (snd st'). rewrites_for E Y p ws r x) \<and> set (snd st) \<subseteq> set (snd st')"
proof -
  obtain entries operations where st: "st = (entries, operations)" by fastforce
  obtain d where d: "btree_get (ws_documents ws) (pr_document_id r) = Some d"
    using assms by (auto simp: materialize_rewrite_def st at_index_def)
  obtain e where e: "btree_get entries (sf_logical_path (ir_source_file d)) = Some e"
    using assms by (auto simp: materialize_rewrite_def st at_index_def d Let_def)
  obtain out where out: "render_rewritten_markdown E Y p d (pr_destination r) (re_bytes e) (pr_replacements r) = Inr out"
    using assms by (auto simp: materialize_rewrite_def st at_index_def d e Let_def)
  have "snd st' = operations @ [RewriteMarkdown (source_of_file (ir_source_file d)
       (markdown_rewrite_operation_id E (ir_source_file d) (pr_destination r) (from_bytes E out) (pr_replacements r))
       (pr_destination r)) (from_bytes E out) (pr_replacements r)]"
    using assms by (auto simp: materialize_rewrite_def st at_index_def d e out Let_def)
  then show ?thesis using st d out unfolding rewrites_for_def by auto
qed

lemma materialize_source_op:
  assumes "materialize_source E Y reread p ws snapshots operations (source, rewritten) = Inr operations'"
  shows "(\<forall>r \<in> set rewritten. \<exists>x \<in> set operations'. rewrites_for E Y p ws r x) \<and> set operations \<subseteq> set operations'"
proof -
  obtain snapshot entries entries' where run:
    "try_fold (materialize_rewrite E Y p ws snapshot) (entries, operations) rewritten = Inr (entries', operations')"
    using assms by (auto simp: materialize_source_def split: prod.splits)
  note op = materialize_rewrite_op [of E Y p ws snapshot]
  have "\<forall>r \<in> set rewritten. \<exists>x \<in> set (snd (entries', operations')). rewrites_for E Y p ws r x"
  proof (rule try_fold_leaves [OF run, of "\<lambda>r st. \<exists>x \<in> set (snd st). rewrites_for E Y p ws r x"])
    fix s x t assume "materialize_rewrite E Y p ws snapshot s x = Inr t"
    from op [OF this] show "\<exists>y \<in> set (snd t). rewrites_for E Y p ws x y" by blast
  next
    fix s y t x assume "materialize_rewrite E Y p ws snapshot s y = Inr t"
    from op [OF this] show "\<exists>x' \<in> set (snd s). rewrites_for E Y p ws x x' \<Longrightarrow> \<exists>x' \<in> set (snd t). rewrites_for E Y p ws x x'" by blast
  qed
  moreover have "set (snd (entries, operations)) \<subseteq> set (snd (entries', operations'))"
  proof (rule try_fold_appends [OF run])
    fix s x t assume "materialize_rewrite E Y p ws snapshot s x = Inr t"
    from op [OF this] show "set (snd s) \<subseteq> set (snd t)" by blast
  qed
  ultimately show ?thesis by simp
qed

lemma materialized_rewrites:
  assumes "materialize_markdown_rewrites E Y reread p ws snapshots pending = Inr operations"
  shows "\<forall>r \<in> set pending. \<exists>x \<in> set operations. rewrites_for E Y p ws r x"
proof
  fix r assume r: "r \<in> set pending"
  obtain keyed where keyed: "try_map (\<lambda>r. bind_res (require PlanStale (btree_get (ws_documents ws) (pr_document_id r)))
      (\<lambda>d. Inr (sf_source_id (ir_source_file d), r))) pending = Inr keyed"
    and run: "try_fold (materialize_source E Y reread p ws snapshots) [] (multi_collect keyed) = Inr operations"
    using assms by (auto simp: materialize_markdown_rewrites_def)
  obtain k where "(k, r) \<in> set keyed" using list_all2_in_left [OF keyed [unfolded try_map_Inr] r] by auto
  then have "(k, r) \<in> set (filter (\<lambda>kv. fst kv = k) keyed)" by simp
  then have mine: "r \<in> set (map snd (filter (\<lambda>kv. fst kv = k) keyed))" unfolding set_map by (rule rev_image_eqI) simp
  then have entry: "(k, map snd (filter (\<lambda>kv. fst kv = k) keyed)) \<in> set (multi_collect keyed)"
    using \<open>(k, r) \<in> set (filter (\<lambda>kv. fst kv = k) keyed)\<close> by (auto simp: multi_entries filter_empty_conv)
  have "\<forall>e \<in> set (multi_collect keyed). \<forall>r \<in> set (snd e). \<exists>x \<in> set operations. rewrites_for E Y p ws r x"
  proof (rule try_fold_leaves [OF run, of "\<lambda>e ops. \<forall>r \<in> set (snd e). \<exists>x \<in> set ops. rewrites_for E Y p ws r x"])
    fix s e t assume step: "materialize_source E Y reread p ws snapshots s e = Inr t"
    obtain source rewritten where e: "e = (source, rewritten)" by fastforce
    note op = materialize_source_op [OF step [unfolded e]]
    show "\<forall>r \<in> set (snd e). \<exists>x \<in> set t. rewrites_for E Y p ws r x" using op by (simp add: e)
    show "\<forall>r \<in> set (snd e'). \<exists>x \<in> set t. rewrites_for E Y p ws r x"
      if "\<forall>r \<in> set (snd e'). \<exists>x \<in> set s. rewrites_for E Y p ws r x" for e' using op that by blast
  qed
  from bspec [OF this entry] show "\<exists>x \<in> set operations. rewrites_for E Y p ws r x" using mine by (simp only: snd_conv)
qed

section \<open>The whole plan\<close>

text \<open>Later loops only add operations, and sorting keeps them.\<close>

lemma later_operations:
  assumes "asset_operation E outs xs e = Inr ys \<or> canvas_operation E Y outs xs c = Inr ys \<or> base_operation E outs xs b = Inr ys"
  shows "set xs \<subseteq> set ys"
  using assms by (auto simp: asset_operation_def canvas_operation_def base_operation_def Let_def split: prod.splits if_splits)

lemma build_operations_parts:
  assumes "build_operations E Y reread ws reps outs snapshots p = Inr operations"
  obtains copies pending rewritten where
    "try_fold (document_operation E ws outs) ([], []) (representatives reps) = Inr (copies, pending)"
    "materialize_markdown_rewrites E Y reread p ws snapshots pending = Inr rewritten"
    "set copies \<union> set rewritten \<subseteq> set operations"
proof -
  obtain copies pending where 1: "try_fold (document_operation E ws outs) ([], []) (representatives reps) = Inr (copies, pending)"
    using assms by (auto simp: build_operations_def split: prod.splits)
  obtain rewritten where 2: "materialize_markdown_rewrites E Y reread p ws snapshots pending = Inr rewritten"
    using assms by (auto simp: build_operations_def 1)
  obtain xs where 3: "try_fold (asset_operation E outs) (copies @ rewritten) (ws_assets ws) = Inr xs"
    using assms by (auto simp: build_operations_def 1 2)
  obtain ys where 4: "try_fold (canvas_operation E Y outs) xs (ws_canvases ws) = Inr ys"
    using assms by (auto simp: build_operations_def 1 2 3)
  obtain zs where 5: "try_fold (base_operation E outs) ys (sort_key base_order (ws_bases ws)) = Inr zs"
    using assms by (auto simp: build_operations_def 1 2 3 4)
  have "set operations = set zs" using assms by (auto simp: build_operations_def 1 2 3 4 5 Let_def)
  moreover have "set (copies @ rewritten) \<subseteq> set xs" "set xs \<subseteq> set ys" "set ys \<subseteq> set zs"
    using try_fold_appends [OF 3, of "\<lambda>x. x"] try_fold_appends [OF 4, of "\<lambda>x. x"] try_fold_appends [OF 5, of "\<lambda>x. x"] later_operations
    by blast+
  ultimately have "set copies \<union> set rewritten \<subseteq> set operations" by auto
  from that [OF 1 2 this] show thesis .
qed

text \<open>What an operation does to the links of its document.\<close>

definition keeps_links :: "externs \<Rightarrow> parsers \<Rightarrow> compiler_policy \<Rightarrow> output_path_maps \<Rightarrow> ir_document \<Rightarrow> output_operation \<Rightarrow> bool" where
  "keeps_links E Y p outs d x \<longleftrightarrow> (case x of
     Copy s kind \<Rightarrow> kind = Markdown \<and> list_all2 (link_kept outs d (os_destination s)) (ir_links d) (ir_links d)
   | RewriteMarkdown s h rs \<Rightarrow> (\<exists>out doc ds. from_bytes E out = h \<and>
       parse_markdown E Y (output_file E (ir_source_file d) (os_destination s) out) out p = Inr (doc, ds) \<and>
       list_all2 (link_kept outs d (os_destination s)) (ir_links d) (ir_links doc))
   | RewriteCanvas _ _ _ \<Rightarrow> False)"

lemma built_operations_keep_links:
  assumes built: "build_operations E Y reread ws reps outs snapshots p = Inr operations" and i: "i \<in> set (representatives reps)"
    and parsed: "\<And>d. btree_get (ws_documents ws) i = Some d \<Longrightarrow> ir_document_id d = i \<and> parsed_as E Y p d"
    and ok: "\<And>dest. btree_get (op_documents outs) i = Some dest \<Longrightarrow> targets_ok E p outs dest"
  shows "\<exists>d dest x. btree_get (ws_documents ws) i = Some d \<and> btree_get (op_documents outs) i = Some dest \<and> x \<in> set operations \<and>
    document_op x (ir_source_file d) dest \<and> keeps_links E Y p outs d x"
proof -
  obtain copies pending rewritten where parts:
    "try_fold (document_operation E ws outs) ([], []) (representatives reps) = Inr (copies, pending)"
    "materialize_markdown_rewrites E Y reread p ws snapshots pending = Inr rewritten" "set copies \<union> set rewritten \<subseteq> set operations"
    by (rule build_operations_parts [OF built])
  obtain d dest rs where plan: "plans ws outs i d dest rs" "first_operation E i d dest rs (copies, pending)"
    using document_operations [OF parts(1)] i by blast
  have d: "btree_get (ws_documents ws) i = Some d" "btree_get (op_documents outs) i = Some dest" "planned_markdown_replacements outs d = Inr rs"
    using plan(1) by (simp_all add: plans_def)
  have id: "ir_document_id d = i" "parsed_as E Y p d" using parsed [OF d(1)] by simp_all
  have dest: "btree_get (op_documents outs) (ir_document_id d) = Some dest" using d(2) id(1) by simp
  note ok = ok [OF d(2)]
  show ?thesis
  proof (cases "rs = []")
    case True
    define x where "x = copy_operation E (ir_source_file d) dest Markdown"
    have "x \<in> set operations" using plan(2) parts(3) True by (auto simp: first_operation_def x_def)
    moreover have "document_op x (ir_source_file d) dest" by (simp add: x_def copy_operation_def)
    moreover have "list_all2 (link_kept outs d dest) (ir_links d) (ir_links d)"
      using copied_links_kept [OF d(3) [unfolded True] dest id(2) ok] by (simp add: list.rel_refl_strong)
    then have "keeps_links E Y p outs d x" by (simp add: keeps_links_def x_def copy_operation_def source_of_file_def)
    ultimately show ?thesis using d by blast
  next
    case False
    define r where "r = \<lparr>pr_document_id = i, pr_destination = dest, pr_replacements = rs\<rparr>"
    have "r \<in> set pending" using plan(2) False by (simp add: first_operation_def r_def)
    then obtain x where x: "x \<in> set rewritten" "rewrites_for E Y p ws r x" using materialized_rewrites [OF parts(2)] by blast
    obtain source out j where out: "render_rewritten_markdown E Y p d dest source rs = Inr out"
      "x = RewriteMarkdown (source_of_file (ir_source_file d) j dest) (from_bytes E out) rs"
      using x(2) d(1) by (auto simp: rewrites_for_def r_def)
    obtain doc ds where "parse_markdown E Y (output_file E (ir_source_file d) dest out) out p = Inr (doc, ds)"
      "list_all2 (link_kept outs d dest) (ir_links d) (ir_links doc)"
      using rendered_links_kept [OF d(3) dest id(2) ok out(1)] by blast
    then have "keeps_links E Y p outs d x" by (auto simp: keeps_links_def out(2) source_of_file_def)
    moreover have "document_op x (ir_source_file d) dest" by (simp add: out(2))
    ultimately show ?thesis using d x(1) parts(3) by blast
  qed
qed

text \<open>No output path is the directory of another.\<close>

definition paths_apart :: "string list \<Rightarrow> bool" where
  "paths_apart outs \<longleftrightarrow> (\<forall>a \<in> set outs. \<forall>b \<in> set outs. butlast (split_path a) \<noteq> split_path b)"

lemma build_plan_parts:
  assumes "build_plan E Y W G reread ins p = Inr pl"
  obtains n n' where
    "resolve_links E (in_workspace ins) (representative_map (in_workspace ins) (dp_exact_groups pl)) (dp_paths pl) n = Inr (dp_workspace pl, n')"
    "build_operations E Y reread (dp_workspace pl) (representative_map (in_workspace ins) (dp_exact_groups pl)) (dp_paths pl)
       (in_snapshots ins) p = Inr (dp_operations pl)"
    "validate_draft_plan E Y W pl = Inr ()" "dp_policy pl = p"
  using assms by (auto simp: build_plan_def Let_def split: prod.splits)

lemma valid_plan_paths:
  assumes "validate_draft_plan E Y W pl = Inr ()" "path \<in> set (output_paths_of (dp_paths pl))"
  shows "portable_path E (dp_policy pl) path"
proof -
  have "validate_plan_paths_and_operations E Y pl = Inr ()" using assms(1) by (simp add: validate_draft_plan_def Let_def)
  then have "\<forall>path \<in> set (output_paths_of (dp_paths pl)). validate_output_logical_path E path (dp_policy pl) = Inr ()"
    by (simp add: validate_plan_paths_and_operations_def Let_def)
  then show ?thesis using assms(2) by (simp add: validate_output_iff)
qed

text \<open>
  C10: In a plan that was built, every document that is not a duplicate gets one operation whose output
  keeps its links: copied or rewritten and parsed again at its output path, every link has the same
  syntax, heading, block reference, display text and embedding as in the source, a link that resolves
  to a document or asset leads, followed from the output path, exactly to the output path of its
  target, and every other link is untouched. The code relies on paths being UTF-8 and on no output
  path being the directory of another.
\<close>

theorem planned_links_reach_their_targets:
  assumes built: "build_plan E Y W G reread ins p = Inr pl"
    and parsed: "\<forall>(i, d) \<in> set (ws_documents (in_workspace ins)). ir_document_id d = i \<and> parsed_as E Y p d"
    and utf8: "\<forall>path \<in> set (output_paths_of (dp_paths pl)). valid_utf8 path"
    and apart: "paths_apart (output_paths_of (dp_paths pl))"
  shows "\<forall>i \<in> set (representatives (representative_map (in_workspace ins) (dp_exact_groups pl))).
    \<exists>d dest x. btree_get (ws_documents (dp_workspace pl)) i = Some d \<and> btree_get (op_documents (dp_paths pl)) i = Some dest \<and>
      x \<in> set (dp_operations pl) \<and> document_op x (ir_source_file d) dest \<and> keeps_links E Y p (dp_paths pl) d x"
proof
  fix i assume i: "i \<in> set (representatives (representative_map (in_workspace ins) (dp_exact_groups pl)))"
  obtain n n' where parts:
    "resolve_links E (in_workspace ins) (representative_map (in_workspace ins) (dp_exact_groups pl)) (dp_paths pl) n = Inr (dp_workspace pl, n')"
    "build_operations E Y reread (dp_workspace pl) (representative_map (in_workspace ins) (dp_exact_groups pl)) (dp_paths pl)
       (in_snapshots ins) p = Inr (dp_operations pl)"
    "validate_draft_plan E Y W pl = Inr ()" "dp_policy pl = p"
    by (rule build_plan_parts [OF built])
  show "\<exists>d dest x. btree_get (ws_documents (dp_workspace pl)) i = Some d \<and> btree_get (op_documents (dp_paths pl)) i = Some dest \<and>
      x \<in> set (dp_operations pl) \<and> document_op x (ir_source_file d) dest \<and> keeps_links E Y p (dp_paths pl) d x"
  proof (rule built_operations_keep_links [OF parts(2) i])
    fix d assume "btree_get (ws_documents (dp_workspace pl)) i = Some d"
    from resolved_document [OF parts(1) this] parsed show "ir_document_id d = i \<and> parsed_as E Y p d"
      by (auto simp: parsed_as_def)
  next
    fix dest assume "btree_get (op_documents (dp_paths pl)) i = Some dest"
    then have dest: "dest \<in> set (output_paths_of (dp_paths pl))"
      by (force simp: output_paths_of_def btree_get_def dest: map_of_SomeD)
    have "vault_path E p path" if "path \<in> set (output_paths_of (dp_paths pl))" for path
      using valid_plan_paths [OF parts(3) that] utf8 that by (simp add: vault_path_def parts(4))
    moreover have "set (map snd (op_documents (dp_paths pl)) @ map snd (op_assets (dp_paths pl))) \<subseteq> set (output_paths_of (dp_paths pl))"
      by (auto simp: output_paths_of_def)
    ultimately show "targets_ok E p (dp_paths pl) dest"
      using dest apart unfolding targets_ok_def paths_apart_def by (meson subsetD)
  qed
qed

text \<open>
  C13: A link that would not read back stops planning: when a document has a link to a document or asset
  whose rewritten text loses its heading or block reference (a Markdown link with a block reference or
  with a heading that needs escaping, a wiki link to a path with a hash sign or a caret), no operations
  are built for the whole vault.
\<close>

theorem unreadable_links_stop_planning:
  assumes i: "i \<in> set (representatives reps)" and d: "btree_get (ws_documents ws) i = Some d" "ir_document_id d = i" "parsed_as E Y p d"
    and dest: "btree_get (op_documents outs) i = Some dest" "targets_ok E p outs dest"
    and l: "l \<in> set (ir_links d)" "link_output outs d dest l = Inr (Some t)" "\<not> fragment_survives l (relative_output_target dest t)"
  shows "isl (build_operations E Y reread ws reps outs snapshots p)"
proof (rule ccontr)
  assume "\<not> isl (build_operations E Y reread ws reps outs snapshots p)"
  then obtain operations where built: "build_operations E Y reread ws reps outs snapshots p = Inr operations"
    by (cases "build_operations E Y reread ws reps outs snapshots p") auto
  obtain copies pending rewritten where parts:
    "try_fold (document_operation E ws outs) ([], []) (representatives reps) = Inr (copies, pending)"
    "materialize_markdown_rewrites E Y reread p ws snapshots pending = Inr rewritten" "set copies \<union> set rewritten \<subseteq> set operations"
    by (rule build_operations_parts [OF built])
  obtain d' dest' rs where plan: "plans ws outs i d' dest' rs" "first_operation E i d' dest' rs (copies, pending)"
    using document_operations [OF parts(1)] i by blast
  then have same: "d' = d" "dest' = dest" "planned_markdown_replacements outs d = Inr rs" using d(1) dest(1) by (auto simp: plans_def)
  have to: "btree_get (op_documents outs) (ir_document_id d) = Some dest" using dest(1) d(2) by simp
  show False
  proof (cases "rs = []")
    case True
    have "link_unchanged rs (l, l)" using True by (simp add: link_unchanged_def expected_target_def)
    from reparsed_link_kept [OF same(3) to d(3) dest(2) l(1) this] show False
      using parsed_as_links(2) [OF d(3)] l by blast
  next
    case False
    define r where "r = \<lparr>pr_document_id = i, pr_destination = dest, pr_replacements = rs\<rparr>"
    have "r \<in> set pending" using plan(2) False by (simp add: first_operation_def r_def same)
    then obtain x where "rewrites_for E Y p ws r x" using materialized_rewrites [OF parts(2)] by blast
    then obtain source out where "render_rewritten_markdown E Y p d dest source rs = Inr out"
      using d(1) by (auto simp: rewrites_for_def r_def)
    from rendered_links_kept [OF same(3) to d(3) dest(2) this] show False using l by blast
  qed
qed

end
