(* ===== verification/SealFacts.thy ===== *)
theory SealFacts
  imports PlanFacts
begin

text \<open>
  What a draft plan that passes its validation promises: every document, asset, canvas and base of the
  workspace has exactly one operation at its output path, and every ambiguity exactly one conflict.
\<close>

section \<open>Operations of artifacts\<close>






lemma find_member: "find P xs = Some x \<Longrightarrow> x \<in> set xs \<and> P x"
  by (induction xs) (auto split: if_splits)






section \<open>All operations\<close>












section \<open>Ambiguities\<close>

text \<open>A loop that marks the related elements with distinct keys and skips the others.\<close>

lemma marking_loop:
  assumes skip: "\<And>s x t. \<not> rel x \<Longrightarrow> f s x = Inr t \<longleftrightarrow> t = s"
    and mark: "\<And>s x t. rel x \<Longrightarrow> f s x = Inr t \<Longrightarrow> ok x \<and> k x \<notin> s \<and> t = insert (k x) s"
    and run: "try_fold f {} xs = Inr t"
  shows "distinct (map k (filter rel xs)) \<and> (\<forall>x \<in> set xs. rel x \<longrightarrow> ok x) \<and> t = k ` {x \<in> set xs. rel x}"
proof (rule try_fold_invariant [OF run, of "\<lambda>ys u. distinct (map k (filter rel ys)) \<and> (\<forall>x \<in> set ys. rel x \<longrightarrow> ok x) \<and> u = k ` {x \<in> set ys. rel x}"])
  fix ys y s s' assume IH: "distinct (map k (filter rel ys)) \<and> (\<forall>x \<in> set ys. rel x \<longrightarrow> ok x) \<and> s = k ` {x \<in> set ys. rel x}"
    and step: "f s y = Inr s'"
  show "distinct (map k (filter rel (ys @ [y]))) \<and> (\<forall>x \<in> set (ys @ [y]). rel x \<longrightarrow> ok x) \<and> s' = k ` {x \<in> set (ys @ [y]). rel x}"
  proof (cases "rel y")
    case True
    from mark [OF this step] have y: "ok y" "k y \<notin> s" "s' = insert (k y) s" by simp_all
    have "{x \<in> set (ys @ [y]). rel x} = insert y {x \<in> set ys. rel x}" using True by auto
    then show ?thesis using IH y True by auto
  next
    case False
    then have "s' = s" using skip [OF False] step by simp
    moreover have "{x \<in> set (ys @ [y]). rel x} = {x \<in> set ys. rel x}" using False by auto
    ultimately show ?thesis using IH False by simp
  qed
qed simp

definition required_conflict :: "conflict \<Rightarrow> document_id list \<Rightarrow> bool" where
  "required_conflict c documents \<longleftrightarrow> cx_kind c = LinkAmbiguity \<and> cx_required c \<and> cx_resolution c = ConflictUnresolved \<and>
     cx_documents c = documents"

definition one_conflict :: "conflict list \<Rightarrow> conflict_subject \<Rightarrow> document_id list \<Rightarrow> bool" where
  "one_conflict conflicts s documents \<longleftrightarrow> (\<exists>c. required_conflict c documents \<and> {x \<in> set conflicts. cx_subject x = Some s} = {c})"

lemma one_conflictI:
  assumes "distinct (map k (filter rel xs))" "\<And>x y. rel x \<Longrightarrow> rel y \<Longrightarrow> cx_subject x = cx_subject y \<Longrightarrow> k x = k y"
    "c \<in> set xs" "rel c" "cx_subject c = Some s" "required_conflict c documents" "\<And>x. cx_subject x = Some s \<Longrightarrow> rel x"
  shows "one_conflict xs s documents"
proof -
  have "x = c" if "x \<in> set xs" "cx_subject x = Some s" for x
  proof -
    have "k x = k c" "x \<in> set (filter rel xs)" "c \<in> set (filter rel xs)" using assms(2-5,7) that by auto
    then show ?thesis using assms(1) by (meson distinct_map inj_onD)
  qed
  then have "{x \<in> set xs. cx_subject x = Some s} = {c}" using assms(3,5) by fast
  then show ?thesis using assms(6) unfolding one_conflict_def by blast
qed

subsection \<open>Markdown links\<close>

definition markdown_conflict :: "conflict \<Rightarrow> bool" where
  "markdown_conflict c \<longleftrightarrow> (\<exists>i link raw. cx_subject c = Some (MarkdownSubject i link raw))"

definition markdown_key :: "workspace \<Rightarrow> (document_id, document_id) btree \<Rightarrow> conflict \<Rightarrow> markdown_ambiguity" where
  "markdown_key ws reps c = (case cx_subject c of Some (MarkdownSubject i link raw) \<Rightarrow>
     (case Option.bind (btree_get (ws_documents ws) i) (\<lambda>d. find (\<lambda>l. lk_link_id l = link \<and> lk_raw_target l = raw) (ir_links d)) of
        Some l \<Rightarrow> (case lk_resolution l of Ambiguous cs \<Rightarrow> (case btree_get reps i of
            Some r \<Rightarrow> (i, link, raw, cs, ambiguity_documents r cs) | None \<Rightarrow> (i, link, raw, cs, [])) | _ \<Rightarrow> (i, link, raw, [], []))
      | None \<Rightarrow> (i, link, raw, [], []))
   | _ \<Rightarrow> undefined)"

definition markdown_marked :: "workspace \<Rightarrow> (document_id, document_id) btree \<Rightarrow> conflict \<Rightarrow> bool" where
  "markdown_marked ws reps c \<longleftrightarrow> (\<exists>i link raw d l cs r. cx_subject c = Some (MarkdownSubject i link raw) \<and>
     btree_get (ws_documents ws) i = Some d \<and> l \<in> set (ir_links d) \<and> lk_link_id l = link \<and> lk_raw_target l = raw \<and>
     lk_resolution l = Ambiguous cs \<and> btree_get reps i = Some r \<and>
     markdown_key ws reps c = (i, link, raw, cs, ambiguity_documents r cs) \<and> required_conflict c (ambiguity_documents r cs))"

lemma markdown_mark:
  assumes "markdown_conflict c" "markdown_conflict_step ws reps s c = Inr t"
  shows "markdown_marked ws reps c \<and> markdown_key ws reps c \<notin> s \<and> t = insert (markdown_key ws reps c) s"
proof -
  obtain i link raw where c: "cx_subject c = Some (MarkdownSubject i link raw)" using assms(1) by (auto simp: markdown_conflict_def)
  obtain d where d: "btree_get (ws_documents ws) i = Some d" using assms(2) by (auto simp: markdown_conflict_step_def c)
  obtain l where l: "find (\<lambda>l. lk_link_id l = link \<and> lk_raw_target l = raw) (ir_links d) = Some l"
    using assms(2) by (auto simp: markdown_conflict_step_def c d)
  obtain cs where cs: "lk_resolution l = Ambiguous cs"
    using assms(2) by (auto simp: markdown_conflict_step_def c d l split: link_resolution.splits)
  obtain r where r: "btree_get reps i = Some r" using assms(2) by (auto simp: markdown_conflict_step_def c d l cs at_index_def)
  have key: "markdown_key ws reps c = (i, link, raw, cs, ambiguity_documents r cs)" by (simp add: markdown_key_def c d l cs r)
  have "required_conflict c (ambiguity_documents r cs) \<and> markdown_key ws reps c \<notin> s \<and> t = insert (markdown_key ws reps c) s"
    using assms(2) unfolding key by (simp add: markdown_conflict_step_def c d l cs r at_index_def Let_def required_conflict_def split: if_splits)
  then show ?thesis using c d find_member [OF l] cs r key unfolding markdown_marked_def by blast
qed

lemma markdown_skip: "\<not> markdown_conflict c \<Longrightarrow> markdown_conflict_step ws reps s c = Inr t \<longleftrightarrow> t = s"
  by (auto simp: markdown_conflict_def markdown_conflict_step_def split: option.splits conflict_subject.splits)

lemma expected_markdown:
  assumes "try_map (document_ambiguities reps) ds = Inr expected" "d \<in> set ds" "l \<in> set (ir_links d)" "lk_resolution l = Ambiguous cs"
  shows "\<exists>r. btree_get reps (ir_document_id d) = Some r \<and>
    (ir_document_id d, lk_link_id l, lk_raw_target l, cs, ambiguity_documents r cs) \<in> set (concat expected)"
proof -
  obtain ys where ys: "ys \<in> set expected" "document_ambiguities reps d = Inr ys"
    using list_all2_in_left [OF assms(1) [unfolded try_map_Inr] assms(2)] by blast
  have "(l, cs) \<in> set (List.map_filter (\<lambda>l. case lk_resolution l of Ambiguous cs \<Rightarrow> Some (l, cs) | _ \<Rightarrow> None) (ir_links d))"
    using assms(3,4) by (force simp: List.map_filter_def)
  from list_all2_in_left [OF ys(2) [unfolded document_ambiguities_def Let_def try_map_Inr] this]
  obtain y where y: "y \<in> set ys" "bind_res (at_index reps (ir_document_id d)) (\<lambda>r.
      Inr (ir_document_id d, lk_link_id l, lk_raw_target l, cs, ambiguity_documents r cs)) = (Inr y :: markdown_ambiguity res)"
    by (auto simp only: prod.case)
  from y(2) obtain r where r: "btree_get reps (ir_document_id d) = Some r"
    "y = (ir_document_id d, lk_link_id l, lk_raw_target l, cs, ambiguity_documents r cs)" by (auto simp: at_index_def)
  have "y \<in> set (concat expected)" using y(1) ys(1) by auto
  then show ?thesis using r by blast
qed

lemma markdown_loop:
  assumes run: "try_fold (markdown_conflict_step ws reps) {} conflicts = Inr t"
  shows "distinct (map (markdown_key ws reps) (filter markdown_conflict conflicts))"
    "c \<in> set conflicts \<Longrightarrow> markdown_conflict c \<Longrightarrow> markdown_marked ws reps c"
    "t = markdown_key ws reps ` {x \<in> set conflicts. markdown_conflict x}"
proof -
  have "distinct (map (markdown_key ws reps) (filter markdown_conflict conflicts)) \<and>
    (\<forall>x \<in> set conflicts. markdown_conflict x \<longrightarrow> markdown_marked ws reps x) \<and>
    t = markdown_key ws reps ` {x \<in> set conflicts. markdown_conflict x}"
    by (rule marking_loop [OF _ _ run]) (erule markdown_skip, erule (1) markdown_mark)
  then show "distinct (map (markdown_key ws reps) (filter markdown_conflict conflicts))"
    "c \<in> set conflicts \<Longrightarrow> markdown_conflict c \<Longrightarrow> markdown_marked ws reps c"
    "t = markdown_key ws reps ` {x \<in> set conflicts. markdown_conflict x}" by blast+
qed

lemma markdown_coverage:
  assumes "validate_markdown_conflict_coverage ws groups conflicts = Inr ()"
    "d \<in> set (map snd (ws_documents ws))" "l \<in> set (ir_links d)" "lk_resolution l = Ambiguous cs"
  shows "\<exists>r. btree_get (representative_map ws groups) (ir_document_id d) = Some r \<and>
    one_conflict conflicts (MarkdownSubject (ir_document_id d) (lk_link_id l) (lk_raw_target l)) (ambiguity_documents r cs)"
proof -
  let ?reps = "representative_map ws groups"
  obtain expected where expected: "try_map (document_ambiguities ?reps) (map snd (ws_documents ws)) = Inr expected"
    "try_fold (markdown_conflict_step ws ?reps) {} conflicts = Inr (set (concat expected))"
    using assms(1) by (auto simp: validate_markdown_conflict_coverage_def Let_def)
  note loop = markdown_loop [OF expected(2)]
  obtain r where r: "btree_get ?reps (ir_document_id d) = Some r"
    "(ir_document_id d, lk_link_id l, lk_raw_target l, cs, ambiguity_documents r cs) \<in> set (concat expected)"
    using expected_markdown [OF expected(1) assms(2-4)] by blast
  then obtain c where c: "c \<in> set conflicts" "markdown_conflict c"
    "markdown_key ws ?reps c = (ir_document_id d, lk_link_id l, lk_raw_target l, cs, ambiguity_documents r cs)"
    unfolding loop(3) by force
  have marked: "markdown_marked ws ?reps c" by (rule loop(2) [OF c(1,2)])
  then have s: "cx_subject c = Some (MarkdownSubject (ir_document_id d) (lk_link_id l) (lk_raw_target l))"
    "required_conflict c (ambiguity_documents r cs)" using c(3) unfolding markdown_marked_def by auto
  have "one_conflict conflicts (MarkdownSubject (ir_document_id d) (lk_link_id l) (lk_raw_target l)) (ambiguity_documents r cs)"
  proof (rule one_conflictI [OF loop(1) _ c(1,2) s])
    show "markdown_key ws ?reps x = markdown_key ws ?reps y" if "cx_subject x = cx_subject y" for x y
      using that by (simp add: markdown_key_def)
    show "markdown_conflict x" if "cx_subject x = Some (MarkdownSubject (ir_document_id d) (lk_link_id l) (lk_raw_target l))" for x
      using that by (simp add: markdown_conflict_def)
  qed
  then show ?thesis using r(1) by blast
qed

subsection \<open>Canvas references\<close>

definition canvas_conflict :: "conflict \<Rightarrow> bool" where
  "canvas_conflict c \<longleftrightarrow> (\<exists>i node raw. cx_subject c = Some (CanvasSubject i node raw))"

definition canvas_key :: "workspace \<Rightarrow> conflict \<Rightarrow> canvas_ambiguity" where
  "canvas_key ws c = (case cx_subject c of Some (CanvasSubject i node raw) \<Rightarrow>
     (case Option.bind (btree_get (ws_canvases ws) i) (\<lambda>v. find (\<lambda>r. cr_node_id r = node \<and> cr_raw_path r = raw) (cv_references v)) of
        Some r \<Rightarrow> (case cr_resolution r of CanvasAmbiguous ts \<Rightarrow> (i, node, raw, ts) | _ \<Rightarrow> (i, node, raw, []))
      | None \<Rightarrow> (i, node, raw, []))
   | _ \<Rightarrow> undefined)"

definition canvas_marked :: "workspace \<Rightarrow> conflict \<Rightarrow> bool" where
  "canvas_marked ws c \<longleftrightarrow> (\<exists>i node raw v r ts. cx_subject c = Some (CanvasSubject i node raw) \<and>
     btree_get (ws_canvases ws) i = Some v \<and> r \<in> set (cv_references v) \<and> cr_node_id r = node \<and> cr_raw_path r = raw \<and>
     cr_resolution r = CanvasAmbiguous ts \<and> canvas_key ws c = (i, node, raw, ts) \<and>
     required_conflict c (remdups_adj (sort (document_targets_of ts))))"

lemma canvas_mark:
  assumes "canvas_conflict c" "canvas_conflict_step E ws s c = Inr t"
  shows "canvas_marked ws c \<and> canvas_key ws c \<notin> s \<and> t = insert (canvas_key ws c) s"
proof -
  obtain i node raw where c: "cx_subject c = Some (CanvasSubject i node raw)" using assms(1) by (auto simp: canvas_conflict_def)
  obtain v where v: "btree_get (ws_canvases ws) i = Some v" using assms(2) by (auto simp: canvas_conflict_step_def c)
  obtain r where r: "find (\<lambda>r. cr_node_id r = node \<and> cr_raw_path r = raw) (cv_references v) = Some r"
    using assms(2) by (auto simp: canvas_conflict_step_def c v)
  obtain ts where ts: "cr_resolution r = CanvasAmbiguous ts"
    using assms(2) by (auto simp: canvas_conflict_step_def c v r split: canvas_resolution.splits)
  have key: "canvas_key ws c = (i, node, raw, ts)" by (simp add: canvas_key_def c v r ts)
  have "required_conflict c (remdups_adj (sort (document_targets_of ts))) \<and> canvas_key ws c \<notin> s \<and> t = insert (canvas_key ws c) s"
    using assms(2) unfolding key by (simp add: canvas_conflict_step_def c v r ts required_conflict_def split: if_splits)
  then show ?thesis using c v find_member [OF r] ts key unfolding canvas_marked_def by blast
qed

lemma canvas_skip: "\<not> canvas_conflict c \<Longrightarrow> canvas_conflict_step E ws s c = Inr t \<longleftrightarrow> t = s"
  by (auto simp: canvas_conflict_def canvas_conflict_step_def split: option.splits conflict_subject.splits)

lemma canvas_loop:
  assumes run: "try_fold (canvas_conflict_step E ws) {} conflicts = Inr t"
  shows "distinct (map (canvas_key ws) (filter canvas_conflict conflicts))"
    "c \<in> set conflicts \<Longrightarrow> canvas_conflict c \<Longrightarrow> canvas_marked ws c"
    "t = canvas_key ws ` {x \<in> set conflicts. canvas_conflict x}"
proof -
  have "distinct (map (canvas_key ws) (filter canvas_conflict conflicts)) \<and>
    (\<forall>x \<in> set conflicts. canvas_conflict x \<longrightarrow> canvas_marked ws x) \<and> t = canvas_key ws ` {x \<in> set conflicts. canvas_conflict x}"
    by (rule marking_loop [OF _ _ run]) (erule canvas_skip, erule (1) canvas_mark)
  then show "distinct (map (canvas_key ws) (filter canvas_conflict conflicts))"
    "c \<in> set conflicts \<Longrightarrow> canvas_conflict c \<Longrightarrow> canvas_marked ws c"
    "t = canvas_key ws ` {x \<in> set conflicts. canvas_conflict x}" by blast+
qed

lemma canvas_coverage:
  assumes "validate_canvas_conflict_coverage E ws conflicts = Inr ()"
    "v \<in> set (map snd (ws_canvases ws))" "r \<in> set (cv_references v)" "cr_resolution r = CanvasAmbiguous ts"
  shows "one_conflict conflicts (CanvasSubject (cv_canvas_id v) (cr_node_id r) (cr_raw_path r)) (remdups_adj (sort (document_targets_of ts)))"
proof -
  have run: "try_fold (canvas_conflict_step E ws) {} conflicts = Inr (expected_canvas_ambiguities ws)"
    using assms(1) by (auto simp: validate_canvas_conflict_coverage_def)
  note loop = canvas_loop [OF run]
  have "(cv_canvas_id v, cr_node_id r, cr_raw_path r, ts) \<in> expected_canvas_ambiguities ws"
    using assms(2-4) by (force simp: expected_canvas_ambiguities_def List.map_filter_def)
  then obtain c where c: "c \<in> set conflicts" "canvas_conflict c" "canvas_key ws c = (cv_canvas_id v, cr_node_id r, cr_raw_path r, ts)"
    unfolding loop(3) by force
  have marked: "canvas_marked ws c" by (rule loop(2) [OF c(1,2)])
  then have s: "cx_subject c = Some (CanvasSubject (cv_canvas_id v) (cr_node_id r) (cr_raw_path r))"
    "required_conflict c (remdups_adj (sort (document_targets_of ts)))" using c(3) unfolding canvas_marked_def by auto
  show ?thesis
  proof (rule one_conflictI [OF loop(1) _ c(1,2) s])
    show "canvas_key ws x = canvas_key ws y" if "cx_subject x = cx_subject y" for x y
      using that by (simp add: canvas_key_def)
    show "canvas_conflict x" if "cx_subject x = Some (CanvasSubject (cv_canvas_id v) (cr_node_id r) (cr_raw_path r))" for x
      using that by (simp add: canvas_conflict_def)
  qed
qed

text \<open>
  C12: A draft plan that passes its validation leaves no ambiguity undecided: every link or canvas
  reference with several candidates has exactly one conflict, which is required, unresolved and lists
  the documents concerned, and every conflict about a link or reference names one that is ambiguous.
\<close>

theorem every_ambiguity_has_one_required_conflict:
  assumes "validate_draft_plan E Y W pl = Inr ()"
  shows "(\<forall>d \<in> set (map snd (ws_documents (dp_workspace pl))). \<forall>l \<in> set (ir_links d). \<forall>cs. lk_resolution l = Ambiguous cs \<longrightarrow>
      (\<exists>r. btree_get (representative_map (dp_workspace pl) (dp_exact_groups pl)) (ir_document_id d) = Some r \<and>
        one_conflict (dp_conflicts pl) (MarkdownSubject (ir_document_id d) (lk_link_id l) (lk_raw_target l)) (ambiguity_documents r cs))) \<and>
    (\<forall>v \<in> set (map snd (ws_canvases (dp_workspace pl))). \<forall>r \<in> set (cv_references v). \<forall>ts. cr_resolution r = CanvasAmbiguous ts \<longrightarrow>
      one_conflict (dp_conflicts pl) (CanvasSubject (cv_canvas_id v) (cr_node_id r) (cr_raw_path r)) (remdups_adj (sort (document_targets_of ts)))) \<and>
    (\<forall>c \<in> set (dp_conflicts pl). (markdown_conflict c \<longrightarrow> markdown_marked (dp_workspace pl)
        (representative_map (dp_workspace pl) (dp_exact_groups pl)) c) \<and> (canvas_conflict c \<longrightarrow> canvas_marked (dp_workspace pl) c))"
proof -
  let ?ws = "dp_workspace pl" and ?reps = "representative_map (dp_workspace pl) (dp_exact_groups pl)"
  have valid: "validate_markdown_conflict_coverage ?ws (dp_exact_groups pl) (dp_conflicts pl) = Inr ()"
    "validate_canvas_conflict_coverage E ?ws (dp_conflicts pl) = Inr ()"
    using assms by (auto simp: validate_draft_plan_def Let_def)
  obtain md where md: "try_fold (markdown_conflict_step ?ws ?reps) {} (dp_conflicts pl) = Inr md"
    using valid(1) by (auto simp: validate_markdown_conflict_coverage_def Let_def)
  obtain cv where cv: "try_fold (canvas_conflict_step E ?ws) {} (dp_conflicts pl) = Inr cv"
    using valid(2) by (auto simp: validate_canvas_conflict_coverage_def)
  have "\<forall>c \<in> set (dp_conflicts pl). (markdown_conflict c \<longrightarrow> markdown_marked ?ws ?reps c) \<and> (canvas_conflict c \<longrightarrow> canvas_marked ?ws c)"
    using markdown_loop(2) [OF md] canvas_loop(2) [OF cv] by blast
  then show ?thesis using markdown_coverage [OF valid(1)] canvas_coverage [OF valid(2)] by blast
qed

end
