(* ===== verification/DemoDraft.thy ===== *)
theory DemoDraft
  imports Demo ParseFacts DedupFacts
begin

text \<open>
  A concrete document and concrete duplicates: closed instances of the theorems on parsing and
  duplicate detection.
\<close>

section \<open>Parsing\<close>

definition demo_parsers :: parsers where
  "demo_parsers = \<lparr>markdown_to_html = \<lambda>s. s, yaml_read = \<lambda>_. YamlError ''unread'', json_tokens = \<lambda>_. None\<rparr>"

definition demo_file :: "char \<Rightarrow> string \<Rightarrow> source_file" where
  "demo_file c path = \<lparr>sf_source_id = SourceId ''alpha'', sf_snapshot_id = TypedId (demo_hash CHR ''S''),
     sf_file_id = TypedId (demo_hash c), sf_original_path = path, sf_logical_path = path, sf_path_encoding = Utf8,
     sf_kind = Markdown, sf_byte_len = 6, sf_raw_sha256 = [], sf_content_hash = demo_hash c\<rparr>"

lemma demo_raw_lines: "raw_lines ''[x](y)'' = [''[x](y)'']"
  by (simp add: raw_lines.simps [of "''[x](y)''"] raw_lines.simps [of "[]"] line_length_def ending_length_def Let_def)

lemma blocks_partition_the_text_witness:
  "\<exists>sections blocks. scan_blocks demo_externs (demo_id CHR ''D'') ''[x](y)'' 0 = (sections, blocks) \<and>
     (\<exists>!b. b \<in> set blocks \<and> covers 0 b (0, ''[x](y)''))"
proof -
  obtain sections blocks where s: "scan_blocks demo_externs (demo_id CHR ''D'') ''[x](y)'' 0 = (sections, blocks)" by fastforce
  have "(0, ''[x](y)'') \<in> set (placed 0 (raw_lines ''[x](y)''))" by (simp add: demo_raw_lines)
  moreover have "nonblank (snd (0 :: nat, ''[x](y)''))"
    by (simp add: nonblank_def trim_line_ends_def trim_def trim_start_def trim_end_def chars_def utf8_width_def is_whitespace_def)
  ultimately show ?thesis using s blocks_partition_the_text [OF s] by blast
qed

lemma spans_select_their_text_witness:
  "\<exists>doc ds. parse_markdown demo_externs demo_parsers (demo_file CHR ''f'' ''note.md'') ''[x](y)'' default_policy = Inr (doc, ds) \<and>
     sorted_wrt before (ir_blocks doc) \<and> sorted_wrt link_before (ir_links doc)"
proof -
  have "validate_source_path_pair demo_externs ''note.md'' ''note.md'' Utf8 default_policy = Inr ()"
    using demo_portable by (simp add: validate_pair_iff logical_of_def split_path_def join_path_def)
  moreover have "valid_utf8 ''[x](y)''" by (simp add: utf8_follow_def)
  moreover have "split_frontmatter ''[x](y)'' = (None, ''[x](y)'', 0)"
    by (simp add: split_frontmatter_def strip_prefix_def bom_def demo_raw_lines trim_raw_line_ending_def strip_suffix_def)
  ultimately have "\<not> isl (parse_markdown demo_externs demo_parsers (demo_file CHR ''f'' ''note.md'') ''[x](y)'' default_policy)"
    by (simp add: parse_markdown_def parse_frontmatter_def demo_file_def Let_def split: prod.split)
  then obtain doc ds where
    "parse_markdown demo_externs demo_parsers (demo_file CHR ''f'' ''note.md'') ''[x](y)'' default_policy = Inr (doc, ds)"
    by (cases "parse_markdown demo_externs demo_parsers (demo_file CHR ''f'' ''note.md'') ''[x](y)'' default_policy") auto
  with spans_select_their_text [OF this] show ?thesis by blast
qed

section \<open>Duplicates\<close>

definition demo_draft :: "char \<Rightarrow> char \<Rightarrow> ir_document" where
  "demo_draft c h = \<lparr>ir_schema_version = 2, ir_document_id = demo_id c, ir_source_file = demo_file c [c],
     ir_title = None, ir_aliases = [], ir_tags = [], ir_frontmatter = None, ir_frontmatter_hash = demo_hash CHR ''F'',
     ir_body_hash = demo_hash h, ir_comparison_text = ''same'', ir_sections = [], ir_blocks = [], ir_links = []\<rparr>"

definition demo_drafts :: "ir_document list" where
  "demo_drafts = [demo_draft CHR ''c'' CHR ''h'', demo_draft CHR ''a'' CHR ''h'', demo_draft CHR ''b'' CHR ''i'']"

lemma demo_drafts_distinct: "distinct (map ir_document_id demo_drafts)"
  by (simp add: demo_drafts_def demo_draft_def demo_id_def demo_hash_def)

lemma exact_groups_are_content_classes_witness:
  "\<exists>!g. g \<in> set (exact_groups demo_drafts) \<and> demo_id CHR ''c'' \<in> set (eg_members g) \<and> demo_id CHR ''a'' \<in> set (eg_members g)"
proof -
  have docs: "demo_draft CHR ''c'' CHR ''h'' \<in> set demo_drafts" "demo_draft CHR ''a'' CHR ''h'' \<in> set demo_drafts"
    by (simp_all add: demo_drafts_def)
  have "demo_draft CHR ''c'' CHR ''h'' \<noteq> demo_draft CHR ''a'' CHR ''h''" by (simp add: demo_draft_def demo_id_def demo_hash_def)
  with exact_groups_are_content_classes [OF demo_drafts_distinct, THEN conjunct2, THEN bspec, OF docs(1), THEN bspec, OF docs(2)]
  show ?thesis by (simp add: demo_draft_def)
qed

lemma exact_groups_ignore_order_witness: "exact_groups demo_drafts = exact_groups (rev demo_drafts)"
  by (rule exact_groups_ignore_order [OF _ demo_drafts_distinct]) simp

lemma near_candidates_are_bounded_witness:
  "\<exists>r. analyze demo_externs (\<lambda>_. []) demo_drafts default_dedup = Inr r \<and>
     length (filter (\<lambda>c. nc_left c = demo_id CHR ''b'' \<or> nc_right c = demo_id CHR ''b'') (dr_near_candidates r)) \<le> 100"
proof -
  have "dedup_policy_ok default_dedup"
    by (simp add: dedup_policy_ok_def default_dedup_def f64_unit_interval_def f64_value_def)
  then have "\<not> isl (analyze demo_externs (\<lambda>_. []) demo_drafts default_dedup)"
    by (simp add: analyze_def split: prod.split)
  then obtain r where r: "analyze demo_externs (\<lambda>_. []) demo_drafts default_dedup = Inr r"
    by (cases "analyze demo_externs (\<lambda>_. []) demo_drafts default_dedup") simp_all
  with near_candidates_are_bounded [OF demo_drafts_distinct r] show ?thesis by (auto simp: default_dedup_def)
qed

end
