(* ===== verification/DemoPlanning.thy ===== *)
theory DemoPlanning
  imports SealFacts DemoDraft
begin

text \<open>
  A vault with one note that links to itself, parsed, planned and validated step by step: a closed
  instance of the theorems on draft plans.
\<close>

section \<open>The note\<close>

definition note_text :: string where "note_text = ''[[note]]''"

definition note_hash :: content_hash where "note_hash = from_bytes demo_externs note_text"

definition note_file_id :: file_id where
  "note_file_id = from_file demo_externs ''note.md'' (media_family Markdown) note_hash"

definition note_snapshot_id :: snapshot_id where
  "note_snapshot_id = from_manifest demo_externs ''alpha'' source_policy_id [(''note.md'', note_file_id)]"

definition note_file :: source_file where
  "note_file = \<lparr>sf_source_id = SourceId ''alpha'', sf_snapshot_id = note_snapshot_id, sf_file_id = note_file_id,
     sf_original_path = ''note.md'', sf_logical_path = ''note.md'', sf_path_encoding = Utf8, sf_kind = Markdown,
     sf_byte_len = 8, sf_raw_sha256 = [], sf_content_hash = note_hash\<rparr>"

definition note_id :: document_id where "note_id = source_pair_id demo_externs ''okc:document:v2'' note_file"

lemma note_portable: "portable_path demo_externs default_policy ''knowledge/note.md''"
  using demo_component by (simp_all add: portable_path_def split_path_def join_path_def default_policy_def default_limits_def)

lemma raw1: "raw_lines ''[[note]]'' = [''[[note]]'']" "raw_lines ''[[note.md]]'' = [''[[note.md]]'']"
  by (simp_all add: raw_lines.simps [of "''[[note]]''"] raw_lines.simps [of "''[[note.md]]''"] raw_lines.simps [of "[]"] line_length_def ending_length_def Let_def)

lemma scan_at_wiki:
  assumes "index < length line" "line ! index = CHR ''[''" "wiki_open line index = Some (embedded, start)" "find_sub '']]'' (drop start line) = Some n"
    "start + n + 2 = length line"
  shows "scan_inline_links E d line off index links =
    links @ [parse_wiki_link E d (length links) (slice_bytes line start (start + n)) (off + start) (off + start + n) embedded]"
  using assms by (simp add: scan_inline_links.simps [of E d line off index] scan_inline_links.simps [of E d line off "length line"] next_wiki_def)

lemma plain_line: "opening_fence (CHR ''['' # s) = None" "\<not> prefix ''    '' (CHR ''['' # s)" "\<not> prefix [CHR 0x09] (CHR ''['' # s)"
  by (simp_all add: opening_fence_def run_length_def Let_def)

lemma scan_note:
  "scan_links E d ''[[note]]'' 0 = [make_link E d 0 WikiLink ''note'' 2 6 (Some ''note'', None, None) None False]"
  "scan_links E d ''[[note.md]]'' 0 = [make_link E d 0 WikiLink ''note.md'' 2 9 (Some ''note.md'', None, None) None False]"
proof -
  have trim: "trim_raw_line_ending ''[[note]]'' = ''[[note]]''" "trim_raw_line_ending ''[[note.md]]'' = ''[[note.md]]''"
    by (simp_all add: trim_raw_line_ending_def strip_suffix_def suffix_to_prefix)
  have "scan_inline_links E d ''[[note]]'' 0 0 [] = [parse_wiki_link E d 0 ''note'' 2 6 False]"
    using scan_at_wiki [of 0 "''[[note]]''" False 2 4 E d 0 "[]"] by (simp add: wiki_open_def slice_bytes_def numeral_2_eq_2)
  then show "scan_links E d ''[[note]]'' 0 = [make_link E d 0 WikiLink ''note'' 2 6 (Some ''note'', None, None) None False]"
    by (simp add: scan_links_def raw1 scan_link_line_def trim plain_line parse_wiki_link_def split_wiki_target_def numeral_2_eq_2)
  have "scan_inline_links E d ''[[note.md]]'' 0 0 [] = [parse_wiki_link E d 0 ''note.md'' 2 9 False]"
    using scan_at_wiki [of 0 "''[[note.md]]''" False 2 7 E d 0 "[]"] by (simp add: wiki_open_def slice_bytes_def numeral_2_eq_2)
  then show "scan_links E d ''[[note.md]]'' 0 = [make_link E d 0 WikiLink ''note.md'' 2 9 (Some ''note.md'', None, None) None False]"
    by (simp add: scan_links_def raw1 scan_link_line_def trim plain_line parse_wiki_link_def split_wiki_target_def numeral_2_eq_2)
qed

lemma trim_note: "trim ''[[note]]'' = ''[[note]]''" "trim_line_ends ''[[note]]'' = ''[[note]]''" "heading_level ''[[note]]'' = None"
  "opening_fence ''[[note]]'' = None"
  by (simp_all add: trim_def trim_start_def trim_end_def chars_def utf8_width_def is_whitespace_def trim_line_ends_def heading_level_def
      run_length_def opening_fence_def Let_def)

lemma scan_note_blocks:
  "scan_blocks E d ''[[note]]'' 0 = ([], push_block E d Paragraph ''[[note]]'' 0 0 8 [])"
  by (simp add: scan_blocks_def raw1 scan_line_def scan_start_def trim_note scan_end_def flush_paragraph_def Let_def eval_nat_numeral)

definition note_document :: ir_document where
  "note_document = \<lparr>ir_schema_version = 2, ir_document_id = note_id, ir_source_file = note_file, ir_title = Some ''note'',
     ir_aliases = [], ir_tags = [], ir_frontmatter = None,
     ir_frontmatter_hash = from_domain_bytes demo_externs (domain ''okc:frontmatter:v2'') ''null'',
     ir_body_hash = from_domain_bytes demo_externs (domain ''okc:body:v2'') ''[[note]]'', ir_comparison_text = ''[[note]]'',
     ir_sections = [], ir_blocks = push_block demo_externs note_id Paragraph ''[[note]]'' 0 0 8 [],
     ir_links = [make_link demo_externs note_id 0 WikiLink ''note'' 2 6 (Some ''note'', None, None) None False]\<rparr>"

lemma note_pair: "validate_source_path_pair demo_externs ''note.md'' ''note.md'' Utf8 default_policy = Inr ()"
  "validate_source_path_pair demo_externs ''knowledge/note.md'' ''knowledge/note.md'' Utf8 default_policy = Inr ()"
  using demo_portable note_portable by (simp_all add: validate_pair_iff logical_of_def split_path_def join_path_def)

lemma note_stem: "path_file_stem ''note.md'' = Some ''note''" "path_file_stem ''note'' = Some ''note''"
  by (simp_all add: path_file_stem_def path_file_name_def path_components_def split_path_def name_stem_def)

lemma parse_note: "parse_markdown demo_externs demo_parsers note_file ''[[note]]'' default_policy = Inr (note_document, [])"
proof -
  have "valid_utf8 ''[[note]]''" by (simp add: utf8_follow_def)
  moreover have "split_frontmatter ''[[note]]'' = (None, ''[[note]]'', 0)"
    by (simp add: split_frontmatter_def strip_prefix_def bom_def raw1 trim_raw_line_ending_def strip_suffix_def suffix_to_prefix)
  moreover have "strip_prefix bom ''[[note]]'' = None" "\<not> prefix bom ''[[note]]''" by (simp_all add: strip_prefix_def bom_def)
  moreover have "normalize_text demo_externs ''[[note]]'' = ''[[note]]''" by (simp add: normalize_text_def)
  ultimately show ?thesis
    using note_pair
    by (simp add: parse_markdown_def parse_frontmatter_def note_file_def scan_note scan_note_blocks note_document_def note_id_def Let_def
        demo_parsers_def note_stem)
qed

section \<open>A plan\<close>

definition note_workspace :: workspace where
  "note_workspace = \<lparr>ws_schema_version = 2, ws_documents = [(note_id, note_document)], ws_canvases = [], ws_assets = [], ws_bases = []\<rparr>"

definition note_paths :: output_path_maps where
  "note_paths = \<lparr>op_documents = [(note_id, ''knowledge/note.md'')], op_assets = [], op_canvases = [], op_bases = []\<rparr>"

definition note_resolved :: workspace where
  "note_resolved = note_workspace\<lparr>ws_documents := [(note_id, note_document\<lparr>ir_links :=
     map (\<lambda>l. l\<lparr>lk_resolution := Resolved note_id\<rparr>) (ir_links note_document)\<rparr>)]\<rparr>"

lemma note_report: "analyze demo_externs (\<lambda>_. []) [note_document] default_dedup =
  Inr \<lparr>dr_exact_groups = [], dr_near_candidates = [], dr_truncated = []\<rparr>"
proof -
  have "dedup_policy_ok default_dedup"
    by (simp add: dedup_policy_ok_def default_dedup_def f64_unit_interval_def f64_value_def)
  moreover have "exact_groups [note_document] = []"
    by (simp add: exact_groups_def exact_map_def multi_collect_def multi_push_def btree_get_def)
  moreover have "near_candidates demo_externs (\<lambda>_. []) [note_document] default_dedup = ([], [])"
    by (simp add: near_candidates_def signatures_of_def List.map_filter_def btree_collect_def buckets_of_def multi_collect_def
        short_texts_of_def multi_push_def btree_get_def Let_def)
  moreover have "representative_of [note_document] = [(note_id, note_id)]"
    by (simp add: representative_of_def exact_map_def multi_collect_def multi_push_def btree_get_def sorted_members_def
        btree_collect_def note_document_def)
  ultimately show ?thesis by (simp add: analyze_def note_document_def btree_get_def)
qed

lemma note_representatives: "representative_map note_workspace [] = [(note_id, note_id)]" "representatives [(note_id, note_id)] = [note_id]"
  by (simp_all add: representative_map_def note_workspace_def btree_collect_def representatives_def)

lemma note_output: "validate_output_logical_path demo_externs ''knowledge/note.md'' default_policy = Inr ()"
  "validate_output_logical_path demo_externs ''note.md'' default_policy = Inr ()"
  using demo_portable note_portable by (simp_all add: validate_output_iff logical_of_def split_path_def join_path_def)

lemma note_allocation:
  "allocate_document_paths demo_externs note_workspace [(note_id, note_id)] default_policy = Inr (op_documents note_paths, [])"
  by (simp add: allocate_document_paths_def note_representatives note_workspace_def List.map_filter_def btree_get_def
      allocate_document_def note_document_def note_file_def note_output record_document_def note_paths_def Let_def)

lemma note_lookup: "add_lookup_conflicts demo_externs note_workspace [(note_id, note_id)] [] = Inr []"
  by (simp add: add_lookup_conflicts_def note_workspace_def at_index_def btree_get_def title_entries_def alias_entries_def note_document_def
      note_file_def note_stem multi_collect_def multi_push_def add_ambiguity_conflicts_def)

lemma note_frontmatter: "add_frontmatter_conflicts demo_externs note_workspace [] = Inr []"
  by (simp add: add_frontmatter_conflicts_def note_workspace_def multi_collect_def multi_push_def btree_get_def)

lemma note_key: "full_casefold_nfc demo_externs ''note'' = ''note''" "full_casefold_nfc demo_externs ''note.md'' = ''note.md''"
  by (simp_all add: full_casefold_nfc_def demo_externs_def to_ascii_lowercase_def ascii_lower_def char_of_def)

lemma note_parent: "parent_parts ''note.md'' = []" "parent_parts ''knowledge/note.md'' = [''knowledge'']"
  by (simp_all add: parent_parts_plain plain_path_def split_path_def)

lemma note_relative: "resolve_relative_source_path ''note.md'' ''note'' = Some ''note''"
  "relative_output_target ''knowledge/note.md'' ''knowledge/note.md'' = ''note.md''"
  by (simp_all add: resolve_relative_source_path_def forward_slashes_def split_path_def note_parent join_path_def
      relative_output_target_def nonempty_parts_def)

lemma note_normal: "normalize_link_path demo_externs ''note'' = ''note''" "normalize_link_path demo_externs ''note.md'' = ''note.md''"
  by (simp_all add: normalize_link_path_def forward_slashes_def note_key)

lemma note_indices: "\<exists>ix. build_indices demo_externs note_workspace [(note_id, note_id)] = Inr ix \<and>
  li_paths ix = [((SourceId ''alpha'', ''note.md''), [note_id])]"
  by (simp add: build_indices_def note_workspace_def document_representatives_def at_index_def btree_get_def note_document_def
      multi_collect_def multi_push_def path_entry_def note_file_def note_normal Let_def)

lemma note_links: "resolve_links demo_externs note_workspace [(note_id, note_id)] note_paths n = Inr (note_resolved, n)"
proof -
  obtain ix where ix: "build_indices demo_externs note_workspace [(note_id, note_id)] = Inr ix"
    "li_paths ix = [((SourceId ''alpha'', ''note.md''), [note_id])]" using note_indices by blast
  define l where "l = make_link demo_externs note_id 0 WikiLink ''note'' 2 6 (Some ''note'', None, None) None False"
  have l: "ir_links note_document = [l]" "lk_path l = Some ''note''" "lk_heading l = None" "lk_block_id l = None"
    by (simp_all add: l_def note_document_def make_link_def)
  have "resolve_document_candidates demo_externs ix (SourceId ''alpha'') ''note.md'' (Some ''note'') = [note_id]"
    by (simp add: resolve_document_candidates_def note_relative path_candidates_def note_normal entries_at_def btree_get_def ix(2)
        to_ascii_lowercase_def ascii_lower_def suffix_to_prefix char_of_def)
  then have "matching_candidates demo_externs ix [(note_id, note_document)] note_document l = [note_id]"
    by (simp add: matching_candidates_def l btree_get_def fragment_matches_def) (simp add: note_document_def note_file_def)
  then have "resolve_link demo_externs ix [(note_id, note_document)] note_paths note_id note_document l = Inr (Resolved note_id, [], [])"
    by (simp add: resolve_link_def)
  then have "resolve_document_step demo_externs ix [(note_id, note_id)] [(note_id, note_document)] note_paths ([], n) (note_id, note_document) =
      Inr ([(note_id, note_document\<lparr>ir_links := [l\<lparr>lk_resolution := Resolved note_id\<rparr>]\<rparr>)], n)"
    by (cases n) (simp add: resolve_document_step_def at_index_def btree_get_def l(1) resolve_link_step_def, simp add: note_document_def)
  moreover have "ws_documents note_workspace = [(note_id, note_document)]" "ws_canvases note_workspace = []"
    "note_workspace\<lparr>ws_documents := [(note_id, note_document\<lparr>ir_links := [l\<lparr>lk_resolution := Resolved note_id\<rparr>]\<rparr>)], ws_canvases := []\<rparr> = note_resolved"
    by (simp_all add: note_workspace_def note_resolved_def l(1))
  ultimately show ?thesis by (cases n) (simp add: resolve_links_def ix(1))
qed

definition note_target :: ir_document where
  "note_target = note_document\<lparr>ir_links := map (\<lambda>l. l\<lparr>lk_resolution := Resolved note_id\<rparr>) (ir_links note_document)\<rparr>"

lemma note_target_fields: "ws_documents note_resolved = [(note_id, note_target)]" "ir_source_file note_target = note_file"
  "ir_document_id note_target = note_id" "pending_links note_target = ir_links note_document"
  "ws_canvases note_resolved = []" "ws_assets note_resolved = []" "ws_bases note_resolved = []"
  by (simp_all add: note_resolved_def note_target_def note_workspace_def note_document_def pending_links_def make_link_def)

definition note_replacements :: "rewrite_replacement list" where
  "note_replacements = [\<lparr>rr_span = \<lparr>byte_start = 2, byte_end = 6\<rparr>, rr_replacement = ''note.md''\<rparr>]"

lemma note_structure: "validate_markdown_replacement_structure 8 note_replacements = Inr ()"
  by (simp add: validate_markdown_replacement_structure_def note_replacements_def span_step_def done_with_def try_fold_Cons)

lemma note_planned: "planned_markdown_replacements note_paths note_target = Inr note_replacements"
  by (simp add: planned_markdown_replacements_def note_paths_def btree_get_def note_target_def note_document_def link_replacement_def
      link_output_def make_link_def note_relative render_link_target_def note_structure [unfolded note_replacements_def]
      note_file_def note_replacements_def Let_def)

definition note_reread :: reread where
  "note_reread = (\<lambda>_ _. Inr [\<lparr>re_original_path = ''note.md'', re_logical_path = ''note.md'', re_path_encoding = Utf8,
     re_kind = Markdown, re_bytes = ''[[note]]''\<rparr>])"

lemma note_reparse: "\<exists>doc. parse_markdown demo_externs demo_parsers (output_file demo_externs note_file ''knowledge/note.md'' ''[[note.md]]'')
    ''[[note.md]]'' default_policy = Inr (doc, []) \<and>
    ir_links doc = [make_link demo_externs (ir_document_id doc) 0 WikiLink ''note.md'' 2 9 (Some ''note.md'', None, None) None False]"
proof -
  have "valid_utf8 ''[[note.md]]''" by (simp add: utf8_follow_def)
  moreover have "split_frontmatter ''[[note.md]]'' = (None, ''[[note.md]]'', 0)"
    by (simp add: split_frontmatter_def strip_prefix_def bom_def raw1 trim_raw_line_ending_def strip_suffix_def suffix_to_prefix)
  moreover have "strip_prefix bom ''[[note.md]]'' = None" by (simp add: strip_prefix_def bom_def)
  ultimately show ?thesis
    using note_pair
    by (simp add: parse_markdown_def parse_frontmatter_def output_file_def note_file_def scan_note Let_def split: prod.split)
qed

lemma note_render: "render_rewritten_markdown demo_externs demo_parsers default_policy note_target ''knowledge/note.md'' ''[[note]]''
  note_replacements = Inr ''[[note.md]]''"
proof -
  obtain doc where doc: "parse_markdown demo_externs demo_parsers (output_file demo_externs note_file ''knowledge/note.md'' ''[[note.md]]'')
      ''[[note.md]]'' default_policy = Inr (doc, [])"
    "ir_links doc = [make_link demo_externs (ir_document_id doc) 0 WikiLink ''note.md'' 2 9 (Some ''note.md'', None, None) None False]"
    using note_reparse by blast
  have "validate_rewritten_markdown_links demo_externs demo_parsers default_policy note_target ''knowledge/note.md'' ''[[note.md]]''
      note_replacements = Inr ()"
    using doc by (simp add: validate_rewritten_markdown_links_def note_target_fields as_stale_def note_replacements_def link_unchanged_def
        expected_target_def) (simp add: note_target_def note_document_def make_link_def)
  moreover have "valid_utf8 ''[[note]]''" "valid_utf8 ''[[note.md]]''" by (simp_all add: utf8_follow_def)
  moreover have "try_fold (splice_step note_target ''[[note]]'') ([], 0) note_replacements = Inr (''[[note.md'', 6)"
    by (simp add: note_replacements_def splice_step_def note_target_def note_document_def make_link_def slice_bytes_def)
  moreover have "ir_links note_target = [(make_link demo_externs note_id 0 WikiLink ''note'' 2 6 (Some ''note'', None, None) None False)
      \<lparr>lk_resolution := Resolved note_id\<rparr>]" by (simp add: note_target_def note_document_def)
  moreover have "drop 6 ''[[note]]'' = '']]''" "slice_bytes ''[[note]]'' 2 6 = ''note''" by (simp_all add: eval_nat_numeral slice_bytes_def)
  ultimately show ?thesis
    by (simp add: render_rewritten_markdown_def note_target_fields note_file_def note_hash_def note_text_def Let_def make_link_def
        note_structure del: valid_utf8.simps)
qed

definition note_vault :: vault_snapshot where
  "note_vault = \<lparr>vs_snapshot_id = note_snapshot_id, vs_vault_content_id = vault_content_id_of demo_externs [note_file],
     vs_source_id = SourceId ''alpha'', vs_source = DirectorySpec (SourceId ''alpha'') ''vault'' None,
     vs_policy_id = source_policy_id, vs_files = [note_file]\<rparr>"

definition note_operation :: output_operation where
  "note_operation = RewriteMarkdown (source_of_file note_file (markdown_rewrite_operation_id demo_externs note_file ''knowledge/note.md''
     (from_bytes demo_externs ''[[note.md]]'') note_replacements) ''knowledge/note.md'') (from_bytes demo_externs ''[[note.md]]'') note_replacements"

lemma note_operations:
  "build_operations demo_externs demo_parsers note_reread note_resolved [(note_id, note_id)] note_paths [note_vault] default_policy = Inr [note_operation]"
proof -
  let ?r = "\<lparr>pr_document_id = note_id, pr_destination = ''knowledge/note.md'', pr_replacements = note_replacements\<rparr>"
  have first: "try_fold (document_operation demo_externs note_resolved note_paths) ([], []) [note_id] = Inr ([], [?r])"
    by (simp add: document_operation_def at_index_def btree_get_def note_target_fields note_planned)
      (simp add: note_paths_def note_replacements_def)
  have "materialize_rewrite demo_externs demo_parsers default_policy note_resolved note_vault ([(''note.md'', \<lparr>re_original_path = ''note.md'',
      re_logical_path = ''note.md'', re_path_encoding = Utf8, re_kind = Markdown, re_bytes = ''[[note]]''\<rparr>)], []) ?r = Inr ([], [note_operation])"
    by (simp add: materialize_rewrite_def at_index_def btree_get_def note_target_fields note_render Let_def)
      (simp add: note_file_def note_vault_def btree_remove_def note_operation_def)
  then have "materialize_markdown_rewrites demo_externs demo_parsers note_reread default_policy note_resolved [note_vault] [?r] = Inr [note_operation]"
    by (simp add: materialize_markdown_rewrites_def btree_get_def note_target_fields multi_collect_def multi_push_def materialize_source_def
        note_reread_def at_index_def keep_needed_def) (simp add: note_vault_def note_file_def)
  then show ?thesis
    by (simp add: build_operations_def note_representatives first note_target_fields distinct_destination_def Let_def)
qed

definition note_estimate :: resource_estimate where
  "note_estimate = \<lparr>est_source_files = 1, est_source_bytes = 8, est_note_count = 1, est_output_bytes = 8, est_peak_bytes = 16777232\<rparr>"

lemma note_estimated: "calculate_resource_estimate [note_vault] note_resolved [note_operation] = Inr note_estimate"
  by (simp add: calculate_resource_estimate_def checked_sum_def note_vault_def snapshot_files_def estimate_step_def operation_length_def
      note_operation_def source_of_file_def note_file_def note_target_fields note_estimate_def checked_add_u64_def saturating_add_u64_def
      saturating_mul_u64_def u64_max_def)

lemma note_kind: "classify ''note.md'' = Markdown"
  by (simp add: classify_def path_extension_def path_file_name_def path_components_def split_path_def name_extension_def extension_is_def
      eq_ignore_ascii_case_def to_ascii_lowercase_def ascii_lower_def char_of_def)

lemma note_limits: "max_file_bytes (limits default_policy) = 2147483648" "max_structured_text_bytes (limits default_policy) = 16777216"
  "max_sources (limits default_policy) = 10" "max_files (limits default_policy) = 100000" "max_total_bytes (limits default_policy) = 21474836480"
  by (simp_all add: default_policy_def default_limits_def)

lemma note_snapshots: "validate_snapshot_set demo_externs [note_vault] default_policy = Inr ()"
proof -
  have "snapshot_file_step demo_externs default_policy note_vault (None, 0, 0) note_file = Inr (Some ''note.md'', 1, 8)"
    using note_pair note_output
    by (simp add: snapshot_file_step_def note_file_def note_vault_def note_kind note_limits checked_add_u64_def
       u64_max_def note_file_id_def)
  moreover have "vs_files note_vault = [note_file]" "vs_source_id note_vault = SourceId ''alpha''" "vs_source note_vault = DirectorySpec (SourceId ''alpha'') ''vault'' None"
    "vs_policy_id note_vault = source_policy_id" "vs_vault_content_id note_vault = vault_content_id_of demo_externs [note_file]"
    "vs_snapshot_id note_vault = from_manifest demo_externs ''alpha'' source_policy_id [(sf_logical_path note_file, sf_file_id note_file)]"
    by (simp_all add: note_vault_def note_snapshot_id_def note_file_def)
  ultimately show ?thesis
    using demo_source by (simp add: validate_snapshot_set_def note_limits snapshot_step_def)
qed

lemma note_sources: "validate_workspace_sources demo_externs note_resolved [note_vault] = Inr ()"
proof -
  have files: "btree_get (sealed_files [note_vault]) (sf_source_id note_file, sf_snapshot_id note_file, sf_logical_path note_file) = Some note_file"
    by (simp add: sealed_files_def snapshot_files_def note_vault_def btree_collect_def btree_get_def)
  have spans: "ir_sections note_target = []" "map bk_span (ir_blocks note_target) = [\<lparr>byte_start = 0, byte_end = 8\<rparr>]"
    "map lk_span (ir_links note_target) = [\<lparr>byte_start = 2, byte_end = 6\<rparr>]" "sf_byte_len note_file = 8"
    by (simp_all add: note_target_def note_document_def push_block_def make_link_def note_file_def Let_def)
  have "validate_document_source demo_externs (sealed_files [note_vault]) (note_id, note_target) = Inr ()"
    by (simp add: validate_document_source_def note_target_fields validate_file_def files spans span_in_def) (simp add: note_id_def)
  then show ?thesis
    by (simp add: validate_workspace_sources_def note_target_fields done_with_def Let_def) (simp add: note_resolved_def note_workspace_def)
qed

definition demo_writers :: writers where
  "demo_writers = \<lparr>write_policy = \<lambda>_. JNull, write_workspace = \<lambda>_. JNull, write_plan = \<lambda>_ _. JNull\<rparr>"

definition note_inspection :: inspection where
  "note_inspection = new_inspection demo_externs (semantic_hash demo_externs demo_writers default_policy) [note_vault] note_workspace []"

definition note_draft :: draft_plan where
  "note_draft = \<lparr>dp_schema_version = plan_schema, dp_compiler_version = package_version,
     dp_plan_id = TypedId (canonical_hash demo_externs (domain ''okc:plan:v2'') JNull),
     dp_projection_hash = projection_hash demo_externs demo_writers note_resolved, dp_policy = default_policy,
     dp_inspection_hash = in_inspection_hash note_inspection, dp_snapshots = [note_vault], dp_workspace = note_resolved,
     dp_paths = note_paths, dp_operations = [note_operation], dp_estimate = note_estimate, dp_exact_groups = [],
     dp_near_candidates = [], dp_conflicts = [], dp_diagnostics = []\<rparr>"

lemma note_draft_fields: "dp_workspace note_draft = note_resolved" "dp_paths note_draft = note_paths" "dp_operations note_draft = [note_operation]"
  "dp_snapshots note_draft = [note_vault]" "dp_policy note_draft = default_policy" "dp_exact_groups note_draft = []"
  by (simp_all add: note_draft_def)

lemma note_covered: "validate_plan_paths_and_operations demo_externs demo_parsers note_draft = Inr ()"
proof -
  have files: "btree_get (sealed_files [note_vault]) (sf_source_id note_file, sf_snapshot_id note_file, sf_logical_path note_file) = Some note_file"
    by (simp add: sealed_files_def snapshot_files_def note_vault_def btree_collect_def btree_get_def)
  have x: "os_source_id (op_source_of note_operation) = sf_source_id note_file" "os_snapshot_id (op_source_of note_operation) = sf_snapshot_id note_file"
    "os_source_path (op_source_of note_operation) = sf_logical_path note_file" "os_expected_hash (op_source_of note_operation) = sf_content_hash note_file"
    "destination_of note_operation = ''knowledge/note.md''" "operation_id_of note_operation =
       markdown_rewrite_operation_id demo_externs note_file ''knowledge/note.md'' (from_bytes demo_externs ''[[note.md]]'') note_replacements"
    by (simp_all add: note_operation_def source_of_file_def destination_of_def operation_id_of_def)
  have "note_replacements \<noteq> []" by (simp add: note_replacements_def)
  then have cover: "cover_operation demo_externs demo_parsers note_draft note_file note_operation st = Inr (st\<lparr>cd_documents := {''knowledge/note.md''}\<rparr>,
      operation_id_of note_operation)" if "cd_documents st = {}" for st
    using that by (simp add: cover_operation_def note_operation_def cover_document_def note_draft_fields note_target_fields source_of_file_def
        note_planned) (simp add: note_paths_def btree_get_def x(6) [unfolded note_operation_def] source_of_file_def operation_id_of_def note_file_def)
  have "operation_step demo_externs demo_parsers note_draft nothing_covered note_operation = Inr
      (nothing_covered\<lparr>cd_destinations := {portable_key demo_externs ''knowledge/note.md''},
        cd_previous := Some (''knowledge/note.md'', operation_id_of note_operation), cd_documents := {''knowledge/note.md''}\<rparr>)"
    by (simp add: operation_step_def x(1-5) note_output note_draft_fields nothing_covered_def files cover Let_def)
  then show ?thesis
    by (simp add: validate_plan_paths_and_operations_def note_draft_fields Let_def)
      (simp add: note_target_fields key_set_def value_set_def note_paths_def base_ids_def output_paths_of_def note_output nothing_covered_def)
qed

lemma note_draft_valid: "validate_draft_plan demo_externs demo_parsers demo_writers note_draft = Inr ()"
proof -
  have "validate_policy demo_externs default_policy = Inr ()" by (rule default_policy_valid) (simp_all add: demo_externs_def)
  moreover have "validate_markdown_conflict_coverage note_resolved [] [] = Inr ()"
    by (simp add: validate_markdown_conflict_coverage_def note_target_fields document_ambiguities_def Let_def)
      (simp add: note_target_def note_document_def List.map_filter_def)
  moreover have "validate_canvas_conflict_coverage demo_externs note_resolved [] = Inr ()"
    by (simp add: validate_canvas_conflict_coverage_def expected_canvas_ambiguities_def note_target_fields)
  ultimately show ?thesis
    using note_snapshots note_sources note_covered note_estimated
    by (simp add: validate_draft_plan_def note_draft_fields Let_def)
      (simp add: note_draft_def note_inspection_def new_inspection_def done_with_def calculate_plan_id_def demo_writers_def package_version_def)
qed

lemma note_plan: "build_plan demo_externs demo_parsers demo_writers (\<lambda>_. []) note_reread note_inspection default_policy = Inr note_draft"
proof -
  have "validate_policy demo_externs default_policy = Inr ()" by (rule default_policy_valid) (simp_all add: demo_externs_def)
  moreover have "map snd (ws_documents note_workspace) = [note_document]" "ws_assets note_workspace = []" "ws_canvases note_workspace = []"
    "ws_bases note_workspace = []" "dedup default_policy = default_dedup" by (simp_all add: note_workspace_def default_policy_def)
  moreover have "member_paths [(note_id, note_id)] (op_documents note_paths) = op_documents note_paths"
    by (simp add: member_paths_def note_paths_def btree_get_def)
  moreover have "\<lparr>op_documents = op_documents note_paths, op_assets = [], op_canvases = [], op_bases = []\<rparr> = note_paths"
    by (simp add: note_paths_def)
  moreover have "in_policy_hash note_inspection = semantic_hash demo_externs demo_writers default_policy" "in_workspace note_inspection = note_workspace"
    "in_snapshots note_inspection = [note_vault]" "in_diagnostics note_inspection = []"
    by (simp_all add: note_inspection_def new_inspection_def)
  moreover have "allocate_asset_paths demo_externs note_workspace default_policy = Inr ([], [])"
    "allocate_canvas_and_base_paths demo_externs note_workspace m [] default_policy = Inr ([], [], [])" for m
    by (simp_all add: allocate_asset_paths_def allocate_canvas_and_base_paths_def note_workspace_def)
  moreover have "note_draft = \<lparr>dp_schema_version = plan_schema, dp_compiler_version = package_version,
     dp_plan_id = calculate_plan_id demo_externs demo_writers h pl,
     dp_projection_hash = projection_hash demo_externs demo_writers note_resolved, dp_policy = default_policy,
     dp_inspection_hash = in_inspection_hash note_inspection, dp_snapshots = [note_vault], dp_workspace = note_resolved,
     dp_paths = note_paths, dp_operations = [note_operation], dp_estimate = note_estimate, dp_exact_groups = [],
     dp_near_candidates = [], dp_conflicts = [], dp_diagnostics = []\<rparr>" for h pl
    by (simp add: note_draft_def calculate_plan_id_def demo_writers_def)
  ultimately show ?thesis
    using note_report note_representatives note_allocation note_lookup note_frontmatter note_links note_operations note_estimated note_draft_valid
    by (simp add: build_plan_def Let_def)
qed

section \<open>Instances\<close>

lemma note_parsed: "parsed_as demo_externs demo_parsers default_policy note_document"
  "parsed_as demo_externs demo_parsers default_policy note_target"
proof -
  have "pending_links note_document = ir_links note_document" by (simp add: pending_links_def note_document_def make_link_def)
  then show "parsed_as demo_externs demo_parsers default_policy note_document"
    "parsed_as demo_externs demo_parsers default_policy note_target"
    using parse_note unfolding parsed_as_def note_target_fields by auto
qed

lemma note_utf8: "valid_utf8 ''knowledge/note.md''" "valid_utf8 ''note#.md''"
  by (simp_all add: utf8_follow_def)

lemma planned_links_reach_their_targets_witness:
  "\<exists>d dest x. btree_get (ws_documents (dp_workspace note_draft)) note_id = Some d \<and>
     btree_get (op_documents (dp_paths note_draft)) note_id = Some dest \<and> x \<in> set (dp_operations note_draft) \<and>
     document_op x (ir_source_file d) dest \<and> keeps_links demo_externs demo_parsers default_policy (dp_paths note_draft) d x"
proof -
  have ws: "in_workspace note_inspection = note_workspace" by (simp add: note_inspection_def new_inspection_def)
  have reps: "representatives (representative_map note_workspace (dp_exact_groups note_draft)) = [note_id]"
    by (simp add: note_draft_fields note_representatives)
  have outs: "output_paths_of (dp_paths note_draft) = [''knowledge/note.md'']"
    by (simp add: note_draft_fields note_paths_def output_paths_of_def)
  have "\<forall>(i, d) \<in> set (ws_documents note_workspace). ir_document_id d = i \<and> parsed_as demo_externs demo_parsers default_policy d"
    using note_parsed by (simp add: note_workspace_def) (simp add: note_document_def)
  moreover have "\<forall>path \<in> set (output_paths_of (dp_paths note_draft)). valid_utf8 path" unfolding outs using note_utf8(1) by simp
  moreover have "paths_apart (output_paths_of (dp_paths note_draft))" unfolding outs by (simp add: paths_apart_def split_path_def)
  ultimately show ?thesis
    using planned_links_reach_their_targets [OF note_plan, unfolded ws reps] by simp
qed

definition hash_asset :: asset_id where "hash_asset = TypedId (ContentHash [])"

lemma unreadable_links_stop_planning_witness:
  "isl (build_operations demo_externs demo_parsers note_reread
     (note_workspace\<lparr>ws_documents := [(note_id, note_document\<lparr>ir_links :=
        map (\<lambda>l. l\<lparr>lk_resolution := ResolvedAsset hash_asset\<rparr>) (ir_links note_document)\<rparr>)]\<rparr>)
     [(note_id, note_id)] (note_paths\<lparr>op_assets := [(hash_asset, ''note#.md'')]\<rparr>) [note_vault] default_policy)"
proof -
  let ?d = "note_document\<lparr>ir_links := map (\<lambda>l. l\<lparr>lk_resolution := ResolvedAsset hash_asset\<rparr>) (ir_links note_document)\<rparr>"
  let ?l = "(make_link demo_externs note_id 0 WikiLink ''note'' 2 6 (Some ''note'', None, None) None False)\<lparr>lk_resolution := ResolvedAsset hash_asset\<rparr>"
  let ?outs = "note_paths\<lparr>op_assets := [(hash_asset, ''note#.md'')]\<rparr>"
  have "pending_links ?d = ir_links note_document" by (simp add: pending_links_def note_document_def make_link_def)
  then have parsed: "parsed_as demo_externs demo_parsers default_policy ?d" using parse_note unfolding parsed_as_def by auto
  have "component_ok default_policy ''note#.md''"
    by (simp add: component_ok_def validate_component_def chars_def utf8_width_def forbidden_scalar_def is_control_def default_policy_def
      default_limits_def suffix_to_prefix to_ascii_uppercase_def ascii_upper_def reserved_names_def char_of_def)
  then have "portable_path demo_externs default_policy ''note#.md''"
    by (simp add: portable_path_def split_path_def join_path_def default_policy_def default_limits_def)
  then have ok: "targets_ok demo_externs default_policy ?outs ''knowledge/note.md''"
    using note_portable note_utf8 by (simp add: targets_ok_def vault_path_def note_paths_def split_path_def del: valid_utf8.simps)
  have link: "?l \<in> set (ir_links ?d)" "link_output ?outs ?d ''knowledge/note.md'' ?l = Inr (Some ''note#.md'')"
    by (simp_all add: note_document_def link_output_def btree_get_def)
  have "relative_output_target ''knowledge/note.md'' ''note#.md'' = ''../note#.md''"
    by (simp add: relative_output_target_def note_parent nonempty_parts_def split_path_def join_path_def)
  then have "\<not> fragment_survives ?l (relative_output_target ''knowledge/note.md'' ''note#.md'')"
    by (simp add: fragment_survives_def make_link_def)
  then show ?thesis
    by (intro unreadable_links_stop_planning [OF _ _ _ parsed _ ok link])
      (simp_all add: note_representatives btree_get_def note_paths_def note_document_def)
qed


section \<open>An ambiguous link\<close>

definition torn_link :: doc_link where
  "torn_link = (make_link demo_externs note_id 0 WikiLink ''note'' 2 6 (Some ''note'', None, None) None False)\<lparr>lk_resolution := Ambiguous [note_id]\<rparr>"

definition torn_note :: ir_document where
  "torn_note = note_document\<lparr>ir_links := [torn_link]\<rparr>"

definition torn_workspace :: workspace where
  "torn_workspace = note_workspace\<lparr>ws_documents := [(note_id, torn_note)]\<rparr>"

definition torn_subject :: conflict_subject where
  "torn_subject = MarkdownSubject note_id (lk_link_id torn_link) ''note''"

definition torn_hash :: content_hash where
  "torn_hash = canonical_hash demo_externs (domain ''okc:conflict:v2'')
     (conflict_identity demo_externs LinkAmbiguity True (Some torn_subject) [note_id] (markdown_ambiguity_message ''note'') None)"

definition torn_conflict :: conflict where
  "torn_conflict = \<lparr>cx_conflict_id = conflict_id_of demo_externs torn_hash, cx_content_hash = torn_hash, cx_kind = LinkAmbiguity,
     cx_required = True, cx_subject = Some torn_subject, cx_resolution = ConflictUnresolved, cx_documents = [note_id],
     cx_message = markdown_ambiguity_message ''note'', cx_score = None\<rparr>"

definition torn_operation :: output_operation where
  "torn_operation = copy_operation demo_externs note_file ''knowledge/note.md'' Markdown"

definition torn_draft :: draft_plan where
  "torn_draft = note_draft\<lparr>dp_workspace := torn_workspace, dp_projection_hash := projection_hash demo_externs demo_writers torn_workspace,
     dp_operations := [torn_operation], dp_conflicts := [torn_conflict]\<rparr>"

lemma torn_fields: "dp_workspace torn_draft = torn_workspace" "dp_operations torn_draft = [torn_operation]" "dp_conflicts torn_draft = [torn_conflict]"
  "dp_paths torn_draft = note_paths" "dp_snapshots torn_draft = [note_vault]" "dp_policy torn_draft = default_policy" "dp_exact_groups torn_draft = []"
  "ws_documents torn_workspace = [(note_id, torn_note)]" "ws_canvases torn_workspace = []" "ws_assets torn_workspace = []"
  "ws_bases torn_workspace = []" "ir_source_file torn_note = note_file" "ir_document_id torn_note = note_id" "ir_links torn_note = [torn_link]"
  by (simp_all add: torn_draft_def note_draft_def torn_workspace_def note_workspace_def torn_note_def note_document_def)

lemma torn_representatives: "representative_map torn_workspace [] = [(note_id, note_id)]"
  by (simp add: representative_map_def torn_fields btree_collect_def)

lemma torn_planned: "planned_markdown_replacements note_paths torn_note = Inr []"
proof -
  have "resolve_contained_relative_path ''note.md'' ''note'' = Some ''note''"
    "resolve_contained_relative_path ''knowledge/note.md'' ''note'' = Some ''knowledge/note''"
    by (simp_all add: resolve_contained_relative_path_def has_control_def chars_def utf8_width_def is_control_def drive_prefix_def
        note_parent split_path_def join_path_def is_ascii_alphabetic_def)
  then have "link_replacement note_paths torn_note ''knowledge/note.md'' torn_link = Inr []"
    by (simp add: link_replacement_def link_output_def torn_link_def make_link_def torn_fields
        ensure_preserved_markdown_target_is_contained_def) (simp add: note_file_def)
  then show ?thesis
    by (simp add: planned_markdown_replacements_def torn_fields validate_markdown_replacement_structure_def done_with_def)
      (simp add: note_paths_def btree_get_def)
qed

lemma torn_sources: "validate_workspace_sources demo_externs torn_workspace [note_vault] = Inr ()"
proof -
  have files: "btree_get (sealed_files [note_vault]) (sf_source_id note_file, sf_snapshot_id note_file, sf_logical_path note_file) = Some note_file"
    by (simp add: sealed_files_def snapshot_files_def note_vault_def btree_collect_def btree_get_def)
  have spans: "ir_sections torn_note = []" "map bk_span (ir_blocks torn_note) = [\<lparr>byte_start = 0, byte_end = 8\<rparr>]"
    "lk_span torn_link = \<lparr>byte_start = 2, byte_end = 6\<rparr>" "sf_byte_len note_file = 8"
    by (simp_all add: torn_note_def torn_link_def note_document_def push_block_def make_link_def note_file_def Let_def)
  have "validate_document_source demo_externs (sealed_files [note_vault]) (note_id, torn_note) = Inr ()"
    by (simp add: validate_document_source_def torn_fields validate_file_def files spans span_in_def) (simp add: note_id_def)
  then show ?thesis
    by (simp add: validate_workspace_sources_def torn_fields done_with_def Let_def) (simp add: torn_workspace_def note_workspace_def)
qed

lemma torn_covered: "validate_plan_paths_and_operations demo_externs demo_parsers torn_draft = Inr ()"
proof -
  have files: "btree_get (sealed_files [note_vault]) (sf_source_id note_file, sf_snapshot_id note_file, sf_logical_path note_file) = Some note_file"
    by (simp add: sealed_files_def snapshot_files_def note_vault_def btree_collect_def btree_get_def)
  have x: "os_source_id (op_source_of torn_operation) = sf_source_id note_file" "os_snapshot_id (op_source_of torn_operation) = sf_snapshot_id note_file"
    "os_source_path (op_source_of torn_operation) = sf_logical_path note_file" "os_expected_hash (op_source_of torn_operation) = sf_content_hash note_file"
    "destination_of torn_operation = ''knowledge/note.md''" "operation_id_of torn_operation =
       copy_operation_id demo_externs (sf_source_id note_file) (sf_logical_path note_file) ''knowledge/note.md'' (sf_content_hash note_file)"
    by (simp_all add: torn_operation_def copy_operation_def source_of_file_def destination_of_def operation_id_of_def)
  have cover: "cover_operation demo_externs demo_parsers torn_draft note_file torn_operation st = Inr (st\<lparr>cd_documents := {''knowledge/note.md''}\<rparr>,
      operation_id_of torn_operation)" if "cd_documents st = {}" for st
    unfolding x(6) using that by (simp add: cover_operation_def torn_operation_def copy_operation_def source_of_file_def cover_copy_def
        cover_document_def torn_fields torn_planned) (simp add: note_paths_def btree_get_def note_file_def)
  have "operation_step demo_externs demo_parsers torn_draft nothing_covered torn_operation = Inr
      (nothing_covered\<lparr>cd_destinations := {portable_key demo_externs ''knowledge/note.md''},
        cd_previous := Some (''knowledge/note.md'', operation_id_of torn_operation), cd_documents := {''knowledge/note.md''}\<rparr>)"
    by (simp add: operation_step_def x(1-5) note_output torn_fields nothing_covered_def files cover Let_def)
  then show ?thesis
    by (simp add: validate_plan_paths_and_operations_def torn_fields Let_def)
      (simp add: key_set_def value_set_def note_paths_def base_ids_def output_paths_of_def note_output nothing_covered_def torn_fields)
qed

lemma torn_message: "CHR 0x00 \<notin> set (markdown_ambiguity_message ''note'')" "subject_ok torn_subject"
  by (simp_all add: markdown_ambiguity_message_def ticked_def torn_subject_def subject_ok_def)

lemma torn_conflict_valid: "validate_conflict demo_externs torn_conflict = Inr ()"
  using torn_message by (simp add: validate_conflict_def torn_conflict_def calculate_conflict_content_hash_def torn_hash_def adjacent_def)

lemma torn_estimated: "calculate_resource_estimate [note_vault] torn_workspace [torn_operation] = Inr note_estimate"
  by (simp add: calculate_resource_estimate_def checked_sum_def note_vault_def snapshot_files_def estimate_step_def operation_length_def
      torn_operation_def copy_operation_def source_of_file_def note_file_def torn_fields note_estimate_def checked_add_u64_def
      saturating_add_u64_def saturating_mul_u64_def u64_max_def)

lemma torn_ambiguity: "validate_markdown_conflict_coverage torn_workspace [] [torn_conflict] = Inr ()"
proof -
  have link: "lk_resolution torn_link = Ambiguous [note_id]" "lk_raw_target torn_link = ''note''"
    by (simp_all add: torn_link_def make_link_def)
  have "ambiguity_documents note_id [note_id] = [note_id]" by (simp add: ambiguity_documents_def)
  then show ?thesis
    by (simp add: validate_markdown_conflict_coverage_def torn_representatives torn_fields document_ambiguities_def at_index_def btree_get_def
        List.map_filter_def link markdown_conflict_step_def torn_conflict_def torn_subject_def Let_def)
qed

lemma torn_draft_valid: "validate_draft_plan demo_externs demo_parsers demo_writers torn_draft = Inr ()"
proof -
  have "validate_policy demo_externs default_policy = Inr ()" by (rule default_policy_valid) (simp_all add: demo_externs_def)
  moreover have "validate_canvas_conflict_coverage demo_externs torn_workspace [torn_conflict] = Inr ()"
    by (simp add: validate_canvas_conflict_coverage_def expected_canvas_ambiguities_def torn_fields canvas_conflict_step_def torn_conflict_def torn_subject_def)
  moreover have "conflict_order_step demo_externs None torn_conflict = Inr (Some (cx_conflict_id torn_conflict))"
    by (simp add: conflict_order_step_def torn_conflict_valid)
  ultimately show ?thesis
    using note_snapshots torn_sources torn_covered torn_estimated torn_ambiguity
    by (simp add: validate_draft_plan_def torn_fields Let_def)
      (simp add: torn_draft_def note_draft_def note_inspection_def new_inspection_def done_with_def calculate_plan_id_def demo_writers_def
        package_version_def)
qed

lemma every_ambiguity_has_one_required_conflict_witness: "one_conflict [torn_conflict] torn_subject [note_id]"
proof -
  have "ambiguity_documents note_id [note_id] = [note_id]" by (simp add: ambiguity_documents_def)
  moreover have "lk_resolution torn_link = Ambiguous [note_id]" "lk_raw_target torn_link = ''note''"
    by (simp_all add: torn_link_def make_link_def)
  ultimately show ?thesis
    using every_ambiguity_has_one_required_conflict [OF torn_draft_valid]
    by (simp add: torn_fields torn_representatives btree_get_def torn_subject_def)
qed

end
