(* ===== verification/Schema.thy ===== *)
theory Schema
  imports Interop
begin

text \<open>
  The untrusted side of \<open>crates/okc-ai/src/lib.rs\<close>: \<open>validate_portable_schema\<close>, which admits the JSON
  schemas every provider adapter supports, and \<open>validate_json_instance\<close>, which checks a provider's
  answer against the schema that was asked for.

  A failed \<open>expect\<close> or index is the error \<open>AiPanic\<close>. The numbers of \<open>serde_json\<close> are finite;
  \<open>as_f64\<close> gives their rational value, of integers the nearest double.
\<close>

section \<open>Errors\<close>

datatype ai_error = AiFailed provider_error | AiPanic

type_synonym 'a ai = "ai_error + 'a"

definition plain_error :: "provider_error_kind \<Rightarrow> string \<Rightarrow> provider_error" where
  "plain_error kind m = \<lparr>pe_kind = kind, pe_message = m, pe_retryable = False, pe_retry_after_ms = None\<rparr>"

definition retryable_error :: "provider_error_kind \<Rightarrow> string \<Rightarrow> nat option \<Rightarrow> provider_error" where
  "retryable_error kind m after = \<lparr>pe_kind = kind, pe_message = m, pe_retryable = True, pe_retry_after_ms = after\<rparr>"

definition invalid_response :: "string \<Rightarrow> ai_error" where
  "invalid_response m = AiFailed (plain_error InvalidResponse m)"

definition invalid_request :: "string \<Rightarrow> ai_error" where
  "invalid_request m = AiFailed (plain_error InvalidRequest m)"

section \<open>Values\<close>

text \<open>The accessors of \<open>serde_json::Value\<close>, and \<open>as f64\<close> on integers: rounding to even.\<close>

function excess_bits :: "nat \<Rightarrow> nat" where
  "excess_bits n = (if n < 2 ^ 53 then 0 else Suc (excess_bits (n div 2)))"
  by pat_completeness auto
termination
  by (relation "measure (\<lambda>n. n)") auto

declare excess_bits.simps [simp del]

definition nearest_double :: "nat \<Rightarrow> nat" where
  "nearest_double n = (let s = excess_bits n; q = n div 2 ^ s; r = n mod 2 ^ s in
     (if 2 ^ s < 2 * r \<or> (2 * r = 2 ^ s \<and> odd q) then q + 1 else q) * 2 ^ s)"

fun as_object :: "json \<Rightarrow> (string, json) btree option" where
  "as_object (JObj m) = Some m"
| "as_object _ = None"

fun as_array :: "json \<Rightarrow> json list option" where
  "as_array (JArr items) = Some items"
| "as_array _ = None"

fun as_str :: "json \<Rightarrow> string option" where
  "as_str (JStr s) = Some s"
| "as_str _ = None"

fun as_u64 :: "json \<Rightarrow> nat option" where
  "as_u64 (JNum (PosInt w)) = Some (unat w)"
| "as_u64 _ = None"

fun as_f64 :: "json \<Rightarrow> rat option" where
  "as_f64 (JNum (PosInt w)) = Some (of_nat (nearest_double (unat w)))"
| "as_f64 (JNum (NegInt w)) = Some (- of_nat (nearest_double (nat (- sint w))))"
| "as_f64 (JNum (Float w)) = f64_value w"
| "as_f64 _ = None"

definition field :: "(string, json) btree \<Rightarrow> string \<Rightarrow> (json \<Rightarrow> 'a option) \<Rightarrow> 'a option" where
  "field m k read = Option.bind (btree_get m k) read"

fun number_eq :: "number \<Rightarrow> number \<Rightarrow> bool" where
  "number_eq (PosInt a) (PosInt b) \<longleftrightarrow> a = b"
| "number_eq (NegInt a) (NegInt b) \<longleftrightarrow> a = b"
| "number_eq (Float a) (Float b) \<longleftrightarrow> f64_value a \<noteq> None \<and> f64_value a = f64_value b"
| "number_eq _ _ \<longleftrightarrow> False"

text \<open>\<open>PartialEq\<close> of values: floats compare by value, so both zeros are equal.\<close>

function json_eq :: "json \<Rightarrow> json \<Rightarrow> bool" where
  "json_eq (JNum a) (JNum b) \<longleftrightarrow> number_eq a b"
| "json_eq (JArr a) (JArr b) \<longleftrightarrow> length a = length b \<and> (\<forall>(x, y) \<in> set (zip a b). json_eq x y)"
| "json_eq (JObj a) (JObj b) \<longleftrightarrow> map fst a = map fst b \<and> (\<forall>(x, y) \<in> set (zip (map snd a) (map snd b)). json_eq x y)"
| "json_eq (JStr a) (JStr b) \<longleftrightarrow> a = b"
| "json_eq (JBool a) (JBool b) \<longleftrightarrow> a = b"
| "json_eq JNull v \<longleftrightarrow> v = JNull"
| "json_eq (JBool a) JNull \<longleftrightarrow> False" | "json_eq (JBool a) (JNum b) \<longleftrightarrow> False" | "json_eq (JBool a) (JStr b) \<longleftrightarrow> False"
| "json_eq (JBool a) (JArr b) \<longleftrightarrow> False" | "json_eq (JBool a) (JObj b) \<longleftrightarrow> False"
| "json_eq (JNum a) JNull \<longleftrightarrow> False" | "json_eq (JNum a) (JBool b) \<longleftrightarrow> False" | "json_eq (JNum a) (JStr b) \<longleftrightarrow> False"
| "json_eq (JNum a) (JArr b) \<longleftrightarrow> False" | "json_eq (JNum a) (JObj b) \<longleftrightarrow> False"
| "json_eq (JStr a) JNull \<longleftrightarrow> False" | "json_eq (JStr a) (JBool b) \<longleftrightarrow> False" | "json_eq (JStr a) (JNum b) \<longleftrightarrow> False"
| "json_eq (JStr a) (JArr b) \<longleftrightarrow> False" | "json_eq (JStr a) (JObj b) \<longleftrightarrow> False"
| "json_eq (JArr a) JNull \<longleftrightarrow> False" | "json_eq (JArr a) (JBool b) \<longleftrightarrow> False" | "json_eq (JArr a) (JNum b) \<longleftrightarrow> False"
| "json_eq (JArr a) (JStr b) \<longleftrightarrow> False" | "json_eq (JArr a) (JObj b) \<longleftrightarrow> False"
| "json_eq (JObj a) JNull \<longleftrightarrow> False" | "json_eq (JObj a) (JBool b) \<longleftrightarrow> False" | "json_eq (JObj a) (JNum b) \<longleftrightarrow> False"
| "json_eq (JObj a) (JStr b) \<longleftrightarrow> False" | "json_eq (JObj a) (JArr b) \<longleftrightarrow> False"
  by pat_completeness auto
termination
  by (relation "measure (\<lambda>(a, _). size a)") (auto simp: less_Suc_eq_le size_list_estimation' dest!: set_zip_leftD)

section \<open>Portable schemas\<close>

definition allowed_keywords :: "string list" where
  "allowed_keywords = [''type'', ''properties'', ''required'', ''items'', ''additionalProperties'', ''enum'', ''description'',
     ''minimum'', ''maximum'', ''minItems'', ''maxItems'', ''minLength'', ''maxLength'']"

definition schema_types :: "string list" where
  "schema_types = [''object'', ''array'', ''string'', ''number'', ''integer'', ''boolean'', ''null'']"

text \<open>What every node must be: its object and its type.\<close>

definition schema_node :: "json \<Rightarrow> nat \<Rightarrow> ((string, json) btree \<times> string) ai" where
  "schema_node schema depth =
     and_then (reject (32 < depth) (invalid_request ''JSON Schema nesting exceeds 32 levels''))
     (bind_res (require (invalid_request ''JSON Schema nodes must be objects'') (as_object schema)) (\<lambda>m.
      and_then (reject (list_ex (\<lambda>(k, _). k \<notin> set allowed_keywords) m)
         (invalid_request ''JSON Schema contains a keyword outside the portable subset''))
     (bind_res (require (invalid_request ''every JSON Schema node requires one string type'') (field m ''type'' as_str)) (\<lambda>kind.
      and_then (reject (kind \<notin> set schema_types) (invalid_request ''unsupported JSON Schema type''))
        (Inr (m, kind))))))"

definition object_children :: "(string, json) btree \<Rightarrow> json list ai" where
  "object_children m =
     and_then (reject (btree_get m ''additionalProperties'' \<noteq> Some (JBool False))
         (invalid_request ''object schemas require additionalProperties=false''))
     (bind_res (require (invalid_request ''object schemas require properties'') (field m ''properties'' as_object)) (\<lambda>properties.
      bind_res (require (invalid_request ''object schemas require a required array'') (field m ''required'' as_array)) (\<lambda>needed.
      bind_res (require (invalid_request ''required entries must be strings'') (those (map as_str needed))) (\<lambda>names.
      and_then (reject (card (set names) \<noteq> length properties \<or> list_ex (\<lambda>(k, _). k \<notin> set names) properties)
         (invalid_request ''portable object schemas require every property exactly once''))
        (Inr (map snd properties))))))"

definition enum_check :: "(string, json) btree \<Rightarrow> unit ai" where
  "enum_check m = (case btree_get m ''enum'' of None \<Rightarrow> Inr ()
     | Some v \<Rightarrow> reject (case as_array v of None \<Rightarrow> True | Some items \<Rightarrow> items = [])
         (invalid_request ''schema enum must be a non-empty array''))"

function walk_schema :: "json \<Rightarrow> nat \<Rightarrow> unit ai" where
  "walk_schema schema depth = (case schema_node schema depth of Inl e \<Rightarrow> Inl e | Inr (m, kind) \<Rightarrow>
     and_then (if kind = ''object''
         then bind_res (object_children m) (\<lambda>children. for_each (\<lambda>c. walk_schema c (depth + 1)) children)
         else Inr ())
     (and_then (if kind = ''array''
         then bind_res (require (invalid_request ''array schemas require items'') (btree_get m ''items''))
           (\<lambda>c. walk_schema c (depth + 1))
         else Inr ())
       (enum_check m)))"
  by pat_completeness auto
termination
  by (relation "measure (\<lambda>(_, depth). 33 - depth)") (auto simp: schema_node_def)

declare walk_schema.simps [simp del]

definition validate_portable_schema :: "json \<Rightarrow> unit ai" where
  "validate_portable_schema schema = walk_schema schema 0"

section \<open>Instances\<close>

definition has_kind :: "string \<Rightarrow> json \<Rightarrow> bool" where
  "has_kind kind v = (case v of
       JObj _ \<Rightarrow> kind = ''object''
     | JArr _ \<Rightarrow> kind = ''array''
     | JStr _ \<Rightarrow> kind = ''string''
     | JNum n \<Rightarrow> kind = ''number'' \<or> (kind = ''integer'' \<and> (case n of Float _ \<Rightarrow> False | _ \<Rightarrow> True))
     | JBool _ \<Rightarrow> kind = ''boolean''
     | JNull \<Rightarrow> kind = ''null'')"

definition outside_enum :: "(string, json) btree \<Rightarrow> json \<Rightarrow> bool" where
  "outside_enum m v = (case field m ''enum'' as_array of None \<Rightarrow> False
     | Some allowed \<Rightarrow> \<not> list_ex (\<lambda>a. json_eq a v) allowed)"

definition outside_count :: "(string, json) btree \<Rightarrow> string \<Rightarrow> string \<Rightarrow> nat \<Rightarrow> bool" where
  "outside_count m low high n \<longleftrightarrow>
     (case field m low as_u64 of None \<Rightarrow> False | Some k \<Rightarrow> n < k) \<or>
     (case field m high as_u64 of None \<Rightarrow> False | Some k \<Rightarrow> k < n)"

definition outside_range :: "(string, json) btree \<Rightarrow> rat \<Rightarrow> bool" where
  "outside_range m x \<longleftrightarrow>
     (case field m ''minimum'' as_f64 of None \<Rightarrow> False | Some k \<Rightarrow> x < k) \<or>
     (case field m ''maximum'' as_f64 of None \<Rightarrow> False | Some k \<Rightarrow> k < x)"

definition at_path :: "string \<Rightarrow> string \<Rightarrow> ai_error" where
  "at_path path what = invalid_response (''structured output '' @ [CHR 0x60] @ path @ [CHR 0x60] @ what)"

lemma get_size: "btree_get m k = Some v \<Longrightarrow> size v < size (JObj m)"
  by (auto simp: btree_get_def less_Suc_eq_le intro!: size_list_estimation' dest!: map_of_SomeD)

lemma enumerated_size: "(i, v) \<in> set (enumerate n vs) \<Longrightarrow> size v < size (JArr vs)"
  by (auto simp: less_Suc_eq_le enumerate_eq_zip intro!: size_list_estimation' dest!: set_zip_rightD)

function walk_instance :: "json \<Rightarrow> json \<Rightarrow> string \<Rightarrow> unit ai" where
  "walk_instance schema v path =
     bind_res (require AiPanic (as_object schema)) (\<lambda>m.
     bind_res (require AiPanic (field m ''type'' as_str)) (\<lambda>kind.
     and_then (reject (\<not> has_kind kind v) (at_path path '' has the wrong type''))
     (and_then (reject (outside_enum m v) (at_path path '' is outside its enum''))
     (case v of
        JObj inst \<Rightarrow>
          bind_res (require AiPanic (field m ''properties'' as_object)) (\<lambda>properties.
          and_then (reject (length inst \<noteq> length properties \<or> list_ex (\<lambda>(k, _). btree_get properties k = None) inst)
            (at_path path '' has missing or unknown properties''))
          (for_each (\<lambda>(k, child). case btree_get inst k of None \<Rightarrow> Inl AiPanic
             | Some w \<Rightarrow> walk_instance child w (path @ ''.'' @ k)) properties))
      | JArr items \<Rightarrow>
          and_then (reject (outside_count m ''minItems'' ''maxItems'' (length items)) (at_path path '' violates array bounds''))
          (for_each (\<lambda>(i, item). case btree_get m ''items'' of None \<Rightarrow> Inl AiPanic
             | Some s \<Rightarrow> walk_instance s item (path @ ''['' @ decimal i @ '']'')) (enumerate 0 items))
      | JStr t \<Rightarrow>
          reject (outside_count m ''minLength'' ''maxLength'' (length (chars t))) (at_path path '' violates string bounds'')
      | JNum n \<Rightarrow>
          (case as_f64 (JNum n) of None \<Rightarrow> Inl (at_path path '' is not finite'')
           | Some x \<Rightarrow> reject (outside_range m x) (at_path path '' violates numeric bounds''))
      | _ \<Rightarrow> Inr ()))))"
  by pat_completeness auto
termination
  by (relation "measure (\<lambda>(_, v, _). size v)") (auto dest: get_size enumerated_size simp del: json.size)

declare walk_instance.simps [simp del]

definition validate_json_instance :: "json \<Rightarrow> json \<Rightarrow> unit ai" where
  "validate_json_instance schema v = and_then (validate_portable_schema schema) (walk_instance schema v ''$'')"

end
