(* ===== verification/Providers.thy ===== *)
theory Providers
  imports Schema DraftPlan
begin

text \<open>
  Provider profiles and endpoints, \<open>crates/okc-ai/src/lib.rs\<close>: the data of requests and responses, what
  a profile must satisfy, which endpoints count as local, and the URL and headers of a request.

  Third-party and environment code is the record \<open>ai_env\<close>: the lenient and the tokenising JSON readers,
  the URI parser, TOML and the process environment. \<open>str::parse::<IpAddr>\<close> is the standard library's
  parser, modelled as it works. A \<open>SecretString\<close> is its text. Texts of foreign errors are left out of messages.
\<close>

section \<open>Data\<close>

definition ai_schema_version :: nat where "ai_schema_version = 3"

definition max_retries :: nat where "max_retries = 2"

datatype ai_role = EmbeddingRole | OrganizerRole | SynthesisRole | CriticRole

datatype provider_kind = OpenAi | Anthropic | Gemini | Ollama | OpenAiCompatible

datatype data_boundary = LocalBoundary | RemoteBoundary

record provider_identity =
  pi_provider :: string
  pi_model :: string
  pi_adapter_version :: string
  pi_response_model :: "string option"

record provider_capabilities =
  pc_schema_version :: nat
  pc_identity :: provider_identity
  pc_structured_generation :: bool
  pc_embeddings :: bool
  pc_strict_json_schema :: bool
  pc_data_boundary :: data_boundary
  pc_max_input_bytes :: nat
  pc_max_output_bytes :: nat
  pc_max_batch_items :: nat

record usage_receipt =
  ur_input_tokens :: "nat option"
  ur_output_tokens :: "nat option"
  ur_total_tokens :: "nat option"
  ur_request_id :: "string option"

record generation_request =
  gr_schema_version :: nat
  gr_role :: ai_role
  gr_task_id :: string
  gr_system_instruction :: string
  gr_input :: json
  gr_schema_name :: string
  gr_output_schema :: json
  gr_max_output_tokens :: nat
  gr_temperature :: "64 word option"

record generation_response =
  gs_schema_version :: nat
  gs_output :: json
  gs_identity :: provider_identity
  gs_request_hash :: string
  gs_response_hash :: string
  gs_finish_reason :: string
  gs_usage :: usage_receipt

record embedding_request =
  er_schema_version :: nat
  er_task_id :: string
  er_inputs :: "string list"
  er_dimensions :: "nat option"

record embedding_response =
  es_schema_version :: nat
  es_vectors :: "rat list list"
  es_dimensions :: nat
  es_identity :: provider_identity
  es_request_hash :: string
  es_response_hash :: string
  es_usage :: usage_receipt

record provider_profile =
  pp_kind :: provider_kind
  pp_endpoint :: string
  pp_model :: string
  pp_api_key_env :: "string option"
  pp_os_keychain :: "string option"
  pp_timeout_ms :: nat
  pp_max_response_bytes :: nat
  pp_max_input_bytes :: nat
  pp_max_batch_items :: nat
  pp_options :: "(string, json) btree"

record provider_config =
  pg_schema_version :: nat
  pg_profiles :: "(string, provider_profile) btree"

record http_request =
  hq_url :: string
  hq_headers :: "(string \<times> string) list"
  hq_body :: bytes
  hq_timeout_ms :: nat
  hq_max_response_bytes :: nat

record http_response =
  hr_status :: nat
  hr_body :: bytes
  hr_request_id :: "string option"
  hr_retry_after_ms :: "nat option"

record ai_env =
  lenient_json :: "bytes \<Rightarrow> json option"
  wire_tokens :: "bytes \<Rightarrow> raw_json option"
  parse_uri :: "string \<Rightarrow> (string option \<times> string option) option"
  parse_toml :: "string \<Rightarrow> provider_config option"
  env_var :: "string \<Rightarrow> string option"

section \<open>Addresses\<close>

text \<open>\<open>IpAddr::from_str\<close>: dotted decimal without leading zeros, or eight groups with one elision.\<close>

fun digits_value :: "nat \<Rightarrow> (char \<Rightarrow> nat option) \<Rightarrow> string \<Rightarrow> nat option" where
  "digits_value base digit [] = Some 0"
| "digits_value base digit (c # s) = (case digit c of None \<Rightarrow> None
     | Some d \<Rightarrow> map_option (\<lambda>v. d * base ^ length s + v) (digits_value base digit s))"

definition decimal_digit :: "char \<Rightarrow> nat option" where
  "decimal_digit c = (if is_ascii_digit c then Some (of_char c - 48) else None)"

definition read_octet :: "string \<Rightarrow> nat option" where
  "read_octet s = (if s = [] \<or> 3 < length s \<or> (1 < length s \<and> hd s = CHR ''0'') then None
     else (case digits_value 10 decimal_digit s of None \<Rightarrow> None | Some v \<Rightarrow> if v < 256 then Some v else None))"

definition read_ipv4 :: "string \<Rightarrow> nat list option" where
  "read_ipv4 s = (case those (map read_octet (split_on CHR ''.'' s)) of
     Some [a, b, c, d] \<Rightarrow> Some [a, b, c, d] | _ \<Rightarrow> None)"

definition hex_digit_value :: "char \<Rightarrow> nat option" where
  "hex_digit_value c = (let n = (of_char (ascii_lower c) :: nat) in
     if is_ascii_digit c then Some (n - 48) else if 97 \<le> n \<and> n \<le> 102 then Some (n - 87) else None)"

definition read_group :: "string \<Rightarrow> nat option" where
  "read_group s = (if s = [] \<or> 4 < length s then None else digits_value 16 hex_digit_value s)"

text \<open>Groups separated by colons; the last piece may be an IPv4 address, which fills two groups.\<close>

fun read_groups :: "string list \<Rightarrow> nat list option" where
  "read_groups [] = Some []"
| "read_groups [s] = (case read_group s of Some g \<Rightarrow> Some [g]
     | None \<Rightarrow> (case read_ipv4 s of Some [a, b, c, d] \<Rightarrow> Some [a * 256 + b, c * 256 + d] | _ \<Rightarrow> None))"
| "read_groups (s # q # ps) = (case (read_group s, read_groups (q # ps)) of
     (Some g, Some gs) \<Rightarrow> Some (g # gs) | _ \<Rightarrow> None)"

definition group_list :: "string \<Rightarrow> nat list option" where
  "group_list s = (if s = [] then Some [] else read_groups (split_on CHR '':'' s))"

definition split_once_str :: "string \<Rightarrow> string \<Rightarrow> (string \<times> string) option" where
  "split_once_str sep s = (case find_sub sep s of None \<Rightarrow> None | Some n \<Rightarrow> Some (take n s, drop (n + length sep) s))"

text \<open>An IPv4 tail is allowed after the elision, or at the very end, but not before an elision.\<close>

definition read_ipv6 :: "string \<Rightarrow> nat list option" where
  "read_ipv6 s = (case split_once_str ''::'' s of
     None \<Rightarrow> (case group_list s of Some gs \<Rightarrow> if length gs = 8 then Some gs else None | None \<Rightarrow> None)
   | Some (front, rest) \<Rightarrow>
       if CHR ''.'' \<in> set front then None
       else (case (group_list front, group_list rest) of
           (Some f, Some r) \<Rightarrow> if length f + length r \<le> 7 then Some (f @ replicate (8 - length f - length r) 0 @ r) else None
         | _ \<Rightarrow> None))"

definition is_loopback_address :: "string \<Rightarrow> bool" where
  "is_loopback_address s = (case read_ipv4 s of Some octets \<Rightarrow> hd octets = 127
     | None \<Rightarrow> read_ipv6 s = Some [0, 0, 0, 0, 0, 0, 0, 1])"

definition unbracketed :: "string \<Rightarrow> string" where
  "unbracketed host = (case Option.bind (strip_prefix ''['' host) (strip_suffix '']'') of None \<Rightarrow> host | Some h \<Rightarrow> h)"

definition is_loopback_host :: "string \<Rightarrow> bool" where
  "is_loopback_host host \<longleftrightarrow> eq_ignore_ascii_case host ''localhost'' \<or> is_loopback_address (unbracketed host)"

definition is_loopback_endpoint :: "ai_env \<Rightarrow> string \<Rightarrow> bool" where
  "is_loopback_endpoint V endpoint = (case parse_uri V endpoint of
     Some (_, Some host) \<Rightarrow> is_loopback_host host | _ \<Rightarrow> False)"

definition authority_of :: "string \<Rightarrow> string" where
  "authority_of endpoint = (case split_once_str ''://'' endpoint of None \<Rightarrow> '''' | Some (_, rest) \<Rightarrow> hd (split_on CHR ''/'' rest))"

definition fail_with :: "provider_error_kind \<Rightarrow> string \<Rightarrow> ai_error" where
  "fail_with kind m = AiFailed (plain_error kind m)"

definition validate_network_endpoint :: "ai_env \<Rightarrow> string \<Rightarrow> unit ai" where
  "validate_network_endpoint V endpoint =
     and_then (reject (CHR ''@'' \<in> set (authority_of endpoint))
       (fail_with RemotePolicy ''provider endpoint must not contain credentials''))
     (bind_res (require (invalid_request ''provider endpoint is not a valid absolute URI'') (parse_uri V endpoint)) (\<lambda>(s, h).
      let scheme = case_option '''' id s; host = case_option '''' id h in
      seq_checks [
        reject (host = '''' \<or> (scheme \<noteq> ''http'' \<and> scheme \<noteq> ''https''))
          (invalid_request ''provider endpoint requires an HTTP(S) scheme and host''),
        reject (scheme \<noteq> ''https'' \<and> \<not> is_loopback_host host)
          (fail_with RemotePolicy ''non-loopback provider endpoints require HTTPS'')]))"

definition validate_endpoint :: "ai_env \<Rightarrow> string \<Rightarrow> unit ai" where
  "validate_endpoint V endpoint = validate_network_endpoint V endpoint"

section \<open>Profiles\<close>

fun find_map :: "('a \<Rightarrow> 'b option) \<Rightarrow> 'a list \<Rightarrow> 'b option" where
  "find_map f [] = None"
| "find_map f (x # xs) = (case f x of Some y \<Rightarrow> Some y | None \<Rightarrow> find_map f xs)"

lemma find_map_cong [fundef_cong]:
  assumes "xs = ys" and "\<And>x. x \<in> set ys \<Longrightarrow> f x = g x"
  shows "find_map f xs = find_map g ys"
  using assms(2) unfolding assms(1) by (induction ys) (simp_all split: option.splits)

definition secret_names :: "string list" where
  "secret_names = [''apikey'', ''authorization'', ''auth'', ''bearertoken'', ''accesstoken'', ''secret'', ''password'',
     ''credential'', ''credentials'']"

definition is_secret_option_name :: "string \<Rightarrow> bool" where
  "is_secret_option_name name \<longleftrightarrow> map ascii_lower (filter is_ascii_alphanumeric name) \<in> set secret_names"

function nested_credential_option_path :: "json \<Rightarrow> string option" where
  "nested_credential_option_path (JObj m) = find_map (\<lambda>(k, v).
     if is_secret_option_name k then Some (''.'' @ k)
     else map_option (\<lambda>rest. ''.'' @ k @ rest) (nested_credential_option_path v)) m"
| "nested_credential_option_path (JArr items) = find_map (\<lambda>(i, v).
     map_option (\<lambda>rest. ''['' @ decimal i @ '']'' @ rest) (nested_credential_option_path v)) (enumerate 0 items)"
| "nested_credential_option_path JNull = None"
| "nested_credential_option_path (JBool b) = None"
| "nested_credential_option_path (JNum n) = None"
| "nested_credential_option_path (JStr t) = None"
  by pat_completeness auto
termination
  by (relation "measure size")
    (auto simp: less_Suc_eq_le size_list_estimation' enumerate_eq_zip dest!: set_zip_rightD)

definition credential_option_path :: "(string, json) btree \<Rightarrow> string option" where
  "credential_option_path options = find_map (\<lambda>(k, v).
     if is_secret_option_name k then Some k
     else map_option (\<lambda>rest. k @ rest) (nested_credential_option_path v)) options"

definition env_name_ok :: "string \<Rightarrow> bool" where
  "env_name_ok name \<longleftrightarrow> name \<noteq> '''' \<and> length name \<le> 256 \<and> list_all (\<lambda>c. is_ascii_alphanumeric c \<or> c = CHR ''_'') name"

definition keychain_name_ok :: "string \<Rightarrow> bool" where
  "keychain_name_ok name \<longleftrightarrow> name \<noteq> '''' \<and> length name \<le> 256 \<and>
     list_all (\<lambda>c. is_ascii_alphanumeric c \<or> c = CHR ''-'' \<or> c = CHR ''_'' \<or> c = CHR ''.'') name"

definition validate_profile :: "ai_env \<Rightarrow> provider_profile \<Rightarrow> unit ai" where
  "validate_profile V p = seq_checks [
     reject (trim (pp_model p) = '''' \<or> 512 < length (pp_model p) \<or> has_control (pp_model p))
       (invalid_request ''model must contain 1..=512 non-control bytes''),
     reject (pp_timeout_ms p = 0 \<or> pp_max_response_bytes p = 0 \<or> pp_max_input_bytes p = 0 \<or> pp_max_batch_items p = 0)
       (invalid_request ''provider resource limits must be non-zero''),
     (case credential_option_path (pp_options p) of None \<Rightarrow> Inr ()
      | Some k \<Rightarrow> Inl (invalid_request (''provider option '' @ [CHR 0x60] @ k @ [CHR 0x60]
          @ '' looks credential-bearing; use api_key_env or os_keychain''))),
     validate_endpoint V (pp_endpoint p),
     reject (case pp_api_key_env p of None \<Rightarrow> False | Some name \<Rightarrow> \<not> env_name_ok name)
       (invalid_request ''api_key_env must be an environment variable name''),
     reject (pp_api_key_env p \<noteq> None \<and> pp_os_keychain p \<noteq> None)
       (invalid_request ''provider profile must use either api_key_env or os_keychain, not both''),
     reject (case pp_os_keychain p of None \<Rightarrow> False | Some name \<Rightarrow> \<not> keychain_name_ok name)
       (invalid_request ''os_keychain must be a bounded account name'')]"

definition data_boundary_of :: "ai_env \<Rightarrow> provider_profile \<Rightarrow> data_boundary" where
  "data_boundary_of V p = (if is_loopback_endpoint V (pp_endpoint p) then LocalBoundary else RemoteBoundary)"

definition missing_key :: "string \<Rightarrow> string \<Rightarrow> ai_error" where
  "missing_key name what = fail_with Authentication
     (''configured API-key environment variable '' @ [CHR 0x60] @ name @ [CHR 0x60] @ what)"

definition resolve_api_key :: "ai_env \<Rightarrow> provider_profile \<Rightarrow> string option ai" where
  "resolve_api_key V p =
     and_then (reject (pp_os_keychain p \<noteq> None)
       (fail_with Authentication ''OS-keychain credentials must be resolved by the application service''))
     (case pp_api_key_env p of None \<Rightarrow> Inr None
      | Some name \<Rightarrow> bind_res (require (missing_key name '' is missing'') (env_var V name)) (\<lambda>v.
          and_then (reject (v = '''') (missing_key name '' is empty'')) (Inr (Some v))))"

definition profile_name_ok :: "string \<Rightarrow> bool" where
  "profile_name_ok name \<longleftrightarrow> name \<noteq> '''' \<and> length name \<le> 128 \<and>
     list_all (\<lambda>c. is_ascii_alphanumeric c \<or> c = CHR ''-'' \<or> c = CHR ''_'') name"

definition validate_profile_name :: "string \<Rightarrow> unit ai" where
  "validate_profile_name name = reject (\<not> profile_name_ok name)
     (invalid_request (''invalid provider profile name '' @ [CHR 0x60] @ name @ [CHR 0x60]))"

definition config_from_toml :: "ai_env \<Rightarrow> string \<Rightarrow> provider_config ai" where
  "config_from_toml V input =
     bind_res (require (invalid_request ''invalid provider configuration'') (parse_toml V input)) (\<lambda>config.
     and_then (reject (pg_schema_version config \<noteq> ai_schema_version) (invalid_request (''expected provider schema 3, got '' @ decimal (pg_schema_version config))))
     (and_then (for_each (\<lambda>(name, p). and_then (validate_profile_name name) (validate_profile V p)) (pg_profiles config))
       (Inr config)))"

text \<open>The printer of TOML is an argument; it fails or gives the text.\<close>

definition config_to_toml :: "(provider_config \<Rightarrow> string option) \<Rightarrow> provider_config \<Rightarrow> string ai" where
  "config_to_toml print config =
     and_then (reject (pg_schema_version config \<noteq> ai_schema_version)
       (invalid_request ''provider configuration has a stale schema version''))
     (require (invalid_response ''could not serialize provider configuration'') (print config))"

section \<open>Requests\<close>

definition provider_name :: "provider_kind \<Rightarrow> string" where
  "provider_name kind = (case kind of OpenAi \<Rightarrow> ''openai'' | Anthropic \<Rightarrow> ''anthropic'' | Gemini \<Rightarrow> ''gemini''
     | Ollama \<Rightarrow> ''ollama'' | OpenAiCompatible \<Rightarrow> ''openai_compatible'')"

definition identity_of :: "provider_profile \<Rightarrow> string option \<Rightarrow> provider_identity" where
  "identity_of p response_model = \<lparr>pi_provider = provider_name (pp_kind p), pi_model = pp_model p,
     pi_adapter_version = package_version, pi_response_model = response_model\<rparr>"

definition capabilities_of :: "ai_env \<Rightarrow> provider_profile \<Rightarrow> provider_capabilities" where
  "capabilities_of V p = \<lparr>pc_schema_version = ai_schema_version, pc_identity = identity_of p None,
     pc_structured_generation = True, pc_embeddings = (pp_kind p \<noteq> Anthropic),
     pc_strict_json_schema = (pp_kind p \<noteq> OpenAiCompatible), pc_data_boundary = data_boundary_of V p,
     pc_max_input_bytes = pp_max_input_bytes p, pc_max_output_bytes = pp_max_response_bytes p,
     pc_max_batch_items = pp_max_batch_items p\<rparr>"

fun headers_for :: "provider_kind \<Rightarrow> string option \<Rightarrow> (string \<times> string) list" where
  "headers_for OpenAi (Some key) = [(''authorization'', ''Bearer '' @ key)]"
| "headers_for OpenAiCompatible (Some key) = [(''authorization'', ''Bearer '' @ key)]"
| "headers_for Anthropic (Some key) = [(''x-api-key'', key), (''anthropic-version'', ''2023-06-01'')]"
| "headers_for Gemini (Some key) = [(''x-goog-api-key'', key)]"
| "headers_for _ _ = []"

definition trim_slashes :: "string \<Rightarrow> string" where
  "trim_slashes s = rev (dropWhile (\<lambda>c. c = CHR ''/'') (rev s))"

definition endpoint_with_path :: "string \<Rightarrow> string \<Rightarrow> string" where
  "endpoint_with_path endpoint default_path =
     (let trimmed = trim_slashes endpoint
      in case find_sub ''://'' trimmed of
           Some i \<Rightarrow> if CHR ''/'' \<in> set (drop (i + 3) trimmed) then trimmed else trimmed @ default_path
         | None \<Rightarrow> trimmed @ default_path)"

definition generation_endpoint :: "provider_profile \<Rightarrow> string" where
  "generation_endpoint p = endpoint_with_path (pp_endpoint p) (case pp_kind p of OpenAi \<Rightarrow> ''/v1/responses''
     | Anthropic \<Rightarrow> ''/v1/messages'' | Gemini \<Rightarrow> ''/v1beta/interactions'' | Ollama \<Rightarrow> ''/api/chat''
     | OpenAiCompatible \<Rightarrow> ''/v1/chat/completions'')"

definition embedding_endpoint :: "provider_profile \<Rightarrow> string" where
  "embedding_endpoint p = endpoint_with_path (pp_endpoint p) (case pp_kind p of OpenAi \<Rightarrow> ''/v1/embeddings''
     | OpenAiCompatible \<Rightarrow> ''/v1/embeddings'' | Gemini \<Rightarrow> ''/v1beta/models/'' @ pp_model p @ '':batchEmbedContents''
     | Ollama \<Rightarrow> ''/api/embed'' | Anthropic \<Rightarrow> '''')"

definition http_request_of ::
  "externs \<Rightarrow> provider_profile \<Rightarrow> string \<Rightarrow> (string \<times> string) list \<Rightarrow> json \<Rightarrow> http_request ai" where
  "http_request_of E p url headers body = (let b = json_vec E body in
     and_then (reject (pp_max_input_bytes p < length b)
       (fail_with ContextLimit ''provider request exceeds the configured input byte limit''))
     (Inr \<lparr>hq_url = url, hq_headers = headers, hq_body = b, hq_timeout_ms = pp_timeout_ms p,
        hq_max_response_bytes = pp_max_response_bytes p\<rparr>))"

end
