(* ===== verification/Wire.thy ===== *)
theory Wire
  imports Providers
begin

text \<open>
  The vendors' wire formats, \<open>crates/okc-ai/src/lib.rs\<close>: the JSON body of a structured generation and of
  an embedding request, and the reading of the answers. A coordinate of an embedding vector is the
  rational value of the \<open>f32\<close> it is rounded to; token counts are \<open>u64\<close> and their sum wraps.
\<close>

section \<open>Requests\<close>

definition validate_generation_request :: "generation_request \<Rightarrow> unit ai" where
  "validate_generation_request r =
     and_then (seq_checks [
       reject (gr_schema_version r \<noteq> ai_schema_version) (invalid_request ''structured request has a stale schema version''),
       reject (gr_task_id r = '''' \<or> 256 < length (gr_task_id r) \<or> gr_schema_name r = '''' \<or> 128 < length (gr_schema_name r)
           \<or> gr_max_output_tokens r = 0)
         (invalid_request ''structured request has invalid bounded fields''),
       reject (case gr_temperature r of None \<Rightarrow> False
           | Some t \<Rightarrow> (case f64_value t of None \<Rightarrow> True | Some x \<Rightarrow> \<not> (0 \<le> x \<and> x \<le> 2)))
         (invalid_request ''temperature must be finite and between 0 and 2'')])
     (validate_portable_schema (gr_output_schema r))"

definition validate_embedding_request :: "embedding_request \<Rightarrow> provider_profile \<Rightarrow> unit ai" where
  "validate_embedding_request r p = reject (er_schema_version r \<noteq> ai_schema_version \<or> er_task_id r = ''''
       \<or> 256 < length (er_task_id r) \<or> er_inputs r = [] \<or> pp_max_batch_items p < length (er_inputs r) \<or> '''' \<in> set (er_inputs r))
     (invalid_request ''embedding request has invalid schema, ID, or batch items'')"

function remove_null_object_fields :: "json \<Rightarrow> json" where
  "remove_null_object_fields (JArr items) = JArr (map remove_null_object_fields items)"
| "remove_null_object_fields (JObj m) =
     JObj (map (\<lambda>(k, v). (k, remove_null_object_fields v)) (filter (\<lambda>(_, v). v \<noteq> JNull) m))"
| "remove_null_object_fields JNull = JNull"
| "remove_null_object_fields (JBool b) = JBool b"
| "remove_null_object_fields (JNum n) = JNum n"
| "remove_null_object_fields (JStr t) = JStr t"
  by pat_completeness auto
termination
  by (relation "measure size") (auto simp: less_Suc_eq_le size_list_estimation')

definition jnat :: "nat \<Rightarrow> json" where
  "jnat n = JNum (PosInt (of_nat n))"

definition temperature_json :: "64 word option \<Rightarrow> json" where
  "temperature_json t = (case t of None \<Rightarrow> JNull | Some w \<Rightarrow> if f64_is_finite w then JNum (Float w) else JNull)"

definition chat_messages :: "string \<Rightarrow> string \<Rightarrow> json" where
  "chat_messages system input = JArr [jobj [(''role'', JStr ''system''), (''content'', JStr system)],
     jobj [(''role'', JStr ''user''), (''content'', JStr input)]]"

definition typed_message :: "string \<Rightarrow> string \<Rightarrow> json" where
  "typed_message role t = jobj [(''role'', JStr role),
     (''content'', JArr [jobj [(''type'', JStr ''input_text''), (''text'', JStr t)]])]"

definition generation_wire_body :: "externs \<Rightarrow> provider_kind \<Rightarrow> string \<Rightarrow> generation_request \<Rightarrow> json" where
  "generation_wire_body E kind model r =
     (let input = json_vec E (gr_input r); system = gr_system_instruction r; schema = gr_output_schema r;
          temperature = temperature_json (gr_temperature r); tokens = jnat (gr_max_output_tokens r)
      in remove_null_object_fields (case kind of
         OpenAi \<Rightarrow> jobj [(''model'', JStr model), (''store'', JBool False), (''truncation'', JStr ''disabled''),
           (''input'', JArr [typed_message ''system'' system, typed_message ''user'' input]),
           (''text'', jobj [(''format'', jobj [(''type'', JStr ''json_schema''), (''name'', JStr (gr_schema_name r)),
              (''strict'', JBool True), (''schema'', schema)])]),
           (''max_output_tokens'', tokens), (''temperature'', temperature)]
       | Anthropic \<Rightarrow> jobj [(''model'', JStr model), (''max_tokens'', tokens), (''system'', JStr system),
           (''messages'', JArr [jobj [(''role'', JStr ''user''), (''content'', JStr input)]]),
           (''output_config'', jobj [(''format'', jobj [(''type'', JStr ''json_schema''), (''schema'', schema)])]),
           (''temperature'', temperature)]
       | Gemini \<Rightarrow> jobj [(''model'', JStr model), (''store'', JBool False), (''system_instruction'', JStr system),
           (''input'', JStr input),
           (''response_format'', jobj [(''type'', JStr ''json_schema''), (''json_schema'', schema)]),
           (''generation_config'', jobj [(''max_output_tokens'', tokens), (''temperature'', temperature)])]
       | Ollama \<Rightarrow> jobj [(''model'', JStr model), (''stream'', JBool False), (''messages'', chat_messages system input),
           (''format'', schema), (''options'', jobj [(''temperature'', temperature), (''num_predict'', tokens)])]
       | OpenAiCompatible \<Rightarrow> jobj [(''model'', JStr model), (''messages'', chat_messages system input),
           (''response_format'', jobj [(''type'', JStr ''json_schema''), (''json_schema'', jobj [
              (''name'', JStr (gr_schema_name r)), (''strict'', JBool True), (''schema'', schema)])]),
           (''max_tokens'', tokens), (''temperature'', temperature)]))"

definition embedding_wire_body :: "provider_kind \<Rightarrow> string \<Rightarrow> embedding_request \<Rightarrow> json" where
  "embedding_wire_body kind model r =
     (let inputs = JArr (map JStr (er_inputs r)); dimensions = jopt jnat (er_dimensions r);
          hosted = jobj [(''model'', JStr model), (''input'', inputs), (''encoding_format'', JStr ''float''), (''dimensions'', dimensions)]
      in case kind of
         OpenAi \<Rightarrow> remove_null_object_fields hosted
       | OpenAiCompatible \<Rightarrow> remove_null_object_fields hosted
       | Gemini \<Rightarrow> jobj [(''requests'', JArr (map (\<lambda>t. jobj [(''model'', JStr (''models/'' @ model)),
           (''content'', jobj [(''parts'', JArr [jobj [(''text'', JStr t)]])]), (''outputDimensionality'', dimensions)]) (er_inputs r)))]
       | Ollama \<Rightarrow> remove_null_object_fields (jobj [(''model'', JStr model), (''input'', inputs), (''dimensions'', dimensions)])
       | Anthropic \<Rightarrow> JNull)"

section \<open>Reading answers\<close>

definition json_get :: "json \<Rightarrow> string \<Rightarrow> json option" where
  "json_get v k = Option.bind (as_object v) (\<lambda>m. btree_get m k)"

definition get_str :: "json \<Rightarrow> string \<Rightarrow> string option" where
  "get_str v k = Option.bind (json_get v k) as_str"

definition get_u64 :: "json \<Rightarrow> string \<Rightarrow> nat option" where
  "get_u64 v k = Option.bind (json_get v k) as_u64"

definition get_array :: "json \<Rightarrow> string \<Rightarrow> json list option" where
  "get_array v k = Option.bind (json_get v k) as_array"

definition or_else :: "'a option \<Rightarrow> 'a option \<Rightarrow> 'a option" where
  "or_else a b = (case a of None \<Rightarrow> b | Some _ \<Rightarrow> a)"

definition or_default :: "'a \<Rightarrow> 'a option \<Rightarrow> 'a" where
  "or_default d a = (case a of None \<Rightarrow> d | Some x \<Rightarrow> x)"

text \<open>\<open>choices[0]\<close> through a JSON pointer: an array element, or a member of that name.\<close>

definition first_choice :: "json \<Rightarrow> json option" where
  "first_choice wire = (case json_get wire ''choices'' of
     Some (JArr (c # _)) \<Rightarrow> Some c | Some (JObj m) \<Rightarrow> btree_get m ''0'' | _ \<Rightarrow> None)"

definition message_content :: "json \<Rightarrow> string option" where
  "message_content v = Option.bind (json_get v ''message'') (\<lambda>m. get_str m ''content'')"

function find_string :: "string list \<Rightarrow> json \<Rightarrow> string option" where
  "find_string ks (JStr t) = Some t"
| "find_string ks (JArr items) = find_map (find_string ks) items"
| "find_string ks (JObj m) = (case find_map (\<lambda>k. Option.bind (btree_get m k) as_str) ks of
     Some t \<Rightarrow> Some t | None \<Rightarrow> find_map (\<lambda>(_, v). find_string ks v) m)"
| "find_string ks JNull = None"
| "find_string ks (JBool b) = None"
| "find_string ks (JNum n) = None"
  by pat_completeness auto
termination
  by (relation "measure (\<lambda>(_, v). size v)") (auto simp: less_Suc_eq_le size_list_estimation')

definition usage :: "nat option \<Rightarrow> nat option \<Rightarrow> nat option \<Rightarrow> usage_receipt" where
  "usage i u t = \<lparr>ur_input_tokens = i, ur_output_tokens = u, ur_total_tokens = t, ur_request_id = None\<rparr>"

definition summed :: "nat option \<Rightarrow> nat option \<Rightarrow> nat option" where
  "summed a b = (case (a, b) of (Some x, Some y) \<Rightarrow> Some ((x + y) mod 2 ^ 64) | _ \<Rightarrow> None)"

definition parse_openai_usage :: "json \<Rightarrow> usage_receipt" where
  "parse_openai_usage v = (let u = or_default JNull (json_get v ''usage'') in
     usage (Option.bind (or_else (json_get u ''input_tokens'') (json_get u ''prompt_tokens'')) as_u64)
       (Option.bind (or_else (json_get u ''output_tokens'') (json_get u ''completion_tokens'')) as_u64)
       (get_u64 u ''total_tokens''))"

definition parse_anthropic_usage :: "json \<Rightarrow> usage_receipt" where
  "parse_anthropic_usage v = (let u = or_default JNull (json_get v ''usage'');
       i = get_u64 u ''input_tokens''; r = get_u64 u ''output_tokens'' in usage i r (summed i r))"

definition parse_gemini_usage :: "json \<Rightarrow> usage_receipt" where
  "parse_gemini_usage v = (let u = or_default JNull (or_else (json_get v ''usageMetadata'') (json_get v ''usage'')) in
     usage (Option.bind (or_else (json_get u ''promptTokenCount'') (json_get u ''input_tokens'')) as_u64)
       (Option.bind (or_else (json_get u ''candidatesTokenCount'') (json_get u ''output_tokens'')) as_u64)
       (Option.bind (or_else (json_get u ''totalTokenCount'') (json_get u ''total_tokens'')) as_u64))"

definition parse_ollama_usage :: "json \<Rightarrow> usage_receipt" where
  "parse_ollama_usage v = (let i = get_u64 v ''prompt_eval_count''; r = get_u64 v ''eval_count'' in usage i r (summed i r))"

definition read_json_strict :: "ai_env \<Rightarrow> bytes \<Rightarrow> json option" where
  "read_json_strict V b = (case wire_tokens V b of None \<Rightarrow> None
     | Some r \<Rightarrow> (case visit r of Inl _ \<Rightarrow> None | Inr v \<Rightarrow> Some v))"

definition typed_text :: "string \<Rightarrow> json \<Rightarrow> string option" where
  "typed_text kind v = (if get_str v ''type'' = Some kind then get_str v ''text'' else None)"

text \<open>The text of a generation, its finish reason and its usage.\<close>

definition generation_text :: "provider_kind \<Rightarrow> json \<Rightarrow> (string \<times> string \<times> usage_receipt) ai" where
  "generation_text kind wire = (case kind of
     OpenAi \<Rightarrow> (let status = or_default ''unknown'' (get_str wire ''status'') in
       and_then (reject (status \<noteq> ''completed'') (fail_with Refusal ''OpenAI response did not complete''))
       (bind_res (require (invalid_response ''OpenAI response has no output_text'')
          (Option.bind (get_array wire ''output'') (find_map (\<lambda>item.
             Option.bind (get_array item ''content'') (find_map (typed_text ''output_text''))))))
        (\<lambda>t. Inr (t, status, parse_openai_usage wire))))
   | Anthropic \<Rightarrow> (let stop = or_default ''unknown'' (get_str wire ''stop_reason'') in
       and_then (reject (stop = ''refusal'') (fail_with Refusal ''Anthropic refused the structured request''))
       (bind_res (require (invalid_response ''Anthropic response has no text content'')
          (Option.bind (get_array wire ''content'') (find_map (typed_text ''text''))))
        (\<lambda>t. Inr (t, stop, parse_anthropic_usage wire))))
   | Gemini \<Rightarrow> (let status = or_default ''completed'' (get_str wire ''status'') in
       and_then (reject (status \<noteq> ''completed'') (fail_with Refusal ''Gemini interaction did not complete''))
       (bind_res (require (invalid_response ''Gemini response has no structured text'') (find_string [''output_text'', ''text''] wire))
        (\<lambda>t. Inr (t, status, parse_gemini_usage wire))))
   | Ollama \<Rightarrow>
       bind_res (require (invalid_response ''Ollama response has no message content'') (message_content wire))
        (\<lambda>t. Inr (t, or_default ''stop'' (get_str wire ''done_reason''), parse_ollama_usage wire))
   | OpenAiCompatible \<Rightarrow>
       bind_res (require (invalid_response ''compatible response has no first choice'') (first_choice wire)) (\<lambda>choice.
       bind_res (require (invalid_response ''compatible response has no message content'') (message_content choice))
        (\<lambda>t. Inr (t, or_default ''unknown'' (get_str choice ''finish_reason''), parse_openai_usage wire))))"

record parsed_generation =
  pn_output :: json
  pn_response_model :: "string option"
  pn_finish_reason :: string
  pn_usage :: usage_receipt

definition parse_generation_response :: "ai_env \<Rightarrow> provider_kind \<Rightarrow> json \<Rightarrow> parsed_generation ai" where
  "parse_generation_response V kind wire =
     bind_res (generation_text kind wire) (\<lambda>(t, finish_reason, u).
     bind_res (require (invalid_response ''structured response text is not valid JSON'') (read_json_strict V t)) (\<lambda>v.
       Inr \<lparr>pn_output = v, pn_response_model = get_str wire ''model'', pn_finish_reason = finish_reason, pn_usage = u\<rparr>))"

section \<open>Vectors\<close>

fun bit_count :: "nat \<Rightarrow> nat" where
  "bit_count n = (if n = 0 then 0 else Suc (bit_count (n div 2)))"

declare bit_count.simps [simp del]

text \<open>The exponent of the leading bit of a positive rational, and \<open>as f32\<close>, rounding to even.\<close>

definition binary_exponent :: "rat \<Rightarrow> int" where
  "binary_exponent x = (case quotient_of x of (n, d) \<Rightarrow>
     let e = int (bit_count (nat n)) - int (bit_count (nat d)) in if power_int 2 e \<le> x then e else e - 1)"

definition round_to_f32 :: "rat \<Rightarrow> rat option" where
  "round_to_f32 x = (if x = 0 then Some 0
     else let u = power_int 2 (max (binary_exponent \<bar>x\<bar>) (-126) - 23); r = of_int (round_half_even (\<bar>x\<bar> / u)) * u
          in if 2 ^ 128 \<le> r then None else Some (sgn x * r))"

definition parse_vector :: "json option \<Rightarrow> rat list ai" where
  "parse_vector v = bind_res (require (invalid_response ''embedding vector is not an array'') (Option.bind v as_array))
     (try_map (\<lambda>x. require (invalid_response ''embedding contains a non-finite coordinate'') (Option.bind (as_f64 x) round_to_f32)))"

definition indexed_item :: "json \<Rightarrow> (nat \<times> rat list) ai" where
  "indexed_item item =
     bind_res (require (invalid_response ''embedding item has no index'') (get_u64 item ''index'')) (\<lambda>i.
     bind_res (parse_vector (json_get item ''embedding'')) (\<lambda>v. Inr (i, v)))"

definition vectors_of :: "provider_kind \<Rightarrow> json \<Rightarrow> rat list list ai" where
  "vectors_of kind wire =
     (let hosted = bind_res (require (invalid_response ''embedding response has no data array'') (get_array wire ''data'')) (\<lambda>items.
            bind_res (try_map indexed_item items) (\<lambda>pairs.
            try_map (\<lambda>(expected, (i, v)). if i = expected then Inr v
                else Inl (invalid_response ''embedding indexes are missing or reordered''))
              (enumerate 0 (sort_key fst pairs))))
      in case kind of
         OpenAi \<Rightarrow> hosted
       | OpenAiCompatible \<Rightarrow> hosted
       | Gemini \<Rightarrow> bind_res (require (invalid_response ''Gemini response has no embeddings array'') (get_array wire ''embeddings''))
           (try_map (\<lambda>item. parse_vector (or_else (json_get item ''values'')
              (Option.bind (json_get item ''embedding'') (\<lambda>e. json_get e ''values'')))))
       | Ollama \<Rightarrow> bind_res (require (invalid_response ''Ollama response has no embeddings array'') (get_array wire ''embeddings''))
           (try_map (\<lambda>item. parse_vector (Some item)))
       | Anthropic \<Rightarrow> Inl (fail_with UnsupportedCapability ''provider does not support embeddings''))"

definition embedding_usage :: "provider_kind \<Rightarrow> json \<Rightarrow> usage_receipt" where
  "embedding_usage kind wire = (case kind of Gemini \<Rightarrow> parse_gemini_usage wire | Ollama \<Rightarrow> parse_ollama_usage wire
     | _ \<Rightarrow> parse_openai_usage wire)"

definition validate_vectors :: "rat list list \<Rightarrow> nat \<Rightarrow> nat ai" where
  "validate_vectors vectors expected =
     and_then (reject (length vectors \<noteq> expected \<or> vectors = [])
       (invalid_response ''embedding response count does not match request order''))
     (let dimension = length (hd vectors) in
      and_then (reject (dimension = 0 \<or> list_ex (\<lambda>v. length v \<noteq> dimension) vectors)
        (invalid_response ''embedding dimensions must be equal, non-zero, and finite''))
      (and_then (reject (2 ^ 32 \<le> dimension) (invalid_response ''embedding dimension exceeds u32'')) (Inr dimension)))"

end
