(* ===== verification/Client.thy ===== *)
theory Client
  imports Wire
begin

text \<open>
  The provider client, \<open>crates/okc-ai/src/lib.rs\<close>: \<open>send_with_retry\<close> with its deadline, delays and
  cancellation, the redaction of credentials, and \<open>generate_structured\<close> and \<open>embed\<close>.

  What the code reads from outside during one round is a record \<open>round\<close>: the cancellation token each
  time it is polled, the nanoseconds elapsed each time the clock is read, and what the transport
  returned. A run is a function from round numbers; the result of sending is paired with the requests
  that were posted, in order, and the milliseconds slept.
\<close>

section \<open>Failures\<close>

text \<open>\<open>str::replace\<close> for a pattern that is not empty.\<close>

function replace_all :: "string \<Rightarrow> string \<Rightarrow> string \<Rightarrow> string" where
  "replace_all pat rep [] = []"
| "replace_all pat rep (c # s) = (if pat \<noteq> [] \<and> prefix pat (c # s) then rep @ replace_all pat rep (drop (length pat) (c # s))
     else c # replace_all pat rep s)"
  by pat_completeness auto
termination
  by (relation "measure (\<lambda>(_, _, s). length s)") (auto simp: prefix_def neq_Nil_conv)

definition secret_headers :: "string list" where
  "secret_headers = [''authorization'', ''x-api-key'', ''x-goog-api-key'']"

definition redact_value :: "string \<Rightarrow> string \<Rightarrow> string" where
  "redact_value v m = (let m = (case strip_prefix ''Bearer '' v of
         Some secret \<Rightarrow> if secret = '''' then m else replace_all secret ''[redacted]'' m
       | None \<Rightarrow> m)
     in if v = '''' then m else replace_all v ''[redacted]'' m)"

definition redact_request_secrets :: "provider_error \<Rightarrow> http_request \<Rightarrow> provider_error" where
  "redact_request_secrets e r = foldl (\<lambda>e (name, v). if to_ascii_lowercase name \<in> set secret_headers
       then e\<lparr>pe_message := redact_value v (pe_message e)\<rparr> else e) e (hq_headers r)"

definition sanitize_provider_message :: "string \<Rightarrow> string" where
  "sanitize_provider_message m = concat (take 512 (filter (\<lambda>p. \<not> is_control (scalar_of p)) (char_slices m)))"

definition parse_u64 :: "string \<Rightarrow> nat option" where
  "parse_u64 s = (let digits = (if prefix ''+'' s then tl s else s) in
     if digits = '''' then None else (case digits_value 10 decimal_digit digits of None \<Rightarrow> None
       | Some n \<Rightarrow> if n < 2 ^ 64 then Some n else None))"

definition parse_retry_after_ms :: "string \<Rightarrow> nat option" where
  "parse_retry_after_ms v = (case parse_u64 (trim v) of None \<Rightarrow> None
     | Some seconds \<Rightarrow> if seconds * 1000 \<le> u64_max then Some (min (seconds * 1000) 30000) else None)"

definition status_kind :: "nat \<Rightarrow> provider_error_kind" where
  "status_kind s = (if s = 401 then Authentication else if s = 403 then Authorization else if s = 408 then Timeout
     else if s = 413 \<or> s = 422 then ContextLimit else if s = 429 then RateLimited
     else if 500 \<le> s \<and> s \<le> 599 then Transport else InvalidRequest)"

definition retryable_status :: "nat \<Rightarrow> bool" where
  "retryable_status s \<longleftrightarrow> s = 408 \<or> s = 409 \<or> s = 429 \<or> (500 \<le> s \<and> s \<le> 599)"

definition status_message :: "ai_env \<Rightarrow> http_response \<Rightarrow> string" where
  "status_message V r = (let fallback = ''provider returned HTTP '' @ decimal (hr_status r) in
     case Option.bind (lenient_json V (hr_body r)) (find_string [''message'', ''error'', ''detail'']) of
       None \<Rightarrow> fallback
     | Some m \<Rightarrow> (let m = sanitize_provider_message m in if m = '''' then fallback else m))"

definition normalize_http_error :: "ai_env \<Rightarrow> http_response \<Rightarrow> provider_error" where
  "normalize_http_error V r = (if retryable_status (hr_status r)
     then retryable_error (status_kind (hr_status r)) (status_message V r) (hr_retry_after_ms r)
     else plain_error (status_kind (hr_status r)) (status_message V r))"

definition provider_cancelled :: provider_error where
  "provider_cancelled = plain_error ProviderCancelled ''provider operation was cancelled''"

definition provider_deadline_exceeded :: provider_error where
  "provider_deadline_exceeded = retryable_error Timeout ''provider operation exceeded its total request and retry deadline'' None"

section \<open>The transport\<close>

text \<open>
  \<open>UreqTransport::post_json\<close> around the HTTP library: what the library does with a request is an argument,
  reduced to the errors the code tells apart and the parts of an answer it reads; the token is polled
  three times.
\<close>

datatype network_error = NetTimeout | NetBodyExceedsLimit | NetOther

record network_answer =
  na_status :: nat
  na_header :: "string \<Rightarrow> string option"
  na_body :: "network_error + bytes"

definition map_ureq_error :: "network_error \<Rightarrow> provider_error" where
  "map_ureq_error e = (case e of
     NetTimeout \<Rightarrow> retryable_error Timeout ''provider request timed out'' None
   | NetBodyExceedsLimit \<Rightarrow> plain_error ResponseTooLarge ''provider response exceeded the configured byte limit''
   | NetOther \<Rightarrow> retryable_error Transport ''provider transport failed before a valid response'' None)"

definition from_network :: "network_error + 'a \<Rightarrow> 'a ai" where
  "from_network r = (case r of Inl e \<Rightarrow> Inl (AiFailed (map_ureq_error e)) | Inr x \<Rightarrow> Inr x)"

definition post_json ::
  "ai_env \<Rightarrow> (http_request \<Rightarrow> network_error + network_answer) \<Rightarrow> (nat \<Rightarrow> bool) \<Rightarrow> http_request \<Rightarrow> http_response ai" where
  "post_json V network cancelled r =
     and_then (reject (cancelled 0) (AiFailed provider_cancelled))
     (and_then (validate_network_endpoint V (hq_url r))
     (bind_res (from_network (network r)) (\<lambda>answer.
      and_then (reject (cancelled 1) (AiFailed provider_cancelled))
      (and_then (reject (300 \<le> na_status answer \<and> na_status answer < 400) (fail_with RemotePolicy ''provider redirect was refused''))
      (bind_res (from_network (na_body answer)) (\<lambda>body.
       and_then (reject (cancelled 2) (AiFailed provider_cancelled))
       (Inr \<lparr>hr_status = na_status answer, hr_body = body, hr_request_id = na_header answer ''x-request-id'',
          hr_retry_after_ms = Option.bind (na_header answer ''retry-after'') parse_retry_after_ms\<rparr>)))))))"

section \<open>Sending\<close>

record round =
  rd_cancelled_before :: bool
  rd_elapsed_before :: nat
  rd_outcome :: "provider_error + http_response"
  rd_cancelled_after :: bool
  rd_elapsed_after :: nat
  rd_elapsed_at_delay :: nat
  rd_cancelled_in_delay :: "nat \<Rightarrow> bool"

record 'a sent =
  tx_posted :: "http_request list"
  tx_slept :: nat
  tx_result :: "provider_error + 'a"

text \<open>\<open>cancellable_delay\<close>: slices of 50 milliseconds, the token polled before each and at the end.\<close>

fun cancellable_delay :: "nat \<Rightarrow> (nat \<Rightarrow> bool) \<Rightarrow> nat \<Rightarrow> nat \<times> (provider_error + unit)" where
  "cancellable_delay remaining cancelled n =
     (if cancelled n then (0, Inl provider_cancelled)
      else if remaining = 0 then (0, Inr ())
      else (case cancellable_delay (remaining - min remaining 50) cancelled (Suc n) of
          (ms, r) \<Rightarrow> (min remaining 50 + ms, r)))"

declare cancellable_delay.simps [simp del]

definition nanos :: "nat \<Rightarrow> nat" where
  "nanos ms = ms * 1000000"

definition attempt_request :: "http_request \<Rightarrow> nat \<Rightarrow> http_request" where
  "attempt_request r elapsed = r\<lparr>hq_timeout_ms := max ((nanos (hq_timeout_ms r) - elapsed) div 1000000) 1\<rparr>"

text \<open>One round up to the decision to retry: the answer, an error that ends it, or one to retry.\<close>

datatype verdict = Answer http_response | Stop provider_error | Again provider_error

definition judge :: "ai_env \<Rightarrow> http_request \<Rightarrow> nat \<Rightarrow> round \<Rightarrow> verdict" where
  "judge V r attempts w =
     (if rd_cancelled_after w then Stop provider_cancelled
      else if nanos (hq_timeout_ms r) \<le> rd_elapsed_after w then Stop provider_deadline_exceeded
      else (case rd_outcome w of
          Inr response \<Rightarrow> if 200 \<le> hr_status response \<and> hr_status response < 300 then Answer response
            else let e = redact_request_secrets (normalize_http_error V response) r
                 in if \<not> pe_retryable e \<or> max_retries \<le> attempts then Stop e else Again e
        | Inl e \<Rightarrow> let e = redact_request_secrets e r
                 in if \<not> pe_retryable e \<or> max_retries \<le> attempts then Stop e else Again e))"

definition retry_delay :: "provider_error \<Rightarrow> nat" where
  "retry_delay e = min (case pe_retry_after_ms e of None \<Rightarrow> 0 | Some ms \<Rightarrow> ms) 30000"

function send_from :: "ai_env \<Rightarrow> (nat \<Rightarrow> round) \<Rightarrow> http_request \<Rightarrow> nat \<Rightarrow> http_response sent" where
  "send_from V rounds r attempts = (let w = rounds attempts; budget = nanos (hq_timeout_ms r) in
     if rd_cancelled_before w then \<lparr>tx_posted = [], tx_slept = 0, tx_result = Inl provider_cancelled\<rparr>
     else if budget \<le> rd_elapsed_before w then \<lparr>tx_posted = [], tx_slept = 0, tx_result = Inl provider_deadline_exceeded\<rparr>
     else let here = attempt_request r (rd_elapsed_before w) in
       (case judge V r attempts w of
          Answer response \<Rightarrow> \<lparr>tx_posted = [here], tx_slept = 0, tx_result = Inr response\<rparr>
        | Stop e \<Rightarrow> \<lparr>tx_posted = [here], tx_slept = 0, tx_result = Inl e\<rparr>
        | Again e \<Rightarrow>
            if budget - rd_elapsed_at_delay w \<le> nanos (retry_delay e)
            then \<lparr>tx_posted = [here], tx_slept = 0, tx_result = Inl provider_deadline_exceeded\<rparr>
            else (case cancellable_delay (retry_delay e) (rd_cancelled_in_delay w) 0 of
                (ms, Inl e) \<Rightarrow> \<lparr>tx_posted = [here], tx_slept = ms, tx_result = Inl e\<rparr>
              | (ms, Inr _) \<Rightarrow> (let rest = send_from V rounds r (attempts + 1)
                  in \<lparr>tx_posted = here # tx_posted rest, tx_slept = ms + tx_slept rest, tx_result = tx_result rest\<rparr>))))"
  by pat_completeness auto
termination
  by (relation "measure (\<lambda>(_, _, _, attempts). max_retries - attempts)")
    (auto simp: judge_def Let_def split: if_splits sum.splits)

declare send_from.simps [simp del]

definition send_with_retry :: "ai_env \<Rightarrow> (nat \<Rightarrow> round) \<Rightarrow> http_request \<Rightarrow> http_response sent" where
  "send_with_retry V rounds r = send_from V rounds r 0"

section \<open>Operations\<close>

text \<open>\<open>canonicalize\<close>, this crate's own copy of the canonical form: the keys sorted, each looked up.\<close>

function canonicalize :: "json \<Rightarrow> json" where
  "canonicalize (JArr items) = JArr (map canonicalize items)"
| "canonicalize (JObj m) = JObj (btree_collect (map (\<lambda>k. (k, case btree_get m k of None \<Rightarrow> JNull | Some v \<Rightarrow> canonicalize v))
     (sort (map fst m))))"
| "canonicalize JNull = JNull"
| "canonicalize (JBool b) = JBool b"
| "canonicalize (JNum n) = JNum n"
| "canonicalize (JStr t) = JStr t"
  by pat_completeness auto
termination
  by (relation "measure size") (auto simp: less_Suc_eq_le size_list_estimation' dest!: get_size)

definition canonical_hex :: "externs \<Rightarrow> string \<Rightarrow> json \<Rightarrow> string" where
  "canonical_hex E label v = hex_encode E (sha256 E (label @ json_vec E (canonicalize v)))"

record client =
  ac_profile :: provider_profile
  ac_api_key :: "string option"

text \<open>\<open>ProviderClient::new\<close>, \<open>with_api_key\<close> and \<open>with_transport\<close>: only a valid profile makes a client.\<close>

definition client_with :: "ai_env \<Rightarrow> provider_profile \<Rightarrow> string option \<Rightarrow> client ai" where
  "client_with V p key = and_then (validate_profile V p) (Inr \<lparr>ac_profile = p, ac_api_key = key\<rparr>)"

text \<open>What an operation did: the requests it posted, and its result.\<close>

type_synonym 'a traced = "http_request list \<times> 'a ai"

definition untraced :: "'a ai \<Rightarrow> ('a \<Rightarrow> 'b traced) \<Rightarrow> 'b traced" where
  "untraced r f = (case r of Inl e \<Rightarrow> ([], Inl e) | Inr x \<Rightarrow> f x)"

definition send :: "ai_env \<Rightarrow> (nat \<Rightarrow> round) \<Rightarrow> http_request \<Rightarrow> (http_response \<Rightarrow> 'a ai) \<Rightarrow> 'a traced" where
  "send V rounds r f = (let s = send_with_retry V rounds r in
     (tx_posted s, case tx_result s of Inl e \<Rightarrow> Inl (AiFailed e) | Inr response \<Rightarrow> f response))"

definition key_for :: "ai_env \<Rightarrow> client \<Rightarrow> string option ai" where
  "key_for V c = (case ac_api_key c of Some k \<Rightarrow> Inr (Some k) | None \<Rightarrow> resolve_api_key V (ac_profile c))"

definition generate_structured ::
  "externs \<Rightarrow> ai_env \<Rightarrow> client \<Rightarrow> (nat \<Rightarrow> round) \<Rightarrow> bool \<Rightarrow> generation_request \<Rightarrow> generation_response traced" where
  "generate_structured E V c rounds cancelled r = (let p = ac_profile c in
     untraced (validate_generation_request r) (\<lambda>_.
     untraced (reject cancelled (AiFailed provider_cancelled)) (\<lambda>_.
     untraced (key_for V c) (\<lambda>key.
     let body = generation_wire_body E (pp_kind p) (pp_model p) r in
     untraced (http_request_of E p (generation_endpoint p) (headers_for (pp_kind p) key) body) (\<lambda>http.
     send V rounds http (\<lambda>response.
       bind_res (require (invalid_response ''provider returned malformed JSON'') (read_json_strict V (hr_body response))) (\<lambda>wire.
       bind_res (parse_generation_response V (pp_kind p) wire) (\<lambda>parsed.
       and_then (validate_json_instance (gr_output_schema r) (pn_output parsed))
       (Inr \<lparr>gs_schema_version = ai_schema_version, gs_output = pn_output parsed,
          gs_identity = identity_of p (pn_response_model parsed),
          gs_request_hash = canonical_hex E (domain ''okc:ai-request:v3'') body,
          gs_response_hash = canonical_hex E (domain ''okc:ai-response:v3'') wire,
          gs_finish_reason = pn_finish_reason parsed,
          gs_usage = (pn_usage parsed)\<lparr>ur_request_id := hr_request_id response\<rparr>\<rparr>)))))))))"

definition embed_batch ::
  "externs \<Rightarrow> ai_env \<Rightarrow> client \<Rightarrow> (nat \<Rightarrow> round) \<Rightarrow> bool \<Rightarrow> embedding_request \<Rightarrow> embedding_response traced" where
  "embed_batch E V c rounds cancelled r = (let p = ac_profile c in
     untraced (validate_embedding_request r p) (\<lambda>_.
     untraced (reject (pp_kind p = Anthropic)
       (fail_with UnsupportedCapability ''provider profile does not declare native embeddings'')) (\<lambda>_.
     untraced (reject cancelled (AiFailed provider_cancelled)) (\<lambda>_.
     untraced (key_for V c) (\<lambda>key.
     let body = embedding_wire_body (pp_kind p) (pp_model p) r in
     untraced (http_request_of E p (embedding_endpoint p) (headers_for (pp_kind p) key) body) (\<lambda>http.
     send V rounds http (\<lambda>response.
       bind_res (require (invalid_response ''provider returned malformed embedding JSON'') (read_json_strict V (hr_body response))) (\<lambda>wire.
       bind_res (vectors_of (pp_kind p) wire) (\<lambda>vectors.
       bind_res (validate_vectors vectors (length (er_inputs r))) (\<lambda>dimensions.
       and_then (reject (case er_dimensions r of None \<Rightarrow> False | Some expected \<Rightarrow> expected \<noteq> dimensions)
         (invalid_response ''provider embedding dimension does not match the request''))
       (Inr \<lparr>es_schema_version = ai_schema_version, es_vectors = vectors, es_dimensions = dimensions,
          es_identity = identity_of p (get_str wire ''model''),
          es_request_hash = canonical_hex E (domain ''okc:ai-request:v3'') body,
          es_response_hash = canonical_hex E (domain ''okc:ai-response:v3'') wire,
          es_usage = (embedding_usage (pp_kind p) wire)\<lparr>ur_request_id := hr_request_id response\<rparr>\<rparr>)))))))))))"

end
