(* ===== verification/SchemaFacts.thy ===== *)
theory SchemaFacts
  imports Schema
begin

text \<open>
  What the checks of \<open>Schema\<close> mean. A schema denotes a \<open>shape\<close>, a type of JSON values; \<open>describes\<close>
  reads the shape off a portable schema, \<open>inhabits\<close> is the typing judgement. The two validators decide
  whether there is a shape and whether the value inhabits it, and they never panic.
\<close>

section \<open>Shapes\<close>

datatype shape =
    ObjectOf "json list option" "(string \<times> shape) list"
  | ArrayOf "json list option" "nat option" "nat option" shape
  | StringOf "json list option" "nat option" "nat option"
  | NumberOf "json list option" bool "rat option" "rat option"
  | BoolOf "json list option"
  | NullOf "json list option"

definition listed :: "json list option \<Rightarrow> json \<Rightarrow> bool" where
  "listed en v \<longleftrightarrow> (case en of None \<Rightarrow> True | Some items \<Rightarrow> \<exists>a \<in> set items. json_eq a v)"

definition in_bounds :: "'a::linorder option \<Rightarrow> 'a option \<Rightarrow> 'a \<Rightarrow> bool" where
  "in_bounds low high x \<longleftrightarrow> (case low of None \<Rightarrow> True | Some k \<Rightarrow> k \<le> x) \<and> (case high of None \<Rightarrow> True | Some k \<Rightarrow> x \<le> k)"

text \<open>The typing judgement.\<close>

inductive inhabits :: "json \<Rightarrow> shape \<Rightarrow> bool" where
  object: "listed en (JObj inst) \<Longrightarrow> map fst inst = map fst props \<Longrightarrow> list_all2 inhabits (map snd inst) (map snd props) \<Longrightarrow>
    inhabits (JObj inst) (ObjectOf en props)"
| array: "listed en (JArr vs) \<Longrightarrow> in_bounds low high (length vs) \<Longrightarrow> \<forall>v \<in> set vs. inhabits v s \<Longrightarrow>
    inhabits (JArr vs) (ArrayOf en low high s)"
| str: "listed en (JStr t) \<Longrightarrow> in_bounds low high (length (chars t)) \<Longrightarrow> inhabits (JStr t) (StringOf en low high)"
| number: "listed en (JNum n) \<Longrightarrow> as_f64 (JNum n) = Some x \<Longrightarrow> in_bounds low high x \<Longrightarrow> whole \<longrightarrow> (\<forall>w. n \<noteq> Float w) \<Longrightarrow>
    inhabits (JNum n) (NumberOf en whole low high)"
| bool: "listed en (JBool b) \<Longrightarrow> inhabits (JBool b) (BoolOf en)"
| null: "listed en JNull \<Longrightarrow> inhabits JNull (NullOf en)"

inductive_cases inhabits_objectE [elim!]: "inhabits v (ObjectOf en props)"
inductive_cases inhabits_arrayE [elim!]: "inhabits v (ArrayOf en low high s)"
inductive_cases inhabits_strE [elim!]: "inhabits v (StringOf en low high)"
inductive_cases inhabits_numberE [elim!]: "inhabits v (NumberOf en whole low high)"
inductive_cases inhabits_boolE [elim!]: "inhabits v (BoolOf en)"
inductive_cases inhabits_nullE [elim!]: "inhabits v (NullOf en)"

section \<open>Schemas\<close>

definition node_at :: "nat \<Rightarrow> (string, json) btree \<Rightarrow> string \<Rightarrow> bool" where
  "node_at n m kind \<longleftrightarrow> n \<le> 32 \<and> fst ` set m \<subseteq> set allowed_keywords \<and> btree_get m ''type'' = Some (JStr kind)"

definition enum_of :: "(string, json) btree \<Rightarrow> json list option \<Rightarrow> bool" where
  "enum_of m en \<longleftrightarrow> (case btree_get m ''enum'' of None \<Rightarrow> en = None | Some v \<Rightarrow> \<exists>items. v = JArr items \<and> items \<noteq> [] \<and> en = Some items)"

definition closed_object :: "(string, json) btree \<Rightarrow> (string, json) btree \<Rightarrow> bool" where
  "closed_object m properties \<longleftrightarrow> btree_get m ''additionalProperties'' = Some (JBool False) \<and>
     btree_get m ''properties'' = Some (JObj properties) \<and>
     (\<exists>names. btree_get m ''required'' = Some (JArr (map JStr names)) \<and> set names = fst ` set properties)"

inductive describes :: "nat \<Rightarrow> json \<Rightarrow> shape \<Rightarrow> bool" where
  object: "node_at n m ''object'' \<Longrightarrow> enum_of m en \<Longrightarrow> closed_object m properties \<Longrightarrow>
    map fst properties = map fst props \<Longrightarrow> list_all2 (describes (n + 1)) (map snd properties) (map snd props) \<Longrightarrow> describes n (JObj m) (ObjectOf en props)"
| array: "node_at n m ''array'' \<Longrightarrow> enum_of m en \<Longrightarrow> btree_get m ''items'' = Some c \<Longrightarrow> describes (n + 1) c s \<Longrightarrow>
    describes n (JObj m) (ArrayOf en (field m ''minItems'' as_u64) (field m ''maxItems'' as_u64) s)"
| str: "node_at n m ''string'' \<Longrightarrow> enum_of m en \<Longrightarrow>
    describes n (JObj m) (StringOf en (field m ''minLength'' as_u64) (field m ''maxLength'' as_u64))"
| number: "node_at n m kind \<Longrightarrow> kind = ''number'' \<and> \<not> whole \<or> kind = ''integer'' \<and> whole \<Longrightarrow> enum_of m en \<Longrightarrow>
    describes n (JObj m) (NumberOf en whole (field m ''minimum'' as_f64) (field m ''maximum'' as_f64))"
| bool: "node_at n m ''boolean'' \<Longrightarrow> enum_of m en \<Longrightarrow> describes n (JObj m) (BoolOf en)"
| null: "node_at n m ''null'' \<Longrightarrow> enum_of m en \<Longrightarrow> describes n (JObj m) (NullOf en)"

lemma as_object_Some [simp]: "as_object v = Some m \<longleftrightarrow> v = JObj m"
  by (cases v) auto

lemma as_array_Some [simp]: "as_array v = Some m \<longleftrightarrow> v = JArr m"
  by (cases v) auto

lemma as_str_Some [simp]: "as_str v = Some m \<longleftrightarrow> v = JStr m"
  by (cases v) auto

lemma field_Some: "field m k read = Some x \<longleftrightarrow> (\<exists>v. btree_get m k = Some v \<and> read v = Some x)"
  by (auto simp: field_def bind_eq_Some_conv)

lemma those_strs: "those (map as_str vs) = Some names \<longleftrightarrow> vs = map JStr names"
proof (induction vs arbitrary: names)
  case (Cons v vs)
  then show ?case by (cases v) (auto split: option.splits)
qed auto

lemma those_names [simp]: "those (map (as_str \<circ> JStr) names) = Some names"
  using those_strs [of "map JStr names" names] by simp

lemma schema_node_iff: "schema_node s n = Inr (m, kind) \<longleftrightarrow> s = JObj m \<and> node_at n m kind \<and> kind \<in> set schema_types"
  by (auto simp: schema_node_def node_at_def field_Some list_ex_iff)

lemma object_children_iff:
  assumes "json_ok (JObj m)"
  shows "object_children m = Inr cs \<longleftrightarrow> (\<exists>properties. closed_object m properties \<and> cs = map snd properties)"
proof -
  have "card (set names) = length properties \<and> fst ` set properties \<subseteq> set names \<longleftrightarrow> set names = fst ` set properties"
    if "btree_get m ''properties'' = Some (JObj properties)" for names :: "string list" and properties
  proof -
    have "(''properties'', JObj properties) \<in> set m" using that assms by (simp add: bt.entries_get)
    then have "json_ok (JObj properties)" using assms by fastforce
    then have "distinct (map fst properties)" by (simp add: btree_ok_distinct)
    then have card: "card (fst ` set properties) = length properties"
      by (metis distinct_card length_map set_map)
    show ?thesis using card card_subset_eq [of "set names" "fst ` set properties"] by auto
  qed
  moreover have "list_ex (\<lambda>(k, _). k \<notin> set names) properties \<longleftrightarrow> \<not> fst ` set properties \<subseteq> set names"
    for properties :: "(string, json) btree" and names by (force simp: list_ex_iff)
  ultimately have bad: "(card (set names) \<noteq> length properties \<or> list_ex (\<lambda>(k, _). k \<notin> set names) properties) \<longleftrightarrow>
      set names \<noteq> fst ` set properties"
    if "btree_get m ''properties'' = Some (JObj properties)" for names properties
    using that by metis
  show ?thesis
  proof
    assume "object_children m = Inr cs"
    then obtain properties names where x: "btree_get m ''additionalProperties'' = Some (JBool False)"
      "btree_get m ''properties'' = Some (JObj properties)" "btree_get m ''required'' = Some (JArr (map JStr names))"
      "\<not> (card (set names) \<noteq> length properties \<or> list_ex (\<lambda>(k, _). k \<notin> set names) properties)" "cs = map snd properties"
      by (auto simp: object_children_def field_Some those_strs)
    then have "closed_object m properties" using bad [OF x(2), of names] unfolding closed_object_def by blast
    with x(5) show "\<exists>properties. closed_object m properties \<and> cs = map snd properties" by blast
  next
    assume "\<exists>properties. closed_object m properties \<and> cs = map snd properties"
    then obtain properties names where x: "btree_get m ''additionalProperties'' = Some (JBool False)"
      "btree_get m ''properties'' = Some (JObj properties)" "btree_get m ''required'' = Some (JArr (map JStr names))"
      "set names = fst ` set properties" "cs = map snd properties"
      unfolding closed_object_def by blast
    then show "object_children m = Inr cs"
      using bad [OF x(2), of names] by (simp add: object_children_def field_def)
  qed
qed

lemma json_ok_get: "json_ok (JObj m) \<Longrightarrow> btree_get m k = Some v \<Longrightarrow> json_ok v"
  by (metis bt.entries_get json_ok.simps(2) snd_conv)

lemma enum_check_iff: "enum_check m = Inr () \<longleftrightarrow> (\<exists>en. enum_of m en)"
  by (auto simp: enum_check_def enum_of_def split: option.splits)

lemma closed_object_ok:
  assumes "json_ok (JObj m)" "closed_object m properties"
  shows "json_ok (JObj properties)" "object_children m = Inr (map snd properties)"
proof -
  show "json_ok (JObj properties)" using json_ok_get [OF assms(1)] assms(2) unfolding closed_object_def by blast
  show "object_children m = Inr (map snd properties)"
    using assms object_children_iff [of m] by blast
qed

lemma leaf_accepted:
  assumes "node_at n m kind" "kind \<in> set schema_types" "kind \<noteq> ''object''" "kind \<noteq> ''array''" "enum_of m en"
  shows "walk_schema (JObj m) n = Inr ()"
proof -
  have "schema_node (JObj m) n = Inr (m, kind)" using assms by (simp add: schema_node_iff)
  then show ?thesis using assms(3-5) by (auto simp: walk_schema.simps [of "JObj m"] enum_check_iff)
qed

lemma described_accepted: "describes n s sh \<Longrightarrow> json_ok s \<Longrightarrow> walk_schema s n = Inr ()"
proof (induction rule: describes.induct)
  case (object n m en properties props)
  have node: "schema_node (JObj m) n = Inr (m, ''object'')" using object by (simp add: schema_node_iff schema_types_def)
  have "walk_schema c (n + 1) = Inr ()" if "c \<in> set (map snd properties)" for c
    using list_all2_in_left [OF object.IH that] that closed_object_ok(1) [OF object.prems object.hyps(3)] by auto
  moreover have "enum_check m = Inr ()" using object.hyps(2) by (auto simp: enum_check_iff)
  ultimately show ?case
    using node closed_object_ok(2) [OF object.prems object.hyps(3)] by (simp add: walk_schema.simps [of "JObj m"])
next
  case (array n m en c s)
  then have "schema_node (JObj m) n = Inr (m, ''array'')" "json_ok c"
    using json_ok_get [OF array.prems array.hyps(3)] by (simp_all add: schema_node_iff schema_types_def)
  with array show ?case by (auto simp: walk_schema.simps [of "JObj m"] enum_check_iff)
next
  case (str n m en)
  then show ?case by (auto simp: schema_types_def intro: leaf_accepted [of n m "''string''"])
next
  case (number n m kind whole en)
  then show ?case by (auto simp: schema_types_def intro: leaf_accepted [of n m kind])
next
  case (bool n m en)
  then show ?case by (auto simp: schema_types_def intro: leaf_accepted [of n m "''boolean''"])
next
  case (null n m en)
  then show ?case by (auto simp: schema_types_def intro: leaf_accepted [of n m "''null''"])
qed

lemma accepted_described: "walk_schema s n = Inr () \<Longrightarrow> json_ok s \<Longrightarrow> \<exists>sh. describes n s sh"
proof (induction s n rule: walk_schema.induct)
  case (1 s n)
  from "1.prems"(1) obtain m kind where node: "schema_node s n = Inr (m, kind)"
    by (auto simp: walk_schema.simps [of s] split: sum.splits)
  then have s: "s = JObj m" "node_at n m kind" "kind \<in> set schema_types" by (simp_all add: schema_node_iff)
  from "1.prems"(1) node obtain en where en: "enum_of m en" by (auto simp: walk_schema.simps [of s] enum_check_iff)
  show ?case
  proof (cases "kind = ''object'' \<or> kind = ''array''")
    case False
    then have "kind = ''string'' \<or> (kind = ''number'' \<or> kind = ''integer'') \<or> kind = ''boolean'' \<or> kind = ''null''"
      using s(3) by (auto simp: schema_types_def)
    then show ?thesis
    proof (elim disjE)
      assume "kind = ''number''"
      then show ?thesis using s(1,2) en describes.number [of n m kind False] by blast
    next
      assume "kind = ''integer''"
      then show ?thesis using s(1,2) en describes.number [of n m kind True] by blast
    qed (use s(1,2) en in \<open>blast intro: describes.str describes.bool describes.null\<close>)+
  next
    case compound: True
    show ?thesis
    proof (cases "kind = ''array''")
      case True
      with "1.prems"(1) node obtain c where c: "btree_get m ''items'' = Some c" "walk_schema c (n + 1) = Inr ()"
        by (auto simp: walk_schema.simps [of s])
      with "1.IH"(2) [OF node refl True] "1.prems"(2) s(1) obtain sh where "describes (n + 1) c sh"
        by (metis json_ok_get)
      with s en c True show ?thesis by (metis describes.array)
    next
      case False
      with compound have k: "kind = ''object''" by simp
      with "1.prems"(1) node obtain cs where cs: "object_children m = Inr cs" "\<forall>c \<in> set cs. walk_schema c (n + 1) = Inr ()"
        by (auto simp: walk_schema.simps [of s])
      then obtain properties where props: "closed_object m properties" "cs = map snd properties"
        using object_children_iff [of m] "1.prems"(2) s(1) by blast
      then have "json_ok (JObj properties)" using "1.prems"(2) s(1) closed_object_ok by blast
      then have "\<forall>c \<in> set cs. \<exists>sh. describes (n + 1) c sh"
        using "1.IH"(1) [OF node refl k] cs(2) props(2) by auto
      then obtain shs where shs: "list_all2 (describes (n + 1)) cs shs" using chosen [of cs] by blast
      moreover have "length shs = length properties" using list_all2_lengthD [OF shs] props(2) by simp
      ultimately have "describes n (JObj m) (ObjectOf en (zip (map fst properties) shs))"
        using s(2) k en props shs by (intro describes.object [where properties = properties]) simp_all
      with s(1) show ?thesis by blast
    qed
  qed
qed

section \<open>Values\<close>

lemma enum_read: "enum_of m en \<Longrightarrow> outside_enum m v \<longleftrightarrow> \<not> listed en v"
  by (auto simp: enum_of_def outside_enum_def listed_def field_def list_ex_iff split: option.splits)

lemma count_read: "outside_count m low high n \<longleftrightarrow> \<not> in_bounds (field m low as_u64) (field m high as_u64) n"
  by (auto simp: outside_count_def in_bounds_def split: option.splits)

lemma range_read: "outside_range m x \<longleftrightarrow> \<not> in_bounds (field m ''minimum'' as_f64) (field m ''maximum'' as_f64) x"
  by (auto simp: outside_range_def in_bounds_def split: option.splits)

text \<open>One node of the walk, for a node whose type is known.\<close>

lemma walk_node:
  assumes "node_at n m kind"
  shows "walk_instance (JObj m) v path =
    and_then (reject (\<not> has_kind kind v) (at_path path '' has the wrong type''))
     (and_then (reject (outside_enum m v) (at_path path '' is outside its enum''))
     (case v of
        JObj inst \<Rightarrow>
          bind_res (require AiPanic (field m ''properties'' as_object)) (\<lambda>properties.
          and_then (reject (length inst \<noteq> length properties \<or> list_ex (\<lambda>(k, _). btree_get properties k = None) inst)
            (at_path path '' has missing or unknown properties''))
          (for_each (\<lambda>(k, child). case btree_get inst k of None \<Rightarrow> Inl AiPanic
             | Some w \<Rightarrow> walk_instance child w (path @ ''.'' @ k)) properties))
      | JArr items \<Rightarrow>
          and_then (reject (outside_count m ''minItems'' ''maxItems'' (length items)) (at_path path '' violates array bounds''))
          (for_each (\<lambda>(i, item). case btree_get m ''items'' of None \<Rightarrow> Inl AiPanic
             | Some s \<Rightarrow> walk_instance s item (path @ ''['' @ decimal i @ '']'')) (enumerate 0 items))
      | JStr t \<Rightarrow>
          reject (outside_count m ''minLength'' ''maxLength'' (length (chars t))) (at_path path '' violates string bounds'')
      | JNum n \<Rightarrow>
          (case as_f64 (JNum n) of None \<Rightarrow> Inl (at_path path '' is not finite'')
           | Some x \<Rightarrow> reject (outside_range m x) (at_path path '' violates numeric bounds''))
      | _ \<Rightarrow> Inr ()))"
  using assms by (simp add: walk_instance.simps [of "JObj m"] node_at_def field_def)

lemma same_keys:
  assumes "btree_ok inst" "btree_ok props"
  shows "length inst = length props \<and> \<not> list_ex (\<lambda>(k, _). btree_get props k = None) inst \<longleftrightarrow> map fst inst = map fst props"
proof
  assume x: "length inst = length props \<and> \<not> list_ex (\<lambda>(k, _). btree_get props k = None) inst"
  then have "fst ` set inst \<subseteq> fst ` set props" by (force simp: list_ex_iff btree_get_dom [symmetric])
  moreover have "card (fst ` set inst) = length inst" "card (fst ` set props) = length props"
    using assms by (metis btree_ok_distinct distinct_card length_map set_map)+
  ultimately have "set (map fst inst) = set (map fst props)" using x by (simp add: card_subset_eq)
  then show "map fst inst = map fst props" using assms by (intro strict_sorted_unique) (auto simp: btree_ok_def)
next
  assume x: "map fst inst = map fst props"
  then have "length inst = length props" "fst ` set inst = fst ` set props" by (metis length_map, metis set_map)
  then show "length inst = length props \<and> \<not> list_ex (\<lambda>(k, _). btree_get props k = None) inst"
    using btree_get_dom [of props] by (force simp: list_ex_iff)
qed

lemma matched_members:
  assumes keys: "map fst inst = map fst props" and ok: "btree_ok inst"
  shows "(\<forall>(k, c) \<in> set props. \<exists>w. btree_get inst k = Some w \<and> Q k c w) \<longleftrightarrow>
    list_all2 (\<lambda>w (k, c). Q k c w) (map snd inst) props"
proof -
  have len: "length inst = length props" using keys by (metis length_map)
  have get: "btree_get inst (fst (props ! i)) = Some (snd (inst ! i))" if "i < length props" for i
  proof -
    have "fst (props ! i) = fst (inst ! i)" using keys that len by (metis nth_map)
    moreover have "inst ! i \<in> set inst" using that len by simp
    ultimately show ?thesis using ok by (metis bt.entries_get prod.collapse)
  qed
  have "(\<forall>(k, c) \<in> set props. \<exists>w. btree_get inst k = Some w \<and> Q k c w) \<longleftrightarrow>
      (\<forall>i < length props. Q (fst (props ! i)) (snd (props ! i)) (snd (inst ! i)))"
    unfolding all_set_conv_all_nth using get by (simp add: split_beta)
  then show ?thesis by (simp add: list_all2_conv_all_nth split_beta len)
qed

lemma walk_inhabits:
  "describes n s sh \<Longrightarrow> json_ok s \<Longrightarrow> json_ok v \<Longrightarrow> walk_instance s v path = Inr () \<longleftrightarrow> inhabits v sh"
proof (induction arbitrary: v path rule: describes.induct)
  case (object n m en properties props)
  have ok: "btree_ok properties" "\<And>k c. (k, c) \<in> set properties \<Longrightarrow> json_ok c"
    using closed_object_ok(1) [OF object.prems(1) object.hyps(3)] by auto
  have field: "field m ''properties'' as_object = Some properties" using object.hyps(3) by (simp add: closed_object_def field_def)
  show ?case
  proof (cases v)
    case (JObj inst)
    let ?member = "\<lambda>(k, child). case btree_get inst k of None \<Rightarrow> Inl AiPanic | Some w \<Rightarrow> walk_instance child w (path @ ''.'' @ k)"
    have members: "for_each ?member properties = Inr () \<longleftrightarrow> list_all2 inhabits (map snd inst) (map snd props)" if keys: "map fst inst = map fst properties"
    proof -
      have "list_all2 (\<lambda>w (k, c). walk_instance c w (path @ ''.'' @ k) = Inr ()) (map snd inst) properties \<longleftrightarrow>
          list_all2 inhabits (map snd inst) (map snd props)"
      proof -
        have len: "length inst = length properties" "length properties = length props"
          using keys object.hyps(4) by (metis length_map)+
        have "walk_instance (snd (properties ! i)) (snd (inst ! i)) q = Inr () \<longleftrightarrow> inhabits (snd (inst ! i)) (snd (props ! i))"
          if i: "i < length props" for i q
        proof -
          have "json_ok (snd (properties ! i))" using ok(2) i len by (metis nth_mem prod.collapse)
          moreover have "json_ok (snd (inst ! i))" using object.prems(2) JObj i len by simp
          ultimately show ?thesis using object.IH i len by (simp add: list_all2_conv_all_nth)
        qed
        then show ?thesis by (simp add: list_all2_conv_all_nth split_beta len)
      qed
      moreover have "?member x = Inr () \<longleftrightarrow> (case x of (k, c) \<Rightarrow> \<exists>w. btree_get inst k = Some w \<and> walk_instance c w (path @ ''.'' @ k) = Inr ())"
        for x by (auto split: prod.splits option.splits)
      ultimately show ?thesis using matched_members [OF keys] object.prems(2) JObj unfolding for_each_Inr by simp
    qed
    then show ?thesis
      using same_keys [of inst properties] ok(1) object.prems(2) object.hyps(4) JObj field
      by (auto simp: walk_node [OF object.hyps(1)] has_kind_def enum_read [OF object.hyps(2)] members simp del: for_each_Inr
          intro!: inhabits.object)
  qed (auto simp: walk_node [OF object.hyps(1)] has_kind_def)
next
  case (array n m en c s)
  have "json_ok c" using json_ok_get [OF array.prems(1) array.hyps(3)] .
  show ?case
  proof (cases v)
    case (JArr vs)
    have "(\<forall>(i, item) \<in> set (enumerate 0 vs). walk_instance c item (path @ ''['' @ decimal i @ '']'') = Inr ()) \<longleftrightarrow>
        (\<forall>item \<in> set vs. inhabits item s)"
    proof -
      have "walk_instance c item q = Inr () \<longleftrightarrow> inhabits item s" if "item \<in> set vs" for item q
        using array.IH [OF \<open>json_ok c\<close>] array.prems(2) JArr that by simp
      moreover have "snd ` set (enumerate 0 vs) = set vs" by (metis map_snd_enumerate set_map)
      ultimately show ?thesis by (force simp: split_beta)
    qed
    then show ?thesis
      using array.hyps(3) JArr
      by (auto simp: walk_node [OF array.hyps(1)] has_kind_def enum_read [OF array.hyps(2)] count_read intro!: inhabits.array)
  qed (auto simp: walk_node [OF array.hyps(1)] has_kind_def)
next
  case (str n m en)
  show ?case
    by (cases v) (auto simp: walk_node [OF str.hyps(1)] has_kind_def enum_read [OF str.hyps(2)] count_read intro!: inhabits.str)
next
  case (number n m kind whole en)
  show ?case
    using number.hyps(2)
    by (cases v) (auto simp: walk_node [OF number.hyps(1)] has_kind_def enum_read [OF number.hyps(3)] range_read
        intro!: inhabits.number split: option.splits number.splits)
next
  case (bool n m en)
  show ?case
    by (cases v) (auto simp: walk_node [OF bool.hyps(1)] has_kind_def enum_read [OF bool.hyps(2)] intro!: inhabits.bool)
next
  case (null n m en)
  show ?case
    by (cases v) (auto simp: walk_node [OF null.hyps(1)] has_kind_def enum_read [OF null.hyps(2)] intro!: inhabits.null)
qed

section \<open>No panic\<close>

lemma schema_no_panic: "walk_schema s n \<noteq> Inl AiPanic"
proof (induction s n rule: walk_schema.induct)
  case (1 s n)
  show ?case
  proof
    assume fail: "walk_schema s n = Inl AiPanic"
    have "schema_node s n \<noteq> Inl AiPanic" by (simp add: schema_node_def failing invalid_request_def)
    with fail obtain m kind where node: "schema_node s n = Inr (m, kind)"
      by (auto simp: walk_schema.simps [of s] split: sum.splits)
    have "object_children m \<noteq> Inl AiPanic" by (simp add: object_children_def failing invalid_request_def)
    moreover have "enum_check m \<noteq> Inl AiPanic" by (auto simp: enum_check_def invalid_request_def split: option.splits)
    ultimately show False
      using fail node "1.IH" [OF node refl]
      by (auto simp: walk_schema.simps [of s] failing invalid_request_def split: if_splits dest!: for_each_Inl)
  qed
qed

lemma instance_no_panic:
  "describes n s sh \<Longrightarrow> json_ok s \<Longrightarrow> json_ok v \<Longrightarrow> walk_instance s v path \<noteq> Inl AiPanic"
proof (induction arbitrary: v path rule: describes.induct)
  case (object n m en properties props)
  have ok: "btree_ok properties" "\<And>k c. (k, c) \<in> set properties \<Longrightarrow> json_ok c"
    using closed_object_ok(1) [OF object.prems(1) object.hyps(3)] by auto
  have field: "field m ''properties'' as_object = Some properties" using object.hyps(3) by (simp add: closed_object_def field_def)
  show ?case
  proof (cases v)
    case (JObj inst)
    have "(case x of (k, child) \<Rightarrow> case btree_get inst k of None \<Rightarrow> Inl AiPanic | Some w \<Rightarrow> walk_instance child w (path @ ''.'' @ k)) \<noteq> Inl AiPanic"
      if x: "x \<in> set properties" and keys: "map fst inst = map fst properties" for x
    proof -
      obtain k c where kc: "x = (k, c)" by (cases x)
      have "k \<in> fst ` set inst" using x kc keys by (metis fst_conv image_eqI set_map)
      then obtain w where w: "btree_get inst k = Some w" using btree_get_dom [of inst k] by auto
      have "c \<in> set (map snd properties)" using x kc by force
      from list_all2_in_left [OF object.IH this] have "walk_instance c w q \<noteq> Inl AiPanic" for q
        using ok(2) x kc json_ok_get [OF object.prems(2) [unfolded JObj] w] by blast
      with w kc show ?thesis by simp
    qed
    then show ?thesis
      using same_keys [of inst properties] ok(1) object.prems(2) JObj field
      by (auto simp: walk_node [OF object.hyps(1)] failing at_path_def invalid_response_def dest!: for_each_Inl)
  qed (auto simp: walk_node [OF object.hyps(1)] has_kind_def at_path_def invalid_response_def)
next
  case (array n m en c s)
  have "json_ok c" using json_ok_get [OF array.prems(1) array.hyps(3)] .
  show ?case
  proof (cases v)
    case (JArr vs)
    then have "walk_instance c item q \<noteq> Inl AiPanic" if "(i, item) \<in> set (enumerate 0 vs)" for i item q
      using array.IH [OF \<open>json_ok c\<close>] array.prems(2) that by (auto simp: in_set_enumerate_eq)
    then show ?thesis
      using array.hyps(3) JArr
      by (auto simp: walk_node [OF array.hyps(1)] failing at_path_def invalid_response_def dest!: for_each_Inl)
  qed (auto simp: walk_node [OF array.hyps(1)] has_kind_def at_path_def invalid_response_def)
qed (auto simp: walk_node has_kind_def failing at_path_def invalid_response_def split: json.splits option.splits)

lemma schema_iff: "json_ok s \<Longrightarrow> validate_portable_schema s = Inr () \<longleftrightarrow> (\<exists>sh. describes 0 s sh)"
  unfolding validate_portable_schema_def using accepted_described described_accepted by blast

lemma instance_iff:
  "json_ok s \<Longrightarrow> json_ok v \<Longrightarrow> describes 0 s sh \<Longrightarrow> validate_json_instance s v = Inr () \<longleftrightarrow> inhabits v sh"
  unfolding validate_json_instance_def using schema_iff walk_inhabits by auto

lemma instance_typed:
  "json_ok s \<Longrightarrow> json_ok v \<Longrightarrow> validate_json_instance s v = Inr () \<longleftrightarrow> (\<exists>sh. describes 0 s sh \<and> inhabits v sh)"
  using schema_iff [of s] instance_iff [of s v] by (auto simp: validate_json_instance_def)

text \<open>
  C27: Answers of a provider have the type that was asked for: a schema is admitted exactly if it denotes
  a shape; a value is accepted exactly if it inhabits the shape the schema denotes; the check never
  panics, whatever the provider sends.
\<close>

theorem answers_inhabit_the_schema:
  assumes "json_ok s" "json_ok v"
  shows "(validate_portable_schema s = Inr () \<longleftrightarrow> (\<exists>sh. describes 0 s sh)) \<and>
    (validate_json_instance s v = Inr () \<longleftrightarrow> (\<exists>sh. describes 0 s sh \<and> inhabits v sh)) \<and>
    (\<forall>sh. describes 0 s sh \<longrightarrow> (validate_json_instance s v = Inr () \<longleftrightarrow> inhabits v sh)) \<and>
    validate_json_instance s v \<noteq> Inl AiPanic"
proof -
  have "validate_json_instance s v \<noteq> Inl AiPanic"
    using schema_iff [OF assms(1)] instance_no_panic [OF _ assms] schema_no_panic [of s 0]
    by (auto simp: validate_json_instance_def failing validate_portable_schema_def)
  then show ?thesis using schema_iff [OF assms(1)] instance_iff [OF assms] instance_typed [OF assms] by blast
qed

definition tags_schema :: json where
  "tags_schema = jobj [(''type'', JStr ''object''), (''additionalProperties'', JBool False),
     (''required'', JArr [JStr ''tags'']),
     (''properties'', jobj [(''tags'', jobj [(''type'', JStr ''array''), (''items'', jobj [(''type'', JStr ''string'')])])])]"

lemma answers_inhabit_the_schema_witness:
  "\<exists>sh. describes 0 tags_schema sh \<and> inhabits (jobj [(''tags'', JArr [JStr ''a''])]) sh"
proof -
  have ok: "json_ok tags_schema" "json_ok (jobj [(''tags'', JArr [JStr ''a''])])"
    by (simp_all add: tags_schema_def jobj_def btree_collect_def btree_ok_def)
  have "walk_schema tags_schema 0 = Inr ()"
    by (simp add: tags_schema_def jobj_def btree_collect_def walk_schema.simps schema_node_def field_def btree_get_def
        allowed_keywords_def schema_types_def object_children_def enum_check_def check_evals)
  moreover have "walk_instance tags_schema (jobj [(''tags'', JArr [JStr ''a''])]) ''$'' = Inr ()"
    by (simp add: tags_schema_def jobj_def btree_collect_def walk_instance.simps field_def btree_get_def has_kind_def
        outside_enum_def outside_count_def check_evals)
  ultimately have "validate_json_instance tags_schema (jobj [(''tags'', JArr [JStr ''a''])]) = Inr ()"
    by (simp add: validate_json_instance_def validate_portable_schema_def)
  then show ?thesis using answers_inhabit_the_schema [OF ok] by blast
qed

end
