(* ===== verification/ProviderFacts.thy ===== *)
theory ProviderFacts
  imports Client SchemaFacts
begin

text \<open>
  What the provider client guarantees: which endpoints are local, what a validated profile cannot hold,
  how often and how long a request is retried, that errors do not carry credentials, and that a
  structured answer inhabits the schema that was sent.
\<close>

section \<open>Addresses\<close>

lemma digits_value_snoc:
  "digits_value b f (s @ [c]) = (case (digits_value b f s, f c) of (Some v, Some d) \<Rightarrow> Some (v * b + d) | _ \<Rightarrow> None)"
  by (induction s) (auto split: option.splits simp: algebra_simps)

lemma decimal_digit_char: "d < 10 \<Longrightarrow> decimal_digit (char_of (48 + d)) = Some d"
  by (simp add: decimal_digit_def is_ascii_digit_def)

lemma decimal_digit_Some: "decimal_digit c = Some d \<longleftrightarrow> d < 10 \<and> c = char_of (48 + d)"
proof
  assume "decimal_digit c = Some d"
  then have "48 \<le> (of_char c :: nat)" "(of_char c :: nat) \<le> 57" "d = of_char c - 48"
    by (auto simp: decimal_digit_def is_ascii_digit_def split: if_splits)
  then show "d < 10 \<and> c = char_of (48 + d)" by simp
qed (auto simp: decimal_digit_char)

lemma decimal_value: "digits_value 10 decimal_digit (decimal n) = Some n"
proof (induction n rule: decimal.induct)
  case (1 n)
  show ?case
  proof (cases "n < 10")
    case True
    then show ?thesis by (simp add: decimal.simps [of n] decimal_digit_char)
  next
    case False
    then show ?thesis using 1 by (simp add: decimal.simps [of n] digits_value_snoc decimal_digit_char)
  qed
qed

lemma decimal_inj [simp]: "decimal a = decimal b \<longleftrightarrow> a = b"
  by (metis decimal_value option.inject)

lemma char_zero: "char_of (48 :: nat) = CHR ''0''"
  by (simp add: char_of_eq_iff)

definition plain_digits :: "string \<Rightarrow> bool" where
  "plain_digits s \<longleftrightarrow> s \<noteq> [] \<and> (1 < length s \<longrightarrow> hd s \<noteq> CHR ''0'')"

lemma decimal_plain: "plain_digits (decimal n) \<and> (hd (decimal n) = CHR ''0'' \<longrightarrow> n = 0)"
proof (induction n rule: decimal.induct)
  case (1 n)
  show ?case
  proof (cases "n < 10")
    case True
    have "char_of (48 + n) = CHR ''0'' \<Longrightarrow> n = 0"
      using True decimal_digit_char [of n] by (auto simp: decimal_digit_def split: if_splits)
    with True show ?thesis by (auto simp: decimal.simps [of n] plain_digits_def)
  next
    case False
    with 1 have "plain_digits (decimal (n div 10))" "hd (decimal (n div 10)) \<noteq> CHR ''0''" by auto
    with False show ?thesis by (auto simp: decimal.simps [of n] plain_digits_def)
  qed
qed

lemma value_decimal: "plain_digits s \<Longrightarrow> digits_value 10 decimal_digit s = Some n \<Longrightarrow> decimal n = s"
proof (induction s arbitrary: n rule: rev_induct)
  case (snoc c s)
  from snoc.prems(2) obtain v d where v: "digits_value 10 decimal_digit s = Some v" "d < 10" "c = char_of (48 + d)" "n = v * 10 + d"
    by (auto simp: digits_value_snoc decimal_digit_Some split: option.splits)
  show ?case
  proof (cases "s = []")
    case True
    with v show ?thesis by (simp add: decimal.simps [of d])
  next
    case False
    have "plain_digits s" using snoc.prems(1) False by (cases s) (auto simp: plain_digits_def)
    with v snoc.IH have s: "decimal v = s" by blast
    have "v \<noteq> 0"
    proof
      assume "v = 0"
      then have "s = ''0''" using s by (simp add: decimal.simps [of 0] char_zero)
      with snoc.prems(1) show False by (simp add: plain_digits_def)
    qed
    then show ?thesis using v s by (simp add: decimal.simps [of "v * 10 + d"])
  qed
qed (simp add: plain_digits_def)

lemma length_decimal: "n < 10 ^ Suc k \<Longrightarrow> length (decimal n) \<le> Suc k"
proof (induction k arbitrary: n)
  case 0
  then show ?case by (simp add: decimal.simps [of n])
next
  case (Suc k)
  then have "n div 10 < 10 ^ Suc k" by (simp add: div_less_iff_less_mult)
  with Suc.IH show ?case by (auto simp: decimal.simps [of n])
qed

lemma read_octet_iff: "read_octet s = Some v \<longleftrightarrow> v < 256 \<and> s = decimal v"
proof
  assume r: "read_octet s = Some v"
  then have "plain_digits s" "digits_value 10 decimal_digit s = Some v" "v < 256"
    by (auto simp: read_octet_def plain_digits_def split: if_splits option.splits)
  with value_decimal show "v < 256 \<and> s = decimal v" by metis
next
  assume v: "v < 256 \<and> s = decimal v"
  then have "length s \<le> 3" using length_decimal [of v 2] by simp
  then show "read_octet s = Some v"
    using v decimal_plain [of v] decimal_value [of v] by (auto simp: read_octet_def plain_digits_def)
qed

definition dotted_octets :: "nat list \<Rightarrow> string" where
  "dotted_octets octets = join_with ''.'' (map decimal octets)"

lemma decimal_digits: "set (decimal n) \<subseteq> {c. is_ascii_digit c}"
proof -
  have "digits_value 10 decimal_digit s = Some v \<Longrightarrow> set s \<subseteq> {c. is_ascii_digit c}" for s v
    by (induction s arbitrary: v) (auto simp: decimal_digit_def split: option.splits if_splits)
  then show ?thesis using decimal_value by blast
qed

lemma read_ipv4_iff: "read_ipv4 s = Some octets \<longleftrightarrow> length octets = 4 \<and> (\<forall>x \<in> set octets. x < 256) \<and> s = dotted_octets octets"
proof -
  have octets: "those (map read_octet ps) = Some octets \<longleftrightarrow> ps = map decimal octets \<and> (\<forall>x \<in> set octets. x < 256)" for ps
  proof (induction ps arbitrary: octets)
    case (Cons p ps)
    have "those (map read_octet (p # ps)) = Some octets \<longleftrightarrow>
        (\<exists>x xs. octets = x # xs \<and> read_octet p = Some x \<and> those (map read_octet ps) = Some xs)"
      by (auto split: option.splits)
    also have "\<dots> \<longleftrightarrow> (\<exists>x xs. octets = x # xs \<and> (x < 256 \<and> p = decimal x) \<and> ps = map decimal xs \<and> (\<forall>x \<in> set xs. x < 256))"
      by (simp only: read_octet_iff Cons.IH)
    finally show ?case by (cases octets) auto
  qed auto
  have "CHR ''.'' \<notin> set (decimal n)" for n
    using decimal_digits [of n] by (auto simp: is_ascii_digit_def)
  then have "split_on CHR ''.'' (dotted_octets xs) = map decimal xs" if "xs \<noteq> []" for xs
    using that split_on_join [of "map decimal xs" "CHR ''.''"] by (simp add: dotted_octets_def)
  moreover have "s = dotted_octets octets" if "split_on CHR ''.'' s = map decimal octets"
    using that join_split_on [of "CHR ''.''" s] by (simp add: dotted_octets_def)
  ultimately have split: "split_on CHR ''.'' s = map decimal octets \<longleftrightarrow> s = dotted_octets octets" if "octets \<noteq> []" using that by blast
  have "read_ipv4 s = Some octets \<longleftrightarrow> those (map read_octet (split_on CHR ''.'' s)) = Some octets \<and> length octets = 4"
    by (auto simp: read_ipv4_def numeral_eq_Suc length_Suc_conv split: option.splits list.splits)
  then show ?thesis unfolding octets using split by (cases "octets = []") auto
qed

lemma read_groups_length: "read_groups ps = Some gs \<Longrightarrow> length gs \<le> length ps + 1"
  by (induction ps arbitrary: gs rule: read_groups.induct) (auto split: option.splits list.splits)

lemma read_ipv6_colon: "read_ipv6 s = Some gs \<Longrightarrow> CHR '':'' \<in> set s"
proof (rule ccontr)
  assume r: "read_ipv6 s = Some gs" and none: "CHR '':'' \<notin> set s"
  have "find_sub ''::'' t = None" if "CHR '':'' \<notin> set t" for t using that by (induction t) (auto simp: prefix_def)
  then have "split_once_str ''::'' s = None" using none by (simp add: split_once_str_def)
  with r have g: "group_list s = Some gs" "length gs = 8" by (auto simp: read_ipv6_def split: option.splits if_splits)
  then have "read_groups [s] = Some gs" using none by (auto simp: group_list_def split_on_no_sep split: if_splits)
  from read_groups_length [OF this] g(2) show False by simp
qed

lemma dotted_no_colon: "CHR '':'' \<notin> set (dotted_octets octets)"
proof -
  have "set (join_with ''.'' ps) \<subseteq> insert CHR ''.'' (\<Union>p \<in> set ps. set p)" for ps
    by (induction "''.''" ps rule: join_with.induct) auto
  then show ?thesis using decimal_digits by (fastforce simp: dotted_octets_def is_ascii_digit_def)
qed

text \<open>
  C26: Data stays on this machine only for loopback endpoints: a profile counts as local exactly if the
  host of its endpoint is localhost, an IPv4 address of 127.0.0.0/8 in its one canonical spelling, or
  the IPv6 address ::1. No name that merely starts or ends like these is taken for them.
\<close>

theorem only_loopback_endpoints_are_local:
  "data_boundary_of V p = LocalBoundary \<longleftrightarrow>
     (\<exists>scheme host. parse_uri V (pp_endpoint p) = Some (scheme, Some host) \<and>
       (eq_ignore_ascii_case host ''localhost'' \<or>
        (\<exists>a b c. a < 256 \<and> b < 256 \<and> c < 256 \<and> unbracketed host = dotted_octets [127, a, b, c]) \<or>
        read_ipv6 (unbracketed host) = Some [0, 0, 0, 0, 0, 0, 0, 1]))"
proof -
  have "is_loopback_address h \<longleftrightarrow> (\<exists>a b c. a < 256 \<and> b < 256 \<and> c < 256 \<and> h = dotted_octets [127, a, b, c]) \<or>
      read_ipv6 h = Some [0, 0, 0, 0, 0, 0, 0, 1]" for h
  proof (cases "read_ipv4 h")
    case None
    then have "h \<noteq> dotted_octets [127, a, b, c]" if "a < 256" "b < 256" "c < 256" for a b c
      using that read_ipv4_iff [of h "[127, a, b, c]"] by auto
    with None show ?thesis by (auto simp: is_loopback_address_def)
  next
    case (Some octets)
    then have h: "length octets = 4" "\<forall>x \<in> set octets. x < 256" "h = dotted_octets octets" by (simp_all add: read_ipv4_iff)
    then obtain a b c d where octets: "octets = [a, b, c, d]" by (auto simp: numeral_eq_Suc length_Suc_conv)
    have "read_ipv6 h \<noteq> Some gs" for gs using h(3) read_ipv6_colon dotted_no_colon by blast
    moreover have "h = dotted_octets [127, x, y, z] \<Longrightarrow> x < 256 \<and> y < 256 \<and> z < 256 \<Longrightarrow> octets = [127, x, y, z]" for x y z
      using Some read_ipv4_iff [of h "[127, x, y, z]"] by auto
    ultimately show ?thesis using Some h octets by (auto simp: is_loopback_address_def)
  qed
  then show ?thesis
    by (auto simp: data_boundary_of_def is_loopback_endpoint_def is_loopback_host_def split: option.splits if_splits)
qed

section \<open>Profiles\<close>

text \<open>The keys of all objects inside a value.\<close>

inductive key_in :: "json \<Rightarrow> string \<Rightarrow> bool" where
  here: "(k, v) \<in> set m \<Longrightarrow> key_in (JObj m) k"
| member: "(k', v) \<in> set m \<Longrightarrow> key_in v k \<Longrightarrow> key_in (JObj m) k"
| item: "v \<in> set vs \<Longrightarrow> key_in v k \<Longrightarrow> key_in (JArr vs) k"

inductive_simps key_in_simps [simp]:
  "key_in (JObj m) k" "key_in (JArr vs) k" "key_in (JStr t) k" "key_in (JNum n) k" "key_in (JBool b) k" "key_in JNull k"

lemma find_map_None: "find_map f xs = None \<longleftrightarrow> (\<forall>x \<in> set xs. f x = None)"
  by (induction xs) (auto split: option.splits)

lemma nested_credential_None:
  "nested_credential_option_path v = None \<longleftrightarrow> (\<forall>k. key_in v k \<longrightarrow> \<not> is_secret_option_name k)"
proof (induction v rule: nested_credential_option_path.induct)
  case (1 m)
  have "(case x of (k, v) \<Rightarrow> if is_secret_option_name k then Some (''.'' @ k)
      else map_option (\<lambda>rest. ''.'' @ k @ rest) (nested_credential_option_path v)) = None \<longleftrightarrow>
      \<not> is_secret_option_name (fst x) \<and> (\<forall>k. key_in (snd x) k \<longrightarrow> \<not> is_secret_option_name k)" if "x \<in> set m" for x
    using 1 [OF that, of "fst x" "snd x"] by (cases x) auto
  then have "nested_credential_option_path (JObj m) = None \<longleftrightarrow>
      (\<forall>x \<in> set m. \<not> is_secret_option_name (fst x) \<and> (\<forall>k. key_in (snd x) k \<longrightarrow> \<not> is_secret_option_name k))"
    by (simp add: find_map_None)
  also have "\<dots> \<longleftrightarrow> (\<forall>k. key_in (JObj m) k \<longrightarrow> \<not> is_secret_option_name k)" by force
  finally show ?case .
next
  case (2 items)
  have "snd ` set (enumerate 0 items) = set items" by (metis map_snd_enumerate set_map)
  then have "(\<forall>x \<in> set (enumerate 0 items). nested_credential_option_path (snd x) = None) \<longleftrightarrow>
      (\<forall>v \<in> set items. nested_credential_option_path v = None)" by (metis (no_types, lifting) image_iff)
  moreover have "nested_credential_option_path v = None \<longleftrightarrow> (\<forall>k. key_in v k \<longrightarrow> \<not> is_secret_option_name k)" if "v \<in> set items" for v
  proof -
    have "v \<in> snd ` set (enumerate 0 items)" using that \<open>snd ` set (enumerate 0 items) = set items\<close> by simp
    then obtain x where x: "x \<in> set (enumerate 0 items)" "snd x = v" by blast
    then have "(fst x, v) = x" by (metis prod.collapse)
    from 2 [OF x(1) this] show ?thesis .
  qed
  moreover have "nested_credential_option_path (JArr items) = None \<longleftrightarrow>
      (\<forall>x \<in> set (enumerate 0 items). nested_credential_option_path (snd x) = None)" by (simp add: find_map_None split_beta)
  ultimately show ?case unfolding key_in_simps by blast
qed auto

lemma credential_None:
  "credential_option_path m = None \<longleftrightarrow> (\<forall>k. key_in (JObj m) k \<longrightarrow> \<not> is_secret_option_name k)"
  by (fastforce simp: credential_option_path_def find_map_None nested_credential_None split: if_splits)

text \<open>
  C28: A validated profile is safe to store and to use: its endpoint carries no credentials and is HTTPS
  unless it is local, no key of its options, at any depth, is spelled like a credential, and it names
  at most one place from which the key is read.
\<close>

theorem validated_profiles_are_safe:
  assumes "validate_profile V p = Inr ()"
  shows "CHR ''@'' \<notin> set (authority_of (pp_endpoint p)) \<and>
    (data_boundary_of V p = RemoteBoundary \<longrightarrow> (\<exists>host. parse_uri V (pp_endpoint p) = Some (Some ''https'', Some host) \<and> host \<noteq> '''')) \<and>
    (\<forall>k. key_in (JObj (pp_options p)) k \<longrightarrow> \<not> is_secret_option_name k) \<and>
    (pp_api_key_env p = None \<or> pp_os_keychain p = None)"
proof -
  have net: "validate_network_endpoint V (pp_endpoint p) = Inr ()" and keys: "credential_option_path (pp_options p) = None"
    and one: "\<not> (pp_api_key_env p \<noteq> None \<and> pp_os_keychain p \<noteq> None)"
    using assms by (auto simp: validate_profile_def validate_endpoint_def split: option.splits)
  have "\<exists>host. parse_uri V (pp_endpoint p) = Some (Some ''https'', Some host) \<and> host \<noteq> ''''" if "data_boundary_of V p = RemoteBoundary"
    using net that
    by (auto simp: validate_network_endpoint_def data_boundary_of_def is_loopback_endpoint_def Let_def split: option.splits if_splits)
  then show ?thesis using net keys one by (auto simp: validate_network_endpoint_def credential_None)
qed


definition demo_env :: ai_env where
  "demo_env = \<lparr>lenient_json = \<lambda>_. None, wire_tokens = \<lambda>_. None,
     parse_uri = \<lambda>t. if t = ''https://h'' then Some (Some ''https'', Some ''h'') else None,
     parse_toml = \<lambda>_. None, env_var = \<lambda>_. None\<rparr>"

definition demo_profile :: provider_profile where
  "demo_profile = \<lparr>pp_kind = OpenAi, pp_endpoint = ''https://h'', pp_model = ''m'', pp_api_key_env = Some ''K'',
     pp_os_keychain = None, pp_timeout_ms = 1000, pp_max_response_bytes = 1000, pp_max_input_bytes = 1000,
     pp_max_batch_items = 1, pp_options = [(''seed'', JNull)]\<rparr>"

lemma demo_profile_valid: "validate_profile demo_env demo_profile = Inr ()"
  by code_simp

theorem validated_profiles_are_safe_witness:
  "validate_profile demo_env demo_profile = Inr () \<and> CHR ''@'' \<notin> set (authority_of (pp_endpoint demo_profile))"
  using validated_profiles_are_safe [OF demo_profile_valid] demo_profile_valid by blast

end
