(* ===== verification/ClientFacts.thy ===== *)
theory ClientFacts
  imports ProviderFacts Instances
begin

text \<open>
  What sending guarantees: how often and how long a request is retried, that errors do not carry the
  credential of the request, and what a structured generation returns.
\<close>

section \<open>Retries\<close>

lemma delay_bound: "fst (cancellable_delay ms cancelled n) \<le> ms"
proof (induction ms cancelled n rule: cancellable_delay.induct)
  case (1 ms cancelled n)
  then show ?case by (auto simp: cancellable_delay.simps [of ms] split: prod.splits)
qed

lemma delay_error: "snd (cancellable_delay ms cancelled n) = Inl e \<Longrightarrow> e = provider_cancelled"
proof (induction ms cancelled n rule: cancellable_delay.induct)
  case (1 ms cancelled n)
  then show ?case by (auto simp: cancellable_delay.simps [of ms] split: prod.splits if_splits)
qed

lemma retry_delay_bound: "retry_delay e \<le> 30000"
  by (simp add: retry_delay_def)

lemma judge_again: "judge V r k w = Again e \<Longrightarrow> k < max_retries \<and> pe_retryable e"
  by (auto simp: judge_def Let_def split: if_splits sum.splits)

lemma judge_answer: "judge V r k w = Answer response \<Longrightarrow>
    rd_outcome w = Inr response \<and> 200 \<le> hr_status response \<and> hr_status response < 300"
  by (auto simp: judge_def Let_def split: if_splits sum.splits)

text \<open>A round of sending: nothing posted, one request and an end, or one request and the next round.\<close>

lemma send_from_cases:
  obtains (unsent) e where "send_from V rounds r n = \<lparr>tx_posted = [], tx_slept = 0, tx_result = Inl e\<rparr>"
      "e \<in> {provider_cancelled, provider_deadline_exceeded}"
  | (last) ms x where "send_from V rounds r n =
      \<lparr>tx_posted = [attempt_request r (rd_elapsed_before (rounds n))], tx_slept = ms, tx_result = x\<rparr>"
      "\<not> rd_cancelled_before (rounds n)" "rd_elapsed_before (rounds n) < nanos (hq_timeout_ms r)"
      "ms = 0 \<or> ms \<le> 30000 \<and> n < max_retries" "\<And>response. x = Inr response \<Longrightarrow> judge V r n (rounds n) = Answer response"
      "\<And>e. x = Inl e \<Longrightarrow> e \<in> {provider_cancelled, provider_deadline_exceeded} \<or> judge V r n (rounds n) = Stop e"
  | (again) e ms where "judge V r n (rounds n) = Again e" "ms \<le> 30000"
      "\<not> rd_cancelled_before (rounds n)" "rd_elapsed_before (rounds n) < nanos (hq_timeout_ms r)"
      "send_from V rounds r n = (let rest = send_from V rounds r (n + 1) in
        \<lparr>tx_posted = attempt_request r (rd_elapsed_before (rounds n)) # tx_posted rest, tx_slept = ms + tx_slept rest,
         tx_result = tx_result rest\<rparr>)"
proof -
  let ?w = "rounds n"
  show ?thesis
  proof (cases "rd_cancelled_before ?w \<or> nanos (hq_timeout_ms r) \<le> rd_elapsed_before ?w")
    case True
    then show ?thesis
      by (intro unsent [of "if rd_cancelled_before ?w then provider_cancelled else provider_deadline_exceeded"])
        (auto simp: send_from.simps [of V rounds r n] Let_def)
  next
    case False
    show ?thesis
    proof (cases "judge V r n ?w")
      case (Again e)
      obtain ms x where d: "cancellable_delay (retry_delay e) (rd_cancelled_in_delay ?w) 0 = (ms, x)" by fastforce
      then have ms: "ms \<le> 30000" using delay_bound [of "retry_delay e" "rd_cancelled_in_delay ?w" 0] retry_delay_bound [of e] by simp
      show ?thesis
      proof (cases "nanos (hq_timeout_ms r) - rd_elapsed_at_delay ?w \<le> nanos (retry_delay e)")
        case True
        with False Again show ?thesis
          by (intro last [of 0 "Inl provider_deadline_exceeded"]) (auto simp: send_from.simps [of V rounds r n] Let_def)
      next
        case more: False
        show ?thesis
        proof (cases x)
          case (Inl e')
          then have "e' = provider_cancelled" using delay_error [of "retry_delay e"] d by (metis snd_conv)
          with False Again d ms more Inl judge_again [OF Again] show ?thesis
            by (intro last [of ms "Inl e'"]) (auto simp: send_from.simps [of V rounds r n] Let_def)
        next
          case (Inr u)
          with False Again d ms more show ?thesis
            by (intro again [OF Again ms]) (auto simp: send_from.simps [of V rounds r n] Let_def)
        qed
      qed
    next
      case (Answer response)
      with False show ?thesis
        by (intro last [of 0 "Inr response"]) (auto simp: send_from.simps [of V rounds r n] Let_def)
    next
      case (Stop e)
      with False show ?thesis
        by (intro last [of 0 "Inl e"]) (auto simp: send_from.simps [of V rounds r n] Let_def)
    qed
  qed
qed

text \<open>Only a round that may be repeated is followed by another one.\<close>

lemma round_induct:
  assumes "\<And>n. (\<And>e. judge V r n (rounds n) = Again e \<Longrightarrow> P (n + 1)) \<Longrightarrow> P n"
  shows "P n"
proof (induction "max_retries - n" arbitrary: n rule: less_induct)
  case less
  show ?case
  proof (rule assms)
    fix e assume "judge V r n (rounds n) = Again e"
    then have "n < max_retries" using judge_again by blast
    then show "P (n + 1)" by (intro less) auto
  qed
qed

lemma send_from_bounds:
  "n \<le> max_retries \<Longrightarrow>
     length (tx_posted (send_from V rounds r n)) \<le> 3 - n \<and> tx_slept (send_from V rounds r n) \<le> 30000 * (2 - n)"
proof (induction n rule: round_induct [of V r rounds])
  case (1 n)
  show ?case
  proof (cases rule: send_from_cases [of V rounds r n])
    case (again e ms)
    have n: "n < max_retries" using judge_again [OF again(1)] by simp
    then have "length (tx_posted (send_from V rounds r (n + 1))) \<le> 3 - (n + 1) \<and>
        tx_slept (send_from V rounds r (n + 1)) \<le> 30000 * (2 - (n + 1))"
      using "1.IH" [OF again(1)] by simp
    with again n show ?thesis by (auto simp: Let_def max_retries_def)
  qed (use "1.prems" in \<open>auto simp: max_retries_def\<close>)
qed

definition posted_in_time :: "(nat \<Rightarrow> round) \<Rightarrow> http_request \<Rightarrow> nat \<Rightarrow> http_request \<Rightarrow> bool" where
  "posted_in_time rounds r k q \<longleftrightarrow> \<not> rd_cancelled_before (rounds k) \<and> rd_elapsed_before (rounds k) < nanos (hq_timeout_ms r) \<and>
     q = attempt_request r (rd_elapsed_before (rounds k))"

lemma send_from_posted:
  "k < length (tx_posted (send_from V rounds r n)) \<Longrightarrow> posted_in_time rounds r (n + k) (tx_posted (send_from V rounds r n) ! k)"
proof (induction n arbitrary: k rule: round_induct [of V r rounds])
  case (1 n)
  show ?case
  proof (cases rule: send_from_cases [of V rounds r n])
    case (again e ms)
    show ?thesis
    proof (cases k)
      case (Suc j)
      with "1.IH" [OF again(1), of j] again "1.prems" show ?thesis by (auto simp: Let_def)
    qed (use again in \<open>auto simp: Let_def posted_in_time_def\<close>)
  qed (use "1.prems" in \<open>auto simp: posted_in_time_def\<close>)
qed

lemma send_from_repeated:
  "Suc k < length (tx_posted (send_from V rounds r n)) \<Longrightarrow> \<exists>e. judge V r (n + k) (rounds (n + k)) = Again e"
proof (induction n arbitrary: k rule: round_induct [of V r rounds])
  case (1 n)
  show ?case
  proof (cases rule: send_from_cases [of V rounds r n])
    case (again e ms)
    show ?thesis
    proof (cases k)
      case (Suc j)
      with "1.IH" [OF again(1), of j] again "1.prems" show ?thesis by (auto simp: Let_def)
    qed (use again in auto)
  qed (use "1.prems" in auto)
qed

lemma send_from_answer:
  "tx_result (send_from V rounds r n) = Inr response \<Longrightarrow> tx_posted (send_from V rounds r n) \<noteq> [] \<and>
     (let k = n + length (tx_posted (send_from V rounds r n)) - 1 in judge V r k (rounds k) = Answer response)"
proof (induction n rule: round_induct [of V r rounds])
  case (1 n)
  show ?case
  proof (cases rule: send_from_cases [of V rounds r n])
    case (again e ms)
    with "1.IH" [OF again(1)] "1.prems" show ?thesis by (auto simp: Let_def)
  qed (use "1.prems" in \<open>auto simp: Let_def\<close>)
qed

text \<open>
  C24: Sending always ends, whatever the provider, the clock and the user do: at most three requests are
  posted and at most a minute is spent waiting between them. Each request is the given one, except for a
  timeout that never exceeds it, and is posted before the deadline and not after a cancellation; it is
  repeated only after a failure that may be repeated; and an answer is the success of the last request.
\<close>

theorem retries_are_bounded:
  assumes "s = send_with_retry V rounds r"
  shows "length (tx_posted s) \<le> 3 \<and> tx_slept s \<le> 60000 \<and>
    (\<forall>k < length (tx_posted s). \<not> rd_cancelled_before (rounds k) \<and> rd_elapsed_before (rounds k) < nanos (hq_timeout_ms r) \<and>
      (\<exists>t \<le> max 1 (hq_timeout_ms r). 0 < t \<and> tx_posted s ! k = r\<lparr>hq_timeout_ms := t\<rparr>)) \<and>
    (\<forall>k. Suc k < length (tx_posted s) \<longrightarrow> (\<exists>e. judge V r k (rounds k) = Again e \<and> pe_retryable e)) \<and>
    (\<forall>response. tx_result s = Inr response \<longrightarrow> tx_posted s \<noteq> [] \<and> 200 \<le> hr_status response \<and> hr_status response < 300 \<and>
      rd_outcome (rounds (length (tx_posted s) - 1)) = Inr response)"
proof (intro conjI allI impI)
  have s: "s = send_from V rounds r 0" using assms by (simp add: send_with_retry_def)
  show "length (tx_posted s) \<le> 3" "tx_slept s \<le> 60000"
    using send_from_bounds [of 0 V rounds r] unfolding s by simp_all
  {
    fix k assume "k < length (tx_posted s)"
    then have p: "posted_in_time rounds r k (tx_posted s ! k)" using send_from_posted [of k V rounds r 0] s by simp
    then show "\<not> rd_cancelled_before (rounds k)" "rd_elapsed_before (rounds k) < nanos (hq_timeout_ms r)"
      by (simp_all add: posted_in_time_def)
    have "(nanos (hq_timeout_ms r) - e) div 1000000 \<le> hq_timeout_ms r" for e
      by (rule order_trans [OF div_le_mono [of _ "nanos (hq_timeout_ms r)"]]) (simp_all add: nanos_def)
    then show "\<exists>t \<le> max 1 (hq_timeout_ms r). 0 < t \<and> tx_posted s ! k = r\<lparr>hq_timeout_ms := t\<rparr>"
      using p unfolding posted_in_time_def attempt_request_def by (metis less_max_iff_disj max.commute max.mono order_refl zero_less_one)
  }
  show "\<exists>e. judge V r k (rounds k) = Again e \<and> pe_retryable e" if "Suc k < length (tx_posted s)" for k
    using send_from_repeated [of k V rounds r 0] that judge_again s by auto
  fix response assume "tx_result s = Inr response"
  then have "tx_posted s \<noteq> []" and j: "judge V r (length (tx_posted s) - 1) (rounds (length (tx_posted s) - 1)) = Answer response"
    using send_from_answer [of V rounds r 0 response] by (simp_all add: s Let_def)
  then show "tx_posted s \<noteq> []" "200 \<le> hr_status response" "hr_status response < 300"
    "rd_outcome (rounds (length (tx_posted s) - 1)) = Inr response" using judge_answer by blast+
qed

section \<open>Credentials\<close>

text \<open>What a replacement leaves: text without brackets never arises from it.\<close>

lemma sublist_beside: "b \<notin> set key \<Longrightarrow> sublist key (xs @ b # ys) \<longleftrightarrow> sublist key xs \<or> sublist key ys"
  by (auto simp: sublist_append sublist_Cons_right prefix_Cons)

definition plain_key :: "string \<Rightarrow> bool" where
  "plain_key key \<longleftrightarrow> key \<noteq> '''' \<and> CHR ''['' \<notin> set key \<and> CHR '']'' \<notin> set key \<and> \<not> sublist key ''redacted''"

lemma sublist_redacted: "plain_key key \<Longrightarrow> sublist key (''[redacted]'' @ s) \<longleftrightarrow> sublist key s"
  using sublist_beside [of "CHR '']''" key "''[redacted''" s] sublist_beside [of "CHR ''[''" key "''''" "''redacted''"]
  by (auto simp: plain_key_def)

lemma prefix_replaced:
  "CHR ''['' \<notin> set key \<Longrightarrow> prefix key (replace_all pat ''[redacted]'' s) \<Longrightarrow> prefix key s"
proof (induction pat "''[redacted]''" s arbitrary: key rule: replace_all.induct)
  case (2 pat c s)
  show ?case
  proof (cases key)
    case (Cons k ks)
    with 2 show ?thesis by (auto split: if_splits)
  qed simp
qed simp

lemma replaced_keeps_absence:
  "plain_key key \<Longrightarrow> \<not> sublist key s \<Longrightarrow> \<not> sublist key (replace_all pat ''[redacted]'' s)"
proof (induction pat "''[redacted]''" s rule: replace_all.induct)
  case (2 pat c s)
  show ?case
  proof (cases "pat \<noteq> [] \<and> prefix pat (c # s)")
    case True
    have "\<not> sublist key (drop (length pat) (c # s))" using "2.prems"(2) by (meson sublist_drop sublist_order.order_trans)
    with True 2 show ?thesis by (simp add: sublist_redacted del: append_Cons)
  next
    case False
    have "\<not> sublist key (replace_all pat ''[redacted]'' s)" using 2 False by (auto simp: sublist_Cons_right)
    moreover have "\<not> prefix key (c # replace_all pat ''[redacted]'' s)"
      using "2.prems" prefix_replaced [of "tl key" pat s] by (cases key) (auto simp: plain_key_def sublist_Cons_right)
    ultimately show ?thesis using False by (simp only: replace_all.simps if_False sublist_Cons_right) blast
  qed
qed (simp add: plain_key_def)

lemma replaced_is_absent: "plain_key key \<Longrightarrow> \<not> sublist key (replace_all key ''[redacted]'' s)"
proof (induction key "''[redacted]''" s rule: replace_all.induct)
  case (2 key c s)
  show ?case
  proof (cases "prefix key (c # s)")
    case True
    with 2 show ?thesis by (simp add: sublist_redacted plain_key_def del: append_Cons)
  next
    case False
    have "\<not> sublist key (replace_all key ''[redacted]'' s)" using 2 False by auto
    moreover have "\<not> prefix key (c # replace_all key ''[redacted]'' s)"
      using False "2.prems" prefix_replaced [of "tl key" key s] by (cases key) (auto simp: plain_key_def)
    ultimately show ?thesis using False by (simp only: replace_all.simps if_False sublist_Cons_right simp_thms)
  qed
qed (simp add: plain_key_def)

lemma redact_value_absent:
  assumes "plain_key key" "v = key \<or> v = ''Bearer '' @ key"
  shows "\<not> sublist key (redact_value v m)"
proof -
  have "\<not> sublist key (replace_all v ''[redacted]'' (replace_all key ''[redacted]'' m))" for m
    by (rule replaced_keeps_absence [OF assms(1) replaced_is_absent [OF assms(1)]])
  with assms replaced_is_absent [OF assms(1)] show ?thesis
    by (auto simp: redact_value_def Let_def plain_key_def strip_prefix_def split: option.splits)
qed

lemma redact_value_keeps:
  assumes "plain_key key" "\<not> sublist key m"
  shows "\<not> sublist key (redact_value v m)"
proof -
  have "\<not> sublist key (replace_all pat ''[redacted]'' m)" "\<not> sublist key (replace_all pat' ''[redacted]'' (replace_all pat ''[redacted]'' m))" for pat pat'
    using replaced_keeps_absence [OF assms(1)] assms(2) by blast+
  with assms show ?thesis by (simp add: redact_value_def Let_def split: option.splits)
qed

lemma redacted_request:
  assumes "plain_key key" "kind \<noteq> Ollama" "hq_headers r = headers_for kind (Some key)"
  shows "\<not> sublist key (pe_message (redact_request_secrets e r))"
proof -
  have "\<not> sublist key (redact_value key m)" "\<not> sublist key (redact_value (''Bearer '' @ key) m)" for m
    using redact_value_absent [OF assms(1)] by blast+
  with assms(2,3) show ?thesis
    by (cases kind) (simp_all add: redact_request_secrets_def secret_headers_def to_ascii_lowercase_def ascii_lower_def)
qed

lemma judge_stop:
  assumes "plain_key key" "kind \<noteq> Ollama" "hq_headers r = headers_for kind (Some key)" "judge V r k w = Stop e"
  shows "e \<in> {provider_cancelled, provider_deadline_exceeded} \<or> \<not> sublist key (pe_message e)"
  using assms(4) redacted_request [OF assms(1-3)]
  by (auto simp: judge_def Let_def split: if_splits sum.splits)

lemma send_from_failure:
  assumes "tx_result (send_from V rounds r n) = Inl e"
  shows "e \<in> {provider_cancelled, provider_deadline_exceeded} \<or> (\<exists>k. judge V r k (rounds k) = Stop e)"
  using assms
proof (induction n rule: round_induct [of V r rounds])
  case (1 n)
  show ?case
  proof (cases rule: send_from_cases [of V rounds r n])
    case (again e ms)
    with "1.IH" [OF again(1)] "1.prems" show ?thesis by (auto simp: Let_def)
  qed (use "1.prems" in \<open>auto\<close>)
qed

text \<open>
  C25: Credentials do not leak through errors: whatever the provider and the transport answer, the error of
  a request sent with a key never shows the key. The two errors of the client itself are fixed texts;
  a key that contains brackets, or is part of the word that replaces it, is excepted.
\<close>

theorem credentials_are_redacted:
  assumes "plain_key key" "pp_kind p \<noteq> Ollama"
    and "http_request_of E p url (headers_for (pp_kind p) (Some key)) body = Inr r"
    and "tx_result (send_with_retry V rounds r) = Inl e"
  shows "e = provider_cancelled \<or> e = provider_deadline_exceeded \<or> \<not> sublist key (pe_message e)"
proof -
  have "hq_headers r = headers_for (pp_kind p) (Some key)" using assms(3) by (auto simp: http_request_of_def Let_def)
  then show ?thesis
    using send_from_failure [of V rounds r 0 e] assms(4) judge_stop [OF assms(1,2)]
    unfolding send_with_retry_def by blast
qed

text \<open>The transport reaches the network only for an endpoint that is HTTPS or local, and follows no redirect.\<close>

lemma transport_guarded:
  assumes "post_json V network cancelled r = Inr response"
  shows "validate_network_endpoint V (hq_url r) = Inr () \<and> \<not> (300 \<le> hr_status response \<and> hr_status response < 400) \<and>
    \<not> cancelled 0 \<and> \<not> cancelled 1 \<and> \<not> cancelled 2"
  using assms by (auto simp: post_json_def)

lemma transport_stays_away:
  "cancelled 0 \<or> validate_network_endpoint V (hq_url r) \<noteq> Inr () \<Longrightarrow> post_json V network cancelled r = post_json V network' cancelled r"
  by (cases "validate_network_endpoint V (hq_url r)") (auto simp: post_json_def and_then_def)

section \<open>Structured generation\<close>

lemma untraced_Inr: "untraced r f = (posted, Inr x) \<longleftrightarrow> (\<exists>y. r = Inr y \<and> f y = (posted, Inr x))"
  by (auto simp: untraced_def split: sum.splits)

lemma send_Inr: "send V rounds r f = (posted, Inr x) \<longleftrightarrow>
    (\<exists>response. tx_result (send_with_retry V rounds r) = Inr response \<and> posted = tx_posted (send_with_retry V rounds r) \<and> f response = Inr x)"
  by (auto simp: send_def Let_def split: sum.splits)

lemma generate_structured_Inr:
  assumes "generate_structured E V c rounds cancelled r = (posted, Inr g)"
  obtains key http response wire parsed where
    "validate_generation_request r = Inr ()" "\<not> cancelled" "key_for V c = Inr key"
    "http_request_of E (ac_profile c) (generation_endpoint (ac_profile c)) (headers_for (pp_kind (ac_profile c)) key)
       (generation_wire_body E (pp_kind (ac_profile c)) (pp_model (ac_profile c)) r) = Inr http"
    "tx_result (send_with_retry V rounds http) = Inr response" "posted = tx_posted (send_with_retry V rounds http)"
    "read_json_strict V (hr_body response) = Some wire"
    "parse_generation_response V (pp_kind (ac_profile c)) wire = Inr parsed"
    "validate_json_instance (gr_output_schema r) (pn_output parsed) = Inr ()"
    "gs_output g = pn_output parsed" "gs_identity g = identity_of (ac_profile c) (pn_response_model parsed)"
    "gs_request_hash g = canonical_hex E (domain ''okc:ai-request:v3'')
       (generation_wire_body E (pp_kind (ac_profile c)) (pp_model (ac_profile c)) r)"
    "gs_response_hash g = canonical_hex E (domain ''okc:ai-response:v3'') wire"
  using assms by (auto simp: generate_structured_def Let_def untraced_Inr send_Inr)

lemma strict_json_ok: "read_json_strict V b = Some v \<Longrightarrow> json_ok v"
  by (auto simp: read_json_strict_def dest: visit_ok split: option.splits sum.splits)

lemma parsed_output_ok: "parse_generation_response V kind wire = Inr parsed \<Longrightarrow> json_ok (pn_output parsed)"
  by (auto simp: parse_generation_response_def dest: strict_json_ok split: prod.splits)

text \<open>
  C23: A structured generation that succeeds is typed by the schema it asked for: the schema is a portable
  one and the answer inhabits the type it denotes. Every request that was posted, at most three, carried
  the wire form of the generation to the profile's endpoint within the profile's size limit, and the
  receipt names the profile's provider and model and hashes exactly that body.
\<close>

theorem structured_generations_are_typed:
  assumes "generate_structured E V c rounds cancelled r = (posted, Inr g)" "json_ok (gr_output_schema r)"
    and "p = ac_profile c" "body = generation_wire_body E (pp_kind p) (pp_model p) r"
  shows "(\<exists>sh. describes 0 (gr_output_schema r) sh \<and> inhabits (gs_output g) sh) \<and> \<not> cancelled \<and>
    posted \<noteq> [] \<and> length posted \<le> 3 \<and>
    (\<forall>q \<in> set posted. hq_url q = generation_endpoint p \<and> hq_body q = json_vec E body \<and> length (hq_body q) \<le> pp_max_input_bytes p) \<and>
    pi_provider (gs_identity g) = provider_name (pp_kind p) \<and> pi_model (gs_identity g) = pp_model p \<and>
    gs_request_hash g = canonical_hex E (domain ''okc:ai-request:v3'') body"
proof -
  obtain key http response wire parsed where g: "\<not> cancelled"
    "http_request_of E p (generation_endpoint p) (headers_for (pp_kind p) key) body = Inr http"
    "tx_result (send_with_retry V rounds http) = Inr response" "posted = tx_posted (send_with_retry V rounds http)"
    "parse_generation_response V (pp_kind p) wire = Inr parsed"
    "validate_json_instance (gr_output_schema r) (pn_output parsed) = Inr ()"
    "gs_output g = pn_output parsed" "gs_identity g = identity_of p (pn_response_model parsed)"
    "gs_request_hash g = canonical_hex E (domain ''okc:ai-request:v3'') body"
    using generate_structured_Inr [OF assms(1)] unfolding assms(3,4) by metis
  have "\<exists>sh. describes 0 (gr_output_schema r) sh \<and> inhabits (gs_output g) sh"
    using instance_typed [OF assms(2) parsed_output_ok [OF g(5)]] g(6,7) by simp
  moreover have "posted \<noteq> []" "length posted \<le> 3"
    using send_from_answer [of V rounds http 0 response] send_from_bounds [of 0 V rounds http] g(3,4)
    by (simp_all add: send_with_retry_def)
  moreover have "hq_url q = generation_endpoint p \<and> hq_body q = json_vec E body \<and> length (hq_body q) \<le> pp_max_input_bytes p"
    if "q \<in> set posted" for q
  proof -
    from that obtain k where k: "k < length posted" "q = posted ! k" by (auto simp: in_set_conv_nth)
    then have "posted_in_time rounds http (0 + k) q"
      using send_from_posted [of k V rounds http 0] g(4) by (simp add: send_with_retry_def)
    then show ?thesis using g(2) by (auto simp: posted_in_time_def attempt_request_def http_request_of_def Let_def)
  qed
  moreover have "pi_provider (gs_identity g) = provider_name (pp_kind p)" "pi_model (gs_identity g) = pp_model p"
    using g(8) by (simp_all add: identity_of_def)
  ultimately show ?thesis using g(1,9) by blast
qed

section \<open>Embeddings\<close>

lemma validate_vectors_Inr: "validate_vectors vs n = Inr d \<longleftrightarrow>
    vs \<noteq> [] \<and> length vs = n \<and> 0 < d \<and> d < 2 ^ 32 \<and> (\<forall>v \<in> set vs. length v = d)"
  by (cases vs) (auto simp: validate_vectors_def Let_def list_ex_iff)

text \<open>Vectors that carry an index are returned in the order of the indexes, whatever order they came in.\<close>

lemma hosted_vectors:
  assumes "kind = OpenAi \<or> kind = OpenAiCompatible" "vectors_of kind wire = Inr vs"
  obtains items where "get_array wire ''data'' = Some items" "length items = length vs"
    "\<And>item. item \<in> set items \<Longrightarrow> \<exists>i < length vs. indexed_item item = Inr (i, vs ! i)"
proof -
  from assms obtain items pairs where items: "get_array wire ''data'' = Some items" "try_map indexed_item items = Inr pairs"
    and vs: "try_map (\<lambda>(expected, (i, v)). if i = expected then Inr v
       else Inl (invalid_response ''embedding indexes are missing or reordered'')) (enumerate 0 (sort_key fst pairs)) = Inr vs"
    by (auto simp: vectors_of_def Let_def)
  let ?s = "sort_key fst pairs"
  have len: "length items = length pairs" using items(2) by (simp add: try_map_Inr list_all2_lengthD)
  have vs': "length vs = length pairs" using vs by (auto simp: try_map_Inr dest: list_all2_lengthD)
  have at: "?s ! j = (j, vs ! j)" if "j < length pairs" for j
    using vs that by (cases "?s ! j") (auto simp: try_map_Inr list_all2_conv_all_nth nth_enumerate_eq split: prod.splits if_splits)
  show thesis
  proof (rule that [OF items(1)])
    show "length items = length vs" using len vs' by simp
    fix item assume "item \<in> set items"
    then obtain p where p: "indexed_item item = Inr p" "p \<in> set ?s"
      using items(2) list_all2_in_left [of "\<lambda>x y. indexed_item x = Inr y" items pairs item] by (auto simp: try_map_Inr)
    then obtain j where "j < length pairs" "?s ! j = p" by (metis in_set_conv_nth length_sort)
    then show "\<exists>i < length vs. indexed_item item = Inr (i, vs ! i)" using p at vs' by auto
  qed
qed

text \<open>
  C29: Embeddings are aligned with their inputs: a batch that succeeds has one vector for each input, all of
  one positive dimension, the requested one if there was one; and for the hosted providers, which may
  answer in any order, every item of the answer has a valid index and is the vector at that index.
\<close>

theorem embeddings_are_aligned:
  assumes "embed_batch E V c rounds cancelled r = (posted, Inr g)"
  shows "length (es_vectors g) = length (er_inputs r) \<and> (\<forall>v \<in> set (es_vectors g). length v = es_dimensions g) \<and>
    0 < es_dimensions g \<and> (er_dimensions r = None \<or> er_dimensions r = Some (es_dimensions g)) \<and>
    pp_kind (ac_profile c) \<noteq> Anthropic \<and> length posted \<le> 3 \<and>
    (pp_kind (ac_profile c) \<in> {OpenAi, OpenAiCompatible} \<longrightarrow> (\<exists>b wire items.
       read_json_strict V b = Some wire \<and> get_array wire ''data'' = Some items \<and> length items = length (er_inputs r) \<and>
       (\<forall>item \<in> set items. \<exists>i < length (er_inputs r). indexed_item item = Inr (i, es_vectors g ! i))))"
proof -
  let ?kind = "pp_kind (ac_profile c)"
  from assms obtain http b wire d where g: "?kind \<noteq> Anthropic" "posted = tx_posted (send_with_retry V rounds http)"
    "read_json_strict V b = Some wire" "vectors_of ?kind wire = Inr (es_vectors g)"
    "validate_vectors (es_vectors g) (length (er_inputs r)) = Inr d" "es_dimensions g = d"
    "\<forall>n. er_dimensions r = Some n \<longrightarrow> n = d"
    by (auto simp: embed_batch_def Let_def untraced_Inr send_Inr split: option.splits)
  have "\<exists>items. get_array wire ''data'' = Some items \<and> length items = length (er_inputs r) \<and>
      (\<forall>item \<in> set items. \<exists>i < length (er_inputs r). indexed_item item = Inr (i, es_vectors g ! i))"
    if kind: "?kind \<in> {OpenAi, OpenAiCompatible}"
  proof -
    have "?kind = OpenAi \<or> ?kind = OpenAiCompatible" using kind by simp
    from hosted_vectors [OF this g(4)] g(5) show ?thesis by (metis validate_vectors_Inr)
  qed
  moreover have "length posted \<le> 3" using send_from_bounds [of 0 V rounds http] g(2) by (simp add: send_with_retry_def)
  moreover have "er_dimensions r = None \<or> er_dimensions r = Some d" using g(7) by (cases "er_dimensions r") auto
  ultimately show ?thesis using g(1-6) unfolding validate_vectors_Inr by blast
qed

section \<open>A run\<close>

text \<open>A provider that first refuses the connection, showing the key, and then answers.\<close>

definition demo_tokens :: "bytes \<Rightarrow> raw_json option" where
  "demo_tokens b = (if b = ''wire''
     then Some (RObj [(''message'', RObj [(''content'', RStr ''null'')]), (''model'', RStr ''m1'')])
     else if b = ''null'' then Some RNull else None)"

definition demo_ai :: ai_env where
  "demo_ai = demo_env\<lparr>wire_tokens := demo_tokens\<rparr>"

definition demo_rounds :: "bool \<Rightarrow> nat \<Rightarrow> round" where
  "demo_rounds again n = \<lparr>rd_cancelled_before = False, rd_elapsed_before = n,
     rd_outcome = (if n = 0 then Inl (if again then retryable_error Transport ''bad k3y'' (Some 60) else plain_error Transport ''bad k3y'')
       else Inr \<lparr>hr_status = 200, hr_body = ''wire'', hr_request_id = None, hr_retry_after_ms = None\<rparr>),
     rd_cancelled_after = False, rd_elapsed_after = n, rd_elapsed_at_delay = n, rd_cancelled_in_delay = (\<lambda>_. False)\<rparr>"

definition demo_http :: http_request where
  "demo_http = \<lparr>hq_url = ''https://h'', hq_headers = headers_for OpenAi (Some ''k3y''), hq_body = json_vec demo_externs JNull,
     hq_timeout_ms = 1000, hq_max_response_bytes = 1000\<rparr>"

definition demo_client :: client where
  "demo_client = \<lparr>ac_profile = demo_profile\<lparr>pp_kind := Ollama\<rparr>, ac_api_key = Some ''k3y''\<rparr>"

definition demo_request :: generation_request where
  "demo_request = \<lparr>gr_schema_version = 3, gr_role = OrganizerRole, gr_task_id = ''t'', gr_system_instruction = ''s'', gr_input = JNull,
     gr_schema_name = ''n'', gr_output_schema = jobj [(''type'', JStr ''null'')], gr_max_output_tokens = 1, gr_temperature = None\<rparr>"

lemmas demo_run = send_with_retry_def send_from.simps Let_def demo_rounds_def demo_http_def judge_def max_retries_def
  attempt_request_def nanos_def retryable_error_def plain_error_def redact_request_secrets_def secret_headers_def
  redact_value_def strip_prefix_def to_ascii_lowercase_def ascii_lower_def retry_delay_def cancellable_delay.simps

lemma demo_sent:
  assumes "hq_headers r = []" "hq_timeout_ms r = 1000"
  shows "length (tx_posted (send_with_retry V (demo_rounds True) r)) = 2"
    "tx_result (send_with_retry V (demo_rounds True) r) =
       Inr \<lparr>hr_status = 200, hr_body = ''wire'', hr_request_id = None, hr_retry_after_ms = None\<rparr>"
  by (simp_all add: demo_run assms)

lemma retries_are_bounded_witness:
  "length (tx_posted (send_with_retry demo_ai (demo_rounds True) (demo_http\<lparr>hq_headers := []\<rparr>))) \<le> 3"
  using retries_are_bounded [OF refl, of demo_ai "demo_rounds True" "demo_http\<lparr>hq_headers := []\<rparr>"] by (rule conjunct1)

lemma demo_refused:
  "tx_result (send_with_retry V (demo_rounds False) demo_http) = Inl (plain_error Transport ''bad [redacted]'')"
  by (simp add: demo_run)

lemma credentials_are_redacted_witness: "\<not> sublist ''k3y'' ''bad [redacted]''"
proof -
  have key: "plain_key ''k3y''" by code_simp
  have "http_request_of demo_externs demo_profile ''https://h'' (headers_for (pp_kind demo_profile) (Some ''k3y'')) JNull = Inr demo_http"
    by code_simp
  from credentials_are_redacted [OF key _ this demo_refused [of demo_ai]] show ?thesis
    by (auto simp: demo_profile_def provider_cancelled_def provider_deadline_exceeded_def plain_error_def retryable_error_def)
qed

lemma demo_steps:
  "validate_generation_request demo_request = Inr ()"
  "length (json_vec demo_externs (generation_wire_body demo_externs Ollama ''m'' demo_request)) \<le> 1000"
  "read_json_strict demo_ai ''wire'' = Some (jobj [(''message'', jobj [(''content'', JStr ''null'')]), (''model'', JStr ''m1'')])"
  "parse_generation_response demo_ai Ollama (jobj [(''message'', jobj [(''content'', JStr ''null'')]), (''model'', JStr ''m1'')]) =
     Inr \<lparr>pn_output = JNull, pn_response_model = Some ''m1'', pn_finish_reason = ''stop'', pn_usage = usage None None None\<rparr>"
  "validate_json_instance (gr_output_schema demo_request) JNull = Inr ()"
  by code_simp+

lemma demo_generated:
  "\<exists>posted g. generate_structured demo_externs demo_ai demo_client (demo_rounds True) False demo_request = (posted, Inr g) \<and> gs_output g = JNull"
proof -
  have "http_request_of demo_externs (ac_profile demo_client) url (headers_for Ollama k) (generation_wire_body demo_externs Ollama ''m'' demo_request) =
      Inr \<lparr>hq_url = url, hq_headers = [], hq_body = json_vec demo_externs (generation_wire_body demo_externs Ollama ''m'' demo_request),
        hq_timeout_ms = 1000, hq_max_response_bytes = 1000\<rparr>" for url k
    using demo_steps(2) by (simp add: http_request_of_def demo_client_def demo_profile_def Let_def)
  moreover have "pp_kind (ac_profile demo_client) = Ollama" "pp_model (ac_profile demo_client) = ''m''"
    "key_for demo_ai demo_client = Inr (Some ''k3y'')"
    by (simp_all add: demo_client_def demo_profile_def key_for_def)
  ultimately show ?thesis
    using demo_steps(1,3-5) by (simp add: generate_structured_def Let_def untraced_def send_def demo_sent)
qed

lemma structured_generations_are_typed_witness:
  "\<exists>posted g sh. generate_structured demo_externs demo_ai demo_client (demo_rounds True) False demo_request = (posted, Inr g) \<and>
     describes 0 (gr_output_schema demo_request) sh \<and> inhabits JNull sh"
proof -
  obtain posted g where g: "generate_structured demo_externs demo_ai demo_client (demo_rounds True) False demo_request = (posted, Inr g)"
    "gs_output g = JNull"
    using demo_generated by blast
  have "json_ok (gr_output_schema demo_request)" by code_simp
  from structured_generations_are_typed [OF g(1) this refl refl] show ?thesis using g by auto
qed

text \<open>A hosted provider that answers at once, with one vector.\<close>

definition demo_batch :: embedding_request where
  "demo_batch = \<lparr>er_schema_version = 3, er_task_id = ''t'', er_inputs = [''x''], er_dimensions = None\<rparr>"

definition demo_embedder :: ai_env where
  "demo_embedder = demo_env\<lparr>wire_tokens := \<lambda>_. Some (RObj [(''data'',
     RArr [RObj [(''index'', RU64 0), (''embedding'', RArr [RU64 0])]])])\<rparr>"

definition demo_hosted :: client where
  "demo_hosted = \<lparr>ac_profile = demo_profile, ac_api_key = Some ''k3y''\<rparr>"

definition demo_vectors :: json where
  "demo_vectors = jobj [(''data'', JArr [jobj [(''index'', JNum (PosInt 0)), (''embedding'', JArr [JNum (PosInt 0)])]])]"

lemma demo_answer:
  assumes "hq_timeout_ms r = 1000"
  shows "tx_result (send_with_retry V (\<lambda>n. demo_rounds False (Suc n)) r) =
     Inr \<lparr>hr_status = 200, hr_body = ''wire'', hr_request_id = None, hr_retry_after_ms = None\<rparr>"
  by (simp add: demo_run assms)

lemma demo_coordinate: "as_f64 (JNum (PosInt 0)) = Some 0" "round_to_f32 0 = Some 0"
  by (simp_all add: nearest_double_def excess_bits.simps round_to_f32_def)

lemma demo_vectors_of: "vectors_of OpenAi demo_vectors = Inr [[0]]"
  by (simp add: vectors_of_def demo_vectors_def jobj_def btree_collect_def btree_get_def get_array_def json_get_def
      indexed_item_def parse_vector_def get_u64_def demo_coordinate del: as_f64.simps)

lemma demo_embed_steps:
  "validate_embedding_request demo_batch demo_profile = Inr ()"
  "length (json_vec demo_externs (embedding_wire_body OpenAi ''m'' demo_batch)) \<le> 1000"
  "read_json_strict demo_embedder ''wire'' = Some demo_vectors"
  by code_simp+

lemma demo_dimension: "validate_vectors [[0]] (length (er_inputs demo_batch)) = Inr 1"
  by (simp add: validate_vectors_Inr demo_batch_def)

lemma embeddings_are_aligned_witness:
  "\<exists>posted g. embed_batch demo_externs demo_embedder demo_hosted (\<lambda>n. demo_rounds False (Suc n)) False demo_batch = (posted, Inr g) \<and>
     length (es_vectors g) = 1"
proof -
  have "pp_kind (ac_profile demo_hosted) = OpenAi" "pp_model (ac_profile demo_hosted) = ''m''" "ac_profile demo_hosted = demo_profile"
    "pp_max_input_bytes demo_profile = 1000" "pp_timeout_ms demo_profile = 1000"
    "key_for demo_embedder demo_hosted = Inr (Some ''k3y'')" "er_dimensions demo_batch = None"
    by (simp_all add: demo_hosted_def demo_profile_def key_for_def demo_batch_def)
  then obtain posted g where g:
    "embed_batch demo_externs demo_embedder demo_hosted (\<lambda>n. demo_rounds False (Suc n)) False demo_batch = (posted, Inr g)"
    using demo_embed_steps demo_vectors_of demo_dimension by (simp add: embed_batch_def Let_def untraced_def send_def http_request_of_def demo_answer)
  from embeddings_are_aligned [OF g] g show ?thesis by (auto simp: demo_batch_def)
qed

end
