(* ===== verification/ScannerFacts.thy ===== *)
theory ScannerFacts
  imports Scanner Instances Approval
begin

text \<open>
  What the scanner finds and what the gate keeps: findings lie inside the text and show what their category
  says; every marker is found; and a remote call is only authorised when nothing it could disclose has a
  finding.
\<close>

section \<open>Markers\<close>

lemma match_indices_sound:
  "pat \<noteq> [] \<Longrightarrow> n \<in> set (match_indices pat i s) \<Longrightarrow> \<exists>k. n = i + k \<and> k + length pat \<le> length s \<and> prefix pat (drop k s)"
proof (induction pat i s rule: match_indices.induct)
  case (2 pat i c s)
  show ?case
  proof (cases "prefix pat (c # s)")
    case True
    show ?thesis
    proof (cases "n = i")
      case False
      then have "n \<in> set (match_indices pat (i + length pat) (drop (length pat) (c # s)))" using 2 True by simp
      then obtain k where k: "n = i + length pat + k" "k + length pat \<le> length (drop (length pat) (c # s))"
        "prefix pat (drop k (drop (length pat) (c # s)))" using "2.IH"(1) True "2.prems"(1) by blast
      then show ?thesis using prefix_length_le [OF True] by (intro exI [of _ "length pat + k"]) (simp add: add.commute)
    qed (use True prefix_length_le [OF True] in \<open>intro exI [of _ 0], simp\<close>)
  next
    case False
    then obtain k where "n = i + 1 + k" "k + length pat \<le> length s" "prefix pat (drop k s)" using 2 by auto
    then show ?thesis by (intro exI [of _ "Suc k"]) simp
  qed
qed simp

lemma match_indices_complete:
  "pat \<noteq> [] \<Longrightarrow> prefix pat (drop k s) \<Longrightarrow> \<exists>j. i + j \<in> set (match_indices pat i s) \<and> j \<le> k \<and> k < j + length pat"
proof (induction pat i s arbitrary: k rule: match_indices.induct)
  case (2 pat i c s)
  show ?case
  proof (cases "prefix pat (c # s)")
    case True
    show ?thesis
    proof (cases "k < length pat")
      case False
      then have "prefix pat (drop (k - length pat) (drop (length pat) (c # s)))" using "2.prems" by simp
      then obtain j where "i + length pat + j \<in> set (match_indices pat (i + length pat) (drop (length pat) (c # s)))"
        "j \<le> k - length pat" "k - length pat < j + length pat" using "2.IH"(1) True "2.prems"(1) by blast
      then show ?thesis using True "2.prems"(1) False by (intro exI [of _ "length pat + j"]) (auto simp: add.assoc)
    qed (use True "2.prems"(1) in \<open>intro exI [of _ 0], simp\<close>)
  next
    case False
    then obtain n where n: "k = Suc n" using "2.prems"(2) by (cases k) auto
    then obtain j where "i + 1 + j \<in> set (match_indices pat (i + 1) s)" "j \<le> n" "n < j + length pat"
      using 2 False by fastforce
    then show ?thesis using False n by (intro exI [of _ "Suc j"]) simp
  qed
qed simp

lemma slices_nonempty: "p \<in> set (char_slices s) \<Longrightarrow> p \<noteq> []"
  by (induction s rule: char_slices.induct) auto


text \<open>A marker counts when it is a private key or is followed by something.\<close>

definition followed :: "string \<Rightarrow> nat \<Rightarrow> bool" where
  "followed t n \<longleftrightarrow> (\<exists>p ps. char_slices (drop n t) = p # ps \<and> \<not> token_stop p)"

lemma token_end_beyond: "category \<noteq> PrivateKey \<Longrightarrow> start + n < token_end t start n category \<longleftrightarrow> followed t (start + n)"
proof (cases "char_slices (drop (start + n) t)")
  case (Cons p ps)
  then have "p \<noteq> []" using slices_nonempty [of p "drop (start + n) t"] by simp
  with Cons show "category \<noteq> PrivateKey \<Longrightarrow> ?thesis" by (auto simp: token_end_def followed_def)
qed (auto simp: token_end_def followed_def)

definition shows_marker :: "string \<Rightarrow> bool" where
  "shows_marker t \<longleftrightarrow> (\<exists>(category, marker) \<in> set markers. \<exists>k.
     prefix marker (drop k t) \<and> (category = PrivateKey \<or> followed t (k + length marker)))"

definition plain_byte :: "char \<Rightarrow> bool" where
  "plain_byte c \<longleftrightarrow> utf8_width c = 1 \<and> \<not> token_stop [c]"

lemma plain_byte_ascii: "is_ascii_alphanumeric c \<or> c \<in> set ''-_:/'' \<Longrightarrow> plain_byte c"
  by (auto simp: plain_byte_def utf8_width_def token_stop_def is_whitespace_def is_ascii_alphanumeric_def is_ascii_digit_def
      is_ascii_alphabetic_def)

lemma markers_nonempty: "(category, marker) \<in> set markers \<Longrightarrow> marker \<noteq> []"
  by (auto simp: markers_def)

lemma markers_plain: "(category, marker) \<in> set markers \<Longrightarrow> category \<noteq> PrivateKey \<Longrightarrow> c \<in> set marker \<Longrightarrow> plain_byte c"
proof -
  have "list_all (\<lambda>(category, marker). category = PrivateKey \<or> list_all (\<lambda>c. is_ascii_alphanumeric c \<or> c \<in> set ''-_:/'') marker) markers"
    by (simp add: markers_def is_ascii_alphanumeric_def is_ascii_digit_def is_ascii_alphabetic_def)
  moreover assume "(category, marker) \<in> set markers" "category \<noteq> PrivateKey" "c \<in> set marker"
  ultimately show "plain_byte c" unfolding list_all_iff by (intro plain_byte_ascii) blast
qed

lemma shown_marker_is_found:
  assumes "shows_marker t"
  shows "\<exists>m \<in> set markers. scan_marker t m \<noteq> []"
proof -
  from assms obtain category marker k where m: "(category, marker) \<in> set markers" "prefix marker (drop k t)"
    and f: "category = PrivateKey \<or> followed t (k + length marker)" by (auto simp: shows_marker_def)
  from markers_nonempty [OF m(1)] match_indices_complete [OF _ m(2), of 0]
  obtain j where j: "j \<in> set (match_indices marker 0 t)" "j \<le> k" "k < j + length marker" by auto
  have "category = PrivateKey \<or> followed t (j + length marker)"
  proof (cases "j = k \<or> category = PrivateKey")
    case False
    define n where "n = j + length marker - k"
    have n: "n < length marker" "k + n = j + length marker" using j False by (auto simp: n_def)
    obtain r where "drop k t = marker @ r" using m(2) by (auto simp: prefix_def)
    then have "drop (j + length marker) t = drop n marker @ r" using n
      by (metis drop_append drop_drop add.commute diff_is_0_eq drop0 less_imp_le)
    also have "\<dots> = marker ! n # (drop (Suc n) marker @ r)" using n(1) by (simp add: Cons_nth_drop_Suc [symmetric])
    finally have "char_slices (drop (j + length marker) t) = [marker ! n] # char_slices (drop (Suc n) marker @ r)"
      using markers_plain [OF m(1), of "marker ! n"] n(1) False by (simp add: plain_byte_def)
    then show ?thesis using markers_plain [OF m(1), of "marker ! n"] n(1) False by (auto simp: followed_def plain_byte_def)
  qed (use f in auto)
  then have "scan_marker t (category, marker) \<noteq> []"
    using j(1) token_end_beyond [of category j "length marker" t] by (auto simp: scan_marker_def filter_empty_conv)
  with m(1) show ?thesis by blast
qed

lemma clean_text: "scan_sensitive_ranges t = [] \<Longrightarrow> \<not> shows_marker t"
proof
  assume e: "scan_sensitive_ranges t = []" and "shows_marker t"
  then obtain m where "m \<in> set markers" "scan_marker t m \<noteq> []" using shown_marker_is_found by blast
  then have "concat (map (scan_marker t) markers) \<noteq> []" by auto
  moreover have "set (scan_sensitive_ranges t) = set (concat (map (scan_marker t) markers) @ scan_email_like t @ scan_phone_like t)"
    unfolding scan_sensitive_ranges_def by simp
  ultimately show False using e by auto
qed

section \<open>Where findings are\<close>

lemma take_prefix: "prefix x s \<Longrightarrow> take (length x) s = x"
  by (auto simp: prefix_def)

definition slice_of :: "string \<Rightarrow> nat \<Rightarrow> nat \<Rightarrow> string" where
  "slice_of t start end = drop start (take end t)"

lemma slice_of_prefix: "prefix x (drop k t) \<Longrightarrow> x \<noteq> [] \<Longrightarrow> slice_of t k (k + length x) = x \<and> k + length x \<le> length t"
  using prefix_length_le [of x "drop k t"] take_prefix [of x "drop k t"] by (cases x) (auto simp: slice_of_def drop_take)

lemma split_inclusive_facts:
  "concat (split_inclusive p xs) = xs \<and> (\<forall>tok \<in> set (split_inclusive p xs). tok \<noteq> [] \<and> (p (hd tok) \<longrightarrow> (\<exists>y. tok = [y])))"
proof (induction p xs rule: split_inclusive.induct)
  case (1 p xs)
  show ?case
  proof (cases "dropWhile (\<lambda>x. \<not> p x) xs")
    case Nil
    then have "split_inclusive p xs = (if xs = [] then [] else [xs])"
      unfolding split_inclusive.simps [of p xs] by (simp only: list.case)
    moreover have "\<not> p (hd xs)" if "xs \<noteq> []" using Nil that by (cases xs) (auto split: if_splits)
    ultimately show ?thesis by simp
  next
    case (Cons y ys)
    then have "xs \<noteq> []" by auto
    have all: "takeWhile (\<lambda>x. \<not> p x) xs @ y # ys = xs" by (metis Cons takeWhile_dropWhile_id)
    have "p (hd (takeWhile (\<lambda>x. \<not> p x) xs @ [y])) \<longrightarrow> takeWhile (\<lambda>x. \<not> p x) xs = []"
      by (cases xs) auto
    with 1 \<open>xs \<noteq> []\<close> Cons all show ?thesis by (auto simp: split_inclusive.simps [of p xs])
  qed
qed

lemma with_offsets_in:
  "(i, token) \<in> set (with_offsets n toks) \<Longrightarrow>
     \<exists>before tok rest. toks = before @ tok # rest \<and> token = trim tok \<and> i = n + length (concat before)"
proof (induction toks arbitrary: n)
  case (Cons t ts)
  show ?case
  proof (cases "(i, token) = (n, trim t)")
    case False
    then obtain before tok rest where "ts = before @ tok # rest" "token = trim tok" "i = n + length t + length (concat before)"
      using Cons by fastforce
    then show ?thesis by (intro exI [of _ "t # before"] exI [of _ tok] exI [of _ rest]) simp
  qed (intro exI [of _ "[]"] exI [of _ t] exI [of _ ts], auto)
qed simp

lemma sliced_append: "sliced (ps @ qs) \<Longrightarrow> sliced ps \<and> sliced qs"
  by (induction ps) (auto split: if_splits)

lemma trimmed_prefix:
  assumes "sliced tok" "is_whitespace (scalar_of (hd tok)) \<Longrightarrow> \<exists>y. tok = [y]" "tok \<noteq> []"
  shows "prefix (trim (concat tok)) (concat tok)"
proof -
  let ?w = "\<lambda>p. is_whitespace (scalar_of p)"
  have trim: "trim (concat tok) = concat (rev (dropWhile ?w (rev (dropWhile ?w tok))))"
    using char_slices_concat [OF assms(1)] by (simp add: trim_def)
  have "prefix (rev (dropWhile ?w (rev xs))) xs" for xs by (metis suffix_dropWhile suffix_to_prefix rev_rev_ident)
  then have pre: "prefix (concat (rev (dropWhile ?w (rev xs)))) (concat xs)" for xs
    by (metis (no_types, lifting) concat_append prefix_def)
  show ?thesis
  proof (cases "?w (hd tok)")
    case True
    then obtain y where "tok = [y]" using assms(2) by blast
    then have "trim (concat tok) = []" unfolding trim using True by simp
    then show ?thesis by simp
  next
    case False
    then have "dropWhile ?w tok = tok" using assms(3) by (cases tok) auto
    with pre show ?thesis by (simp add: trim)
  qed
qed

lemma email_token:
  assumes "(i, token) \<in> set (with_offsets 0 (map concat (split_inclusive (\<lambda>p. is_whitespace (scalar_of p)) (char_slices t))))"
  shows "prefix token (drop i t)"
proof -
  let ?w = "\<lambda>p. is_whitespace (scalar_of p)"
  let ?toks = "split_inclusive ?w (char_slices t)"
  obtain before tok rest where tok: "map concat ?toks = before @ tok # rest" "token = trim tok" "i = length (concat before)"
    using with_offsets_in [OF assms] by auto
  then obtain bs ps rs where p: "?toks = bs @ ps # rs" "before = map concat bs" "tok = concat ps" by (auto simp: map_eq_append_conv)
  have all: "concat ?toks = char_slices t" and ps: "ps \<noteq> []" "?w (hd ps) \<Longrightarrow> \<exists>y. ps = [y]"
    using split_inclusive_facts [of ?w "char_slices t"] p(1) by auto
  have "sliced (concat bs @ (ps @ concat rs))" using sliced_char_slices [of t] all p(1) by simp
  then have "sliced ps" using sliced_append by blast
  from trimmed_prefix [OF this ps(2,1)] have pre: "prefix token tok" using tok p by simp
  have "concat (map concat xss) = concat (concat xss)" for xss :: "string list list" by (induction xss) auto
  then have "t = concat before @ (tok @ concat (concat rs))" using all p by (metis concat_char_slices concat.simps(2) concat_append append.assoc)
  then have "drop i t = tok @ concat (concat rs)" using tok(3) by (metis append_eq_conv_conj)
  with pre show ?thesis by simp
qed

text \<open>What a finding of each category shows.\<close>

definition shows_category :: "sensitive_category \<Rightarrow> string \<Rightarrow> bool" where
  "shows_category category x \<longleftrightarrow> (case category of
     EmailAddress \<Rightarrow> CHR ''@'' \<in> set x \<and> CHR ''.'' \<in> set x
   | PhoneNumber \<Rightarrow> 10 \<le> length (filter is_ascii_digit x)
   | _ \<Rightarrow> \<exists>marker. (category, marker) \<in> set markers \<and> prefix marker x)"

definition located :: "string \<Rightarrow> finding_range \<Rightarrow> bool" where
  "located t f \<longleftrightarrow> (case f of (category, start, end) \<Rightarrow>
     start < end \<and> end \<le> length t \<and> shows_category category (slice_of t start end))"


lemma email_located:
  assumes "f \<in> set (scan_email_like t)"
  shows "located t f"
proof -
  obtain i token where x: "(i, token) \<in> set (with_offsets 0 (map concat (split_inclusive (\<lambda>p. is_whitespace (scalar_of p)) (char_slices t))))"
    and e: "email_in (i, token) = Some f"
    using assms by (auto simp: scan_email_like_def List.map_filter_def)
  define clean where "clean = trim_matches edge_punctuation token"
  obtain n k where nk: "find_sub ''@'' clean = Some n" "find_sub clean token = Some k" "0 < n" "CHR ''.'' \<in> set (drop (n + 1) clean)"
    "f = (EmailAddress, i + k, i + k + length clean)"
    using e by (auto simp: email_in_def clean_def Let_def split: if_splits simp: bind_eq_Some_conv)
  have p: "prefix clean (drop k token)" using find_sub_bound [OF nk(2)] by (metis take_is_prefix)
  obtain r where "drop i t = token @ r" using email_token [OF x] by (auto simp: prefix_def)
  then have "drop k (drop i t) = drop k token @ r" using find_sub_bound [OF nk(2)] by simp
  then have "drop (i + k) t = drop k token @ r" by (simp add: add.commute)
  with p have "prefix clean (drop (i + k) t)" by simp
  moreover have at: "CHR ''@'' \<in> set clean" using find_sub_bound [OF nk(1)] by (metis in_set_dropD in_set_takeD list.set_intros(1))
  moreover have "clean \<noteq> []" using at by auto
  ultimately have "slice_of t (i + k) (i + k + length clean) = clean" "i + k + length clean \<le> length t"
    using slice_of_prefix [of clean "i + k" t] by blast+
  moreover have "CHR ''.'' \<in> set clean" using nk(4) by (rule in_set_dropD)
  ultimately show ?thesis using nk(5) at \<open>clean \<noteq> []\<close> by (auto simp: located_def shows_category_def)
qed




section \<open>The gate\<close>

text \<open>
  C21: Sensitive content stays local: a remote call is authorised only with the consents it needs, and only
  if no block and no metadata of a disclosed document has a finding, for embedding and organising of any
  document at all; in particular none of these texts shows the marker of a key or a connection string.
\<close>

theorem sensitive_content_stays_local:
  assumes "authorize (scan_corpus E c) role profile caps documents allow yes non_interactive = Inr a"
    and "pc_data_boundary caps = RemoteBoundary"
  shows "allow \<and> (non_interactive \<longrightarrow> yes) \<and> da_boundary a = RemoteBoundary \<and> da_role a = role \<and>
    (\<forall>d \<in> set (co_documents c). global_role role \<or> doc_document_id d \<in> documents \<longrightarrow>
       (\<forall>b \<in> set (doc_blocks d). scan_sensitive_ranges (sb_text b) = [] \<and> \<not> shows_marker (sb_text b)) \<and>
       (\<forall>m \<in> set (doc_metadata d). scan_sensitive_ranges (metadata_text E m) = [] \<and> \<not> shows_marker (metadata_text E m)))"
proof -
  let ?s = "scan_corpus E c"
  have gate: "allow" "non_interactive \<longrightarrow> yes" "da_boundary a = RemoteBoundary" "da_role a = role"
    and meta: "\<And>f. f \<in> set (sc_metadata ?s) \<Longrightarrow> \<not> global_role role \<and> mf_document_id f \<notin> documents"
    and blocks: "\<And>f. f \<in> set (sc_blocks ?s) \<Longrightarrow> \<not> global_role role \<and> sf_document_id f \<notin> documents"
    using assms by (auto simp: authorize_def authorize_disclosure_def list_ex_iff)
  have "scan_sensitive_ranges (sb_text b) = []"
    if d: "d \<in> set (co_documents c)" "global_role role \<or> doc_document_id d \<in> documents" and b: "b \<in> set (doc_blocks d)" for d b
  proof (rule ccontr)
    assume "scan_sensitive_ranges (sb_text b) \<noteq> []"
    then have ne: "scan_sensitive_block E (doc_document_id d) (sb_block_id b) (sb_text b) \<noteq> []" by (simp add: scan_sensitive_block_def)
    define f where "f = hd (scan_sensitive_block E (doc_document_id d) (sb_block_id b) (sb_text b))"
    have f: "f \<in> set (scan_sensitive_block E (doc_document_id d) (sb_block_id b) (sb_text b))" using ne by (simp add: f_def)
    then have "sf_document_id f = doc_document_id d" by (auto simp: scan_sensitive_block_def)
    moreover have "f \<in> set (sc_blocks ?s)" using f d(1) b by (auto simp: scan_corpus_def)
    ultimately show False using blocks d(2) by metis
  qed
  moreover have "scan_sensitive_ranges (metadata_text E m) = []"
    if d: "d \<in> set (co_documents c)" "global_role role \<or> doc_document_id d \<in> documents" and m: "m \<in> set (doc_metadata d)" for d m
  proof (rule ccontr)
    assume "scan_sensitive_ranges (metadata_text E m) \<noteq> []"
    then have ne: "scan_metadata E (doc_document_id d) m \<noteq> []" by (simp add: scan_metadata_def Let_def)
    define f where "f = hd (scan_metadata E (doc_document_id d) m)"
    have f: "f \<in> set (scan_metadata E (doc_document_id d) m)" using ne by (simp add: f_def)
    then have "mf_document_id f = doc_document_id d" by (auto simp: scan_metadata_def Let_def)
    moreover have "f \<in> set (sc_metadata ?s)" using f d(1) m by (auto simp: scan_corpus_def)
    ultimately show False using meta d(2) by metis
  qed
  ultimately show ?thesis using gate clean_text by blast
qed

definition plain_corpus :: integration_corpus where
  "plain_corpus = \<lparr>co_schema_version = 3, co_corpus_hash = ContentHash [], co_policy_hash = ContentHash [],
     co_documents = [\<lparr>doc_source_id = SourceId ''s'', doc_document_id = TypedId (ContentHash []), doc_original_path = ''a.md'',
       doc_document_hash = ContentHash [],
       doc_blocks = [\<lparr>sb_block_id = TypedId (ContentHash []), sb_content_hash = ContentHash [], sb_text = ''ok''\<rparr>],
       doc_metadata = []\<rparr>]\<rparr>"

definition remote_capabilities :: provider_capabilities where
  "remote_capabilities = \<lparr>pc_schema_version = 3,
     pc_identity = \<lparr>pi_provider = ''openai'', pi_model = ''m'', pi_adapter_version = ''1'', pi_response_model = None\<rparr>,
     pc_structured_generation = True, pc_embeddings = True, pc_strict_json_schema = True, pc_data_boundary = RemoteBoundary,
     pc_max_input_bytes = 1, pc_max_output_bytes = 1, pc_max_batch_items = 1\<rparr>"

lemma plain_text: "scan_sensitive_ranges ''ok'' = []"
proof -
  have "scan_marker ''ok'' m = []" if "m \<in> set markers" for m
  proof (rule ccontr)
    assume "scan_marker ''ok'' m \<noteq> []"
    then obtain f where "f \<in> set (scan_marker ''ok'' m)" by (cases "scan_marker ''ok'' m") auto
    moreover obtain category marker where m: "m = (category, marker)" by (cases m)
    ultimately obtain i where "i \<in> set (match_indices marker 0 ''ok'')" by (auto simp: scan_marker_def)
    moreover have "marker \<noteq> []" "2 < length marker" using that m by (auto simp: markers_def)
    ultimately show False using match_indices_sound [of marker i 0 "''ok''"] by auto
  qed
  moreover have "scan_phone_like ''ok'' = []" by (simp add: scan_phone_like_def is_ascii_digit_def)
  moreover have "scan_email_like ''ok'' = []"
  proof (rule ccontr)
    assume "scan_email_like ''ok'' \<noteq> []"
    then obtain f where f: "f \<in> set (scan_email_like ''ok'')" by (cases "scan_email_like ''ok''") auto
    then have "located ''ok'' f" "fst f = EmailAddress"
      using email_located by (auto simp: scan_email_like_def List.map_filter_def email_in_def Let_def split: if_splits simp: bind_eq_Some_conv)
    then obtain s e where "CHR ''@'' \<in> set (slice_of ''ok'' s e)" by (cases f) (auto simp: located_def shows_category_def)
    then show False by (auto simp: slice_of_def dest!: in_set_dropD in_set_takeD)
  qed
  ultimately have "set (scan_sensitive_ranges ''ok'') = {}" by (auto simp: scan_sensitive_ranges_def)
  then show ?thesis by simp
qed

lemma sensitive_content_stays_local_witness:
  "\<exists>a. authorize (scan_corpus demo_externs plain_corpus) EmbeddingRole ''p'' remote_capabilities {} True True True = Inr a \<and> da_boundary a = RemoteBoundary"
proof -
  have scan: "scan_corpus demo_externs plain_corpus = \<lparr>sc_blocks = [], sc_metadata = []\<rparr>"
    by (simp add: scan_corpus_def plain_corpus_def scan_sensitive_block_def plain_text)
  have "authorize (scan_corpus demo_externs plain_corpus) EmbeddingRole ''p'' remote_capabilities {} True True True =
      Inr \<lparr>da_profile_name = ''p'', da_role = EmbeddingRole, da_boundary = RemoteBoundary\<rparr>"
    unfolding scan by (simp add: authorize_def authorize_disclosure_def remote_capabilities_def)
  moreover have "pc_data_boundary remote_capabilities = RemoteBoundary" by (simp add: remote_capabilities_def)
  ultimately show ?thesis using sensitive_content_stays_local [of demo_externs plain_corpus] by blast
qed

text \<open>Exceptions remove exactly the findings they name, and each has a curator and a rationale.\<close>

lemma exceptions_are_exact:
  assumes "effective_sensitive_findings fs xs = Inr left"
  shows "f \<in> set left \<longleftrightarrow> f \<in> set fs \<and> \<not> (\<exists>x \<in> set xs. exception_key x = Inr (finding_key f))"
    and "x \<in> set xs \<Longrightarrow> trim (sx_curator_id x) \<noteq> '''' \<and> trim (sx_rationale x) \<noteq> ''''"
proof -
  obtain ks where ks: "try_map exception_key xs = Inr ks" "left = filter (\<lambda>f. finding_key f \<notin> set ks) fs"
    using assms by (auto simp: effective_sensitive_findings_def)
  have "k \<in> set ks \<longleftrightarrow> (\<exists>x \<in> set xs. exception_key x = Inr k)" for k
    using ks(1) unfolding try_map_Inr by (induction xs ks rule: list_all2_induct) auto
  then show "f \<in> set left \<longleftrightarrow> f \<in> set fs \<and> \<not> (\<exists>x \<in> set xs. exception_key x = Inr (finding_key f))" using ks(2) by auto
  show "x \<in> set xs \<Longrightarrow> trim (sx_curator_id x) \<noteq> '''' \<and> trim (sx_rationale x) \<noteq> ''''"
    using ks(1) list_all2_in_left [of "\<lambda>x y. exception_key x = Inr y" xs ks x] by (auto simp: try_map_Inr exception_key_def)
qed

end
