(* ===== verification/Journal.thy ===== *)
theory Journal
  imports Scanner Approval Publish
begin

text \<open>
  The project store, \<open>crates/okc-app/src/lib.rs\<close> and \<open>project_state.rs\<close>: the manifest, the
  content-addressed objects and the append-only journal of runs, tasks, exchanges, approvals, plans and
  verified outputs.

  A table of the database is the list of its rows in the order of insertion, which is the order of its
  \<open>AUTOINCREMENT\<close> sequence; a violated constraint is the error \<open>AppSqlite\<close> and leaves the store as it
  is. The file system and the database fail only where an argument says so. The serialisers and readers
  that the code derives are the record \<open>app_codec\<close>.
\<close>

section \<open>Manifest\<close>

record ai_routes =
  ro_default :: string
  ro_embedding :: "string option"
  ro_organizer :: "string option"
  ro_synthesis :: "string option"
  ro_critic :: "string option"

definition default_routes :: ai_routes where
  "default_routes = \<lparr>ro_default = ''default'', ro_embedding = None, ro_organizer = None, ro_synthesis = None, ro_critic = None\<rparr>"

fun somes :: "'a option list \<Rightarrow> 'a list" where
  "somes [] = []"
| "somes (None # xs) = somes xs"
| "somes (Some x # xs) = x # somes xs"

definition invalid_project :: "string \<Rightarrow> 'a app" where
  "invalid_project m = Inl (InvalidProject m)"

definition validate_routes :: "ai_routes \<Rightarrow> unit app" where
  "validate_routes r = for_each (\<lambda>p. reject (\<not> profile_name_ok p)
       (InvalidProject (''invalid AI profile name '' @ [CHR 0x60] @ p @ [CHR 0x60])))
     (somes [Some (ro_default r), ro_embedding r, ro_organizer r, ro_synthesis r, ro_critic r])"

definition profile_for :: "ai_routes \<Rightarrow> ai_role \<Rightarrow> string" where
  "profile_for r role = (case (case role of EmbeddingRole \<Rightarrow> ro_embedding r | OrganizerRole \<Rightarrow> ro_organizer r
       | SynthesisRole \<Rightarrow> ro_synthesis r | CriticRole \<Rightarrow> ro_critic r) of Some p \<Rightarrow> p | None \<Rightarrow> ro_default r)"

definition set_route :: "ai_role option \<Rightarrow> string \<Rightarrow> ai_routes \<Rightarrow> ai_routes app" where
  "set_route role p r = (let next_routes = (case role of
       None \<Rightarrow> r\<lparr>ro_default := p\<rparr>
     | Some EmbeddingRole \<Rightarrow> r\<lparr>ro_embedding := Some p\<rparr>
     | Some OrganizerRole \<Rightarrow> r\<lparr>ro_organizer := Some p\<rparr>
     | Some SynthesisRole \<Rightarrow> r\<lparr>ro_synthesis := Some p\<rparr>
     | Some CriticRole \<Rightarrow> r\<lparr>ro_critic := Some p\<rparr>)
   in and_then (validate_routes next_routes) (Inr next_routes))"

definition validate_bcp47 :: "string \<Rightarrow> unit app" where
  "validate_bcp47 language = reject (language = '''' \<or> 63 < length language \<or> prefix ''-'' language \<or> suffix ''-'' language
       \<or> list_ex (\<lambda>part. part = '''' \<or> 8 < length part \<or> \<not> list_all is_ascii_alphanumeric part) (split_on CHR ''-'' language))
     (InvalidProject (''invalid BCP-47 language tag '' @ [CHR 0x60] @ language @ [CHR 0x60]))"

record source_binding =
  bd_source_id :: source_id
  bd_owner_display_name :: "string option"
  bd_path :: string
  bd_snapshot_id :: "string option"

record project_manifest =
  mn_format_family :: string
  mn_schema_version :: nat
  mn_product_version :: string
  mn_name :: string
  mn_curator_id :: string
  mn_policy_version :: string
  mn_language :: "string option"
  mn_ai_routes :: ai_routes
  mn_sources :: "source_binding list"

definition project_schema_version :: nat where "project_schema_version = 3"

definition validate_manifest :: "project_manifest \<Rightarrow> unit app" where
  "validate_manifest m = and_then (seq_checks [
     reject (mn_format_family m \<noteq> ''okc'' \<or> mn_schema_version m \<noteq> project_schema_version)
       (InvalidProject (''expected okc schema 3, got '' @ mn_format_family m @ '' schema '' @ decimal (mn_schema_version m))),
     reject (trim (mn_name m) = '''' \<or> trim (mn_curator_id m) = '''' \<or> trim (mn_policy_version m) = ''''
         \<or> has_control (mn_name m) \<or> has_control (mn_curator_id m) \<or> has_control (mn_policy_version m))
       (InvalidProject ''name, curator_id, or policy_version is empty or unsafe''),
     (case mn_language m of None \<Rightarrow> Inr () | Some language \<Rightarrow> validate_bcp47 language),
     validate_routes (mn_ai_routes m),
     reject (10 < length (mn_sources m)) (InvalidProject ''a project supports at most 10 sources'')])
   (reject (list_ex (\<lambda>(a, b). a = b) (adjacent (sort (map bd_source_id (mn_sources m)))))
      (InvalidProject ''source IDs must be unique within a project''))"

definition new_manifest :: "string \<Rightarrow> string \<Rightarrow> string \<Rightarrow> project_manifest" where
  "new_manifest name curator policy = \<lparr>mn_format_family = ''okc'', mn_schema_version = project_schema_version,
     mn_product_version = package_version, mn_name = name, mn_curator_id = curator, mn_policy_version = policy,
     mn_language = None, mn_ai_routes = default_routes, mn_sources = []\<rparr>"

section \<open>Rows\<close>

record run_record =
  rr_run_id :: string
  rr_input_hash :: string
  rr_config_hash :: string
  rr_sequence :: nat

datatype task_stage = SensitivePreflight | EmbeddingStage | SemanticCandidates | OrganizerStage | SynthesisStage | CriticStage
  | Materialization

fun stage_str :: "task_stage \<Rightarrow> string" where
  "stage_str SensitivePreflight = ''sensitive_preflight''"
| "stage_str EmbeddingStage = ''embedding''"
| "stage_str SemanticCandidates = ''semantic_candidates''"
| "stage_str OrganizerStage = ''organizer''"
| "stage_str SynthesisStage = ''synthesis''"
| "stage_str CriticStage = ''critic''"
| "stage_str Materialization = ''materialization''"

definition parse_stage :: "string \<Rightarrow> task_stage option" where
  "parse_stage s = find (\<lambda>x. stage_str x = s) [SensitivePreflight, EmbeddingStage, SemanticCandidates, OrganizerStage,
     SynthesisStage, CriticStage, Materialization]"

datatype task_status = Queued | Running | TaskComplete | TaskFailed | TaskCancelled

fun status_str :: "task_status \<Rightarrow> string" where
  "status_str Queued = ''queued''"
| "status_str Running = ''running''"
| "status_str TaskComplete = ''complete''"
| "status_str TaskFailed = ''failed''"
| "status_str TaskCancelled = ''cancelled''"

definition parse_status :: "string \<Rightarrow> task_status option" where
  "parse_status s = find (\<lambda>x. status_str x = s) [Queued, Running, TaskComplete, TaskFailed, TaskCancelled]"

record task_row =
  tk_task_id :: string
  tk_run_id :: string
  tk_stage :: string
  tk_cache_key :: string
  tk_request_object :: string

record task_event =
  te_task_id :: string
  te_status :: string
  te_response_object :: "string option"
  te_error_kind :: "string option"

record exchange_row =
  xc_run_id :: string
  xc_task_id :: string
  xc_recording_object :: string
  xc_recording_hash :: string

record revision_row =
  rw_run_id :: string
  rw_cluster_id :: string
  rw_revision_hash :: string
  rw_object_id :: string

record approval_row =
  aw_run_id :: string
  aw_kind :: string
  aw_target_id :: string
  aw_target_hash :: string
  aw_object_id :: string

record plan_row =
  pw_run_id :: string
  pw_plan_id :: string
  pw_plan_hash :: string
  pw_object_id :: string

record output_row =
  ow_run_id :: string
  ow_plan_id :: string
  ow_output_path :: string
  ow_manifest_object :: string

record feedback_row =
  fr_run_id :: string
  fr_cluster_id :: string
  fr_revision :: nat
  fr_feedback_hash :: string
  fr_feedback_object :: string
  fr_previous_proposal_hash :: string
  fr_previous_critic_hash :: string

record source_set_row =
  sr_revision_hash :: string
  sr_object_id :: string
  sr_run_id :: string

record task_state =
  ts_task_id :: string
  ts_run_id :: string
  ts_stage :: task_stage
  ts_cache_key :: string
  ts_request_object :: string
  ts_status :: task_status
  ts_response_object :: "string option"
  ts_error_kind :: "string option"

record cluster_regeneration =
  rg_cluster_id :: string
  rg_revision :: nat
  rg_feedback :: string
  rg_feedback_hash :: string
  rg_previous_proposal_hash :: content_hash
  rg_previous_critic_hash :: content_hash

record approved_taxonomy =
  at_corpus :: integration_corpus
  at_taxonomy :: taxonomy_proposal
  at_approval :: approval_binding

record 'a approval_record =
  ar_target_hash :: string
  ar_value :: 'a

record integration_status =
  is_schema_version :: nat
  is_run :: "run_record option"
  is_tasks :: "task_state list"
  is_completed :: nat
  is_failed :: nat

record task_cache_key =
  ck_stage :: task_stage
  ck_prompt_hash :: string
  ck_schema_hash :: string
  ck_source_hash :: string
  ck_provider :: string
  ck_model :: string
  ck_adapter :: string
  ck_options_hash :: string

text \<open>The manifest in memory and on disk, the lock file, the objects and the tables.\<close>

record store =
  st_root :: string
  st_manifest :: project_manifest
  st_saved :: project_manifest
  st_locked :: bool
  st_objects :: "(string, bytes) btree"
  st_runs :: "run_record list"
  st_tasks :: "task_row list"
  st_events :: "task_event list"
  st_exchanges :: "exchange_row list"
  st_revisions :: "revision_row list"
  st_approvals :: "approval_row list"
  st_source_sets :: "source_set_row list"
  st_plans :: "plan_row list"
  st_outputs :: "output_row list"
  st_feedback :: "feedback_row list"
  st_project_events :: "(string \<times> string) list"

record app_codec =
  key_bytes :: "task_cache_key \<Rightarrow> bytes"
  sources_bytes :: "source_binding list \<Rightarrow> bytes"
  config_bytes :: "string \<times> string option \<times> ai_routes \<Rightarrow> bytes"
  read_regeneration :: "bytes \<Rightarrow> cluster_regeneration option"
  read_taxonomy :: "bytes \<Rightarrow> approved_taxonomy option"
  read_revision :: "bytes \<Rightarrow> approved_revision option"
  read_approved_plan :: "bytes \<Rightarrow> integration_plan option"

section \<open>State passing\<close>

type_synonym 'a op = "store \<Rightarrow> store \<times> 'a app"

definition stay :: "(store \<Rightarrow> 'a app) \<Rightarrow> 'a op" where
  "stay f st = (st, f st)"

definition op_bind :: "'a op \<Rightarrow> ('a \<Rightarrow> 'b op) \<Rightarrow> 'b op" where
  "op_bind m f st = (case m st of (st1, Inl e) \<Rightarrow> (st1, Inl e) | (st1, Inr x) \<Rightarrow> f x st1)"

definition from_core :: "'a res \<Rightarrow> 'a app" where
  "from_core r = (case r of Inl e \<Rightarrow> Inl (AppCore e) | Inr x \<Rightarrow> Inr x)"

section \<open>Digests and names\<close>

text \<open>\<open>usize::to_be_bytes\<close> on 64-bit targets.\<close>

definition be_bytes :: "nat \<Rightarrow> bytes" where
  "be_bytes n = map (\<lambda>i. char_of (n div 256 ^ (7 - i) mod 256)) [0..<8]"

definition digest :: "externs \<Rightarrow> string \<Rightarrow> bytes list \<Rightarrow> string" where
  "digest E label parts = hex_encode E (sha256 E (label @ concat (map (\<lambda>p. be_bytes (length p) @ p) parts)))"

definition domain_digest :: "externs \<Rightarrow> string \<Rightarrow> bytes \<Rightarrow> string" where
  "domain_digest E label b = hex_encode E (sha256 E (label @ b))"

definition hex_digest :: "externs \<Rightarrow> bytes \<Rightarrow> string" where
  "hex_digest E b = domain_digest E (domain ''okc:project-object:v3'') b"

definition validate_hex_hash :: "string \<Rightarrow> string \<Rightarrow> unit app" where
  "validate_hex_hash label v = reject (length v \<noteq> 64 \<or> \<not> list_all lower_hex v)
     (InvalidProject (label @ '' must be a lowercase SHA-256 value''))"

definition validate_identifier :: "string \<Rightarrow> string \<Rightarrow> unit app" where
  "validate_identifier label v = reject (v = '''' \<or> 512 < length v \<or> has_control v \<or> CHR 0x0A \<in> set v \<or> CHR 0x0D \<in> set v)
     (InvalidProject (''invalid '' @ label))"

definition cache_key_hash :: "externs \<Rightarrow> app_codec \<Rightarrow> task_cache_key \<Rightarrow> string app" where
  "cache_key_hash E C k = and_then (seq_checks [
       validate_hex_hash ''prompt hash'' (ck_prompt_hash k), validate_hex_hash ''schema hash'' (ck_schema_hash k),
       validate_hex_hash ''source hash'' (ck_source_hash k), validate_hex_hash ''options hash'' (ck_options_hash k),
       validate_identifier ''provider'' (ck_provider k), validate_identifier ''model'' (ck_model k),
       validate_identifier ''adapter'' (ck_adapter k)])
     (Inr (digest E (domain ''okc:ai-task:v3'') [key_bytes C k]))"

definition cluster_feedback_hash :: "externs \<Rightarrow> string \<Rightarrow> nat \<Rightarrow> string \<Rightarrow> content_hash \<Rightarrow> content_hash \<Rightarrow> string" where
  "cluster_feedback_hash E cluster revision feedback proposal critic =
     domain_digest E (domain ''okc:cluster-feedback:v3'') (to_canonical_json E
       (JArr [JStr cluster, Corpus.jnat revision, JStr feedback, jhash E proposal, jhash E critic]))"

section \<open>Objects\<close>

definition put_object :: "externs \<Rightarrow> bytes \<Rightarrow> string op" where
  "put_object E b st = (let d = hex_digest E b in
     case btree_get (st_objects st) d of
       Some existing \<Rightarrow> (st, if existing \<noteq> b
         then invalid_project (''object '' @ [CHR 0x60] @ d @ [CHR 0x60] @ '' does not match its content address'') else Inr d)
     | None \<Rightarrow> (st\<lparr>st_objects := btree_insert d b (st_objects st)\<rparr>, Inr d))"

definition read_object :: "externs \<Rightarrow> string \<Rightarrow> store \<Rightarrow> bytes app" where
  "read_object E d st = and_then (validate_hex_hash ''object ID'' d)
     (bind_res (require (AppIo NotFound) (btree_get (st_objects st) d)) (\<lambda>b.
      if hex_digest E b \<noteq> d
      then invalid_project (''object '' @ [CHR 0x60] @ d @ [CHR 0x60] @ '' does not match its content address'') else Inr b))"

definition parsed_object :: "externs \<Rightarrow> (bytes \<Rightarrow> 'a option) \<Rightarrow> string \<Rightarrow> store \<Rightarrow> 'a app" where
  "parsed_object E read d st = bind_res (read_object E d st) (\<lambda>b. require AppJson (read b))"

section \<open>Rows\<close>

definition insert_run :: "run_record \<Rightarrow> unit op" where
  "insert_run r st = (if rr_run_id r \<in> rr_run_id ` set (st_runs st) \<or> rr_sequence r \<in> rr_sequence ` set (st_runs st)
     then (st, Inl AppSqlite) else (st\<lparr>st_runs := st_runs st @ [r]\<rparr>, Inr ()))"

definition has_run :: "store \<Rightarrow> string \<Rightarrow> bool" where
  "has_run st run \<longleftrightarrow> run \<in> rr_run_id ` set (st_runs st)"

definition has_task :: "store \<Rightarrow> string \<Rightarrow> bool" where
  "has_task st task \<longleftrightarrow> task \<in> tk_task_id ` set (st_tasks st)"

text \<open>An insertion under the condition that its foreign keys exist.\<close>

definition insert_row :: "(store \<Rightarrow> bool) \<Rightarrow> (store \<Rightarrow> store) \<Rightarrow> unit op" where
  "insert_row keys_exist add st = (if keys_exist st then (add st, Inr ()) else (st, Inl AppSqlite))"

definition latest_run_row :: "store \<Rightarrow> run_record option" where
  "latest_run_row st = last_opt (sort_key rr_sequence (st_runs st))"

definition next_sequence :: "store \<Rightarrow> nat" where
  "next_sequence st = (case latest_run_row st of None \<Rightarrow> 0 | Some r \<Rightarrow> rr_sequence r) + 1"

section \<open>Runs and tasks\<close>

definition begin_or_resume_run :: "externs \<Rightarrow> string \<Rightarrow> string \<Rightarrow> run_record op" where
  "begin_or_resume_run E input config st =
     (case and_then (validate_hex_hash ''input hash'' input) (validate_hex_hash ''configuration hash'' config) of
       Inl e \<Rightarrow> (st, Inl e)
     | Inr _ \<Rightarrow> let fresh = \<lparr>rr_run_id = ''run_'' @ digest E (domain ''okc:run:v3'') [input, config, be_bytes (next_sequence st)],
           rr_input_hash = input, rr_config_hash = config, rr_sequence = next_sequence st\<rparr> in
         (case latest_run_row st of
           Some r \<Rightarrow> if rr_input_hash r = input \<and> rr_config_hash r = config then (st, Inr r)
             else op_bind (insert_run fresh) (\<lambda>_ st1. (st1, Inr fresh)) st
         | None \<Rightarrow> op_bind (insert_run fresh) (\<lambda>_ st1. (st1, Inr fresh)) st))"

definition latest_event :: "store \<Rightarrow> string \<Rightarrow> task_event option" where
  "latest_event st task = last_opt (filter (\<lambda>e. te_task_id e = task) (st_events st))"

definition task_state_of :: "store \<Rightarrow> string \<Rightarrow> task_state app" where
  "task_state_of st task =
     bind_res (require AppSqlite (find (\<lambda>t. tk_task_id t = task) (st_tasks st))) (\<lambda>t.
     bind_res (require AppSqlite (parse_stage (tk_stage t))) (\<lambda>stage.
     bind_res (require AppSqlite (latest_event st task)) (\<lambda>e.
     bind_res (require AppSqlite (parse_status (te_status e))) (\<lambda>status.
       Inr \<lparr>ts_task_id = task, ts_run_id = tk_run_id t, ts_stage = stage, ts_cache_key = tk_cache_key t,
         ts_request_object = tk_request_object t, ts_status = status, ts_response_object = te_response_object e,
         ts_error_kind = te_error_kind e\<rparr>))))"

definition find_task :: "store \<Rightarrow> string \<Rightarrow> string \<Rightarrow> string option" where
  "find_task st run key = map_option tk_task_id (find (\<lambda>t. tk_run_id t = run \<and> tk_cache_key t = key) (st_tasks st))"

text \<open>Both rows in one transaction; the keys and the uniqueness are those of the schema.\<close>

definition insert_task :: "task_row \<Rightarrow> unit op" where
  "insert_task t st = (if has_task st (tk_task_id t) \<or> \<not> has_run st (tk_run_id t)
       \<or> find_task st (tk_run_id t) (tk_cache_key t) \<noteq> None
     then (st, Inl AppSqlite)
     else (st\<lparr>st_tasks := st_tasks st @ [t], st_events := st_events st @ [\<lparr>te_task_id = tk_task_id t,
        te_status = status_str Queued, te_response_object = None, te_error_kind = None\<rparr>]\<rparr>, Inr ()))"

definition register_task :: "externs \<Rightarrow> app_codec \<Rightarrow> run_record \<Rightarrow> task_stage \<Rightarrow> task_cache_key \<Rightarrow> bytes \<Rightarrow> task_state op" where
  "register_task E C run stage key request st =
     (case and_then (reject (ck_stage key \<noteq> stage) (InvalidProject ''task stage does not match its cache key'')) (cache_key_hash E C key) of
       Inl e \<Rightarrow> (st, Inl e)
     | Inr k \<Rightarrow> op_bind (put_object E request) (\<lambda>obj st1.
         (case find_task st1 (rr_run_id run) k of
           Some task \<Rightarrow> (st1, bind_res (task_state_of st1 task) (\<lambda>t.
             if ts_request_object t \<noteq> obj then invalid_project ''task cache key is stale for its request bytes'' else Inr t))
         | None \<Rightarrow>
             let task = ''task_'' @ digest E (domain ''okc:task:v3'') [rr_run_id run, k] in
             op_bind (insert_task \<lparr>tk_task_id = task, tk_run_id = rr_run_id run, tk_stage = stage_str stage, tk_cache_key = k,
                tk_request_object = obj\<rparr>) (\<lambda>_. stay (\<lambda>st2. task_state_of st2 task)) st1)) st)"

definition optional_object :: "externs \<Rightarrow> bytes option \<Rightarrow> string option op" where
  "optional_object E b = (case b of None \<Rightarrow> stay (\<lambda>_. Inr None) | Some b \<Rightarrow> op_bind (put_object E b) (\<lambda>d. stay (\<lambda>_. Inr (Some d))))"

definition append_task_status :: "externs \<Rightarrow> string \<Rightarrow> task_status \<Rightarrow> bytes option \<Rightarrow> string option \<Rightarrow> task_state op" where
  "append_task_status E task status response error =
     op_bind (stay (\<lambda>_. seq_checks [
       reject (status = TaskComplete \<and> (response = None \<or> error \<noteq> None))
         (InvalidProject ''a complete task requires one response and no error''),
       reject ((status = TaskFailed \<or> status = TaskCancelled) \<and> error = None)
         (InvalidProject ''failed/cancelled task events require an error kind'')])) (\<lambda>_.
     op_bind (optional_object E response) (\<lambda>obj.
     op_bind (insert_row (\<lambda>st. has_task st task) (\<lambda>st. st\<lparr>st_events := st_events st @ [\<lparr>te_task_id = task,
        te_status = status_str status, te_response_object = obj, te_error_kind = error\<rparr>]\<rparr>)) (\<lambda>_.
     stay (\<lambda>st. task_state_of st task))))"

definition record_exchange :: "externs \<Rightarrow> string \<Rightarrow> string \<Rightarrow> bytes \<Rightarrow> string op" where
  "record_exchange E run task recording =
     (let h = digest E (domain ''okc:provider-recording:v3'') [recording] in
     op_bind (put_object E recording) (\<lambda>obj.
     op_bind (insert_row (\<lambda>st. has_run st run \<and> has_task st task) (\<lambda>st. st\<lparr>st_exchanges := st_exchanges st @
       [\<lparr>xc_run_id = run, xc_task_id = task, xc_recording_object = obj, xc_recording_hash = h\<rparr>]\<rparr>)) (\<lambda>_.
     stay (\<lambda>_. Inr h))))"

definition append_cluster_revision :: "externs \<Rightarrow> string \<Rightarrow> string \<Rightarrow> string \<Rightarrow> bytes \<Rightarrow> unit op" where
  "append_cluster_revision E run cluster hash b =
     op_bind (stay (\<lambda>_. and_then (validate_identifier ''cluster ID'' cluster) (validate_hex_hash ''cluster revision hash'' hash))) (\<lambda>_.
     op_bind (put_object E b) (\<lambda>obj.
     insert_row (\<lambda>st. has_run st run) (\<lambda>st. st\<lparr>st_revisions := st_revisions st @
       [\<lparr>rw_run_id = run, rw_cluster_id = cluster, rw_revision_hash = hash, rw_object_id = obj\<rparr>]\<rparr>)))"

definition append_approval :: "externs \<Rightarrow> string \<Rightarrow> string \<Rightarrow> string \<Rightarrow> string \<Rightarrow> bytes \<Rightarrow> unit op" where
  "append_approval E run kind target hash b =
     op_bind (stay (\<lambda>_. seq_checks [validate_identifier ''approval kind'' kind, validate_identifier ''approval target'' target,
       validate_hex_hash ''approval target hash'' hash])) (\<lambda>_.
     op_bind (put_object E b) (\<lambda>obj.
     insert_row (\<lambda>st. has_run st run) (\<lambda>st. st\<lparr>st_approvals := st_approvals st @
       [\<lparr>aw_run_id = run, aw_kind = kind, aw_target_id = target, aw_target_hash = hash, aw_object_id = obj\<rparr>]\<rparr>)))"

definition status_count :: "task_status \<Rightarrow> task_state list \<Rightarrow> nat" where
  "status_count s ts = length (filter (\<lambda>t. ts_status t = s) ts)"

definition integration_status_of :: "store \<Rightarrow> integration_status app" where
  "integration_status_of st = (let run = latest_run_row st in
     bind_res (case run of None \<Rightarrow> Inr []
       | Some r \<Rightarrow> try_map (task_state_of st) (sort (map tk_task_id (filter (\<lambda>t. tk_run_id t = rr_run_id r) (st_tasks st))))) (\<lambda>tasks.
     Inr \<lparr>is_schema_version = project_schema_version, is_run = run, is_tasks = tasks,
       is_completed = status_count TaskComplete tasks, is_failed = status_count TaskFailed tasks\<rparr>))"

text \<open>\<open>latest_run\<close> goes through the status of the whole run.\<close>

definition latest_run :: "store \<Rightarrow> run_record option app" where
  "latest_run st = bind_res (integration_status_of st) (\<lambda>s. Inr (is_run s))"

text \<open>The tasks of a stage in the order of their latest events.\<close>

fun last_index :: "('a \<Rightarrow> bool) \<Rightarrow> 'a list \<Rightarrow> nat" where
  "last_index p [] = 0"
| "last_index p (x # xs) = (if list_ex p xs then Suc (last_index p xs) else 0)"

definition tasks_for_stage :: "store \<Rightarrow> string \<Rightarrow> task_stage \<Rightarrow> task_state list app" where
  "tasks_for_stage st run stage = try_map (task_state_of st)
     (sort_key (\<lambda>task. last_index (\<lambda>e. te_task_id e = task) (st_events st))
       (filter (\<lambda>task. latest_event st task \<noteq> None)
         (map tk_task_id (filter (\<lambda>t. tk_run_id t = run \<and> tk_stage t = stage_str stage) (st_tasks st)))))"

definition complete_task_response :: "externs \<Rightarrow> (bytes \<Rightarrow> 'a option) \<Rightarrow> task_state \<Rightarrow> store \<Rightarrow> 'a app" where
  "complete_task_response E read t st =
     and_then (reject (ts_status t \<noteq> TaskComplete)
       (InvalidProject (''task '' @ [CHR 0x60] @ ts_task_id t @ [CHR 0x60] @ '' is not complete'')))
     (bind_res (require (InvalidProject (''complete task '' @ [CHR 0x60] @ ts_task_id t @ [CHR 0x60] @ '' has no response object''))
        (ts_response_object t)) (\<lambda>d. parsed_object E read d st))"

section \<open>Approvals and plans\<close>

definition latest_approval :: "externs \<Rightarrow> (bytes \<Rightarrow> 'a option) \<Rightarrow> string \<Rightarrow> string \<Rightarrow> string \<Rightarrow> store \<Rightarrow> 'a approval_record option app" where
  "latest_approval E read run kind target st =
     and_then (seq_checks [validate_identifier ''approval kind'' kind, validate_identifier ''approval target'' target])
     (case last_opt (filter (\<lambda>a. aw_run_id a = run \<and> aw_kind a = kind \<and> aw_target_id a = target) (st_approvals st)) of
       None \<Rightarrow> Inr None
     | Some a \<Rightarrow> bind_res (parsed_object E read (aw_object_id a) st) (\<lambda>v.
         Inr (Some \<lparr>ar_target_hash = aw_target_hash a, ar_value = v\<rparr>)))"

definition recording_hashes :: "externs \<Rightarrow> string \<Rightarrow> store \<Rightarrow> content_hash list app" where
  "recording_hashes E run st = try_map (\<lambda>x. from_core (parse_hex E (xc_recording_hash x)))
     (filter (\<lambda>x. xc_run_id x = run) (st_exchanges st))"

definition json_of_regeneration :: "externs \<Rightarrow> cluster_regeneration \<Rightarrow> json" where
  "json_of_regeneration E r = jobj [(''cluster_id'', JStr (rg_cluster_id r)), (''revision'', Corpus.jnat (rg_revision r)),
     (''feedback'', JStr (rg_feedback r)), (''feedback_hash'', JStr (rg_feedback_hash r)),
     (''previous_proposal_hash'', jhash E (rg_previous_proposal_hash r)),
     (''previous_critic_hash'', jhash E (rg_previous_critic_hash r))]"

definition append_cluster_regeneration :: "externs \<Rightarrow> cluster_regeneration \<Rightarrow> unit op" where
  "append_cluster_regeneration E r =
     op_bind (stay (\<lambda>_. reject (trim (rg_feedback r) = '''' \<or> rg_revision r < 2)
       (InvalidProject ''cluster regeneration requires feedback and revision >= 2''))) (\<lambda>_.
     op_bind (stay (\<lambda>st. bind_res (latest_run st) (require (InvalidProject ''cluster regeneration requires a current run'')))) (\<lambda>run.
     op_bind (stay (\<lambda>_. reject (rg_feedback_hash r \<noteq> cluster_feedback_hash E (rg_cluster_id r) (rg_revision r) (rg_feedback r)
         (rg_previous_proposal_hash r) (rg_previous_critic_hash r))
       (InvalidProject ''cluster feedback hash does not match its binding''))) (\<lambda>_.
     op_bind (put_object E (to_canonical_json E (json_of_regeneration E r))) (\<lambda>obj.
     insert_row (\<lambda>st. has_run st (rr_run_id run)) (\<lambda>st. st\<lparr>st_feedback := st_feedback st @
       [\<lparr>fr_run_id = rr_run_id run, fr_cluster_id = rg_cluster_id r, fr_revision = rg_revision r,
         fr_feedback_hash = rg_feedback_hash r, fr_feedback_object = obj,
         fr_previous_proposal_hash = hash_hex E (rg_previous_proposal_hash r),
         fr_previous_critic_hash = hash_hex E (rg_previous_critic_hash r)\<rparr>]\<rparr>)))))"

definition latest_cluster_regeneration :: "externs \<Rightarrow> app_codec \<Rightarrow> string \<Rightarrow> string \<Rightarrow> store \<Rightarrow> cluster_regeneration option app" where
  "latest_cluster_regeneration E C run cluster st =
     (case last_opt (filter (\<lambda>f. fr_run_id f = run \<and> fr_cluster_id f = cluster) (st_feedback st)) of
       None \<Rightarrow> Inr None
     | Some f \<Rightarrow> bind_res (parsed_object E (read_regeneration C) (fr_feedback_object f) st) (\<lambda>r. Inr (Some r)))"

definition superseded :: "cluster_regeneration option \<Rightarrow> approved_revision \<Rightarrow> bool" where
  "superseded r v = (case r of None \<Rightarrow> False | Some r \<Rightarrow> sp_revision (rv_proposal v) < rg_revision r)"

definition store_approved_integration_plan :: "externs \<Rightarrow> string \<Rightarrow> integration_plan \<Rightarrow> string op" where
  "store_approved_integration_plan E run plan =
     op_bind (stay (\<lambda>_. from_core (validate_plan E plan))) (\<lambda>_.
     let b = to_canonical_json E (json_of_plan E plan) in
     op_bind (put_object E b) (\<lambda>obj.
     op_bind (insert_row (\<lambda>st. has_run st run) (\<lambda>st. st\<lparr>st_plans := st_plans st @ [\<lparr>pw_run_id = run,
        pw_plan_id = ip_integration_plan_id plan, pw_plan_hash = digest E (domain ''okc:integration-plan-object:v3'') [b],
        pw_object_id = obj\<rparr>]\<rparr>)) (\<lambda>_.
     stay (\<lambda>_. Inr obj))))"

definition revision_is_current :: "externs \<Rightarrow> app_codec \<Rightarrow> string \<Rightarrow> store \<Rightarrow> approved_revision \<Rightarrow> bool app" where
  "revision_is_current E C run st v =
     bind_res (latest_approval E (read_revision C) run ''cluster'' (sp_cluster_id (rv_proposal v)) st) (\<lambda>a.
     case a of None \<Rightarrow> Inr False
     | Some a \<Rightarrow> if ar_target_hash a \<noteq> hash_hex E (cr_critic_hash (rv_critic v)) \<or> ar_value a \<noteq> v then Inr False
         else bind_res (latest_cluster_regeneration E C run (sp_cluster_id (rv_proposal v)) st) (\<lambda>r. Inr (\<not> superseded r v)))"

text \<open>A loop that leaves with \<open>false\<close> at the first element that does not hold.\<close>

fun all_current :: "('a \<Rightarrow> bool app) \<Rightarrow> 'a list \<Rightarrow> bool app" where
  "all_current f [] = Inr True"
| "all_current f (x # xs) = (case f x of Inl e \<Rightarrow> Inl e | Inr b \<Rightarrow> if b then all_current f xs else Inr False)"

definition integration_plan_is_current :: "externs \<Rightarrow> app_codec \<Rightarrow> string \<Rightarrow> integration_plan \<Rightarrow> store \<Rightarrow> bool app" where
  "integration_plan_is_current E C run plan st =
     bind_res (latest_approval E (read_taxonomy C) run ''taxonomy'' ''taxonomy'' st) (\<lambda>t.
     case t of None \<Rightarrow> Inr False
     | Some t \<Rightarrow> if ar_target_hash t \<noteq> hash_hex E (ta_taxonomy_hash (ip_taxonomy plan))
          \<or> at_taxonomy (ar_value t) \<noteq> ip_taxonomy plan \<or> at_approval (ar_value t) \<noteq> ip_taxonomy_approval plan
          \<or> at_corpus (ar_value t) \<noteq> ip_corpus plan then Inr False
        else all_current (revision_is_current E C run st) (ip_clusters plan))"

definition latest_approved_integration_plan :: "externs \<Rightarrow> app_codec \<Rightarrow> store \<Rightarrow> integration_plan option app" where
  "latest_approved_integration_plan E C st =
     (case (case latest_run_row st of None \<Rightarrow> None
         | Some r \<Rightarrow> last_opt (filter (\<lambda>p. pw_run_id p = rr_run_id r) (st_plans st))) of
       None \<Rightarrow> Inr None
     | Some row \<Rightarrow>
         bind_res (read_object E (pw_object_id row) st) (\<lambda>b.
         and_then (reject (digest E (domain ''okc:integration-plan-object:v3'') [b] \<noteq> pw_plan_hash row)
           (InvalidProject ''approved integration plan object hash is stale''))
         (bind_res (require AppJson (read_approved_plan C b)) (\<lambda>plan.
         and_then (from_core (validate_plan E plan))
         (and_then (reject (ip_integration_plan_id plan \<noteq> pw_plan_id row)
           (InvalidProject ''approved integration plan pointer does not match its object''))
         (bind_res (integration_plan_is_current E C (pw_run_id row) plan st) (\<lambda>current.
           Inr (if current then Some plan else None))))))))"

text \<open>The approvals of all clusters: none when one is missing or out of date.\<close>

fun approved_clusters :: "(taxonomy_cluster \<Rightarrow> approved_revision option app) \<Rightarrow> taxonomy_cluster list \<Rightarrow> approved_revision list option app" where
  "approved_clusters f [] = Inr (Some [])"
| "approved_clusters f (c # cs) = (case f c of Inl e \<Rightarrow> Inl e | Inr None \<Rightarrow> Inr None
     | Inr (Some v) \<Rightarrow> (case approved_clusters f cs of Inl e \<Rightarrow> Inl e | Inr None \<Rightarrow> Inr None | Inr (Some vs) \<Rightarrow> Inr (Some (v # vs))))"

definition approved_cluster :: "externs \<Rightarrow> app_codec \<Rightarrow> string \<Rightarrow> store \<Rightarrow> content_hash \<Rightarrow> taxonomy_cluster \<Rightarrow> approved_revision option app" where
  "approved_cluster E C run st taxonomy_hash c =
     bind_res (latest_approval E (read_revision C) run ''cluster'' (cl_cluster_id c) st) (\<lambda>a.
     case a of None \<Rightarrow> Inr None
     | Some a \<Rightarrow> let v = ar_value a in
         if ar_target_hash a \<noteq> hash_hex E (cr_critic_hash (rv_critic v)) \<or> sp_taxonomy_hash (rv_proposal v) \<noteq> taxonomy_hash then Inr None
         else bind_res (latest_cluster_regeneration E C run (cl_cluster_id c) st) (\<lambda>r. Inr (if superseded r v then None else Some v)))"

definition seal_latest_integration_plan :: "externs \<Rightarrow> app_codec \<Rightarrow> integration_plan option op" where
  "seal_latest_integration_plan E C st =
     (case latest_run st of Inl e \<Rightarrow> (st, Inl e) | Inr None \<Rightarrow> (st, Inr None)
     | Inr (Some run) \<Rightarrow> (case latest_approval E (read_taxonomy C) (rr_run_id run) ''taxonomy'' ''taxonomy'' st of
         Inl e \<Rightarrow> (st, Inl e)
       | Inr None \<Rightarrow> (st, Inr None)
       | Inr (Some t) \<Rightarrow> let v = ar_value t; h = ta_taxonomy_hash (at_taxonomy v) in
           if ar_target_hash t \<noteq> hash_hex E h then (st, Inr None)
           else (case approved_clusters (approved_cluster E C (rr_run_id run) st h) (ta_clusters (at_taxonomy v)) of
               Inl e \<Rightarrow> (st, Inl e)
             | Inr None \<Rightarrow> (st, Inr None)
             | Inr (Some vs) \<Rightarrow>
                 op_bind (stay (recording_hashes E (rr_run_id run))) (\<lambda>hs.
                 op_bind (stay (\<lambda>_. from_core (seal_plan E (at_corpus v) (at_taxonomy v) (at_approval v) vs hs))) (\<lambda>plan.
                 op_bind (store_approved_integration_plan E (rr_run_id run) plan) (\<lambda>_.
                 stay (\<lambda>_. Inr (Some plan))))) st)))"

text \<open>The resolved path of an output is an argument, none when it cannot be resolved.\<close>

definition record_verified_output :: "externs \<Rightarrow> app_codec \<Rightarrow> string option \<Rightarrow> compiled_vault_manifest \<Rightarrow> unit op" where
  "record_verified_output E C path m =
     op_bind (stay (\<lambda>st. bind_res (latest_run st) (require (InvalidProject ''cannot record verification without a current run'')))) (\<lambda>run.
     op_bind (stay (latest_approved_integration_plan E C)) (\<lambda>approved.
     op_bind (stay (\<lambda>_. reject (case approved of None \<Rightarrow> True | Some plan \<Rightarrow>
         cm_integration_plan_id m \<noteq> ip_integration_plan_id plan \<or> cm_corpus_hash m \<noteq> co_corpus_hash (ip_corpus plan)
         \<or> cm_taxonomy_hash m \<noteq> ta_taxonomy_hash (ip_taxonomy plan))
       (InvalidProject ''verified artifact is stale for the current approved integration plan''))) (\<lambda>_.
     op_bind (stay (\<lambda>_. require (AppIo NotFound) path)) (\<lambda>resolved.
     op_bind (put_object E (to_canonical_json E (json_of_manifest E m))) (\<lambda>obj.
     insert_row (\<lambda>st. has_run st (rr_run_id run)) (\<lambda>st. st\<lparr>st_outputs := st_outputs st @ [\<lparr>ow_run_id = rr_run_id run,
       ow_plan_id = cm_integration_plan_id m, ow_output_path = resolved, ow_manifest_object = obj\<rparr>]\<rparr>))))))"

definition latest_verified_output :: "externs \<Rightarrow> app_codec \<Rightarrow> store \<Rightarrow> string option app" where
  "latest_verified_output E C st =
     bind_res (latest_approved_integration_plan E C st) (\<lambda>p. case p of None \<Rightarrow> Inr None
     | Some plan \<Rightarrow> Inr (case latest_run_row st of None \<Rightarrow> None
         | Some r \<Rightarrow> map_option ow_output_path (last_opt (filter (\<lambda>v. ow_run_id v = rr_run_id r
             \<and> ow_plan_id v = ip_integration_plan_id plan) (st_outputs st)))))"

section \<open>Configuration\<close>

definition paths_overlap :: "string \<Rightarrow> string \<Rightarrow> bool" where
  "paths_overlap a b \<longleftrightarrow> prefix (path_components a) (path_components b) \<or> prefix (path_components b) (path_components a)"

definition lock_path :: "store \<Rightarrow> string" where
  "lock_path st = st_root st @ ''/project.lock''"

text \<open>A call under the writer lock, which is released when the call is over.\<close>

definition with_lock :: "'a op \<Rightarrow> 'a op" where
  "with_lock f st = (if st_locked st then (st, Inl (Locked (lock_path st)))
     else (case f (st\<lparr>st_locked := True\<rparr>) of (st1, r) \<Rightarrow> (st1\<lparr>st_locked := False\<rparr>, r)))"

text \<open>
  The manifest file is replaced by a rename, which may fail and leave the old one; then its permissions
  are set, which may fail and leave the new one.
\<close>

datatype manifest_fault = ReplaceFault app_error | ProtectFault app_error

definition save_manifest :: "manifest_fault option \<Rightarrow> project_manifest \<Rightarrow> unit op" where
  "save_manifest fault m st = (case fault of
     None \<Rightarrow> (st\<lparr>st_saved := m\<rparr>, Inr ())
   | Some (ReplaceFault e) \<Rightarrow> (st, Inl e)
   | Some (ProtectFault e) \<Rightarrow> (st\<lparr>st_saved := m\<rparr>, Inl e))"

definition config_hash_of :: "externs \<Rightarrow> app_codec \<Rightarrow> project_manifest \<Rightarrow> string" where
  "config_hash_of E C m = domain_digest E (domain ''okc:integration-config:v3'')
     (config_bytes C (mn_policy_version m, mn_language m, mn_ai_routes m))"

definition placeholder_run :: "externs \<Rightarrow> string \<Rightarrow> string \<Rightarrow> nat \<Rightarrow> run_record" where
  "placeholder_run E input config n = \<lparr>rr_run_id = ''run_'' @ domain_digest E (domain ''okc:run:v3'')
     (input @ '':'' @ config @ '':'' @ decimal n), rr_input_hash = input, rr_config_hash = config, rr_sequence = n\<rparr>"

definition has_work :: "store \<Rightarrow> string \<Rightarrow> bool" where
  "has_work st run \<longleftrightarrow> run \<in> tk_run_id ` set (st_tasks st) \<or> run \<in> aw_run_id ` set (st_approvals st) \<or> run \<in> pw_run_id ` set (st_plans st)"

text \<open>One transaction: when the run cannot be inserted, the event is not either.\<close>

definition invalidate_downstream :: "externs \<Rightarrow> app_codec \<Rightarrow> project_manifest \<Rightarrow> string \<Rightarrow> unit op" where
  "invalidate_downstream E C m reason st =
     (let st1 = st\<lparr>st_project_events := st_project_events st @ [(''source_invalidation'', reason)]\<rparr> in
      case latest_run_row st of
        None \<Rightarrow> (st1, Inr ())
      | Some r \<Rightarrow> if has_work st (rr_run_id r)
          then (case insert_run (placeholder_run E (rr_input_hash r) (config_hash_of E C m) (next_sequence st)) st1 of
              (st2, Inl e) \<Rightarrow> (st, Inl e) | (st2, Inr u) \<Rightarrow> (st2, Inr u))
          else (st1, Inr ()))"

definition commit_configuration :: "externs \<Rightarrow> app_codec \<Rightarrow> manifest_fault option \<Rightarrow> project_manifest \<Rightarrow> string \<Rightarrow> unit op" where
  "commit_configuration E C fault m reason =
     op_bind (stay (\<lambda>_. validate_manifest m)) (\<lambda>_.
     op_bind (invalidate_downstream E C m reason) (\<lambda>_.
     op_bind (save_manifest fault m) (\<lambda>_ st. (st\<lparr>st_manifest := m\<rparr>, Inr ()))))"

definition set_language :: "externs \<Rightarrow> app_codec \<Rightarrow> manifest_fault option \<Rightarrow> string option \<Rightarrow> unit op" where
  "set_language E C fault language = with_lock (\<lambda>st.
     case (case language of None \<Rightarrow> Inr () | Some l \<Rightarrow> validate_bcp47 l) of Inl e \<Rightarrow> (st, Inl e)
     | Inr _ \<Rightarrow> if mn_language (st_manifest st) = language then (st, Inr ())
         else commit_configuration E C fault ((st_manifest st)\<lparr>mn_language := language\<rparr>) ''project language changed'' st)"

definition set_ai_route :: "externs \<Rightarrow> app_codec \<Rightarrow> manifest_fault option \<Rightarrow> ai_role option \<Rightarrow> string \<Rightarrow> unit op" where
  "set_ai_route E C fault role p = with_lock (\<lambda>st.
     case set_route role p (mn_ai_routes (st_manifest st)) of Inl e \<Rightarrow> (st, Inl e)
     | Inr routes \<Rightarrow> if routes = mn_ai_routes (st_manifest st) then (st, Inr ())
         else commit_configuration E C fault ((st_manifest st)\<lparr>mn_ai_routes := routes\<rparr>) ''AI route changed'' st)"

text \<open>The transaction of \<open>replace_sources_locked\<close>, all or nothing.\<close>

definition record_sources :: "externs \<Rightarrow> app_codec \<Rightarrow> project_manifest \<Rightarrow> string \<Rightarrow> unit op" where
  "record_sources E C m obj st =
     (let revision = domain_digest E (domain ''okc:source-set:v3'') (sources_bytes C (mn_sources m));
          run = placeholder_run E revision (config_hash_of E C m) (next_sequence st)
      in case insert_run run st of
        (st1, Inl e) \<Rightarrow> (st, Inl e)
      | (st1, Inr _) \<Rightarrow> (st1\<lparr>st_source_sets := st_source_sets st1 @ [\<lparr>sr_revision_hash = revision, sr_object_id = obj,
             sr_run_id = rr_run_id run\<rparr>],
           st_project_events := st_project_events st1 @ [(''source_invalidation'', ''active source set replaced'')]\<rparr>, Inr ()))"

text \<open>Paths are compared by their components.\<close>

definition same_binding :: "source_binding \<Rightarrow> source_binding \<Rightarrow> bool" where
  "same_binding a b \<longleftrightarrow> bd_source_id a = bd_source_id b \<and> bd_owner_display_name a = bd_owner_display_name b
     \<and> path_components (bd_path a) = path_components (bd_path b) \<and> bd_snapshot_id a = bd_snapshot_id b"

definition replace_sources_locked :: "externs \<Rightarrow> app_codec \<Rightarrow> manifest_fault option \<Rightarrow> source_binding list \<Rightarrow> unit op" where
  "replace_sources_locked E C fault sources =
     op_bind (stay (\<lambda>st. reject (list_ex (\<lambda>b. paths_overlap (st_root st) (bd_path b)) sources)
       (InvalidProject ''project storage must be outside every immutable source''))) (\<lambda>_ st.
     if list_all2 same_binding (mn_sources (st_manifest st)) sources then (st, Inr ())
     else (let m = (st_manifest st)\<lparr>mn_sources := sources\<rparr> in
       op_bind (stay (\<lambda>_. validate_manifest m)) (\<lambda>_.
       op_bind (put_object E (sources_bytes C sources)) (\<lambda>obj.
       op_bind (record_sources E C m obj) (\<lambda>_.
       op_bind (save_manifest fault m) (\<lambda>_ st1. (st1\<lparr>st_manifest := m\<rparr>, Inr ()))))) st))"

text \<open>Whether the chosen sources can be used at all is the argument \<open>select\<close>, the workspace bootstrap.\<close>

definition replace_sources :: "externs \<Rightarrow> app_codec \<Rightarrow> manifest_fault option \<Rightarrow> (source_binding list \<Rightarrow> source_binding list app) \<Rightarrow>
    source_binding list \<Rightarrow> unit op" where
  "replace_sources E C fault select sources =
     with_lock (op_bind (stay (\<lambda>_. select sources)) (replace_sources_locked E C fault))"

definition add_source :: "externs \<Rightarrow> app_codec \<Rightarrow> manifest_fault option \<Rightarrow> (source_binding list \<Rightarrow> source_binding list app) \<Rightarrow>
    source_binding \<Rightarrow> unit op" where
  "add_source E C fault select b st = (let sources = mn_sources (st_manifest st) in
     if 10 \<le> length sources then (st, invalid_project ''a project supports at most 10 sources'')
     else if bd_source_id b \<in> bd_source_id ` set sources
     then (st, invalid_project (''duplicate source ID '' @ [CHR 0x60] @ source_str (bd_source_id b) @ [CHR 0x60]))
     else replace_sources E C fault select (sources @ [b]) st)"

fun update_first :: "('a \<Rightarrow> bool) \<Rightarrow> ('a \<Rightarrow> 'a) \<Rightarrow> 'a list \<Rightarrow> 'a list" where
  "update_first p f [] = []"
| "update_first p f (x # xs) = (if p x then f x # xs else x # update_first p f xs)"

definition rebind_source :: "externs \<Rightarrow> app_codec \<Rightarrow> manifest_fault option \<Rightarrow> (source_binding list \<Rightarrow> source_binding list app) \<Rightarrow>
    source_id \<Rightarrow> string \<Rightarrow> string option \<Rightarrow> unit op" where
  "rebind_source E C fault select i path snapshot st = (let sources = mn_sources (st_manifest st) in
     case find (\<lambda>b. bd_source_id b = i) sources of
       None \<Rightarrow> (st, invalid_project (''unknown source '' @ [CHR 0x60] @ source_str i @ [CHR 0x60]))
     | Some b \<Rightarrow> if path_components (bd_path b) = path_components path \<and> bd_snapshot_id b = snapshot then (st, Inr ())
         else replace_sources E C fault select (update_first (\<lambda>b. bd_source_id b = i)
           (\<lambda>b. b\<lparr>bd_path := path, bd_snapshot_id := snapshot\<rparr>) sources) st)"

text \<open>\<open>ProjectStore::create\<close> validates before it makes anything; the new directory is given.\<close>

definition create_store :: "string \<Rightarrow> string \<Rightarrow> string \<Rightarrow> string \<Rightarrow> store app" where
  "create_store dir name curator policy = (let m = new_manifest name curator policy in
     and_then (reject (case path_extension dir of None \<Rightarrow> True | Some x \<Rightarrow> \<not> eq_ignore_ascii_case x ''okc-project'')
       (InvalidProject ''project directory must end in .okc-project''))
     (and_then (validate_manifest m)
     (Inr \<lparr>st_root = dir, st_manifest = m, st_saved = m, st_locked = False, st_objects = [], st_runs = [], st_tasks = [],
        st_events = [], st_exchanges = [], st_revisions = [], st_approvals = [], st_source_sets = [], st_plans = [],
        st_outputs = [], st_feedback = [], st_project_events = []\<rparr>)))"

text \<open>\<open>ProjectStore::open\<close> reads the saved manifest again.\<close>

definition reopen :: "unit op" where
  "reopen st = (case validate_manifest (st_saved st) of Inl e \<Rightarrow> (st, Inl e) | Inr _ \<Rightarrow> (st\<lparr>st_manifest := st_saved st\<rparr>, Inr ()))"

end
