(* ===== verification/JournalFacts.thy ===== *)
theory JournalFacts
  imports Journal
begin

text \<open>
  What the project store guarantees: its journal stays consistent and only grows; a change of the
  configuration revokes the current plan before the manifest changes; a plan that is handed out is
  current; a sealed plan is found again; a completed task is answered from the journal.
\<close>

section \<open>Consistency\<close>

definition stored :: "store \<Rightarrow> string \<Rightarrow> bool" where
  "stored st d \<longleftrightarrow> btree_get (st_objects st) d \<noteq> None"

text \<open>The run and the object that the rows of all tables refer to.\<close>

definition references :: "store \<Rightarrow> (string \<times> string) list" where
  "references st = map (\<lambda>t. (tk_run_id t, tk_request_object t)) (st_tasks st)
     @ map (\<lambda>x. (xc_run_id x, xc_recording_object x)) (st_exchanges st)
     @ map (\<lambda>x. (rw_run_id x, rw_object_id x)) (st_revisions st)
     @ map (\<lambda>x. (aw_run_id x, aw_object_id x)) (st_approvals st)
     @ map (\<lambda>x. (sr_run_id x, sr_object_id x)) (st_source_sets st)
     @ map (\<lambda>x. (pw_run_id x, pw_object_id x)) (st_plans st)
     @ map (\<lambda>x. (ow_run_id x, ow_manifest_object x)) (st_outputs st)
     @ map (\<lambda>x. (fr_run_id x, fr_feedback_object x)) (st_feedback st)"

definition objects_ok :: "externs \<Rightarrow> store \<Rightarrow> bool" where
  "objects_ok E st \<longleftrightarrow> btree_ok (st_objects st) \<and> (\<forall>d b. btree_get (st_objects st) d = Some b \<longrightarrow> hex_digest E b = d)"

definition runs_ok :: "store \<Rightarrow> bool" where
  "runs_ok st \<longleftrightarrow> sorted_wrt (<) (map rr_sequence (st_runs st)) \<and> distinct (map rr_run_id (st_runs st))"

definition tasks_ok :: "store \<Rightarrow> bool" where
  "tasks_ok st \<longleftrightarrow> distinct (map tk_task_id (st_tasks st))
     \<and> distinct (map (\<lambda>t. (tk_run_id t, tk_cache_key t)) (st_tasks st))
     \<and> (\<forall>t \<in> set (st_tasks st). parse_stage (tk_stage t) \<noteq> None \<and> latest_event st (tk_task_id t) \<noteq> None)
     \<and> (\<forall>e \<in> set (st_events st). has_task st (te_task_id e) \<and> parse_status (te_status e) \<noteq> None
          \<and> (te_status e = status_str TaskComplete \<longrightarrow> te_response_object e \<noteq> None)
          \<and> (case te_response_object e of None \<Rightarrow> True | Some d \<Rightarrow> stored st d))
     \<and> (\<forall>x \<in> set (st_exchanges st). has_task st (xc_task_id x))"

definition manifests_ok :: "store \<Rightarrow> bool" where
  "manifests_ok st \<longleftrightarrow> validate_manifest (st_manifest st) = Inr () \<and> validate_manifest (st_saved st) = Inr ()"

definition store_ok :: "externs \<Rightarrow> store \<Rightarrow> bool" where
  "store_ok E st \<longleftrightarrow> objects_ok E st \<and> runs_ok st \<and> tasks_ok st \<and> manifests_ok st
     \<and> (\<forall>(run, d) \<in> set (references st). has_run st run \<and> stored st d)"

text \<open>The journal of one store continues that of another.\<close>

definition extends :: "store \<Rightarrow> store \<Rightarrow> bool" where
  "extends st st1 \<longleftrightarrow> prefix (st_runs st) (st_runs st1) \<and> prefix (st_tasks st) (st_tasks st1) \<and> prefix (st_events st) (st_events st1)
     \<and> prefix (st_exchanges st) (st_exchanges st1) \<and> prefix (st_revisions st) (st_revisions st1)
     \<and> prefix (st_approvals st) (st_approvals st1) \<and> prefix (st_source_sets st) (st_source_sets st1)
     \<and> prefix (st_plans st) (st_plans st1) \<and> prefix (st_outputs st) (st_outputs st1) \<and> prefix (st_feedback st) (st_feedback st1)
     \<and> prefix (st_project_events st) (st_project_events st1)
     \<and> (\<forall>d b. btree_get (st_objects st) d = Some b \<longrightarrow> btree_get (st_objects st1) d = Some b)"

lemma extends_refl [simp]: "extends st st"
  by (simp add: extends_def)

lemma extends_trans: "extends a b \<Longrightarrow> extends b c \<Longrightarrow> extends a c"
  unfolding extends_def
  by (elim conjE, intro conjI) (rule prefix_order.order_trans, assumption, assumption | blast)+

text \<open>
  A triple: from a consistent store that satisfies \<open>P\<close>, the operation leads to a consistent store that
  extends it, and its result satisfies \<open>Q\<close>.
\<close>

definition keeps :: "externs \<Rightarrow> (store \<Rightarrow> bool) \<Rightarrow> 'a op \<Rightarrow> ('a \<Rightarrow> store \<Rightarrow> bool) \<Rightarrow> bool" where
  "keeps E P m Q \<longleftrightarrow> (\<forall>st. store_ok E st \<longrightarrow> P st \<longrightarrow>
     (case m st of (st1, r) \<Rightarrow> store_ok E st1 \<and> extends st st1 \<and> (\<forall>x. r = Inr x \<longrightarrow> Q x st1)))"

lemma keepsD:
  "keeps E P m Q \<Longrightarrow> store_ok E st \<Longrightarrow> P st \<Longrightarrow> m st = (st1, r) \<Longrightarrow>
     store_ok E st1 \<and> extends st st1 \<and> (\<forall>x. r = Inr x \<longrightarrow> Q x st1)"
  by (fastforce simp: keeps_def)

lemma keeps_bind:
  assumes "keeps E P m Q" and "\<And>x. keeps E (Q x) (f x) R"
  shows "keeps E P (op_bind m f) R"
  unfolding keeps_def
proof (intro allI impI)
  fix st assume st: "store_ok E st" "P st"
  obtain st1 r where m: "m st = (st1, r)" by (cases "m st")
  note first = keepsD [OF assms(1) st m]
  show "case op_bind m f st of (st1, r) \<Rightarrow> store_ok E st1 \<and> extends st st1 \<and> (\<forall>x. r = Inr x \<longrightarrow> R x st1)"
  proof (cases r)
    case (Inr x)
    obtain st2 r2 where f: "f x st1 = (st2, r2)" by (cases "f x st1")
    with keepsD [OF assms(2) _ _ f] first Inr m show ?thesis by (auto simp: op_bind_def intro: extends_trans)
  qed (use first m in \<open>auto simp: op_bind_def\<close>)
qed

lemma keeps_stay: "(\<And>st x. P st \<Longrightarrow> f st = Inr x \<Longrightarrow> Q x st) \<Longrightarrow> keeps E P (stay f) Q"
  by (simp add: keeps_def stay_def)

lemma keeps_any: "keeps E P m Q \<Longrightarrow> (\<And>st. P' st \<Longrightarrow> P st) \<Longrightarrow> keeps E P' m (\<lambda>_ _. True)"
  by (fastforce simp: keeps_def)

lemma keeps_case: "(\<And>st. P st \<Longrightarrow> keeps E (\<lambda>s. s = st) (f st) Q) \<Longrightarrow> keeps E P (\<lambda>st. f st st) Q"
  by (simp add: keeps_def)

lemma keeps_same: "keeps E P (\<lambda>st. (st, r)) (\<lambda>_ _. True)"
  by (simp add: keeps_def)

text \<open>Updates of one table.\<close>

lemmas unfold_rows = store_ok_def objects_ok_def runs_ok_def tasks_ok_def manifests_ok_def references_def stored_def
  has_run_def has_task_def latest_event_def

lemma keeps_put: "keeps E P (put_object E b) (\<lambda>d st. stored st d)"
  unfolding keeps_def
proof (intro allI impI)
  fix st assume ok: "store_ok E st"
  show "case put_object E b st of (st1, r) \<Rightarrow> store_ok E st1 \<and> extends st st1 \<and> (\<forall>d. r = Inr d \<longrightarrow> stored st1 d)"
  proof (cases "btree_get (st_objects st) (hex_digest E b)")
    case None
    let ?st = "st\<lparr>st_objects := btree_insert (hex_digest E b) b (st_objects st)\<rparr>"
    have bt: "btree_ok (st_objects st)" using ok by (simp add: store_ok_def objects_ok_def)
    have more: "stored st d \<Longrightarrow> stored ?st d" for d using bt by (auto simp: stored_def)
    have "objects_ok E ?st" using ok bt by (auto simp: store_ok_def objects_ok_def btree_insert_ok split: if_splits)
    moreover have "tasks_ok ?st"
      using ok more unfolding store_ok_def tasks_ok_def has_task_def latest_event_def by (auto split: option.splits)
    moreover have "references ?st = references st" "runs_ok ?st = runs_ok st" "manifests_ok ?st = manifests_ok st" "has_run ?st = has_run st"
      by (auto simp: references_def runs_ok_def manifests_ok_def has_run_def fun_eq_iff)
    ultimately have "store_ok E ?st" using ok more by (auto simp: store_ok_def)
    moreover have "extends st ?st" using bt None by (auto simp: extends_def)
    ultimately show ?thesis using None bt by (simp add: put_object_def Let_def stored_def)
  next
    case (Some a)
    then show ?thesis using ok by (simp add: put_object_def Let_def stored_def invalid_project_def)
  qed
qed

text \<open>Rows that refer to existing runs and objects.\<close>

lemma store_ok_more_rows:
  assumes ok: "store_ok E st"
    and same: "st_objects st1 = st_objects st" "st_runs st1 = st_runs st" "st_tasks st1 = st_tasks st" "st_events st1 = st_events st"
      "st_manifest st1 = st_manifest st" "st_saved st1 = st_saved st"
    and tasks: "\<And>x. x \<in> set (st_exchanges st1) \<Longrightarrow> has_task st (xc_task_id x)"
    and refs: "set (references st1) \<subseteq> insert (run, d) (set (references st))" "has_run st run" "stored st d"
  shows "store_ok E st1"
proof -
  have eqs: "objects_ok E st1 = objects_ok E st" "runs_ok st1 = runs_ok st" "manifests_ok st1 = manifests_ok st"
      "has_run st1 = has_run st" "has_task st1 = has_task st" "stored st1 = stored st" "latest_event st1 = latest_event st"
    using same by (simp_all add: objects_ok_def runs_ok_def manifests_ok_def has_run_def has_task_def stored_def latest_event_def fun_eq_iff)
  have "tasks_ok st1" using ok same(3,4) tasks by (simp add: store_ok_def tasks_ok_def eqs cong: option.case_cong)
  moreover have "\<forall>(run, d) \<in> set (references st1). has_run st run \<and> stored st d"
    using ok refs by (fastforce simp: store_ok_def)
  ultimately show ?thesis using ok by (simp add: store_ok_def eqs)
qed

lemma store_ok_exchange_task: "store_ok E st \<Longrightarrow> x \<in> set (st_exchanges st) \<Longrightarrow> has_task st (xc_task_id x)"
  by (simp add: store_ok_def tasks_ok_def)

lemma keeps_row:
  assumes "\<And>st. store_ok E st \<Longrightarrow> P st \<Longrightarrow> cond st \<Longrightarrow> store_ok E (add st) \<and> extends st (add st)"
  shows "keeps E P (insert_row cond add) (\<lambda>_ _. True)"
  using assms by (auto simp: keeps_def insert_row_def)

lemma keeps_exchange:
  "keeps E (\<lambda>st. stored st d)
     (insert_row (\<lambda>st. has_run st run \<and> has_task st task) (\<lambda>st. st\<lparr>st_exchanges := st_exchanges st @
       [\<lparr>xc_run_id = run, xc_task_id = task, xc_recording_object = d, xc_recording_hash = h\<rparr>]\<rparr>)) (\<lambda>_ _. True)"
  by (rule keeps_row, intro conjI, rule store_ok_more_rows [where run = run and d = d])
     (auto simp: references_def extends_def store_ok_exchange_task)

lemma keeps_revision:
  "keeps E (\<lambda>st. stored st d) (insert_row (\<lambda>st. has_run st run) (\<lambda>st. st\<lparr>st_revisions := st_revisions st @
       [\<lparr>rw_run_id = run, rw_cluster_id = c, rw_revision_hash = h, rw_object_id = d\<rparr>]\<rparr>)) (\<lambda>_ _. True)"
  by (rule keeps_row, intro conjI, rule store_ok_more_rows [where run = run and d = d])
     (auto simp: references_def extends_def store_ok_exchange_task)

lemma keeps_approval:
  "keeps E (\<lambda>st. stored st d) (insert_row (\<lambda>st. has_run st run) (\<lambda>st. st\<lparr>st_approvals := st_approvals st @
       [\<lparr>aw_run_id = run, aw_kind = k, aw_target_id = t, aw_target_hash = h, aw_object_id = d\<rparr>]\<rparr>)) (\<lambda>_ _. True)"
  by (rule keeps_row, intro conjI, rule store_ok_more_rows [where run = run and d = d])
     (auto simp: references_def extends_def store_ok_exchange_task)

lemma keeps_plan:
  "keeps E (\<lambda>st. stored st d) (insert_row (\<lambda>st. has_run st run) (\<lambda>st. st\<lparr>st_plans := st_plans st @
       [\<lparr>pw_run_id = run, pw_plan_id = i, pw_plan_hash = h, pw_object_id = d\<rparr>]\<rparr>)) (\<lambda>_ _. True)"
  by (rule keeps_row, intro conjI, rule store_ok_more_rows [where run = run and d = d])
     (auto simp: references_def extends_def store_ok_exchange_task)

lemma keeps_output:
  "keeps E (\<lambda>st. stored st d) (insert_row (\<lambda>st. has_run st run) (\<lambda>st. st\<lparr>st_outputs := st_outputs st @
       [\<lparr>ow_run_id = run, ow_plan_id = i, ow_output_path = p, ow_manifest_object = d\<rparr>]\<rparr>)) (\<lambda>_ _. True)"
  by (rule keeps_row, intro conjI, rule store_ok_more_rows [where run = run and d = d])
     (auto simp: references_def extends_def store_ok_exchange_task)

lemma keeps_feedback:
  "keeps E (\<lambda>st. stored st d) (insert_row (\<lambda>st. has_run st run) (\<lambda>st. st\<lparr>st_feedback := st_feedback st @
       [\<lparr>fr_run_id = run, fr_cluster_id = c, fr_revision = n, fr_feedback_hash = h, fr_feedback_object = d,
         fr_previous_proposal_hash = p, fr_previous_critic_hash = q\<rparr>]\<rparr>)) (\<lambda>_ _. True)"
  by (rule keeps_row, intro conjI, rule store_ok_more_rows [where run = run and d = d])
     (auto simp: references_def extends_def store_ok_exchange_task)

section \<open>Runs, tasks and events\<close>

lemma last_of_sorted: "sorted_wrt (<) (map f xs) \<Longrightarrow> sort_key f xs = xs"
  by (intro sort_key_id_if_sorted sorted_wrt_mono_rel [where P = "(<)" and Q = "(\<le>)"]) auto

lemma latest_run_row_last: "runs_ok st \<Longrightarrow> latest_run_row st = last_opt (st_runs st)"
  by (simp add: runs_ok_def latest_run_row_def last_of_sorted)

lemma sorted_last_bound: "sorted_wrt (<) (map f xs) \<Longrightarrow> x \<in> set xs \<Longrightarrow> f x \<le> (f (last xs) :: nat)"
  by (induction xs rule: rev_induct) (auto simp: sorted_wrt_append less_imp_le)

lemma next_sequence_fresh: "runs_ok st \<Longrightarrow> r \<in> set (st_runs st) \<Longrightarrow> rr_sequence r < next_sequence st"
  by (cases "st_runs st = []") (auto simp: next_sequence_def latest_run_row_last last_opt_def runs_ok_def less_Suc_eq_le
    intro: sorted_last_bound)

lemma keeps_insert_run:
  "keeps E (\<lambda>st. rr_sequence r = next_sequence st) (insert_run r) (\<lambda>_ st. has_run st (rr_run_id r))"
proof -
  have "store_ok E (st\<lparr>st_runs := st_runs st @ [r]\<rparr>) \<and> extends st (st\<lparr>st_runs := st_runs st @ [r]\<rparr>)
      \<and> has_run (st\<lparr>st_runs := st_runs st @ [r]\<rparr>) (rr_run_id r)"
    if ok: "store_ok E st" and new: "rr_sequence r = next_sequence st" "rr_run_id r \<notin> rr_run_id ` set (st_runs st)" for st
  proof -
    let ?st = "st\<lparr>st_runs := st_runs st @ [r]\<rparr>"
    have "runs_ok st" using ok by (simp add: store_ok_def)
    then have "runs_ok ?st"
      using next_sequence_fresh [of st] new by (auto simp: runs_ok_def sorted_wrt_append)
    moreover have "objects_ok E ?st = objects_ok E st" "tasks_ok ?st = tasks_ok st" "manifests_ok ?st = manifests_ok st"
        "stored ?st = stored st" "references ?st = references st"
      by (simp_all add: objects_ok_def tasks_ok_def manifests_ok_def stored_def references_def has_task_def latest_event_def fun_eq_iff
        cong: option.case_cong)
    ultimately show ?thesis using ok by (auto simp: store_ok_def extends_def has_run_def)
  qed
  then show ?thesis by (auto simp: keeps_def insert_run_def)
qed

lemma parse_stage_str [simp]: "parse_stage (stage_str s) = Some s"
  by (cases s) (simp_all add: parse_stage_def)

lemma parse_status_str [simp]: "parse_status (status_str s) = Some s"
  by (cases s) (simp_all add: parse_status_def)

lemma status_str_eq [simp]: "status_str s = status_str s' \<longleftrightarrow> s = s'"
  by (cases s; cases s') simp_all

lemma find_task_None: "find_task st run key = None \<longleftrightarrow> (run, key) \<notin> (\<lambda>t. (tk_run_id t, tk_cache_key t)) ` set (st_tasks st)"
  by (auto simp: find_task_def find_None_iff)

lemma last_opt_filter_append:
  "last_opt (filter p (xs @ [x])) = (if p x then Some x else last_opt (filter p xs))"
  by (simp add: last_opt_def)

lemma keeps_insert_task:
  assumes "parse_stage (tk_stage t) \<noteq> None"
  shows "keeps E (\<lambda>st. stored st (tk_request_object t)) (insert_task t) (\<lambda>_ st. has_task st (tk_task_id t))"
proof -
  have "store_ok E st1 \<and> extends st st1 \<and> has_task st1 (tk_task_id t)"
    if ok: "store_ok E st" and obj: "stored st (tk_request_object t)"
      and new: "\<not> has_task st (tk_task_id t)" "has_run st (tk_run_id t)" "find_task st (tk_run_id t) (tk_cache_key t) = None"
      and st1: "st1 = st\<lparr>st_tasks := st_tasks st @ [t], st_events := st_events st @ [\<lparr>te_task_id = tk_task_id t,
        te_status = status_str Queued, te_response_object = None, te_error_kind = None\<rparr>]\<rparr>" for st st1
  proof -
    have eqs: "objects_ok E st1 = objects_ok E st" "runs_ok st1 = runs_ok st" "manifests_ok st1 = manifests_ok st"
        "stored st1 = stored st" "has_run st1 = has_run st"
      by (simp_all add: st1 objects_ok_def runs_ok_def manifests_ok_def stored_def has_run_def fun_eq_iff)
    have "tasks_ok st" using ok by (simp add: store_ok_def)
    then have "tasks_ok st1"
      using new assms unfolding tasks_ok_def eqs
      by (auto simp: st1 has_task_def latest_event_def last_opt_filter_append find_task_None cong: option.case_cong
        simp del: filter_append status_str.simps)
    moreover have "set (references st1) \<subseteq> insert (tk_run_id t, tk_request_object t) (set (references st))"
      by (auto simp: st1 references_def)
    ultimately have "store_ok E st1" using ok obj new(2) by (fastforce simp: store_ok_def eqs)
    then show ?thesis by (simp add: st1 extends_def has_task_def)
  qed
  then show ?thesis by (auto simp: keeps_def insert_task_def)
qed

lemma keeps_event:
  assumes "status = TaskComplete \<Longrightarrow> obj \<noteq> None"
  shows "keeps E (\<lambda>st. case obj of None \<Rightarrow> True | Some d \<Rightarrow> stored st d)
     (insert_row (\<lambda>st. has_task st task) (\<lambda>st. st\<lparr>st_events := st_events st @ [\<lparr>te_task_id = task,
        te_status = status_str status, te_response_object = obj, te_error_kind = error\<rparr>]\<rparr>)) (\<lambda>_ _. True)"
proof (rule keeps_row)
  fix st assume ok: "store_ok E st" and obj: "case obj of None \<Rightarrow> True | Some d \<Rightarrow> stored st d" and task: "has_task st task"
  let ?st = "st\<lparr>st_events := st_events st @ [\<lparr>te_task_id = task, te_status = status_str status, te_response_object = obj,
    te_error_kind = error\<rparr>]\<rparr>"
  have eqs: "objects_ok E ?st = objects_ok E st" "runs_ok ?st = runs_ok st" "manifests_ok ?st = manifests_ok st"
      "stored ?st = stored st" "has_run ?st = has_run st" "has_task ?st = has_task st" "references ?st = references st"
    by (simp_all add: objects_ok_def runs_ok_def manifests_ok_def stored_def has_run_def has_task_def references_def fun_eq_iff)
  have "status_str status = status_str TaskComplete \<Longrightarrow> status = TaskComplete" by (cases status) simp_all
  moreover have "tasks_ok st" using ok by (simp add: store_ok_def)
  ultimately have "tasks_ok ?st"
    using obj task assms unfolding tasks_ok_def eqs
    by (auto simp: latest_event_def last_opt_filter_append cong: option.case_cong simp del: filter_append)
  then show "store_ok E ?st \<and> extends st ?st" using ok by (simp add: store_ok_def eqs extends_def)
qed

section \<open>The operations of the journal\<close>

lemma keeps_strengthen: "keeps E P m Q \<Longrightarrow> (\<And>st. P' st \<Longrightarrow> P st) \<Longrightarrow> (\<And>x st. Q x st \<Longrightarrow> Q' x st) \<Longrightarrow> keeps E P' m Q'"
  by (fastforce simp: keeps_def)

lemma keeps_first_stay: "(\<And>x. keeps E P (g x) R) \<Longrightarrow> keeps E P (op_bind (stay f) g) R"
  by (rule keeps_bind [of E P "stay f" "\<lambda>_. P"]) (simp_all add: keeps_def stay_def)

lemma keeps_first_check: "(\<And>x. c = Inr x \<Longrightarrow> keeps E P (g x) R) \<Longrightarrow> keeps E P (op_bind (stay (\<lambda>_. c)) g) R"
  by (cases c) (simp_all add: keeps_def stay_def op_bind_def)

lemma keeps_first_put: "(\<And>d. keeps E (\<lambda>st. stored st d) (g d) R) \<Longrightarrow> keeps E P (op_bind (put_object E b) g) R"
  by (rule keeps_bind [OF keeps_put])

lemma keeps_then: "keeps E P m (\<lambda>_ _. True) \<Longrightarrow> (\<And>x. keeps E (\<lambda>_. True) (f x) R) \<Longrightarrow> keeps E P (op_bind m f) R"
  by (rule keeps_bind)

lemma keeps_final_stay: "keeps E P (stay f) (\<lambda>_ _. True)"
  by (simp add: keeps_def stay_def)

lemma keeps_option:
  assumes "\<And>y. keeps E (\<lambda>st. P st \<and> c st = Some y) (f y) Q" "keeps E (\<lambda>st. P st \<and> c st = None) g Q"
  shows "keeps E P (\<lambda>st. case c st of Some y \<Rightarrow> f y st | None \<Rightarrow> g st) Q"
  using assms unfolding keeps_def by (auto split: option.splits)

lemma keeps_sum:
  assumes "\<And>x. keeps E P (f x) Q"
  shows "keeps E P (\<lambda>st. case c st of Inl e \<Rightarrow> (st, Inl e) | Inr x \<Rightarrow> f x st) Q"
  using assms unfolding keeps_def by (auto split: sum.splits)

lemma keeps_if: "keeps E P f Q \<Longrightarrow> keeps E P g Q \<Longrightarrow> keeps E P (\<lambda>st. if c st then f st else g st) Q"
  unfolding keeps_def by auto

lemma keeps_begin: "keeps E (\<lambda>_. True) (begin_or_resume_run E' input config) (\<lambda>r st. has_run st (rr_run_id r))"
proof -
  have found: "store_ok E st \<Longrightarrow> latest_run_row st = Some r \<Longrightarrow> has_run st (rr_run_id r)" for st r
    by (auto simp: store_ok_def latest_run_row_last last_opt_def has_run_def split: if_splits)
  have insert: "keeps E (\<lambda>st. rr_sequence r = next_sequence st) (op_bind (insert_run r) (\<lambda>_ st. (st, Inr r))) (\<lambda>r st. has_run st (rr_run_id r))"
    for r by (rule keeps_bind [OF keeps_insert_run]) (simp add: keeps_def)
  have fresh: "keeps E P (\<lambda>st. op_bind (insert_run (F st)) (\<lambda>_ st1. (st1, Inr (F st))) st) (\<lambda>r st. has_run st (rr_run_id r))"
    if "\<And>st. rr_sequence (F st) = next_sequence st" for F P
    using insert that by (simp add: keeps_def)
  show ?thesis
    unfolding begin_or_resume_run_def Let_def
    by (rule keeps_sum, rule keeps_option, rule keeps_if) (simp add: keeps_def found, (rule fresh, simp)+)
qed

lemma keeps_optional: "keeps E P (optional_object E b) (\<lambda>obj st. (b \<noteq> None \<longrightarrow> obj \<noteq> None) \<and>
    (case obj of None \<Rightarrow> True | Some d \<Rightarrow> stored st d))"
proof (cases b)
  case (Some c)
  show ?thesis unfolding optional_object_def Some option.case
    by (rule keeps_first_put, rule keeps_stay) auto
qed (simp add: optional_object_def keeps_def stay_def)

lemma keeps_register: "keeps E (\<lambda>_. True) (register_task E C run stage key request) (\<lambda>_ _. True)"
proof -
  have new: "keeps E (\<lambda>st. stored st obj) (op_bind (insert_task \<lparr>tk_task_id = task, tk_run_id = run, tk_stage = stage_str stage,
       tk_cache_key = k, tk_request_object = obj\<rparr>) (\<lambda>_. stay f)) (\<lambda>_ _. True)" for obj task run k f
    by (rule keeps_bind [OF keeps_strengthen [OF keeps_insert_task, where Q' = "\<lambda>_ _. True"] keeps_final_stay]) auto
  have "keeps E (\<lambda>st. stored st obj) (\<lambda>st1. case find_task st1 run k of
           Some task \<Rightarrow> (st1, bind_res (task_state_of st1 task) (\<lambda>t.
             if ts_request_object t \<noteq> obj then invalid_project ''task cache key is stale for its request bytes'' else Inr t))
         | None \<Rightarrow> op_bind (insert_task \<lparr>tk_task_id = task, tk_run_id = run, tk_stage = stage_str stage, tk_cache_key = k,
                tk_request_object = obj\<rparr>) (\<lambda>_. stay (\<lambda>st2. task_state_of st2 task)) st1) (\<lambda>_ _. True)" for obj run k task
    by (rule keeps_option [OF _ keeps_strengthen [OF new]]) (simp_all add: keeps_def)
  then show ?thesis
    unfolding register_task_def Let_def by (intro keeps_sum keeps_first_put)
qed

lemma keeps_status: "keeps E (\<lambda>_. True) (append_task_status E task status response error) (\<lambda>_ _. True)"
  unfolding append_task_status_def
proof (rule keeps_first_check)
  fix u
  assume "seq_checks [
       reject (status = TaskComplete \<and> (response = None \<or> error \<noteq> None))
         (InvalidProject ''a complete task requires one response and no error''),
       reject ((status = TaskFailed \<or> status = TaskCancelled) \<and> error = None)
         (InvalidProject ''failed/cancelled task events require an error kind'')] = Inr u"
  then have response: "status = TaskComplete \<Longrightarrow> response \<noteq> None" by (auto simp: reject_def split: if_splits)
  have "keeps E (\<lambda>st. (response \<noteq> None \<longrightarrow> obj \<noteq> None) \<and> (case obj of None \<Rightarrow> True | Some d \<Rightarrow> stored st d))
      (insert_row (\<lambda>st. has_task st task) (\<lambda>st. st\<lparr>st_events := st_events st @ [\<lparr>te_task_id = task,
        te_status = status_str status, te_response_object = obj, te_error_kind = error\<rparr>]\<rparr>)) (\<lambda>_ _. True)" for obj
  proof (cases "response \<noteq> None \<longrightarrow> obj \<noteq> None")
    case True
    with response show ?thesis by (intro keeps_strengthen [OF keeps_event]) auto
  qed (simp add: keeps_def)
  then show "keeps E (\<lambda>_. True) (op_bind (optional_object E response) (\<lambda>obj.
     op_bind (insert_row (\<lambda>st. has_task st task) (\<lambda>st. st\<lparr>st_events := st_events st @ [\<lparr>te_task_id = task,
        te_status = status_str status, te_response_object = obj, te_error_kind = error\<rparr>]\<rparr>)) (\<lambda>_.
     stay (\<lambda>st. task_state_of st task)))) (\<lambda>_ _. True)"
    by (intro keeps_bind [OF keeps_optional] keeps_then keeps_final_stay)
qed

lemmas keeps_rows = keeps_exchange keeps_revision keeps_approval keeps_plan keeps_output keeps_feedback

lemma keeps_journal:
  "keeps E (\<lambda>_. True) (record_exchange E run task recording) (\<lambda>_ _. True)"
  "keeps E (\<lambda>_. True) (append_cluster_revision E run cluster hash b) (\<lambda>_ _. True)"
  "keeps E (\<lambda>_. True) (append_approval E run kind target hash b) (\<lambda>_ _. True)"
  "keeps E (\<lambda>_. True) (append_cluster_regeneration E r) (\<lambda>_ _. True)"
  "keeps E (\<lambda>_. True) (store_approved_integration_plan E run plan) (\<lambda>_ _. True)"
  "keeps E (\<lambda>_. True) (record_verified_output E C path m) (\<lambda>_ _. True)"
  unfolding record_exchange_def append_cluster_revision_def append_approval_def append_cluster_regeneration_def
    store_approved_integration_plan_def record_verified_output_def Let_def
  by (rule keeps_first_stay keeps_first_put keeps_final_stay keeps_rows keeps_then)+

lemma keeps_seal: "keeps E (\<lambda>_. True) (seal_latest_integration_plan E C) (\<lambda>_ _. True)"
proof -
  have seal: "keeps E (\<lambda>_. True) (op_bind (stay (recording_hashes E run)) (\<lambda>hs.
      op_bind (stay (\<lambda>_. from_core (seal_plan E corpus taxonomy approval vs hs))) (\<lambda>plan.
      op_bind (store_approved_integration_plan E run plan) (\<lambda>_. stay (\<lambda>_. Inr (Some plan)))))) (\<lambda>_ _. True)"
    for run corpus taxonomy approval vs
    by (intro keeps_first_stay keeps_then keeps_final_stay keeps_journal)
  have "store_ok E st \<Longrightarrow> case seal_latest_integration_plan E C st of (st1, r) \<Rightarrow> store_ok E st1 \<and> extends st st1" for st
    unfolding seal_latest_integration_plan_def Let_def
    by (use seal in \<open>simp add: keeps_def split: sum.split option.split\<close>)
  then show ?thesis by (auto simp: keeps_def)
qed

section \<open>The configuration\<close>

lemma manifest_fields [simp]:
  "store_ok E (st\<lparr>st_project_events := evs\<rparr>) = store_ok E st" "store_ok E (st\<lparr>st_locked := b\<rparr>) = store_ok E st"
  by (simp_all add: unfold_rows cong: option.case_cong)

lemma locked_extends [simp]:
  "extends (st\<lparr>st_locked := b\<rparr>) st1 = extends st st1" "extends st (st1\<lparr>st_locked := b\<rparr>) = extends st st1"
  by (simp_all add: extends_def)

lemma keeps_lock: "keeps E (\<lambda>_. True) f (\<lambda>_ _. True) \<Longrightarrow> keeps E P (with_lock f) (\<lambda>_ _. True)"
  unfolding keeps_def with_lock_def by (auto split: prod.splits) (metis locked_extends(1) manifest_fields(2))+

lemma keeps_manifest:
  assumes "validate_manifest m = Inr ()"
  shows "keeps E P (op_bind (save_manifest fault m) (\<lambda>_ st. (st\<lparr>st_manifest := m\<rparr>, Inr ()))) (\<lambda>_ _. True)"
proof -
  have "store_ok E st \<Longrightarrow> store_ok E (st\<lparr>st_saved := m, st_manifest := m\<rparr>) \<and> extends st (st\<lparr>st_saved := m, st_manifest := m\<rparr>)
      \<and> store_ok E (st\<lparr>st_saved := m\<rparr>) \<and> extends st (st\<lparr>st_saved := m\<rparr>)" for st
    using assms by (simp add: unfold_rows extends_def cong: option.case_cong)
  then show ?thesis by (auto simp: keeps_def op_bind_def save_manifest_def split: option.split manifest_fault.split)
qed

lemma keeps_invalidate: "keeps E P (invalidate_downstream E C m reason) (\<lambda>_ _. True)"
  unfolding keeps_def
proof (intro allI impI)
  fix st assume ok: "store_ok E st"
  let ?st = "st\<lparr>st_project_events := st_project_events st @ [(''source_invalidation'', reason)]\<rparr>"
  have event: "store_ok E ?st" "extends st ?st" using ok by (simp_all add: extends_def)
  have next_same: "next_sequence ?st = next_sequence st" by (simp add: next_sequence_def latest_run_row_def)
  have "store_ok E st1 \<and> extends st st1"
    if "insert_run (placeholder_run E i c (next_sequence st)) ?st = (st1, r)" for i c st1 r
    using keepsD [OF keeps_insert_run event(1) _ that] event(2) by (auto simp: placeholder_run_def next_same intro: extends_trans)
  then show "case invalidate_downstream E C m reason st of (st1, r) \<Rightarrow> store_ok E st1 \<and> extends st st1 \<and> (\<forall>x. r = Inr x \<longrightarrow> True)"
    using ok event by (auto simp: invalidate_downstream_def Let_def split: option.split prod.split sum.split)
qed

lemma keeps_commit: "keeps E P (commit_configuration E C fault m reason) (\<lambda>_ _. True)"
  unfolding commit_configuration_def
  by (rule keeps_first_check, rule keeps_then, rule keeps_invalidate, rule keeps_manifest) simp

lemma store_ok_source_set:
  assumes "store_ok E st" "has_run st (sr_run_id x)" "stored st (sr_object_id x)"
  shows "store_ok E (st\<lparr>st_source_sets := st_source_sets st @ [x]\<rparr>)"
  using assms
  by - (rule store_ok_more_rows [where st = st and run = "sr_run_id x" and d = "sr_object_id x"],
    auto simp: references_def store_ok_exchange_task)

lemma keeps_record_sources: "keeps E (\<lambda>st. stored st obj) (record_sources E C m obj) (\<lambda>_ _. True)"
  unfolding keeps_def
proof (intro allI impI)
  fix st assume ok: "store_ok E st" and obj: "stored st obj"
  let ?run = "placeholder_run E (domain_digest E (domain ''okc:source-set:v3'') (sources_bytes C (mn_sources m)))
    (config_hash_of E C m) (next_sequence st)"
  obtain st1 r where insert: "insert_run ?run st = (st1, r)" by (cases "insert_run ?run st")
  have first: "store_ok E st1 \<and> extends st st1 \<and> (\<forall>x. r = Inr x \<longrightarrow> has_run st1 (rr_run_id ?run))"
    using keepsD [OF keeps_insert_run ok _ insert] by (simp add: placeholder_run_def)
  show "case record_sources E C m obj st of (st1, r) \<Rightarrow> store_ok E st1 \<and> extends st st1 \<and> (\<forall>x. r = Inr x \<longrightarrow> True)"
  proof (cases r)
    case (Inr x)
    let ?row = "\<lparr>sr_revision_hash = rr_input_hash ?run, sr_object_id = obj, sr_run_id = rr_run_id ?run\<rparr>"
    let ?st = "st1\<lparr>st_source_sets := st_source_sets st1 @ [?row],
      st_project_events := st_project_events st1 @ [(''source_invalidation'', ''active source set replaced'')]\<rparr>"
    have "stored st1 obj" using first obj by (auto simp: stored_def extends_def)
    moreover have "store_ok E st1" "has_run st1 (rr_run_id ?run)" using first Inr by simp_all
    ultimately have "store_ok E ?st" by (simp add: store_ok_source_set)
    moreover have "extends st1 ?st" by (simp add: extends_def)
    moreover have "extends st st1" using first by simp
    ultimately have "store_ok E ?st \<and> extends st ?st" by (blast intro: extends_trans)
    moreover have "record_sources E C m obj st = (?st, Inr ())"
      using insert Inr by (simp add: record_sources_def Let_def placeholder_run_def)
    ultimately show ?thesis by simp
  qed (use insert ok in \<open>simp add: record_sources_def Let_def\<close>)
qed

lemma keeps_replace_locked: "keeps E P (replace_sources_locked E C fault sources) (\<lambda>_ _. True)"
proof -
  have change: "keeps E P (op_bind (stay (\<lambda>_. validate_manifest m)) (\<lambda>_. op_bind (put_object E (sources_bytes C sources)) (\<lambda>obj.
      op_bind (record_sources E C m obj) (\<lambda>_. op_bind (save_manifest fault m) (\<lambda>_ st1. (st1\<lparr>st_manifest := m\<rparr>, Inr ())))))) (\<lambda>_ _. True)"
    for m P
    by (rule keeps_first_check, rule keeps_first_put, rule keeps_then, rule keeps_record_sources, rule keeps_manifest) simp
  show ?thesis
    unfolding replace_sources_locked_def Let_def
    by (rule keeps_first_stay, rule keeps_if) (use change in \<open>simp_all add: keeps_def\<close>)
qed

lemma keeps_configuration:
  "keeps E (\<lambda>_. True) (set_language E C fault language) (\<lambda>_ _. True)"
  "keeps E (\<lambda>_. True) (set_ai_route E C fault role p) (\<lambda>_ _. True)"
  "keeps E (\<lambda>_. True) (replace_sources E C fault select sources) (\<lambda>_ _. True)"
  "keeps E (\<lambda>_. True) (add_source E C fault select b) (\<lambda>_ _. True)"
  "keeps E (\<lambda>_. True) (rebind_source E C fault select i path snapshot) (\<lambda>_ _. True)"
  "keeps E (\<lambda>_. True) reopen (\<lambda>_ _. True)"
proof -
  have commit: "store_ok E st \<Longrightarrow> case commit_configuration E C fault m reason st of (st1, r) \<Rightarrow> store_ok E st1 \<and> extends st st1"
    for m reason st using keeps_commit [of E "\<lambda>_. True" C fault m reason] by (simp add: keeps_def case_prod_beta)
  show "keeps E (\<lambda>_. True) (set_language E C fault language) (\<lambda>_ _. True)"
    unfolding set_language_def
    by (rule keeps_lock) (use commit in \<open>auto simp: keeps_def split: sum.split\<close>)
  show "keeps E (\<lambda>_. True) (set_ai_route E C fault role p) (\<lambda>_ _. True)"
    unfolding set_ai_route_def
    by (rule keeps_lock) (use commit in \<open>auto simp: keeps_def split: sum.split\<close>)
  show replace: "keeps E (\<lambda>_. True) (replace_sources E C fault select sources) (\<lambda>_ _. True)" for sources
    unfolding replace_sources_def by (rule keeps_lock, rule keeps_first_stay, rule keeps_replace_locked)
  show "keeps E (\<lambda>_. True) (add_source E C fault select b) (\<lambda>_ _. True)"
    using replace by (auto simp: keeps_def add_source_def Let_def)
  show "keeps E (\<lambda>_. True) (rebind_source E C fault select i path snapshot) (\<lambda>_ _. True)"
    using replace by (auto simp: keeps_def rebind_source_def Let_def split: option.split)
  have "validate_manifest (st_saved st) = Inr u \<Longrightarrow> store_ok E st \<Longrightarrow> store_ok E (st\<lparr>st_manifest := st_saved st\<rparr>)" for st u
    by (simp add: unfold_rows cong: option.case_cong)
  then show "keeps E (\<lambda>_. True) reopen (\<lambda>_ _. True)"
    by (auto simp: keeps_def reopen_def extends_def split: sum.split)
qed

section \<open>Histories\<close>

text \<open>One call of the store, whatever its arguments and its outcome.\<close>

inductive journal_step :: "externs \<Rightarrow> app_codec \<Rightarrow> store \<Rightarrow> store \<Rightarrow> bool" for E C where
  "begin_or_resume_run E input config st = (st1, r) \<Longrightarrow> journal_step E C st st1"
| "register_task E C run stage key request st = (st1, r) \<Longrightarrow> journal_step E C st st1"
| "append_task_status E task status response error st = (st1, r) \<Longrightarrow> journal_step E C st st1"
| "record_exchange E run task recording st = (st1, r) \<Longrightarrow> journal_step E C st st1"
| "append_cluster_revision E run cluster hash b st = (st1, r) \<Longrightarrow> journal_step E C st st1"
| "append_approval E run kind target hash b st = (st1, r) \<Longrightarrow> journal_step E C st st1"
| "append_cluster_regeneration E g st = (st1, r) \<Longrightarrow> journal_step E C st st1"
| "store_approved_integration_plan E run plan st = (st1, r) \<Longrightarrow> journal_step E C st st1"
| "seal_latest_integration_plan E C st = (st1, r) \<Longrightarrow> journal_step E C st st1"
| "record_verified_output E C path m st = (st1, r) \<Longrightarrow> journal_step E C st st1"
| "set_language E C fault language st = (st1, r) \<Longrightarrow> journal_step E C st st1"
| "set_ai_route E C fault role p st = (st1, r) \<Longrightarrow> journal_step E C st st1"
| "replace_sources E C fault select sources st = (st1, r) \<Longrightarrow> journal_step E C st st1"
| "add_source E C fault select binding st = (st1, r) \<Longrightarrow> journal_step E C st st1"
| "rebind_source E C fault select i path snapshot st = (st1, r) \<Longrightarrow> journal_step E C st st1"
| "reopen st = (st1, r) \<Longrightarrow> journal_step E C st st1"

lemma journal_step_keeps: "journal_step E C st st1 \<Longrightarrow> store_ok E st \<Longrightarrow> store_ok E st1 \<and> extends st st1"
  by (induction rule: journal_step.induct)
     (auto dest: keepsD [OF keeps_begin] keepsD [OF keeps_register] keepsD [OF keeps_status] keepsD [OF keeps_journal(1)]
       keepsD [OF keeps_journal(2)] keepsD [OF keeps_journal(3)] keepsD [OF keeps_journal(4)] keepsD [OF keeps_journal(5)]
       keepsD [OF keeps_journal(6)] keepsD [OF keeps_seal] keepsD [OF keeps_configuration(1)] keepsD [OF keeps_configuration(2)]
       keepsD [OF keeps_configuration(3)] keepsD [OF keeps_configuration(4)] keepsD [OF keeps_configuration(5)]
       keepsD [OF keeps_configuration(6)])

lemma create_store_ok: "create_store dir name curator policy = Inr st \<Longrightarrow> store_ok E st"
  by (auto simp: create_store_def Let_def and_then_def reject_def store_ok_def objects_ok_def runs_ok_def tasks_ok_def manifests_ok_def
    references_def btree_ok_def btree_get_def split: if_splits sum.splits)

lemma histories_keep:
  assumes "(journal_step E C)\<^sup>*\<^sup>* st st1" "store_ok E st"
  shows "store_ok E st1 \<and> extends st st1"
  using assms by (induction rule: rtranclp_induct) (auto dest: journal_step_keeps intro: extends_trans)

text \<open>C16: Whatever calls a project has seen since it was created, its journal is consistent: every object
  is stored under its digest, every row refers to a run and to objects that are there, runs are numbered
  upwards, every task has a state and a complete one has a response, and both manifests are valid. And a
  later journal only continues an earlier one: no row and no object is ever changed or removed.\<close>

theorem journal_is_consistent:
  assumes "create_store dir name curator policy = Inr st" "(journal_step E C)\<^sup>*\<^sup>* st st1" "(journal_step E C)\<^sup>*\<^sup>* st1 st2"
  shows "store_ok E st1 \<and> store_ok E st2 \<and> extends st1 st2"
  using histories_keep [OF assms(2) create_store_ok [OF assms(1)]] histories_keep [OF assms(3)] by blast

section \<open>Revocation\<close>

text \<open>Operations that leave the manifest alone, in memory and on disk.\<close>

definition framed :: "'a op \<Rightarrow> bool" where
  "framed m \<longleftrightarrow> (\<forall>st. st_manifest (fst (m st)) = st_manifest st \<and> st_saved (fst (m st)) = st_saved st)"

lemma framed_bind: "framed m \<Longrightarrow> (\<And>x. framed (f x)) \<Longrightarrow> framed (op_bind m f)"
  by (simp add: framed_def op_bind_def split: prod.split sum.split) (metis fst_conv)

lemma framedD: "framed m \<Longrightarrow> m st = (st1, r) \<Longrightarrow> st_manifest st1 = st_manifest st \<and> st_saved st1 = st_saved st"
  by (metis framed_def fst_conv)

lemma framed_stay: "framed (stay f)"
  by (simp add: framed_def stay_def)

lemma framed_put: "framed (put_object E b)"
  by (simp add: framed_def put_object_def Let_def split: option.split)

lemma framed_row: "(\<And>st. st_manifest (add st) = st_manifest st \<and> st_saved (add st) = st_saved st) \<Longrightarrow> framed (insert_row c add)"
  by (simp add: framed_def insert_row_def)

lemma framed_inserts: "framed (insert_run r)" "framed (insert_task t)"
  by (simp_all add: framed_def insert_run_def insert_task_def)

lemma framed_invalidate: "framed (invalidate_downstream E C m reason)"
  by (simp add: framed_def invalidate_downstream_def insert_run_def Let_def split: option.split)

lemma framed_record_sources: "framed (record_sources E C m obj)"
  by (simp add: framed_def record_sources_def insert_run_def Let_def)

lemma framed_optional: "framed (optional_object E b)"
  by (cases b) (auto simp: optional_object_def intro!: framed_bind framed_put framed_stay)

lemmas framed_rules = framed_bind framed_stay framed_put framed_inserts framed_optional

lemma framed_sum: "(\<And>x. framed (f x)) \<Longrightarrow> framed (\<lambda>st. case c st of Inl e \<Rightarrow> (st, Inl e) | Inr x \<Rightarrow> f x st)"
  by (simp add: framed_def split: sum.split)

lemma framed_option: "(\<And>y. framed (f y)) \<Longrightarrow> framed g \<Longrightarrow> framed (\<lambda>st. case c st of Some y \<Rightarrow> f y st | None \<Rightarrow> g st)"
  by (simp add: framed_def split: option.split)

lemma framed_if: "framed f \<Longrightarrow> framed g \<Longrightarrow> framed (\<lambda>st. if c st then f st else g st)"
  by (simp add: framed_def)

lemma framed_at: "(\<And>s. framed (f s)) \<Longrightarrow> framed (\<lambda>st. f st st)"
  by (simp add: framed_def)

lemma framed_journal:
  "framed (record_exchange E run task recording)"
  "framed (append_cluster_revision E run cluster hash b)"
  "framed (append_approval E run kind target hash b)"
  "framed (append_cluster_regeneration E g)"
  "framed (store_approved_integration_plan E run plan)"
  "framed (record_verified_output E C path m)"
  "framed (append_task_status E task status response error)"
  unfolding record_exchange_def append_cluster_revision_def append_approval_def append_cluster_regeneration_def
    store_approved_integration_plan_def record_verified_output_def append_task_status_def Let_def
  by (rule framed_rules framed_row | simp)+

lemma framed_runs_tasks:
  "framed (begin_or_resume_run E input config)"
  "framed (register_task E C run stage key request)"
proof -
  have fresh: "framed (\<lambda>st. op_bind (insert_run (F st)) (\<lambda>_ st1. (st1, Inr (F st))) st)" for F
    by (rule framed_at [where f = "\<lambda>s. op_bind (insert_run (F s)) (\<lambda>_ st1. (st1, Inr (F s)))"], rule framed_bind)
       (simp_all add: framed_inserts framed_def [of "\<lambda>st1. (st1, y)" for y])
  show "framed (begin_or_resume_run E input config)"
    unfolding begin_or_resume_run_def Let_def
    by (rule framed_sum, rule framed_option, rule framed_if) (simp add: framed_def, (rule fresh)+)
  show "framed (register_task E C run stage key request)"
    unfolding register_task_def Let_def
    by (rule framed_sum, rule framed_bind, rule framed_put, rule framed_option)
       (simp add: framed_def, rule framed_bind, rule framed_inserts, rule framed_stay)
qed

lemma framed_seal: "framed (seal_latest_integration_plan E C)"
proof -
  have "framed (op_bind (stay (recording_hashes E run)) (\<lambda>hs.
      op_bind (stay (\<lambda>_. from_core (seal_plan E corpus taxonomy approval vs hs))) (\<lambda>plan.
      op_bind (store_approved_integration_plan E run plan) (\<lambda>_. stay (\<lambda>_. Inr (Some plan))))))"
    for run corpus taxonomy approval vs
    by (intro framed_bind framed_stay framed_journal)
  then show ?thesis
    unfolding framed_def seal_latest_integration_plan_def Let_def by (simp split: sum.split option.split)
qed

text \<open>No plan of the latest run is in force, and no output.\<close>

definition revoked :: "externs \<Rightarrow> app_codec \<Rightarrow> store \<Rightarrow> bool" where
  "revoked E C st \<longleftrightarrow> latest_approved_integration_plan E C st = Inr None \<and> latest_verified_output E C st = Inr None"

text \<open>What a plan depends on.\<close>

lemma reads_same:
  assumes "st_objects st1 = st_objects st" "st_runs st1 = st_runs st" "st_plans st1 = st_plans st" "st_approvals st1 = st_approvals st"
    "st_feedback st1 = st_feedback st" "st_outputs st1 = st_outputs st"
  shows "latest_approved_integration_plan E C st1 = latest_approved_integration_plan E C st"
    and "latest_verified_output E C st1 = latest_verified_output E C st"
proof -
  have run: "latest_run_row st1 = latest_run_row st" by (simp add: latest_run_row_def assms)
  have object: "read_object E d st1 = read_object E d st" for d by (simp add: read_object_def assms)
  have approval: "latest_approval E f run k t st1 = latest_approval E f run k t st" for run k t and f :: "bytes \<Rightarrow> 'b option"
    by (simp add: latest_approval_def parsed_object_def object assms split: option.split)
  have feedback: "latest_cluster_regeneration E C run c st1 = latest_cluster_regeneration E C run c st" for run c
    by (simp add: latest_cluster_regeneration_def parsed_object_def object assms split: option.split)
  have revision: "revision_is_current E C run st1 = revision_is_current E C run st" for run
    by (simp add: revision_is_current_def fun_eq_iff approval feedback cong: option.case_cong if_cong)
  have plan: "integration_plan_is_current E C run p st1 = integration_plan_is_current E C run p st" for run p
    by (simp add: integration_plan_is_current_def approval revision cong: option.case_cong if_cong)
  show approved: "latest_approved_integration_plan E C st1 = latest_approved_integration_plan E C st"
    by (simp add: latest_approved_integration_plan_def run object plan assms cong: option.case_cong)
  show "latest_verified_output E C st1 = latest_verified_output E C st"
    by (simp add: latest_verified_output_def approved assms run cong: option.case_cong)
qed

lemma revoked_fields [simp]:
  "revoked E C (st\<lparr>st_saved := m\<rparr>) = revoked E C st" "revoked E C (st\<lparr>st_manifest := m\<rparr>) = revoked E C st"
  "revoked E C (st\<lparr>st_locked := l\<rparr>) = revoked E C st" "revoked E C (st\<lparr>st_source_sets := x\<rparr>) = revoked E C st"
  "revoked E C (st\<lparr>st_project_events := y\<rparr>) = revoked E C st"
  by (simp_all add: revoked_def reads_same [of "st\<lparr>st_saved := m\<rparr>" st] reads_same [of "st\<lparr>st_manifest := m\<rparr>" st]
    reads_same [of "st\<lparr>st_locked := l\<rparr>" st] reads_same [of "st\<lparr>st_source_sets := x\<rparr>" st] reads_same [of "st\<lparr>st_project_events := y\<rparr>" st])

lemma revoked_no_plans:
  assumes "\<And>r. latest_run_row st = Some r \<Longrightarrow> rr_run_id r \<notin> pw_run_id ` set (st_plans st)"
  shows "revoked E C st"
proof -
  have "latest_approved_integration_plan E C st = Inr None"
  proof (cases "latest_run_row st")
    case (Some r)
    have "filter (\<lambda>p. pw_run_id p = rr_run_id r) (st_plans st) = []" using assms [OF Some] by (force simp: filter_empty_conv)
    then show ?thesis by (simp add: latest_approved_integration_plan_def Some last_opt_def)
  qed (simp add: latest_approved_integration_plan_def)
  then show ?thesis by (simp add: revoked_def latest_verified_output_def bind_res_def)
qed

lemma revoked_run:
  assumes "store_ok E st" "rr_sequence r = next_sequence st" "insert_run r st = (st1, Inr u)"
  shows "revoked E C st1"
proof -
  have st1: "st1 = st\<lparr>st_runs := st_runs st @ [r]\<rparr>" and new: "rr_run_id r \<notin> rr_run_id ` set (st_runs st)"
    using assms(3) by (auto simp: insert_run_def split: if_splits)
  have "runs_ok st1" using keepsD [OF keeps_insert_run assms(1,2,3)] by (simp add: store_ok_def)
  then have last: "latest_run_row st1 = Some r" by (simp add: latest_run_row_last st1 last_opt_def)
  have "pw_run_id p \<in> rr_run_id ` set (st_runs st)" if "p \<in> set (st_plans st)" for p
    using assms(1) that by (fastforce simp: store_ok_def references_def has_run_def)
  then have none: "rr_run_id r \<notin> pw_run_id ` set (st_plans st1)" using new by (auto simp: st1)
  show ?thesis by (rule revoked_no_plans) (use last none in simp)
qed

section \<open>Calls that change the configuration\<close>

text \<open>The configuration calls of a project, each with its arguments.\<close>

datatype config_call = SetLanguage "string option" | SetAiRoute "ai_role option" string
  | ReplaceSources "source_binding list \<Rightarrow> source_binding list app" "source_binding list"
  | AddSource "source_binding list \<Rightarrow> source_binding list app" source_binding
  | RebindSource "source_binding list \<Rightarrow> source_binding list app" source_id string "string option"

fun configure :: "externs \<Rightarrow> app_codec \<Rightarrow> manifest_fault option \<Rightarrow> config_call \<Rightarrow> unit op" where
  "configure E C fault (SetLanguage language) = set_language E C fault language"
| "configure E C fault (SetAiRoute role p) = set_ai_route E C fault role p"
| "configure E C fault (ReplaceSources select sources) = replace_sources E C fault select sources"
| "configure E C fault (AddSource select b) = add_source E C fault select b"
| "configure E C fault (RebindSource select i path snapshot) = rebind_source E C fault select i path snapshot"

fun fault_error :: "manifest_fault \<Rightarrow> app_error" where
  "fault_error (ReplaceFault e) = e"
| "fault_error (ProtectFault e) = e"

text \<open>
  What a call that would lead from \<open>st\<close> to \<open>st1\<close> leaves when the manifest is not written: the journal of
  \<open>st1\<close>, the old manifest in memory, and on disk the old one unless only its protection failed.
\<close>

definition interrupted :: "manifest_fault \<Rightarrow> store \<Rightarrow> store \<Rightarrow> store" where
  "interrupted f st st1 = st1\<lparr>st_manifest := st_manifest st,
     st_saved := (case f of ReplaceFault e \<Rightarrow> st_saved st | ProtectFault e \<Rightarrow> st_manifest st1)\<rparr>"

text \<open>
  A call may change the manifest only when it succeeds and leaves nothing in force, and then it writes
  the manifest last; a call that does not change it does not write it.
\<close>

definition careful :: "externs \<Rightarrow> app_codec \<Rightarrow> (manifest_fault option \<Rightarrow> unit op) \<Rightarrow> store \<Rightarrow> bool" where
  "careful E C g st \<longleftrightarrow> (case g None st of (st1, r) \<Rightarrow>
     if st_manifest st1 \<noteq> st_manifest st
     then r = Inr () \<and> st_saved st1 = st_manifest st1 \<and> revoked E C st1 \<and>
       (\<forall>f. g (Some f) st = (interrupted f st st1, Inl (fault_error f)))
     else st_saved st1 = st_saved st \<and> ((\<exists>e. r = Inl e) \<or> st1 = st) \<and> (\<forall>f. g (Some f) st = (st1, r)))"

lemma careful_at: "(\<And>fault. g fault st = h fault st) \<Longrightarrow> careful E C g st = careful E C h st"
  by (simp add: careful_def)

lemma careful_stay: "careful E C (\<lambda>fault st. (st, r)) st"
  by (simp add: careful_def)

lemma careful_write:
  assumes h: "h st = (st1, r :: unit app)" "st_manifest st1 = st_manifest st" "st_saved st1 = st_saved st"
    and "r = Inr () \<Longrightarrow> revoked E C st1" "m \<noteq> st_manifest st"
  shows "careful E C (\<lambda>fault. op_bind h (\<lambda>_. op_bind (save_manifest fault m) (\<lambda>_ st. (st\<lparr>st_manifest := m\<rparr>, Inr ())))) st"
  using assms by (cases r) (auto simp: careful_def op_bind_def save_manifest_def interrupted_def split: manifest_fault.split)

lemma careful_lock:
  assumes "careful E C f (st\<lparr>st_locked := True\<rparr>)"
  shows "careful E C (\<lambda>fault. with_lock (f fault)) st"
proof (cases "st_locked st")
  case False
  obtain st1 r where f: "f None (st\<lparr>st_locked := True\<rparr>) = (st1, r)" by (cases "f None (st\<lparr>st_locked := True\<rparr>)")
  have "interrupted x (st\<lparr>st_locked := True\<rparr>) st1\<lparr>st_locked := False\<rparr> = interrupted x st (st1\<lparr>st_locked := False\<rparr>)" for x
    by (simp add: interrupted_def split: manifest_fault.split)
  then show ?thesis using assms f False by (auto simp: careful_def with_lock_def split: if_splits)
qed (simp add: careful_def with_lock_def)

lemma invalidate_revokes:
  assumes ok: "store_ok E st" and inv: "invalidate_downstream E C m reason st = (st1, Inr u)"
  shows "revoked E C st1"
proof -
  let ?st = "st\<lparr>st_project_events := st_project_events st @ [(''source_invalidation'', reason)]\<rparr>"
  have same: "next_sequence ?st = next_sequence st" "latest_run_row ?st = latest_run_row st"
    by (simp_all add: next_sequence_def latest_run_row_def)
  consider "latest_run_row st = None" | r where "latest_run_row st = Some r" "\<not> has_work st (rr_run_id r)"
    | r where "latest_run_row st = Some r" "has_work st (rr_run_id r)" by (cases "latest_run_row st") auto
  then show ?thesis
  proof cases
    case 3
    let ?run = "placeholder_run E (rr_input_hash r) (config_hash_of E C m) (next_sequence st)"
    have "insert_run ?run ?st = (st1, Inr u)"
      using inv 3 by (auto simp: invalidate_downstream_def Let_def split: prod.splits sum.splits)
    moreover have "rr_sequence ?run = next_sequence ?st" by (simp add: placeholder_run_def same)
    ultimately show ?thesis using revoked_run ok by (metis manifest_fields(1))
  qed (use inv in \<open>auto simp: invalidate_downstream_def Let_def latest_run_row_def has_work_def intro!: revoked_no_plans\<close>)
qed

lemma record_revokes:
  assumes ok: "store_ok E st" and rec: "record_sources E C m obj st = (st1, Inr u)"
  shows "revoked E C st1"
proof -
  let ?run = "placeholder_run E (domain_digest E (domain ''okc:source-set:v3'') (sources_bytes C (mn_sources m)))
    (config_hash_of E C m) (next_sequence st)"
  obtain st2 a b where run: "insert_run ?run st = (st2, Inr ())" and st1: "st1 = st2\<lparr>st_source_sets := a, st_project_events := b\<rparr>"
    using rec by (auto simp: record_sources_def Let_def split: prod.splits sum.splits)
  have "revoked E C st2" by (rule revoked_run [OF ok _ run]) (simp add: placeholder_run_def)
  then show ?thesis by (simp add: st1)
qed

lemma bind_stay: "op_bind (stay f) g st = (case f st of Inl e \<Rightarrow> (st, Inl e) | Inr x \<Rightarrow> g x st)"
  by (simp add: op_bind_def stay_def)

lemma bind_assoc: "op_bind (op_bind a b) c = op_bind a (\<lambda>x. op_bind (b x) c)"
  by (auto simp: op_bind_def fun_eq_iff split: prod.split sum.split)

lemma commit_careful:
  assumes "store_ok E st" "m \<noteq> st_manifest st"
  shows "careful E C (\<lambda>fault. commit_configuration E C fault m reason) st"
proof -
  let ?h = "op_bind (stay (\<lambda>_. validate_manifest m)) (\<lambda>_. invalidate_downstream E C m reason)"
  obtain st1 r where h: "?h st = (st1, r)" by (cases "?h st")
  have "st_manifest st1 = st_manifest st" "st_saved st1 = st_saved st" "r = Inr () \<Longrightarrow> revoked E C st1"
    using h framedD [OF framed_invalidate] invalidate_revokes [OF assms(1)]
    by (cases "validate_manifest m"; force simp: op_bind_def stay_def)+
  from careful_write [where h = ?h and st = st and m = m, OF h this assms(2)] show ?thesis by (simp add: commit_configuration_def bind_assoc)
qed

lemma same_binding_refl: "list_all2 same_binding xs xs"
  by (simp add: list_all2_same same_binding_def)

lemma replace_careful:
  assumes "store_ok E st"
  shows "careful E C (\<lambda>fault. replace_sources_locked E C fault sources) st"
proof (cases "list_ex (\<lambda>b. paths_overlap (st_root st) (bd_path b)) sources \<or> list_all2 same_binding (mn_sources (st_manifest st)) sources")
  case True
  show ?thesis
    by (rule careful_at [THEN iffD2, OF _ careful_stay
        [of E C "if list_ex (\<lambda>b. paths_overlap (st_root st) (bd_path b)) sources
           then Inl (InvalidProject ''project storage must be outside every immutable source'') else Inr ()"]])
      (use True in \<open>auto simp: replace_sources_locked_def op_bind_def stay_def reject_def\<close>)
next
  case False
  let ?m = "(st_manifest st)\<lparr>mn_sources := sources\<rparr>"
  let ?h = "op_bind (stay (\<lambda>_. validate_manifest ?m)) (\<lambda>_. op_bind (put_object E (sources_bytes C sources)) (\<lambda>obj. record_sources E C ?m obj))"
  have new: "?m \<noteq> st_manifest st"
  proof
    assume "?m = st_manifest st"
    then have "mn_sources (st_manifest st) = sources" by (metis project_manifest.select_convs(9) project_manifest.surjective project_manifest.update_convs(9))
    with False same_binding_refl show False by auto
  qed
  obtain st1 r where h: "?h st = (st1, r)" by (cases "?h st")
  obtain st2 r2 where put: "put_object E (sources_bytes C sources) st = (st2, r2)" by (cases "put_object E (sources_bytes C sources) st")
  have ok: "store_ok E st2" using keepsD [OF keeps_put [of E "\<lambda>_. True"] assms _ put] by simp
  have "st_manifest st1 = st_manifest st" "st_saved st1 = st_saved st" "r = Inr () \<Longrightarrow> revoked E C st1"
    using h put framedD [OF framed_put put] framedD [OF framed_record_sources] record_revokes [OF ok]
    by (cases "validate_manifest ?m"; cases r2; force simp: op_bind_def stay_def)+
  from careful_write [where h = ?h and st = st and m = ?m, OF h this new]
  have "careful E C (\<lambda>fault. op_bind ?h (\<lambda>_. op_bind (save_manifest fault ?m) (\<lambda>_ st. (st\<lparr>st_manifest := ?m\<rparr>, Inr ())))) st" .
  then show ?thesis
    by (rule careful_at [THEN iffD2, rotated])
      (use False in \<open>simp add: replace_sources_locked_def bind_assoc bind_stay reject_def Let_def\<close>)
qed

lemma careful_constant: "(\<And>fault. g fault st = (st, r)) \<Longrightarrow> careful E C g st"
  by (simp add: careful_def)

lemma found_careful:
  assumes "careful E C h st"
    and "\<And>fault. g fault st = (case x of None \<Rightarrow> (st, Inl e) | Some b \<Rightarrow> if same b then (st, Inr ()) else h fault st)"
  shows "careful E C g st"
proof (cases x)
  case (Some b)
  then show ?thesis
    using assms by (cases "same b") (auto intro: careful_constant simp: careful_at [where g = g and h = h])
qed (use assms in \<open>auto intro: careful_constant\<close>)

lemma guarded_careful:
  assumes ok: "store_ok E st"
    and g: "\<And>fault. g fault st = (case check of Inl e \<Rightarrow> (st, Inl e)
      | Inr x \<Rightarrow> if same x then (st, Inr ()) else commit_configuration E C fault (m x) reason st)"
    and new: "\<And>x. check = Inr x \<Longrightarrow> \<not> same x \<Longrightarrow> m x \<noteq> st_manifest st"
  shows "careful E C g st"
proof (cases check)
  case (Inr x)
  show ?thesis
  proof (cases "same x")
    case False
    show ?thesis by (rule careful_at [THEN iffD2, OF _ commit_careful [OF ok new [OF Inr False]]]) (simp add: g Inr False)
  qed (use g Inr in \<open>auto intro: careful_constant\<close>)
qed (use g in \<open>auto intro: careful_constant\<close>)

lemma sources_careful:
  assumes "store_ok E st"
  shows "careful E C (\<lambda>fault. replace_sources E C fault select sources) st"
  unfolding replace_sources_def
proof (rule careful_lock, cases "select sources")
  case (Inr xs)
  have "store_ok E (st\<lparr>st_locked := True\<rparr>)" using assms by simp
  from replace_careful [OF this]
  show "careful E C (\<lambda>fault. op_bind (stay (\<lambda>_. select sources)) (replace_sources_locked E C fault)) (st\<lparr>st_locked := True\<rparr>)"
    by (rule careful_at [THEN iffD2, rotated]) (simp add: op_bind_def stay_def Inr)
qed (auto simp: op_bind_def stay_def intro: careful_constant)

lemma configure_careful:
  assumes "store_ok E st"
  shows "careful E C (\<lambda>fault. configure E C fault call) st"
proof (cases call)
  case (SetLanguage language)
  have ok: "store_ok E (st\<lparr>st_locked := True\<rparr>)" using assms by simp
  have "(st_manifest st)\<lparr>mn_language := language\<rparr> \<noteq> st_manifest st" if "mn_language (st_manifest st) \<noteq> language"
    using that by (auto dest: arg_cong [where f = mn_language])
  then show ?thesis
    unfolding SetLanguage configure.simps set_language_def
    by (intro careful_lock, intro guarded_careful [OF ok, where check = "case language of None \<Rightarrow> Inr () | Some l \<Rightarrow> validate_bcp47 l" and same = "\<lambda>_. mn_language (st_manifest st) = language"
      and m = "\<lambda>_. (st_manifest st)\<lparr>mn_language := language\<rparr>" and reason = "''project language changed''"]) (auto split: sum.split)
next
  case (SetAiRoute role p)
  have ok: "store_ok E (st\<lparr>st_locked := True\<rparr>)" using assms by simp
  have "(st_manifest st)\<lparr>mn_ai_routes := routes\<rparr> \<noteq> st_manifest st" if "routes \<noteq> mn_ai_routes (st_manifest st)" for routes
    using that by (auto dest: arg_cong [where f = mn_ai_routes])
  then show ?thesis
    unfolding SetAiRoute configure.simps set_ai_route_def
    by (intro careful_lock, intro guarded_careful [OF ok, where check = "set_route role p (mn_ai_routes (st_manifest st))" and same = "\<lambda>routes. routes = mn_ai_routes (st_manifest st)"
      and m = "\<lambda>routes. (st_manifest st)\<lparr>mn_ai_routes := routes\<rparr>" and reason = "''AI route changed''"]) (auto split: sum.split)
next
  case (ReplaceSources select sources)
  then show ?thesis using sources_careful [OF assms] by simp
next
  case (AddSource select b)
  then show ?thesis
    using sources_careful [OF assms, of C select "mn_sources (st_manifest st) @ [b]"]
    by (simp add: careful_def add_source_def Let_def split: prod.splits)
next
  case (RebindSource select i path snapshot)
  let ?sources = "mn_sources (st_manifest st)"
  show ?thesis
    unfolding RebindSource configure.simps
    by (rule found_careful [OF sources_careful [OF assms, of C select "update_first (\<lambda>b. bd_source_id b = i)
          (\<lambda>b. b\<lparr>bd_path := path, bd_snapshot_id := snapshot\<rparr>) ?sources"], where x = "find (\<lambda>b. bd_source_id b = i) ?sources"
        and e = "InvalidProject (''unknown source '' @ [CHR 0x60] @ source_str i @ [CHR 0x60])"
        and same = "\<lambda>b. path_components (bd_path b) = path_components path \<and> bd_snapshot_id b = snapshot"])
      (simp add: rebind_source_def Let_def invalid_project_def cong: option.case_cong)
qed

text \<open>Every other call leaves the manifest alone, except for \<open>open\<close>.\<close>

lemmas frames = framed_runs_tasks [THEN framedD] framed_seal [THEN framedD] framed_journal [THEN framedD]

lemma step_kinds:
  assumes "journal_step E C st st1"
  obtains (Journal) "st_manifest st1 = st_manifest st" "st_saved st1 = st_saved st"
  | (Configure) fault call r where "configure E C fault call st = (st1, r)"
  | (Open) r where "reopen st = (st1, r)"
  using assms
proof cases
  case (11 fault language r)
  then show ?thesis using Configure [of fault "SetLanguage language" r] by simp
next
  case (12 fault role p r)
  then show ?thesis using Configure [of fault "SetAiRoute role p" r] by simp
next
  case (13 fault select sources r)
  then show ?thesis using Configure [of fault "ReplaceSources select sources" r] by simp
next
  case (14 fault select b r)
  then show ?thesis using Configure [of fault "AddSource select b" r] by simp
next
  case (15 fault select i path snapshot r)
  then show ?thesis using Configure [of fault "RebindSource select i path snapshot" r] by simp
qed (erule Open | (drule frames, rule Journal; simp))+

lemma careful_cases:
  assumes "careful E C g st" "g fault st = (st1, r)"
  shows "st_manifest st1 \<noteq> st_manifest st \<Longrightarrow> revoked E C st1 \<and> st_saved st1 = st_manifest st1"
    and "st_saved st1 \<noteq> st_saved st \<Longrightarrow> revoked E C st1"
  using assms by (cases fault; auto simp: careful_def interrupted_def split: prod.splits if_splits manifest_fault.splits)+

text \<open>C15: A change of the configuration revokes authority. In every project, whatever it has been through, a call
  after which the manifest in memory is another one leaves no approved plan and no verified output in force, and so
  does a call after which the manifest on disk is another one; both manifests stay valid. The one exception is
  \<open>open\<close> in a project whose manifest on disk is not the one in memory, which adopts the one on disk and
  leaves in force whatever was. The two come apart only in a call that failed and left nothing in force; but
  between that call and \<open>open\<close> a plan may have been sealed under the old configuration.\<close>

theorem configuration_changes_revoke_authority:
  assumes "create_store dir name curator policy = Inr st" "(journal_step E C)\<^sup>*\<^sup>* st st1" "journal_step E C st1 st2"
  shows "(st_manifest st2 \<noteq> st_manifest st1 \<or> st_saved st2 \<noteq> st_saved st1 \<longrightarrow>
       latest_approved_integration_plan E C st2 = Inr None \<and> latest_verified_output E C st2 = Inr None
       \<or> reopen st1 = (st2, Inr ()) \<and> st_saved st1 \<noteq> st_manifest st1 \<and> st_manifest st2 = st_saved st1
         \<and> latest_approved_integration_plan E C st2 = latest_approved_integration_plan E C st1
         \<and> latest_verified_output E C st2 = latest_verified_output E C st1)
    \<and> (st_saved st1 = st_manifest st1 \<and> st_saved st2 \<noteq> st_manifest st2 \<longrightarrow>
       st_manifest st2 = st_manifest st1 \<and> latest_approved_integration_plan E C st2 = Inr None \<and> latest_verified_output E C st2 = Inr None)
    \<and> validate_manifest (st_manifest st2) = Inr () \<and> validate_manifest (st_saved st2) = Inr ()"
proof -
  have ok: "store_ok E st1" using histories_keep [OF assms(2) create_store_ok [OF assms(1)]] by simp
  then have "store_ok E st2" using journal_step_keeps [OF assms(3)] by simp
  then have valid: "validate_manifest (st_manifest st2) = Inr () \<and> validate_manifest (st_saved st2) = Inr ()"
    by (simp add: store_ok_def manifests_ok_def)
  from assms(3) show ?thesis
  proof (cases rule: step_kinds)
    case (Configure fault call r)
    note now = careful_cases [OF configure_careful [OF ok] Configure, unfolded revoked_def]
    then show ?thesis using valid by (cases "st_manifest st2 = st_manifest st1"; simp)
  next
    case (Open r)
    have same: "st2 = st1 \<or> reopen st1 = (st2, Inr ()) \<and> st2 = st1\<lparr>st_manifest := st_saved st1\<rparr>"
    proof (cases "validate_manifest (st_saved st1)")
      case (Inr u)
      then have "reopen st1 = (st1\<lparr>st_manifest := st_saved st1\<rparr>, Inr ())" by (simp add: reopen_def)
      with Open show ?thesis by simp
    qed (use Open in \<open>simp add: reopen_def\<close>)
    then have "latest_approved_integration_plan E C st2 = latest_approved_integration_plan E C st1"
      "latest_verified_output E C st2 = latest_verified_output E C st1"
      using reads_same [of st2 st1] by auto
    moreover have "st_manifest st2 = st_manifest st1 \<and> st_saved st2 = st_saved st1 \<or> reopen st1 = (st2, Inr ()) \<and>
        st_manifest st2 = st_saved st1 \<and> st_saved st2 = st_saved st1"
      using same by (elim disjE conjE) simp_all
    ultimately show ?thesis using valid by (cases "st_manifest st2 = st_manifest st1") (simp; metis)+
  qed (use valid in simp)
qed

text \<open>C20: A failed write of the manifest cannot leave an old plan with a new configuration. For each of the five calls
  that change the configuration, in every project: when the call would change the manifest and the write fails, the
  call fails with the error of the write and leaves exactly what it would have left otherwise, without the new
  manifest in memory, and without it on disk unless only its protection failed; no approved plan and no
  verified output are in force. When it would not change the manifest, nothing is written, and the call either
  has no effect at all or fails as it does without a fault, with the manifest on disk as it was.\<close>

theorem failed_manifest_writes_are_safe:
  assumes "create_store dir name curator policy = Inr st" "(journal_step E C)\<^sup>*\<^sup>* st st1"
    "configure E C None call st1 = (st2, r)"
  shows "if st_manifest st2 \<noteq> st_manifest st1
    then configure E C (Some fault) call st1 = (interrupted fault st1 st2, Inl (fault_error fault))
      \<and> latest_approved_integration_plan E C (interrupted fault st1 st2) = Inr None
      \<and> latest_verified_output E C (interrupted fault st1 st2) = Inr None
    else configure E C (Some fault) call st1 = (st2, r) \<and> st_saved st2 = st_saved st1 \<and> (st2 = st1 \<or> (\<exists>e. r = Inl e))"
proof -
  have "store_ok E st1" using histories_keep [OF assms(2) create_store_ok [OF assms(1)]] by simp
  from configure_careful [OF this, of C call] have "careful E C (\<lambda>fault. configure E C fault call) st1" .
  then have "if st_manifest st2 \<noteq> st_manifest st1
    then configure E C (Some fault) call st1 = (interrupted fault st1 st2, Inl (fault_error fault)) \<and> revoked E C st2
    else configure E C (Some fault) call st1 = (st2, r) \<and> st_saved st2 = st_saved st1 \<and> (st2 = st1 \<or> (\<exists>e. r = Inl e))"
    using assms(3) by (auto simp: careful_def)
  moreover have "revoked E C (interrupted fault st1 st2) = revoked E C st2" by (simp add: interrupted_def)
  ultimately show ?thesis unfolding revoked_def by (simp split: if_splits)
qed

end
