(* ===== verification/JournalPlans.thy ===== *)
theory JournalPlans
  imports JournalFacts
begin

text \<open>
  Plans in the journal: a sealed plan is found again, feedback withdraws it, and work that is complete is
  answered from the journal.
\<close>

section \<open>Reading back\<close>

definition digests_ok :: "externs \<Rightarrow> bool" where
  "digests_ok E \<longleftrightarrow> hex_lawful E \<and> (\<forall>b. length (sha256 E b) = 32)"

lemma digest_names: "digests_ok E \<Longrightarrow> length (hex_digest E b) = 64 \<and> list_all lower_hex (hex_digest E b)"
  by (simp add: digests_ok_def hex_lawful_def hex_digest_def domain_digest_def)

lemma read_stored:
  "digests_ok E \<Longrightarrow> btree_get (st_objects st) (hex_digest E b) = Some b \<Longrightarrow> read_object E (hex_digest E b) st = Inr b"
  using digest_names [of E b] by (simp add: read_object_def validate_hex_hash_def and_then_def bind_res_def require_def reject_def)

lemma put_stores:
  assumes "put_object E b st = (st1, Inr d)" "btree_ok (st_objects st)"
  shows "d = hex_digest E b" "btree_get (st_objects st1) d = Some b"
    "st1 = st\<lparr>st_objects := st_objects st1\<rparr>"
    "\<And>k v. btree_get (st_objects st) k = Some v \<Longrightarrow> btree_get (st_objects st1) k = Some v"
  using assms by (auto simp: put_object_def Let_def invalid_project_def split: option.splits if_splits)

text \<open>What could be read stays what it is while objects are only added.\<close>

definition more_objects :: "store \<Rightarrow> store \<Rightarrow> bool" where
  "more_objects st st1 \<longleftrightarrow> (\<forall>d b. btree_get (st_objects st) d = Some b \<longrightarrow> btree_get (st_objects st1) d = Some b)"

lemma more_objects_extends: "extends st st1 \<Longrightarrow> more_objects st st1"
  by (simp add: extends_def more_objects_def)

lemma read_object_more: "more_objects st st1 \<Longrightarrow> read_object E d st = Inr b \<Longrightarrow> read_object E d st1 = Inr b"
  by (auto simp: read_object_def more_objects_def and_then_def bind_res_def require_def split: sum.splits option.splits if_splits)

lemma parsed_object_more: "more_objects st st1 \<Longrightarrow> parsed_object E f d st = Inr v \<Longrightarrow> parsed_object E f d st1 = Inr v"
  by (auto simp: parsed_object_def bind_res_def dest: read_object_more split: sum.splits)

lemma latest_approval_more:
  "more_objects st st1 \<Longrightarrow> st_approvals st1 = st_approvals st \<Longrightarrow> latest_approval E f run k t st = Inr v \<Longrightarrow>
     latest_approval E f run k t st1 = Inr v"
  by (auto simp: latest_approval_def and_then_def bind_res_def dest: parsed_object_more split: sum.splits option.splits)

lemma regeneration_more:
  "more_objects st st1 \<Longrightarrow> st_feedback st1 = st_feedback st \<Longrightarrow> latest_cluster_regeneration E C run c st = Inr v \<Longrightarrow>
     latest_cluster_regeneration E C run c st1 = Inr v"
  by (auto simp: latest_cluster_regeneration_def bind_res_def dest: parsed_object_more split: sum.splits option.splits)

lemma revision_is_current_iff:
  "revision_is_current E C run st v = Inr True \<longleftrightarrow> (\<exists>a g. latest_approval E (read_revision C) run ''cluster'' (sp_cluster_id (rv_proposal v)) st
       = Inr (Some a) \<and> ar_target_hash a = hash_hex E (cr_critic_hash (rv_critic v)) \<and> ar_value a = v
     \<and> latest_cluster_regeneration E C run (sp_cluster_id (rv_proposal v)) st = Inr g \<and> \<not> superseded g v)"
  by (auto simp: revision_is_current_def bind_res_def split: sum.splits option.splits)

lemma all_current_iff: "all_current f xs = Inr True \<longleftrightarrow> (\<forall>x \<in> set xs. f x = Inr True)"
  by (induction xs) (auto split: sum.splits)

lemma plan_is_current_iff:
  "integration_plan_is_current E C run plan st = Inr True \<longleftrightarrow> (\<exists>t. latest_approval E (read_taxonomy C) run ''taxonomy'' ''taxonomy'' st
       = Inr (Some t) \<and> ar_target_hash t = hash_hex E (ta_taxonomy_hash (ip_taxonomy plan))
     \<and> at_taxonomy (ar_value t) = ip_taxonomy plan \<and> at_approval (ar_value t) = ip_taxonomy_approval plan
     \<and> at_corpus (ar_value t) = ip_corpus plan \<and> (\<forall>v \<in> set (ip_clusters plan). revision_is_current E C run st v = Inr True))"
  by (auto simp: integration_plan_is_current_def all_current_iff bind_res_def split: sum.splits option.splits)

text \<open>The plan that the latest run points at, when there is one.\<close>

definition plan_pointer :: "store \<Rightarrow> plan_row option" where
  "plan_pointer st = (case latest_run_row st of None \<Rightarrow> None
     | Some r \<Rightarrow> last_opt (filter (\<lambda>p. pw_run_id p = rr_run_id r) (st_plans st)))"

lemma from_core_simps [simp]: "from_core (Inr x) = Inr x" "from_core r = Inr y \<longleftrightarrow> r = Inr y"
  by (auto simp: from_core_def split: sum.split)

lemma latest_approved_eq:
  assumes "plan_pointer st = Some row" "read_object E (pw_object_id row) st = Inr b"
    "digest E (domain ''okc:integration-plan-object:v3'') [b] = pw_plan_hash row" "read_approved_plan C b = Some plan"
    "validate_plan E plan = Inr ()" "ip_integration_plan_id plan = pw_plan_id row"
  shows "latest_approved_integration_plan E C st =
    bind_res (integration_plan_is_current E C (pw_run_id row) plan st) (\<lambda>current. Inr (if current then Some plan else None))"
  unfolding latest_approved_integration_plan_def plan_pointer_def [symmetric]
  by (simp only: assms option.case bind_res_simps(1) and_then_simps(1) require_simps(1) reject_simps(4) from_core_simps(1) simp_thms)

lemma latest_approved_Some:
  assumes "latest_approved_integration_plan E C st = Inr (Some plan)"
  obtains row b where "plan_pointer st = Some row" "read_object E (pw_object_id row) st = Inr b"
    "digest E (domain ''okc:integration-plan-object:v3'') [b] = pw_plan_hash row" "read_approved_plan C b = Some plan"
    "validate_plan E plan = Inr ()" "ip_integration_plan_id plan = pw_plan_id row"
    "integration_plan_is_current E C (pw_run_id row) plan st = Inr True"
proof (cases "plan_pointer st")
  case (Some row)
  from assms have "\<exists>b. read_object E (pw_object_id row) st = Inr b \<and> digest E (domain ''okc:integration-plan-object:v3'') [b] = pw_plan_hash row
    \<and> (\<exists>p. read_approved_plan C b = Some p \<and> validate_plan E p = Inr () \<and> ip_integration_plan_id p = pw_plan_id row
      \<and> (\<exists>c. integration_plan_is_current E C (pw_run_id row) p st = Inr c \<and> (if c then Some p else None) = Some plan))"
    unfolding latest_approved_integration_plan_def plan_pointer_def [symmetric] Some option.case
    by (simp only: bind_res_simps(3) and_then_simps(3) require_simps(3) reject_simps(1) from_core_simps(2) sum.inject not_not)
  then obtain b p c where b: "read_object E (pw_object_id row) st = Inr b" "digest E (domain ''okc:integration-plan-object:v3'') [b] = pw_plan_hash row"
    and p: "read_approved_plan C b = Some p" "validate_plan E p = Inr ()" "ip_integration_plan_id p = pw_plan_id row"
    and c: "integration_plan_is_current E C (pw_run_id row) p st = Inr c" "(if c then Some p else None) = Some plan" by blast
  from c(2) have "c" "p = plan" by (simp_all split: if_splits)
  with b p c(1) show thesis by (intro that [OF Some, of b]) simp_all
qed (use assms in \<open>simp add: latest_approved_integration_plan_def plan_pointer_def [symmetric]\<close>)

section \<open>Feedback\<close>

lemma all_current_False: "(\<And>x. x \<in> set xs \<Longrightarrow> \<exists>b. f x = Inr b) \<Longrightarrow> x \<in> set xs \<Longrightarrow> f x = Inr False \<Longrightarrow> all_current f xs = Inr False"
proof (induction xs)
  case (Cons y ys)
  then obtain b where b: "f y = Inr b" by auto
  show ?case
  proof (cases "x = y")
    case False
    then have "all_current f ys = Inr False" using Cons by simp
    with b show ?thesis by (cases b) simp_all
  qed (use Cons.prems in simp)
qed simp

lemma regeneration_appends:
  assumes "append_cluster_regeneration E g st = (st1, Inr u)" "store_ok E st" "latest_run_row st = Some run"
  shows "st1 = st\<lparr>st_objects := st_objects st1, st_feedback := st_feedback st1\<rparr>"
    "\<exists>f. st_feedback st1 = st_feedback st @ [f] \<and> fr_run_id f = rr_run_id run \<and> fr_cluster_id f = rg_cluster_id g
       \<and> fr_feedback_object f = hex_digest E (to_canonical_json E (json_of_regeneration E g))"
    "btree_get (st_objects st1) (hex_digest E (to_canonical_json E (json_of_regeneration E g)))
       = Some (to_canonical_json E (json_of_regeneration E g))"
proof -
  have ok: "btree_ok (st_objects st)" using assms(2) by (simp add: store_ok_def objects_ok_def)
  have run: "latest_run st = Inr x \<Longrightarrow> x = Some run" for x
    using assms(3) by (auto simp: latest_run_def integration_status_of_def Let_def bind_res_def split: sum.splits)
  obtain d st2 where put: "put_object E (to_canonical_json E (json_of_regeneration E g)) st = (st2, Inr d)"
    and run_ok: "latest_run st = Inr (Some run)"
    and st1: "st1 = st2\<lparr>st_feedback := st_feedback st2 @
       [\<lparr>fr_run_id = rr_run_id run, fr_cluster_id = rg_cluster_id g, fr_revision = rg_revision g,
         fr_feedback_hash = rg_feedback_hash g, fr_feedback_object = d,
         fr_previous_proposal_hash = hash_hex E (rg_previous_proposal_hash g),
         fr_previous_critic_hash = hash_hex E (rg_previous_critic_hash g)\<rparr>]\<rparr>"
    using assms(1) run
    by (auto simp: append_cluster_regeneration_def op_bind_def stay_def bind_res_def require_def insert_row_def
      split: sum.splits option.splits prod.splits if_splits)
  note facts = put_stores [OF put ok]
  have same: "st_feedback st2 = st_feedback st" by (subst facts(3)) simp
  show "st1 = st\<lparr>st_objects := st_objects st1, st_feedback := st_feedback st1\<rparr>"
    unfolding st1 by (subst (1) facts(3)) simp
  show "\<exists>f. st_feedback st1 = st_feedback st @ [f] \<and> fr_run_id f = rr_run_id run \<and> fr_cluster_id f = rg_cluster_id g
       \<and> fr_feedback_object f = hex_digest E (to_canonical_json E (json_of_regeneration E g))"
    using same facts(1) by (simp add: st1)
  show "btree_get (st_objects st1) (hex_digest E (to_canonical_json E (json_of_regeneration E g)))
       = Some (to_canonical_json E (json_of_regeneration E g))"
    using facts(1,2) by (simp add: st1)
qed

lemma plan_pointer_run: "plan_pointer st = Some row \<Longrightarrow> \<exists>run. latest_run_row st = Some run \<and> pw_run_id row = rr_run_id run"
proof -
  assume row: "plan_pointer st = Some row"
  then obtain run where run: "latest_run_row st = Some run" by (auto simp: plan_pointer_def split: option.splits)
  with row have "row \<in> set (filter (\<lambda>p. pw_run_id p = rr_run_id run) (st_plans st))"
    by (auto simp: plan_pointer_def last_opt_def split: if_splits simp del: set_filter intro: last_in_set)
  with run show ?thesis by simp
qed

text \<open>C18: Feedback withdraws a plan. When a plan is in force and feedback is recorded that asks for a later
  revision of one of its clusters, the plan is no longer in force: the store answers that there is none,
  not an error and not the old plan.\<close>

theorem feedback_withdraws_plans:
  assumes "store_ok E st" "digests_ok E" "latest_approved_integration_plan E C st = Inr (Some plan)" "v \<in> set (ip_clusters plan)"
    and g: "rg_cluster_id g = sp_cluster_id (rv_proposal v)" "sp_revision (rv_proposal v) < rg_revision g"
      "read_regeneration C (to_canonical_json E (json_of_regeneration E g)) = Some g"
    and append: "append_cluster_regeneration E g st = (st1, Inr u)"
  shows "latest_approved_integration_plan E C st1 = Inr None"
proof -
  obtain row b where row: "plan_pointer st = Some row" "read_object E (pw_object_id row) st = Inr b"
    "digest E (domain ''okc:integration-plan-object:v3'') [b] = pw_plan_hash row" "read_approved_plan C b = Some plan"
    "validate_plan E plan = Inr ()" "ip_integration_plan_id plan = pw_plan_id row"
    and current: "integration_plan_is_current E C (pw_run_id row) plan st = Inr True"
    by (rule latest_approved_Some [OF assms(3)])
  obtain run where run: "latest_run_row st = Some run" "pw_run_id row = rr_run_id run" using plan_pointer_run [OF row(1)] by blast
  note added = regeneration_appends [OF append assms(1) run(1)]
  have approvals: "st_approvals st1 = st_approvals st" by (subst added(1)) simp
  have pointer: "plan_pointer st1 = plan_pointer st" by (subst added(1)) (simp add: plan_pointer_def latest_run_row_def cong: option.case_cong)
  have more: "more_objects st st1" using keepsD [OF keeps_journal(4) assms(1) _ append] by (simp add: more_objects_extends)
  let ?b = "to_canonical_json E (json_of_regeneration E g)"
  obtain f where f: "st_feedback st1 = st_feedback st @ [f]" "fr_run_id f = rr_run_id run" "fr_cluster_id f = rg_cluster_id g"
    "fr_feedback_object f = hex_digest E ?b" using added(2) by blast
  have new: "latest_cluster_regeneration E C (pw_run_id row) (rg_cluster_id g) st1 = Inr (Some g)"
    using read_stored [OF assms(2) added(3)] f g(3) run(2)
    by (simp add: latest_cluster_regeneration_def last_opt_filter_append parsed_object_def del: filter_append)
  have old: "latest_cluster_regeneration E C (pw_run_id row) c st1 = Inr y"
    if "latest_cluster_regeneration E C (pw_run_id row) c st = Inr y" "c \<noteq> rg_cluster_id g" for c y
  proof -
    let ?st = "st1\<lparr>st_feedback := st_feedback st\<rparr>"
    have "more_objects st ?st" using more by (simp add: more_objects_def)
    then have "latest_cluster_regeneration E C (pw_run_id row) c ?st = Inr y" using regeneration_more that(1) by fastforce
    moreover have "parsed_object E h d ?st = parsed_object E h d st1" for h :: "bytes \<Rightarrow> cluster_regeneration option" and d
      by (simp add: parsed_object_def read_object_def)
    ultimately show ?thesis using that(2) f(1,3)
      by (simp add: latest_cluster_regeneration_def last_opt_filter_append del: filter_append cong: option.case_cong)
  qed
  have revision: "\<exists>b. revision_is_current E C (pw_run_id row) st1 x = Inr b \<and> (x = v \<longrightarrow> \<not> b)" if x: "x \<in> set (ip_clusters plan)" for x
  proof -
    from current x obtain a h where a: "latest_approval E (read_revision C) (pw_run_id row) ''cluster'' (sp_cluster_id (rv_proposal x)) st = Inr (Some a)"
        "ar_target_hash a = hash_hex E (cr_critic_hash (rv_critic x))" "ar_value a = x"
      and h: "latest_cluster_regeneration E C (pw_run_id row) (sp_cluster_id (rv_proposal x)) st = Inr h"
      unfolding plan_is_current_iff revision_is_current_iff by blast
    have a1: "latest_approval E (read_revision C) (pw_run_id row) ''cluster'' (sp_cluster_id (rv_proposal x)) st1 = Inr (Some a)"
      by (rule latest_approval_more [OF more approvals a(1)])
    obtain h1 where h1: "latest_cluster_regeneration E C (pw_run_id row) (sp_cluster_id (rv_proposal x)) st1 = Inr h1"
      "x = v \<longrightarrow> h1 = Some g" using new old [OF h] g(1) by (cases "sp_cluster_id (rv_proposal x) = rg_cluster_id g") auto
    then show ?thesis using a a1 g(2) by (simp add: revision_is_current_def superseded_def)
  qed
  have "all_current (revision_is_current E C (pw_run_id row) st1) (ip_clusters plan) = Inr False"
    using revision [OF assms(4)] revision by (intro all_current_False [OF _ assms(4)]) auto
  moreover obtain t where t: "latest_approval E (read_taxonomy C) (pw_run_id row) ''taxonomy'' ''taxonomy'' st = Inr (Some t)"
    "ar_target_hash t = hash_hex E (ta_taxonomy_hash (ip_taxonomy plan))" "at_taxonomy (ar_value t) = ip_taxonomy plan"
    "at_approval (ar_value t) = ip_taxonomy_approval plan" "at_corpus (ar_value t) = ip_corpus plan"
    using current unfolding plan_is_current_iff by blast
  ultimately have "integration_plan_is_current E C (pw_run_id row) plan st1 = Inr False"
    using latest_approval_more [OF more approvals t(1)] by (simp add: integration_plan_is_current_def)
  then show ?thesis
    using latest_approved_eq [OF _ read_object_more [OF more row(2)] row(3-6)] row(1) pointer by simp
qed

section \<open>Sealing\<close>

lemma approved_clusters_Some: "approved_clusters f cs = Inr (Some vs) \<Longrightarrow> v \<in> set vs \<Longrightarrow> \<exists>c. f c = Inr (Some v)"
  by (induction cs arbitrary: vs) (auto split: sum.splits option.splits)

lemma approved_cluster_Some:
  "approved_cluster E C run st h c = Inr (Some v) \<longleftrightarrow> (\<exists>a g. latest_approval E (read_revision C) run ''cluster'' (cl_cluster_id c) st = Inr (Some a)
     \<and> ar_value a = v \<and> ar_target_hash a = hash_hex E (cr_critic_hash (rv_critic v)) \<and> sp_taxonomy_hash (rv_proposal v) = h
     \<and> latest_cluster_regeneration E C run (cl_cluster_id c) st = Inr g \<and> \<not> superseded g v)"
  by (auto simp: approved_cluster_def Let_def split: option.splits)

lemma latest_run_eq: "latest_run st = Inr x \<Longrightarrow> latest_run_row st = x"
  by (auto simp: latest_run_def integration_status_of_def Let_def)

text \<open>The approvals of the journal are filed under the clusters that they approve.\<close>

definition approvals_filed :: "externs \<Rightarrow> app_codec \<Rightarrow> store \<Rightarrow> bool" where
  "approvals_filed E C st \<longleftrightarrow> (\<forall>run c a. latest_approval E (read_revision C) run ''cluster'' c st = Inr (Some a)
     \<longrightarrow> sp_cluster_id (rv_proposal (ar_value a)) = c)"

text \<open>C17: A sealed plan is found again. When the approvals of the journal seal a plan, the plan is valid and
  it is the plan in force: the next reader of the store gets exactly it. Hypotheses: the reader of plan
  objects reads back what was written, and approvals are filed under the clusters they approve.\<close>

theorem sealed_plans_are_found:
  assumes "store_ok E st" "digests_ok E" "approvals_filed E C st"
    and sealed: "seal_latest_integration_plan E C st = (st1, Inr (Some plan))"
    and reads: "read_approved_plan C (to_canonical_json E (json_of_plan E plan)) = Some plan"
  shows "latest_approved_integration_plan E C st1 = Inr (Some plan)"
proof -
  obtain run t vs hs where run: "latest_run_row st = Some run"
    and t: "latest_approval E (read_taxonomy C) (rr_run_id run) ''taxonomy'' ''taxonomy'' st = Inr (Some t)"
      "ar_target_hash t = hash_hex E (ta_taxonomy_hash (at_taxonomy (ar_value t)))"
    and vs: "approved_clusters (approved_cluster E C (rr_run_id run) st (ta_taxonomy_hash (at_taxonomy (ar_value t))))
        (ta_clusters (at_taxonomy (ar_value t))) = Inr (Some vs)"
    and plan: "seal_plan E (at_corpus (ar_value t)) (at_taxonomy (ar_value t)) (at_approval (ar_value t)) vs hs = Inr plan"
    and stored: "\<exists>d. store_approved_integration_plan E (rr_run_id run) plan st = (st1, Inr d)"
    using sealed
    by (auto simp: seal_latest_integration_plan_def Let_def op_bind_def stay_def dest!: latest_run_eq
      split: sum.splits option.splits prod.splits if_splits)
  let ?b = "to_canonical_json E (json_of_plan E plan)"
  let ?row = "\<lparr>pw_run_id = rr_run_id run, pw_plan_id = ip_integration_plan_id plan,
    pw_plan_hash = digest E (domain ''okc:integration-plan-object:v3'') [?b], pw_object_id = hex_digest E ?b\<rparr>"
  have ok: "btree_ok (st_objects st)" using assms(1) by (simp add: store_ok_def objects_ok_def)
  obtain st2 d where put: "put_object E ?b st = (st2, Inr d)"
    and st1: "st1 = st2\<lparr>st_plans := st_plans st2 @ [?row\<lparr>pw_object_id := d\<rparr>]\<rparr>" and valid: "validate_plan E plan = Inr ()"
    using stored
    by (auto simp: store_approved_integration_plan_def Let_def op_bind_def stay_def insert_row_def
      split: sum.splits prod.splits if_splits)
  note facts = put_stores [OF put ok]
  have same: "st_runs st1 = st_runs st" "st_plans st1 = st_plans st @ [?row]" "st_approvals st1 = st_approvals st"
      "st_feedback st1 = st_feedback st" "st_objects st1 = st_objects st2"
    using facts(1) by (simp_all add: st1, (subst facts(3), simp)+)
  have more: "more_objects st st1" using facts(4) by (simp add: more_objects_def same(5))
  have pointer: "plan_pointer st1 = Some ?row"
    using run by (simp add: plan_pointer_def latest_run_row_def same last_opt_filter_append del: filter_append)
  have sealed_fields: "ip_taxonomy plan = at_taxonomy (ar_value t)" "ip_corpus plan = at_corpus (ar_value t)"
      "ip_taxonomy_approval plan = at_approval (ar_value t)" "set (ip_clusters plan) = set vs"
    using plan by (auto simp: seal_plan_def Let_def)
  have "revision_is_current E C (rr_run_id run) st1 v = Inr True" if v: "v \<in> set vs" for v
  proof -
    obtain c where "approved_cluster E C (rr_run_id run) st (ta_taxonomy_hash (at_taxonomy (ar_value t))) c = Inr (Some v)"
      using approved_clusters_Some [OF vs v] by blast
    then obtain a g where a: "latest_approval E (read_revision C) (rr_run_id run) ''cluster'' (cl_cluster_id c) st = Inr (Some a)"
        "ar_value a = v" "ar_target_hash a = hash_hex E (cr_critic_hash (rv_critic v))"
      and g: "latest_cluster_regeneration E C (rr_run_id run) (cl_cluster_id c) st = Inr g" "\<not> superseded g v"
      unfolding approved_cluster_Some by blast
    have c: "cl_cluster_id c = sp_cluster_id (rv_proposal v)" using assms(3) a(1,2) by (auto simp: approvals_filed_def)
    show ?thesis
      unfolding revision_is_current_iff
      using latest_approval_more [OF more same(3) a(1)] regeneration_more [OF more same(4) g(1)] a(2,3) g(2) c by auto
  qed
  then have "integration_plan_is_current E C (rr_run_id run) plan st1 = Inr True"
    unfolding plan_is_current_iff using latest_approval_more [OF more same(3) t(1)] t(2) sealed_fields by auto
  moreover have "read_object E (pw_object_id ?row) st1 = Inr ?b"
    using read_stored [OF assms(2), of st1 ?b] facts(1,2) same(5) by simp
  ultimately show ?thesis
    using latest_approved_eq [OF pointer _ _ reads valid] by simp
qed

section \<open>Resuming\<close>

lemma find_yields: "find p xs = Some x \<Longrightarrow> x \<in> set xs \<and> p x"
  by (auto simp: find_Some_iff)

lemma find_unique: "distinct (map f xs) \<Longrightarrow> x \<in> set xs \<Longrightarrow> find (\<lambda>y. f y = f x) xs = Some x"
  by (induction xs) auto

lemma register_row:
  assumes "register_task E C run stage key request st = (st1, Inr t)" "store_ok E st"
  obtains k row where "cache_key_hash E C key = Inr k" "ck_stage key = stage" "row \<in> set (st_tasks st1)" "tk_run_id row = rr_run_id run"
    "tk_cache_key row = k" "tk_task_id row = ts_task_id t" "tk_request_object row = hex_digest E request"
    "btree_get (st_objects st1) (hex_digest E request) = Some request"
proof -
  have ok: "btree_ok (st_objects st)" using assms(2) by (simp add: store_ok_def objects_ok_def)
  obtain k where k: "cache_key_hash E C key = Inr k" "ck_stage key = stage"
    using assms(1) by (auto simp: register_task_def split: sum.splits)
  obtain st2 r2 where put: "put_object E request st = (st2, r2)" by (cases "put_object E request st")
  have "\<exists>d. r2 = Inr d" using assms(1) put k by (cases r2) (auto simp: register_task_def op_bind_def)
  then obtain d where d: "r2 = Inr d" ..
  note facts = put_stores [OF put [unfolded d] ok]
  have "\<exists>row \<in> set (st_tasks st1). tk_run_id row = rr_run_id run \<and> tk_cache_key row = k \<and> tk_task_id row = ts_task_id t
      \<and> tk_request_object row = d \<and> st_objects st1 = st_objects st2"
  proof (cases "find_task st2 (rr_run_id run) k")
    case None
    then show ?thesis
      using assms(1) k put d
      by (auto simp: register_task_def op_bind_def stay_def insert_task_def Let_def task_state_of_def split: if_splits)
  next
    case (Some task)
    then obtain row where row: "row \<in> set (st_tasks st2)" "tk_run_id row = rr_run_id run" "tk_cache_key row = k" "tk_task_id row = task"
      by (auto simp: find_task_def dest!: find_yields)
    have t: "st1 = st2" "task_state_of st2 task = Inr t" "ts_request_object t = d"
      using assms(1) k put d Some by (auto simp: register_task_def op_bind_def invalid_project_def split: if_splits)
    have "distinct (map tk_task_id (st_tasks st2))"
      using keepsD [OF keeps_put [of E "\<lambda>_. True"] assms(2) _ put] by (simp add: store_ok_def tasks_ok_def)
    from find_unique [OF this row(1)] have "ts_task_id t = task" "ts_request_object t = tk_request_object row"
      using t(2) row(4) by (auto simp: task_state_of_def)
    with row t show ?thesis by auto
  qed
  with facts k show thesis by (auto intro: that)
qed

lemma complete_event:
  assumes "append_task_status E task TaskComplete (Some b) error st = (st1, Inr t)" "store_ok E st"
  shows "latest_event st1 task = Some \<lparr>te_task_id = task, te_status = status_str TaskComplete, te_response_object = Some (hex_digest E b),
      te_error_kind = error\<rparr>"
    and "btree_get (st_objects st1) (hex_digest E b) = Some b"
proof -
  have ok: "btree_ok (st_objects st)" using assms(2) by (simp add: store_ok_def objects_ok_def)
  obtain st2 r2 where put: "put_object E b st = (st2, r2)" by (cases "put_object E b st")
  obtain d where d: "r2 = Inr d" and st1: "st1 = st2\<lparr>st_events := st_events st2 @ [\<lparr>te_task_id = task,
      te_status = status_str TaskComplete, te_response_object = Some d, te_error_kind = error\<rparr>]\<rparr>"
    using assms(1) put
    by (auto simp: append_task_status_def optional_object_def op_bind_def stay_def insert_row_def split: sum.splits if_splits)
  note facts = put_stores [OF put [unfolded d] ok]
  show "latest_event st1 task = Some \<lparr>te_task_id = task, te_status = status_str TaskComplete,
      te_response_object = Some (hex_digest E b), te_error_kind = error\<rparr>"
    using facts(1) by (simp add: st1 latest_event_def last_opt_filter_append del: filter_append)
  show "btree_get (st_objects st1) (hex_digest E b) = Some b" using facts by (simp add: st1)
qed

lemma task_state_known:
  assumes "store_ok E st" "row \<in> set (st_tasks st)" "latest_event st (tk_task_id row) = Some e" "parse_status (te_status e) = Some s"
  obtains t where "task_state_of st (tk_task_id row) = Inr t" "ts_task_id t = tk_task_id row" "ts_request_object t = tk_request_object row"
    "ts_status t = s" "ts_response_object t = te_response_object e"
proof -
  have tasks: "tasks_ok st" using assms(1) by (simp add: store_ok_def)
  then obtain stage where "parse_stage (tk_stage row) = Some stage" using assms(2) by (auto simp: tasks_ok_def)
  moreover have "find (\<lambda>t. tk_task_id t = tk_task_id row) (st_tasks st) = Some row"
    using tasks assms(2) by (simp add: tasks_ok_def find_unique)
  ultimately have "task_state_of st (tk_task_id row) = Inr \<lparr>ts_task_id = tk_task_id row, ts_run_id = tk_run_id row, ts_stage = stage,
      ts_cache_key = tk_cache_key row, ts_request_object = tk_request_object row, ts_status = s,
      ts_response_object = te_response_object e, ts_error_kind = te_error_kind e\<rparr>"
    using assms(3,4) by (simp add: task_state_of_def)
  then show thesis by (rule that) simp_all
qed

text \<open>C19: Work that is complete is not asked for again. Once a task has been registered and completed with
  a response, then after any further history that has no newer event for the task, to register it again
  with the same run, key and request changes nothing, and returns the same task, complete, whose response
  is read back from the journal byte for byte.\<close>

theorem completed_work_is_resumed:
  assumes "store_ok E st" "digests_ok E"
    and first: "register_task E C run stage key request st = (st1, Inr t)"
    and complete: "append_task_status E (ts_task_id t) TaskComplete (Some b) None st1 = (st2, Inr t2)"
    and later: "(journal_step E C)\<^sup>*\<^sup>* st2 st3" "latest_event st3 (ts_task_id t) = latest_event st2 (ts_task_id t)"
  shows "\<exists>t4. register_task E C run stage key request st3 = (st3, Inr t4) \<and> ts_task_id t4 = ts_task_id t
    \<and> ts_status t4 = TaskComplete \<and> complete_task_response E Some t4 st3 = Inr b"
proof -
  obtain k row where k: "cache_key_hash E C key = Inr k" "ck_stage key = stage"
    and row: "row \<in> set (st_tasks st1)" "tk_run_id row = rr_run_id run" "tk_cache_key row = k" "tk_task_id row = ts_task_id t"
      "tk_request_object row = hex_digest E request" and request: "btree_get (st_objects st1) (hex_digest E request) = Some request"
    by (rule register_row [OF first assms(1)])
  have ok1: "store_ok E st1" using keepsD [OF keeps_register assms(1) _ first] by simp
  have ok2: "store_ok E st2" "extends st1 st2" using keepsD [OF keeps_status ok1 _ complete] by simp_all
  have ok3: "store_ok E st3" "extends st2 st3" using histories_keep [OF later(1) ok2(1)] by simp_all
  have ext: "extends st1 st3" using ok2(2) ok3(2) by (rule extends_trans)
  note event = complete_event [OF complete ok1]
  have row3: "row \<in> set (st_tasks st3)" using row(1) ext by (auto simp: extends_def prefix_def)
  have request3: "btree_get (st_objects st3) (hex_digest E request) = Some request" using request ext by (simp add: extends_def)
  have answer3: "btree_get (st_objects st3) (hex_digest E b) = Some b" using event(2) ok3(2) by (simp add: extends_def)
  have put: "put_object E request st3 = (st3, Inr (hex_digest E request))" using request3 by (simp add: put_object_def)
  have "tasks_ok st3" using ok3(1) by (simp add: store_ok_def)
  then have "find (\<lambda>t. (tk_run_id t, tk_cache_key t) = (tk_run_id row, tk_cache_key row)) (st_tasks st3) = Some row"
    using row3 by (intro find_unique) (simp_all add: tasks_ok_def)
  then have found: "find_task st3 (rr_run_id run) k = Some (ts_task_id t)" using row by (simp add: find_task_def)
  have latest: "latest_event st3 (tk_task_id row) = Some \<lparr>te_task_id = ts_task_id t, te_status = status_str TaskComplete,
      te_response_object = Some (hex_digest E b), te_error_kind = None\<rparr>" using event(1) later(2) row(4) by simp
  obtain t4 where t4: "task_state_of st3 (tk_task_id row) = Inr t4" "ts_task_id t4 = tk_task_id row"
      "ts_request_object t4 = tk_request_object row" "ts_status t4 = TaskComplete" "ts_response_object t4 = Some (hex_digest E b)"
    by (rule task_state_known [OF ok3(1) row3 latest, where s = TaskComplete]) (simp_all del: status_str.simps)
  have "register_task E C run stage key request st3 = (st3, Inr t4)"
    using k put found t4 row by (simp add: register_task_def op_bind_def)
  moreover have "complete_task_response E Some t4 st3 = Inr b"
    using t4 read_stored [OF assms(2) answer3] by (simp add: complete_task_response_def parsed_object_def)
  ultimately show ?thesis using t4 row by auto
qed

end
