(* ===== verification/DemoJournal.thy ===== *)
theory DemoJournal
  imports JournalPlans Demo
begin

text \<open>Witnesses for the properties of the project store: a small project on which their hypotheses hold.\<close>

abbreviation "dex \<equiv> demo_externs"

definition demo_manifest :: project_manifest where
  "demo_manifest = new_manifest ''n'' ''c'' ''p''"

lemma demo_names [simp]:
  "trim ''n'' = ''n''" "trim ''c'' = ''c''" "trim ''p'' = ''p''" "trim ''shorter'' = ''shorter''"
  "has_control ''n'' = False" "has_control ''c'' = False" "has_control ''p'' = False"
  "has_control ''taxonomy'' = False" "has_control ''cluster'' = False" "has_control ''facts'' = False"
  "profile_name_ok ''default''"
  by (simp_all add: trim_def trim_start_def trim_end_def has_control_def chars_def utf8_width_def is_control_def is_whitespace_def
    profile_name_ok_def is_ascii_alphanumeric_def is_ascii_alphabetic_def is_ascii_digit_def)

lemma demo_manifest_valid [simp]: "validate_manifest demo_manifest = Inr ()"
  by (simp add: demo_manifest_def new_manifest_def validate_manifest_def default_routes_def validate_routes_def
    project_schema_version_def adjacent_def check_evals)

definition demo_run :: run_record where
  "demo_run = \<lparr>rr_run_id = ''r'', rr_input_hash = '''', rr_config_hash = '''', rr_sequence = 1\<rparr>"

text \<open>A run with one organizer task and its exchange, and the approvals of the taxonomy and of the
  cluster; all objects are the same bytes.\<close>

definition demo_project :: "bytes \<Rightarrow> plan_row list \<Rightarrow> store" where
  "demo_project b plans = (let d = hex_digest dex b in
     \<lparr>st_root = ''/w/p.okc-project'', st_manifest = demo_manifest, st_saved = demo_manifest, st_locked = False, st_objects = [(d, b)],
      st_runs = [demo_run],
      st_tasks = [\<lparr>tk_task_id = ''t'', tk_run_id = ''r'', tk_stage = ''organizer'', tk_cache_key = '''', tk_request_object = d\<rparr>],
      st_events = [\<lparr>te_task_id = ''t'', te_status = ''complete'', te_response_object = Some d, te_error_kind = None\<rparr>],
      st_exchanges = [\<lparr>xc_run_id = ''r'', xc_task_id = ''t'', xc_recording_object = d, xc_recording_hash = hash_hex dex (demo_hash CHR ''R'')\<rparr>],
      st_revisions = [],
      st_approvals = [\<lparr>aw_run_id = ''r'', aw_kind = ''taxonomy'', aw_target_id = ''taxonomy'',
          aw_target_hash = hash_hex dex (ta_taxonomy_hash demo_taxonomy), aw_object_id = d\<rparr>,
        \<lparr>aw_run_id = ''r'', aw_kind = ''cluster'', aw_target_id = ''facts'', aw_target_hash = hash_hex dex (cr_critic_hash demo_critic),
          aw_object_id = d\<rparr>],
      st_source_sets = [], st_plans = plans, st_outputs = [], st_feedback = [], st_project_events = []\<rparr>)"

definition demo_feedback :: cluster_regeneration where
  "demo_feedback = \<lparr>rg_cluster_id = ''facts'', rg_revision = 2, rg_feedback = ''shorter'',
     rg_feedback_hash = cluster_feedback_hash dex ''facts'' 2 ''shorter'' (sp_proposal_hash demo_proposal) (cr_critic_hash demo_critic),
     rg_previous_proposal_hash = sp_proposal_hash demo_proposal, rg_previous_critic_hash = cr_critic_hash demo_critic\<rparr>"

definition demo_codec :: app_codec where
  "demo_codec = \<lparr>key_bytes = (\<lambda>_. ''''), sources_bytes = (\<lambda>_. ''''), config_bytes = (\<lambda>_. ''''),
     read_regeneration = (\<lambda>_. Some demo_feedback),
     read_taxonomy = (\<lambda>_. Some \<lparr>at_corpus = demo_corpus, at_taxonomy = demo_taxonomy, at_approval = demo_binding\<rparr>),
     read_revision = (\<lambda>_. Some demo_revision), read_approved_plan = (\<lambda>_. Some demo_plan)\<rparr>"

lemma demo_reads [simp]:
  "read_approved_plan demo_codec b = Some demo_plan" "read_regeneration demo_codec b = Some demo_feedback"
  by (simp_all add: demo_codec_def)

lemma demo_digests: "digests_ok dex"
  using demo_lawful by (simp add: digests_ok_def sha256_len_def)

lemma demo_project_ok:
  assumes "\<And>p. p \<in> set plans \<Longrightarrow> pw_run_id p = ''r'' \<and> pw_object_id p = hex_digest dex b"
  shows "store_ok dex (demo_project b plans)"
proof -
  have "(run, d) \<in> set (references (demo_project b plans)) \<Longrightarrow> run = ''r'' \<and> d = hex_digest dex b" for run d
    using assms by (auto simp: references_def demo_project_def Let_def)
  moreover have "objects_ok dex (demo_project b plans)" "runs_ok (demo_project b plans)" "manifests_ok (demo_project b plans)"
    by (simp_all add: objects_ok_def runs_ok_def manifests_ok_def demo_project_def Let_def btree_ok_def btree_get_def)
  moreover have "has_run (demo_project b plans) ''r''" "stored (demo_project b plans) (hex_digest dex b)"
    by (simp_all add: has_run_def stored_def demo_project_def demo_run_def Let_def btree_get_def)
  moreover have "tasks_ok (demo_project b plans)"
    by (simp add: tasks_ok_def has_task_def latest_event_def stored_def demo_project_def Let_def btree_get_def last_opt_def
      parse_stage_def parse_status_def)
  ultimately show ?thesis by (auto simp: store_ok_def)
qed

lemma demo_read: "read_object dex (hex_digest dex b) (demo_project b plans) = Inr b"
  by (rule read_stored [OF demo_digests]) (simp add: demo_project_def Let_def btree_get_def)

lemma demo_approvals:
  "latest_approval dex (read_taxonomy demo_codec) ''r'' ''taxonomy'' ''taxonomy'' (demo_project b plans)
    = Inr (Some \<lparr>ar_target_hash = hash_hex dex (ta_taxonomy_hash demo_taxonomy),
        ar_value = \<lparr>at_corpus = demo_corpus, at_taxonomy = demo_taxonomy, at_approval = demo_binding\<rparr>\<rparr>)"
  "latest_approval dex (read_revision demo_codec) ''r'' ''cluster'' ''facts'' (demo_project b plans)
    = Inr (Some \<lparr>ar_target_hash = hash_hex dex (cr_critic_hash demo_critic), ar_value = demo_revision\<rparr>)"
  "latest_cluster_regeneration dex demo_codec ''r'' c (demo_project b plans) = Inr None"
proof -
  have row: "st_approvals (demo_project b plans) = [\<lparr>aw_run_id = ''r'', aw_kind = ''taxonomy'', aw_target_id = ''taxonomy'',
          aw_target_hash = hash_hex dex (ta_taxonomy_hash demo_taxonomy), aw_object_id = hex_digest dex b\<rparr>,
        \<lparr>aw_run_id = ''r'', aw_kind = ''cluster'', aw_target_id = ''facts'', aw_target_hash = hash_hex dex (cr_critic_hash demo_critic),
          aw_object_id = hex_digest dex b\<rparr>]" and none: "st_feedback (demo_project b plans) = []"
    by (simp_all add: demo_project_def Let_def)
  show "latest_approval dex (read_taxonomy demo_codec) ''r'' ''taxonomy'' ''taxonomy'' (demo_project b plans)
    = Inr (Some \<lparr>ar_target_hash = hash_hex dex (ta_taxonomy_hash demo_taxonomy),
        ar_value = \<lparr>at_corpus = demo_corpus, at_taxonomy = demo_taxonomy, at_approval = demo_binding\<rparr>\<rparr>)"
    "latest_approval dex (read_revision demo_codec) ''r'' ''cluster'' ''facts'' (demo_project b plans)
    = Inr (Some \<lparr>ar_target_hash = hash_hex dex (cr_critic_hash demo_critic), ar_value = demo_revision\<rparr>)"
    "latest_cluster_regeneration dex demo_codec ''r'' c (demo_project b plans) = Inr None"
    by (simp_all add: latest_approval_def latest_cluster_regeneration_def row none last_opt_def parsed_object_def demo_read demo_codec_def
      validate_identifier_def check_evals)
qed

section \<open>A sealed plan, and feedback on it\<close>

lemma demo_latest_run: "latest_run (demo_project b plans) = Inr (Some demo_run)" "latest_run_row (demo_project b plans) = Some demo_run"
  "has_run (demo_project b plans) ''r''"
  by (simp_all add: latest_run_def integration_status_of_def latest_run_row_def has_run_def demo_project_def Let_def demo_run_def
    last_opt_def task_state_of_def latest_event_def parse_stage_def parse_status_def)

lemma demo_put: "put_object dex b (demo_project b plans) = (demo_project b plans, Inr (hex_digest dex b))"
  by (simp add: put_object_def demo_project_def Let_def btree_get_def)

lemma demo_insert_plan:
  "insert_row (\<lambda>st. has_run st ''r'') (\<lambda>st. st\<lparr>st_plans := st_plans st @ [p]\<rparr>) (demo_project b plans) = (demo_project b (plans @ [p]), Inr ())"
  by (simp add: insert_row_def demo_latest_run) (simp add: demo_project_def Let_def)

definition demo_pointer :: "bytes \<Rightarrow> plan_row" where
  "demo_pointer b = \<lparr>pw_run_id = ''r'', pw_plan_id = ip_integration_plan_id demo_plan,
     pw_plan_hash = digest dex (domain ''okc:integration-plan-object:v3'') [b], pw_object_id = hex_digest dex b\<rparr>"

lemma demo_pointer_fields [simp]:
  "pw_run_id (demo_pointer b) = ''r''" "pw_plan_id (demo_pointer b) = ip_integration_plan_id demo_plan"
  "pw_plan_hash (demo_pointer b) = digest dex (domain ''okc:integration-plan-object:v3'') [b]"
  "pw_object_id (demo_pointer b) = hex_digest dex b"
  by (simp_all add: demo_pointer_def)

definition demo_plan_bytes :: bytes where
  "demo_plan_bytes = to_canonical_json dex (json_of_plan dex demo_plan)"

lemma demo_recordings: "recording_hashes dex ''r'' (demo_project b plans) = Inr [demo_hash CHR ''R'']"
proof -
  have "parse_hex dex (hash_hex dex (demo_hash CHR ''R'')) = Inr (demo_hash CHR ''R'')"
    using demo_lawful demo_hash_ok [of "CHR ''R''"]
    by (auto simp: parse_hex_def hash_hex_def hash_ok_def hex_lawful_def split: content_hash.splits)
  then show ?thesis by (simp add: recording_hashes_def demo_project_def Let_def)
qed

lemma demo_approved:
  "approved_clusters (approved_cluster dex demo_codec ''r'' (demo_project b plans) (ta_taxonomy_hash demo_taxonomy)) [demo_cluster]
    = Inr (Some [demo_revision])"
proof -
  have "approved_cluster dex demo_codec ''r'' (demo_project b plans) (ta_taxonomy_hash demo_taxonomy) demo_cluster = Inr (Some demo_revision)"
    by (simp add: approved_cluster_Some demo_approvals demo_cluster_def superseded_def)
       (simp add: demo_revision_def demo_proposal_def seal_proposal_def)
  then show ?thesis by simp
qed

lemma demo_sealed: "seal_plan dex demo_corpus demo_taxonomy demo_binding [demo_revision] [demo_hash CHR ''R''] = Inr demo_plan"
  using demo_plan_valid by (simp add: seal_plan_def Let_def demo_plan_def integration_schema_version_def)

lemma demo_seal:
  "seal_latest_integration_plan dex demo_codec (demo_project demo_plan_bytes [])
    = (demo_project demo_plan_bytes [demo_pointer demo_plan_bytes], Inr (Some demo_plan))"
proof -
  have "store_approved_integration_plan dex ''r'' demo_plan (demo_project demo_plan_bytes [])
      = (demo_project demo_plan_bytes [demo_pointer demo_plan_bytes], Inr (hex_digest dex demo_plan_bytes))"
    using demo_insert_plan [of "demo_pointer demo_plan_bytes" demo_plan_bytes "[]"]
    by (simp add: store_approved_integration_plan_def Let_def op_bind_def stay_def demo_plan_valid demo_put demo_plan_bytes_def [symmetric]
      demo_pointer_def)
  moreover have "rr_run_id demo_run = ''r''" by (simp add: demo_run_def)
  moreover have "ta_clusters demo_taxonomy = [demo_cluster]" by (simp add: demo_taxonomy_def)
  ultimately show ?thesis
    by (simp add: seal_latest_integration_plan_def demo_latest_run demo_approvals demo_approved demo_recordings demo_sealed Let_def
      op_bind_def stay_def del: approved_clusters.simps)
qed

theorem sealed_plans_are_found_witness:
  "latest_approved_integration_plan dex demo_codec (fst (seal_latest_integration_plan dex demo_codec (demo_project demo_plan_bytes [])))
    = Inr (Some demo_plan)"
proof -
  have "approvals_filed dex demo_codec (demo_project demo_plan_bytes [])"
    by (auto simp: approvals_filed_def latest_approval_def parsed_object_def demo_project_def Let_def last_opt_def demo_codec_def
      demo_revision_def demo_proposal_def seal_proposal_def split: if_splits)
  from sealed_plans_are_found [OF demo_project_ok demo_digests this demo_seal] show ?thesis
    by (simp add: demo_seal)
qed

definition demo_feedback_bytes :: bytes where
  "demo_feedback_bytes = to_canonical_json dex (json_of_regeneration dex demo_feedback)"

lemma demo_revision_fields: "sp_cluster_id (rv_proposal demo_revision) = ''facts''" "rv_critic demo_revision = demo_critic"
  by (simp_all add: demo_revision_def demo_proposal_def seal_proposal_def)

lemma demo_in_force:
  "latest_approved_integration_plan dex demo_codec (demo_project b [demo_pointer b]) = Inr (Some demo_plan)"
proof -
  let ?st = "demo_project b [demo_pointer b]"
  have "plan_pointer ?st = Some (demo_pointer b)"
    by (simp add: plan_pointer_def demo_latest_run) (simp add: demo_project_def Let_def demo_run_def last_opt_def)
  moreover have "read_object dex (pw_object_id (demo_pointer b)) ?st = Inr b" by (simp add: demo_read)
  moreover have "revision_is_current dex demo_codec ''r'' ?st demo_revision = Inr True"
    unfolding revision_is_current_iff
    using demo_approvals(2) by (auto simp: demo_approvals(3) superseded_def demo_revision_fields)
  moreover from this have "integration_plan_is_current dex demo_codec ''r'' demo_plan ?st = Inr True"
    unfolding plan_is_current_iff by (simp add: demo_approvals demo_plan_def)
  ultimately show ?thesis
    using demo_plan_valid by (subst latest_approved_eq [where row = "demo_pointer b" and b = b and plan = demo_plan]) simp_all
qed

lemma demo_appends: "\<exists>st. append_cluster_regeneration dex demo_feedback (demo_project demo_feedback_bytes plans) = (st, Inr ())"
proof -
  have "rr_run_id demo_run = ''r''" by (simp add: demo_run_def)
  moreover have "rg_feedback_hash demo_feedback = cluster_feedback_hash dex (rg_cluster_id demo_feedback) (rg_revision demo_feedback)
      (rg_feedback demo_feedback) (rg_previous_proposal_hash demo_feedback) (rg_previous_critic_hash demo_feedback)"
    "rg_feedback demo_feedback = ''shorter''" "rg_revision demo_feedback = 2"
    by (simp_all add: demo_feedback_def)
  ultimately show ?thesis
    by (simp add: append_cluster_regeneration_def op_bind_def stay_def demo_latest_run demo_put [of demo_feedback_bytes, unfolded demo_feedback_bytes_def]
      demo_feedback_bytes_def insert_row_def)
qed

theorem feedback_withdraws_plans_witness:
  "\<exists>st. append_cluster_regeneration dex demo_feedback (demo_project demo_feedback_bytes [demo_pointer demo_feedback_bytes]) = (st, Inr ())
     \<and> latest_approved_integration_plan dex demo_codec st = Inr None"
proof -
  obtain st where append: "append_cluster_regeneration dex demo_feedback (demo_project demo_feedback_bytes [demo_pointer demo_feedback_bytes])
      = (st, Inr ())" using demo_appends by blast
  have fields: "rg_cluster_id demo_feedback = sp_cluster_id (rv_proposal demo_revision)"
    "sp_revision (rv_proposal demo_revision) < rg_revision demo_feedback"
    by (simp_all add: demo_feedback_def demo_revision_def demo_proposal_def seal_proposal_def)
  have "latest_approved_integration_plan dex demo_codec st = Inr None"
    by (rule feedback_withdraws_plans [OF demo_project_ok demo_digests demo_in_force _ fields _ append])
       (simp_all add: demo_plan_def)
  with append show ?thesis by blast
qed

section \<open>A new project\<close>

definition demo_store :: store where
  "demo_store = \<lparr>st_root = ''/w/p.okc-project'', st_manifest = demo_manifest, st_saved = demo_manifest, st_locked = False, st_objects = [],
     st_runs = [], st_tasks = [], st_events = [], st_exchanges = [], st_revisions = [], st_approvals = [], st_source_sets = [],
     st_plans = [], st_outputs = [], st_feedback = [], st_project_events = []\<rparr>"

lemma demo_create: "create_store ''/w/p.okc-project'' ''n'' ''c'' ''p'' = Inr demo_store"
proof -
  have "path_extension ''/w/p.okc-project'' = Some ''okc-project''" "eq_ignore_ascii_case ''okc-project'' ''okc-project''" by code_simp+
  then show ?thesis by (simp add: create_store_def Let_def demo_manifest_def [symmetric] demo_store_def)
qed

definition demo_started :: store where
  "demo_started = fst (begin_or_resume_run dex (replicate 64 CHR ''0'') (replicate 64 CHR ''1'') demo_store)"

lemma demo_start: "journal_step dex demo_codec demo_store demo_started"
  unfolding demo_started_def by (rule journal_step.intros(1)) (rule surjective_pairing)

lemma demo_history: "(journal_step dex demo_codec)\<^sup>*\<^sup>* demo_store demo_started"
  by (rule r_into_rtranclp) (rule demo_start)

lemma demo_started_eq: "\<exists>r. demo_started = demo_store\<lparr>st_runs := [r]\<rparr>"
proof -
  have "list_all lower_hex (replicate 64 CHR ''0'')" "list_all lower_hex (replicate 64 CHR ''1'')"
    by (simp_all add: list_all_iff lower_hex_def is_ascii_digit_def)
  then show ?thesis
    by (simp add: demo_started_def begin_or_resume_run_def validate_hex_hash_def latest_run_row_def last_opt_def op_bind_def insert_run_def
      demo_store_def Let_def)
qed

lemma demo_language: "validate_bcp47 ''ko'' = Inr ()"
  by (simp add: validate_bcp47_def suffix_to_prefix is_ascii_alphanumeric_def is_ascii_alphabetic_def is_ascii_digit_def)

definition demo_renamed :: store where
  "demo_renamed = fst (set_language dex demo_codec None (Some ''ko'') demo_started)"

lemma demo_rename: "journal_step dex demo_codec demo_started demo_renamed"
  unfolding demo_renamed_def by (rule journal_step.intros(11)) (rule surjective_pairing)

lemma demo_manifest_ko: "validate_manifest (demo_manifest\<lparr>mn_language := Some ''ko''\<rparr>) = Inr ()"
  by (simp add: demo_manifest_def new_manifest_def validate_manifest_def default_routes_def validate_routes_def demo_language
    project_schema_version_def adjacent_def check_evals)

lemma demo_invalidate: "\<exists>evs. invalidate_downstream dex demo_codec m reason (demo_started\<lparr>st_locked := l\<rparr>)
    = (demo_started\<lparr>st_locked := l, st_project_events := evs\<rparr>, Inr ())"
proof -
  obtain r where r: "demo_started = demo_store\<lparr>st_runs := [r]\<rparr>" using demo_started_eq by blast
  show ?thesis unfolding r
    by (simp add: invalidate_downstream_def Let_def latest_run_row_def last_opt_def has_work_def demo_store_def)
qed

lemma demo_renamed_manifest: "st_manifest demo_renamed \<noteq> st_manifest demo_started"
proof -
  obtain r where r: "demo_started = demo_store\<lparr>st_runs := [r]\<rparr>" using demo_started_eq by blast
  have fields: "st_manifest demo_started = demo_manifest" "mn_language demo_manifest = None" "\<not> st_locked demo_started"
    by (simp_all add: r demo_store_def demo_manifest_def new_manifest_def)
  obtain evs where "invalidate_downstream dex demo_codec (demo_manifest\<lparr>mn_language := Some ''ko''\<rparr>) ''project language changed''
      (demo_started\<lparr>st_locked := True\<rparr>) = (demo_started\<lparr>st_locked := True, st_project_events := evs\<rparr>, Inr ())"
    using demo_invalidate by blast
  then have "st_manifest demo_renamed = demo_manifest\<lparr>mn_language := Some ''ko''\<rparr>"
    by (simp add: demo_renamed_def set_language_def with_lock_def demo_language commit_configuration_def op_bind_def stay_def fields
      demo_manifest_ko save_manifest_def)
  then show ?thesis using fields by (auto dest: arg_cong [where f = mn_language])
qed

theorem journal_is_consistent_witness:
  "store_ok dex demo_started \<and> store_ok dex demo_renamed \<and> extends demo_started demo_renamed"
proof -
  have "(journal_step dex demo_codec)\<^sup>*\<^sup>* demo_started demo_renamed" by (rule r_into_rtranclp) (rule demo_rename)
  then show ?thesis by (rule journal_is_consistent [OF demo_create demo_history])
qed

theorem configuration_changes_revoke_authority_witness:
  "latest_approved_integration_plan dex demo_codec demo_renamed = Inr None \<and> latest_verified_output dex demo_codec demo_renamed = Inr None
    \<and> validate_manifest (st_manifest demo_renamed) = Inr ()"
proof -
  obtain x where x: "demo_started = demo_store\<lparr>st_runs := [x]\<rparr>" using demo_started_eq by blast
  have "st_saved demo_started = st_manifest demo_started" unfolding x by (simp add: demo_store_def)
  then show ?thesis using configuration_changes_revoke_authority [OF demo_create demo_history demo_rename] demo_renamed_manifest by blast
qed

theorem failed_manifest_writes_are_safe_witness:
  "\<exists>st. configure dex demo_codec (Some (ReplaceFault (AppIo NotFound))) (SetLanguage (Some ''ko'')) demo_started = (st, Inl (AppIo NotFound))
     \<and> st_manifest st = demo_manifest \<and> st_saved st = demo_manifest
     \<and> latest_approved_integration_plan dex demo_codec st = Inr None \<and> latest_verified_output dex demo_codec st = Inr None"
proof -
  obtain x where x: "demo_started = demo_store\<lparr>st_runs := [x]\<rparr>" using demo_started_eq by blast
  have old: "st_manifest demo_started = demo_manifest" "st_saved demo_started = demo_manifest" unfolding x by (simp_all add: demo_store_def)
  obtain r where "configure dex demo_codec None (SetLanguage (Some ''ko'')) demo_started = (demo_renamed, r)"
    unfolding demo_renamed_def configure.simps by (metis prod.collapse)
  from failed_manifest_writes_are_safe [OF demo_create demo_history this, of "ReplaceFault (AppIo NotFound)"]
  show ?thesis using demo_renamed_manifest old by (auto simp: interrupted_def)
qed

section \<open>A completed task\<close>

definition demo_key :: task_cache_key where
  "demo_key = \<lparr>ck_stage = CriticStage, ck_prompt_hash = replicate 64 CHR ''0'', ck_schema_hash = replicate 64 CHR ''0'',
     ck_source_hash = replicate 64 CHR ''0'', ck_provider = ''p'', ck_model = ''n'', ck_adapter = ''c'',
     ck_options_hash = replicate 64 CHR ''0''\<rparr>"

lemma demo_register: "\<exists>st t. register_task dex demo_codec demo_run CriticStage demo_key ''x'' (demo_project ''x'' []) = (st, Inr t)
    \<and> ts_task_id t \<in> tk_task_id ` set (st_tasks st)"
proof -
  have "list_all lower_hex (replicate 64 CHR ''0'')" by (simp add: list_all_iff lower_hex_def is_ascii_digit_def)
  then obtain k where k: "cache_key_hash dex demo_codec demo_key = Inr k" "length k = 64"
    using demo_digests
    by (simp add: cache_key_hash_def demo_key_def validate_hex_hash_def validate_identifier_def digest_def digests_ok_def hex_lawful_def check_evals)
  then have "k \<noteq> ''''" by auto
  then show ?thesis using k(1)
    by (simp add: register_task_def demo_put op_bind_def demo_key_def)
       (simp add: demo_project_def Let_def find_task_def insert_task_def has_task_def has_run_def demo_run_def op_bind_def stay_def
         task_state_of_def latest_event_def last_opt_def parse_stage_def parse_status_def)
qed

theorem completed_work_is_resumed_witness:
  "\<exists>st t t1. register_task dex demo_codec demo_run CriticStage demo_key ''x'' st = (st, Inr t1) \<and> ts_task_id t1 = t
     \<and> ts_status t1 = TaskComplete \<and> complete_task_response dex Some t1 st = Inr ''x''"
proof -
  obtain st t where first: "register_task dex demo_codec demo_run CriticStage demo_key ''x'' (demo_project ''x'' []) = (st, Inr t)"
    and has: "ts_task_id t \<in> tk_task_id ` set (st_tasks st)" using demo_register by blast
  have ok: "store_ok dex (demo_project ''x'' [])" by (rule demo_project_ok) simp
  obtain k row where row: "btree_get (st_objects st) (hex_digest dex ''x'') = Some ''x''" by (rule register_row [OF first ok]) blast
  have ok1: "store_ok dex st" using keepsD [OF keeps_register ok _ first] by simp
  have put: "put_object dex ''x'' st = (st, Inr (hex_digest dex ''x''))" using row by (simp add: put_object_def)
  obtain st2 t2 where complete: "append_task_status dex (ts_task_id t) TaskComplete (Some ''x'') None st = (st2, Inr t2)"
  proof -
    from has obtain r where r: "r \<in> set (st_tasks st)" "tk_task_id r = ts_task_id t" by auto
    then obtain stage where "parse_stage (tk_stage r) = Some stage" using ok1 by (auto simp: store_ok_def tasks_ok_def)
    moreover have "find (\<lambda>x. tk_task_id x = ts_task_id t) (st_tasks st) = Some r"
      using find_unique [of tk_task_id "st_tasks st" r] ok1 r by (simp add: store_ok_def tasks_ok_def)
    ultimately show thesis
      using that has put by (simp add: append_task_status_def optional_object_def op_bind_def stay_def insert_row_def has_task_def check_evals
        task_state_of_def latest_event_def last_opt_filter_append del: filter_append status_str.simps)
  qed
  from completed_work_is_resumed [OF ok demo_digests first complete rtranclp.rtrancl_refl refl] show ?thesis by blast
qed

end
