(* ===== verification/Spec2Isabelle.thy ===== *)
theory Spec2Isabelle
  imports DemoVault JobProps DemoPlanning ClientFacts ScannerFacts DemoJournal
begin

text \<open>
  Obsidian Knowledge Compiler (\<^verbatim>\<open>src/crates\<close>): a formal model of its core.

  The compiler reads Markdown vaults (snapshots), parses them into blocks and metadata, lets a
  provider organise, rewrite and criticise them cluster by cluster, has a curator approve the
  result, and compiles the approved plan, without any provider, into a new vault with an audit
  envelope. The model covers the part that carries the guarantees: identities, canonical JSON,
  policies, path rules, the integration plan and its validation, the materialisation, and the
  publication and verification of a compiled vault.

  Theories, in the order of the code:

  \<^item> \<open>Prelude\<close>: errors as values (\<open>error.rs\<close>), sequences of checks, loops with early returns, and the
    ordered map interface (locale \<open>ordered_map\<close>) that models \<open>BTreeMap\<close>.
  \<^item> \<open>Text\<close>: UTF-8, white space, ASCII case, path components: the parts of \<open>std\<close> the code uses.
  \<^item> \<open>Json\<close>: \<open>canonical.rs\<close> and \<open>json.rs\<close>: sorting of object keys and the strict visitor.
  \<^item> \<open>Identity\<close>: \<open>identity.rs\<close>: length-prefixed domain hashing, typed identifiers, snapshot manifests,
    Crockford suffixes. The locale \<open>prefix_code\<close> states what makes concatenations unambiguous.
  \<^item> \<open>Sources\<close>: \<open>config.rs\<close> and \<open>source.rs\<close>. \<open>Paths\<close>: the path rules and limits of \<open>snapshot.rs\<close>.
  \<^item> \<open>Corpus\<close>, \<open>Review\<close>, \<open>Approval\<close>: the data, sealing and validation half of \<open>integration.rs\<close>. The
    locale \<open>serialised\<close> states what every sealed type promises; it is interpreted on all of them.
  \<^item> \<open>Materialize\<close>: notes, redirects, provenance and manifests.
  \<^item> \<open>FileTree\<close>, \<open>Publish\<close>, \<open>PublishFacts\<close>, \<open>Vault\<close>: file trees, \<open>compile_with_hook\<close>, \<open>verify\<close> and
    \<open>explain\<close> against an oracle of failing system calls and interfering processes. \<open>vault_readable\<close> states the limits
    of the reader (manifest 1 MiB, plan 512 MiB); a vault beyond them is never published.
  \<^item> \<open>Interop\<close>, \<open>Jobs\<close>, \<open>JobFacts\<close>, \<open>JobProps\<close>: \<open>okc-interop\<close>: the stable errors of the language
    bindings and their job runtime, a transition system (\<open>step\<close>, \<open>reachable\<close>) whose actions are the
    critical sections of \<open>SharedJob\<close>, \<open>Scheduler::submit\<close> and \<open>worker_loop\<close>. \<open>runtime_inv\<close> is its
    invariant; \<open>weight\<close> bounds the length of the run that drains it. \<open>owned\<close> says which projects
    mutating jobs keep, \<open>fated\<close> and \<open>cancels\<close> which result a job can still get.
  \<^item> \<open>Ir\<close>: the canonical workspace of \<open>ir.rs\<close> and \<open>diagnostic.rs\<close>. \<open>Parse\<close>, \<open>ParseFacts\<close>: the
    scanners of \<open>parse.rs\<close> over bytes and offsets, and that no text is lost and every span selects
    what it claims. \<open>Dedup\<close>, \<open>DedupFacts\<close>: \<open>dedup.rs\<close>, exact groups and near-duplicate candidates.
  \<^item> \<open>Links\<close>, \<open>Alloc\<close>, \<open>Resolve\<close>, \<open>Rewrite\<close>, \<open>Operations\<close>, \<open>DraftPlan\<close>, \<open>Seal\<close>: \<open>plan.rs\<close>: output paths and
    conflicts, terminal link resolution, rewriting with its reparse, operations, and the sealed plan with
    its validators. \<open>LinkFacts\<close>: relative targets lead back. \<open>RewriteFacts\<close>: rewritten links read back;
    \<open>PlanFacts\<close>: what that gives for a built plan. \<open>SealFacts\<close>: validation as coverage of the workspace.
  \<^item> \<open>Schema\<close>, \<open>Providers\<close>, \<open>Wire\<close>, \<open>Client\<close>: \<open>okc-ai\<close>: portable JSON schemas and the check of answers,
    profiles and endpoints, the five vendors' wire formats, and the client with its retries. A run of
    the client is a function of what each round reads: token, clock, transport. \<open>SchemaFacts\<close>: the
    shapes that schemas denote, as a typing judgement. \<open>ProviderFacts\<close>: local endpoints, safe profiles.
    \<open>ClientFacts\<close>: bounded retries (three posts, a minute), redaction, typed generations, aligned vectors.
  \<^item> \<open>Scanner\<close>, \<open>ScannerFacts\<close>: \<open>okc-app\<close>: the scanner for secrets and personal data in \<open>project_state.rs\<close> and
    the disclosure gate; what a remote provider is shown has no finding.
  \<^item> \<open>Journal\<close>: \<open>okc-app\<close>: the project store (\<open>lib.rs\<close>) and its run journal (\<open>project_state.rs\<close>) as one record of
    manifest, objects and tables; an operation is a function of the store, its arguments and the fault of
    the manifest write. \<open>JournalFacts\<close>: the triples \<open>keeps\<close>, the consistency of every reachable store
    (\<open>journal_step\<close>), and that a configuration call writes the manifest last, when nothing is in force any
    more (\<open>careful\<close>), whichever write fails; only \<open>open\<close> may adopt a manifest with a plan in force. \<open>JournalPlans\<close>: sealed plans are
    found, feedback withdraws them, completed work is resumed.
  \<^item> \<open>Instances\<close>, \<open>Demo\<close>, \<open>DemoJournal\<close>, \<open>DemoDraft\<close>, \<open>DemoPlanning\<close>, \<open>DemoVault\<close>: a concrete instance of the parameters and a concrete plan that
    passes every gate, and with them a closed instance of every theorem that has hypotheses.

  Parameters. Third-party code is an argument, the record \<open>externs\<close>: SHA-256, the JSON printers,
  Unicode normalisation and case folding, hex coding and glob sets; \<open>readers\<close> holds the derived
  deserialisers. No theorem assumes that SHA-256 is injective: a conclusion about equal hashes
  names the two texts that would collide. Strings are lists of UTF-8 bytes.

  Not modelled yet: reading directories and archives, and the sequence of provider calls in
  \<open>integration_execution.rs\<close>. The command line and the terminal interface
  are input and output around the modelled functions.
\<close>

end
